(* ===== verification/Ledger_Prelude.thy ===== *)
theory Ledger_Prelude
  imports Main "HOL-Library.Word"
begin

text \<open>
  The library the component theories share: results with an error side (Rust's
  \<open>Result\<close>), the panic outcome, \<open>try_fold\<close> and the other iterator adapters the code
  uses, 64-bit signed machine integers with Rust's checked operations, the decimal
  printing of naturals and the collections of facts the component proofs use.
\<close>

section \<open>Results\<close>

text \<open>
  A Rust \<open>Result<T, E>\<close> is a value of \<open>'e + 'a\<close>: \<open>Inl\<close> the error and \<open>Inr\<close> the
  value. \<open>and_then\<close> is the \<open>?\<close> operator: the first error stops the function.
\<close>

fun and_then :: "'e + 'a \<Rightarrow> ('a \<Rightarrow> 'e + 'b) \<Rightarrow> 'e + 'b" where
  "and_then (Inl e) f = Inl e"
| "and_then (Inr x) f = f x"

fun map_err :: "('e \<Rightarrow> 'f) \<Rightarrow> 'e + 'a \<Rightarrow> 'f + 'a" where
  "map_err f (Inl e) = Inl (f e)"
| "map_err f (Inr x) = Inr x"

definition ok_or :: "'a option \<Rightarrow> 'e \<Rightarrow> 'e + 'a" where
  "ok_or x e = (case x of Some a \<Rightarrow> Inr a | None \<Rightarrow> Inl e)"

definition or_else :: "'a option \<Rightarrow> 'a option \<Rightarrow> 'a option" where
  "or_else x y = (case x of Some a \<Rightarrow> Some a | None \<Rightarrow> y)"

definition unwrap_or :: "'a option \<Rightarrow> 'a \<Rightarrow> 'a" where
  "unwrap_or x d = (case x of Some a \<Rightarrow> a | None \<Rightarrow> d)"

text \<open>
  Code that can also abort (an overflow of a \<open>Decimal\<close> operator, an \<open>unreachable!\<close>, a
  failed \<open>debug_assert!\<close>) returns a \<open>failure\<close>: an ordinary error or a panic.
\<close>

datatype 'e failure = Err 'e | Panic

type_synonym ('e, 'a) res = "'e failure + 'a"

definition lift_err :: "'e + 'a \<Rightarrow> ('e, 'a) res" where
  "lift_err = map_err Err"

text \<open>\<open>Iterator::try_fold\<close> and collecting an iterator of results.\<close>

fun try_fold :: "('b \<Rightarrow> 'a \<Rightarrow> 'e + 'b) \<Rightarrow> 'b \<Rightarrow> 'a list \<Rightarrow> 'e + 'b" where
  "try_fold f acc [] = Inr acc"
| "try_fold f acc (x # xs) = and_then (f acc x) (\<lambda>acc'. try_fold f acc' xs)"

fun try_map :: "('a \<Rightarrow> 'e + 'b) \<Rightarrow> 'a list \<Rightarrow> 'e + 'b list" where
  "try_map f [] = Inr []"
| "try_map f (x # xs) =
     and_then (f x) (\<lambda>y. and_then (try_map f xs) (\<lambda>ys. Inr (y # ys)))"

text \<open>A loop whose body only checks.\<close>

fun try_each :: "('a \<Rightarrow> 'e + unit) \<Rightarrow> 'a list \<Rightarrow> 'e + unit" where
  "try_each f [] = Inr ()"
| "try_each f (x # xs) = and_then (f x) (\<lambda>_. try_each f xs)"

fun find_map :: "('a \<Rightarrow> bool) \<Rightarrow> 'a list \<Rightarrow> 'a option" where
  "find_map P [] = None"
| "find_map P (x # xs) = (if P x then Some x else find_map P xs)"

subsection \<open>Facts about results\<close>

named_theorems result_simps "rewriting of results that are known to be Inr or Inl"

lemma and_then_Inr_iff [simp, result_simps]:
  "and_then r f = Inr y \<longleftrightarrow> (\<exists>x. r = Inr x \<and> f x = Inr y)"
  by (cases r) auto

lemma and_then_Inl_iff [result_simps]:
  "and_then r f = Inl e \<longleftrightarrow> r = Inl e \<or> (\<exists>x. r = Inr x \<and> f x = Inl e)"
  by (cases r) auto

lemma and_then_assoc: "and_then (and_then r f) g = and_then r (\<lambda>x. and_then (f x) g)"
  by (cases r) auto

lemma map_err_Inr_iff [simp, result_simps]: "map_err f r = Inr x \<longleftrightarrow> r = Inr x"
  by (cases r) auto

lemma map_err_Inl_iff [result_simps]: "map_err f r = Inl e \<longleftrightarrow> (\<exists>d. r = Inl d \<and> e = f d)"
  by (cases r) auto

lemma map_sum_Inr_iff: "map_sum g f r = Inr y \<longleftrightarrow> (\<exists>x. r = Inr x \<and> y = f x)"
  by (cases r) auto

lemma lift_err_Inr_iff [simp, result_simps]: "lift_err r = Inr x \<longleftrightarrow> r = Inr x"
  by (simp add: lift_err_def)

lemma lift_err_simps [simp]: "lift_err (Inr x) = Inr x" "lift_err (Inl e) = Inl (Err e)"
  by (simp_all add: lift_err_def)

lemma lift_err_not_Panic [simp]: "lift_err r \<noteq> Inl Panic"
  by (cases r) (auto simp: lift_err_def)

lemma ok_or_Inr_iff [simp, result_simps]: "ok_or x e = Inr a \<longleftrightarrow> x = Some a"
  by (auto simp: ok_or_def split: option.splits)

lemma ok_or_Inl_iff [simp, result_simps]: "ok_or x e = Inl d \<longleftrightarrow> x = None \<and> d = e"
  by (auto simp: ok_or_def split: option.splits)

lemma ok_or_simps [simp]: "ok_or (Some a) e = Inr a" "ok_or None e = Inl e"
  by (simp_all add: ok_or_def)

lemma or_else_simps [simp]: "or_else (Some a) y = Some a" "or_else None y = y"
  by (simp_all add: or_else_def)

lemma or_else_None_iff [simp]: "or_else x y = None \<longleftrightarrow> x = None \<and> y = None"
  by (cases x) auto

lemma unwrap_or_simps [simp]: "unwrap_or (Some a) d = a" "unwrap_or None d = d"
  by (simp_all add: unwrap_or_def)

lemma try_fold_append:
  "try_fold f acc (xs @ ys) = and_then (try_fold f acc xs) (\<lambda>acc'. try_fold f acc' ys)"
  by (induction xs arbitrary: acc) (simp_all add: and_then_assoc)

text \<open>
  An invariant of the step is an invariant of the fold: the rule every loop of the code
  that can stop with an error is proved by.
\<close>

lemma try_fold_invariant:
  assumes "try_fold f acc xs = Inr out" and "P acc"
    and "\<And>a x b. x \<in> set xs \<Longrightarrow> P a \<Longrightarrow> f a x = Inr b \<Longrightarrow> P b"
  shows "P out"
  using assms
proof (induction xs arbitrary: acc)
  case Nil
  then show ?case by simp
next
  case (Cons x xs)
  from Cons.prems(1) obtain b where b: "f acc x = Inr b" "try_fold f b xs = Inr out"
    by auto
  from Cons.prems(3)[OF _ Cons.prems(2) b(1)] have "P b" by simp
  with b(2) Cons.prems(3) show ?case by (intro Cons.IH[of b]) auto
qed

lemma try_fold_weighted:
  fixes w :: "'a \<Rightarrow> int"
  assumes "try_fold f acc xs = Inr out"
    and "\<And>a x b. x \<in> set xs \<Longrightarrow> f a x = Inr b \<Longrightarrow> v b = v a + w x"
  shows "v out = v acc + (\<Sum>x\<leftarrow>xs. w x)"
  using assms
proof (induction xs arbitrary: acc)
  case Nil
  then show ?case by simp
next
  case (Cons x xs)
  from Cons.prems(1) obtain b where b: "f acc x = Inr b" "try_fold f b xs = Inr out"
    by auto
  have "v out = v b + (\<Sum>x\<leftarrow>xs. w x)"
    using b(2) Cons.prems(2) by (intro Cons.IH) auto
  moreover have "v b = v acc + w x" using b(1) Cons.prems(2) by simp
  ultimately show ?case by simp
qed

lemma try_map_Inr_iff: "try_map f xs = Inr ys \<longleftrightarrow> list_all2 (\<lambda>x y. f x = Inr y) xs ys"
proof (induction xs arbitrary: ys)
  case Nil
  then show ?case by auto
next
  case (Cons x xs)
  show ?case by (cases ys) (auto simp: Cons.IH)
qed

lemma try_map_function: "try_map f xs = Inr ys \<Longrightarrow> (\<And>x y. f x = Inr y \<Longrightarrow> y = g x) \<Longrightarrow> ys = map g xs"
  by (induction xs arbitrary: ys) auto

lemma try_map_hits: "try_map f xs = Inr ys \<Longrightarrow> x \<in> set xs \<Longrightarrow> \<exists>y \<in> set ys. f x = Inr y"
  by (induction xs arbitrary: ys) auto

lemma try_map_length: "try_map f xs = Inr ys \<Longrightarrow> length ys = length xs"
  by (auto simp: try_map_Inr_iff dest: list_all2_lengthD)

lemma try_each_Inr_iff [simp]: "try_each f xs = Inr u \<longleftrightarrow> (\<forall>x \<in> set xs. f x = Inr ())"
  by (induction xs) auto

lemma try_each_Inl: "try_each f xs = Inl e \<Longrightarrow> \<exists>x \<in> set xs. f x = Inl e"
  by (induction xs) (auto simp: and_then_Inl_iff)

lemma find_map_Some: "find_map P xs = Some x \<Longrightarrow> x \<in> set xs \<and> P x"
  by (induction xs) (auto split: if_splits)

lemma find_map_None: "find_map P xs = None \<longleftrightarrow> (\<forall>x \<in> set xs. \<not> P x)"
  by (induction xs) auto

section \<open>64-bit signed integers\<close>

type_synonym i64 = "64 word"

definition in_i64 :: "int \<Rightarrow> bool" where
  "in_i64 x \<longleftrightarrow> - (2 ^ 63) \<le> x \<and> x < 2 ^ 63"

definition to_i64 :: "int \<Rightarrow> i64 option" where
  "to_i64 x = (if in_i64 x then Some (word_of_int x) else None)"

text \<open>\<open>i64::checked_add\<close>, \<open>checked_sub\<close> and \<open>checked_neg\<close>: \<open>None\<close> instead of wrapping.\<close>

definition i64_checked_add :: "i64 \<Rightarrow> i64 \<Rightarrow> i64 option" where
  "i64_checked_add a b = to_i64 (sint a + sint b)"

definition i64_checked_sub :: "i64 \<Rightarrow> i64 \<Rightarrow> i64 option" where
  "i64_checked_sub a b = to_i64 (sint a - sint b)"

definition i64_checked_neg :: "i64 \<Rightarrow> i64 option" where
  "i64_checked_neg a = to_i64 (- sint a)"

text \<open>\<open>i64::unsigned_abs\<close>, as the natural number the \<open>u64\<close> result denotes.\<close>

definition i64_unsigned_abs :: "i64 \<Rightarrow> nat" where
  "i64_unsigned_abs a = nat \<bar>sint a\<bar>"

lemma sint_in_i64 [simp]: "in_i64 (sint (a :: i64))"
  using sint_greater_eq[of a] sint_less[of a] by (simp add: in_i64_def)

lemma sint_of_int_i64 [simp]: "in_i64 x \<Longrightarrow> sint (word_of_int x :: i64) = x"
  by (simp add: in_i64_def sint_sbintrunc' signed_take_bit_int_eq_self)

lemma to_i64_Some_iff: "to_i64 x = Some w \<longleftrightarrow> sint w = x"
  by (auto simp: to_i64_def)

lemma to_i64_None_iff: "to_i64 x = None \<longleftrightarrow> \<not> in_i64 x"
  by (simp add: to_i64_def)

lemma in_i64_0 [simp]: "in_i64 0"
  by (simp add: in_i64_def)

section \<open>Decimal digits\<close>

text \<open>\<open>{}\<close> on an unsigned integer, and \<open>{:02}\<close> below one hundred.\<close>

definition digit_char :: "nat \<Rightarrow> char" where
  "digit_char d = char_of (48 + d)"

fun show_nat :: "nat \<Rightarrow> string" where
  "show_nat n =
     (if n < 10 then [digit_char n] else show_nat (n div 10) @ [digit_char (n mod 10)])"

declare show_nat.simps [simp del]

definition show_nat_02 :: "nat \<Rightarrow> string" where
  "show_nat_02 n = (if n < 10 then CHR ''0'' # show_nat n else show_nat n)"

fun digits_value :: "nat \<Rightarrow> string \<Rightarrow> nat" where
  "digits_value acc [] = acc"
| "digits_value acc (c # cs) = digits_value (10 * acc + (of_char c - 48)) cs"

lemma of_char_digit [simp]: "d < 10 \<Longrightarrow> of_char (digit_char d) = (48 + d :: nat)"
  by (simp add: digit_char_def)

lemma digits_value_append: "digits_value acc (xs @ ys) = digits_value (digits_value acc xs) ys"
  by (induction xs arbitrary: acc) auto

lemma digits_value_show: "digits_value 0 (show_nat n) = n"
proof (induction n rule: show_nat.induct)
  case (1 n)
  show ?case
  proof (cases "n < 10")
    case True
    then show ?thesis by (subst show_nat.simps) simp
  next
    case False
    with 1 have "digits_value 0 (show_nat (n div 10)) = n div 10" by simp
    with False show ?thesis by (subst show_nat.simps) (simp add: digits_value_append)
  qed
qed

lemma show_nat_inj: "show_nat m = show_nat n \<Longrightarrow> m = n"
  using digits_value_show by metis

lemma show_nat_digits: "c \<in> set (show_nat n) \<Longrightarrow> 48 \<le> (of_char c :: nat) \<and> of_char c < (58 :: nat)"
proof (induction n rule: show_nat.induct)
  case (1 n)
  show ?case
  proof (cases "n < 10")
    case True
    with 1(2) have "c = digit_char n" by (subst (asm) show_nat.simps) simp
    with True show ?thesis by simp
  next
    case False
    with 1(2) have "c \<in> set (show_nat (n div 10)) \<or> c = digit_char (n mod 10)"
      by (subst (asm) show_nat.simps) auto
    with 1(1) False show ?thesis by auto
  qed
qed

lemma show_nat_nonempty [simp]: "show_nat n \<noteq> []"
  by (subst show_nat.simps) simp

section \<open>Text\<close>

fun starts_with :: "string \<Rightarrow> string \<Rightarrow> bool" where
  "starts_with [] s = True"
| "starts_with (c # cs) [] = False"
| "starts_with (c # cs) (d # ds) = (c = d \<and> starts_with cs ds)"

lemma starts_with_append [simp]: "starts_with p (p @ s)"
  by (induction p) auto

lemma starts_with_iff: "starts_with p s \<longleftrightarrow> take (length p) s = p"
  by (induction p s rule: starts_with.induct) auto

end
