(* ===== verification/Money.thy ===== *)
theory Money
  imports Ledger_Prelude
begin

text \<open>
  \<open>crates/ledger-core/src/money.rs\<close>: the signed amount in cents that every other
  component computes with. The stored value is a 64-bit word; each operation is exact or
  refuses with \<open>Overflow\<close>, never wraps.
\<close>

section \<open>The type and its operations\<close>

datatype money = Money (minor: i64)

datatype money_error = Overflow | OutOfRange string

definition ZERO :: money where
  "ZERO = Money 0"

definition from_minor :: "i64 \<Rightarrow> money" where
  "from_minor m = Money m"

definition checked_add :: "money \<Rightarrow> money \<Rightarrow> money_error + money" where
  "checked_add self rhs =
     ok_or (map_option Money (i64_checked_add (minor self) (minor rhs))) Overflow"

definition checked_sub :: "money \<Rightarrow> money \<Rightarrow> money_error + money" where
  "checked_sub self rhs =
     ok_or (map_option Money (i64_checked_sub (minor self) (minor rhs))) Overflow"

definition checked_neg :: "money \<Rightarrow> money_error + money" where
  "checked_neg self = ok_or (map_option Money (i64_checked_neg (minor self))) Overflow"

definition checked_sum :: "money list \<Rightarrow> money_error + money" where
  "checked_sum amounts = try_fold (\<lambda>acc amount. checked_add acc amount) ZERO amounts"

definition is_zero :: "money \<Rightarrow> bool" where
  "is_zero self \<longleftrightarrow> minor self = 0"

definition is_negative :: "money \<Rightarrow> bool" where
  "is_negative self \<longleftrightarrow> minor self <s 0"

text \<open>\<open>Display\<close>: a leading minus, the dollars, a point and two places of cents.\<close>

definition display :: "money \<Rightarrow> string" where
  "display self =
     (let sgn = (if minor self <s 0 then ''-'' else '''');
          magnitude = i64_unsigned_abs (minor self)
      in sgn @ show_nat (magnitude div 100) @ ''.'' @ show_nat_02 (magnitude mod 100))"

section \<open>The integer an amount denotes\<close>

text \<open>
  \<open>cents\<close> is the specification's reading of an amount; the facts below let every later
  proof work over \<open>int\<close>. They are collected in \<open>money_simps\<close>.
\<close>

definition cents :: "money \<Rightarrow> int" where
  "cents m = sint (minor m)"

definition money_of :: "int \<Rightarrow> money" where
  "money_of x = Money (word_of_int x)"

named_theorems money_simps "operations on amounts, read as integers"

lemma cents_inject: "cents a = cents b \<longleftrightarrow> a = b"
  by (cases a; cases b) (auto simp: cents_def intro: signed_word_eqI)

lemma cents_in_i64 [simp]: "in_i64 (cents m)"
  by (simp add: cents_def)

lemma cents_bounds: "- (2 ^ 63) \<le> cents m" "cents m < 2 ^ 63"
  using cents_in_i64[of m] by (simp_all add: in_i64_def)

lemma cents_money_of [simp]: "in_i64 x \<Longrightarrow> cents (money_of x) = x"
  by (simp add: cents_def money_of_def)

lemma money_of_cents [simp]: "money_of (cents m) = m"
  by (cases m) (simp add: cents_def money_of_def)

lemma cents_ZERO [simp, money_simps]: "cents ZERO = 0"
  by (simp add: cents_def ZERO_def)

lemma checked_add_Inr [money_simps]: "checked_add a b = Inr c \<longleftrightarrow> cents c = cents a + cents b"
  by (cases c) (auto simp: checked_add_def i64_checked_add_def cents_def to_i64_Some_iff)

lemma checked_sub_Inr [money_simps]: "checked_sub a b = Inr c \<longleftrightarrow> cents c = cents a - cents b"
  by (cases c) (auto simp: checked_sub_def i64_checked_sub_def cents_def to_i64_Some_iff)

lemma checked_neg_Inr [money_simps]: "checked_neg a = Inr c \<longleftrightarrow> cents c = - cents a"
  by (cases c) (auto simp: checked_neg_def i64_checked_neg_def cents_def to_i64_Some_iff)

lemma checked_add_eq:
  "checked_add a b =
     (if in_i64 (cents a + cents b) then Inr (money_of (cents a + cents b)) else Inl Overflow)"
  by (simp add: checked_add_def i64_checked_add_def to_i64_def cents_def money_of_def)

lemma checked_sub_eq:
  "checked_sub a b =
     (if in_i64 (cents a - cents b) then Inr (money_of (cents a - cents b)) else Inl Overflow)"
  by (simp add: checked_sub_def i64_checked_sub_def to_i64_def cents_def money_of_def)

lemma checked_neg_eq:
  "checked_neg a = (if in_i64 (- cents a) then Inr (money_of (- cents a)) else Inl Overflow)"
  by (simp add: checked_neg_def i64_checked_neg_def to_i64_def cents_def money_of_def)

lemmas checked_eqs = checked_add_eq checked_sub_eq checked_neg_eq

lemma is_zero_cents [money_simps]: "is_zero m \<longleftrightarrow> cents m = 0"
  by (cases m) (simp add: is_zero_def cents_def signed_eq_0_iff)

lemma is_negative_cents [money_simps]: "is_negative m \<longleftrightarrow> cents m < 0"
  by (simp add: is_negative_def cents_def word_sless_alt)

lemma eq_ZERO_cents [money_simps]: "m = ZERO \<longleftrightarrow> cents m = 0"
  using cents_inject[of m ZERO] by simp

section \<open>Sums over an exact amount type\<close>

text \<open>
  What the callers of the money type rely on: a reading into the integers, operations that
  either give the exact integer result or refuse, and refusal only when the exact result
  has no representation. Everything about totals is proved from these laws alone.
\<close>

locale exact_amounts =
  fixes val :: "'m \<Rightarrow> int"
    and zero :: "'m"
    and add :: "'m \<Rightarrow> 'm \<Rightarrow> 'e + 'm"
    and representable :: "int \<Rightarrow> bool"
  assumes val_representable: "representable (val a)"
    and val_zero: "val zero = 0"
    and add_exact: "add a b = Inr c \<longleftrightarrow> val c = val a + val b"
    and add_total: "representable (val a + val b) \<Longrightarrow> \<exists>c. add a b = Inr c"
    and representable_convex: "representable x \<Longrightarrow> representable z \<Longrightarrow> x \<le> y \<Longrightarrow> y \<le> z \<Longrightarrow> representable y"
begin

lemma sum_from_exact: "try_fold add acc ms = Inr s \<Longrightarrow> val s = val acc + (\<Sum>m\<leftarrow>ms. val m)"
  by (rule try_fold_weighted[where v = val and w = val]) (auto simp: add_exact)

lemma sum_exact: "try_fold add zero ms = Inr s \<Longrightarrow> val s = (\<Sum>m\<leftarrow>ms. val m)"
  using sum_from_exact[of zero ms s] by (simp add: val_zero)

lemma sum_from_succeeds_iff:
  "(\<exists>s. try_fold add acc ms = Inr s) \<longleftrightarrow>
     (\<forall>k \<le> length ms. representable (val acc + (\<Sum>m\<leftarrow>take k ms. val m)))"
proof (induction ms arbitrary: acc)
  case Nil
  then show ?case by (simp add: val_representable)
next
  case (Cons m ms)
  have shift: "(\<forall>k \<le> length (m # ms). representable (val acc + (\<Sum>x\<leftarrow>take k (m # ms). val x))) \<longleftrightarrow>
      (\<forall>k \<le> length ms. representable (val acc + val m + (\<Sum>x\<leftarrow>take k ms. val x)))"
    (is "?all \<longleftrightarrow> ?tail")
  proof
    assume all: ?all
    show ?tail
    proof (intro allI impI)
      fix k assume "k \<le> length ms"
      with all have "representable (val acc + (\<Sum>x\<leftarrow>take (Suc k) (m # ms). val x))"
        by (simp only: length_Cons Suc_le_mono)
      then show "representable (val acc + val m + (\<Sum>x\<leftarrow>take k ms. val x))"
        by (simp add: add.assoc)
    qed
  next
    assume tail: ?tail
    show ?all
    proof (intro allI impI)
      fix k assume k: "k \<le> length (m # ms)"
      show "representable (val acc + (\<Sum>x\<leftarrow>take k (m # ms). val x))"
        using k tail by (cases k) (auto simp: val_representable add.assoc)
    qed
  qed
  show ?case
  proof (cases "\<exists>c. add acc m = Inr c")
    case True
    then obtain c where c: "add acc m = Inr c" by blast
    then have "val c = val acc + val m" by (simp add: add_exact)
    with c Cons.IH[of c] shift show ?thesis by simp
  next
    case False
    then have "\<not> representable (val acc + val m)" using add_total by blast
    with False shift show ?thesis by (auto dest: spec[of _ 0])
  qed
qed

lemma sum_succeeds_nonneg:
  assumes nonneg: "\<And>m. m \<in> set ms \<Longrightarrow> 0 \<le> val m"
  shows "(\<exists>s. try_fold add zero ms = Inr s) \<longleftrightarrow> representable (\<Sum>m\<leftarrow>ms. val m)"
proof -
  have rep: "representable (\<Sum>m\<leftarrow>take k ms. val m)"
    if total: "representable (\<Sum>m\<leftarrow>ms. val m)" for k
  proof (rule representable_convex)
    show "representable 0" using val_representable[of zero] by (simp add: val_zero)
    show "representable (\<Sum>m\<leftarrow>ms. val m)" by (rule total)
    show "0 \<le> (\<Sum>m\<leftarrow>take k ms. val m)"
      by (rule sum_list_nonneg) (auto dest: in_set_takeD intro: nonneg)
    have "0 \<le> (\<Sum>m\<leftarrow>drop k ms. val m)"
      by (rule sum_list_nonneg) (auto dest: in_set_dropD intro: nonneg)
    moreover have "(\<Sum>m\<leftarrow>ms. val m) = (\<Sum>m\<leftarrow>take k ms. val m) + (\<Sum>m\<leftarrow>drop k ms. val m)"
      by (metis append_take_drop_id map_append sum_list_append)
    ultimately show "(\<Sum>m\<leftarrow>take k ms. val m) \<le> (\<Sum>m\<leftarrow>ms. val m)" by linarith
  qed
  have "(\<forall>k \<le> length ms. representable (\<Sum>m\<leftarrow>take k ms. val m)) \<longleftrightarrow>
      representable (\<Sum>m\<leftarrow>ms. val m)"
    using rep by (auto dest: spec[of _ "length ms"])
  then show ?thesis using sum_from_succeeds_iff[of zero ms] by (simp add: val_zero)
qed

end

interpretation amounts: exact_amounts cents ZERO checked_add in_i64
proof unfold_locales
  show "\<exists>c. checked_add a b = Inr c" if "in_i64 (cents a + cents b)" for a b
    using that by (simp add: checked_add_eq)
  show "in_i64 y" if "in_i64 x" "in_i64 z" "x \<le> y" "y \<le> z" for x y z
    using that by (simp add: in_i64_def)
qed (simp_all add: money_simps)

lemma checked_sum_cents: "checked_sum ms = Inr s \<Longrightarrow> cents s = (\<Sum>m\<leftarrow>ms. cents m)"
  unfolding checked_sum_def by (rule amounts.sum_exact)

lemma checked_sum_nonneg_succeeds:
  "(\<And>m. m \<in> set ms \<Longrightarrow> 0 \<le> cents m) \<Longrightarrow>
     (\<exists>s. checked_sum ms = Inr s) \<longleftrightarrow> in_i64 (\<Sum>m\<leftarrow>ms. cents m)"
  unfolding checked_sum_def by (rule amounts.sum_succeeds_nonneg)

definition running_totals :: "money list \<Rightarrow> int list" where
  "running_totals ms = map (\<lambda>k. \<Sum>m\<leftarrow>take k ms. cents m) [0..<Suc (length ms)]"

section \<open>Properties\<close>

text \<open>
  Totalling amounts is exact or refused: \<open>checked_sum\<close> returns the mathematical sum of
  the cents, and it refuses exactly when some running total along the way has no 64-bit
  representation. It never wraps.
\<close>

theorem checked_sum_exact_or_refused:
  "case checked_sum ms of
      Inr s \<Rightarrow> cents s = (\<Sum>m\<leftarrow>ms. cents m) \<and> list_all in_i64 (running_totals ms)
    | Inl e \<Rightarrow> e = Overflow \<and> list_ex (\<lambda>total. \<not> in_i64 total) (running_totals ms)"
proof (cases "checked_sum ms")
  case (Inr s)
  moreover have "list_all in_i64 (running_totals ms)"
    using amounts.sum_from_succeeds_iff[of ZERO ms] Inr
    by (auto simp: checked_sum_def running_totals_def list_all_iff simp del: upt_Suc)
  ultimately show ?thesis by (simp add: checked_sum_cents)
next
  case (Inl e)
  have only: "e = Overflow" if "try_fold checked_add acc ms = Inl e" for acc
    using that by (induction ms arbitrary: acc)
      (auto simp: and_then_Inl_iff checked_add_eq split: if_splits)
  have "list_ex (\<lambda>total. \<not> in_i64 total) (running_totals ms)"
    using amounts.sum_from_succeeds_iff[of ZERO ms] Inl
    by (auto simp: checked_sum_def running_totals_def list_ex_iff less_Suc_eq_le simp del: upt_Suc)
  with only[of ZERO] Inl show ?thesis by (auto simp: checked_sum_def)
qed

subsection \<open>Printing\<close>

lemma show_nat_02_length: "n < 100 \<Longrightarrow> length (show_nat_02 n) = 2"
proof -
  assume n: "n < 100"
  show ?thesis
  proof (cases "n < 10")
    case True
    then show ?thesis by (simp add: show_nat_02_def show_nat.simps[of n])
  next
    case False
    with n have "n div 10 < 10" by simp
    with False show ?thesis
      by (simp add: show_nat_02_def show_nat.simps[of n] show_nat.simps[of "n div 10"])
  qed
qed

lemma show_nat_02_value: "digits_value 0 (show_nat_02 n) = n"
  by (simp add: show_nat_02_def digits_value_show)

lemma show_nat_not_minus: "CHR ''-'' \<notin> set (show_nat n)"
  using show_nat_digits[of "CHR ''-''" n] by auto

lemma display_magnitude_inject:
  assumes "show_nat (m div 100) @ CHR ''.'' # show_nat_02 (m mod 100) =
      show_nat (n div 100) @ CHR ''.'' # show_nat_02 (n mod 100)"
  shows "m = n"
proof -
  have len: "length (CHR ''.'' # show_nat_02 (m mod 100)) = length (CHR ''.'' # show_nat_02 (n mod 100))"
    by (simp add: show_nat_02_length)
  from assms len have "show_nat (m div 100) = show_nat (n div 100)"
    and tail: "show_nat_02 (m mod 100) = show_nat_02 (n mod 100)"
    by (simp_all add: append_eq_append_conv)
  then have "m div 100 = n div 100" by (intro show_nat_inj)
  moreover from tail have "m mod 100 = n mod 100" by (metis show_nat_02_value)
  ultimately show ?thesis by (metis mult_div_mod_eq)
qed

lemma display_cents:
  "display m = (if cents m < 0 then ''-'' else []) @ show_nat (nat \<bar>cents m\<bar> div 100) @
     CHR ''.'' # show_nat_02 (nat \<bar>cents m\<bar> mod 100)"
  by (simp add: display_def cents_def i64_unsigned_abs_def word_sless_alt Let_def)

lemma display_sign: "hd (display m) = CHR ''-'' \<longleftrightarrow> cents m < 0"
proof (cases "cents m < 0")
  case False
  have "hd (display m) = hd (show_nat (nat \<bar>cents m\<bar> div 100))"
    using False by (simp add: display_cents)
  moreover have "hd (show_nat k) \<noteq> CHR ''-''" for k
    using show_nat_not_minus[of k] hd_in_set[OF show_nat_nonempty[of k]] by metis
  ultimately show ?thesis using False by simp
qed (simp add: display_cents)

text \<open>
  The printed form determines the amount: two amounts that \<open>display\<close> prints alike are
  equal, for every 64-bit value including \<open>i64::MIN\<close>, which has no positive counterpart.
\<close>

theorem display_injective: "display m = display n \<longleftrightarrow> m = n"
proof
  assume eq: "display m = display n"
  then have sign: "cents m < 0 \<longleftrightarrow> cents n < 0" by (metis display_sign)
  with eq have "nat \<bar>cents m\<bar> = nat \<bar>cents n\<bar>"
    by (intro display_magnitude_inject) (simp add: display_cents)
  with sign have "cents m = cents n" by linarith
  then show "m = n" by (simp add: cents_inject)
qed simp

end
