(* ===== verification/Rounding.thy ===== *)
theory Rounding
  imports Money Complex_Main
begin

text \<open>
  \<open>crates/ledger-core/src/rounding.rs\<close>: the one conversion from a decimal quantity to an
  amount in cents.

  \<open>rust_decimal::Decimal\<close> is a package the sources call. Its documented value set is
  \<open>m / 10^e\<close> with \<open>|m| < 2^96\<close> and \<open>e \<le> 28\<close>; a value of \<open>decimal\<close> below is such a
  pair. Its operations are the fields of a \<open>dec_ops\<close> record that every definition using
  them takes as an argument; \<open>dec_laws\<close> states the documented behaviour of the three that
  \<open>round_money\<close> relies on.
\<close>

section \<open>Decimals\<close>

datatype decimal = Decimal (mantissa: int) (scale: nat)

definition dec_val :: "decimal \<Rightarrow> rat" where
  "dec_val d = of_int (mantissa d) / 10 ^ scale d"

definition dec_ok :: "decimal \<Rightarrow> bool" where
  "dec_ok d \<longleftrightarrow> \<bar>mantissa d\<bar> < 2 ^ 96 \<and> scale d \<le> 28"

definition dec_representable :: "rat \<Rightarrow> bool" where
  "dec_representable x \<longleftrightarrow> (\<exists>d. dec_ok d \<and> dec_val d = x)"

datatype rounding_strategy = MidpointAwayFromZero | MidpointNearestEven

text \<open>
  The operators \<open>*\<close>, \<open>/\<close>, \<open>+\<close> and \<open>-\<close> panic where the checked operation gives
  \<open>None\<close>, so one field serves both.
\<close>

record dec_ops =
  d_mul :: "decimal \<Rightarrow> decimal \<Rightarrow> decimal option"
  d_div :: "decimal \<Rightarrow> decimal \<Rightarrow> decimal option"
  d_add :: "decimal \<Rightarrow> decimal \<Rightarrow> decimal option"
  d_sub :: "decimal \<Rightarrow> decimal \<Rightarrow> decimal option"
  d_trunc :: "decimal \<Rightarrow> decimal"
  d_round_dp :: "decimal \<Rightarrow> nat \<Rightarrow> rounding_strategy \<Rightarrow> decimal"
  d_to_i64 :: "decimal \<Rightarrow> i64 option"
  d_to_string :: "decimal \<Rightarrow> string"

definition round_half_away :: "rat \<Rightarrow> int" where
  "round_half_away x = (if x < 0 then - \<lfloor>- x + 1 / 2\<rfloor> else \<lfloor>x + 1 / 2\<rfloor>)"

text \<open>
  The documentation's statements: rounding to two places moves to the nearest multiple of
  a cent, ties away from zero; a product that has a representation is that product, and
  one of \<open>2^96\<close> or more overflows; converting a whole number gives it exactly when it fits.
\<close>

definition dec_laws :: "dec_ops \<Rightarrow> bool" where
  "dec_laws D \<longleftrightarrow>
     (\<forall>x. dec_ok x \<longrightarrow> dec_ok (d_round_dp D x 2 MidpointAwayFromZero) \<and>
        dec_val (d_round_dp D x 2 MidpointAwayFromZero) = of_int (round_half_away (dec_val x * 100)) / 100) \<and>
     (\<forall>a b. dec_ok a \<longrightarrow> dec_ok b \<longrightarrow> dec_representable (dec_val a * dec_val b) \<longrightarrow>
        (\<exists>c. d_mul D a b = Some c \<and> dec_ok c \<and> dec_val c = dec_val a * dec_val b)) \<and>
     (\<forall>a b. dec_ok a \<longrightarrow> dec_ok b \<longrightarrow> 2 ^ 96 \<le> \<bar>dec_val a * dec_val b\<bar> \<longrightarrow> d_mul D a b = None) \<and>
     (\<forall>x k. dec_ok x \<longrightarrow> dec_val x = of_int k \<longrightarrow> d_to_i64 D x = to_i64 k)"

text \<open>\<open>Decimal::new\<close> and the constant one hundred are their documented values.\<close>

definition dec_new :: "int \<Rightarrow> nat \<Rightarrow> decimal" where
  "dec_new m e = Decimal m e"

definition ONE_HUNDRED :: decimal where
  "ONE_HUNDRED = Decimal 100 0"

section \<open>The rounding policy and the conversion\<close>

datatype rounding_policy = LineExtension | TaxCalculation | MirroredAmount

fun strategy :: "rounding_policy \<Rightarrow> rounding_strategy" where
  "strategy LineExtension = MidpointAwayFromZero"
| "strategy TaxCalculation = MidpointAwayFromZero"
| "strategy MirroredAmount = MidpointAwayFromZero"

definition round_money :: "dec_ops \<Rightarrow> decimal \<Rightarrow> rounding_policy \<Rightarrow> money_error + money" where
  "round_money D amount policy =
     and_then
       (ok_or (d_mul D (d_round_dp D amount 2 (strategy policy)) ONE_HUNDRED)
          (OutOfRange (d_to_string D amount)))
       (\<lambda>minor. ok_or (map_option from_minor (d_to_i64 D minor))
          (OutOfRange (d_to_string D amount)))"

section \<open>Rounding half away from zero\<close>

lemma floor_half [simp]: "\<lfloor>1 / 2 :: rat\<rfloor> = 0"
  by (rule floor_unique) simp_all

lemma round_half_away_of_int [simp]: "round_half_away (of_int k) = k"
  by (simp add: round_half_away_def)

lemma round_half_away_minus: "round_half_away (- x) = - round_half_away x"
  by (cases "x = 0") (simp_all add: round_half_away_def)

lemma round_half_away_error: "\<bar>of_int (round_half_away x) - x\<bar> \<le> 1 / 2"
proof -
  have floor: "\<bar>of_int \<lfloor>y + 1 / 2\<rfloor> - y\<bar> \<le> 1 / 2" for y :: rat
    using floor_correct[of "y + 1 / 2"] by linarith
  have "\<bar>- of_int \<lfloor>- x + 1 / 2\<rfloor> - x\<bar> = \<bar>of_int \<lfloor>- x + 1 / 2\<rfloor> - - x\<bar>" by linarith
  with floor[of x] floor[of "- x"] show ?thesis by (simp add: round_half_away_def)
qed

lemma dec_ok_ONE_HUNDRED [simp]: "dec_ok ONE_HUNDRED" "dec_val ONE_HUNDRED = 100"
  by (simp_all add: ONE_HUNDRED_def dec_ok_def dec_val_def)

lemma of_int_representable: "\<bar>k\<bar> < 2 ^ 96 \<Longrightarrow> dec_representable (of_int k)"
  unfolding dec_representable_def by (rule exI[of _ "Decimal k 0"]) (simp add: dec_ok_def dec_val_def)

text \<open>
  The conversion composed from the laws: round the value in cents, then refuse what does
  not fit. Three cases: the cents overflow a decimal, they fit a decimal but not an \<open>i64\<close>,
  or they are the result.
\<close>

lemma round_money_cents:
  assumes laws: "dec_laws D" and ok: "dec_ok x"
  shows "round_money D x policy =
    (if in_i64 (round_half_away (dec_val x * 100)) then Inr (money_of (round_half_away (dec_val x * 100)))
     else Inl (OutOfRange (d_to_string D x)))"
proof -
  let ?k = "round_half_away (dec_val x * 100)"
  let ?r = "d_round_dp D x 2 MidpointAwayFromZero"
  have strat: "strategy policy = MidpointAwayFromZero" by (cases policy) simp_all
  have r: "dec_ok ?r" "dec_val ?r * dec_val ONE_HUNDRED = of_int ?k"
    using laws ok by (simp_all add: dec_laws_def)
  show ?thesis
  proof (cases "\<bar>?k\<bar> < 2 ^ 96")
    case True
    with r have "dec_representable (dec_val ?r * dec_val ONE_HUNDRED)"
      by (simp add: of_int_representable)
    with laws r obtain c where c: "d_mul D ?r ONE_HUNDRED = Some c" "dec_ok c" "dec_val c = of_int ?k"
      unfolding dec_laws_def by (metis dec_ok_ONE_HUNDRED(1))
    from laws c(2,3) have "d_to_i64 D c = to_i64 ?k" unfolding dec_laws_def by blast
    with c(1) strat show ?thesis
      by (simp add: round_money_def to_i64_def from_minor_def money_of_def)
  next
    case False
    then have big: "(2 ^ 96 :: rat) \<le> \<bar>dec_val ?r * dec_val ONE_HUNDRED\<bar>"
      unfolding r(2) by (simp only: flip: of_int_abs) (simp flip: of_int_abs add: not_less)
    from laws have "d_mul D ?r ONE_HUNDRED = None"
      using r(1) big unfolding dec_laws_def by (metis dec_ok_ONE_HUNDRED(1))
    moreover have "\<not> in_i64 ?k" using False by (auto simp: in_i64_def)
    ultimately show ?thesis using strat by (simp add: round_money_def)
  qed
qed

section \<open>A reference instance of the decimal operations\<close>

text \<open>
  Exact arithmetic on normalised pairs, refusing what has no representation. It satisfies
  the laws, so they are consistent, and the theorems below are applied at it.
\<close>

fun strip_zeros :: "int \<Rightarrow> nat \<Rightarrow> decimal" where
  "strip_zeros m 0 = Decimal m 0"
| "strip_zeros m (Suc e) = (if m mod 10 = 0 then strip_zeros (m div 10) e else Decimal m (Suc e))"

definition dec_fit :: "int \<Rightarrow> nat \<Rightarrow> decimal option" where
  "dec_fit m e = (let c = strip_zeros m e in if dec_ok c then Some c else None)"

definition round_quotient :: "int \<Rightarrow> int \<Rightarrow> int" where
  "round_quotient m q = (if m < 0 then - ((2 * - m + q) div (2 * q)) else (2 * m + q) div (2 * q))"

definition reference_ops :: dec_ops where
  "reference_ops =
     \<lparr>d_mul = (\<lambda>a b. dec_fit (mantissa a * mantissa b) (scale a + scale b)),
      d_div = (\<lambda>a b. if mantissa b = 0 then None
         else dec_fit (mantissa a * 10 ^ (28 + scale b) div (mantissa b * 10 ^ scale a)) 28),
      d_add = (\<lambda>a b. dec_fit (mantissa a * 10 ^ scale b + mantissa b * 10 ^ scale a) (scale a + scale b)),
      d_sub = (\<lambda>a b. dec_fit (mantissa a * 10 ^ scale b - mantissa b * 10 ^ scale a) (scale a + scale b)),
      d_trunc = (\<lambda>a. Decimal (sgn (mantissa a) * (\<bar>mantissa a\<bar> div 10 ^ scale a)) 0),
      d_round_dp = (\<lambda>a dp _. if scale a \<le> dp then a
         else Decimal (round_quotient (mantissa a) (10 ^ (scale a - dp))) dp),
      d_to_i64 = (\<lambda>a. to_i64 (sgn (mantissa a) * (\<bar>mantissa a\<bar> div 10 ^ scale a))),
      d_to_string = (\<lambda>a. (if mantissa a < 0 then ''-'' else []) @ show_nat (nat \<bar>mantissa a\<bar>) @ ''e-'' @ show_nat (scale a))\<rparr>"

lemma dec_val_strip_zeros: "dec_val (strip_zeros m e) = of_int m / 10 ^ e"
proof (induction m e rule: strip_zeros.induct)
  case (2 m e)
  show ?case
  proof (cases "m mod 10 = 0")
    case True
    then obtain k where "m = 10 * k" by (auto elim: dvdE simp: mod_eq_0_iff_dvd)
    with 2 True show ?thesis by (simp add: dec_val_def)
  qed (simp add: dec_val_def)
qed (simp add: dec_val_def)

lemma strip_zeros_normal: "scale (strip_zeros m e) = 0 \<or> \<not> 10 dvd mantissa (strip_zeros m e)"
  by (induction m e rule: strip_zeros.induct) (auto simp: mod_eq_0_iff_dvd)

lemma normal_is_smallest:
  assumes eq: "dec_val c = dec_val d" and normal: "scale c = 0 \<or> \<not> 10 dvd mantissa c"
  shows "scale c \<le> scale d \<and> \<bar>mantissa c\<bar> \<le> \<bar>mantissa d\<bar>"
proof -
  have "(of_int (mantissa c * 10 ^ scale d) :: rat) = of_int (mantissa d * 10 ^ scale c)"
    using eq by (simp add: dec_val_def field_simps)
  then have cross: "mantissa c * 10 ^ scale d = mantissa d * 10 ^ scale c"
    by (simp only: of_int_eq_iff)
  have le: "scale c \<le> scale d"
  proof (rule ccontr)
    assume "\<not> scale c \<le> scale d"
    then obtain n where n: "scale c = scale d + Suc n" by (metis not_le less_imp_Suc_add add_Suc_right)
    with cross have "mantissa c = mantissa d * 10 ^ Suc n" by (simp add: power_add)
    then have "10 dvd mantissa c" by simp
    with normal n show False by simp
  qed
  then obtain n where "scale d = scale c + n" by (auto simp: le_iff_add)
  with cross have d: "mantissa d = mantissa c * 10 ^ n" by (simp add: power_add)
  have "\<bar>mantissa c\<bar> * 1 \<le> \<bar>mantissa c\<bar> * 10 ^ n" by (rule mult_left_mono) simp_all
  with le d show ?thesis by (simp add: abs_mult)
qed

lemma dec_fit_representable:
  assumes "dec_representable (of_int m / 10 ^ e)"
  shows "\<exists>c. dec_fit m e = Some c \<and> dec_ok c \<and> dec_val c = of_int m / 10 ^ e"
proof -
  from assms obtain d where d: "dec_ok d" "dec_val d = of_int m / 10 ^ e"
    by (auto simp: dec_representable_def)
  have "scale (strip_zeros m e) \<le> scale d \<and> \<bar>mantissa (strip_zeros m e)\<bar> \<le> \<bar>mantissa d\<bar>"
    by (rule normal_is_smallest) (simp_all add: dec_val_strip_zeros d(2) strip_zeros_normal)
  with d(1) have "dec_ok (strip_zeros m e)" by (simp add: dec_ok_def)
  then show ?thesis by (simp add: dec_fit_def dec_val_strip_zeros)
qed

lemma dec_ok_bound: "dec_ok d \<Longrightarrow> \<bar>dec_val d\<bar> < 2 ^ 96"
proof -
  assume ok: "dec_ok d"
  have "\<bar>dec_val d\<bar> = of_int \<bar>mantissa d\<bar> / 10 ^ scale d" by (simp add: dec_val_def)
  also have "\<dots> \<le> of_int \<bar>mantissa d\<bar>" by (simp add: field_simps mult_le_cancel_left1)
  also have "\<dots> < of_int (2 ^ 96)" using ok unfolding dec_ok_def by (simp only: of_int_less_iff)
  finally show ?thesis by simp
qed

lemma dec_fit_overflow:
  assumes "2 ^ 96 \<le> \<bar>of_int m / 10 ^ e :: rat\<bar>"
  shows "dec_fit m e = None"
  using assms dec_ok_bound[of "strip_zeros m e"] by (auto simp: dec_fit_def dec_val_strip_zeros Let_def)

lemma round_quotient_half_away: "0 < q \<Longrightarrow> round_quotient m q = round_half_away (of_int m / of_int q)"
proof -
  assume q: "0 < q"
  have "\<lfloor>of_int n / of_int q + 1 / 2 :: rat\<rfloor> = (2 * n + q) div (2 * q)" for n
  proof -
    have "of_int n / of_int q + 1 / 2 = (of_int (2 * n + q) / of_int (2 * q) :: rat)"
      using q by (simp add: field_simps)
    then show ?thesis by (simp only: floor_divide_of_int_eq)
  qed
  from this[of m] this[of "- m"] q show ?thesis
    by (simp add: round_quotient_def round_half_away_def divide_less_0_iff)
qed

lemma round_quotient_bound:
  assumes "10 \<le> q"
  shows "\<bar>round_quotient m q\<bar> \<le> \<bar>m\<bar>"
proof -
  have pos: "(2 * n + q) div (2 * q) \<le> n" "0 \<le> (2 * n + q) div (2 * q)" if n: "0 \<le> n" for n
  proof -
    show "0 \<le> (2 * n + q) div (2 * q)" using n assms by (simp add: pos_imp_zdiv_nonneg_iff)
    show "(2 * n + q) div (2 * q) \<le> n"
    proof (cases "n = 0")
      case True
      then show ?thesis using assms by simp
    next
      case False
      have "2 * 10 * n \<le> 2 * q * n" using n assms by (simp add: mult_right_mono)
      then have "2 * n + q \<le> n * (2 * q) + (2 * q - 1)" using n assms by (simp add: algebra_simps)
      then have "(2 * n + q) div (2 * q) \<le> (n * (2 * q) + (2 * q - 1)) div (2 * q)"
        using assms by (intro zdiv_mono1) simp_all
      also have "\<dots> = n" using assms by (simp add: div_pos_pos_trivial)
      finally show ?thesis .
    qed
  qed
  show ?thesis
  proof (cases "m < 0")
    case True
    with pos[of "- m"] show ?thesis by (simp add: round_quotient_def)
  next
    case False
    with pos[of m] show ?thesis by (simp add: round_quotient_def)
  qed
qed

lemma reference_round:
  assumes "dec_ok x"
  shows "dec_ok (d_round_dp reference_ops x 2 MidpointAwayFromZero) \<and>
    dec_val (d_round_dp reference_ops x 2 MidpointAwayFromZero) =
      of_int (round_half_away (dec_val x * 100)) / 100"
proof (cases "scale x \<le> 2")
  case True
  then obtain n where n: "2 = scale x + n" by (auto simp: le_iff_add)
  have "(10 :: rat) ^ (scale x + n) = 100" unfolding n[symmetric] by simp
  then have pow: "(10 :: rat) ^ scale x * 10 ^ n = 100" by (simp add: power_add)
  have "dec_val x * 100 = of_int (mantissa x * 10 ^ n)"
    unfolding pow[symmetric] by (simp add: dec_val_def)
  then have "of_int (round_half_away (dec_val x * 100)) = dec_val x * 100"
    by (simp only: round_half_away_of_int)
  then show ?thesis using True assms by (simp add: reference_ops_def)
next
  case False
  then obtain n where n: "scale x = 2 + Suc n" by (metis not_le less_imp_Suc_add add_Suc_right)
  have pow: "(10 :: int) \<le> 10 ^ Suc n" by simp
  have "dec_val x * 100 = of_int (mantissa x) / of_int (10 ^ Suc n)"
    using n by (simp add: dec_val_def power_add field_simps)
  then have "round_half_away (dec_val x * 100) = round_quotient (mantissa x) (10 ^ Suc n)"
    using round_quotient_half_away[of "10 ^ Suc n" "mantissa x"] by simp
  moreover have "\<bar>round_quotient (mantissa x) (10 ^ Suc n)\<bar> \<le> \<bar>mantissa x\<bar>"
    by (rule round_quotient_bound[OF pow])
  ultimately show ?thesis
    using n assms by (simp add: reference_ops_def dec_ok_def dec_val_def)
qed

lemma reference_to_i64:
  assumes "dec_val x = of_int k"
  shows "d_to_i64 reference_ops x = to_i64 k"
proof -
  have "(of_int (mantissa x) :: rat) = of_int (k * 10 ^ scale x)"
    using assms by (simp add: dec_val_def field_simps)
  then have "mantissa x = k * 10 ^ scale x" by (simp only: of_int_eq_iff)
  then have "sgn (mantissa x) * (\<bar>mantissa x\<bar> div 10 ^ scale x) = k"
    by (simp add: abs_mult sgn_mult sgn_mult_abs)
  then show ?thesis by (simp add: reference_ops_def)
qed

lemma reference_laws: "dec_laws reference_ops"
proof -
  have prod: "dec_val a * dec_val b = of_int (mantissa a * mantissa b) / 10 ^ (scale a + scale b)"
    for a b by (simp add: dec_val_def power_add)
  have "\<exists>c. d_mul reference_ops a b = Some c \<and> dec_ok c \<and> dec_val c = dec_val a * dec_val b"
    if "dec_representable (dec_val a * dec_val b)" for a b
    using dec_fit_representable[OF that[unfolded prod]] unfolding prod by (simp add: reference_ops_def)
  moreover have "d_mul reference_ops a b = None" if "2 ^ 96 \<le> \<bar>dec_val a * dec_val b\<bar>" for a b
    using dec_fit_overflow[OF that[unfolded prod]] by (simp add: reference_ops_def)
  ultimately show ?thesis
    unfolding dec_laws_def using reference_round reference_to_i64 by blast
qed

section \<open>Properties\<close>

text \<open>
  \<open>round_money\<close> gives the amount's cents rounded half away from zero, under every policy,
  and refuses with \<open>OutOfRange\<close> exactly when those cents have no 64-bit representation: no
  input reaches a panic, and no representable result is refused.
\<close>

theorem round_money_half_away:
  assumes "dec_laws D" and "dec_ok x"
  shows "round_money D x policy =
    (if in_i64 (round_half_away (dec_val x * 100)) then Inr (money_of (round_half_away (dec_val x * 100)))
     else Inl (OutOfRange (d_to_string D x)))"
  using assms by (rule round_money_cents)

theorem round_money_half_away_witness:
  "round_money reference_ops (Decimal 126405 3) TaxCalculation = Inr (money_of 12641)"
proof -
  have "round_half_away (dec_val (Decimal 126405 3) * 100) = 12641"
    using round_quotient_half_away[of 10 126405]
    by (simp add: dec_val_def round_quotient_def)
  then show ?thesis
    using round_money_half_away[OF reference_laws, of "Decimal 126405 3" TaxCalculation]
    by (simp add: dec_ok_def in_i64_def)
qed

text \<open>
  A converted amount is within half a cent of the decimal it came from, and converting
  the negated decimal gives the negated amount, so a reversal cancels its original exactly.
\<close>

theorem round_money_close_and_symmetric:
  assumes "dec_laws D" and "dec_ok x" and "round_money D x policy = Inr m"
    and "dec_ok y" and "dec_val y = - dec_val x" and "checked_neg m = Inr n"
  shows "\<bar>of_int (cents m) - dec_val x * 100\<bar> \<le> 1 / 2 \<and> round_money D y policy = Inr n"
proof -
  let ?k = "round_half_away (dec_val x * 100)"
  have rx: "in_i64 ?k" "m = money_of ?k"
    using assms(3) round_money_cents[OF assms(1,2), of policy] by (auto split: if_splits)
  have y: "round_half_away (dec_val y * 100) = - ?k"
    using assms(5) round_half_away_minus[of "dec_val x * 100"] by simp
  have "cents n = - ?k" using assms(6) rx by (simp add: checked_neg_Inr)
  then have "n = money_of (- ?k)" "in_i64 (- ?k)"
    using money_of_cents[of n] cents_in_i64[of n] by simp_all
  then have "round_money D y policy = Inr n"
    using round_money_cents[OF assms(1,4), of policy] y by simp
  with round_half_away_error[of "dec_val x * 100"] rx show ?thesis by simp
qed

theorem round_money_close_and_symmetric_witness:
  "round_money reference_ops (Decimal (- 125) 3) LineExtension = Inr (money_of (- 13))"
proof -
  have k: "round_half_away (dec_val (Decimal 125 3) * 100) = 13"
    using round_quotient_half_away[of 10 125] by (simp add: dec_val_def round_quotient_def)
  have ok: "dec_ok (Decimal 125 3)" "dec_ok (Decimal (- 125) 3)"
    by (simp_all add: dec_ok_def)
  have "round_money reference_ops (Decimal 125 3) LineExtension = Inr (money_of 13)"
    using round_money_cents[OF reference_laws ok(1)] by (simp add: k in_i64_def)
  moreover have "checked_neg (money_of 13) = Inr (money_of (- 13))"
    by (simp add: checked_neg_eq in_i64_def)
  ultimately show ?thesis
    using round_money_close_and_symmetric[OF reference_laws ok(1) _ ok(2), of LineExtension "money_of 13" "money_of (- 13)"]
    by (simp add: dec_val_def)
qed

end
