(* ===== verification/Ledger_Types.thy ===== *)
theory Ledger_Types
  imports Rounding
begin

text \<open>
  \<open>apps/ledger/src/types.rs\<close>: the document the UI and the importer save, the journal entry
  posting makes of it, and the context posting reads. Field names carry a short prefix for
  their struct. \<open>chrono::NaiveDate\<close> is its documented value, a calendar date ordered by
  year, month and day. A \<open>HashMap\<close> is a partial map.
\<close>

section \<open>Dates and identifiers\<close>

datatype naive_date = Ymd (year: int) (month: nat) (day: nat)

instantiation naive_date :: linorder
begin

definition less_eq_naive_date :: "naive_date \<Rightarrow> naive_date \<Rightarrow> bool" where
  "less_eq_naive_date a b \<longleftrightarrow>
     year a < year b \<or> year a = year b \<and> (month a < month b \<or> month a = month b \<and> day a \<le> day b)"

definition less_naive_date :: "naive_date \<Rightarrow> naive_date \<Rightarrow> bool" where
  "less_naive_date a b \<longleftrightarrow>
     year a < year b \<or> year a = year b \<and> (month a < month b \<or> month a = month b \<and> day a < day b)"

instance
proof
  fix x y z :: naive_date
  show "x < y \<longleftrightarrow> x \<le> y \<and> \<not> y \<le> x"
    by (auto simp: less_eq_naive_date_def less_naive_date_def)
  show "x \<le> x" by (simp add: less_eq_naive_date_def)
  show "x \<le> y \<Longrightarrow> y \<le> z \<Longrightarrow> x \<le> z" by (auto simp: less_eq_naive_date_def)
  show "x \<le> y \<Longrightarrow> y \<le> x \<Longrightarrow> x = y"
    by (cases x; cases y) (auto simp: less_eq_naive_date_def)
  show "x \<le> y \<or> y \<le> x" by (auto simp: less_eq_naive_date_def)
qed

end

datatype company_id = CompanyId string

datatype account_id = AccountId (account_no: string)

datatype class_id = ClassId (class_name: string)

datatype contact_kind = Customer | Vendor

record contact_ref =
  cr_kind :: contact_kind
  cr_id :: string

section \<open>Document kinds\<close>

datatype doc_kind =
    Estimate | SalesOrder | Invoice | SalesReceipt | CreditMemo | RefundReceipt | Payment
  | PurchaseOrder | Bill | BillPayment | VendorCredit | Purchase | Deposit | JournalEntry
  | RawMaterialReceipt | Build | InventoryAdjustment | BankLine | Settlement

definition all_doc_kinds :: "doc_kind list" where
  "all_doc_kinds =
     [Estimate, SalesOrder, Invoice, SalesReceipt, CreditMemo, RefundReceipt, Payment,
      PurchaseOrder, Bill, BillPayment, VendorCredit, Purchase, Deposit, JournalEntry,
      RawMaterialReceipt, Build, InventoryAdjustment, BankLine, Settlement]"

fun is_contract :: "doc_kind \<Rightarrow> bool" where
  "is_contract Estimate = True"
| "is_contract SalesOrder = True"
| "is_contract PurchaseOrder = True"
| "is_contract _ = False"

definition posts :: "doc_kind \<Rightarrow> bool" where
  "posts self \<longleftrightarrow> \<not> is_contract self"

fun doc_kind_as_str :: "doc_kind \<Rightarrow> string" where
  "doc_kind_as_str Estimate = ''estimate''"
| "doc_kind_as_str SalesOrder = ''sales_order''"
| "doc_kind_as_str Invoice = ''invoice''"
| "doc_kind_as_str SalesReceipt = ''sales_receipt''"
| "doc_kind_as_str CreditMemo = ''credit_memo''"
| "doc_kind_as_str RefundReceipt = ''refund_receipt''"
| "doc_kind_as_str Payment = ''payment''"
| "doc_kind_as_str PurchaseOrder = ''purchase_order''"
| "doc_kind_as_str Bill = ''bill''"
| "doc_kind_as_str BillPayment = ''bill_payment''"
| "doc_kind_as_str VendorCredit = ''vendor_credit''"
| "doc_kind_as_str Purchase = ''purchase''"
| "doc_kind_as_str Deposit = ''deposit''"
| "doc_kind_as_str JournalEntry = ''journal_entry''"
| "doc_kind_as_str RawMaterialReceipt = ''raw_material_receipt''"
| "doc_kind_as_str Build = ''build''"
| "doc_kind_as_str InventoryAdjustment = ''inventory_adjustment''"
| "doc_kind_as_str BankLine = ''bank_line''"
| "doc_kind_as_str Settlement = ''settlement''"

definition parse_doc_kind :: "string \<Rightarrow> doc_kind option" where
  "parse_doc_kind raw = find_map (\<lambda>kind. doc_kind_as_str kind = raw) all_doc_kinds"

section \<open>Documents\<close>

datatype line_kind = Item | Account | Discount | Shipping | Description | Journal

datatype side = Debit | Credit

record doc_line =
  dl_line_no :: int
  dl_kind :: line_kind
  dl_amount :: money
  dl_class :: "class_id option"
  dl_item_id :: "string option"
  dl_account :: "account_id option"
  dl_is_taxable :: bool
  dl_qty :: "decimal option"
  dl_unit_cost :: "money option"
  dl_description :: "string option"
  dl_posting :: "side option"
  dl_entity :: "contact_ref option"

record tax_detail =
  td_total_tax :: money
  td_taxable_base :: money
  td_rate :: decimal

record application =
  ap_target_document_id :: string
  ap_target_kind :: doc_kind
  ap_amount :: money

record ledger_document =
  doc_document_id :: string
  doc_kind :: doc_kind
  doc_number :: "string option"
  doc_txn_date :: naive_date
  doc_due_date :: "naive_date option"
  doc_contact :: "contact_ref option"
  doc_header_class :: "class_id option"
  doc_lines :: "doc_line list"
  doc_tax :: "tax_detail option"
  doc_deposit_to :: "account_id option"
  doc_pay_from :: "account_id option"
  doc_applications :: "application list"
  doc_unapplied :: money
  doc_is_voided :: bool
  doc_source_ref :: "string option"
  doc_memo :: "string option"

definition subtotal :: "ledger_document \<Rightarrow> money_error + money" where
  "subtotal self = checked_sum (map dl_amount (doc_lines self))"

section \<open>Journal entries\<close>

record journal_line =
  jl_line_no :: int
  jl_account :: account_id
  jl_class :: "class_id option"
  jl_debit :: money
  jl_credit :: money
  jl_memo :: "string option"
  jl_entity :: "contact_ref option"
  jl_is_taxable :: bool
  jl_tax_amount :: "money option"
  jl_tax_rate :: "decimal option"

definition debit_line :: "int \<Rightarrow> account_id \<Rightarrow> money \<Rightarrow> journal_line" where
  "debit_line line_no account amount =
     \<lparr>jl_line_no = line_no, jl_account = account, jl_class = None, jl_debit = amount,
      jl_credit = ZERO, jl_memo = None, jl_entity = None, jl_is_taxable = False,
      jl_tax_amount = None, jl_tax_rate = None\<rparr>"

definition credit_line :: "int \<Rightarrow> account_id \<Rightarrow> money \<Rightarrow> journal_line" where
  "credit_line line_no account amount =
     \<lparr>jl_line_no = line_no, jl_account = account, jl_class = None, jl_debit = ZERO,
      jl_credit = amount, jl_memo = None, jl_entity = None, jl_is_taxable = False,
      jl_tax_amount = None, jl_tax_rate = None\<rparr>"

definition with_tax :: "journal_line \<Rightarrow> bool \<Rightarrow> money option \<Rightarrow> decimal option \<Rightarrow> journal_line" where
  "with_tax self is_taxable tax_amount tax_rate =
     self\<lparr>jl_is_taxable := is_taxable, jl_tax_amount := tax_amount, jl_tax_rate := tax_rate\<rparr>"

record journal_entry =
  je_entry_date :: naive_date
  je_memo :: "string option"
  je_source_type :: doc_kind
  je_source_id :: string
  je_source_version :: int
  je_reversal_of :: "string option"
  je_is_flagged :: bool
  je_lines :: "journal_line list"

definition total_debits :: "journal_entry \<Rightarrow> money_error + money" where
  "total_debits self = checked_sum (map jl_debit (je_lines self))"

definition total_credits :: "journal_entry \<Rightarrow> money_error + money" where
  "total_credits self = checked_sum (map jl_credit (je_lines self))"

text \<open>Debits equal credits and every line has exactly one non-zero side.\<close>

definition is_balanced :: "journal_entry \<Rightarrow> bool" where
  "is_balanced self =
     (let sides_ok = list_all (\<lambda>line.
            ((jl_debit line = ZERO) \<noteq> (jl_credit line = ZERO)) \<and>
            0 \<le> sint (minor (jl_debit line)) \<and> 0 \<le> sint (minor (jl_credit line))) (je_lines self)
      in case (total_debits self, total_credits self) of
           (Inr d, Inr c) \<Rightarrow> sides_ok \<and> d = c \<and> je_lines self \<noteq> []
         | _ \<Rightarrow> False)"

text \<open>The correction path: the same lines with their sides swapped, on another date.\<close>

definition reversed :: "journal_entry \<Rightarrow> naive_date \<Rightarrow> string \<Rightarrow> journal_entry" where
  "reversed self on reverses_entry_id =
     \<lparr>je_entry_date = on, je_memo = je_memo self, je_source_type = je_source_type self,
      je_source_id = je_source_id self, je_source_version = je_source_version self,
      je_reversal_of = Some reverses_entry_id, je_is_flagged = je_is_flagged self,
      je_lines = map (\<lambda>line.
        \<lparr>jl_line_no = jl_line_no line, jl_account = jl_account line, jl_class = jl_class line,
         jl_debit = jl_credit line, jl_credit = jl_debit line, jl_memo = jl_memo line,
         jl_entity = jl_entity line, jl_is_taxable = jl_is_taxable line,
         jl_tax_amount = jl_tax_amount line, jl_tax_rate = jl_tax_rate line\<rparr>) (je_lines self)\<rparr>"

section \<open>The posting context\<close>

record item_accounts =
  ia_income :: account_id
  ia_expense :: account_id
  ia_asset :: "account_id option"
  ia_default_class :: "class_id option"
  ia_unit_cost :: "money option"

record customer_posting =
  cp_is_tax_exempt :: bool

record posting_config =
  cfg_sales_tax_rate :: decimal
  cfg_default_deposit_account :: account_id
  cfg_default_bank_account :: account_id
  cfg_merchant_fee_account :: account_id

record posting_context =
  ctx_items :: "string \<Rightarrow> item_accounts option"
  ctx_customers :: "string \<Rightarrow> customer_posting option"
  ctx_config :: posting_config

section \<open>Facts\<close>

definition debit_cents :: "journal_entry \<Rightarrow> int" where
  "debit_cents e = (\<Sum>line\<leftarrow>je_lines e. cents (jl_debit line))"

definition credit_cents :: "journal_entry \<Rightarrow> int" where
  "credit_cents e = (\<Sum>line\<leftarrow>je_lines e. cents (jl_credit line))"

definition one_sided :: "journal_line \<Rightarrow> bool" where
  "one_sided line \<longleftrightarrow>
     0 < cents (jl_debit line) \<and> cents (jl_credit line) = 0 \<or>
     cents (jl_debit line) = 0 \<and> 0 < cents (jl_credit line)"

text \<open>
  What the type promises of a posted entry, over exact integers: no line is empty or
  two-sided, there is at least one, and the two columns agree.
\<close>

definition well_balanced :: "journal_entry \<Rightarrow> bool" where
  "well_balanced e \<longleftrightarrow>
     list_all one_sided (je_lines e) \<and> debit_cents e = credit_cents e \<and> je_lines e \<noteq> []"

lemma one_sided_nonneg: "one_sided l \<Longrightarrow> 0 \<le> cents (jl_debit l)" "one_sided l \<Longrightarrow> 0 \<le> cents (jl_credit l)"
  by (auto simp: one_sided_def)

lemma sides_ok_iff:
  "((jl_debit line = ZERO) \<noteq> (jl_credit line = ZERO)) \<and>
     0 \<le> sint (minor (jl_debit line)) \<and> 0 \<le> sint (minor (jl_credit line)) \<longleftrightarrow> one_sided line"
  by (auto simp: one_sided_def eq_ZERO_cents cents_def[symmetric])

lemma is_balanced_alt:
  "is_balanced e \<longleftrightarrow> list_all one_sided (je_lines e) \<and> je_lines e \<noteq> [] \<and>
     (\<exists>t. total_debits e = Inr t \<and> total_credits e = Inr t)"
  unfolding is_balanced_def sides_ok_iff by (auto simp: Let_def split: sum.splits)

lemma total_debits_cents: "total_debits e = Inr t \<Longrightarrow> cents t = debit_cents e"
  by (simp add: total_debits_def debit_cents_def checked_sum_cents o_def)

lemma total_credits_cents: "total_credits e = Inr t \<Longrightarrow> cents t = credit_cents e"
  by (simp add: total_credits_def credit_cents_def checked_sum_cents o_def)

text \<open>
  \<open>is_balanced\<close> is the exact balance, plus a bound: the total must itself be a representable
  amount, because the two sums are computed with checked addition.
\<close>

lemma is_balanced_iff: "is_balanced e \<longleftrightarrow> well_balanced e \<and> in_i64 (debit_cents e)"
proof
  assume bal: "is_balanced e"
  then obtain t where "total_debits e = Inr t" "total_credits e = Inr t"
    by (auto simp: is_balanced_alt)
  then have t: "debit_cents e = cents t" "credit_cents e = cents t"
    by (auto dest: total_debits_cents total_credits_cents)
  from bal show "well_balanced e \<and> in_i64 (debit_cents e)"
    by (simp add: is_balanced_alt well_balanced_def t)
next
  assume wb: "well_balanced e \<and> in_i64 (debit_cents e)"
  then have nonneg: "m \<in> set (map jl_debit (je_lines e)) \<union> set (map jl_credit (je_lines e)) \<Longrightarrow> 0 \<le> cents m" for m
    by (auto simp: well_balanced_def list_all_iff one_sided_nonneg)
  from wb have "\<exists>t. total_debits e = Inr t" "\<exists>t. total_credits e = Inr t"
    using checked_sum_nonneg_succeeds[of "map jl_debit (je_lines e)"]
      checked_sum_nonneg_succeeds[of "map jl_credit (je_lines e)"] nonneg
    by (auto simp: total_debits_def total_credits_def debit_cents_def credit_cents_def well_balanced_def o_def)
  then obtain d c where dc: "total_debits e = Inr d" "total_credits e = Inr c" by blast
  then have "cents d = debit_cents e" "cents c = credit_cents e"
    by (auto dest: total_debits_cents total_credits_cents)
  with wb have "cents d = cents c" by (simp add: well_balanced_def)
  with dc wb show "is_balanced e" by (auto simp: is_balanced_alt well_balanced_def cents_inject)
qed

lemma reversed_cents [simp]:
  "debit_cents (reversed e on r) = credit_cents e" "credit_cents (reversed e on r) = debit_cents e"
  by (simp_all add: debit_cents_def credit_cents_def reversed_def o_def)

lemma reversed_lines_one_sided [simp]:
  "list_all one_sided (je_lines (reversed e on r)) = list_all one_sided (je_lines e)"
  by (auto simp: reversed_def list_all_iff one_sided_def)

lemma reversed_lines_Nil [simp]: "je_lines (reversed e on r) = [] \<longleftrightarrow> je_lines e = []"
  by (simp add: reversed_def)

lemma reversed_well_balanced [simp]: "well_balanced (reversed e on r) = well_balanced e"
  by (auto simp: well_balanced_def)

lemma reversed_is_balanced: "is_balanced (reversed e on r) \<longleftrightarrow> is_balanced e"
  by (auto simp: is_balanced_iff well_balanced_def)

text \<open>The movement of one account under an entry, debit positive.\<close>

definition line_net :: "journal_line \<Rightarrow> int" where
  "line_net line = cents (jl_debit line) - cents (jl_credit line)"

definition account_net :: "account_id \<Rightarrow> journal_line list \<Rightarrow> int" where
  "account_net a ls = (\<Sum>line\<leftarrow>filter (\<lambda>line. jl_account line = a) ls. line_net line)"

lemma account_net_simps [simp]:
  "account_net a [] = 0"
  "account_net a (l # ls) = (if jl_account l = a then line_net l else 0) + account_net a ls"
  by (simp_all add: account_net_def)

lemma account_net_append [simp]: "account_net a (xs @ ys) = account_net a xs + account_net a ys"
  by (simp add: account_net_def)

lemma account_net_reversed [simp]:
  "account_net a (je_lines (reversed e on r)) = - account_net a (je_lines e)"
proof -
  have "account_net a (je_lines (reversed \<lparr>je_entry_date = d, je_memo = m, je_source_type = t,
      je_source_id = i, je_source_version = v, je_reversal_of = x, je_is_flagged = f, je_lines = ls\<rparr> on r)) =
      - account_net a ls" for d m t i v x f ls
    by (induction ls) (simp_all add: reversed_def line_net_def)
  then show ?thesis by (cases e) simp
qed

lemma reversed_twice: "je_lines (reversed (reversed e on r) on' r') = je_lines e"
  by (auto simp: reversed_def intro!: map_idI)

section \<open>Properties\<close>

text \<open>
  The stored name of a document kind determines it: parsing what \<open>as_str\<close> wrote gives the
  kind back, and a string that parses is exactly the name of the kind it parses to.
\<close>

theorem doc_kind_roundtrip: "parse_doc_kind raw = Some kind \<longleftrightarrow> raw = doc_kind_as_str kind"
proof
  assume "parse_doc_kind raw = Some kind"
  then show "raw = doc_kind_as_str kind"
    unfolding parse_doc_kind_def by (auto dest: find_map_Some)
next
  assume "raw = doc_kind_as_str kind"
  then show "parse_doc_kind raw = Some kind"
    by (cases kind) (simp_all add: parse_doc_kind_def all_doc_kinds_def)
qed

text \<open>
  \<open>is_balanced\<close> accepts an entry exactly when, over the integers, every line has one
  positive side and an empty other side, there is a line, debits equal credits, and the
  total fits 64 bits. Checked addition neither accepts an unbalanced entry nor rejects a
  balanced one whose total is representable.
\<close>

theorem is_balanced_exact:
  "is_balanced e \<longleftrightarrow>
     list_all one_sided (je_lines e) \<and> debit_cents e = credit_cents e \<and> je_lines e \<noteq> [] \<and>
     in_i64 (debit_cents e)"
  by (auto simp: is_balanced_iff well_balanced_def)

text \<open>
  A reversal is balanced exactly when its original is, undoes it on every account, and
  reversing the reversal restores the original lines.
\<close>

theorem reversal_undoes:
  "is_balanced (reversed e on r) = is_balanced e \<and>
   account_net a (je_lines e) + account_net a (je_lines (reversed e on r)) = 0 \<and>
   je_lines (reversed (reversed e on r) on' r') = je_lines e"
  by (simp add: reversed_is_balanced reversed_twice)

end
