(* ===== verification/Chart.thy ===== *)
theory Chart
  imports Ledger_Types
begin

text \<open>
  \<open>apps/ledger/src/chart.rs\<close>: the account numbers the posting rules name, the
  classifications and the chart a new company is seeded with.
\<close>

section \<open>Account numbers\<close>

named_theorems chart_numbers "the account number constants"

definition CHECKING :: string where [chart_numbers]: "CHECKING = ''1100''"
definition UNDEPOSITED_FUNDS :: string where [chart_numbers]: "UNDEPOSITED_FUNDS = ''1150''"
definition AUTHNET_CLEARING :: string where [chart_numbers]: "AUTHNET_CLEARING = ''1160''"
definition ACCOUNTS_RECEIVABLE :: string where [chart_numbers]: "ACCOUNTS_RECEIVABLE = ''1200''"
definition ALLOWANCE_DOUBTFUL :: string where [chart_numbers]: "ALLOWANCE_DOUBTFUL = ''1250''"
definition INVENTORY_RAW :: string where [chart_numbers]: "INVENTORY_RAW = ''1300''"
definition INVENTORY_FINISHED :: string where [chart_numbers]: "INVENTORY_FINISHED = ''1310''"
definition WORK_IN_PROGRESS :: string where [chart_numbers]: "WORK_IN_PROGRESS = ''1320''"
definition PREPAID :: string where [chart_numbers]: "PREPAID = ''1400''"
definition MACHINERY :: string where [chart_numbers]: "MACHINERY = ''1500''"
definition ACCUM_DEPRECIATION :: string where [chart_numbers]: "ACCUM_DEPRECIATION = ''1590''"
definition ACCOUNTS_PAYABLE :: string where [chart_numbers]: "ACCOUNTS_PAYABLE = ''2000''"
definition INVENTORY_RECEIVED_NOT_BILLED :: string where [chart_numbers]: "INVENTORY_RECEIVED_NOT_BILLED = ''2050''"
definition CREDIT_CARD :: string where [chart_numbers]: "CREDIT_CARD = ''2100''"
definition SALES_TAX_PAYABLE :: string where [chart_numbers]: "SALES_TAX_PAYABLE = ''2200''"
definition CUSTOMER_DEPOSITS :: string where [chart_numbers]: "CUSTOMER_DEPOSITS = ''2300''"
definition PAYROLL_LIABILITIES :: string where [chart_numbers]: "PAYROLL_LIABILITIES = ''2400''"
definition NOTES_PAYABLE :: string where [chart_numbers]: "NOTES_PAYABLE = ''2900''"
definition OWNER_CAPITAL :: string where [chart_numbers]: "OWNER_CAPITAL = ''3000''"
definition OWNER_DRAWS :: string where [chart_numbers]: "OWNER_DRAWS = ''3100''"
definition RETAINED_EARNINGS :: string where [chart_numbers]: "RETAINED_EARNINGS = ''3900''"
definition OPENING_BALANCE_EQUITY :: string where [chart_numbers]: "OPENING_BALANCE_EQUITY = ''3950''"
definition SALES_INCOME :: string where [chart_numbers]: "SALES_INCOME = ''4100''"
definition SHIPPING_INCOME :: string where [chart_numbers]: "SHIPPING_INCOME = ''4300''"
definition DISCOUNTS_GIVEN :: string where [chart_numbers]: "DISCOUNTS_GIVEN = ''4900''"
definition RETURNS_ALLOWANCES :: string where [chart_numbers]: "RETURNS_ALLOWANCES = ''4950''"
definition OTHER_INCOME :: string where [chart_numbers]: "OTHER_INCOME = ''4990''"
definition COGS :: string where [chart_numbers]: "COGS = ''5000''"
definition FREIGHT_IN :: string where [chart_numbers]: "FREIGHT_IN = ''5050''"
definition MANUFACTURING_VARIANCE :: string where [chart_numbers]: "MANUFACTURING_VARIANCE = ''5100''"
definition INVENTORY_ADJUSTMENT :: string where [chart_numbers]: "INVENTORY_ADJUSTMENT = ''5150''"
definition PARTS_LABOUR_APPLIED :: string where [chart_numbers]: "PARTS_LABOUR_APPLIED = ''5300''"
definition DIRECT_LABOUR :: string where [chart_numbers]: "DIRECT_LABOUR = ''5400''"
definition SHOP_SUPPLIES :: string where [chart_numbers]: "SHOP_SUPPLIES = ''6100''"
definition VEHICLE_FUEL :: string where [chart_numbers]: "VEHICLE_FUEL = ''6200''"
definition RENT_UTILITIES :: string where [chart_numbers]: "RENT_UTILITIES = ''6300''"
definition INSURANCE :: string where [chart_numbers]: "INSURANCE = ''6400''"
definition PROFESSIONAL_FEES :: string where [chart_numbers]: "PROFESSIONAL_FEES = ''6500''"
definition ADVERTISING_CHANNEL_FEES :: string where [chart_numbers]: "ADVERTISING_CHANNEL_FEES = ''6600''"
definition MERCHANT_FEES :: string where [chart_numbers]: "MERCHANT_FEES = ''6700''"
definition BAD_DEBT :: string where [chart_numbers]: "BAD_DEBT = ''6800''"
definition OTHER_OPERATING :: string where [chart_numbers]: "OTHER_OPERATING = ''6900''"
definition INTEREST_EXPENSE :: string where [chart_numbers]: "INTEREST_EXPENSE = ''7100''"

section \<open>Classifications\<close>

datatype classification = Asset | Liability | Equity | Income | Cogs | Expense

fun classification_as_str :: "classification \<Rightarrow> string" where
  "classification_as_str Asset = ''Asset''"
| "classification_as_str Liability = ''Liability''"
| "classification_as_str Equity = ''Equity''"
| "classification_as_str Income = ''Income''"
| "classification_as_str Cogs = ''COGS''"
| "classification_as_str Expense = ''Expense''"

definition parse_classification :: "string \<Rightarrow> classification option" where
  "parse_classification raw =
     (if raw = ''Asset'' then Some Asset
      else if raw = ''Liability'' then Some Liability
      else if raw = ''Equity'' then Some Equity
      else if raw = ''Income'' then Some Income
      else if raw = ''COGS'' then Some Cogs
      else if raw = ''Expense'' then Some Expense
      else None)"

fun normal_balance :: "classification \<Rightarrow> side" where
  "normal_balance Asset = Debit"
| "normal_balance Cogs = Debit"
| "normal_balance Expense = Debit"
| "normal_balance Liability = Credit"
| "normal_balance Equity = Credit"
| "normal_balance Income = Credit"

fun unmapped_slot :: "classification \<Rightarrow> string" where
  "unmapped_slot Asset = ''1990''"
| "unmapped_slot Liability = ''2990''"
| "unmapped_slot Equity = ''3990''"
| "unmapped_slot Income = ''4990''"
| "unmapped_slot Cogs = ''5990''"
| "unmapped_slot Expense = ''6990''"

section \<open>The seed chart\<close>

record account_seed =
  as_number :: string
  as_name :: string
  as_classification :: classification
  as_is_contra :: bool

definition seed :: "string \<Rightarrow> string \<Rightarrow> classification \<Rightarrow> bool \<Rightarrow> account_seed" where
  "seed number name classification is_contra =
     \<lparr>as_number = number, as_name = name, as_classification = classification,
      as_is_contra = is_contra\<rparr>"

definition is_inventory_asset :: "string \<Rightarrow> bool" where
  "is_inventory_asset number \<longleftrightarrow>
     length number = 4 \<and> take 2 number = ''13'' \<and> number \<noteq> WORK_IN_PROGRESS"

definition seed_chart :: "account_seed list" where
  "seed_chart =
     [seed CHECKING ''Checking'' Asset False,
      seed UNDEPOSITED_FUNDS ''Undeposited funds'' Asset False,
      seed AUTHNET_CLEARING ''Authorize.net clearing'' Asset False,
      seed ACCOUNTS_RECEIVABLE ''Accounts receivable'' Asset False,
      seed ALLOWANCE_DOUBTFUL ''Allowance for doubtful accounts'' Asset True,
      seed INVENTORY_RAW ''Inventory, raw materials'' Asset False,
      seed INVENTORY_FINISHED ''Inventory, finished goods'' Asset False,
      seed WORK_IN_PROGRESS ''Work in progress'' Asset False,
      seed PREPAID ''Prepaid expenses'' Asset False,
      seed MACHINERY ''Machinery and equipment'' Asset False,
      seed ACCUM_DEPRECIATION ''Accumulated depreciation'' Asset True,
      seed ACCOUNTS_PAYABLE ''Accounts payable'' Liability False,
      seed INVENTORY_RECEIVED_NOT_BILLED ''Inventory received not billed'' Liability False,
      seed CREDIT_CARD ''Credit card'' Liability False,
      seed SALES_TAX_PAYABLE ''Sales tax payable'' Liability False,
      seed CUSTOMER_DEPOSITS ''Customer deposits and unapplied payments'' Liability False,
      seed PAYROLL_LIABILITIES ''Payroll liabilities'' Liability False,
      seed NOTES_PAYABLE ''Notes and loans payable'' Liability False,
      seed OWNER_CAPITAL ''Owner capital'' Equity False,
      seed OWNER_DRAWS ''Owner draws'' Equity True,
      seed RETAINED_EARNINGS ''Retained earnings'' Equity False,
      seed OPENING_BALANCE_EQUITY ''Opening balance equity'' Equity False,
      seed SALES_INCOME ''Sales income'' Income False,
      seed SHIPPING_INCOME ''Shipping income'' Income False,
      seed DISCOUNTS_GIVEN ''Discounts given'' Income True,
      seed RETURNS_ALLOWANCES ''Returns and allowances'' Income True,
      seed OTHER_INCOME ''Other income'' Income False,
      seed COGS ''Cost of goods sold'' Cogs False,
      seed FREIGHT_IN ''Freight in'' Cogs False,
      seed MANUFACTURING_VARIANCE ''Manufacturing variance'' Cogs False,
      seed INVENTORY_ADJUSTMENT ''Inventory adjustment and shrinkage'' Cogs False,
      seed PARTS_LABOUR_APPLIED ''Parts and labour applied'' Cogs True,
      seed DIRECT_LABOUR ''Direct labour'' Cogs False,
      seed SHOP_SUPPLIES ''Shop supplies and packaging'' Expense False,
      seed VEHICLE_FUEL ''Vehicle and fuel'' Expense False,
      seed RENT_UTILITIES ''Rent and utilities'' Expense False,
      seed INSURANCE ''Insurance'' Expense False,
      seed PROFESSIONAL_FEES ''Professional fees'' Expense False,
      seed ADVERTISING_CHANNEL_FEES ''Advertising and channel fees'' Expense False,
      seed MERCHANT_FEES ''Merchant and bank fees'' Expense False,
      seed BAD_DEBT ''Bad debt'' Expense False,
      seed OTHER_OPERATING ''Other operating expense'' Expense False,
      seed INTEREST_EXPENSE ''Interest expense'' Expense False]"

definition AQUAMENTOR_CLASSES :: "(string \<times> string) list" where
  "AQUAMENTOR_CLASSES =
     [(''foam'', ''Foam products''), (''sign'', ''Signs''), (''chair'', ''Lifeguard chairs''),
      (''drop'', ''Dropship and resale''), (''cnc'', ''CNC cutting''), (''uv'', ''UV printing'')]"

definition WATERLINE_CLASSES :: "(string \<times> string) list" where
  "WATERLINE_CLASSES = [(''cnc'', ''CNC cutting''), (''uv'', ''UV printing'')]"

definition BOOKS_OPEN :: naive_date where
  "BOOKS_OPEN = Ymd 2027 1 1"

definition IMPORT_FALLBACK_CLASS :: "string \<times> string" where
  "IMPORT_FALLBACK_CLASS = (''unclassified'', ''Unclassified (pre-2027 import)'')"

section \<open>Facts\<close>

text \<open>The side an account normally carries: its classification's, flipped for a contra account.\<close>

fun flip :: "side \<Rightarrow> side" where
  "flip Debit = Credit"
| "flip Credit = Debit"

lemma flip_flip [simp]: "flip (flip s) = s"
  by (cases s) simp_all

lemma seed_sel [simp]:
  "as_number (seed n nm c k) = n" "as_name (seed n nm c k) = nm"
  "as_classification (seed n nm c k) = c" "as_is_contra (seed n nm c k) = k"
  by (simp_all add: seed_def)

definition band :: "classification \<Rightarrow> char list" where
  "band c = (case c of Asset \<Rightarrow> ''1'' | Liability \<Rightarrow> ''2'' | Equity \<Rightarrow> ''3'' | Income \<Rightarrow> ''4''
     | Cogs \<Rightarrow> ''5'' | Expense \<Rightarrow> ''67'')"

text \<open>
  The seed chart names each account once, every number is four digits in the band of its
  classification, and stored classification names parse back to what wrote them.
\<close>

theorem seed_chart_well_formed:
  "distinct (map as_number seed_chart) \<and>
   list_all (\<lambda>a. length (as_number a) = 4 \<and> hd (as_number a) \<in> set (band (as_classification a))) seed_chart \<and>
   parse_classification (classification_as_str c) = Some c"
proof -
  have "distinct (map as_number seed_chart)"
    by (simp add: seed_chart_def chart_numbers)
  moreover have "list_all (\<lambda>a. length (as_number a) = 4 \<and> hd (as_number a) \<in> set (band (as_classification a))) seed_chart"
    by (simp add: seed_chart_def chart_numbers band_def)
  moreover have "parse_classification (classification_as_str c) = Some c"
    by (cases c) (simp_all add: parse_classification_def)
  ultimately show ?thesis by blast
qed

end
