(* ===== verification/Posting.thy ===== *)
theory Posting
  imports Chart
begin

text \<open>
  \<open>apps/ledger/src/post.rs\<close>: the posting rules. \<open>post\<close> turns a document into a balanced
  journal entry or says that the document does not post. Every \<open>post_*\<close> function of the
  source builds a list of legs; \<open>finalize\<close> merges and numbers them.

  \<open>D\<close> is the record of decimal operations (a package); a decimal operator that overflows
  panics. \<open>dbg\<close> says whether debug assertions are compiled in.
\<close>

section \<open>Results and errors\<close>

datatype posting = NonPosting | Entry journal_entry

datatype post_error =
    MissingClass int
  | UnknownItem string
  | MissingAccount int
  | UnbalancedJournal
  | MoneyFailed money_error
  | PaymentDoesNotAddUp string money money money

type_synonym 'a post_res = "(post_error, 'a) res"

definition money_try :: "money_error + 'a \<Rightarrow> 'a post_res" where
  "money_try r = map_err (\<lambda>e. Err (MoneyFailed e)) r"

section \<open>Classes and legs\<close>

definition resolve_class :: "doc_line \<Rightarrow> item_accounts option \<Rightarrow> class_id option \<Rightarrow> class_id option" where
  "resolve_class line item header =
     or_else (or_else (dl_class line) (Option.bind item ia_default_class)) header"

definition requires_class :: "account_id \<Rightarrow> bool" where
  "requires_class account =
     (case account_no account of [] \<Rightarrow> False | c # _ \<Rightarrow> c \<in> set ''4567'')"

record leg =
  leg_account :: account_id
  leg_class :: "class_id option"
  leg_entity :: "contact_ref option"
  leg_side :: side
  leg_amount :: money
  leg_is_taxable :: bool
  leg_tax_amount :: "money option"
  leg_tax_rate :: "decimal option"

definition leg_with_tax :: "leg \<Rightarrow> bool \<Rightarrow> money option \<Rightarrow> decimal option \<Rightarrow> leg" where
  "leg_with_tax self is_taxable tax_amount tax_rate =
     self\<lparr>leg_is_taxable := is_taxable, leg_tax_amount := tax_amount, leg_tax_rate := tax_rate\<rparr>"

definition debit :: "account_id \<Rightarrow> money \<Rightarrow> class_id option \<Rightarrow> contact_ref option \<Rightarrow> leg" where
  "debit account amount class entity =
     \<lparr>leg_account = account, leg_class = class, leg_entity = entity, leg_side = Debit,
      leg_amount = amount, leg_is_taxable = False, leg_tax_amount = None, leg_tax_rate = None\<rparr>"

definition credit :: "account_id \<Rightarrow> money \<Rightarrow> class_id option \<Rightarrow> contact_ref option \<Rightarrow> leg" where
  "credit account amount class entity =
     \<lparr>leg_account = account, leg_class = class, leg_entity = entity, leg_side = Credit,
      leg_amount = amount, leg_is_taxable = False, leg_tax_amount = None, leg_tax_rate = None\<rparr>"

definition line_tax :: "dec_ops \<Rightarrow> doc_line \<Rightarrow> tax_detail option \<Rightarrow> (money \<times> decimal) option post_res" where
  "line_tax D line tax =
     (if \<not> dl_is_taxable line then Inr None
      else case tax of
          None \<Rightarrow> Inr None
        | Some tax \<Rightarrow>
            and_then (ok_or (d_mul D (dec_new (sint (minor (dl_amount line))) 2) (td_rate tax)) Panic)
              (\<lambda>product. and_then (money_try (round_money D product TaxCalculation))
                (\<lambda>extended. Inr (Some (extended, td_rate tax)))))"

definition acct :: "string \<Rightarrow> account_id" where
  "acct number = AccountId number"

definition class_for :: "doc_line \<Rightarrow> item_accounts option \<Rightarrow> class_id option \<Rightarrow> account_id \<Rightarrow> class_id option post_res" where
  "class_for line item header account =
     (if \<not> requires_class account then Inr None
      else let resolved = resolve_class line item header
           in if requires_class account \<and> resolved = None then Inl (Err (MissingClass (dl_line_no line)))
              else Inr resolved)"

definition lookup_item :: "posting_context \<Rightarrow> string option \<Rightarrow> item_accounts option post_res" where
  "lookup_item ctx item_id =
     (case item_id of
        Some i \<Rightarrow> ok_or (map_option Some (ctx_items ctx i)) (Err (UnknownItem i))
      | None \<Rightarrow> Inr None)"

definition required_item :: "posting_context \<Rightarrow> doc_line \<Rightarrow> item_accounts post_res" where
  "required_item ctx line =
     and_then (lookup_item ctx (dl_item_id line))
       (\<lambda>item. ok_or item (Err (MissingAccount (dl_line_no line))))"

definition extend_unit_cost :: "dec_ops \<Rightarrow> decimal \<Rightarrow> money \<Rightarrow> money post_res" where
  "extend_unit_cost D qty unit_cost =
     (let rate = dec_new (sint (minor unit_cost)) 2
      in and_then (ok_or (d_mul D qty rate) Panic)
           (\<lambda>product. money_try (round_money D product LineExtension)))"

definition post_inventory_cogs ::
  "dec_ops \<Rightarrow> leg list \<Rightarrow> doc_line \<Rightarrow> item_accounts option \<Rightarrow> class_id option \<Rightarrow> leg list post_res" where
  "post_inventory_cogs D legs line item class =
     (case item of None \<Rightarrow> Inr legs | Some item \<Rightarrow>
      case ia_asset item of None \<Rightarrow> Inr legs | Some asset \<Rightarrow>
      case dl_qty line of None \<Rightarrow> Inr legs | Some qty \<Rightarrow>
      case or_else (dl_unit_cost line) (ia_unit_cost item) of None \<Rightarrow> Inr legs | Some unit_cost \<Rightarrow>
        and_then (extend_unit_cost D qty unit_cost) (\<lambda>extended.
          if is_zero extended then Inr legs
          else Inr (legs @ [debit (acct COGS) extended class None,
                            credit asset extended None None])))"

definition post_inventory_return ::
  "dec_ops \<Rightarrow> leg list \<Rightarrow> doc_line \<Rightarrow> item_accounts option \<Rightarrow> class_id option \<Rightarrow> leg list post_res" where
  "post_inventory_return D legs line item class =
     (case item of None \<Rightarrow> Inr legs | Some item \<Rightarrow>
      case ia_asset item of None \<Rightarrow> Inr legs | Some asset \<Rightarrow>
      case dl_qty line of None \<Rightarrow> Inr legs | Some qty \<Rightarrow>
      case or_else (dl_unit_cost line) (ia_unit_cost item) of None \<Rightarrow> Inr legs | Some unit_cost \<Rightarrow>
        and_then (extend_unit_cost D qty unit_cost) (\<lambda>extended.
          if is_zero extended then Inr legs
          else Inr (legs @ [debit asset extended None None,
                            credit (acct COGS) extended class None])))"

section \<open>Sales documents\<close>

definition tax_parts :: "(money \<times> decimal) option \<Rightarrow> money option \<times> decimal option" where
  "tax_parts t = (case t of Some (amount, rate) \<Rightarrow> (Some amount, Some rate) | None \<Rightarrow> (None, None))"

definition revenue_line ::
  "dec_ops \<Rightarrow> ledger_document \<Rightarrow> posting_context \<Rightarrow> leg list \<times> money \<Rightarrow> doc_line \<Rightarrow> (leg list \<times> money) post_res" where
  "revenue_line D doc ctx st line =
     (case st of (legs, tot) \<Rightarrow>
      let header = doc_header_class doc in
      case dl_kind line of
        Item \<Rightarrow>
          and_then (lookup_item ctx (dl_item_id line)) (\<lambda>item.
          let account = acct SALES_INCOME in
          and_then (class_for line item header account) (\<lambda>class.
          and_then (line_tax D line (doc_tax doc)) (\<lambda>t.
          case tax_parts t of (tax_amount, tax_rate) \<Rightarrow>
          let legs = legs @ [leg_with_tax (credit account (dl_amount line) class None)
                               (dl_is_taxable line) tax_amount tax_rate] in
          and_then (money_try (checked_add tot (dl_amount line))) (\<lambda>tot.
          and_then (post_inventory_cogs D legs line item class) (\<lambda>legs.
          Inr (legs, tot))))))
      | Shipping \<Rightarrow>
          and_then (lookup_item ctx (dl_item_id line)) (\<lambda>item.
          let account = acct SHIPPING_INCOME in
          and_then (class_for line item header account) (\<lambda>class.
          and_then (line_tax D line (doc_tax doc)) (\<lambda>t.
          case tax_parts t of (tax_amount, tax_rate) \<Rightarrow>
          let legs = legs @ [leg_with_tax (credit account (dl_amount line) class None)
                               (dl_is_taxable line) tax_amount tax_rate] in
          and_then (money_try (checked_add tot (dl_amount line))) (\<lambda>tot.
          Inr (legs, tot)))))
      | Discount \<Rightarrow>
          and_then (lookup_item ctx (dl_item_id line)) (\<lambda>item.
          let account = acct DISCOUNTS_GIVEN in
          and_then (class_for line item header account) (\<lambda>class.
          let legs = legs @ [debit account (dl_amount line) class None] in
          and_then (money_try (checked_sub tot (dl_amount line))) (\<lambda>tot.
          Inr (legs, tot))))
      | Description \<Rightarrow> Inr (legs, tot)
      | Account \<Rightarrow> Inr (legs, tot)
      | Journal \<Rightarrow> Inr (legs, tot))"

definition revenue_legs ::
  "dec_ops \<Rightarrow> ledger_document \<Rightarrow> posting_context \<Rightarrow> (leg list \<times> money) post_res" where
  "revenue_legs D doc ctx =
     and_then (try_fold (revenue_line D doc ctx) ([], ZERO) (doc_lines doc)) (\<lambda>(legs, tot).
       case doc_tax doc of
         Some tax \<Rightarrow>
           let legs = legs @ [credit (acct SALES_TAX_PAYABLE) (td_total_tax tax) None None] in
           and_then (money_try (checked_add tot (td_total_tax tax))) (\<lambda>tot. Inr (legs, tot))
       | None \<Rightarrow> Inr (legs, tot))"

definition post_invoice :: "dec_ops \<Rightarrow> ledger_document \<Rightarrow> posting_context \<Rightarrow> leg list post_res" where
  "post_invoice D doc ctx =
     and_then (revenue_legs D doc ctx) (\<lambda>(legs, tot).
       Inr (legs @ [debit (acct ACCOUNTS_RECEIVABLE) tot None (doc_contact doc)]))"

definition post_sales_receipt :: "dec_ops \<Rightarrow> ledger_document \<Rightarrow> posting_context \<Rightarrow> leg list post_res" where
  "post_sales_receipt D doc ctx =
     and_then (revenue_legs D doc ctx) (\<lambda>(legs, tot).
       let deposit = unwrap_or (doc_deposit_to doc) (cfg_default_deposit_account (ctx_config ctx))
       in Inr (legs @ [debit deposit tot None None]))"

definition returns_line ::
  "dec_ops \<Rightarrow> ledger_document \<Rightarrow> posting_context \<Rightarrow> leg list \<times> money \<Rightarrow> doc_line \<Rightarrow> (leg list \<times> money) post_res" where
  "returns_line D doc ctx st line =
     (case st of (legs, tot) \<Rightarrow>
      let header = doc_header_class doc in
      if dl_kind line = Item \<or> dl_kind line = Shipping then
          and_then (lookup_item ctx (dl_item_id line)) (\<lambda>item.
          let account = acct RETURNS_ALLOWANCES in
          and_then (class_for line item header account) (\<lambda>class.
          let legs = legs @ [debit account (dl_amount line) class None] in
          and_then (money_try (checked_add tot (dl_amount line))) (\<lambda>tot.
          if dl_kind line = Item then
            and_then (post_inventory_return D legs line item class) (\<lambda>legs. Inr (legs, tot))
          else Inr (legs, tot))))
      else if dl_kind line = Discount then
          and_then (lookup_item ctx (dl_item_id line)) (\<lambda>item.
          let account = acct DISCOUNTS_GIVEN in
          and_then (class_for line item header account) (\<lambda>class.
          let legs = legs @ [credit account (dl_amount line) class None] in
          and_then (money_try (checked_sub tot (dl_amount line))) (\<lambda>tot.
          Inr (legs, tot))))
      else Inr (legs, tot))"

definition returns_legs ::
  "dec_ops \<Rightarrow> ledger_document \<Rightarrow> posting_context \<Rightarrow> (leg list \<times> money) post_res" where
  "returns_legs D doc ctx =
     and_then (try_fold (returns_line D doc ctx) ([], ZERO) (doc_lines doc)) (\<lambda>(legs, tot).
       case doc_tax doc of
         Some tax \<Rightarrow>
           let legs = legs @ [debit (acct SALES_TAX_PAYABLE) (td_total_tax tax) None None] in
           and_then (money_try (checked_add tot (td_total_tax tax))) (\<lambda>tot. Inr (legs, tot))
       | None \<Rightarrow> Inr (legs, tot))"

definition post_credit_memo :: "dec_ops \<Rightarrow> ledger_document \<Rightarrow> posting_context \<Rightarrow> leg list post_res" where
  "post_credit_memo D doc ctx =
     and_then (returns_legs D doc ctx) (\<lambda>(legs, tot).
       Inr (legs @ [credit (acct ACCOUNTS_RECEIVABLE) tot None (doc_contact doc)]))"

definition post_refund_receipt :: "dec_ops \<Rightarrow> ledger_document \<Rightarrow> posting_context \<Rightarrow> leg list post_res" where
  "post_refund_receipt D doc ctx =
     and_then (returns_legs D doc ctx) (\<lambda>(legs, tot).
       let pay_from = unwrap_or (doc_pay_from doc) (cfg_default_bank_account (ctx_config ctx))
       in Inr (legs @ [credit pay_from tot None None]))"

section \<open>Payments\<close>

definition post_payment :: "ledger_document \<Rightarrow> posting_context \<Rightarrow> leg list post_res" where
  "post_payment doc ctx =
     and_then (money_try (checked_sum (map ap_amount (doc_applications doc)))) (\<lambda>applications_total.
     and_then (money_try (checked_add applications_total (doc_unapplied doc))) (\<lambda>tot.
     and_then
       (if doc_lines doc \<noteq> [] then
          and_then (money_try (subtotal doc)) (\<lambda>stated.
            if stated \<noteq> tot then
              Inl (Err (PaymentDoesNotAddUp (doc_document_id doc) applications_total (doc_unapplied doc) stated))
            else Inr ())
        else Inr ()) (\<lambda>_.
     let entity = doc_contact doc;
         legs = (if is_zero applications_total then []
                 else [credit (acct ACCOUNTS_RECEIVABLE) applications_total None entity]);
         legs = legs @ (if is_zero (doc_unapplied doc) then []
                        else [credit (acct CUSTOMER_DEPOSITS) (doc_unapplied doc) None entity]);
         deposit = unwrap_or (doc_deposit_to doc) (acct UNDEPOSITED_FUNDS)
     in Inr (legs @ [debit deposit tot None None]))))"

section \<open>Purchases\<close>

definition purchase_side_account :: "item_accounts \<Rightarrow> account_id" where
  "purchase_side_account item = unwrap_or (ia_asset item) (ia_expense item)"

text \<open>
  Bill, Purchase and VendorCredit share one loop body but for the side: \<open>mk\<close> is \<open>debit\<close>
  on the first two and \<open>credit\<close> on the third.
\<close>

definition purchase_line ::
  "(account_id \<Rightarrow> money \<Rightarrow> class_id option \<Rightarrow> contact_ref option \<Rightarrow> leg) \<Rightarrow> ledger_document \<Rightarrow>
   posting_context \<Rightarrow> leg list \<times> money \<Rightarrow> doc_line \<Rightarrow> (leg list \<times> money) post_res" where
  "purchase_line mk doc ctx st line =
     (case st of (legs, tot) \<Rightarrow>
      let header = doc_header_class doc in
      case dl_kind line of
        Item \<Rightarrow>
          and_then (required_item ctx line) (\<lambda>item.
          let account = purchase_side_account item in
          and_then (class_for line (Some item) header account) (\<lambda>class.
          let legs = legs @ [mk account (dl_amount line) class None] in
          and_then (money_try (checked_add tot (dl_amount line))) (\<lambda>tot.
          Inr (legs, tot))))
      | Account \<Rightarrow>
          and_then (ok_or (dl_account line) (Err (MissingAccount (dl_line_no line)))) (\<lambda>account.
          and_then (class_for line None header account) (\<lambda>class.
          let legs = legs @ [mk account (dl_amount line) class None] in
          and_then (money_try (checked_add tot (dl_amount line))) (\<lambda>tot.
          Inr (legs, tot))))
      | _ \<Rightarrow> Inr (legs, tot))"

definition post_bill :: "ledger_document \<Rightarrow> posting_context \<Rightarrow> leg list post_res" where
  "post_bill doc ctx =
     and_then (try_fold (purchase_line debit doc ctx) ([], ZERO) (doc_lines doc)) (\<lambda>(legs, tot).
       Inr (legs @ [credit (acct ACCOUNTS_PAYABLE) tot None (doc_contact doc)]))"

definition post_bill_payment :: "ledger_document \<Rightarrow> posting_context \<Rightarrow> leg list post_res" where
  "post_bill_payment doc ctx =
     and_then (money_try (checked_sum (map ap_amount (doc_applications doc)))) (\<lambda>applications_total.
     and_then (money_try (checked_add applications_total (doc_unapplied doc))) (\<lambda>ap_total.
     let legs = [debit (acct ACCOUNTS_PAYABLE) ap_total None (doc_contact doc)];
         pay_from = unwrap_or (doc_pay_from doc) (cfg_default_bank_account (ctx_config ctx))
     in Inr (legs @ [credit pay_from ap_total None None])))"

definition post_vendor_credit :: "ledger_document \<Rightarrow> posting_context \<Rightarrow> leg list post_res" where
  "post_vendor_credit doc ctx =
     and_then (try_fold (purchase_line credit doc ctx) ([], ZERO) (doc_lines doc)) (\<lambda>(legs, tot).
       Inr (legs @ [debit (acct ACCOUNTS_PAYABLE) tot None (doc_contact doc)]))"

definition post_purchase :: "ledger_document \<Rightarrow> posting_context \<Rightarrow> leg list post_res" where
  "post_purchase doc ctx =
     and_then (try_fold (purchase_line debit doc ctx) ([], ZERO) (doc_lines doc)) (\<lambda>(legs, tot).
       let pay_from = unwrap_or (doc_pay_from doc) (cfg_default_bank_account (ctx_config ctx))
       in Inr (legs @ [credit pay_from tot None None]))"

section \<open>Deposits, journal entries and bank lines\<close>

definition deposit_line ::
  "ledger_document \<Rightarrow> leg list \<times> money \<Rightarrow> doc_line \<Rightarrow> (leg list \<times> money) post_res" where
  "deposit_line doc st line =
     (case st of (legs, net) \<Rightarrow>
      if dl_kind line \<noteq> Account then Inr (legs, net)
      else
        and_then (ok_or (dl_account line) (Err (MissingAccount (dl_line_no line)))) (\<lambda>account.
        and_then (class_for line None (doc_header_class doc) account) (\<lambda>class.
        if is_negative (dl_amount line) then
          and_then (money_try (checked_neg (dl_amount line))) (\<lambda>fee.
          and_then (money_try (checked_sub net fee)) (\<lambda>net.
          Inr (legs @ [debit account fee class None], net)))
        else
          and_then (money_try (checked_add net (dl_amount line))) (\<lambda>net.
          Inr (legs @ [credit account (dl_amount line) class None], net)))))"

definition post_deposit :: "ledger_document \<Rightarrow> posting_context \<Rightarrow> leg list post_res" where
  "post_deposit doc ctx =
     and_then (try_fold (deposit_line doc) ([], ZERO) (doc_lines doc)) (\<lambda>(legs, net).
       let deposit_to = unwrap_or (doc_deposit_to doc) (cfg_default_bank_account (ctx_config ctx))
       in Inr (legs @ [debit deposit_to net None None]))"

definition journal_leg :: "ledger_document \<Rightarrow> leg list \<Rightarrow> doc_line \<Rightarrow> leg list post_res" where
  "journal_leg doc legs line =
     (if dl_kind line \<noteq> Journal \<or> is_zero (dl_amount line) then Inr legs
      else
        and_then (ok_or (dl_account line) (Err (MissingAccount (dl_line_no line)))) (\<lambda>account.
        and_then (ok_or (dl_posting line) (Err (MissingAccount (dl_line_no line)))) (\<lambda>side.
        and_then (class_for line None (doc_header_class doc) account) (\<lambda>class.
        Inr (legs @ [\<lparr>leg_account = account, leg_class = class, leg_entity = dl_entity line,
                      leg_side = side, leg_amount = dl_amount line, leg_is_taxable = False,
                      leg_tax_amount = None, leg_tax_rate = None\<rparr>])))))"

definition post_journal_entry :: "ledger_document \<Rightarrow> leg list post_res" where
  "post_journal_entry doc = try_fold (journal_leg doc) [] (doc_lines doc)"

definition post_bank_line :: "ledger_document \<Rightarrow> posting_context \<Rightarrow> leg list post_res" where
  "post_bank_line doc ctx =
     and_then (ok_or (find_map (\<lambda>line. dl_kind line = Account) (doc_lines doc)) (Err (MissingAccount 0))) (\<lambda>line.
     and_then (ok_or (dl_account line) (Err (MissingAccount (dl_line_no line)))) (\<lambda>account.
     and_then (class_for line None (doc_header_class doc) account) (\<lambda>class.
     let bank = unwrap_or (or_else (doc_deposit_to doc) (doc_pay_from doc))
                  (cfg_default_bank_account (ctx_config ctx)) in
     if is_negative (dl_amount line) then
       and_then (money_try (checked_neg (dl_amount line))) (\<lambda>amount.
       Inr [debit account amount class None, credit bank amount None None])
     else
       Inr [debit bank (dl_amount line) None None, credit account (dl_amount line) class None])))"

section \<open>Settlements and manufacturing\<close>

definition is_account_named :: "doc_line \<Rightarrow> string \<Rightarrow> bool" where
  "is_account_named line number \<longleftrightarrow>
     dl_kind line = Account \<and>
     (case dl_account line of Some account \<Rightarrow> account_no account = number | None \<Rightarrow> False)"

definition post_settlement :: "ledger_document \<Rightarrow> posting_context \<Rightarrow> leg list post_res" where
  "post_settlement doc ctx =
     and_then (ok_or (find_map (\<lambda>line. is_account_named line AUTHNET_CLEARING) (doc_lines doc))
       (Err (MissingAccount 0))) (\<lambda>gross_line.
     let gross = dl_amount gross_line;
         fee_line = find_map (\<lambda>line. is_account_named line MERCHANT_FEES) (doc_lines doc);
         fee = (case fee_line of None \<Rightarrow> ZERO | Some line \<Rightarrow> dl_amount line) in
     and_then (money_try (checked_sub gross fee)) (\<lambda>net.
     let bank = unwrap_or (doc_deposit_to doc) (cfg_default_bank_account (ctx_config ctx));
         legs = [debit bank net None None, credit (acct AUTHNET_CLEARING) gross None None]
     in if \<not> is_zero fee then
          Inr (legs @ [debit (acct MERCHANT_FEES) fee (Option.bind fee_line dl_class) None])
        else Inr legs))"

definition named_account_amount :: "ledger_document \<Rightarrow> string \<Rightarrow> money option" where
  "named_account_amount doc number =
     map_option dl_amount (find_map (\<lambda>line. is_account_named line number) (doc_lines doc))"

definition post_raw_material_receipt :: "ledger_document \<Rightarrow> leg list post_res" where
  "post_raw_material_receipt doc =
     and_then (ok_or (named_account_amount doc INVENTORY_RAW) (Err (MissingAccount 0))) (\<lambda>landed.
     Inr [debit (acct INVENTORY_RAW) landed None None,
          credit (acct INVENTORY_RECEIVED_NOT_BILLED) landed None None])"

definition post_build :: "ledger_document \<Rightarrow> leg list post_res" where
  "post_build doc =
     and_then (ok_or (doc_header_class doc) (Err (MissingClass 0))) (\<lambda>class.
     and_then (ok_or (named_account_amount doc INVENTORY_FINISHED) (Err (MissingAccount 0))) (\<lambda>finished.
     and_then (ok_or (named_account_amount doc INVENTORY_RAW) (Err (MissingAccount 0))) (\<lambda>raw_used.
     and_then (ok_or (named_account_amount doc PARTS_LABOUR_APPLIED) (Err (MissingAccount 0))) (\<lambda>applied.
     let legs = [debit (acct INVENTORY_FINISHED) finished None None,
                 credit (acct INVENTORY_RAW) raw_used None None,
                 credit (acct PARTS_LABOUR_APPLIED) applied (Some class) None] in
     and_then (money_try (checked_sub finished raw_used)) (\<lambda>rest.
     and_then (money_try (checked_sub rest applied)) (\<lambda>variance.
     if is_negative variance then
       and_then (money_try (checked_neg variance)) (\<lambda>overrun.
       Inr (legs @ [debit (acct MANUFACTURING_VARIANCE) overrun (Some class) None]))
     else if \<not> is_zero variance then
       Inr (legs @ [credit (acct MANUFACTURING_VARIANCE) variance (Some class) None])
     else Inr legs))))))"

definition adjustment_line :: "ledger_document \<Rightarrow> leg list \<Rightarrow> doc_line \<Rightarrow> leg list post_res" where
  "adjustment_line doc legs line =
     (if dl_kind line = Description then Inr legs
      else
        and_then
          (ok_or
            (case dl_account line of
               Some account \<Rightarrow>
                 if dl_kind line = Account \<and> is_inventory_asset (account_no account) then Some account else None
             | None \<Rightarrow> None)
            (Err (MissingAccount (dl_line_no line)))) (\<lambda>account.
        if is_zero (dl_amount line) then Inr legs
        else
          and_then (ok_or (or_else (dl_class line) (doc_header_class doc))
            (Err (MissingClass (dl_line_no line)))) (\<lambda>class.
          if is_negative (dl_amount line) then
            and_then (money_try (checked_neg (dl_amount line))) (\<lambda>shrink.
            Inr (legs @ [debit (acct INVENTORY_ADJUSTMENT) shrink (Some class) None,
                         credit account shrink None None]))
          else
            Inr (legs @ [debit account (dl_amount line) None None,
                         credit (acct INVENTORY_ADJUSTMENT) (dl_amount line) (Some class) None]))))"

definition post_inventory_adjustment :: "ledger_document \<Rightarrow> leg list post_res" where
  "post_inventory_adjustment doc =
     and_then (try_fold (adjustment_line doc) [] (doc_lines doc)) (\<lambda>legs.
       if list_all (\<lambda>line. dl_kind line = Description) (doc_lines doc)
       then Inl (Err (MissingAccount 0)) else Inr legs)"

section \<open>Merging legs into lines\<close>

definition flip_negative :: "leg \<Rightarrow> leg post_res" where
  "flip_negative leg =
     (if is_negative (leg_amount leg) then
        and_then (money_try (checked_neg (leg_amount leg))) (\<lambda>amount.
        Inr (leg\<lparr>leg_amount := amount,
                 leg_side := (case leg_side leg of Debit \<Rightarrow> Credit | Credit \<Rightarrow> Debit)\<rparr>))
      else Inr leg)"

definition same_key :: "leg \<Rightarrow> leg \<Rightarrow> bool" where
  "same_key existing leg \<longleftrightarrow>
     leg_account existing = leg_account leg \<and> leg_class existing = leg_class leg \<and>
     leg_entity existing = leg_entity leg \<and> leg_side existing = leg_side leg \<and>
     leg_is_taxable existing = leg_is_taxable leg"

definition absorb :: "leg \<Rightarrow> leg \<Rightarrow> leg post_res" where
  "absorb existing leg =
     and_then (money_try (checked_add (leg_amount existing) (leg_amount leg))) (\<lambda>amount.
     and_then
       (case (leg_tax_amount existing, leg_tax_amount leg) of
          (Some a, Some b) \<Rightarrow> and_then (money_try (checked_add a b)) (\<lambda>s. Inr (Some s))
        | (Some a, None) \<Rightarrow> Inr (Some a)
        | (None, tax_amount) \<Rightarrow> Inr tax_amount) (\<lambda>tax_amount.
     Inr (existing\<lparr>leg_amount := amount, leg_tax_amount := tax_amount,
                   leg_tax_rate := or_else (leg_tax_rate existing) (leg_tax_rate leg)\<rparr>)))"

text \<open>\<open>merged.iter_mut().find\<close>: the first leg with the same key absorbs it, else it is pushed.\<close>

fun merge_into :: "leg list \<Rightarrow> leg \<Rightarrow> leg list post_res" where
  "merge_into [] leg = Inr [leg]"
| "merge_into (existing # merged) leg =
     (if same_key existing leg then
        and_then (absorb existing leg) (\<lambda>existing. Inr (existing # merged))
      else and_then (merge_into merged leg) (\<lambda>merged. Inr (existing # merged)))"

definition merge_step :: "leg list \<Rightarrow> leg \<Rightarrow> leg list post_res" where
  "merge_step merged leg =
     (if is_zero (leg_amount leg) then Inr merged
      else and_then (flip_negative leg) (\<lambda>leg. merge_into merged leg))"

definition leg_line :: "int \<Rightarrow> leg \<Rightarrow> journal_line" where
  "leg_line line_no leg =
     (let line = (case leg_side leg of
            Debit \<Rightarrow> debit_line line_no (leg_account leg) (leg_amount leg)
          | Credit \<Rightarrow> credit_line line_no (leg_account leg) (leg_amount leg));
          line = line\<lparr>jl_class := leg_class leg, jl_entity := leg_entity leg\<rparr>
      in with_tax line (leg_is_taxable leg) (leg_tax_amount leg) (leg_tax_rate leg))"

fun number_legs :: "int \<Rightarrow> leg list \<Rightarrow> journal_line list" where
  "number_legs line_no [] = []"
| "number_legs line_no (leg # legs) =
     (if is_zero (leg_amount leg) then number_legs line_no legs
      else leg_line line_no leg # number_legs (line_no + 1) legs)"

definition merge_legs :: "leg list \<Rightarrow> journal_line list post_res" where
  "merge_legs legs =
     and_then (try_fold merge_step [] legs) (\<lambda>merged. Inr (number_legs 1 merged))"

definition finalize :: "ledger_document \<Rightarrow> int \<Rightarrow> leg list \<Rightarrow> bool \<Rightarrow> journal_entry post_res" where
  "finalize doc version legs is_flagged =
     and_then (merge_legs legs) (\<lambda>lines.
     Inr \<lparr>je_entry_date = doc_txn_date doc, je_memo = doc_memo doc, je_source_type = doc_kind doc,
          je_source_id = doc_document_id doc, je_source_version = version, je_reversal_of = None,
          je_is_flagged = is_flagged, je_lines = lines\<rparr>)"

definition swap_sides :: "journal_line \<Rightarrow> journal_line" where
  "swap_sides line = line\<lparr>jl_debit := jl_credit line, jl_credit := jl_debit line\<rparr>"

definition apply_void :: "journal_entry \<Rightarrow> bool \<Rightarrow> journal_entry" where
  "apply_void entry is_voided =
     (if \<not> is_voided then entry
      else entry\<lparr>je_lines := map swap_sides (je_lines entry),
                 je_memo := Some (''VOID: '' @ unwrap_or (je_memo entry) [])\<rparr>)"

section \<open>The posting function\<close>

definition post_legs :: "dec_ops \<Rightarrow> ledger_document \<Rightarrow> posting_context \<Rightarrow> leg list post_res" where
  "post_legs D doc ctx =
     (if doc_kind doc = JournalEntry then post_journal_entry doc
      else case doc_kind doc of
          Invoice \<Rightarrow> post_invoice D doc ctx
        | SalesReceipt \<Rightarrow> post_sales_receipt D doc ctx
        | CreditMemo \<Rightarrow> post_credit_memo D doc ctx
        | RefundReceipt \<Rightarrow> post_refund_receipt D doc ctx
        | Payment \<Rightarrow> post_payment doc ctx
        | Bill \<Rightarrow> post_bill doc ctx
        | BillPayment \<Rightarrow> post_bill_payment doc ctx
        | VendorCredit \<Rightarrow> post_vendor_credit doc ctx
        | Purchase \<Rightarrow> post_purchase doc ctx
        | Deposit \<Rightarrow> post_deposit doc ctx
        | BankLine \<Rightarrow> post_bank_line doc ctx
        | Settlement \<Rightarrow> post_settlement doc ctx
        | RawMaterialReceipt \<Rightarrow> post_raw_material_receipt doc
        | Build \<Rightarrow> post_build doc
        | InventoryAdjustment \<Rightarrow> post_inventory_adjustment doc
        | _ \<Rightarrow> Inl Panic)"

definition post :: "bool \<Rightarrow> dec_ops \<Rightarrow> ledger_document \<Rightarrow> int \<Rightarrow> posting_context \<Rightarrow> posting post_res" where
  "post dbg D doc version ctx =
     (if \<not> posts (doc_kind doc) then Inr NonPosting
      else
        let is_journal = (doc_kind doc = JournalEntry) in
        and_then (post_legs D doc ctx) (\<lambda>legs.
        and_then (finalize doc version legs is_journal) (\<lambda>entry.
        if je_lines entry = [] then Inr NonPosting
        else if is_journal \<and> \<not> is_balanced entry then Inl (Err UnbalancedJournal)
        else if dbg \<and> \<not> is_balanced entry then Inl Panic
        else Inr (Entry (apply_void entry (doc_is_voided doc))))))"

end
