(* ===== verification/Ledger_Db.thy ===== *)
theory Ledger_Db
  imports Chart
begin

text \<open>
  The ledger's SQLite schema (\<open>MIGRATIONS\<close> of \<open>apps/ledger/src/store.rs\<close>, all nine applied) as
  far as the posting, period, bank and accountant operations use it: one list of rows per
  table, and the write statements on the two journal tables with their constraints,
  foreign keys and triggers. A statement that a constraint or trigger refuses changes nothing.

  Columns hold the typed value the code writes: a date column a date, an RFC 3339 column an
  instant, a side or kind column the constructor its \<open>as_str\<close> names.
\<close>

section \<open>Rows\<close>

type_synonym timestamp = int

record account =
  ac_account_id :: account_id
  ac_number :: string
  ac_name :: string
  ac_classification :: classification
  ac_subtype :: "string option"
  ac_parent_id :: "string option"
  ac_normal_balance :: side
  ac_is_contra :: bool
  ac_is_active :: bool
  ac_needs_mapping :: bool
  ac_source_ref :: "string option"

record class_row =
  cl_class_id :: class_id
  cl_name :: string
  cl_parent_id :: "string option"
  cl_is_active :: bool
  cl_source_ref :: "string option"

record company_row =
  co_display_name :: string
  co_realm_id :: "string option"
  co_created_at :: timestamp

record period_row =
  pe_period_end :: naive_date
  pe_closed :: bool
  pe_closed_at :: timestamp
  pe_closed_by :: string
  pe_tb_snapshot_id :: string

record close_history_row =
  ch_seq :: int
  ch_at :: timestamp
  ch_actor :: string
  ch_moved_from :: "naive_date option"
  ch_moved_to :: "naive_date option"
  ch_is_reopen :: bool
  ch_note :: string

record document_version =
  dv_document_id :: string
  dv_version :: int
  dv_doc_type :: doc_kind
  dv_doc_number :: "string option"
  dv_txn_date :: naive_date
  dv_contact_id :: "string option"
  dv_payload_json :: string
  dv_created_at :: timestamp
  dv_command_id :: string
  dv_source_ref :: "string option"

record entry_row =
  en_company :: string
  en_entry_id :: string
  en_entry_date :: naive_date
  en_posted_at :: "timestamp option"
  en_memo :: "string option"
  en_source_type :: doc_kind
  en_source_id :: string
  en_source_version :: int
  en_reversal_of_id :: "string option"
  en_is_posted :: int
  en_is_flagged :: bool

text \<open>A row of \<open>journal_lines\<close>: its key, the line's columns, and the reconciliation stamp.\<close>

record line_row =
  ln_company :: string
  ln_entry_id :: string
  ln_line :: journal_line
  ln_cleared_at :: "timestamp option"

text \<open>The six members of the JSON object a snapshot keeps of each trial balance row.\<close>

record snapshot_row =
  sr_account_id :: account_id
  sr_number :: string
  sr_name :: string
  sr_debit :: money
  sr_credit :: money
  sr_balance :: money

record tb_snapshot =
  sn_snapshot_id :: string
  sn_as_of :: naive_date
  sn_taken_at :: timestamp
  sn_rows :: "snapshot_row list"

record oplog_row =
  ol_command_id :: string
  ol_actor_id :: string
  ol_hlc :: string
  ol_kind :: string
  ol_payload_json :: string
  ol_applied_at :: timestamp

datatype adjustment_state = Proposed | Approved | Rejected | Posted

record adjustment_request_row =
  ar_request_id :: string
  ar_requested_by :: string
  ar_requested_at :: timestamp
  ar_description :: string
  ar_lines_json :: string
  ar_state :: adjustment_state
  ar_decided_by :: "string option"
  ar_decided_at :: "timestamp option"
  ar_decision_note :: "string option"
  ar_posted_entry_id :: "string option"

record bank_statement_row =
  bs_statement_id :: string
  bs_account_id :: account_id
  bs_period_start :: naive_date
  bs_period_end :: naive_date
  bs_opening_balance :: money
  bs_closing_balance :: money
  bs_imported_at :: timestamp
  bs_closed_at :: "timestamp option"

record bank_line_row =
  bl_line_id :: string
  bl_statement_id :: string
  bl_account_id :: account_id
  bl_posted_on :: naive_date
  bl_amount :: money
  bl_description :: string
  bl_external_id :: "string option"
  bl_matched_entry_id :: "string option"
  bl_matched_line_no :: "int option"
  bl_match_kind :: "string option"
  bl_matched_at :: "timestamp option"

section \<open>The database\<close>

text \<open>Every table but the journal's pairs a row with its \<open>company_id\<close>.\<close>

record db =
  db_companies :: "(string \<times> company_row) list"
  db_accounts :: "(string \<times> account) list"
  db_classes :: "(string \<times> class_row) list"
  db_periods :: "(string \<times> period_row) list"
  db_close_history :: "(string \<times> close_history_row) list"
  db_document_versions :: "(string \<times> document_version) list"
  db_journal_entries :: "entry_row list"
  db_journal_lines :: "line_row list"
  db_tb_snapshots :: "(string \<times> tb_snapshot) list"
  db_oplog :: "(string \<times> oplog_row) list"
  db_adjustment_requests :: "(string \<times> adjustment_request_row) list"
  db_bank_statements :: "(string \<times> bank_statement_row) list"
  db_bank_lines :: "(string \<times> bank_line_row) list"

definition empty_db :: db where
  "empty_db =
     \<lparr>db_companies = [], db_accounts = [], db_classes = [], db_periods = [], db_close_history = [],
      db_document_versions = [], db_journal_entries = [], db_journal_lines = [],
      db_tb_snapshots = [], db_oplog = [], db_adjustment_requests = [], db_bank_statements = [],
      db_bank_lines = []\<rparr>"

section \<open>Constraints and triggers\<close>

definition of_company :: "string \<Rightarrow> (string \<times> 'r) list \<Rightarrow> 'r list" where
  "of_company company table = map snd (filter (\<lambda>row. fst row = company) table)"

definition entry_key :: "entry_row \<Rightarrow> string \<times> string" where
  "entry_key e = (en_company e, en_entry_id e)"

definition line_entry_key :: "line_row \<Rightarrow> string \<times> string" where
  "line_entry_key l = (ln_company l, ln_entry_id l)"

definition line_pk :: "line_row \<Rightarrow> (string \<times> string) \<times> int" where
  "line_pk l = (line_entry_key l, jl_line_no (ln_line l))"

definition document_exists :: "db \<Rightarrow> string \<Rightarrow> string \<Rightarrow> int \<Rightarrow> bool" where
  "document_exists db company source_id source_version \<longleftrightarrow>
     list_ex (\<lambda>d. dv_document_id d = source_id \<and> dv_version d = source_version)
       (of_company company (db_document_versions db))"

definition account_exists :: "db \<Rightarrow> string \<Rightarrow> account_id \<Rightarrow> bool" where
  "account_exists db company account_id \<longleftrightarrow>
     list_ex (\<lambda>a. ac_account_id a = account_id) (of_company company (db_accounts db))"

text \<open>The \<open>CHECK\<close>s of \<open>journal_lines\<close>.\<close>

definition line_checks :: "journal_line \<Rightarrow> bool" where
  "line_checks l \<longleftrightarrow>
     0 \<le> sint (minor (jl_debit l)) \<and> 0 \<le> sint (minor (jl_credit l)) \<and>
     (sint (minor (jl_debit l)) = 0 \<or> sint (minor (jl_credit l)) = 0) \<and>
     0 < sint (minor (jl_debit l)) + sint (minor (jl_credit l))"

text \<open>\<open>SUM\<close>: null on no rows, an error when the running sum leaves 64 bits.\<close>

definition sql_sum :: "int list \<Rightarrow> string + int" where
  "sql_sum = try_fold (\<lambda>s x. if in_i64 (s + x) then Inr (s + x) else Inl ''integer overflow'') 0"

definition lines_of :: "db \<Rightarrow> string \<times> string \<Rightarrow> line_row list" where
  "lines_of db key = filter (\<lambda>l. line_entry_key l = key) (db_journal_lines db)"

definition posted_entry :: "db \<Rightarrow> string \<times> string \<Rightarrow> bool" where
  "posted_entry db key \<longleftrightarrow> list_ex (\<lambda>e. entry_key e = key \<and> en_is_posted e = 1) (db_journal_entries db)"

definition trg_journal_entries_balance_on_post :: "db \<Rightarrow> string \<times> string \<Rightarrow> string + unit" where
  "trg_journal_entries_balance_on_post db key =
     (let ls = lines_of db key in
      if ls = [] then Inl ''journal entry does not balance''
      else
        and_then (sql_sum (map (\<lambda>l. sint (minor (jl_debit (ln_line l)))) ls)) (\<lambda>debit.
        and_then (sql_sum (map (\<lambda>l. sint (minor (jl_credit (ln_line l)))) ls)) (\<lambda>credit.
        if debit - credit \<noteq> 0 then Inl ''journal entry does not balance'' else Inr ())))"

text \<open>The two triggers on an update of \<open>journal_entries\<close>, for one row.\<close>

definition update_entry_triggers :: "db \<Rightarrow> entry_row \<Rightarrow> entry_row \<Rightarrow> string + unit" where
  "update_entry_triggers db old new =
     (if en_is_posted old = 1 then Inl ''posted journal entry is immutable''
      else if en_is_posted new = 1 \<and> en_is_posted old = 0 then
        trg_journal_entries_balance_on_post db (entry_key new)
      else Inr ())"

text \<open>The columns the line trigger compares are those of the line; the key columns are not among them.\<close>

definition update_line_trigger :: "db \<Rightarrow> line_row \<Rightarrow> line_row \<Rightarrow> string + unit" where
  "update_line_trigger db old new =
     (if ln_line new \<noteq> ln_line old \<and> posted_entry db (line_entry_key old)
      then Inl ''posted journal line is immutable except cleared_at'' else Inr ())"

definition journal_keys_ok :: "db \<Rightarrow> bool" where
  "journal_keys_ok db \<longleftrightarrow>
     distinct (map entry_key (db_journal_entries db)) \<and> distinct (map line_pk (db_journal_lines db))"

definition matched_exists :: "entry_row list \<Rightarrow> string \<times> bank_line_row \<Rightarrow> bool" where
  "matched_exists entries row =
     (case row of (company, b) \<Rightarrow> case bl_matched_entry_id b of
        None \<Rightarrow> True
      | Some matched \<Rightarrow> list_ex (\<lambda>e. entry_key e = (company, matched)) entries)"

definition journal_references_ok :: "db \<Rightarrow> bool" where
  "journal_references_ok db \<longleftrightarrow>
     list_all (\<lambda>e. document_exists db (en_company e) (en_source_id e) (en_source_version e)) (db_journal_entries db) \<and>
     list_all (\<lambda>l. list_ex (\<lambda>e. entry_key e = line_entry_key l) (db_journal_entries db) \<and>
       account_exists db (ln_company l) (jl_account (ln_line l))) (db_journal_lines db) \<and>
     list_all (matched_exists (db_journal_entries db)) (db_bank_lines db)"

definition journal_lines_ok :: "db \<Rightarrow> bool" where
  "journal_lines_ok db \<longleftrightarrow> list_all (\<lambda>l. line_checks (ln_line l)) (db_journal_lines db)"

text \<open>What SQLite checks of the rows a statement leaves: primary keys, \<open>CHECK\<close>s, foreign keys.\<close>

definition constrained :: "db \<Rightarrow> string + db" where
  "constrained db =
     (if \<not> journal_lines_ok db then Inl ''CHECK constraint failed''
      else if \<not> journal_keys_ok db then Inl ''UNIQUE constraint failed''
      else if \<not> journal_references_ok db then Inl ''FOREIGN KEY constraint failed''
      else Inr db)"

section \<open>Statements\<close>

definition insert_entry :: "entry_row \<Rightarrow> db \<Rightarrow> string + db" where
  "insert_entry row db =
     (if en_is_posted row \<noteq> 0 then Inl ''journal entry must be inserted unposted and posted by update''
      else constrained (db\<lparr>db_journal_entries := db_journal_entries db @ [row]\<rparr>))"

definition insert_line :: "line_row \<Rightarrow> db \<Rightarrow> string + db" where
  "insert_line row db =
     (if posted_entry db (line_entry_key row) then Inl ''cannot add a line to a posted journal entry''
      else constrained (db\<lparr>db_journal_lines := db_journal_lines db @ [row]\<rparr>))"

text \<open>\<open>UPDATE ... SET f WHERE P\<close> and \<open>DELETE ... WHERE P\<close>.\<close>

definition update_entries :: "(entry_row \<Rightarrow> bool) \<Rightarrow> (entry_row \<Rightarrow> entry_row) \<Rightarrow> db \<Rightarrow> string + db" where
  "update_entries P f db =
     and_then (try_each (\<lambda>e. update_entry_triggers db e (f e)) (filter P (db_journal_entries db))) (\<lambda>_.
     constrained (db\<lparr>db_journal_entries := map (\<lambda>e. if P e then f e else e) (db_journal_entries db)\<rparr>))"

definition update_lines :: "(line_row \<Rightarrow> bool) \<Rightarrow> (line_row \<Rightarrow> line_row) \<Rightarrow> db \<Rightarrow> string + db" where
  "update_lines P f db =
     and_then (try_each (\<lambda>l. update_line_trigger db l (f l)) (filter P (db_journal_lines db))) (\<lambda>_.
     constrained (db\<lparr>db_journal_lines := map (\<lambda>l. if P l then f l else l) (db_journal_lines db)\<rparr>))"

definition delete_entries :: "(entry_row \<Rightarrow> bool) \<Rightarrow> db \<Rightarrow> string + db" where
  "delete_entries P db =
     (if list_ex (\<lambda>e. P e \<and> en_is_posted e = 1) (db_journal_entries db)
      then Inl ''posted journal entry cannot be deleted''
      else constrained (db\<lparr>db_journal_entries := filter (\<lambda>e. \<not> P e) (db_journal_entries db)\<rparr>))"

definition delete_lines :: "(line_row \<Rightarrow> bool) \<Rightarrow> db \<Rightarrow> string + db" where
  "delete_lines P db =
     (if list_ex (\<lambda>l. P l \<and> posted_entry db (line_entry_key l)) (db_journal_lines db)
      then Inl ''posted journal line cannot be deleted''
      else constrained (db\<lparr>db_journal_lines := filter (\<lambda>l. \<not> P l) (db_journal_lines db)\<rparr>))"

end
