(* ===== verification/Ledger_Query.thy ===== *)
theory Ledger_Query
  imports Posting Ledger_Db "HOL-Library.Char_ord" "HOL-Library.List_Lexorder"
    "HOL-Library.Product_Lexorder" "HOL-Library.Option_ord"
begin

text \<open>
  The error type of the store (\<open>LedgerError\<close>) and the parts the ledger's \<open>SELECT\<close>s are made of:
  the join of lines with their posted entry, \<open>MAX\<close>, \<open>COALESCE(SUM(..), 0)\<close> and lookups by key.
  SQLite's binary collation is the lexicographic order on strings, and ISO dates in columns
  sort as the dates they write.
\<close>

datatype ledger_error =
    E_Sqlite string
  | E_Json string
  | E_Money money_error
  | E_PeriodClosed naive_date
  | E_Unbalanced
  | E_MissingClass int
  | E_UnexpectedClass int
  | E_UnknownAccount string
  | E_UnknownClass string
  | E_NotFound
  | E_AlreadyPosted
  | E_SchemaTooNew int int
  | E_SchemaMismatch int int
  | E_BadDate string
  | E_BadTimestamp string
  | E_Post post_error
  | E_StatementDoesNotClose money nat
  | E_StatementClosed string
  | E_NotAProposal string
  | E_BadDocType string

definition ledger_money :: "money_error + 'a \<Rightarrow> ledger_error + 'a" where
  "ledger_money r = map_err E_Money r"

definition ledger_sql :: "string + 'a \<Rightarrow> ledger_error + 'a" where
  "ledger_sql r = map_err E_Sqlite r"

lemma ledger_money_Inr [simp]: "ledger_money r = Inr x \<longleftrightarrow> r = Inr x"
  by (simp add: ledger_money_def)

lemma ledger_sql_Inr [simp]: "ledger_sql r = Inr x \<longleftrightarrow> r = Inr x"
  by (simp add: ledger_sql_def)

section \<open>Aggregates\<close>

definition sql_max :: "('a :: linorder) list \<Rightarrow> 'a option" where
  "sql_max xs = fold (\<lambda>x m. Some (case m of None \<Rightarrow> x | Some y \<Rightarrow> max x y)) xs None"

lemma sql_max_fold:
  "fold (\<lambda>x m. Some (case m of None \<Rightarrow> x | Some y \<Rightarrow> max x y)) xs (Some z) = Some (Max (set (z # xs)))"
proof (induction xs arbitrary: z)
  case (Cons x xs)
  have "Max (insert y (set xs)) = (if xs = [] then y else max y (Max (set xs)))" for y by simp
  with Cons show ?case by (simp add: max.assoc max.left_commute max.commute)
qed simp

lemma sql_max_eq: "sql_max xs = (if xs = [] then None else Some (Max (set xs)))"
  using sql_max_fold by (cases xs) (simp_all add: sql_max_def)

lemma sql_max_None [simp]: "sql_max xs = None \<longleftrightarrow> xs = []"
  by (simp add: sql_max_eq)

lemma sql_max_Some: "sql_max xs = Some m \<longleftrightarrow> m \<in> set xs \<and> (\<forall>x \<in> set xs. x \<le> m)"
  by (auto simp: sql_max_eq Max_ge intro: Max_eqI)

text \<open>\<open>COALESCE(SUM(column), 0)\<close> read into a \<open>Money\<close>.\<close>

definition sum_money :: "('r \<Rightarrow> money) \<Rightarrow> 'r list \<Rightarrow> ledger_error + money" where
  "sum_money column rows =
     and_then (ledger_sql (sql_sum (map (\<lambda>r. sint (minor (column r))) rows))) (\<lambda>s. Inr (money_of s))"

section \<open>Joins\<close>

text \<open>
  \<open>journal_lines l JOIN journal_entries e ON e.company_id = l.company_id AND e.entry_id = l.entry_id\<close>
  restricted to the company's posted entries that satisfy \<open>P\<close>.
\<close>

definition posted_join :: "db \<Rightarrow> string \<Rightarrow> (entry_row \<Rightarrow> bool) \<Rightarrow> (line_row \<times> entry_row) list" where
  "posted_join db company P =
     filter (\<lambda>(l, e). ln_company l = company \<and> entry_key e = line_entry_key l \<and> en_is_posted e = 1 \<and> P e)
       (List.product (db_journal_lines db) (db_journal_entries db))"

definition join_line :: "line_row \<times> entry_row \<Rightarrow> journal_line" where
  "join_line p = ln_line (fst p)"

definition company_accounts :: "db \<Rightarrow> string \<Rightarrow> account list" where
  "company_accounts db company = of_company company (db_accounts db)"

definition account_row_in :: "db \<Rightarrow> string \<Rightarrow> account_id \<Rightarrow> account option" where
  "account_row_in db company account_id =
     find_map (\<lambda>a. ac_account_id a = account_id) (company_accounts db company)"

definition class_exists_in :: "db \<Rightarrow> string \<Rightarrow> class_id \<Rightarrow> bool" where
  "class_exists_in db company class_id \<longleftrightarrow>
     0 < length (filter (\<lambda>c. cl_class_id c = class_id) (of_company company (db_classes db)))"

definition locked_through_in :: "db \<Rightarrow> string \<Rightarrow> naive_date option" where
  "locked_through_in db company =
     sql_max (map pe_period_end (filter pe_closed (of_company company (db_periods db))))"

definition list_accounts :: "db \<Rightarrow> string \<Rightarrow> account list" where
  "list_accounts db company = sort_key ac_number (company_accounts db company)"

definition list_classes :: "db \<Rightarrow> string \<Rightarrow> class_row list" where
  "list_classes db company = sort_key (class_name \<circ> cl_class_id) (of_company company (db_classes db))"

definition account_by_source_ref :: "db \<Rightarrow> string \<Rightarrow> string \<Rightarrow> account option" where
  "account_by_source_ref db company source_ref =
     find_map (\<lambda>a. ac_source_ref a = Some source_ref) (company_accounts db company)"

lemma of_company_simps [simp]:
  "of_company c [] = []"
  "of_company c ((k, r) # t) = (if k = c then r # of_company c t else of_company c t)"
  "of_company c (s @ t) = of_company c s @ of_company c t"
  by (simp_all add: of_company_def)

lemma of_company_set: "r \<in> set (of_company c t) \<longleftrightarrow> (c, r) \<in> set t"
  by (force simp: of_company_def)

end
