(* ===== verification/Ledger_Guards.thy ===== *)
theory Ledger_Guards
  imports Ledger_Db
begin

text \<open>
  What the schema's triggers and constraints guarantee by themselves, for any statements:
  which statements keep posted entries balanced and untouched, and the two that do not.
\<close>

section \<open>Facts about statements\<close>

lemma sql_sum_Inr: "sql_sum xs = Inr s \<Longrightarrow> s = sum_list xs"
proof -
  assume "sql_sum xs = Inr s"
  then have "s = 0 + (\<Sum>x\<leftarrow>xs. x)"
    unfolding sql_sum_def by (rule try_fold_weighted[where v = "\<lambda>s. s"]) (auto split: if_splits)
  then show ?thesis by simp
qed

lemma sql_sum_nonneg:
  assumes "\<And>x. x \<in> set xs \<Longrightarrow> 0 \<le> x" "in_i64 (sum_list xs)"
  shows "sql_sum xs = Inr (sum_list xs)"
proof -
  have "in_i64 (s + sum_list xs) \<Longrightarrow> 0 \<le> s \<Longrightarrow> (\<And>x. x \<in> set xs \<Longrightarrow> 0 \<le> x) \<Longrightarrow>
      try_fold (\<lambda>s x. if in_i64 (s + x) then Inr (s + x) else Inl ''integer overflow'') s xs = Inr (s + sum_list xs)" for s
  proof (induction xs arbitrary: s)
    case (Cons x xs)
    have "0 \<le> sum_list xs" using Cons.prems(3) by (intro sum_list_nonneg) simp
    moreover have "0 \<le> x" using Cons.prems(3) by simp
    ultimately have "in_i64 (s + x)" using Cons.prems(1,2) by (simp add: in_i64_def)
    with Cons show ?case by (simp add: add.assoc)
  qed simp
  from this[of 0] assms show ?thesis by (simp add: sql_sum_def)
qed

lemma constrained_Inr [simp]:
  "constrained db = Inr db' \<longleftrightarrow> db' = db \<and> journal_lines_ok db \<and> journal_keys_ok db \<and> journal_references_ok db"
  by (auto simp: constrained_def)

definition debit_sum :: "line_row list \<Rightarrow> int" where
  "debit_sum ls = (\<Sum>l\<leftarrow>ls. cents (jl_debit (ln_line l)))"

definition credit_sum :: "line_row list \<Rightarrow> int" where
  "credit_sum ls = (\<Sum>l\<leftarrow>ls. cents (jl_credit (ln_line l)))"

lemma sums_simps [simp]:
  "debit_sum [] = 0" "credit_sum [] = 0"
  "debit_sum (l # ls) = cents (jl_debit (ln_line l)) + debit_sum ls"
  "credit_sum (l # ls) = cents (jl_credit (ln_line l)) + credit_sum ls"
  "debit_sum (ks @ ls) = debit_sum ks + debit_sum ls" "credit_sum (ks @ ls) = credit_sum ks + credit_sum ls"
  by (simp_all add: debit_sum_def credit_sum_def)

definition lines_balance :: "line_row list \<Rightarrow> bool" where
  "lines_balance ls \<longleftrightarrow> ls \<noteq> [] \<and> debit_sum ls = credit_sum ls"

lemma balance_trigger_passes:
  "trg_journal_entries_balance_on_post db key = Inr u \<Longrightarrow> lines_balance (lines_of db key)"
  by (auto simp: trg_journal_entries_balance_on_post_def Let_def lines_balance_def debit_sum_def
      credit_sum_def cents_def split: if_splits dest!: sql_sum_Inr)

section \<open>The guarded journal\<close>

definition posted_balanced :: "db \<Rightarrow> bool" where
  "posted_balanced db \<longleftrightarrow>
     list_all (\<lambda>e. en_is_posted e = 0 \<or> en_is_posted e = 1 \<and> lines_balance (lines_of db (entry_key e)))
       (db_journal_entries db)"

definition journal_ok :: "db \<Rightarrow> bool" where
  "journal_ok db \<longleftrightarrow>
     posted_balanced db \<and> journal_lines_ok db \<and> journal_keys_ok db \<and> journal_references_ok db"

lemma empty_db_ok [simp]: "journal_ok empty_db"
  by (simp add: journal_ok_def posted_balanced_def journal_lines_ok_def journal_keys_ok_def
      journal_references_ok_def empty_db_def)

text \<open>
  Statements that touch no key column of a line and write only 0 or 1 to \<open>is_posted\<close>: all the
  statements the program issues are of this form.
\<close>

inductive disciplined :: "db \<Rightarrow> db \<Rightarrow> bool" where
  insert_entry: "insert_entry row db = Inr db' \<Longrightarrow> disciplined db db'"
| insert_line: "insert_line row db = Inr db' \<Longrightarrow> disciplined db db'"
| update_entries: "update_entries P f db = Inr db' \<Longrightarrow> (\<And>e. P e \<Longrightarrow> en_is_posted (f e) \<in> {0, 1}) \<Longrightarrow> disciplined db db'"
| update_lines: "update_lines P f db = Inr db' \<Longrightarrow> (\<And>l. P l \<Longrightarrow> line_entry_key (f l) = line_entry_key l) \<Longrightarrow> disciplined db db'"
| delete_entries: "delete_entries P db = Inr db' \<Longrightarrow> disciplined db db'"
| delete_lines: "delete_lines P db = Inr db' \<Longrightarrow> disciplined db db'"

inductive_cases disciplinedE: "disciplined db db'"

text \<open>What a statement may not touch: posted headers, and their lines but for the stamp.\<close>

definition posted_kept :: "db \<Rightarrow> db \<Rightarrow> bool" where
  "posted_kept db db' \<longleftrightarrow>
     list_all (\<lambda>e. en_is_posted e \<noteq> 1 \<or> e \<in> set (db_journal_entries db') \<and>
       map ln_line (lines_of db' (entry_key e)) = map ln_line (lines_of db (entry_key e)))
       (db_journal_entries db)"

lemma posted_entry_iff: "posted_entry db k \<longleftrightarrow> (\<exists>e \<in> set (db_journal_entries db). entry_key e = k \<and> en_is_posted e = 1)"
  by (auto simp: posted_entry_def list_ex_iff)

lemma lines_balance_cong:
  assumes "map ln_line ls = map ln_line ks"
  shows "lines_balance ls = lines_balance ks"
proof -
  have "debit_sum ls = (\<Sum>l\<leftarrow>map ln_line ls. cents (jl_debit l))"
    "credit_sum ls = (\<Sum>l\<leftarrow>map ln_line ls. cents (jl_credit l))" for ls
    by (simp_all add: debit_sum_def credit_sum_def o_def)
  with assms show ?thesis unfolding lines_balance_def by (metis map_is_Nil_conv)
qed

lemma balanced_from_kept:
  assumes "posted_balanced db"
    and kept: "\<And>e. e \<in> set (db_journal_entries db) \<Longrightarrow> en_is_posted e = 1 \<Longrightarrow> e \<in> set (db_journal_entries db') \<and>
      map ln_line (lines_of db' (entry_key e)) = map ln_line (lines_of db (entry_key e))"
    and new: "\<And>e. e \<in> set (db_journal_entries db') \<Longrightarrow> en_is_posted e = 0 \<or>
      en_is_posted e = 1 \<and> (e \<in> set (db_journal_entries db) \<or> lines_balance (lines_of db' (entry_key e)))"
  shows "posted_balanced db' \<and> posted_kept db db'"
proof
  show "posted_kept db db'" using kept by (auto simp: posted_kept_def list_all_iff)
  show "posted_balanced db'"
    unfolding posted_balanced_def list_all_iff
  proof
    fix e assume e: "e \<in> set (db_journal_entries db')"
    show "en_is_posted e = 0 \<or> en_is_posted e = 1 \<and> lines_balance (lines_of db' (entry_key e))"
    proof (cases "en_is_posted e = 1 \<and> e \<in> set (db_journal_entries db)")
      case True
      with assms(1) have "lines_balance (lines_of db (entry_key e))"
        by (auto simp: posted_balanced_def list_all_iff)
      with kept True lines_balance_cong show ?thesis by metis
    next
      case False
      with new[OF e] show ?thesis by auto
    qed
  qed
qed

lemma insert_entry_guarded:
  assumes "posted_balanced db" "insert_entry row db = Inr db'"
  shows "posted_balanced db' \<and> posted_kept db db'"
  using assms(1)
  by (rule balanced_from_kept) (use assms in \<open>auto simp: insert_entry_def lines_of_def posted_balanced_def
    list_all_iff split: if_splits\<close>)

lemma insert_line_guarded:
  assumes "posted_balanced db" "insert_line row db = Inr db'"
  shows "posted_balanced db' \<and> posted_kept db db'"
  using assms(1)
  by (rule balanced_from_kept) (use assms in \<open>auto simp: insert_line_def lines_of_def posted_balanced_def
    posted_entry_iff list_all_iff split: if_splits\<close>)

lemma update_entries_guarded:
  assumes "posted_balanced db" "update_entries P f db = Inr db'"
    and flag: "\<And>e. P e \<Longrightarrow> en_is_posted (f e) \<in> {0, 1}"
  shows "posted_balanced db' \<and> posted_kept db db'"
  using assms(1)
proof (rule balanced_from_kept)
  from assms(2) have db': "db' = db\<lparr>db_journal_entries := map (\<lambda>e. if P e then f e else e) (db_journal_entries db)\<rparr>"
    and trg: "\<And>e. e \<in> set (db_journal_entries db) \<Longrightarrow> P e \<Longrightarrow> update_entry_triggers db e (f e) = Inr ()"
    by (auto simp: update_entries_def)
  have lines: "lines_of db' k = lines_of db k" for k by (simp add: db' lines_of_def)
  fix e
  show "e \<in> set (db_journal_entries db') \<and> map ln_line (lines_of db' (entry_key e)) = map ln_line (lines_of db (entry_key e))"
    if "e \<in> set (db_journal_entries db)" "en_is_posted e = 1"
  proof -
    have "\<not> P e" using trg[of e] that by (auto simp: update_entry_triggers_def)
    with that have "e \<in> set (db_journal_entries db')" by (auto simp: db' image_iff)
    then show ?thesis by (simp add: lines)
  qed
  show "en_is_posted e = 0 \<or> en_is_posted e = 1 \<and> (e \<in> set (db_journal_entries db) \<or> lines_balance (lines_of db' (entry_key e)))"
    if "e \<in> set (db_journal_entries db')"
  proof -
    from that obtain old where o: "old \<in> set (db_journal_entries db)" "e = (if P old then f old else old)"
      by (auto simp: db')
    from assms(1) o(1) have was: "en_is_posted old = 0 \<or> en_is_posted old = 1"
      by (auto simp: posted_balanced_def list_all_iff)
    show ?thesis
    proof (cases "P old")
      case True
      with trg[OF o(1)] was flag[of old] o(2) show ?thesis
        by (auto simp: update_entry_triggers_def lines split: if_splits dest: balance_trigger_passes)
    next
      case False
      with o was show ?thesis by auto
    qed
  qed
qed

lemma update_lines_guarded:
  assumes "posted_balanced db" "update_lines P f db = Inr db'"
    and key: "\<And>l. P l \<Longrightarrow> line_entry_key (f l) = line_entry_key l"
  shows "posted_balanced db' \<and> posted_kept db db'"
  using assms(1)
proof (rule balanced_from_kept)
  from assms(2) have db': "db' = db\<lparr>db_journal_lines := map (\<lambda>l. if P l then f l else l) (db_journal_lines db)\<rparr>"
    and trg: "\<And>l. l \<in> set (db_journal_lines db) \<Longrightarrow> P l \<Longrightarrow> update_line_trigger db l (f l) = Inr ()"
    by (auto simp: update_lines_def)
  fix e
  show "e \<in> set (db_journal_entries db') \<and> map ln_line (lines_of db' (entry_key e)) = map ln_line (lines_of db (entry_key e))"
    if e: "e \<in> set (db_journal_entries db)" "en_is_posted e = 1"
  proof -
    have same: "ln_line (f l) = ln_line l" if "l \<in> set (db_journal_lines db)" "P l" "line_entry_key l = entry_key e" for l
      using trg[OF that(1,2)] e that(3) by (auto simp: update_line_trigger_def posted_entry_iff split: if_splits)
    have "map ln_line (filter (\<lambda>l. line_entry_key l = entry_key e) (map (\<lambda>l. if P l then f l else l) ls)) =
        map ln_line (filter (\<lambda>l. line_entry_key l = entry_key e) ls)" if "set ls \<subseteq> set (db_journal_lines db)" for ls
      using that same key by (induction ls) auto
    with e show ?thesis by (simp add: db' lines_of_def)
  qed
  show "en_is_posted e = 0 \<or> en_is_posted e = 1 \<and> (e \<in> set (db_journal_entries db) \<or> lines_balance (lines_of db' (entry_key e)))"
    if "e \<in> set (db_journal_entries db')"
    using that assms(1) by (auto simp: db' posted_balanced_def list_all_iff)
qed

lemma delete_entries_guarded:
  assumes "posted_balanced db" "delete_entries P db = Inr db'"
  shows "posted_balanced db' \<and> posted_kept db db'"
  using assms(1)
  by (rule balanced_from_kept) (use assms in \<open>auto simp: delete_entries_def lines_of_def posted_balanced_def
    list_all_iff list_ex_iff split: if_splits\<close>)

lemma delete_lines_guarded:
  assumes "posted_balanced db" "delete_lines P db = Inr db'"
  shows "posted_balanced db' \<and> posted_kept db db'"
  using assms(1)
proof (rule balanced_from_kept)
  from assms(2) have db': "db' = db\<lparr>db_journal_lines := filter (\<lambda>l. \<not> P l) (db_journal_lines db)\<rparr>"
    and trg: "\<And>l. l \<in> set (db_journal_lines db) \<Longrightarrow> P l \<Longrightarrow> \<not> posted_entry db (line_entry_key l)"
    by (auto simp: delete_lines_def list_ex_iff split: if_splits)
  fix e
  show "e \<in> set (db_journal_entries db') \<and> map ln_line (lines_of db' (entry_key e)) = map ln_line (lines_of db (entry_key e))"
    if e: "e \<in> set (db_journal_entries db)" "en_is_posted e = 1"
  proof -
    have "filter (\<lambda>l. line_entry_key l = entry_key e) (filter (\<lambda>l. \<not> P l) (db_journal_lines db)) =
        filter (\<lambda>l. line_entry_key l = entry_key e) (db_journal_lines db)"
      using trg e by (auto simp: filter_filter posted_entry_iff intro!: filter_cong)
    with e show ?thesis by (simp add: db' lines_of_def)
  qed
  show "en_is_posted e = 0 \<or> en_is_posted e = 1 \<and> (e \<in> set (db_journal_entries db) \<or> lines_balance (lines_of db' (entry_key e)))"
    if "e \<in> set (db_journal_entries db')"
    using that assms(1) by (auto simp: db' posted_balanced_def list_all_iff)
qed

lemmas statements_guarded =
  insert_entry_guarded insert_line_guarded update_entries_guarded update_lines_guarded
  delete_entries_guarded delete_lines_guarded

lemma statements_constrained:
  "insert_entry row db = Inr db' \<Longrightarrow> journal_lines_ok db' \<and> journal_keys_ok db' \<and> journal_references_ok db'"
  "insert_line lrow db = Inr db' \<Longrightarrow> journal_lines_ok db' \<and> journal_keys_ok db' \<and> journal_references_ok db'"
  "update_entries P f db = Inr db' \<Longrightarrow> journal_lines_ok db' \<and> journal_keys_ok db' \<and> journal_references_ok db'"
  "update_lines Q g db = Inr db' \<Longrightarrow> journal_lines_ok db' \<and> journal_keys_ok db' \<and> journal_references_ok db'"
  "delete_entries P db = Inr db' \<Longrightarrow> journal_lines_ok db' \<and> journal_keys_ok db' \<and> journal_references_ok db'"
  "delete_lines Q db = Inr db' \<Longrightarrow> journal_lines_ok db' \<and> journal_keys_ok db' \<and> journal_references_ok db'"
  by (auto simp: insert_entry_def insert_line_def update_entries_def update_lines_def
      delete_entries_def delete_lines_def split: if_splits)

lemma disciplined_step:
  assumes "disciplined db db'" "journal_ok db"
  shows "journal_ok db' \<and> posted_kept db db'"
proof -
  from assms(2) have "posted_balanced db" by (simp add: journal_ok_def)
  with assms(1) have "posted_balanced db' \<and> posted_kept db db'"
    by (cases rule: disciplined.cases) (blast dest: statements_guarded)+
  moreover from assms(1) have "journal_lines_ok db' \<and> journal_keys_ok db' \<and> journal_references_ok db'"
    by (cases rule: disciplined.cases) (blast dest: statements_constrained)+
  ultimately show ?thesis by (simp add: journal_ok_def)
qed

lemma posted_kept_refl [simp]: "posted_kept db db"
  by (simp add: posted_kept_def list_all_iff)

lemma posted_kept_trans: "posted_kept a b \<Longrightarrow> posted_kept b c \<Longrightarrow> posted_kept a c"
  by (fastforce simp: posted_kept_def list_all_iff)

lemma disciplined_steps:
  assumes "disciplined\<^sup>*\<^sup>* db db'" "journal_ok db"
  shows "journal_ok db' \<and> posted_kept db db'"
  using assms
proof (induction rule: rtranclp_induct)
  case (step b c)
  then show ?case using disciplined_step[of b c] posted_kept_trans by blast
qed simp

section \<open>Properties\<close>

text \<open>
  C3. Whatever statements are run, in any order and number, as long as none rewrites a line's
  entry key or sets \<open>is_posted\<close> to anything but 0 or 1: each posted entry has lines and they
  balance, and nothing of an entry that was once posted changes but the lines'
  reconciliation stamp.
\<close>

theorem triggers_guard_the_journal:
  assumes "disciplined\<^sup>*\<^sup>* db db'" and "journal_ok db"
  shows "posted_balanced db' \<and> posted_kept db db'"
  using disciplined_steps[OF assms] by (simp add: journal_ok_def)

subsection \<open>A small book\<close>

definition sample_account :: "string \<Rightarrow> classification \<Rightarrow> account" where
  "sample_account number classification =
     \<lparr>ac_account_id = AccountId number, ac_number = number, ac_name = number,
      ac_classification = classification, ac_subtype = None, ac_parent_id = None,
      ac_normal_balance = normal_balance classification, ac_is_contra = False, ac_is_active = True,
      ac_needs_mapping = False, ac_source_ref = None\<rparr>"

definition sample_version :: "string \<Rightarrow> doc_kind \<Rightarrow> naive_date \<Rightarrow> document_version" where
  "sample_version document kind on =
     \<lparr>dv_document_id = document, dv_version = 1, dv_doc_type = kind, dv_doc_number = None,
      dv_txn_date = on, dv_contact_id = None, dv_payload_json = [], dv_created_at = 0,
      dv_command_id = ''cmd-1'', dv_source_ref = None\<rparr>"

definition sample_entry_row :: "string \<Rightarrow> string \<Rightarrow> naive_date \<Rightarrow> int \<Rightarrow> entry_row" where
  "sample_entry_row entry document on posted =
     \<lparr>en_company = ''co'', en_entry_id = entry, en_entry_date = on, en_posted_at = None,
      en_memo = None, en_source_type = JournalEntry, en_source_id = document, en_source_version = 1,
      en_reversal_of_id = None, en_is_posted = posted, en_is_flagged = False\<rparr>"

definition sample_line_row :: "string \<Rightarrow> journal_line \<Rightarrow> line_row" where
  "sample_line_row entry line =
     \<lparr>ln_company = ''co'', ln_entry_id = entry, ln_line = line, ln_cleared_at = None\<rparr>"

definition chart_db :: db where
  "chart_db = empty_db\<lparr>
     db_accounts := [(''co'', sample_account CHECKING Asset), (''co'', sample_account OWNER_CAPITAL Equity)],
     db_document_versions := [(''co'', sample_version ''doc-1'' JournalEntry (Ymd 2027 1 5))]\<rparr>"

definition cash_in :: "int \<Rightarrow> int \<Rightarrow> journal_line" where
  "cash_in no amount = debit_line no (AccountId CHECKING) (money_of amount)"

definition capital_in :: "int \<Rightarrow> int \<Rightarrow> journal_line" where
  "capital_in no amount = credit_line no (AccountId OWNER_CAPITAL) (money_of amount)"

text \<open>The book after each of the four statements that post a capital contribution.\<close>

definition step1_db :: db where
  "step1_db = chart_db\<lparr>db_journal_entries := [sample_entry_row ''e-1'' ''doc-1'' (Ymd 2027 1 5) 0]\<rparr>"

definition step2_db :: db where
  "step2_db = step1_db\<lparr>db_journal_lines := [sample_line_row ''e-1'' (cash_in 1 500)]\<rparr>"

definition step3_db :: db where
  "step3_db = step1_db\<lparr>db_journal_lines :=
     [sample_line_row ''e-1'' (cash_in 1 500), sample_line_row ''e-1'' (capital_in 2 500)]\<rparr>"

definition posted_db :: db where
  "posted_db = step3_db\<lparr>db_journal_entries := [sample_entry_row ''e-1'' ''doc-1'' (Ymd 2027 1 5) 1]\<rparr>"

lemmas sample_db_defs =
  chart_db_def step1_db_def step2_db_def step3_db_def posted_db_def sample_account_def sample_version_def
  sample_entry_row_def sample_line_row_def cash_in_def capital_in_def empty_db_def debit_line_def
  credit_line_def

lemmas statement_eval =
  insert_entry_def insert_line_def update_entries_def update_lines_def update_entry_triggers_def
  update_line_trigger_def trg_journal_entries_balance_on_post_def constrained_def journal_lines_ok_def
  journal_keys_ok_def journal_references_ok_def matched_exists_def line_checks_def lines_of_def posted_entry_def
  document_exists_def account_exists_def of_company_def entry_key_def line_entry_key_def line_pk_def
  sql_sum_def in_i64_def cents_def[symmetric]

lemma chart_db_ok: "journal_ok chart_db"
  by (simp add: journal_ok_def posted_balanced_def statement_eval sample_db_defs)

lemma steps_run:
  "insert_entry (sample_entry_row ''e-1'' ''doc-1'' (Ymd 2027 1 5) 0) chart_db = Inr step1_db"
  "insert_line (sample_line_row ''e-1'' (cash_in 1 500)) step1_db = Inr step2_db"
  "insert_line (sample_line_row ''e-1'' (capital_in 2 500)) step2_db = Inr step3_db"
  "update_entries (\<lambda>e. en_entry_id e = ''e-1'') (\<lambda>e. e\<lparr>en_is_posted := 1\<rparr>) step3_db = Inr posted_db"
  by (simp_all add: statement_eval sample_db_defs chart_numbers)

lemma steps_disciplined: "disciplined\<^sup>*\<^sup>* chart_db posted_db"
proof -
  have "disciplined chart_db step1_db" by (rule disciplined.insert_entry[OF steps_run(1)])
  moreover have "disciplined step1_db step2_db" by (rule disciplined.insert_line[OF steps_run(2)])
  moreover have "disciplined step2_db step3_db" by (rule disciplined.insert_line[OF steps_run(3)])
  moreover have "disciplined step3_db posted_db" by (rule disciplined.update_entries[OF steps_run(4)]) simp
  ultimately show ?thesis by (meson converse_rtranclp_into_rtranclp rtranclp.rtrancl_refl)
qed

lemma posted_db_ok: "journal_ok posted_db"
  using disciplined_steps[OF steps_disciplined chart_db_ok] by simp

theorem triggers_guard_the_journal_witness: "posted_balanced posted_db \<and> posted_kept chart_db posted_db"
  by (rule triggers_guard_the_journal[OF steps_disciplined chart_db_ok])

subsection \<open>The two gaps\<close>

definition two_entries_db :: db where
  "two_entries_db = chart_db\<lparr>
     db_journal_entries := [sample_entry_row ''e-1'' ''doc-1'' (Ymd 2027 1 5) 1,
       sample_entry_row ''e-2'' ''doc-1'' (Ymd 2027 1 5) 1],
     db_journal_lines := [sample_line_row ''e-1'' (cash_in 1 500), sample_line_row ''e-1'' (capital_in 2 300),
       sample_line_row ''e-1'' (capital_in 3 200), sample_line_row ''e-2'' (cash_in 1 700),
       sample_line_row ''e-2'' (capital_in 2 700)]\<rparr>"

definition moved_db :: db where
  "moved_db = two_entries_db\<lparr>
     db_journal_lines := [sample_line_row ''e-1'' (cash_in 1 500), sample_line_row ''e-1'' (capital_in 2 300),
       sample_line_row ''e-2'' (capital_in 3 200), sample_line_row ''e-2'' (cash_in 1 700),
       sample_line_row ''e-2'' (capital_in 2 700)]\<rparr>"

text \<open>
  The immutability trigger on lines does not compare the key columns: on a sound book, an
  update of \<open>entry_id\<close> alone moves a line from one posted entry to another, and both are left
  posted and unbalanced.
\<close>

theorem a_posted_line_can_move:
  "journal_ok two_entries_db \<and>
   update_lines (\<lambda>l. ln_entry_id l = ''e-1'' \<and> jl_line_no (ln_line l) = 3) (\<lambda>l. l\<lparr>ln_entry_id := ''e-2''\<rparr>)
     two_entries_db = Inr moved_db \<and>
   \<not> posted_balanced moved_db"
proof (intro conjI)
  note defs = two_entries_db_def moved_db_def sample_db_defs chart_numbers
  show "journal_ok two_entries_db"
    by (simp add: journal_ok_def posted_balanced_def lines_balance_def statement_eval defs)
  show "update_lines (\<lambda>l. ln_entry_id l = ''e-1'' \<and> jl_line_no (ln_line l) = 3) (\<lambda>l. l\<lparr>ln_entry_id := ''e-2''\<rparr>)
     two_entries_db = Inr moved_db"
    by (simp add: statement_eval defs)
  show "\<not> posted_balanced moved_db"
    by (simp add: posted_balanced_def lines_balance_def statement_eval defs)
qed

text \<open>
  The balance trigger fires on the update of \<open>is_posted\<close> from 0 to 1 only: through the value 2
  an entry with no lines at all is posted.
\<close>

theorem posting_through_two_skips_the_check:
  "journal_ok step1_db \<and>
   (\<exists>db. update_entries (\<lambda>e. True) (\<lambda>e. e\<lparr>en_is_posted := 2\<rparr>) step1_db = Inr db \<and>
      (\<exists>db'. update_entries (\<lambda>e. True) (\<lambda>e. e\<lparr>en_is_posted := 1\<rparr>) db = Inr db' \<and>
         posted_entry db' (''co'', ''e-1'') \<and> lines_of db' (''co'', ''e-1'') = [] \<and> \<not> posted_balanced db'))"
proof -
  have "journal_ok step1_db"
    by (simp add: journal_ok_def posted_balanced_def statement_eval sample_db_defs)
  moreover have "\<exists>db. update_entries (\<lambda>e. True) (\<lambda>e. e\<lparr>en_is_posted := 2\<rparr>) step1_db = Inr db \<and>
      (\<exists>db'. update_entries (\<lambda>e. True) (\<lambda>e. e\<lparr>en_is_posted := 1\<rparr>) db = Inr db' \<and>
         posted_entry db' (''co'', ''e-1'') \<and> lines_of db' (''co'', ''e-1'') = [] \<and> \<not> posted_balanced db')"
    by (simp add: posted_balanced_def lines_balance_def statement_eval sample_db_defs)
  ultimately show ?thesis by blast
qed

end
