(* ===== verification/Report.thy ===== *)
theory Report
  imports Ledger_Query Ledger_Guards
begin

text \<open>
  \<open>apps/ledger/src/report.rs\<close>: the trial balance, the profit and loss and the balance sheet, read
  off the posted lines. Each query is its rows in the order of its \<open>ORDER BY\<close>; the loop over the
  rows is a fold with the code's checked arithmetic.
\<close>

section \<open>Trial balance\<close>

record tb_row =
  tb_account_id :: account_id
  tb_number :: string
  tb_name :: string
  tb_classification :: classification
  tb_is_contra :: bool
  tb_needs_mapping :: bool
  tb_source_ref :: "string option"
  tb_debit :: money
  tb_credit :: money
  tb_balance :: money

record trial_balance_report =
  tr_rows :: "tb_row list"
  tr_total_debits :: money
  tr_total_credits :: money
  tr_wrong_side :: "account_id list"

text \<open>The query: every account of the company with the sums of its posted lines up to the date.\<close>

definition account_lines :: "db \<Rightarrow> string \<Rightarrow> (entry_row \<Rightarrow> bool) \<Rightarrow> account \<Rightarrow> journal_line list" where
  "account_lines db company P a =
     filter (\<lambda>l. jl_account l = ac_account_id a) (map join_line (posted_join db company P))"

definition account_sums ::
  "db \<Rightarrow> string \<Rightarrow> (entry_row \<Rightarrow> bool) \<Rightarrow> account \<Rightarrow> ledger_error + (account \<times> money \<times> money)" where
  "account_sums db company P a =
     and_then (sum_money jl_debit (account_lines db company P a)) (\<lambda>dr.
     and_then (sum_money jl_credit (account_lines db company P a)) (\<lambda>cr.
     Inr (a, dr, cr)))"

definition tb_step ::
  "trial_balance_report \<Rightarrow> account \<times> money \<times> money \<Rightarrow> ledger_error + trial_balance_report" where
  "tb_step st row =
     (case row of (a, dr, cr) \<Rightarrow>
      and_then (ledger_money (checked_sub dr cr)) (\<lambda>balance.
      and_then (ledger_money (checked_add (tr_total_debits st) dr)) (\<lambda>total_debits.
      and_then (ledger_money (checked_add (tr_total_credits st) cr)) (\<lambda>total_credits.
      let on_wrong_side =
            \<not> ac_is_contra a \<and> \<not> is_zero balance \<and>
            (if ac_normal_balance a = Debit then is_negative balance else \<not> is_negative balance)
      in Inr \<lparr>tr_rows = tr_rows st @
                [\<lparr>tb_account_id = ac_account_id a, tb_number = ac_number a, tb_name = ac_name a,
                  tb_classification = ac_classification a, tb_is_contra = ac_is_contra a,
                  tb_needs_mapping = ac_needs_mapping a, tb_source_ref = ac_source_ref a,
                  tb_debit = dr, tb_credit = cr, tb_balance = balance\<rparr>],
              tr_total_debits = total_debits, tr_total_credits = total_credits,
              tr_wrong_side = (if on_wrong_side then tr_wrong_side st @ [ac_account_id a]
                               else tr_wrong_side st)\<rparr>))))"

definition trial_balance :: "db \<Rightarrow> string \<Rightarrow> naive_date \<Rightarrow> ledger_error + trial_balance_report" where
  "trial_balance db company as_of =
     and_then (try_map (account_sums db company (\<lambda>e. en_entry_date e \<le> as_of)) (list_accounts db company)) (\<lambda>raw.
     try_fold tb_step
       \<lparr>tr_rows = [], tr_total_debits = ZERO, tr_total_credits = ZERO, tr_wrong_side = []\<rparr> raw)"

section \<open>Profit and loss\<close>

record by_section =
  se_by_account :: "(account_id \<times> money) list"
  se_by_class :: "(class_id option \<times> money) list"
  se_total :: money

record pnl =
  pl_income :: by_section
  pl_cogs :: by_section
  pl_expense :: by_section
  pl_gross_margin :: money
  pl_net_income :: money

text \<open>A \<open>BTreeMap\<close> is its entries in key order.\<close>

record section_builder =
  sb_by_account :: "(string \<times> money) list"
  sb_by_class :: "(string option \<times> money) list"
  sb_total :: money

definition empty_section :: section_builder where
  "empty_section = \<lparr>sb_by_account = [], sb_by_class = [], sb_total = ZERO\<rparr>"

text \<open>\<open>*map.entry(k).or_insert(ZERO) = checked_add(amount)?\<close>.\<close>

fun btree_add :: "('k :: linorder) \<Rightarrow> money \<Rightarrow> ('k \<times> money) list \<Rightarrow> ledger_error + ('k \<times> money) list" where
  "btree_add k amount [] =
     and_then (ledger_money (checked_add ZERO amount)) (\<lambda>v. Inr [(k, v)])"
| "btree_add k amount ((k', v) # rest) =
     (if k < k' then
        and_then (ledger_money (checked_add ZERO amount)) (\<lambda>w. Inr ((k, w) # (k', v) # rest))
      else if k = k' then
        and_then (ledger_money (checked_add v amount)) (\<lambda>w. Inr ((k, w) # rest))
      else and_then (btree_add k amount rest) (\<lambda>rest. Inr ((k', v) # rest)))"

definition section_add ::
  "section_builder \<Rightarrow> string \<Rightarrow> string option \<Rightarrow> money \<Rightarrow> ledger_error + section_builder" where
  "section_add self account_id class_id amount =
     and_then (btree_add account_id amount (sb_by_account self)) (\<lambda>by_account.
     and_then (btree_add class_id amount (sb_by_class self)) (\<lambda>by_class.
     and_then (ledger_money (checked_add (sb_total self) amount)) (\<lambda>tot.
     Inr \<lparr>sb_by_account = by_account, sb_by_class = by_class, sb_total = tot\<rparr>)))"

definition section_finish :: "section_builder \<Rightarrow> by_section" where
  "section_finish self =
     \<lparr>se_by_account = map (\<lambda>(k, v). (AccountId k, v)) (sb_by_account self),
      se_by_class = map (\<lambda>(k, v). (map_option ClassId k, v)) (sb_by_class self),
      se_total = sb_total self\<rparr>"

text \<open>
  The query: one row per account and class, in account number order; within an account the
  classes come in the order their lines were written, an order SQLite does not fix.
\<close>

definition is_pnl :: "account \<Rightarrow> bool" where
  "is_pnl a \<longleftrightarrow> ac_classification a \<in> {Income, Cogs, Expense}"

definition pnl_keys :: "db \<Rightarrow> string \<Rightarrow> (entry_row \<Rightarrow> bool) \<Rightarrow> (account \<times> class_id option) list" where
  "pnl_keys db company P =
     concat (map (\<lambda>a. map (\<lambda>c. (a, c)) (remdups (map jl_class (account_lines db company P a))))
       (filter is_pnl (list_accounts db company)))"

definition pnl_row ::
  "db \<Rightarrow> string \<Rightarrow> (entry_row \<Rightarrow> bool) \<Rightarrow> account \<times> class_id option \<Rightarrow>
   ledger_error + (account \<times> class_id option \<times> money \<times> money)" where
  "pnl_row db company P key =
     (case key of (a, c) \<Rightarrow>
      let ls = filter (\<lambda>l. jl_class l = c) (account_lines db company P a) in
      and_then (sum_money jl_debit ls) (\<lambda>dr.
      and_then (sum_money jl_credit ls) (\<lambda>cr. Inr (a, c, dr, cr))))"

definition pnl_step ::
  "section_builder \<times> section_builder \<times> section_builder \<Rightarrow> account \<times> class_id option \<times> money \<times> money \<Rightarrow>
   ledger_error + (section_builder \<times> section_builder \<times> section_builder)" where
  "pnl_step st row =
     (case st of (income, cogs, expense) \<Rightarrow> case row of (a, c, dr, cr) \<Rightarrow>
      let account_id = account_no (ac_account_id a); class_id = map_option class_name c in
      case ac_classification a of
        Income \<Rightarrow>
          and_then (ledger_money (checked_sub cr dr)) (\<lambda>amount.
          and_then (section_add income account_id class_id amount) (\<lambda>income. Inr (income, cogs, expense)))
      | Cogs \<Rightarrow>
          and_then (ledger_money (checked_sub dr cr)) (\<lambda>amount.
          and_then (section_add cogs account_id class_id amount) (\<lambda>cogs. Inr (income, cogs, expense)))
      | _ \<Rightarrow>
          and_then (ledger_money (checked_sub dr cr)) (\<lambda>amount.
          and_then (section_add expense account_id class_id amount) (\<lambda>expense. Inr (income, cogs, expense))))"

definition profit_and_loss :: "db \<Rightarrow> string \<Rightarrow> naive_date \<Rightarrow> naive_date \<Rightarrow> ledger_error + pnl" where
  "profit_and_loss db company from to =
     (let P = (\<lambda>e. from \<le> en_entry_date e \<and> en_entry_date e \<le> to) in
      and_then (try_map (pnl_row db company P) (pnl_keys db company P)) (\<lambda>raw.
      and_then (try_fold pnl_step (empty_section, empty_section, empty_section) raw) (\<lambda>(income, cogs, expense).
      let income = section_finish income; cogs = section_finish cogs; expense = section_finish expense in
      and_then (ledger_money (checked_sub (se_total income) (se_total cogs))) (\<lambda>gross_margin.
      and_then (ledger_money (checked_sub gross_margin (se_total expense))) (\<lambda>net_income.
      Inr \<lparr>pl_income = income, pl_cogs = cogs, pl_expense = expense,
           pl_gross_margin = gross_margin, pl_net_income = net_income\<rparr>)))))"

section \<open>Balance sheet\<close>

record bs_row =
  br_account_id :: "account_id option"
  br_name :: string
  br_balance :: money

record bs_section =
  bx_rows :: "bs_row list"
  bx_total :: money

record balance_sheet_report =
  bt_assets :: bs_section
  bt_liabilities :: bs_section
  bt_equity :: bs_section
  bt_total_liabilities_and_equity :: money

definition empty_bs_section :: bs_section where
  "empty_bs_section = \<lparr>bx_rows = [], bx_total = ZERO\<rparr>"

text \<open>One turn of the loop for one section: a zero amount is skipped.\<close>

definition bs_add :: "bs_section \<Rightarrow> account \<Rightarrow> money \<Rightarrow> ledger_error + bs_section" where
  "bs_add sec a amount =
     (if is_zero amount then Inr sec
      else and_then (ledger_money (checked_add (bx_total sec) amount)) (\<lambda>tot.
        Inr \<lparr>bx_rows = bx_rows sec @
               [\<lparr>br_account_id = Some (ac_account_id a), br_name = ac_name a, br_balance = amount\<rparr>],
             bx_total = tot\<rparr>))"

definition bs_step ::
  "bs_section \<times> bs_section \<times> bs_section \<Rightarrow> account \<times> money \<times> money \<Rightarrow>
   ledger_error + (bs_section \<times> bs_section \<times> bs_section)" where
  "bs_step st row =
     (case st of (assets, liabilities, equity) \<Rightarrow> case row of (a, dr, cr) \<Rightarrow>
      case ac_classification a of
        Asset \<Rightarrow>
          and_then (ledger_money (checked_sub dr cr)) (\<lambda>amount.
          and_then (bs_add assets a amount) (\<lambda>assets. Inr (assets, liabilities, equity)))
      | Liability \<Rightarrow>
          and_then (ledger_money (checked_sub cr dr)) (\<lambda>amount.
          and_then (bs_add liabilities a amount) (\<lambda>liabilities. Inr (assets, liabilities, equity)))
      | _ \<Rightarrow>
          and_then (ledger_money (checked_sub cr dr)) (\<lambda>amount.
          and_then (bs_add equity a amount) (\<lambda>equity. Inr (assets, liabilities, equity))))"

definition is_sheet :: "account \<Rightarrow> bool" where
  "is_sheet a \<longleftrightarrow> ac_classification a \<in> {Asset, Liability, Equity}"

definition balance_sheet :: "db \<Rightarrow> string \<Rightarrow> naive_date \<Rightarrow> ledger_error + balance_sheet_report" where
  "balance_sheet db company as_of =
     and_then (try_map (account_sums db company (\<lambda>e. en_entry_date e \<le> as_of))
       (filter is_sheet (list_accounts db company))) (\<lambda>raw.
     and_then (try_fold bs_step (empty_bs_section, empty_bs_section, empty_bs_section) raw)
       (\<lambda>(assets, liabilities, equity).
     and_then (profit_and_loss db company (Ymd (year as_of) 1 1) as_of) (\<lambda>pl.
     let net_income = pl_net_income pl in
     and_then (ledger_money (checked_add (bx_total equity) net_income)) (\<lambda>equity_total.
     let equity = \<lparr>bx_rows = bx_rows equity @
           [\<lparr>br_account_id = None, br_name = ''Net income (current year)'', br_balance = net_income\<rparr>],
           bx_total = equity_total\<rparr> in
     and_then (ledger_money (checked_add (bx_total liabilities) (bx_total equity))) (\<lambda>tot.
     Inr \<lparr>bt_assets = assets, bt_liabilities = liabilities, bt_equity = equity,
          bt_total_liabilities_and_equity = tot\<rparr>)))))"

end
