(* ===== verification/Runs.thy ===== *)
theory Runs
  imports Ledger_Query
begin

text \<open>
  Operations of \<open>Ledger\<close> on its connection: how the store's functions are sequenced, what an error
  leaves behind inside and outside a savepoint, and the two contracts operations are held to: a
  write unit changes nothing when it fails, and a relation of before and after that composes.
\<close>

section \<open>Operations on a connection\<close>

text \<open>
  What runs against a state: its outcome and the state it leaves, with any type of error. The
  store's operations run against the database.
\<close>

type_synonym ('s, 'e, 'a) stateful = "'s \<Rightarrow> ('e + 'a) \<times> 's"

type_synonym ('e, 'a) run = "(db, 'e, 'a) stateful"

type_synonym 'a op = "(ledger_error, 'a) run"

definition ret :: "'a \<Rightarrow> ('s, 'e, 'a) stateful" where
  "ret x db = (Inr x, db)"

definition fail :: "'e \<Rightarrow> ('s, 'e, 'a) stateful" where
  "fail e db = (Inl e, db)"

text \<open>\<open>let x = m?; k(x)\<close>.\<close>

definition and_run :: "('s, 'e, 'a) stateful \<Rightarrow> ('a \<Rightarrow> ('s, 'e, 'b) stateful) \<Rightarrow> ('s, 'e, 'b) stateful" where
  "and_run m k db = (case m db of (Inl e, db') \<Rightarrow> (Inl e, db') | (Inr x, db') \<Rightarrow> k x db')"

definition reading :: "('s \<Rightarrow> 'e + 'a) \<Rightarrow> ('s, 'e, 'a) stateful" where
  "reading query db = (query db, db)"

definition execute :: "(db \<Rightarrow> string + db) \<Rightarrow> unit op" where
  "execute stmt db = (case stmt db of Inl m \<Rightarrow> (Inl (E_Sqlite m), db) | Inr db' \<Rightarrow> (Inr (), db'))"

fun run_each :: "('a \<Rightarrow> ('s, 'e, unit) stateful) \<Rightarrow> 'a list \<Rightarrow> ('s, 'e, unit) stateful" where
  "run_each f [] = ret ()"
| "run_each f (x # xs) = and_run (f x) (\<lambda>_. run_each f xs)"

fun run_fold :: "('b \<Rightarrow> 'a \<Rightarrow> ('s, 'e, 'b) stateful) \<Rightarrow> 'b \<Rightarrow> 'a list \<Rightarrow> ('s, 'e, 'b) stateful" where
  "run_fold f acc [] = ret acc"
| "run_fold f acc (x # xs) = and_run (f acc x) (\<lambda>acc'. run_fold f acc' xs)"

text \<open>
  \<open>WriteTx\<close> is a savepoint: an early return drops it and rolls back to where it began. \<open>atomically\<close>
  wraps its body in one.
\<close>

definition write_tx :: "('e, 'a) run \<Rightarrow> ('e, 'a) run" where
  "write_tx body db = (case body db of (Inl e, _) \<Rightarrow> (Inl e, db) | (Inr x, db') \<Rightarrow> (Inr x, db'))"

definition atomically :: "('e, 'a) run \<Rightarrow> ('e, 'a) run" where
  "atomically f = write_tx (and_run f (\<lambda>value. ret value))"

text \<open>A caller with a larger error type: \<open>?\<close> converts the error.\<close>

definition lift_run :: "('e \<Rightarrow> 'f) \<Rightarrow> ('s, 'e, 'a) stateful \<Rightarrow> ('s, 'f, 'a) stateful" where
  "lift_run f m db = (case m db of (r, db') \<Rightarrow> (map_err f r, db'))"

section \<open>Outcomes of the combinators\<close>

lemma ret_run [simp]: "ret x db = (Inr x, db)"
  by (simp add: ret_def)

lemma fail_run [simp]: "fail e db = (Inl e, db)"
  by (simp add: fail_def)

lemma and_run_Inr [simp]:
  "and_run m k db = (Inr y, db'') \<longleftrightarrow> (\<exists>x db'. m db = (Inr x, db') \<and> k x db' = (Inr y, db''))"
  by (auto simp: and_run_def split: prod.splits sum.splits)

lemma and_run_Inl:
  "and_run m k db = (Inl e, db'') \<longleftrightarrow> m db = (Inl e, db'') \<or> (\<exists>x db'. m db = (Inr x, db') \<and> k x db' = (Inl e, db''))"
  by (auto simp: and_run_def split: prod.splits sum.splits)

lemma and_run_assoc: "and_run (and_run m k) h = and_run m (\<lambda>x. and_run (k x) h)"
  by (rule ext) (simp add: and_run_def split: prod.split sum.split)

lemma and_run_ret: "and_run m ret = m"
  by (rule ext) (simp add: and_run_def split: prod.split sum.split)

lemma reading_run [simp]: "reading q db = (r, db') \<longleftrightarrow> q db = r \<and> db' = db"
  by (auto simp: reading_def)

lemma execute_Inr [simp]: "execute s db = (Inr u, db') \<longleftrightarrow> s db = Inr db'"
  by (auto simp: execute_def split: sum.splits)

lemma execute_Inl: "execute s db = (Inl e, db') \<longleftrightarrow> (\<exists>m. s db = Inl m \<and> e = E_Sqlite m) \<and> db' = db"
  by (auto simp: execute_def split: sum.splits)

lemma write_tx_Inr [simp]: "write_tx body db = (Inr y, db') \<longleftrightarrow> body db = (Inr y, db')"
  by (auto simp: write_tx_def split: prod.splits sum.splits)

lemma write_tx_Inl: "write_tx body db = (Inl e, db') \<longleftrightarrow> db' = db \<and> (\<exists>d. body db = (Inl e, d))"
  by (auto simp: write_tx_def split: prod.splits sum.splits)

lemma lift_run_Inr [simp]: "lift_run f m db = (Inr x, db') \<longleftrightarrow> m db = (Inr x, db')"
  by (auto simp: lift_run_def split: prod.splits)

lemma lift_run_Inl: "lift_run f m db = (Inl e, db') \<longleftrightarrow> (\<exists>d. m db = (Inl d, db') \<and> e = f d)"
  by (auto simp: lift_run_def map_err_Inl_iff split: prod.splits)

lemma run_fold_invariant:
  assumes "run_fold f acc xs db = (Inr y, db')" "I acc db"
    and "\<And>acc x db acc' db'. x \<in> set xs \<Longrightarrow> I acc db \<Longrightarrow> f acc x db = (Inr acc', db') \<Longrightarrow> I acc' db'"
  shows "I y db'"
  using assms
proof (induction xs arbitrary: acc db)
  case (Cons x xs)
  then obtain acc' d where step: "f acc x db = (Inr acc', d)" "run_fold f acc' xs d = (Inr y, db')" by auto
  have "I acc' d" using Cons.prems(2,3) step(1) by (meson list.set_intros(1))
  then show ?case
    by (rule Cons.IH[OF step(2)]) (meson Cons.prems(3) list.set_intros(2))
qed simp

lemma run_each_reading [simp]:
  "run_each (\<lambda>x. reading (q x)) xs db = (Inr u, db') \<longleftrightarrow> db' = db \<and> (\<forall>x \<in> set xs. q x db = Inr ())"
  by (induction xs arbitrary: db) auto

section \<open>All or nothing\<close>

text \<open>The contract of a write unit: an error leaves the database as it was.\<close>

locale write_unit =
  fixes run :: "('e, 'a) run"
  assumes all_or_nothing: "run db = (Inl e, db') \<Longrightarrow> db' = db"
begin

lemma failed_unchanged: "fst (run db) = Inl e \<Longrightarrow> snd (run db) = db"
  by (metis all_or_nothing prod.collapse)

lemma after_checks: "and_run (reading q) (\<lambda>_. run) db = (Inl e, db') \<Longrightarrow> db' = db"
  by (auto simp: and_run_Inl dest: all_or_nothing)

end

interpretation transaction: write_unit "write_tx body" for body :: "('e, 'a) run"
  by unfold_locales (simp add: write_tx_Inl)

interpretation statement: write_unit "execute s" for s
  by unfold_locales (simp add: execute_Inl)

interpretation atomic: write_unit "atomically f" for f :: "('e, 'a) run"
  by unfold_locales (simp add: atomically_def write_tx_Inl)

section \<open>What a run keeps\<close>

text \<open>
  A relation between the database before and after that holds of doing nothing and composes:
  an operation obeys it when every statement it makes does, whether it ends well or with
  an error.
\<close>

definition obeys :: "(db \<Rightarrow> db \<Rightarrow> bool) \<Rightarrow> ('e, 'a) run \<Rightarrow> bool" where
  "obeys R m \<longleftrightarrow> (\<forall>db. R db (snd (m db)))"

lemma obeysI: "(\<And>db r db'. m db = (r, db') \<Longrightarrow> R db db') \<Longrightarrow> obeys R m"
  by (simp add: obeys_def) (metis prod.collapse)

lemma obeysD: "obeys R m \<Longrightarrow> m db = (r, db') \<Longrightarrow> R db db'"
  by (metis obeys_def snd_conv)

locale step_order =
  fixes R :: "db \<Rightarrow> db \<Rightarrow> bool"
  assumes refl: "R db db"
    and trans: "R a b \<Longrightarrow> R b c \<Longrightarrow> R a c"
begin

lemma no_write: "obeys R (ret x)" "obeys R (fail e)" "obeys R (reading q)"
  by (simp_all add: obeys_def ret_def fail_def reading_def refl)

lemma composed: "obeys R m \<Longrightarrow> (\<And>x. obeys R (k x)) \<Longrightarrow> obeys R (and_run m k)"
  by (auto simp: obeys_def and_run_def split: prod.split sum.split) (metis snd_conv trans)+

lemma looked_up: "(\<And>db x. q db = Inr x \<Longrightarrow> R db (snd (k x db))) \<Longrightarrow> obeys R (and_run (reading q) k)"
  by (auto simp: obeys_def and_run_def reading_def refl split: sum.split)

lemma repeated: "(\<And>x. x \<in> set xs \<Longrightarrow> obeys R (f x)) \<Longrightarrow> obeys R (run_each f xs)"
  by (induction xs) (simp_all add: no_write composed)

lemma folded: "(\<And>acc x. x \<in> set xs \<Longrightarrow> obeys R (f acc x)) \<Longrightarrow> obeys R (run_fold f acc xs)"
  by (induction xs arbitrary: acc) (simp_all add: no_write composed)

lemma in_transaction: "obeys R m \<Longrightarrow> obeys R (write_tx m)"
  by (auto simp: obeys_def write_tx_def refl split: prod.split sum.split) (metis snd_conv)

lemma lifted: "obeys R m \<Longrightarrow> obeys R (lift_run f m)"
  by (simp add: obeys_def lift_run_def split: prod.split) (metis snd_conv)

lemma stated: "(\<And>db db'. s db = Inr db' \<Longrightarrow> R db db') \<Longrightarrow> obeys R (execute s)"
  by (auto simp: obeys_def execute_def refl split: sum.split)

lemma branched:
  "obeys R m \<Longrightarrow> obeys R n \<Longrightarrow> obeys R (if b then m else n)"
  "obeys R m \<Longrightarrow> (\<And>x. obeys R (f x)) \<Longrightarrow> obeys R (case a of None \<Rightarrow> m | Some x \<Rightarrow> f x)"
  "(\<And>e. obeys R (g e)) \<Longrightarrow> (\<And>x. obeys R (h x)) \<Longrightarrow> obeys R (case_sum g h r)"
  "(\<And>x y. obeys R (p x y)) \<Longrightarrow> obeys R (case z of (x, y) \<Rightarrow> p x y)"
  by (simp_all split: option.split sum.split prod.split)

lemmas steps = no_write composed repeated folded in_transaction lifted branched

end

text \<open>Keeping a predicate is such a relation.\<close>

interpretation keeping: step_order "\<lambda>db db'. P db \<longrightarrow> P db'" for P
  by unfold_locales auto

end
