(* ===== verification/Store.thy ===== *)
theory Store
  imports Report Runs
begin

text \<open>
  The write operations of \<open>Ledger\<close> (\<open>apps/ledger/src/store.rs\<close>) on the database of
  \<open>Ledger_Db\<close>: chart and classes, period gate, documents and the oplog, posting, adjustment
  requests, bank statements and lines. An operation takes the database and returns its result
  with the database it leaves. Identifiers the code draws with \<open>Uuid::now_v7()\<close> and the clock
  \<open>now\<close> are arguments; serialising a document to JSON is the argument \<open>to_json\<close>.
\<close>

section \<open>Statements on the plain tables\<close>

definition insert_unique ::
  "('r \<Rightarrow> 'k) \<Rightarrow> string \<Rightarrow> 'r \<Rightarrow> (string \<times> 'r) list \<Rightarrow> string + (string \<times> 'r) list" where
  "insert_unique key company row table =
     (if list_ex (\<lambda>r. key r = key row) (of_company company table) then Inl ''UNIQUE constraint failed''
      else Inr (table @ [(company, row)]))"

definition update_rows ::
  "string \<Rightarrow> ('r \<Rightarrow> bool) \<Rightarrow> ('r \<Rightarrow> 'r) \<Rightarrow> (string \<times> 'r) list \<Rightarrow> (string \<times> 'r) list" where
  "update_rows company P f table =
     map (\<lambda>(c, r). (c, if c = company \<and> P r then f r else r)) table"

definition has_company :: "db \<Rightarrow> string \<Rightarrow> bool" where
  "has_company db company \<longleftrightarrow> list_ex (\<lambda>r. fst r = company) (db_companies db)"

definition references_company :: "db \<Rightarrow> string \<Rightarrow> string + unit" where
  "references_company db company =
     (if has_company db company then Inr () else Inl ''FOREIGN KEY constraint failed'')"

section \<open>Chart of accounts and classes\<close>

definition seeded_side :: "classification \<Rightarrow> bool \<Rightarrow> side" where
  "seeded_side classification is_contra =
     (if is_contra then flip (normal_balance classification) else normal_balance classification)"

definition upsert_company :: "string \<Rightarrow> string \<Rightarrow> string option \<Rightarrow> timestamp \<Rightarrow> db \<Rightarrow> string + db" where
  "upsert_company company display_name realm_id now db =
     Inr (if has_company db company
      then db\<lparr>db_companies := update_rows company (\<lambda>_. True)
             (\<lambda>r. r\<lparr>co_display_name := display_name, co_realm_id := realm_id\<rparr>) (db_companies db)\<rparr>
      else db\<lparr>db_companies := db_companies db @
             [(company, \<lparr>co_display_name = display_name, co_realm_id = realm_id, co_created_at = now\<rparr>)]\<rparr>)"

definition new_account ::
  "string \<Rightarrow> string \<Rightarrow> classification \<Rightarrow> bool \<Rightarrow> string option \<Rightarrow> bool \<Rightarrow> account" where
  "new_account number name classification is_contra source_ref needs_mapping =
     \<lparr>ac_account_id = AccountId number, ac_number = number, ac_name = name,
      ac_classification = classification, ac_subtype = None, ac_parent_id = None,
      ac_normal_balance = seeded_side classification is_contra, ac_is_contra = is_contra,
      ac_is_active = True, ac_needs_mapping = needs_mapping, ac_source_ref = source_ref\<rparr>"

definition insert_account_if_new :: "string \<Rightarrow> account \<Rightarrow> db \<Rightarrow> string + db" where
  "insert_account_if_new company a db =
     (if account_exists db company (ac_account_id a) then Inr db
      else and_then (references_company db company) (\<lambda>_.
        Inr (db\<lparr>db_accounts := db_accounts db @ [(company, a)]\<rparr>)))"

definition class_exists :: "db \<Rightarrow> string \<Rightarrow> class_id \<Rightarrow> bool" where
  "class_exists db company class_id \<longleftrightarrow>
     list_ex (\<lambda>c. cl_class_id c = class_id) (of_company company (db_classes db))"

definition new_class :: "string \<Rightarrow> string \<Rightarrow> string option \<Rightarrow> class_row" where
  "new_class identifier name source_ref =
     \<lparr>cl_class_id = ClassId identifier, cl_name = name, cl_parent_id = None, cl_is_active = True,
      cl_source_ref = source_ref\<rparr>"

definition insert_class_if_new :: "string \<Rightarrow> class_row \<Rightarrow> db \<Rightarrow> string + db" where
  "insert_class_if_new company c db =
     (if class_exists db company (cl_class_id c) then Inr db
      else and_then (references_company db company) (\<lambda>_.
        Inr (db\<lparr>db_classes := db_classes db @ [(company, c)]\<rparr>)))"

definition company_classes :: "string \<Rightarrow> (string \<times> string) list" where
  "company_classes company =
     (if company = ''aquamentor'' then AQUAMENTOR_CLASSES
      else if company = ''waterline'' then WATERLINE_CLASSES
      else AQUAMENTOR_CLASSES)"

definition create_company :: "string \<Rightarrow> string \<Rightarrow> string option \<Rightarrow> timestamp \<Rightarrow> unit op" where
  "create_company company display_name realm_id now = write_tx
     (and_run (execute (upsert_company company display_name realm_id now)) (\<lambda>_.
      and_run (run_each (\<lambda>s. execute (insert_account_if_new company
          (new_account (as_number s) (as_name s) (as_classification s) (as_is_contra s) None False)))
        seed_chart) (\<lambda>_.
      run_each (\<lambda>(identifier, name). execute (insert_class_if_new company (new_class identifier name None)))
        (company_classes company))))"

definition upsert_account :: "string \<Rightarrow> account \<Rightarrow> db \<Rightarrow> string + db" where
  "upsert_account company a db =
     (if account_exists db company (ac_account_id a)
      then Inr (db\<lparr>db_accounts := update_rows company (\<lambda>r. ac_account_id r = ac_account_id a)
             (\<lambda>r. r\<lparr>ac_name := ac_name a, ac_classification := ac_classification a,
                     ac_normal_balance := ac_normal_balance a, ac_is_contra := ac_is_contra a,
                     ac_needs_mapping := ac_needs_mapping a, ac_source_ref := ac_source_ref a\<rparr>)
             (db_accounts db)\<rparr>)
      else and_then (references_company db company) (\<lambda>_.
        Inr (db\<lparr>db_accounts := db_accounts db @ [(company, a)]\<rparr>)))"

definition add_account ::
  "string \<Rightarrow> string \<Rightarrow> string \<Rightarrow> classification \<Rightarrow> bool \<Rightarrow> string option \<Rightarrow> bool \<Rightarrow> unit op" where
  "add_account company number name classification is_contra source_ref needs_mapping =
     execute (upsert_account company
       (new_account number name classification is_contra source_ref needs_mapping))"

definition upsert_class :: "string \<Rightarrow> class_row \<Rightarrow> db \<Rightarrow> string + db" where
  "upsert_class company c db =
     (if class_exists db company (cl_class_id c)
      then Inr (db\<lparr>db_classes := update_rows company (\<lambda>r. cl_class_id r = cl_class_id c)
             (\<lambda>r. r\<lparr>cl_name := cl_name c, cl_source_ref := cl_source_ref c\<rparr>) (db_classes db)\<rparr>)
      else and_then (references_company db company) (\<lambda>_.
        Inr (db\<lparr>db_classes := db_classes db @ [(company, c)]\<rparr>)))"

definition add_class :: "string \<Rightarrow> string \<Rightarrow> string \<Rightarrow> string option \<Rightarrow> unit op" where
  "add_class company identifier name source_ref =
     execute (upsert_class company (new_class identifier name source_ref))"

definition set_account_source_ref :: "string \<Rightarrow> string \<Rightarrow> string \<Rightarrow> bool op" where
  "set_account_source_ref company number source_ref db =
     (let P = (\<lambda>a. ac_number a = number \<and> ac_source_ref a = None);
          changed = length (filter P (company_accounts db company))
      in (Inr (changed = 1),
          db\<lparr>db_accounts := update_rows company P (\<lambda>a. a\<lparr>ac_source_ref := Some source_ref\<rparr>) (db_accounts db)\<rparr>))"

section \<open>Periods\<close>

definition locked_through :: "db \<Rightarrow> string \<Rightarrow> naive_date option" where
  "locked_through db company = locked_through_in db company"

definition next_close_history_seq :: "db \<Rightarrow> string \<Rightarrow> int" where
  "next_close_history_seq db company =
     unwrap_or (sql_max (map ch_seq (of_company company (db_close_history db)))) 0 + 1"

definition snapshot_row_of :: "tb_row \<Rightarrow> snapshot_row" where
  "snapshot_row_of row =
     \<lparr>sr_account_id = tb_account_id row, sr_number = tb_number row, sr_name = tb_name row,
      sr_debit = tb_debit row, sr_credit = tb_credit row, sr_balance = tb_balance row\<rparr>"

definition snapshot_trial_balance :: "string \<Rightarrow> naive_date \<Rightarrow> string \<Rightarrow> timestamp \<Rightarrow> string op" where
  "snapshot_trial_balance company as_of snapshot_id now =
     and_run (reading (\<lambda>db. trial_balance db company as_of)) (\<lambda>tb.
     and_run (execute (\<lambda>db.
         and_then (insert_unique sn_snapshot_id company
             \<lparr>sn_snapshot_id = snapshot_id, sn_as_of = as_of, sn_taken_at = now,
              sn_rows = map snapshot_row_of (tr_rows tb)\<rparr>
             (db_tb_snapshots db)) (\<lambda>t. Inr (db\<lparr>db_tb_snapshots := t\<rparr>)))) (\<lambda>_.
     ret snapshot_id))"

definition upsert_closed_period :: "string \<Rightarrow> period_row \<Rightarrow> db \<Rightarrow> string + db" where
  "upsert_closed_period company p db =
     (if list_ex (\<lambda>r. pe_period_end r = pe_period_end p) (of_company company (db_periods db))
      then Inr (db\<lparr>db_periods := update_rows company (\<lambda>r. pe_period_end r = pe_period_end p)
             (\<lambda>r. p) (db_periods db)\<rparr>)
      else and_then (references_company db company) (\<lambda>_.
        Inr (db\<lparr>db_periods := db_periods db @ [(company, p)]\<rparr>)))"

definition insert_close_history :: "string \<Rightarrow> close_history_row \<Rightarrow> db \<Rightarrow> string + db" where
  "insert_close_history company row db =
     and_then (insert_unique ch_seq company row (db_close_history db)) (\<lambda>t.
     Inr (db\<lparr>db_close_history := t\<rparr>))"

text \<open>The snapshot is taken before the write unit opens.\<close>

definition close_period :: "string \<Rightarrow> naive_date \<Rightarrow> string \<Rightarrow> string \<Rightarrow> string \<Rightarrow> timestamp \<Rightarrow> unit op" where
  "close_period company period_end actor note snapshot_id now =
     and_run (snapshot_trial_balance company period_end snapshot_id now) (\<lambda>snapshot_id.
     write_tx
       (and_run (reading (\<lambda>db. Inr (locked_through_in db company))) (\<lambda>moved_from.
        and_run (execute (upsert_closed_period company
            \<lparr>pe_period_end = period_end, pe_closed = True, pe_closed_at = now, pe_closed_by = actor,
             pe_tb_snapshot_id = snapshot_id\<rparr>)) (\<lambda>_.
        and_run (reading (\<lambda>db. Inr (next_close_history_seq db company))) (\<lambda>sq.
        execute (insert_close_history company
          \<lparr>ch_seq = sq, ch_at = now, ch_actor = actor, ch_moved_from = moved_from,
           ch_moved_to = Some period_end, ch_is_reopen = False, ch_note = note\<rparr>))))))"

definition reopen_period :: "string \<Rightarrow> naive_date \<Rightarrow> string \<Rightarrow> string \<Rightarrow> timestamp \<Rightarrow> unit op" where
  "reopen_period company period_end actor note now = write_tx
     (and_run (reading (\<lambda>db. Inr (length (filter (\<lambda>p. pe_period_end p = period_end \<and> pe_closed p)
         (of_company company (db_periods db)))))) (\<lambda>was_closed.
      if was_closed = 0 then fail E_NotFound
      else
        and_run (execute (\<lambda>db. Inr (db\<lparr>db_periods :=
            update_rows company (\<lambda>p. pe_period_end p = period_end) (\<lambda>p. p\<lparr>pe_closed := False\<rparr>) (db_periods db)\<rparr>))) (\<lambda>_.
        and_run (reading (\<lambda>db. Inr (locked_through_in db company))) (\<lambda>moved_to.
        and_run (reading (\<lambda>db. Inr (next_close_history_seq db company))) (\<lambda>sq.
        execute (insert_close_history company
          \<lparr>ch_seq = sq, ch_at = now, ch_actor = actor, ch_moved_from = Some period_end,
           ch_moved_to = moved_to, ch_is_reopen = True, ch_note = note\<rparr>))))))"

section \<open>Documents\<close>

record command_meta =
  cm_actor_id :: string
  cm_kind :: string
  cm_hlc :: string

record document_version_id =
  vi_document_id :: string
  vi_version :: int

definition latest_version_of :: "db \<Rightarrow> string \<Rightarrow> string \<Rightarrow> int" where
  "latest_version_of db company document_id =
     unwrap_or (sql_max (map dv_version
       (filter (\<lambda>d. dv_document_id d = document_id) (of_company company (db_document_versions db))))) 0"

definition insert_oplog :: "string \<Rightarrow> oplog_row \<Rightarrow> db \<Rightarrow> string + db" where
  "insert_oplog company row db =
     and_then (insert_unique ol_command_id company row (db_oplog db)) (\<lambda>t. Inr (db\<lparr>db_oplog := t\<rparr>))"

definition insert_document_version :: "string \<Rightarrow> document_version \<Rightarrow> db \<Rightarrow> string + db" where
  "insert_document_version company row db =
     and_then (insert_unique (\<lambda>d. (dv_document_id d, dv_version d)) company row (db_document_versions db))
       (\<lambda>t. Inr (db\<lparr>db_document_versions := t\<rparr>))"

definition save_document ::
  "(ledger_document \<Rightarrow> string + string) \<Rightarrow> string \<Rightarrow> ledger_document \<Rightarrow> command_meta \<Rightarrow> string \<Rightarrow>
   timestamp \<Rightarrow> document_version_id op" where
  "save_document to_json company doc command command_id now = write_tx
     (and_run (reading (\<lambda>db. Inr (latest_version_of db company (doc_document_id doc) + 1))) (\<lambda>version.
      and_run (reading (\<lambda>db. map_err E_Json (to_json doc))) (\<lambda>payload.
      and_run (execute (insert_oplog company
          \<lparr>ol_command_id = command_id, ol_actor_id = cm_actor_id command, ol_hlc = cm_hlc command,
           ol_kind = cm_kind command, ol_payload_json = payload, ol_applied_at = now\<rparr>)) (\<lambda>_.
      and_run (execute (insert_document_version company
          \<lparr>dv_document_id = doc_document_id doc, dv_version = version, dv_doc_type = doc_kind doc,
           dv_doc_number = doc_number doc, dv_txn_date = doc_txn_date doc,
           dv_contact_id = map_option cr_id (doc_contact doc), dv_payload_json = payload,
           dv_created_at = now, dv_command_id = command_id, dv_source_ref = doc_source_ref doc\<rparr>)) (\<lambda>_.
      ret \<lparr>vi_document_id = doc_document_id doc, vi_version = version\<rparr>)))))"

section \<open>Posting\<close>

definition check_class_rule :: "db \<Rightarrow> string \<Rightarrow> journal_line \<Rightarrow> ledger_error + unit" where
  "check_class_rule db company line =
     and_then (ok_or (account_row_in db company (jl_account line)) (E_UnknownAccount (account_no (jl_account line)))) (\<lambda>account.
     and_then
       (case jl_class line of
          Some class \<Rightarrow> if class_exists_in db company class then Inr () else Inl (E_UnknownClass (class_name class))
        | None \<Rightarrow> Inr ()) (\<lambda>_.
     let needs_class = (case ac_number account of [] \<Rightarrow> False | c # _ \<Rightarrow> c \<in> set ''4567'') in
     if needs_class \<and> jl_class line = None then Inl (E_MissingClass (jl_line_no line))
     else if \<not> needs_class \<and> jl_class line \<noteq> None then Inl (E_UnexpectedClass (jl_line_no line))
     else Inr ()))"

definition entry_row_of :: "string \<Rightarrow> string \<Rightarrow> journal_entry \<Rightarrow> entry_row" where
  "entry_row_of company entry_id entry =
     \<lparr>en_company = company, en_entry_id = entry_id, en_entry_date = je_entry_date entry,
      en_posted_at = None, en_memo = je_memo entry, en_source_type = je_source_type entry,
      en_source_id = je_source_id entry, en_source_version = je_source_version entry,
      en_reversal_of_id = je_reversal_of entry, en_is_posted = 0, en_is_flagged = je_is_flagged entry\<rparr>"

definition line_row_of :: "string \<Rightarrow> string \<Rightarrow> journal_line \<Rightarrow> line_row" where
  "line_row_of company entry_id line =
     \<lparr>ln_company = company, ln_entry_id = entry_id, ln_line = line, ln_cleared_at = None\<rparr>"

definition post_entry :: "string \<Rightarrow> journal_entry \<Rightarrow> string \<Rightarrow> timestamp \<Rightarrow> string op" where
  "post_entry company entry entry_id now =
     and_run (reading (\<lambda>db. case locked_through db company of
         Some locked \<Rightarrow> if je_entry_date entry \<le> locked then Inl (E_PeriodClosed locked) else Inr ()
       | None \<Rightarrow> Inr ())) (\<lambda>_.
     if \<not> is_balanced entry then fail E_Unbalanced
     else write_tx
       (and_run (run_each (\<lambda>line. reading (\<lambda>db. check_class_rule db company line)) (je_lines entry)) (\<lambda>_.
        and_run (execute (insert_entry (entry_row_of company entry_id entry))) (\<lambda>_.
        and_run (run_each (\<lambda>line. execute (insert_line (line_row_of company entry_id line))) (je_lines entry)) (\<lambda>_.
        and_run (execute (update_entries (\<lambda>e. entry_key e = (company, entry_id))
            (\<lambda>e. e\<lparr>en_is_posted := 1, en_posted_at := Some now\<rparr>))) (\<lambda>_.
        ret entry_id))))))"

definition entry :: "db \<Rightarrow> string \<Rightarrow> string \<Rightarrow> ledger_error + (journal_entry \<times> bool)" where
  "entry db company entry_id =
     and_then (ok_or (find_map (\<lambda>e. entry_key e = (company, entry_id)) (db_journal_entries db)) E_NotFound) (\<lambda>row.
     Inr (\<lparr>je_entry_date = en_entry_date row, je_memo = en_memo row, je_source_type = en_source_type row,
           je_source_id = en_source_id row, je_source_version = en_source_version row,
           je_reversal_of = en_reversal_of_id row, je_is_flagged = en_is_flagged row,
           je_lines = sort_key jl_line_no (map ln_line (lines_of db (company, entry_id)))\<rparr>,
          en_is_posted row \<noteq> 0))"

definition reverse_entry :: "string \<Rightarrow> string \<Rightarrow> naive_date \<Rightarrow> string \<Rightarrow> timestamp \<Rightarrow> string op" where
  "reverse_entry company entry_id on reversal_id now =
     and_run (reading (\<lambda>db. entry db company entry_id)) (\<lambda>(original, is_posted).
     if \<not> is_posted then fail E_NotFound
     else post_entry company (reversed original on entry_id) reversal_id now)"

definition entries_for_document :: "db \<Rightarrow> string \<Rightarrow> string \<Rightarrow> ledger_error + (string \<times> journal_entry \<times> bool) list" where
  "entries_for_document db company document_id =
     (let ids = map en_entry_id (sort_key (\<lambda>e. (en_entry_date e, en_entry_id e))
            (filter (\<lambda>e. en_company e = company \<and> en_source_id e = document_id) (db_journal_entries db)))
      in try_map (\<lambda>entry_id. and_then (entry db company entry_id) (\<lambda>(e, posted). Inr (entry_id, e, posted))) ids)"

definition live_entries_for_document :: "db \<Rightarrow> string \<Rightarrow> string \<Rightarrow> ledger_error + (string \<times> journal_entry) list" where
  "live_entries_for_document db company document_id =
     and_then (entries_for_document db company document_id) (\<lambda>entries.
     let reversed_ids = List.map_filter (\<lambda>(_, e, posted). if posted then je_reversal_of e else None) entries
     in Inr (map (\<lambda>(entry_id, e, _). (entry_id, e))
          (filter (\<lambda>(entry_id, e, posted). posted \<and> je_reversal_of e = None \<and> entry_id \<notin> set reversed_ids) entries)))"

end
