(* ===== verification/Store_Desk.thy ===== *)
theory Store_Desk
  imports Store
begin

text \<open>
  The rest of \<open>apps/ledger/src/store.rs\<close>: document reads, adjustment requests, close history,
  the general ledger and audit reads, bank statements and bank lines. A bank table's
  constraints are checked on the rows a statement leaves, as for the journal.
\<close>

section \<open>Text columns\<close>

fun adjustment_state_as_str :: "adjustment_state \<Rightarrow> string" where
  "adjustment_state_as_str Proposed = ''proposed''"
| "adjustment_state_as_str Approved = ''approved''"
| "adjustment_state_as_str Rejected = ''rejected''"
| "adjustment_state_as_str Posted = ''posted''"

definition parse_adjustment_state :: "string \<Rightarrow> adjustment_state option" where
  "parse_adjustment_state raw =
     (if raw = ''proposed'' then Some Proposed
      else if raw = ''approved'' then Some Approved
      else if raw = ''rejected'' then Some Rejected
      else if raw = ''posted'' then Some Posted
      else None)"

fun side_str :: "side \<Rightarrow> string" where
  "side_str Debit = ''Dr''"
| "side_str Credit = ''Cr''"

definition parse_side :: "string \<Rightarrow> side option" where
  "parse_side raw = (if raw = ''Dr'' then Some Debit else if raw = ''Cr'' then Some Credit else None)"

fun contact_kind_str :: "contact_kind \<Rightarrow> string" where
  "contact_kind_str Customer = ''Customer''"
| "contact_kind_str Vendor = ''Vendor''"

definition parse_contact_kind :: "string \<Rightarrow> contact_kind option" where
  "parse_contact_kind raw =
     (if raw = ''Customer'' then Some Customer else if raw = ''Vendor'' then Some Vendor else None)"

section \<open>Document reads\<close>

definition versions_of :: "db \<Rightarrow> string \<Rightarrow> string \<Rightarrow> document_version list" where
  "versions_of db company document_id =
     filter (\<lambda>d. dv_document_id d = document_id) (of_company company (db_document_versions db))"

text \<open>\<open>ORDER BY version DESC LIMIT 1\<close>; among equal versions the first row.\<close>

definition newest :: "document_version list \<Rightarrow> document_version option" where
  "newest rows = find_map (\<lambda>d. sql_max (map dv_version rows) = Some (dv_version d)) rows"

definition latest_document_payload :: "db \<Rightarrow> string \<Rightarrow> string \<Rightarrow> string option" where
  "latest_document_payload db company document_id =
     map_option dv_payload_json (newest (versions_of db company document_id))"

definition document_by_number :: "db \<Rightarrow> string \<Rightarrow> string \<Rightarrow> (string \<times> doc_kind) option" where
  "document_by_number db company number =
     map_option (\<lambda>d. (dv_document_id d, dv_doc_type d))
       (newest (filter (\<lambda>d. dv_doc_number d = Some number) (of_company company (db_document_versions db))))"

definition document_version_count :: "db \<Rightarrow> string \<Rightarrow> string \<Rightarrow> int" where
  "document_version_count db company document_id = int (length (versions_of db company document_id))"

definition oplog_len :: "db \<Rightarrow> string \<Rightarrow> int" where
  "oplog_len db company = int (length (of_company company (db_oplog db)))"

section \<open>Adjustment requests\<close>

definition insert_adjustment_request ::
  "string \<Rightarrow> string \<Rightarrow> string \<Rightarrow> timestamp \<Rightarrow> string \<Rightarrow> string \<Rightarrow> unit op" where
  "insert_adjustment_request company request_id requested_by requested_at description lines_json =
     execute (\<lambda>db. and_then (insert_unique ar_request_id company
         \<lparr>ar_request_id = request_id, ar_requested_by = requested_by, ar_requested_at = requested_at,
          ar_description = description, ar_lines_json = lines_json, ar_state = Proposed,
          ar_decided_by = None, ar_decided_at = None, ar_decision_note = None, ar_posted_entry_id = None\<rparr>
         (db_adjustment_requests db)) (\<lambda>t. Inr (db\<lparr>db_adjustment_requests := t\<rparr>)))"

definition adjustment_request :: "db \<Rightarrow> string \<Rightarrow> string \<Rightarrow> adjustment_request_row option" where
  "adjustment_request db company request_id =
     find_map (\<lambda>r. ar_request_id r = request_id) (of_company company (db_adjustment_requests db))"

definition list_adjustment_requests ::
  "db \<Rightarrow> string \<Rightarrow> adjustment_state option \<Rightarrow> adjustment_request_row list" where
  "list_adjustment_requests db company state =
     sort_key (\<lambda>r. (ar_requested_at r, ar_request_id r))
       (filter (\<lambda>r. case state of Some s \<Rightarrow> ar_state r = s | None \<Rightarrow> True)
         (of_company company (db_adjustment_requests db)))"

definition decide_adjustment_request ::
  "string \<Rightarrow> string \<Rightarrow> string \<Rightarrow> timestamp \<Rightarrow> string \<Rightarrow> adjustment_state \<Rightarrow> string option \<Rightarrow> unit op" where
  "decide_adjustment_request company request_id decided_by decided_at note new_state posted_entry_id =
     execute (\<lambda>db. Inr (db\<lparr>db_adjustment_requests :=
       update_rows company (\<lambda>r. ar_request_id r = request_id)
         (\<lambda>r. r\<lparr>ar_state := new_state, ar_decided_by := Some decided_by, ar_decided_at := Some decided_at,
                 ar_decision_note := Some note, ar_posted_entry_id := posted_entry_id\<rparr>)
         (db_adjustment_requests db)\<rparr>))"

section \<open>Close history, audit and general ledger reads\<close>

definition close_history :: "db \<Rightarrow> string \<Rightarrow> close_history_row list" where
  "close_history db company = sort_key ch_seq (of_company company (db_close_history db))"

record posted_entry_with_actor =
  pa_entry_id :: string
  pa_entry :: journal_entry
  pa_actor_id :: string
  pa_command_kind :: string
  pa_command_at :: timestamp

definition command_of :: "db \<Rightarrow> entry_row \<Rightarrow> oplog_row list" where
  "command_of db e =
     concat (map (\<lambda>d. filter (\<lambda>o_row. ol_command_id o_row = dv_command_id d) (of_company (en_company e) (db_oplog db)))
       (filter (\<lambda>d. dv_document_id d = en_source_id e \<and> dv_version d = en_source_version e)
         (of_company (en_company e) (db_document_versions db))))"

definition posted_entries_since :: "db \<Rightarrow> string \<Rightarrow> naive_date \<Rightarrow> ledger_error + posted_entry_with_actor list" where
  "posted_entries_since db company since =
     (let headers = concat (map (\<lambda>e. map (Pair e) (command_of db e))
            (sort_key (\<lambda>e. (if en_is_flagged e then 0 else 1 :: int, en_entry_date e, en_entry_id e))
              (filter (\<lambda>e. en_company e = company \<and> en_is_posted e = 1 \<and> since < en_entry_date e)
                (db_journal_entries db))))
      in try_map (\<lambda>(e, command).
           and_then (entry db company (en_entry_id e)) (\<lambda>(body, is_posted).
             Inr \<lparr>pa_entry_id = en_entry_id e, pa_entry = body, pa_actor_id = ol_actor_id command,
                  pa_command_kind = ol_kind command, pa_command_at = ol_applied_at command\<rparr>)) headers)"

record gl_line_row =
  gr_account_id :: account_id
  gr_number :: string
  gr_name :: string
  gr_entry_id :: string
  gr_entry_date :: naive_date
  gr_source_type :: doc_kind
  gr_source_id :: string
  gr_line_memo :: "string option"
  gr_entry_memo :: "string option"
  gr_class_id :: "class_id option"
  gr_entity :: "contact_ref option"
  gr_is_flagged :: bool
  gr_reversal_of :: "string option"
  gr_debit :: money
  gr_credit :: money

definition gl_row_of :: "line_row \<Rightarrow> entry_row \<Rightarrow> account \<Rightarrow> gl_line_row" where
  "gl_row_of l e a =
     \<lparr>gr_account_id = ac_account_id a, gr_number = ac_number a, gr_name = ac_name a,
      gr_entry_id = en_entry_id e, gr_entry_date = en_entry_date e, gr_source_type = en_source_type e,
      gr_source_id = en_source_id e, gr_line_memo = jl_memo (ln_line l), gr_entry_memo = en_memo e,
      gr_class_id = jl_class (ln_line l), gr_entity = jl_entity (ln_line l), gr_is_flagged = en_is_flagged e,
      gr_reversal_of = en_reversal_of_id e, gr_debit = jl_debit (ln_line l), gr_credit = jl_credit (ln_line l)\<rparr>"

text \<open>
  The rows join each posted line to its account; the sort key is the query's \<open>ORDER BY\<close>,
  with the account chosen when one is asked for.
\<close>

definition gl_joined :: "db \<Rightarrow> string \<Rightarrow> naive_date \<Rightarrow> ((line_row \<times> entry_row) \<times> account) list" where
  "gl_joined db company until =
     filter (\<lambda>((l, e), a). ac_account_id a = jl_account (ln_line l))
       (List.product (posted_join db company (\<lambda>e. en_entry_date e \<le> until)) (company_accounts db company))"

definition gl_lines :: "db \<Rightarrow> string \<Rightarrow> naive_date \<Rightarrow> account_id option \<Rightarrow> gl_line_row list" where
  "gl_lines db company until account =
     map (\<lambda>((l, e), a). gl_row_of l e a)
       (sort_key (\<lambda>((l, e), a). (ac_number a, en_entry_date e, en_entry_id e, jl_line_no (ln_line l)))
         (filter (\<lambda>((l, e), a). case account of Some i \<Rightarrow> ac_account_id a = i | None \<Rightarrow> True)
           (gl_joined db company until)))"

section \<open>Bank statements and lines\<close>

definition match_kind_ok :: "string \<times> bank_line_row \<Rightarrow> bool" where
  "match_kind_ok row =
     (case bl_match_kind (snd row) of
        None \<Rightarrow> True
      | Some k \<Rightarrow> k = ''exact'' \<or> k = ''settlement'' \<or> k = ''proposed'' \<or> k = ''manual'')"

definition statement_key :: "string \<times> bank_statement_row \<Rightarrow> string \<times> string" where
  "statement_key row = (fst row, bs_statement_id (snd row))"

definition bank_line_key :: "string \<times> bank_line_row \<Rightarrow> string \<times> string" where
  "bank_line_key row = (fst row, bl_line_id (snd row))"

text \<open>The columns of \<open>idx_bank_lines_external\<close>, of the rows it holds.\<close>

definition external_keys :: "(string \<times> bank_line_row) list \<Rightarrow> (string \<times> account_id \<times> string) list" where
  "external_keys rows =
     List.map_filter (\<lambda>(c, b). map_option (\<lambda>x. (c, bl_account_id b, x)) (bl_external_id b)) rows"

definition bank_keys_ok :: "db \<Rightarrow> bool" where
  "bank_keys_ok db \<longleftrightarrow>
     distinct (map statement_key (db_bank_statements db)) \<and>
     distinct (map bank_line_key (db_bank_lines db)) \<and>
     distinct (external_keys (db_bank_lines db))"

definition bank_references_ok :: "db \<Rightarrow> bool" where
  "bank_references_ok db \<longleftrightarrow>
     list_all (\<lambda>(c, s). has_company db c \<and> account_exists db c (bs_account_id s)) (db_bank_statements db) \<and>
     list_all (\<lambda>(c, b). list_ex (\<lambda>r. statement_key r = (c, bl_statement_id b)) (db_bank_statements db) \<and>
       account_exists db c (bl_account_id b)) (db_bank_lines db) \<and>
     list_all (matched_exists (db_journal_entries db)) (db_bank_lines db)"

definition bank_constrained :: "db \<Rightarrow> string + db" where
  "bank_constrained db =
     (if \<not> list_all match_kind_ok (db_bank_lines db) then Inl ''CHECK constraint failed''
      else if \<not> bank_keys_ok db then Inl ''UNIQUE constraint failed''
      else if \<not> bank_references_ok db then Inl ''FOREIGN KEY constraint failed''
      else Inr db)"

definition create_bank_statement ::
  "string \<Rightarrow> string \<Rightarrow> account_id \<Rightarrow> naive_date \<Rightarrow> naive_date \<Rightarrow> money \<Rightarrow> money \<Rightarrow> timestamp \<Rightarrow> unit op" where
  "create_bank_statement company statement_id account period_start period_end opening_balance closing_balance now =
     execute (\<lambda>db. bank_constrained (db\<lparr>db_bank_statements := db_bank_statements db @
       [(company, \<lparr>bs_statement_id = statement_id, bs_account_id = account, bs_period_start = period_start,
          bs_period_end = period_end, bs_opening_balance = opening_balance,
          bs_closing_balance = closing_balance, bs_imported_at = now, bs_closed_at = None\<rparr>)]\<rparr>))"

definition bank_statement :: "db \<Rightarrow> string \<Rightarrow> string \<Rightarrow> ledger_error + bank_statement_row" where
  "bank_statement db company statement_id =
     ok_or (find_map (\<lambda>s. bs_statement_id s = statement_id) (of_company company (db_bank_statements db))) E_NotFound"

definition close_bank_statement :: "string \<Rightarrow> string \<Rightarrow> timestamp \<Rightarrow> unit op" where
  "close_bank_statement company statement_id now =
     and_run (reading (\<lambda>db. Inr (length (filter (\<lambda>s. bs_statement_id s = statement_id)
         (of_company company (db_bank_statements db)))))) (\<lambda>changed.
     and_run (execute (\<lambda>db. Inr (db\<lparr>db_bank_statements :=
         update_rows company (\<lambda>s. bs_statement_id s = statement_id) (\<lambda>s. s\<lparr>bs_closed_at := Some now\<rparr>)
           (db_bank_statements db)\<rparr>))) (\<lambda>_.
     if changed = 0 then fail E_NotFound else ret ()))"

definition seen_external :: "db \<Rightarrow> string \<Rightarrow> account_id \<Rightarrow> string option \<Rightarrow> bool" where
  "seen_external db company account external_id =
     (case external_id of
        None \<Rightarrow> False
      | Some x \<Rightarrow> 0 < length (filter (\<lambda>b. bl_account_id b = account \<and> bl_external_id b = Some x)
          (of_company company (db_bank_lines db))))"

definition new_bank_line ::
  "string \<Rightarrow> string \<Rightarrow> account_id \<Rightarrow> naive_date \<Rightarrow> money \<Rightarrow> string \<Rightarrow> string option \<Rightarrow> bank_line_row" where
  "new_bank_line line_id statement_id account posted_on amount description external_id =
     \<lparr>bl_line_id = line_id, bl_statement_id = statement_id, bl_account_id = account,
      bl_posted_on = posted_on, bl_amount = amount, bl_description = description,
      bl_external_id = external_id, bl_matched_entry_id = None, bl_matched_line_no = None,
      bl_match_kind = None, bl_matched_at = None\<rparr>"

definition insert_bank_line_if_new ::
  "string \<Rightarrow> string \<Rightarrow> string \<Rightarrow> account_id \<Rightarrow> naive_date \<Rightarrow> money \<Rightarrow> string \<Rightarrow> string option \<Rightarrow> bool op" where
  "insert_bank_line_if_new company line_id statement_id account posted_on amount description external_id =
     and_run (reading (\<lambda>db. Inr (seen_external db company account external_id))) (\<lambda>exists.
     if exists then ret False
     else and_run (execute (\<lambda>db. bank_constrained (db\<lparr>db_bank_lines := db_bank_lines db @
         [(company, new_bank_line line_id statement_id account posted_on amount description external_id)]\<rparr>)))
       (\<lambda>_. ret True))"

definition list_bank_lines :: "db \<Rightarrow> string \<Rightarrow> string \<Rightarrow> bank_line_row list" where
  "list_bank_lines db company statement_id =
     sort_key (\<lambda>b. (bl_posted_on b, bl_line_id b))
       (filter (\<lambda>b. bl_statement_id b = statement_id) (of_company company (db_bank_lines db)))"

definition bank_line :: "db \<Rightarrow> string \<Rightarrow> string \<Rightarrow> ledger_error + bank_line_row" where
  "bank_line db company line_id =
     ok_or (find_map (\<lambda>b. bl_line_id b = line_id) (of_company company (db_bank_lines db))) E_NotFound"

definition set_bank_line_match ::
  "string \<Rightarrow> string \<Rightarrow> string \<Rightarrow> string option \<Rightarrow> int option \<Rightarrow> timestamp \<Rightarrow> unit op" where
  "set_bank_line_match company line_id match_kind entry_id line_no now =
     and_run (reading (\<lambda>db. Inr (length (filter (\<lambda>b. bl_line_id b = line_id)
         (of_company company (db_bank_lines db)))))) (\<lambda>changed.
     and_run (execute (\<lambda>db. bank_constrained (db\<lparr>db_bank_lines :=
         update_rows company (\<lambda>b. bl_line_id b = line_id)
           (\<lambda>b. b\<lparr>bl_match_kind := Some match_kind, bl_matched_entry_id := entry_id,
                   bl_matched_line_no := line_no, bl_matched_at := Some now\<rparr>) (db_bank_lines db)\<rparr>))) (\<lambda>_.
     if changed = 0 then fail E_NotFound else ret ()))"

definition journal_line_at :: "string \<Rightarrow> string \<Rightarrow> int \<Rightarrow> line_row \<Rightarrow> bool" where
  "journal_line_at company entry_id line_no l \<longleftrightarrow> line_pk l = ((company, entry_id), line_no)"

definition clear_journal_line :: "string \<Rightarrow> string \<Rightarrow> int \<Rightarrow> timestamp \<Rightarrow> unit op" where
  "clear_journal_line company entry_id line_no now =
     and_run (reading (\<lambda>db. Inr (length (filter (journal_line_at company entry_id line_no) (db_journal_lines db))))) (\<lambda>changed.
     and_run (execute (update_lines (journal_line_at company entry_id line_no) (\<lambda>l. l\<lparr>ln_cleared_at := Some now\<rparr>))) (\<lambda>_.
     if changed = 0 then fail E_NotFound else ret ()))"

definition is_line_cleared :: "db \<Rightarrow> string \<Rightarrow> string \<Rightarrow> int \<Rightarrow> bool" where
  "is_line_cleared db company entry_id line_no =
     (case find_map (journal_line_at company entry_id line_no) (db_journal_lines db) of
        Some l \<Rightarrow> ln_cleared_at l \<noteq> None
      | None \<Rightarrow> False)"

section \<open>Match candidates\<close>

definition side_column :: "side \<Rightarrow> journal_line \<Rightarrow> money" where
  "side_column s l = (case s of Debit \<Rightarrow> jl_debit l | Credit \<Rightarrow> jl_credit l)"

definition from_sources :: "string list \<Rightarrow> naive_date \<Rightarrow> naive_date \<Rightarrow> entry_row \<Rightarrow> bool" where
  "from_sources source_types lo hi e \<longleftrightarrow>
     lo \<le> en_entry_date e \<and> en_entry_date e \<le> hi \<and> doc_kind_as_str (en_source_type e) \<in> set source_types"

definition uncleared_lines_matching ::
  "db \<Rightarrow> string \<Rightarrow> account_id \<Rightarrow> side \<Rightarrow> money \<Rightarrow> string list \<Rightarrow> naive_date \<Rightarrow> naive_date \<Rightarrow>
   (string \<times> int \<times> naive_date) list" where
  "uncleared_lines_matching db company account s amount source_types lo hi =
     (if source_types = [] then []
      else map (\<lambda>(l, e). (ln_entry_id l, jl_line_no (ln_line l), en_entry_date e))
        (sort_key (\<lambda>(l, e). (en_entry_date e, ln_entry_id l, jl_line_no (ln_line l)))
          (filter (\<lambda>(l, e). jl_account (ln_line l) = account \<and> side_column s (ln_line l) = amount \<and>
              ln_cleared_at l = None)
            (posted_join db company (from_sources source_types lo hi)))))"

text \<open>\<open>GROUP BY l.entry_id\<close> with \<open>SUM(l.credit_minor)\<close>, in the order of the entry ids.\<close>

definition credit_sums ::
  "db \<Rightarrow> string \<Rightarrow> account_id \<Rightarrow> string list \<Rightarrow> naive_date \<Rightarrow> naive_date \<Rightarrow> ledger_error + (string \<times> int) list" where
  "credit_sums db company account source_types lo hi =
     (let rows = filter (\<lambda>l. jl_account (ln_line l) = account)
            (map fst (posted_join db company (from_sources source_types lo hi)))
      in try_map (\<lambda>i. and_then (ledger_sql (sql_sum
             (map (\<lambda>l. sint (minor (jl_credit (ln_line l)))) (filter (\<lambda>l. ln_entry_id l = i) rows)))) (\<lambda>s. Inr (i, s)))
           (sort (remdups (map ln_entry_id rows))))"

definition entries_with_credit_sum ::
  "db \<Rightarrow> string \<Rightarrow> account_id \<Rightarrow> money \<Rightarrow> string list \<Rightarrow> naive_date \<Rightarrow> naive_date \<Rightarrow> ledger_error + string list" where
  "entries_with_credit_sum db company account amount source_types lo hi =
     (if source_types = [] then Inr []
      else and_then (credit_sums db company account source_types lo hi) (\<lambda>totals.
        Inr (map fst (filter (\<lambda>(i, s). s = sint (minor amount)) totals))))"

definition entries_with_credit_sum_at_least ::
  "db \<Rightarrow> string \<Rightarrow> account_id \<Rightarrow> money \<Rightarrow> string list \<Rightarrow> naive_date \<Rightarrow> naive_date \<Rightarrow>
   ledger_error + (string \<times> money) list" where
  "entries_with_credit_sum_at_least db company account min_amount source_types lo hi =
     (if source_types = [] then Inr []
      else and_then (credit_sums db company account source_types lo hi) (\<lambda>totals.
        Inr (map (\<lambda>(i, s). (i, money_of s)) (filter (\<lambda>(i, s). sint (minor min_amount) \<le> s) totals))))"

end
