(* ===== verification/Posting_Balance.thy ===== *)
theory Posting_Balance
  imports Posting
begin

text \<open>
  What the posting rules promise of their entries: the legs each rule builds cancel, merging
  and numbering keep every account's movement, and so every entry \<open>post\<close> returns is
  balanced. \<open>leg_builder\<close> is the contract of a rule; each \<open>post_*\<close> function is an
  interpretation of it.
\<close>

section \<open>Movements of legs\<close>

named_theorems leg_simps "unfolding of the leg constructors and of small wrappers"

lemma money_try_Inr [simp]: "money_try r = Inr x \<longleftrightarrow> r = Inr x"
  by (simp add: money_try_def)

definition signed :: "leg \<Rightarrow> int" where
  "signed leg = (case leg_side leg of Debit \<Rightarrow> cents (leg_amount leg) | Credit \<Rightarrow> - cents (leg_amount leg))"

definition net :: "leg list \<Rightarrow> int" where
  "net legs = (\<Sum>leg\<leftarrow>legs. signed leg)"

definition leg_net :: "account_id \<Rightarrow> leg list \<Rightarrow> int" where
  "leg_net a legs = (\<Sum>leg\<leftarrow>filter (\<lambda>leg. leg_account leg = a) legs. signed leg)"

lemma net_simps [simp]:
  "net [] = 0" "net (l # ls) = signed l + net ls" "net (xs @ ys) = net xs + net ys"
  by (simp_all add: net_def)

lemma leg_net_simps [simp]:
  "leg_net a [] = 0"
  "leg_net a (l # ls) = (if leg_account l = a then signed l else 0) + leg_net a ls"
  "leg_net a (xs @ ys) = leg_net a xs + leg_net a ys"
  by (simp_all add: leg_net_def)

lemma debit_sel [simp]:
  "leg_account (debit a m c e) = a" "leg_class (debit a m c e) = c" "leg_entity (debit a m c e) = e"
  "leg_side (debit a m c e) = Debit" "leg_amount (debit a m c e) = m"
  "leg_is_taxable (debit a m c e) = False" "leg_tax_amount (debit a m c e) = None"
  "leg_tax_rate (debit a m c e) = None"
  by (simp_all add: debit_def)

lemma credit_sel [simp]:
  "leg_account (credit a m c e) = a" "leg_class (credit a m c e) = c" "leg_entity (credit a m c e) = e"
  "leg_side (credit a m c e) = Credit" "leg_amount (credit a m c e) = m"
  "leg_is_taxable (credit a m c e) = False" "leg_tax_amount (credit a m c e) = None"
  "leg_tax_rate (credit a m c e) = None"
  by (simp_all add: credit_def)

lemma leg_with_tax_sel [simp]:
  "leg_account (leg_with_tax l b t r) = leg_account l" "leg_class (leg_with_tax l b t r) = leg_class l"
  "leg_entity (leg_with_tax l b t r) = leg_entity l" "leg_side (leg_with_tax l b t r) = leg_side l"
  "leg_amount (leg_with_tax l b t r) = leg_amount l" "leg_is_taxable (leg_with_tax l b t r) = b"
  "leg_tax_amount (leg_with_tax l b t r) = t" "leg_tax_rate (leg_with_tax l b t r) = r"
  by (simp_all add: leg_with_tax_def)

lemma signed_simps [simp]:
  "signed (debit a m c e) = cents m" "signed (credit a m c e) = - cents m"
  "signed (leg_with_tax l b t r) = signed l"
  by (simp_all add: signed_def split: side.split)

section \<open>The rules' legs cancel\<close>

text \<open>A loop over lines keeps the running total equal to the legs' net movement.\<close>

lemma post_inventory_cogs_net:
  "post_inventory_cogs D legs line item class = Inr legs' \<Longrightarrow> net legs' = net legs"
  by (auto simp: post_inventory_cogs_def split: option.splits if_splits)

lemma post_inventory_return_net:
  "post_inventory_return D legs line item class = Inr legs' \<Longrightarrow> net legs' = net legs"
  by (auto simp: post_inventory_return_def split: option.splits if_splits)

lemma revenue_line_net:
  "revenue_line D doc ctx (legs, tot) line = Inr (legs', tot') \<Longrightarrow>
     net legs' + cents tot' = net legs + cents tot"
  by (auto simp: revenue_line_def Let_def checked_add_Inr checked_sub_Inr case_prod_unfold
      split: line_kind.splits dest!: post_inventory_cogs_net)

lemma returns_line_net:
  "returns_line D doc ctx (legs, tot) line = Inr (legs', tot') \<Longrightarrow>
     net legs' - cents tot' = net legs - cents tot"
  by (auto simp: returns_line_def Let_def checked_add_Inr checked_sub_Inr
      split: if_splits dest!: post_inventory_return_net)

lemma purchase_line_net:
  assumes "\<And>a m c e. signed (mk a m c e) = s * cents m"
  shows "purchase_line mk doc ctx (legs, tot) line = Inr (legs', tot') \<Longrightarrow>
     net legs' - s * cents tot' = net legs - s * cents tot"
  by (auto simp: purchase_line_def Let_def checked_add_Inr assms algebra_simps split: line_kind.splits)

lemma deposit_line_net:
  "deposit_line doc (legs, tot) line = Inr (legs', tot') \<Longrightarrow>
     net legs' + cents tot' = net legs + cents tot"
  by (auto simp: deposit_line_def Let_def checked_add_Inr checked_sub_Inr split: if_splits)

lemma fold_net:
  assumes "try_fold f ([], ZERO) xs = Inr (legs, tot)"
    and "\<And>legs tot x legs' tot'. f (legs, tot) x = Inr (legs', tot') \<Longrightarrow>
      net legs' + k * cents tot' = net legs + k * cents tot"
  shows "net legs + k * cents tot = 0"
proof -
  have "(case (legs, tot) of (legs, tot) \<Rightarrow> net legs + k * cents tot = 0)"
    using assms(1) by (rule try_fold_invariant) (use assms(2) in \<open>auto split: prod.splits\<close>)
  then show ?thesis by simp
qed

lemma revenue_legs_net: "revenue_legs D doc ctx = Inr (legs, tot) \<Longrightarrow> net legs + cents tot = 0"
  using fold_net[of "revenue_line D doc ctx" "doc_lines doc" _ _ 1]
  by (fastforce simp: revenue_legs_def Let_def checked_add_Inr split: option.splits
      dest: revenue_line_net)

lemma returns_legs_net: "returns_legs D doc ctx = Inr (legs, tot) \<Longrightarrow> net legs - cents tot = 0"
  using fold_net[of "returns_line D doc ctx" "doc_lines doc" _ _ "- 1"]
  by (fastforce simp: returns_legs_def Let_def checked_add_Inr split: option.splits
      dest: returns_line_net)

lemma purchase_fold_net:
  assumes "try_fold (purchase_line mk doc ctx) ([], ZERO) (doc_lines doc) = Inr (legs, tot)"
    and mk: "\<And>a m c e. signed (mk a m c e) = s * cents m"
  shows "net legs = s * cents tot"
proof -
  have "net legs + (- s) * cents tot = 0"
    using assms(1) by (rule fold_net) (auto dest: purchase_line_net[where s = s, OF mk])
  then show ?thesis by simp
qed

lemma deposit_fold_net:
  "try_fold (deposit_line doc) ([], ZERO) (doc_lines doc) = Inr (legs, tot) \<Longrightarrow> net legs + cents tot = 0"
  using fold_net[of "deposit_line doc" "doc_lines doc" legs tot 1] by (auto dest: deposit_line_net)

lemma adjustment_fold_net:
  assumes "try_fold (adjustment_line doc) [] ls = Inr legs"
  shows "net legs = 0"
  using assms
  by (rule try_fold_invariant)
    (auto simp: adjustment_line_def Let_def checked_neg_Inr split: if_splits option.splits)

lemma post_payment_net: "post_payment doc ctx = Inr legs \<Longrightarrow> net legs = 0"
  by (auto simp: post_payment_def Let_def checked_add_Inr is_zero_cents split: if_splits)

section \<open>The contract of a posting rule\<close>

locale leg_builder =
  fixes build :: "ledger_document \<Rightarrow> posting_context \<Rightarrow> leg list post_res"
  assumes legs_cancel: "build doc ctx = Inr legs \<Longrightarrow> net legs = 0"

interpretation invoice: leg_builder "post_invoice D" for D
  by unfold_locales (auto simp: post_invoice_def dest: revenue_legs_net)

interpretation sales_receipt: leg_builder "post_sales_receipt D" for D
  by unfold_locales (auto simp: post_sales_receipt_def Let_def dest: revenue_legs_net)

interpretation credit_memo: leg_builder "post_credit_memo D" for D
  by unfold_locales (auto simp: post_credit_memo_def dest: returns_legs_net)

interpretation refund_receipt: leg_builder "post_refund_receipt D" for D
  by unfold_locales (auto simp: post_refund_receipt_def Let_def dest: returns_legs_net)

interpretation payment: leg_builder post_payment
  by unfold_locales (rule post_payment_net)

interpretation bill: leg_builder post_bill
  by unfold_locales (auto simp: post_bill_def dest: purchase_fold_net[where s = 1])

interpretation bill_payment: leg_builder post_bill_payment
  by unfold_locales (auto simp: post_bill_payment_def Let_def)

interpretation vendor_credit: leg_builder post_vendor_credit
  by unfold_locales (auto simp: post_vendor_credit_def dest: purchase_fold_net[where s = "- 1"])

interpretation purchase: leg_builder post_purchase
  by unfold_locales (auto simp: post_purchase_def Let_def dest: purchase_fold_net[where s = 1])

interpretation deposit: leg_builder post_deposit
  by unfold_locales (auto simp: post_deposit_def Let_def dest: deposit_fold_net)

interpretation bank_line: leg_builder post_bank_line
  by unfold_locales (auto simp: post_bank_line_def Let_def split: if_splits)

interpretation settlement: leg_builder post_settlement
  by unfold_locales
    (auto simp: post_settlement_def Let_def checked_sub_Inr is_zero_cents split: if_splits option.splits)

interpretation raw_material_receipt: leg_builder "\<lambda>doc ctx. post_raw_material_receipt doc"
  by unfold_locales (auto simp: post_raw_material_receipt_def)

interpretation build: leg_builder "\<lambda>doc ctx. post_build doc"
  by unfold_locales
    (auto simp: post_build_def Let_def checked_sub_Inr checked_neg_Inr is_zero_cents split: if_splits)

interpretation inventory_adjustment: leg_builder "\<lambda>doc ctx. post_inventory_adjustment doc"
  by unfold_locales
    (auto simp: post_inventory_adjustment_def dest: adjustment_fold_net split: if_splits)

lemmas rules_cancel =
  invoice.legs_cancel sales_receipt.legs_cancel credit_memo.legs_cancel refund_receipt.legs_cancel
  payment.legs_cancel bill.legs_cancel bill_payment.legs_cancel vendor_credit.legs_cancel
  purchase.legs_cancel deposit.legs_cancel bank_line.legs_cancel settlement.legs_cancel
  raw_material_receipt.legs_cancel build.legs_cancel inventory_adjustment.legs_cancel

lemma post_legs_net:
  "post_legs D doc ctx = Inr legs \<Longrightarrow> doc_kind doc \<noteq> JournalEntry \<Longrightarrow> net legs = 0"
  by (auto simp: post_legs_def dest: rules_cancel split: doc_kind.splits)

section \<open>Merging and numbering\<close>

lemma flip_negative_facts:
  assumes "flip_negative leg = Inr l"
  shows "signed l = signed leg" "leg_account l = leg_account leg" "leg_class l = leg_class leg"
    "cents (leg_amount leg) \<noteq> 0 \<Longrightarrow> 0 < cents (leg_amount l)"
  using assms
  by (auto simp: flip_negative_def signed_def is_negative_cents checked_neg_Inr split: if_splits side.splits)

lemma absorb_facts:
  assumes "absorb existing leg = Inr l" and "same_key existing leg"
  shows "signed l = signed existing + signed leg" "same_key l x = same_key existing x"
    "same_key x l = same_key x existing" "leg_account l = leg_account existing"
    "leg_class l = leg_class existing"
    "cents (leg_amount l) = cents (leg_amount existing) + cents (leg_amount leg)"
  using assms
  by (auto simp: absorb_def same_key_def signed_def checked_add_Inr split: side.splits)

lemma merge_into_nets:
  "merge_into merged leg = Inr merged' \<Longrightarrow>
     net merged' = net merged + signed leg \<and>
     leg_net a merged' = leg_net a merged + (if leg_account leg = a then signed leg else 0)"
proof (induction merged arbitrary: merged')
  case (Cons e es)
  show ?case
  proof (cases "same_key e leg")
    case True
    with Cons.prems obtain l where l: "absorb e leg = Inr l" "merged' = l # es" by auto
    moreover have "leg_account e = leg_account leg" using True by (simp add: same_key_def)
    ultimately show ?thesis using absorb_facts[OF l(1) True] by simp
  next
    case False
    with Cons.prems obtain es' where "merge_into es leg = Inr es'" "merged' = e # es'" by auto
    with Cons.IH show ?thesis by simp
  qed
qed auto

lemma merge_into_positive:
  "merge_into merged leg = Inr merged' \<Longrightarrow> 0 < cents (leg_amount leg) \<Longrightarrow>
     list_all (\<lambda>l. 0 < cents (leg_amount l)) merged \<Longrightarrow> list_all (\<lambda>l. 0 < cents (leg_amount l)) merged'"
proof (induction merged arbitrary: merged')
  case (Cons e es)
  show ?case
  proof (cases "same_key e leg")
    case True
    with Cons.prems obtain l where "absorb e leg = Inr l" "merged' = l # es" by auto
    with absorb_facts(6)[OF _ True] Cons.prems show ?thesis by simp
  qed (use Cons in auto)
qed auto

lemma merge_into_accounts:
  "merge_into merged leg = Inr merged' \<Longrightarrow> P (leg_account leg) (leg_class leg) \<Longrightarrow>
     list_all (\<lambda>l. P (leg_account l) (leg_class l)) merged \<Longrightarrow>
     list_all (\<lambda>l. P (leg_account l) (leg_class l)) merged'"
proof (induction merged arbitrary: merged')
  case (Cons e es)
  show ?case
  proof (cases "same_key e leg")
    case True
    with Cons.prems obtain l where "absorb e leg = Inr l" "merged' = l # es" by auto
    with absorb_facts(4,5)[OF _ True] Cons.prems show ?thesis by simp
  qed (use Cons in auto)
qed auto

text \<open>No two merged legs share a key, so an entry has one line per key.\<close>

definition keys_distinct :: "leg list \<Rightarrow> bool" where
  "keys_distinct legs \<longleftrightarrow> sorted_wrt (\<lambda>x y. \<not> same_key x y) legs"

lemma merge_into_same_keys:
  "merge_into merged leg = Inr merged' \<Longrightarrow> l \<in> set merged' \<Longrightarrow>
     (\<exists>e \<in> set merged. \<forall>x. same_key x l = same_key x e) \<or> (\<forall>x. same_key x l = same_key x leg)"
proof (induction merged arbitrary: merged')
  case (Cons e es)
  show ?case
  proof (cases "same_key e leg")
    case True
    with Cons.prems obtain k where k: "absorb e leg = Inr k" "merged' = k # es" by auto
    with Cons.prems(2) absorb_facts(3)[OF k(1) True] show ?thesis by auto
  next
    case False
    with Cons.prems(1) obtain es' where es': "merge_into es leg = Inr es'" "merged' = e # es'" by auto
    show ?thesis
    proof (cases "l = e")
      case True
      then show ?thesis by auto
    next
      case False
      with Cons.prems(2) es' have "l \<in> set es'" by simp
      with Cons.IH[OF es'(1)] show ?thesis by fastforce
    qed
  qed
qed auto

lemma merge_into_distinct:
  "merge_into merged leg = Inr merged' \<Longrightarrow> keys_distinct merged \<Longrightarrow> keys_distinct merged'"
  unfolding keys_distinct_def
proof (induction merged arbitrary: merged')
  case (Cons e es)
  show ?case
  proof (cases "same_key e leg")
    case True
    with Cons.prems obtain k where "absorb e leg = Inr k" "merged' = k # es" by auto
    with absorb_facts(2)[OF _ True] Cons.prems(2) show ?thesis by simp
  next
    case False
    with Cons.prems obtain es' where es': "merge_into es leg = Inr es'" "merged' = e # es'" by auto
    have "\<not> same_key e l" if "l \<in> set es'" for l
      using merge_into_same_keys[OF es'(1) that] False Cons.prems(2) by auto
    with es' Cons show ?thesis by simp
  qed
qed auto

lemma merge_step_cases:
  assumes "merge_step merged leg = Inr merged'"
  obtains (zero) "cents (leg_amount leg) = 0" "merged' = merged"
  | (merged) l where "flip_negative leg = Inr l" "0 < cents (leg_amount l)" "merge_into merged l = Inr merged'"
  using assms that flip_negative_facts(4)[of leg]
  by (auto simp: merge_step_def is_zero_cents split: if_splits)

lemma merge_step_nets:
  assumes "merge_step merged leg = Inr merged'"
  shows "net merged' = net merged + signed leg"
    "leg_net a merged' = leg_net a merged + (if leg_account leg = a then signed leg else 0)"
proof -
  have "net merged' = net merged + signed leg \<and>
    leg_net a merged' = leg_net a merged + (if leg_account leg = a then signed leg else 0)"
    using assms
  proof (cases rule: merge_step_cases)
    case zero
    then show ?thesis by (simp add: signed_def split: side.split)
  next
    case (merged l)
    with merge_into_nets[OF merged(3)] flip_negative_facts[OF merged(1)] show ?thesis by simp
  qed
  then show "net merged' = net merged + signed leg"
    "leg_net a merged' = leg_net a merged + (if leg_account leg = a then signed leg else 0)"
    by simp_all
qed

definition merged_ok :: "(account_id \<Rightarrow> class_id option \<Rightarrow> bool) \<Rightarrow> leg list \<Rightarrow> bool" where
  "merged_ok P legs \<longleftrightarrow> list_all (\<lambda>l. 0 < cents (leg_amount l)) legs \<and> keys_distinct legs \<and>
     list_all (\<lambda>l. P (leg_account l) (leg_class l)) legs"

lemma merge_step_ok:
  assumes "merge_step merged leg = Inr merged'" "merged_ok P merged" "P (leg_account leg) (leg_class leg)"
  shows "merged_ok P merged'"
  using assms(1)
proof (cases rule: merge_step_cases)
  case zero
  with assms show ?thesis by simp
next
  case (merged l)
  with assms flip_negative_facts(2,3)[OF merged(1)] show ?thesis
    by (simp add: merged_ok_def merge_into_positive merge_into_distinct merge_into_accounts[where P = P])
qed

lemma merge_fold:
  assumes "try_fold merge_step [] legs = Inr merged"
  shows "net merged = net legs" "leg_net a merged = leg_net a legs"
    "(\<And>l. l \<in> set legs \<Longrightarrow> P (leg_account l) (leg_class l)) \<Longrightarrow> merged_ok P merged"
proof -
  show "net merged = net legs"
    using try_fold_weighted[where v = net and w = signed, OF assms] merge_step_nets(1)
    by (simp add: net_def)
  have "(\<Sum>l\<leftarrow>legs. if leg_account l = a then signed l else 0) = leg_net a legs"
    by (induction legs) simp_all
  with try_fold_weighted[where v = "leg_net a" and w = "\<lambda>l. if leg_account l = a then signed l else 0", OF assms]
    merge_step_nets(2) show "leg_net a merged = leg_net a legs" by simp
  assume P: "\<And>l. l \<in> set legs \<Longrightarrow> P (leg_account l) (leg_class l)"
  show "merged_ok P merged"
    using assms
  proof (rule try_fold_invariant)
    show "merged_ok P []" by (simp add: merged_ok_def keys_distinct_def)
  qed (use P merge_step_ok in blast)
qed

lemma leg_line_sel [simp]:
  "jl_line_no (leg_line n l) = n" "jl_account (leg_line n l) = leg_account l"
  "jl_class (leg_line n l) = leg_class l" "jl_entity (leg_line n l) = leg_entity l"
  "jl_is_taxable (leg_line n l) = leg_is_taxable l"
  "line_net (leg_line n l) = signed l"
  by (simp_all add: leg_line_def Let_def with_tax_def debit_line_def credit_line_def line_net_def
      signed_def split: side.split)

lemma leg_line_one_sided: "0 < cents (leg_amount l) \<Longrightarrow> one_sided (leg_line n l)"
  by (simp add: leg_line_def Let_def with_tax_def debit_line_def credit_line_def one_sided_def
      split: side.split)

lemma number_legs_eq:
  "list_all (\<lambda>l. 0 < cents (leg_amount l)) legs \<Longrightarrow>
     number_legs n legs = map (\<lambda>(i, l). leg_line (n + int i) l) (zip [0..<length legs] legs)"
proof (induction legs arbitrary: n)
  case (Cons l ls)
  have "zip [0..<length (l # ls)] (l # ls) = (0, l) # map (\<lambda>(i, x). (Suc i, x)) (zip [0..<length ls] ls)"
    by (simp add: upt_conv_Cons zip_map1 del: upt_Suc flip: map_Suc_upt)
  with Cons show ?case
    by (auto simp: is_zero_cents case_prod_unfold add.assoc simp del: upt_Suc)
qed simp

lemma number_legs_nets:
  "account_net a (number_legs n legs) = leg_net a legs"
  "(\<Sum>line\<leftarrow>number_legs n legs. line_net line) = net legs"
proof -
  have "signed l = 0" if "cents (leg_amount l) = 0" for l
    using that by (simp add: signed_def split: side.split)
  then show "account_net a (number_legs n legs) = leg_net a legs"
    "(\<Sum>line\<leftarrow>number_legs n legs. line_net line) = net legs"
    by (induction legs arbitrary: n) (auto simp: is_zero_cents)
qed

lemma number_legs_set:
  "line \<in> set (number_legs n legs) \<Longrightarrow> \<exists>l \<in> set legs. jl_account line = leg_account l \<and>
     jl_class line = leg_class l"
  by (induction legs arbitrary: n) (auto split: if_splits)

lemma entry_net: "debit_cents e - credit_cents e = (\<Sum>line\<leftarrow>je_lines e. line_net line)"
  by (simp add: debit_cents_def credit_cents_def line_net_def sum_list_subtractf)

text \<open>What merging promises, in one statement over the lines of the entry.\<close>

definition lines_numbered :: "journal_line list \<Rightarrow> bool" where
  "lines_numbered ls \<longleftrightarrow> map jl_line_no ls = map int [1..<Suc (length ls)]"

definition line_key :: "journal_line \<Rightarrow> account_id \<times> class_id option \<times> contact_ref option \<times> bool \<times> bool" where
  "line_key l = (jl_account l, jl_class l, jl_entity l, 0 < cents (jl_debit l), jl_is_taxable l)"

lemma line_key_leg_line:
  "0 < cents (leg_amount k) \<Longrightarrow> 0 < cents (leg_amount l) \<Longrightarrow>
     line_key (leg_line n k) = line_key (leg_line m l) \<longleftrightarrow> same_key k l"
  by (cases "leg_side k"; cases "leg_side l")
    (auto simp: line_key_def leg_line_def Let_def with_tax_def debit_line_def credit_line_def same_key_def)

lemma sorted_wrt_imp_distinct_keys:
  "list_all (\<lambda>l. 0 < cents (leg_amount l)) legs \<Longrightarrow> sorted_wrt (\<lambda>x y. \<not> same_key x y) legs \<Longrightarrow>
     distinct (map line_key (number_legs n legs))"
proof (induction legs arbitrary: n)
  case (Cons k ks)
  have "line_key (leg_line n k) \<notin> set (map line_key (number_legs (n + 1) ks))"
  proof
    assume "line_key (leg_line n k) \<in> set (map line_key (number_legs (n + 1) ks))"
    then obtain l m where "l \<in> set ks" "line_key (leg_line n k) = line_key (leg_line m l)"
      using Cons.prems(1) by (auto simp: number_legs_eq dest: in_set_zipE)
    with Cons.prems show False
      using line_key_leg_line[of k l n m] by (auto simp: list_all_iff)
  qed
  with Cons show ?case by (simp add: is_zero_cents)
qed simp

lemma merge_legs_facts:
  assumes "merge_legs legs = Inr lines"
  shows "list_all one_sided lines" "lines_numbered lines" "distinct (map line_key lines)"
    "account_net a lines = leg_net a legs" "(\<Sum>line\<leftarrow>lines. line_net line) = net legs"
    "(\<And>l. l \<in> set legs \<Longrightarrow> P (leg_account l) (leg_class l)) \<Longrightarrow>
      list_all (\<lambda>line. P (jl_account line) (jl_class line)) lines"
proof -
  from assms obtain merged where m: "try_fold merge_step [] legs = Inr merged" "lines = number_legs 1 merged"
    by (auto simp: merge_legs_def)
  have ok: "list_all (\<lambda>l. 0 < cents (leg_amount l)) merged" "keys_distinct merged"
    using merge_fold(3)[OF m(1), of "\<lambda>_ _. True"] by (simp_all add: merged_ok_def)
  show "list_all one_sided lines"
    using ok(1) by (auto simp: m(2) number_legs_eq list_all_iff leg_line_one_sided dest!: set_zip_rightD)
  show "lines_numbered lines"
    unfolding lines_numbered_def m(2) number_legs_eq[OF ok(1)]
    by (rule nth_equalityI) (simp_all del: upt_Suc)
  show "distinct (map line_key lines)"
    using sorted_wrt_imp_distinct_keys ok by (simp add: m(2) keys_distinct_def)
  show "account_net a lines = leg_net a legs" "(\<Sum>line\<leftarrow>lines. line_net line) = net legs"
    using merge_fold(1,2)[OF m(1)] by (simp_all add: m(2) number_legs_nets)
  assume P: "\<And>l. l \<in> set legs \<Longrightarrow> P (leg_account l) (leg_class l)"
  have "list_all (\<lambda>l. P (leg_account l) (leg_class l)) merged"
    using merge_fold(3)[where P = P, OF m(1)] P by (simp add: merged_ok_def)
  then show "list_all (\<lambda>line. P (jl_account line) (jl_class line)) lines"
    by (auto simp: list_all_iff m(2) dest!: number_legs_set)
qed

section \<open>The entry a document posts\<close>

lemma swap_sides_sel [simp]:
  "jl_account (swap_sides l) = jl_account l" "jl_class (swap_sides l) = jl_class l"
  "jl_line_no (swap_sides l) = jl_line_no l" "line_net (swap_sides l) = - line_net l"
  "one_sided (swap_sides l) = one_sided l" "jl_debit (swap_sides l) = jl_credit l"
  "jl_credit (swap_sides l) = jl_debit l"
  by (auto simp: swap_sides_def line_net_def one_sided_def)

lemma account_net_swap [simp]: "account_net a (map swap_sides ls) = - account_net a ls"
  by (induction ls) simp_all

lemma apply_void_lines [simp]:
  "je_lines (apply_void e v) = (if v then map swap_sides (je_lines e) else je_lines e)"
  by (simp add: apply_void_def)

lemma apply_void_well_balanced [simp]: "well_balanced (apply_void e v) = well_balanced e"
  by (auto simp: well_balanced_def debit_cents_def credit_cents_def list_all_iff o_def)

lemma apply_void_in_range [simp]:
  "well_balanced e \<Longrightarrow> in_i64 (debit_cents (apply_void e v)) = in_i64 (debit_cents e)"
  by (auto simp: well_balanced_def debit_cents_def credit_cents_def o_def)

definition entry_of :: "ledger_document \<Rightarrow> int \<Rightarrow> journal_line list \<Rightarrow> journal_entry" where
  "entry_of doc version lines =
     \<lparr>je_entry_date = doc_txn_date doc, je_memo = doc_memo doc, je_source_type = doc_kind doc,
      je_source_id = doc_document_id doc, je_source_version = version, je_reversal_of = None,
      je_is_flagged = (doc_kind doc = JournalEntry), je_lines = lines\<rparr>"

lemma entry_of_lines [simp]: "je_lines (entry_of doc version lines) = lines"
  by (simp add: entry_of_def)

lemma finalize_entry_of:
  "finalize doc version legs (doc_kind doc = JournalEntry) =
     and_then (merge_legs legs) (\<lambda>lines. Inr (entry_of doc version lines))"
  by (simp add: finalize_def entry_of_def)

lemma post_Entry_iff:
  "post dbg D doc version ctx = Inr (Entry e) \<longleftrightarrow> posts (doc_kind doc) \<and>
     (\<exists>legs lines. post_legs D doc ctx = Inr legs \<and> merge_legs legs = Inr lines \<and> lines \<noteq> [] \<and>
        e = apply_void (entry_of doc version lines) (doc_is_voided doc) \<and>
        (doc_kind doc = JournalEntry \<or> dbg \<longrightarrow> is_balanced (entry_of doc version lines)))"
proof (cases "post_legs D doc ctx")
  case (Inr legs)
  then show ?thesis
    by (cases "merge_legs legs") (auto simp: post_def finalize_entry_of)
qed (simp add: post_def)

lemma entry_well_balanced:
  assumes "post_legs D doc ctx = Inr legs" "merge_legs legs = Inr (je_lines entry)" "je_lines entry \<noteq> []"
    and "doc_kind doc = JournalEntry \<Longrightarrow> is_balanced entry"
  shows "well_balanced entry"
proof (cases "doc_kind doc = JournalEntry")
  case True
  with assms show ?thesis by (simp add: is_balanced_iff)
next
  case False
  with assms(1) have "net legs = 0" by (rule post_legs_net)
  with merge_legs_facts(5)[OF assms(2)] have "debit_cents entry = credit_cents entry"
    using entry_net[of entry] by simp
  with merge_legs_facts(1)[OF assms(2)] assms(3) show ?thesis by (simp add: well_balanced_def)
qed

lemma post_entry_facts:
  assumes "post dbg D doc version ctx = Inr (Entry e)"
  shows "well_balanced e" "lines_numbered (je_lines e)"
    "doc_kind doc = JournalEntry \<or> dbg \<Longrightarrow> in_i64 (debit_cents e)"
proof -
  from assms obtain legs lines where p:
    "post_legs D doc ctx = Inr legs" "merge_legs legs = Inr lines" "lines \<noteq> []"
    "e = apply_void (entry_of doc version lines) (doc_is_voided doc)"
    "doc_kind doc = JournalEntry \<or> dbg \<longrightarrow> is_balanced (entry_of doc version lines)"
    by (auto simp: post_Entry_iff)
  have wb: "well_balanced (entry_of doc version lines)"
    using p by (intro entry_well_balanced[OF p(1)]) simp_all
  then show "well_balanced e" using p by simp
  show "lines_numbered (je_lines e)"
    using merge_legs_facts(2)[OF p(2)] p(4) by (simp add: lines_numbered_def o_def del: upt_Suc)
  show "in_i64 (debit_cents e)" if "doc_kind doc = JournalEntry \<or> dbg"
    using p(4,5) that wb by (auto simp: is_balanced_iff)
qed

section \<open>Properties\<close>

text \<open>
  C1. Every entry \<open>post\<close> returns, for every document kind, voided or not, is balanced over the
  integers: at least one line, each with exactly one positive side, debits equal to
  credits, and lines numbered 1, 2, ... in order.
\<close>

theorem post_entry_balanced:
  assumes "post dbg D doc version ctx = Inr (Entry e)"
  shows "list_all one_sided (je_lines e) \<and> je_lines e \<noteq> [] \<and> debit_cents e = credit_cents e \<and>
    map jl_line_no (je_lines e) = map int [1..<Suc (length (je_lines e))]"
  using post_entry_facts(1,2)[OF assms] by (simp add: well_balanced_def lines_numbered_def)

subsection \<open>Concrete documents\<close>

text \<open>The documents the unit tests of \<open>post.rs\<close> start from, for the instances below.\<close>

definition plain_line :: "int \<Rightarrow> line_kind \<Rightarrow> int \<Rightarrow> doc_line" where
  "plain_line no kind amount =
     \<lparr>dl_line_no = no, dl_kind = kind, dl_amount = money_of amount, dl_class = None,
      dl_item_id = None, dl_account = None, dl_is_taxable = False, dl_qty = None,
      dl_unit_cost = None, dl_description = None, dl_posting = None, dl_entity = None\<rparr>"

definition account_doc_line :: "int \<Rightarrow> line_kind \<Rightarrow> string \<Rightarrow> int \<Rightarrow> doc_line" where
  "account_doc_line no kind number amount = (plain_line no kind amount)\<lparr>dl_account := Some (acct number)\<rparr>"

definition minimal_doc :: "doc_kind \<Rightarrow> doc_line list \<Rightarrow> ledger_document" where
  "minimal_doc kind ls =
     \<lparr>doc_document_id = ''doc-1'', doc_kind = kind, doc_number = None, doc_txn_date = Ymd 2026 9 12,
      doc_due_date = None, doc_contact = None, doc_header_class = None, doc_lines = ls, doc_tax = None,
      doc_deposit_to = None, doc_pay_from = None, doc_applications = [], doc_unapplied = ZERO,
      doc_is_voided = False, doc_source_ref = None, doc_memo = None\<rparr>"

definition default_context :: posting_context where
  "default_context =
     \<lparr>ctx_items = Map.empty, ctx_customers = Map.empty,
      ctx_config = \<lparr>cfg_sales_tax_rate = dec_new 6625 5,
        cfg_default_deposit_account = AccountId UNDEPOSITED_FUNDS,
        cfg_default_bank_account = AccountId CHECKING,
        cfg_merchant_fee_account = AccountId MERCHANT_FEES\<rparr>\<rparr>"

lemmas sample_defs = plain_line_def account_doc_line_def minimal_doc_def default_context_def

lemmas post_eval =
  post_def post_legs_def posts_def finalize_def merge_legs_def merge_step_def flip_negative_def
  same_key_def absorb_def acct_def chart_numbers money_try_def Let_def leg_line_def with_tax_def
  debit_line_def credit_line_def debit_def credit_def apply_void_def
  is_zero_cents is_negative_cents checked_eqs in_i64_def

lemmas rule_evals =
  post_raw_material_receipt_def named_account_amount_def is_account_named_def post_journal_entry_def
  journal_leg_def class_for_def requires_class_def post_build_def post_payment_def subtotal_def
  checked_sum_def

definition receipt_doc :: ledger_document where
  "receipt_doc = minimal_doc RawMaterialReceipt
     [account_doc_line 1 Account INVENTORY_RAW 47760,
      account_doc_line 2 Account INVENTORY_RECEIVED_NOT_BILLED 47760]"

definition receipt_entry :: "int \<Rightarrow> journal_entry" where
  "receipt_entry version = entry_of receipt_doc version
     [debit_line 1 (acct INVENTORY_RAW) (money_of 47760),
      credit_line 2 (acct INVENTORY_RECEIVED_NOT_BILLED) (money_of 47760)]"

lemma receipt_posts: "post dbg reference_ops receipt_doc v default_context = Inr (Entry (receipt_entry v))"
proof -
  have "post False reference_ops receipt_doc v default_context = Inr (Entry (receipt_entry v))"
    by (simp add: receipt_doc_def receipt_entry_def sample_defs post_eval rule_evals entry_of_def)
  moreover have "is_balanced (receipt_entry v)"
    by (simp add: is_balanced_iff receipt_entry_def entry_of_def well_balanced_def one_sided_def
        debit_cents_def credit_cents_def debit_line_def credit_line_def in_i64_def)
  ultimately show ?thesis by (auto simp: post_Entry_iff receipt_entry_def receipt_doc_def sample_defs apply_void_def)
qed

theorem post_entry_balanced_witness:
  "list_all one_sided (je_lines (receipt_entry 1)) \<and> je_lines (receipt_entry 1) \<noteq> [] \<and>
   debit_cents (receipt_entry 1) = credit_cents (receipt_entry 1) \<and>
   map jl_line_no (je_lines (receipt_entry 1)) = map int [1..<Suc (length (je_lines (receipt_entry 1)))]"
  by (rule post_entry_balanced[OF receipt_posts[where dbg = False]])

end
