(* ===== verification/Bank.thy ===== *)
theory Bank
  imports Store_Desk Posting_Balance
begin

text \<open>
  \<open>apps/ledger/src/bank.rs\<close>: importing a bank statement, matching its lines to posted journal
  lines, proposing an account for the rest, confirming a proposal and closing the statement.
  These functions call the store operation by operation, with no transaction around them, so
  an error leaves what was already written. The file parsers are not part of it.
\<close>

section \<open>Outside code\<close>

text \<open>
  What the module takes from elsewhere: the decimal library, date arithmetic of \<open>chrono\<close>, the
  two serialisations, and whether \<open>debug_assert!\<close> is compiled in.
\<close>

record bank_env =
  be_debug :: bool
  be_dec :: dec_ops
  be_add_days :: "naive_date \<Rightarrow> int \<Rightarrow> naive_date"
  be_days_between :: "naive_date \<Rightarrow> naive_date \<Rightarrow> int"
  be_rfc3339 :: "timestamp \<Rightarrow> string"
  be_to_json :: "ledger_document \<Rightarrow> string + string"

text \<open>A ledger operation that can also panic.\<close>

type_synonym 'a desk = "(ledger_error failure, 'a) run"

abbreviation ledger :: "'a op \<Rightarrow> 'a desk" where
  "ledger \<equiv> lift_run Err"

definition read_only :: "(db \<Rightarrow> ledger_error + 'a) \<Rightarrow> 'a desk" where
  "read_only q = reading (\<lambda>db. lift_err (q db))"

definition lift_post :: "'a post_res \<Rightarrow> (ledger_error, 'a) res" where
  "lift_post r = map_err (\<lambda>f. case f of Err e \<Rightarrow> Err (E_Post e) | Panic \<Rightarrow> Panic) r"

section \<open>Statements and reports\<close>

record parsed_line =
  pl_posted_on :: naive_date
  pl_amount :: money
  pl_description :: string
  pl_external_id :: "string option"

record new_statement =
  ns_period_start :: naive_date
  ns_period_end :: naive_date
  ns_opening_balance :: money
  ns_closing_balance :: money
  ns_lines :: "parsed_line list"

record statement_import_report =
  si_statement_id :: string
  si_inserted :: nat
  si_skipped_duplicate :: nat

record match_rules =
  mr_date_window_days :: int
  mr_max_fee_ratio :: decimal
  mr_fee_class :: class_id

definition default_match_rules :: match_rules where
  "default_match_rules =
     \<lparr>mr_date_window_days = 3, mr_max_fee_ratio = Decimal 4 2, mr_fee_class = ClassId ''drop''\<rparr>"

datatype proposal_kind = ProposeExpense | ProposeDeposit

record proposal =
  pr_line_id :: string
  pr_kind :: proposal_kind
  pr_suggested_account :: account_id
  pr_reason :: string

record match_report =
  mp_exact :: nat
  mp_settlement :: nat
  mp_settlement_fee :: nat
  mp_proposals :: "proposal list"

definition empty_match_report :: match_report where
  "empty_match_report = \<lparr>mp_exact = 0, mp_settlement = 0, mp_settlement_fee = 0, mp_proposals = []\<rparr>"

definition SETTLEMENT_SOURCE_KINDS :: "string list" where
  "SETTLEMENT_SOURCE_KINDS = [''settlement'', ''deposit'']"

definition EXACT_MATCH_SOURCE_KINDS :: "string list" where
  "EXACT_MATCH_SOURCE_KINDS = [''payment'', ''deposit'', ''bill_payment'', ''purchase'']"

section \<open>Import\<close>

text \<open>The ids drawn for the lines are paired with them.\<close>

definition import_line ::
  "string \<Rightarrow> account_id \<Rightarrow> string \<Rightarrow> nat \<times> nat \<Rightarrow> string \<times> parsed_line \<Rightarrow> (nat \<times> nat) desk" where
  "import_line company account statement_id counts item =
     (case (counts, item) of ((inserted, skipped), (line_id, parsed)) \<Rightarrow>
        and_run (ledger (insert_bank_line_if_new company line_id statement_id account (pl_posted_on parsed)
            (pl_amount parsed) (pl_description parsed) (pl_external_id parsed))) (\<lambda>was_inserted.
        ret (if was_inserted then (inserted + 1, skipped) else (inserted, skipped + 1))))"

definition import_statement ::
  "string \<Rightarrow> account_id \<Rightarrow> new_statement \<Rightarrow> string \<Rightarrow> string list \<Rightarrow> timestamp \<Rightarrow> statement_import_report desk" where
  "import_statement company account statement statement_id line_ids now =
     and_run (ledger (create_bank_statement company statement_id account (ns_period_start statement)
        (ns_period_end statement) (ns_opening_balance statement) (ns_closing_balance statement) now)) (\<lambda>_.
     and_run (run_fold (import_line company account statement_id) (0, 0) (zip line_ids (ns_lines statement)))
       (\<lambda>(inserted, skipped).
     ret \<lparr>si_statement_id = statement_id, si_inserted = inserted, si_skipped_duplicate = skipped\<rparr>))"

section \<open>Keyword table\<close>

definition to_ascii_uppercase :: "string \<Rightarrow> string" where
  "to_ascii_uppercase s =
     map (\<lambda>c. if 97 \<le> (of_char c :: nat) \<and> of_char c \<le> (122 :: nat) then char_of ((of_char c :: nat) - 32) else c) s"

fun contains :: "string \<Rightarrow> string \<Rightarrow> bool" where
  "contains [] pat = starts_with pat []"
| "contains (c # cs) pat = (starts_with pat (c # cs) \<or> contains cs pat)"

definition KEYWORDS :: "(string \<times> string \<times> string) list" where
  "KEYWORDS =
     [(''UPS'', OTHER_OPERATING, ''unknown vendor''),
      (''FEDEX'', OTHER_OPERATING, ''unknown vendor''),
      (''INTUIT'', ADVERTISING_CHANNEL_FEES, ''channel/software fee''),
      (''SHOPIFY'', ADVERTISING_CHANNEL_FEES, ''channel/software fee''),
      (''AMAZON'', ADVERTISING_CHANNEL_FEES, ''channel/software fee''),
      (''AUTHNET'', AUTHNET_CLEARING, ''possible settlement, unresolved (W28)''),
      (''AUTHORIZE'', AUTHNET_CLEARING, ''possible settlement, unresolved (W28)''),
      (''SUREPAYROLL'', PAYROLL_LIABILITIES, ''payroll liability'')]"

definition suggest_account :: "string \<Rightarrow> account_id \<times> string" where
  "suggest_account description =
     (let upper = to_ascii_uppercase description in
      case find_map (\<lambda>(keyword, _, _). contains upper keyword) KEYWORDS of
        Some (_, account, reason) \<Rightarrow> (AccountId account, reason)
      | None \<Rightarrow>
          if contains upper ''CHASE'' \<and> contains upper ''PAYMENT''
          then (AccountId CREDIT_CARD, ''credit card payment'')
          else (AccountId OTHER_OPERATING, ''unknown vendor''))"

section \<open>Matching\<close>

definition is_resolved :: "string option \<Rightarrow> bool" where
  "is_resolved match_kind \<longleftrightarrow>
     match_kind = Some ''exact'' \<or> match_kind = Some ''settlement'' \<or> match_kind = Some ''manual''"

text \<open>\<open>(gross - net) / gross\<close> with \<open>paid\<close> for the net; the division panics where the decimal has no value.\<close>

definition fee_ratio :: "dec_ops \<Rightarrow> money \<Rightarrow> money \<Rightarrow> (ledger_error, decimal option) res" where
  "fee_ratio D gross paid =
     (if is_zero gross then Inr None
      else case checked_sub gross paid of
          Inl _ \<Rightarrow> Inr None
        | Inr fee \<Rightarrow>
            if is_negative fee \<or> is_zero fee then Inr None
            else case d_div D (Decimal (sint (minor fee)) 2) (Decimal (sint (minor gross)) 2) of
                None \<Rightarrow> Inl Panic
              | Some ratio \<Rightarrow> Inr (Some ratio))"

definition bank_leg_of :: "bank_line_row \<Rightarrow> journal_entry \<Rightarrow> journal_line option" where
  "bank_leg_of line e =
     find_map (\<lambda>l. jl_account l = bl_account_id line \<and> \<not> is_zero (jl_debit l)) (je_lines e)"

fun try_settlements :: "string \<Rightarrow> bank_line_row \<Rightarrow> timestamp \<Rightarrow> string list \<Rightarrow> bool desk" where
  "try_settlements company line now [] = ret False"
| "try_settlements company line now (entry_id # entries) =
     and_run (read_only (\<lambda>db. entry db company entry_id)) (\<lambda>(e, _).
     case bank_leg_of line e of
       None \<Rightarrow> try_settlements company line now entries
     | Some bank_leg \<Rightarrow>
         and_run (read_only (\<lambda>db. Inr (is_line_cleared db company entry_id (jl_line_no bank_leg)))) (\<lambda>cleared.
         if cleared then try_settlements company line now entries
         else
           and_run (ledger (clear_journal_line company entry_id (jl_line_no bank_leg) now)) (\<lambda>_.
           and_run (ledger (set_bank_line_match company (bl_line_id line) ''settlement'' (Some entry_id)
               (Some (jl_line_no bank_leg)) now)) (\<lambda>_.
           ret True))))"

definition try_settlement_match ::
  "string \<Rightarrow> bank_line_row \<Rightarrow> money \<Rightarrow> naive_date \<Rightarrow> naive_date \<Rightarrow> timestamp \<Rightarrow> bool desk" where
  "try_settlement_match company line amount lo hi now =
     and_run (read_only (\<lambda>db. entries_with_credit_sum db company (acct AUTHNET_CLEARING) amount
        SETTLEMENT_SOURCE_KINDS lo hi)) (\<lambda>entries.
     try_settlements company line now entries)"

text \<open>The correcting entry for a processing fee.\<close>

definition fee_document :: "account_id \<Rightarrow> money \<Rightarrow> class_id \<Rightarrow> naive_date \<Rightarrow> string \<Rightarrow> ledger_document" where
  "fee_document bank_account amount fee_class posted_on settlement_entry_id =
     \<lparr>doc_document_id = ''authnet-fee:'' @ settlement_entry_id, doc_kind = BankLine, doc_number = None,
      doc_txn_date = posted_on, doc_due_date = None, doc_contact = None, doc_header_class = None,
      doc_lines = [\<lparr>dl_line_no = 1, dl_kind = Account, dl_amount = amount, dl_class = Some fee_class,
        dl_item_id = None, dl_account = Some (acct MERCHANT_FEES), dl_is_taxable = False, dl_qty = None,
        dl_unit_cost = None,
        dl_description = Some (''Authorize.net processing fee, settlement '' @ settlement_entry_id),
        dl_posting = None, dl_entity = None\<rparr>],
      doc_tax = None, doc_deposit_to = None, doc_pay_from = Some bank_account, doc_applications = [],
      doc_unapplied = ZERO, doc_is_voided = False, doc_source_ref = None,
      doc_memo = Some (''Authorize.net processing fee for settlement '' @ settlement_entry_id)\<rparr>"

definition desk_command :: "bank_env \<Rightarrow> string \<Rightarrow> timestamp \<Rightarrow> command_meta" where
  "desk_command E kind now = \<lparr>cm_actor_id = ''dan'', cm_kind = kind, cm_hlc = be_rfc3339 E now\<rparr>"

text \<open>\<open>post::post\<close> on the default context; \<open>NonPosting\<close> is \<open>unreachable!\<close>.\<close>

definition posted_entry_of :: "bank_env \<Rightarrow> ledger_document \<Rightarrow> int \<Rightarrow> journal_entry desk" where
  "posted_entry_of E doc version =
     (case lift_post (post (be_debug E) (be_dec E) doc version default_context) of
        Inl f \<Rightarrow> fail f
      | Inr (Entry e) \<Rightarrow> ret e
      | Inr NonPosting \<Rightarrow> fail Panic)"

definition post_settlement_fee_adjustment ::
  "bank_env \<Rightarrow> string \<Rightarrow> account_id \<Rightarrow> money \<Rightarrow> class_id \<Rightarrow> naive_date \<Rightarrow> string \<Rightarrow> string \<times> string \<Rightarrow> timestamp \<Rightarrow>
   string desk" where
  "post_settlement_fee_adjustment E company bank_account fee fee_class posted_on settlement_entry_id fresh now =
     (case map_err (\<lambda>e. Err (E_Money e)) (checked_neg fee) of
        Inl f \<Rightarrow> fail f
      | Inr amount \<Rightarrow>
          let doc = fee_document bank_account amount fee_class posted_on settlement_entry_id in
          and_run (ledger (save_document (be_to_json E) company doc
             (desk_command E ''authnet_fee_adjustment'' now) (fst fresh) now)) (\<lambda>version.
          and_run (posted_entry_of E doc (vi_version version)) (\<lambda>e.
          ledger (post_entry company e (snd fresh) now))))"

fun try_fee_settlements ::
  "bank_env \<Rightarrow> string \<Rightarrow> bank_line_row \<Rightarrow> money \<Rightarrow> match_rules \<Rightarrow> string \<times> string \<Rightarrow> timestamp \<Rightarrow>
   (string \<times> money) list \<Rightarrow> bool desk" where
  "try_fee_settlements E company line amount rules fresh now [] = ret False"
| "try_fee_settlements E company line amount rules fresh now ((entry_id, gross) # candidates) =
     and_run (read_only (\<lambda>db. entry db company entry_id)) (\<lambda>(e, _).
     case bank_leg_of line e of
       None \<Rightarrow> try_fee_settlements E company line amount rules fresh now candidates
     | Some bank_leg \<Rightarrow>
         and_run (read_only (\<lambda>db. Inr (is_line_cleared db company entry_id (jl_line_no bank_leg)))) (\<lambda>cleared.
         if cleared then try_fee_settlements E company line amount rules fresh now candidates
         else
           and_run (read_only (\<lambda>db. ledger_money (checked_sub gross amount))) (\<lambda>fee.
           and_run (ledger (clear_journal_line company entry_id (jl_line_no bank_leg) now)) (\<lambda>_.
           and_run (ledger (set_bank_line_match company (bl_line_id line) ''settlement'' (Some entry_id)
               (Some (jl_line_no bank_leg)) now)) (\<lambda>_.
           and_run (post_settlement_fee_adjustment E company (bl_account_id line) fee (mr_fee_class rules)
               (bl_posted_on line) entry_id fresh now) (\<lambda>_.
           ret True))))))"

text \<open>\<open>candidates.retain\<close>: those whose fee ratio is within the rule.\<close>

definition plausible_fees ::
  "dec_ops \<Rightarrow> money \<Rightarrow> decimal \<Rightarrow> (string \<times> money) list \<Rightarrow> (ledger_error, (string \<times> money) list) res" where
  "plausible_fees D amount max_ratio candidates =
     and_then (try_map (\<lambda>(i, gross). and_then (fee_ratio D gross amount) (\<lambda>ratio. Inr ((i, gross), ratio))) candidates)
       (\<lambda>rated. Inr (map fst (filter (\<lambda>(_, ratio).
          case ratio of None \<Rightarrow> False | Some r \<Rightarrow> dec_val r \<le> dec_val max_ratio) rated)))"

definition try_settlement_fee_match ::
  "bank_env \<Rightarrow> string \<Rightarrow> bank_line_row \<Rightarrow> money \<Rightarrow> match_rules \<Rightarrow> naive_date \<Rightarrow> naive_date \<Rightarrow> string \<times> string \<Rightarrow>
   timestamp \<Rightarrow> bool desk" where
  "try_settlement_fee_match E company line amount rules lo hi fresh now =
     (if dec_val (mr_max_fee_ratio rules) \<le> 0 then ret False
      else
        and_run (read_only (\<lambda>db. entries_with_credit_sum_at_least db company (acct AUTHNET_CLEARING) amount
           SETTLEMENT_SOURCE_KINDS lo hi)) (\<lambda>candidates.
        and_run (reading (\<lambda>db. plausible_fees (be_dec E) amount (mr_max_fee_ratio rules) candidates)) (\<lambda>candidates.
        try_fee_settlements E company line amount rules fresh now candidates)))"

definition propose ::
  "string \<Rightarrow> bank_line_row \<Rightarrow> bool \<Rightarrow> timestamp \<Rightarrow> match_report \<Rightarrow> match_report desk" where
  "propose company line is_money_in now report =
     (case suggest_account (bl_description line) of (suggested_account, reason) \<Rightarrow>
        and_run (ledger (set_bank_line_match company (bl_line_id line) ''proposed'' None None now)) (\<lambda>_.
        ret (report\<lparr>mp_proposals := mp_proposals report @
          [\<lparr>pr_line_id = bl_line_id line, pr_kind = (if is_money_in then ProposeDeposit else ProposeExpense),
            pr_suggested_account = suggested_account, pr_reason = reason\<rparr>]\<rparr>)))"

definition abs_amount :: "bank_line_row \<Rightarrow> (ledger_error, money) res" where
  "abs_amount line =
     (if \<not> is_negative (bl_amount line) then Inr (bl_amount line)
      else lift_err (ledger_money (checked_neg (bl_amount line))))"

definition nearest ::
  "bank_env \<Rightarrow> naive_date \<Rightarrow> (string \<times> int \<times> naive_date) list \<Rightarrow> (string \<times> int \<times> naive_date) list" where
  "nearest E posted_on = sort_key (\<lambda>(_, _, date). \<bar>be_days_between E date posted_on\<bar>)"

definition match_one_line ::
  "bank_env \<Rightarrow> string \<Rightarrow> match_rules \<Rightarrow> (string \<Rightarrow> string \<times> string) \<Rightarrow> timestamp \<Rightarrow> match_report \<Rightarrow> bank_line_row \<Rightarrow>
   match_report desk" where
  "match_one_line E company rules fresh now report line =
     (let lo = be_add_days E (bl_posted_on line) (- mr_date_window_days rules);
          hi = be_add_days E (bl_posted_on line) (mr_date_window_days rules);
          is_money_in = \<not> is_negative (bl_amount line);
          s = (if is_money_in then Debit else Credit)
      in and_run (reading (\<lambda>db. abs_amount line)) (\<lambda>amount.
         and_run (read_only (\<lambda>db. Inr (nearest E (bl_posted_on line) (uncleared_lines_matching db company
            (bl_account_id line) s amount EXACT_MATCH_SOURCE_KINDS lo hi)))) (\<lambda>candidates.
         case candidates of
           (entry_id, line_no, _) # _ \<Rightarrow>
             and_run (ledger (clear_journal_line company entry_id line_no now)) (\<lambda>_.
             and_run (ledger (set_bank_line_match company (bl_line_id line) ''exact'' (Some entry_id) (Some line_no) now)) (\<lambda>_.
             ret (report\<lparr>mp_exact := mp_exact report + 1\<rparr>)))
         | [] \<Rightarrow>
             and_run (if is_money_in then try_settlement_match company line amount lo hi now else ret False) (\<lambda>settled.
             if settled then ret (report\<lparr>mp_settlement := mp_settlement report + 1\<rparr>)
             else
               and_run (if is_money_in
                  then try_settlement_fee_match E company line amount rules lo hi (fresh (bl_line_id line)) now
                  else ret False) (\<lambda>settled.
               if settled then ret (report\<lparr>mp_settlement_fee := mp_settlement_fee report + 1\<rparr>)
               else propose company line is_money_in now report)))))"

definition match_statement ::
  "bank_env \<Rightarrow> string \<Rightarrow> string \<Rightarrow> match_rules \<Rightarrow> (string \<Rightarrow> string \<times> string) \<Rightarrow> timestamp \<Rightarrow> match_report desk" where
  "match_statement E company statement_id rules fresh now =
     and_run (read_only (\<lambda>db. bank_statement db company statement_id)) (\<lambda>statement.
     if bs_closed_at statement \<noteq> None then fail (Err (E_StatementClosed statement_id))
     else
       and_run (read_only (\<lambda>db. Inr (list_bank_lines db company statement_id))) (\<lambda>lines.
       run_fold (match_one_line E company rules fresh now) empty_match_report
         (filter (\<lambda>line. bl_match_kind line = None) lines)))"

section \<open>Confirming a proposal\<close>

definition confirmed_document :: "bank_line_row \<Rightarrow> money \<Rightarrow> account_id \<Rightarrow> class_id option \<Rightarrow> ledger_document" where
  "confirmed_document line amount account class_opt =
     (let is_money_in = \<not> is_negative (bl_amount line) in
      \<lparr>doc_document_id = ''bankline-'' @ bl_line_id line, doc_kind = BankLine, doc_number = None,
       doc_txn_date = bl_posted_on line, doc_due_date = None, doc_contact = None, doc_header_class = None,
       doc_lines = [\<lparr>dl_line_no = 1, dl_kind = Account, dl_amount = amount, dl_class = class_opt,
         dl_item_id = None, dl_account = Some account, dl_is_taxable = False, dl_qty = None,
         dl_unit_cost = None, dl_description = Some (bl_description line), dl_posting = None, dl_entity = None\<rparr>],
       doc_tax = None,
       doc_deposit_to = (if is_money_in then Some (bl_account_id line) else None),
       doc_pay_from = (if is_money_in then None else Some (bl_account_id line)),
       doc_applications = [], doc_unapplied = ZERO, doc_is_voided = False, doc_source_ref = None,
       doc_memo = Some (''bank line '' @ bl_line_id line @ '': '' @ bl_description line)\<rparr>)"

definition confirm_proposal ::
  "bank_env \<Rightarrow> string \<Rightarrow> string \<Rightarrow> account_id \<Rightarrow> class_id option \<Rightarrow> string \<times> string \<Rightarrow> timestamp \<Rightarrow> string desk" where
  "confirm_proposal E company line_id account class_opt fresh now =
     and_run (read_only (\<lambda>db. bank_line db company line_id)) (\<lambda>line.
     if bl_match_kind line \<noteq> Some ''proposed'' then fail (Err (E_NotAProposal line_id))
     else
       and_run (read_only (\<lambda>db. bank_statement db company (bl_statement_id line))) (\<lambda>statement.
       if bs_closed_at statement \<noteq> None then fail (Err (E_StatementClosed (bl_statement_id line)))
       else
         and_run (reading (\<lambda>db. abs_amount line)) (\<lambda>amount.
         let doc = confirmed_document line amount account class_opt in
         and_run (ledger (save_document (be_to_json E) company doc
            (desk_command E ''confirm_bank_proposal'' now) (fst fresh) now)) (\<lambda>version.
         and_run (posted_entry_of E doc (vi_version version)) (\<lambda>e.
         and_run (read_only (\<lambda>db. ok_or (map_option jl_line_no
            (find_map (\<lambda>l. jl_account l = bl_account_id line) (je_lines e))) E_NotFound)) (\<lambda>bank_line_no.
         and_run (ledger (post_entry company e (snd fresh) now)) (\<lambda>entry_id.
         and_run (ledger (clear_journal_line company entry_id bank_line_no now)) (\<lambda>_.
         and_run (ledger (set_bank_line_match company line_id ''manual'' (Some entry_id) (Some bank_line_no) now)) (\<lambda>_.
         ret entry_id)))))))))"

section \<open>Closing a statement\<close>

record statement_close =
  sc_statement_id :: string
  sc_closed_at :: timestamp

definition close_statement :: "string \<Rightarrow> string \<Rightarrow> timestamp \<Rightarrow> statement_close op" where
  "close_statement company statement_id now =
     and_run (reading (\<lambda>db. bank_statement db company statement_id)) (\<lambda>statement.
     case bs_closed_at statement of
       Some closed_at \<Rightarrow> ret \<lparr>sc_statement_id = statement_id, sc_closed_at = closed_at\<rparr>
     | None \<Rightarrow>
         and_run (reading (\<lambda>db. Inr (list_bank_lines db company statement_id))) (\<lambda>lines.
         let matched = filter (\<lambda>line. is_resolved (bl_match_kind line)) lines;
             unmatched = filter (\<lambda>line. \<not> is_resolved (bl_match_kind line)) lines
         in and_run (reading (\<lambda>db. ledger_money (checked_sum (map bl_amount matched)))) (\<lambda>matched_sum.
            and_run (reading (\<lambda>db. ledger_money (checked_sum (map bl_amount unmatched)))) (\<lambda>unmatched_sum.
            and_run (reading (\<lambda>db. ledger_money (checked_add (bs_opening_balance statement) matched_sum))) (\<lambda>expected_closing.
            if expected_closing \<noteq> bs_closing_balance statement \<or> \<not> is_zero unmatched_sum then
              and_run (reading (\<lambda>db. ledger_money (checked_sub (bs_closing_balance statement) expected_closing))) (\<lambda>difference.
              fail (E_StatementDoesNotClose difference (length unmatched)))
            else
              and_run (close_bank_statement company statement_id now) (\<lambda>_.
              ret \<lparr>sc_statement_id = statement_id, sc_closed_at = now\<rparr>))))))"

end
