(* ===== verification/Report_Facts.thy ===== *)
theory Report_Facts
  imports Report
begin

text \<open>
  What the reports say of a sound book: the trial balance balances, profit and loss sections add
  up both ways, and how far the balance sheet is from balancing.
\<close>

section \<open>Sums over the join\<close>

lemma sql_sum_range: "sql_sum xs = Inr s \<Longrightarrow> in_i64 s"
  unfolding sql_sum_def by (erule try_fold_invariant) (auto split: if_splits)

lemma sum_money_cents: "sum_money column rows = Inr m \<Longrightarrow> cents m = (\<Sum>r\<leftarrow>rows. cents (column r))"
proof -
  assume "sum_money column rows = Inr m"
  then obtain s where s: "sql_sum (map (\<lambda>r. cents (column r)) rows) = Inr s" "m = money_of s"
    by (auto simp: sum_money_def cents_def[symmetric])
  with sql_sum_range[OF s(1)] sql_sum_Inr[OF s(1)] show ?thesis by simp
qed

lemma sum_filter_product:
  fixes g :: "'a \<times> 'b \<Rightarrow> int"
  shows "(\<Sum>p\<leftarrow>filter Q (List.product xs ys). g p) = (\<Sum>y\<leftarrow>ys. \<Sum>x\<leftarrow>filter (\<lambda>x. Q (x, y)) xs. g (x, y))"
proof (induction xs)
  case (Cons x xs)
  have "(\<Sum>p\<leftarrow>filter Q (map (Pair x) ys). g p) = (\<Sum>y\<leftarrow>ys. if Q (x, y) then g (x, y) else 0)"
    by (induction ys) auto
  moreover have "(\<Sum>y\<leftarrow>ys. \<Sum>x\<leftarrow>filter (\<lambda>x. Q (x, y)) (x # xs). g (x, y)) =
      (\<Sum>y\<leftarrow>ys. if Q (x, y) then g (x, y) else 0) + (\<Sum>y\<leftarrow>ys. \<Sum>x\<leftarrow>filter (\<lambda>x. Q (x, y)) xs. g (x, y))"
    by (induction ys) auto
  ultimately show ?case by (simp add: Cons.IH)
qed simp

definition posted_lines :: "db \<Rightarrow> string \<Rightarrow> (entry_row \<Rightarrow> bool) \<Rightarrow> journal_line list" where
  "posted_lines db company P = map join_line (posted_join db company P)"

lemma key_company: "entry_key e = line_entry_key l \<Longrightarrow> en_company e = ln_company l"
  by (simp add: entry_key_def line_entry_key_def)

lemma posted_lines_sum:
  "(\<Sum>l\<leftarrow>posted_lines db company P. f l) =
     (\<Sum>e\<leftarrow>filter (\<lambda>e. en_company e = company \<and> en_is_posted e = 1 \<and> P e) (db_journal_entries db).
        \<Sum>l\<leftarrow>lines_of db (entry_key e). (f (ln_line l) :: int))"
proof -
  let ?ok = "\<lambda>e. en_company e = company \<and> en_is_posted e = 1 \<and> P e"
  let ?Q = "\<lambda>(l, e). ln_company l = company \<and> entry_key e = line_entry_key l \<and> en_is_posted e = 1 \<and> P e"
  have inner: "filter (\<lambda>l. ?Q (l, e)) ls = (if ?ok e then filter (\<lambda>l. line_entry_key l = entry_key e) ls else [])" for e ls
  proof (cases "?ok e")
    case True
    have "?Q (l, e) = (line_entry_key l = entry_key e)" for l
      unfolding prod.case using True key_company[of e l] by (metis (no_types))
    then show ?thesis using True by (simp only: if_True simp_thms)
  next
    case False
    have "\<not> ?Q (l, e)" for l
      unfolding prod.case using False key_company[of e l] by (metis (no_types))
    then have "filter (\<lambda>l. ?Q (l, e)) ls = []" by (simp only: filter_empty_conv) blast
    then show ?thesis using False by (simp only: if_False)
  qed
  have "(\<Sum>l\<leftarrow>posted_lines db company P. f l) =
      (\<Sum>p\<leftarrow>filter ?Q (List.product (db_journal_lines db) (db_journal_entries db)). f (join_line p))"
    by (simp add: posted_lines_def posted_join_def o_def)
  also have "\<dots> = (\<Sum>e\<leftarrow>db_journal_entries db. \<Sum>l\<leftarrow>filter (\<lambda>l. ?Q (l, e)) (db_journal_lines db). f (ln_line l))"
    by (subst sum_filter_product) (simp add: join_line_def)
  also have "\<dots> = (\<Sum>e\<leftarrow>db_journal_entries db. if ?ok e then \<Sum>l\<leftarrow>lines_of db (entry_key e). f (ln_line l) else 0)"
    unfolding inner by (rule arg_cong[where f = sum_list], rule map_cong) (simp_all add: lines_of_def)
  also have "\<dots> = (\<Sum>e\<leftarrow>filter ?ok (db_journal_entries db). \<Sum>l\<leftarrow>lines_of db (entry_key e). f (ln_line l))"
    by (simp add: sum_list_map_filter')
  finally show ?thesis .
qed

lemma posted_lines_cancel:
  assumes "posted_balanced db"
  shows "(\<Sum>l\<leftarrow>posted_lines db company P. line_net l) = 0"
proof -
  have "(\<Sum>l\<leftarrow>lines_of db (entry_key e). line_net (ln_line l)) = 0"
    if "e \<in> set (db_journal_entries db)" "en_is_posted e = 1" for e
  proof -
    have "lines_balance (lines_of db (entry_key e))"
      using assms that by (auto simp: posted_balanced_def list_all_iff)
    then show ?thesis
      by (simp add: lines_balance_def debit_sum_def credit_sum_def line_net_def sum_list_subtractf)
  qed
  then have "(\<Sum>e\<leftarrow>filter (\<lambda>e. en_company e = company \<and> en_is_posted e = 1 \<and> P e) (db_journal_entries db).
      \<Sum>l\<leftarrow>lines_of db (entry_key e). line_net (ln_line l)) = (\<Sum>e\<leftarrow>filter (\<lambda>e. en_company e = company \<and> en_is_posted e = 1 \<and> P e) (db_journal_entries db). 0)"
    by (intro arg_cong[where f = sum_list] map_cong) auto
  then show ?thesis by (simp add: posted_lines_sum)
qed

section \<open>Every line belongs to one account\<close>

definition accounts_keyed :: "db \<Rightarrow> bool" where
  "accounts_keyed db \<longleftrightarrow> distinct (map (\<lambda>(company, a). (company, ac_account_id a)) (db_accounts db))"

lemma company_accounts_distinct:
  "accounts_keyed db \<Longrightarrow> distinct (map ac_account_id (company_accounts db company))"
proof -
  have "distinct (map (\<lambda>(company, a). (company, ac_account_id a)) t) \<Longrightarrow> distinct (map ac_account_id (of_company company t))" for t
  proof (induction t)
    case (Cons r t)
    obtain c a where r: "r = (c, a)" by (cases r)
    have "ac_account_id a \<notin> ac_account_id ` set (of_company c t)"
      using Cons.prems by (force simp: r of_company_set image_iff)
    with Cons show ?case by (auto simp: r)
  qed simp
  then show "accounts_keyed db \<Longrightarrow> ?thesis" by (simp add: accounts_keyed_def company_accounts_def)
qed

lemma group_sum:
  fixes f :: "journal_line \<Rightarrow> int"
  assumes "distinct (map ac_account_id as)" and "\<And>l. l \<in> set ls \<Longrightarrow> jl_account l \<in> ac_account_id ` set as"
  shows "(\<Sum>a\<leftarrow>as. \<Sum>l\<leftarrow>filter (\<lambda>l. jl_account l = ac_account_id a) ls. f l) = (\<Sum>l\<leftarrow>ls. f l)"
  using assms(2)
proof (induction ls)
  case (Cons l ls)
  have one: "(\<Sum>a\<leftarrow>as. if x = ac_account_id a then f l else 0) = f l" if "x \<in> ac_account_id ` set as" for x
    using assms(1) that
  proof (induction as)
    case (Cons a as)
    have "(\<Sum>b\<leftarrow>as. if ac_account_id a = ac_account_id b then f l else 0) = 0"
      using Cons.prems(1) by (induction as) auto
    with Cons show ?case by auto
  qed simp
  have "(\<Sum>a\<leftarrow>as. \<Sum>k\<leftarrow>filter (\<lambda>l. jl_account l = ac_account_id a) (l # ls). f k) =
      (\<Sum>a\<leftarrow>as. if jl_account l = ac_account_id a then f l else 0) +
      (\<Sum>a\<leftarrow>as. \<Sum>k\<leftarrow>filter (\<lambda>l. jl_account l = ac_account_id a) ls. f k)"
    by (induction as) auto
  with Cons one show ?case by simp
qed simp

section \<open>The trial balance\<close>

lemma account_lines_posted:
  "account_lines db company P a = filter (\<lambda>l. jl_account l = ac_account_id a) (posted_lines db company P)"
  by (simp add: account_lines_def posted_lines_def)

lemma account_sums_Inr:
  assumes "account_sums db company P a = Inr r"
  obtains d c where "r = (a, d, c)" "cents d = (\<Sum>l\<leftarrow>account_lines db company P a. cents (jl_debit l))"
    "cents c = (\<Sum>l\<leftarrow>account_lines db company P a. cents (jl_credit l))"
  using assms by (auto simp: account_sums_def dest!: sum_money_cents)

definition side_sum :: "(journal_line \<Rightarrow> money) \<Rightarrow> journal_line list \<Rightarrow> int" where
  "side_sum side ls = (\<Sum>l\<leftarrow>ls. cents (side l))"

lemma raw_sums:
  assumes "try_map (account_sums db company P) as = Inr raw"
  shows "map fst raw = as"
    "(a, d, c) \<in> set raw \<Longrightarrow> cents d = side_sum jl_debit (account_lines db company P a)"
    "(a, d, c) \<in> set raw \<Longrightarrow> cents c = side_sum jl_credit (account_lines db company P a)"
    "(\<Sum>(a, d, c)\<leftarrow>raw. g a (cents d) (cents c)) =
       (\<Sum>a\<leftarrow>as. g a (side_sum jl_debit (account_lines db company P a)) (side_sum jl_credit (account_lines db company P a)) :: int)"
proof -
  have rel: "list_all2 (\<lambda>a r. account_sums db company P a = Inr r) as raw"
    using assms by (simp add: try_map_Inr_iff)
  then show "map fst raw = as"
    by (induction rule: list_all2_induct) (auto elim: account_sums_Inr)
  from rel have "\<exists>b \<in> set as. account_sums db company P b = Inr r" if "r \<in> set raw" for r
    using that by (induction rule: list_all2_induct) auto
  then show "(a, d, c) \<in> set raw \<Longrightarrow> cents d = side_sum jl_debit (account_lines db company P a)"
    "(a, d, c) \<in> set raw \<Longrightarrow> cents c = side_sum jl_credit (account_lines db company P a)"
    by (force elim: account_sums_Inr simp: side_sum_def)+
  from rel show "(\<Sum>(a, d, c)\<leftarrow>raw. g a (cents d) (cents c)) =
       (\<Sum>a\<leftarrow>as. g a (side_sum jl_debit (account_lines db company P a)) (side_sum jl_credit (account_lines db company P a)))"
    by (induction rule: list_all2_induct) (auto elim!: account_sums_Inr simp: side_sum_def)
qed

definition tb_row_of :: "account \<times> money \<times> money \<Rightarrow> tb_row" where
  "tb_row_of row =
     (case row of (a, d, c) \<Rightarrow>
       \<lparr>tb_account_id = ac_account_id a, tb_number = ac_number a, tb_name = ac_name a,
        tb_classification = ac_classification a, tb_is_contra = ac_is_contra a,
        tb_needs_mapping = ac_needs_mapping a, tb_source_ref = ac_source_ref a,
        tb_debit = d, tb_credit = c, tb_balance = money_of (cents d - cents c)\<rparr>)"

definition on_wrong_side :: "account \<times> money \<times> money \<Rightarrow> bool" where
  "on_wrong_side row \<longleftrightarrow>
     (case row of (a, d, c) \<Rightarrow> \<not> ac_is_contra a \<and>
       (if ac_normal_balance a = Debit then cents d < cents c else cents c < cents d))"

lemma checked_sub_money_of: "checked_sub a b = Inr m \<Longrightarrow> m = money_of (cents a - cents b) \<and> cents m = cents a - cents b"
  by (metis checked_sub_Inr money_of_cents)

lemma tb_fold:
  assumes "try_fold tb_step st raw = Inr tb"
  shows "tr_rows tb = tr_rows st @ map tb_row_of raw \<and>
    cents (tr_total_debits tb) = cents (tr_total_debits st) + (\<Sum>(a, d, c)\<leftarrow>raw. cents d) \<and>
    cents (tr_total_credits tb) = cents (tr_total_credits st) + (\<Sum>(a, d, c)\<leftarrow>raw. cents c) \<and>
    tr_wrong_side tb = tr_wrong_side st @ map (ac_account_id \<circ> fst) (filter on_wrong_side raw)"
  using assms
proof (induction raw arbitrary: st)
  case (Cons row raw)
  obtain a d c where row: "row = (a, d, c)" by (cases row) auto
  from Cons.prems obtain st' where st': "tb_step st row = Inr st'" "try_fold tb_step st' raw = Inr tb"
    by auto
  from st'(1) obtain b td tc where m: "checked_sub d c = Inr b"
    "cents td = cents (tr_total_debits st) + cents d" "cents tc = cents (tr_total_credits st) + cents c"
    and eq: "st' = \<lparr>tr_rows = tr_rows st @ [tb_row_of (a, d, b)\<lparr>tb_credit := c, tb_balance := b\<rparr>],
      tr_total_debits = td, tr_total_credits = tc,
      tr_wrong_side = (if \<not> ac_is_contra a \<and> \<not> is_zero b \<and>
        (if ac_normal_balance a = Debit then is_negative b else \<not> is_negative b)
        then tr_wrong_side st @ [ac_account_id a] else tr_wrong_side st)\<rparr>"
    by (auto simp: tb_step_def row Let_def tb_row_of_def checked_add_Inr)
  have b: "cents b = cents d - cents c" "b = money_of (cents d - cents c)"
    using checked_sub_money_of[OF m(1)] by auto
  have "tr_rows st' = tr_rows st @ [tb_row_of row]"
    by (simp add: eq row tb_row_of_def b(2)[symmetric])
  moreover have "tr_wrong_side st' = tr_wrong_side st @ (if on_wrong_side row then [ac_account_id a] else [])"
    by (simp add: eq row on_wrong_side_def is_zero_cents is_negative_cents b(1))
  moreover have "cents (tr_total_debits st') = cents (tr_total_debits st) + cents d"
    "cents (tr_total_credits st') = cents (tr_total_credits st) + cents c"
    by (simp_all add: eq m)
  ultimately show ?case using Cons.IH[OF st'(2)] by (simp add: row)
qed simp

definition account_movement :: "db \<Rightarrow> string \<Rightarrow> naive_date \<Rightarrow> account_id \<Rightarrow> int" where
  "account_movement db company as_of a =
     account_net a (posted_lines db company (\<lambda>e. en_entry_date e \<le> as_of))"

lemma list_accounts_distinct:
  "accounts_keyed db \<Longrightarrow> distinct (map ac_account_id (list_accounts db company))"
  using company_accounts_distinct[of db company] by (simp add: list_accounts_def distinct_map)

lemma list_accounts_set [simp]: "set (list_accounts db company) = set (company_accounts db company)"
  by (simp add: list_accounts_def)

lemma posted_lines_account:
  assumes "journal_references_ok db" "l \<in> set (posted_lines db company P)"
  shows "jl_account l \<in> ac_account_id ` set (company_accounts db company)"
proof -
  from assms(2) obtain row where row: "row \<in> set (db_journal_lines db)" "ln_company row = company" "l = ln_line row"
    by (auto simp: posted_lines_def posted_join_def join_line_def)
  with assms(1) have "account_exists db company (jl_account l)"
    by (auto simp: journal_references_ok_def list_all_iff)
  then show ?thesis by (force simp: account_exists_def list_ex_iff company_accounts_def)
qed

lemma accounts_sum:
  fixes f :: "journal_line \<Rightarrow> int"
  assumes "journal_references_ok db" "accounts_keyed db"
  shows "(\<Sum>a\<leftarrow>list_accounts db company. \<Sum>l\<leftarrow>account_lines db company P a. f l) = (\<Sum>l\<leftarrow>posted_lines db company P. f l)"
  unfolding account_lines_posted
  using list_accounts_distinct[OF assms(2)] posted_lines_account[OF assms(1)]
  by (intro group_sum) auto

lemma line_nets_split:
  "side_sum jl_debit ls - side_sum jl_credit ls = (\<Sum>l\<leftarrow>ls. line_net l)"
  by (simp add: side_sum_def line_net_def sum_list_subtractf)

lemma trial_balance_facts:
  assumes "trial_balance db company as_of = Inr tb" "journal_ok db" "accounts_keyed db"
  shows "cents (tr_total_debits tb) = cents (tr_total_credits tb)"
    "map tb_account_id (tr_rows tb) = map ac_account_id (list_accounts db company)"
    "list_all (\<lambda>r. cents (tb_balance r) = account_movement db company as_of (tb_account_id r)) (tr_rows tb)"
    "tr_wrong_side tb = map ac_account_id (filter (\<lambda>a. \<not> ac_is_contra a \<and>
      (if ac_normal_balance a = Debit then account_movement db company as_of (ac_account_id a) < 0
       else 0 < account_movement db company as_of (ac_account_id a))) (list_accounts db company))"
proof -
  let ?P = "\<lambda>e. en_entry_date e \<le> as_of"
  let ?ls = "account_lines db company ?P"
  from assms(1) obtain raw where raw: "try_map (account_sums db company ?P) (list_accounts db company) = Inr raw"
    and fold: "try_fold tb_step \<lparr>tr_rows = [], tr_total_debits = ZERO, tr_total_credits = ZERO, tr_wrong_side = []\<rparr> raw = Inr tb"
    by (auto simp: trial_balance_def)
  note tb = tb_fold[OF fold]
  have refs: "journal_references_ok db" "posted_balanced db" using assms(2) by (simp_all add: journal_ok_def)
  have mov: "side_sum jl_debit (?ls a) - side_sum jl_credit (?ls a) = account_movement db company as_of (ac_account_id a)" for a
    by (simp add: line_nets_split account_movement_def account_net_def account_lines_posted)
  have "cents (tr_total_debits tb) - cents (tr_total_credits tb) =
      (\<Sum>(a, d, c)\<leftarrow>raw. cents d) - (\<Sum>(a, d, c)\<leftarrow>raw. cents c)"
    using tb by simp
  also have "\<dots> = (\<Sum>a\<leftarrow>list_accounts db company. \<Sum>l\<leftarrow>?ls a. line_net l)"
    using raw_sums(4)[OF raw, of "\<lambda>a d c. d"] raw_sums(4)[OF raw, of "\<lambda>a d c. c"]
    by (simp add: sum_list_subtractf[symmetric] line_nets_split)
  also have "\<dots> = 0"
    using accounts_sum[OF refs(1) assms(3), of line_net] posted_lines_cancel[OF refs(2)] by simp
  finally show "cents (tr_total_debits tb) = cents (tr_total_credits tb)" by simp
  have "map tb_account_id (tr_rows tb) = map (ac_account_id \<circ> fst) raw"
    using tb by (simp add: tb_row_of_def case_prod_unfold o_def)
  then show "map tb_account_id (tr_rows tb) = map ac_account_id (list_accounts db company)"
    using raw_sums(1)[OF raw] by (simp flip: map_map)
  have row: "cents d - cents c = account_movement db company as_of (ac_account_id a)" if "(a, d, c) \<in> set raw" for a d c
    using raw_sums(2,3)[OF raw that] mov by simp
  have "cents (money_of (cents d - cents c)) = cents d - cents c" if "(a, d, c) \<in> set raw" for a d c
  proof -
    have "\<exists>st st'. tb_step st (a, d, c) = Inr st'"
      using fold that
    proof (induction raw arbitrary: tb rule: rev_induct)
      case (snoc r raw)
      then show ?case by (fastforce simp: try_fold_append)
    qed simp
    then show ?thesis
      by (fastforce simp: tb_step_def dest: checked_sub_money_of)
  qed
  with row show "list_all (\<lambda>r. cents (tb_balance r) = account_movement db company as_of (tb_account_id r)) (tr_rows tb)"
    using tb by (auto simp: list_all_iff tb_row_of_def)
  have "filter on_wrong_side raw = filter (\<lambda>r. \<not> ac_is_contra (fst r) \<and>
      (if ac_normal_balance (fst r) = Debit then account_movement db company as_of (ac_account_id (fst r)) < 0
       else 0 < account_movement db company as_of (ac_account_id (fst r)))) raw"
  proof (rule filter_cong[OF refl])
    fix r assume "r \<in> set raw"
    moreover obtain a d c where r: "r = (a, d, c)" by (cases r) auto
    ultimately have "account_movement db company as_of (ac_account_id a) = cents d - cents c"
      using row by simp
    then show "on_wrong_side r = (\<not> ac_is_contra (fst r) \<and>
      (if ac_normal_balance (fst r) = Debit then account_movement db company as_of (ac_account_id (fst r)) < 0
       else 0 < account_movement db company as_of (ac_account_id (fst r))))"
      by (simp add: on_wrong_side_def r)
  qed
  then have "tr_wrong_side tb = map ac_account_id (filter (\<lambda>a. \<not> ac_is_contra a \<and>
      (if ac_normal_balance a = Debit then account_movement db company as_of (ac_account_id a) < 0
       else 0 < account_movement db company as_of (ac_account_id a))) (map fst raw))"
    using tb by (simp add: filter_map o_def)
  then show "tr_wrong_side tb = map ac_account_id (filter (\<lambda>a. \<not> ac_is_contra a \<and>
      (if ac_normal_balance a = Debit then account_movement db company as_of (ac_account_id a) < 0
       else 0 < account_movement db company as_of (ac_account_id a))) (list_accounts db company))"
    by (simp add: raw_sums(1)[OF raw])
qed

text \<open>
  C5. On a sound book the trial balance's columns agree, it has one row per account of the company
  in account number order, each row's balance is what the posted lines up to the date moved
  the account, and an account is listed as on the wrong side exactly when it is not a contra
  account and that balance has the sign opposite to its normal side.
\<close>

theorem trial_balance_correct:
  assumes "trial_balance db company as_of = Inr tb" and "journal_ok db" and "accounts_keyed db"
  shows "cents (tr_total_debits tb) = cents (tr_total_credits tb) \<and>
    map tb_account_id (tr_rows tb) = map ac_account_id (list_accounts db company) \<and>
    list_all (\<lambda>r. cents (tb_balance r) = account_movement db company as_of (tb_account_id r)) (tr_rows tb) \<and>
    tr_wrong_side tb = map ac_account_id (filter (\<lambda>a. \<not> ac_is_contra a \<and>
      (if ac_normal_balance a = Debit then account_movement db company as_of (ac_account_id a) < 0
       else 0 < account_movement db company as_of (ac_account_id a))) (list_accounts db company))"
  using trial_balance_facts[OF assms] by blast

lemma money_of_0 [simp]: "money_of 0 = ZERO"
  by (simp flip: cents_inject)

lemma posted_db_keyed: "accounts_keyed posted_db"
  by (simp add: accounts_keyed_def sample_db_defs chart_numbers)

lemmas report_eval =
  list_accounts_def company_accounts_def of_company_def account_sums_def account_lines_def
  posted_join_def join_line_def sum_money_def ledger_sql_def ledger_money_def sql_sum_def
  entry_key_def line_entry_key_def checked_eqs in_i64_def cents_def[symmetric] is_zero_cents is_negative_cents
  less_eq_naive_date_def

definition sample_tb :: trial_balance_report where
  "sample_tb =
     \<lparr>tr_rows =
        [tb_row_of (sample_account CHECKING Asset, money_of 500, ZERO),
         tb_row_of (sample_account OWNER_CAPITAL Equity, ZERO, money_of 500)],
      tr_total_debits = money_of 500, tr_total_credits = money_of 500, tr_wrong_side = []\<rparr>"

lemma sample_trial_balance: "trial_balance posted_db ''co'' (Ymd 2027 12 31) = Inr sample_tb"
  by (simp add: trial_balance_def tb_step_def sample_tb_def tb_row_of_def report_eval sample_db_defs chart_numbers)

theorem trial_balance_correct_witness:
  "cents (tr_total_debits sample_tb) = cents (tr_total_credits sample_tb) \<and>
    map tb_account_id (tr_rows sample_tb) = map ac_account_id (list_accounts posted_db ''co'') \<and>
    list_all (\<lambda>r. cents (tb_balance r) = account_movement posted_db ''co'' (Ymd 2027 12 31) (tb_account_id r)) (tr_rows sample_tb) \<and>
    tr_wrong_side sample_tb = map ac_account_id (filter (\<lambda>a. \<not> ac_is_contra a \<and>
      (if ac_normal_balance a = Debit then account_movement posted_db ''co'' (Ymd 2027 12 31) (ac_account_id a) < 0
       else 0 < account_movement posted_db ''co'' (Ymd 2027 12 31) (ac_account_id a))) (list_accounts posted_db ''co''))"
  by (rule trial_balance_correct[OF sample_trial_balance posted_db_ok posted_db_keyed])

section \<open>Profit and loss\<close>

lemma group_sum_by:
  fixes f :: "'a \<Rightarrow> int"
  assumes "distinct ks" and "\<And>l. l \<in> set ls \<Longrightarrow> k l \<in> set ks"
  shows "(\<Sum>c\<leftarrow>ks. \<Sum>l\<leftarrow>filter (\<lambda>l. k l = c) ls. f l) = (\<Sum>l\<leftarrow>ls. f l)"
  using assms(2)
proof (induction ls)
  case (Cons l ls)
  have one: "(\<Sum>c\<leftarrow>ks. if x = c then f l else 0) = f l" if "x \<in> set ks" for x
    using assms(1) that
  proof (induction ks)
    case (Cons c ks)
    have "(\<Sum>d\<leftarrow>ks. if c = d then f l else 0) = 0"
      using Cons.prems(1) by (induction ks) auto
    with Cons show ?case by auto
  qed simp
  have "(\<Sum>c\<leftarrow>ks. \<Sum>j\<leftarrow>filter (\<lambda>l. k l = c) (l # ls). f j) =
      (\<Sum>c\<leftarrow>ks. if k l = c then f l else 0) + (\<Sum>c\<leftarrow>ks. \<Sum>j\<leftarrow>filter (\<lambda>l. k l = c) ls. f j)"
    by (induction ks) auto
  with Cons one show ?case by simp
qed simp

definition values_cents :: "('k \<times> money) list \<Rightarrow> int" where
  "values_cents t = (\<Sum>(k, v)\<leftarrow>t. cents v)"

lemma values_cents_simps [simp]:
  "values_cents [] = 0" "values_cents ((k, v) # t) = cents v + values_cents t"
  by (simp_all add: values_cents_def)

lemma values_cents_map [simp]: "values_cents (map (\<lambda>(k, v). (h k, v)) t) = values_cents t"
  by (induction t) auto

lemma btree_add_values: "btree_add k m t = Inr t' \<Longrightarrow> values_cents t' = values_cents t + cents m"
  by (induction k m t arbitrary: t' rule: btree_add.induct) (auto simp: checked_add_Inr split: if_splits)

lemma btree_add_keys: "btree_add k m t = Inr t' \<Longrightarrow> fst ` set t' = insert k (fst ` set t)"
proof (induction k m t arbitrary: t' rule: btree_add.induct)
  case (2 k m k' v rest)
  show ?case
  proof (cases "k < k' \<or> k = k'")
    case True
    with 2 show ?thesis by (auto split: if_splits)
  next
    case False
    with 2 obtain r where "btree_add k m rest = Inr r" "t' = (k', v) # r"
      by (auto split: if_splits)
    with False 2(1) show ?thesis by (simp add: insert_commute)
  qed
qed auto

lemma btree_add_sorted:
  "btree_add k m t = Inr t' \<Longrightarrow> sorted_wrt (<) (map fst t) \<Longrightarrow> sorted_wrt (<) (map fst t')"
proof (induction k m t arbitrary: t' rule: btree_add.induct)
  case (2 k m k' v rest)
  show ?case
  proof (cases "k < k' \<or> k = k'")
    case True
    with 2 show ?thesis by (fastforce split: if_splits intro: order.strict_trans)
  next
    case False
    with 2 obtain r where r: "btree_add k m rest = Inr r" "t' = (k', v) # r"
      by (auto split: if_splits)
    with False 2 btree_add_keys[OF r(1)] show ?thesis by auto
  qed
qed auto

definition section_ok :: "section_builder \<Rightarrow> bool" where
  "section_ok s \<longleftrightarrow>
     values_cents (sb_by_account s) = cents (sb_total s) \<and> values_cents (sb_by_class s) = cents (sb_total s) \<and>
     sorted_wrt (<) (map fst (sb_by_account s)) \<and> sorted_wrt (<) (map fst (sb_by_class s))"

lemma empty_section_ok [simp]: "section_ok empty_section" "sb_total empty_section = ZERO"
  by (simp_all add: section_ok_def empty_section_def)

lemma section_add_facts:
  assumes "section_add s a c m = Inr s'"
  shows "section_ok s \<Longrightarrow> section_ok s'" "cents (sb_total s') = cents (sb_total s) + cents m"
  using assms
  by (auto simp: section_add_def section_ok_def checked_add_Inr dest: btree_add_values btree_add_sorted)

definition sections_ok :: "section_builder \<times> section_builder \<times> section_builder \<Rightarrow> bool" where
  "sections_ok st = (case st of (i, c, e) \<Rightarrow> section_ok i \<and> section_ok c \<and> section_ok e)"

lemma pnl_step_ok: "pnl_step st row = Inr st' \<Longrightarrow> sections_ok st \<Longrightarrow> sections_ok st'"
  by (cases st; cases row)
    (auto simp: pnl_step_def sections_ok_def Let_def split: classification.splits dest: section_add_facts(1))

text \<open>What one row contributes to each section.\<close>

definition row_net :: "classification set \<Rightarrow> account \<times> class_id option \<times> money \<times> money \<Rightarrow> int" where
  "row_net K row = (case row of (a, c, d, r) \<Rightarrow> if ac_classification a \<in> K then cents d - cents r else 0)"

lemma pnl_step_totals:
  assumes "pnl_step (i, c, e) row = Inr (i', c', e')"
  shows "cents (sb_total i') = cents (sb_total i) - row_net {Income} row"
    "cents (sb_total c') = cents (sb_total c) + row_net {Cogs} row"
    "cents (sb_total e') = cents (sb_total e) + row_net (- {Income, Cogs}) row"
  using assms
  by (cases row; auto simp: pnl_step_def row_net_def Let_def checked_sub_Inr
      split: classification.splits dest!: section_add_facts(2))+

lemma pnl_fold_totals:
  assumes "try_fold pnl_step (empty_section, empty_section, empty_section) raw = Inr (i, c, e)"
  shows "cents (sb_total i) = - (\<Sum>row\<leftarrow>raw. row_net {Income} row)"
    "cents (sb_total c) = (\<Sum>row\<leftarrow>raw. row_net {Cogs} row)"
    "cents (sb_total e) = (\<Sum>row\<leftarrow>raw. row_net (- {Income, Cogs}) row)"
    "sections_ok (i, c, e)"
proof -
  show "sections_ok (i, c, e)"
    using assms by (rule try_fold_invariant) (auto simp: sections_ok_def[of "(empty_section, empty_section, empty_section)"] pnl_step_ok)
  have "cents (sb_total (fst (i, c, e))) = cents (sb_total (fst (empty_section, empty_section, empty_section))) +
      (\<Sum>row\<leftarrow>raw. - row_net {Income} row)"
    using assms by (rule try_fold_weighted[where v = "\<lambda>st. cents (sb_total (fst st))"])
      (auto dest!: pnl_step_totals(1))
  then show "cents (sb_total i) = - (\<Sum>row\<leftarrow>raw. row_net {Income} row)"
    by (simp add: uminus_sum_list_map o_def)
  have "cents (sb_total (fst (snd (i, c, e)))) =
      cents (sb_total (fst (snd (empty_section, empty_section, empty_section)))) + (\<Sum>row\<leftarrow>raw. row_net {Cogs} row)"
    using assms by (rule try_fold_weighted[where v = "\<lambda>st. cents (sb_total (fst (snd st)))"])
      (auto dest!: pnl_step_totals(2))
  then show "cents (sb_total c) = (\<Sum>row\<leftarrow>raw. row_net {Cogs} row)" by simp
  have "cents (sb_total (snd (snd (i, c, e)))) =
      cents (sb_total (snd (snd (empty_section, empty_section, empty_section)))) +
      (\<Sum>row\<leftarrow>raw. row_net (- {Income, Cogs}) row)"
    using assms by (rule try_fold_weighted[where v = "\<lambda>st. cents (sb_total (snd (snd st)))"])
      (auto dest!: pnl_step_totals(3))
  then show "cents (sb_total e) = (\<Sum>row\<leftarrow>raw. row_net (- {Income, Cogs}) row)" by simp
qed

definition accounts_net :: "db \<Rightarrow> string \<Rightarrow> (entry_row \<Rightarrow> bool) \<Rightarrow> classification set \<Rightarrow> int" where
  "accounts_net db company P K =
     (\<Sum>a\<leftarrow>list_accounts db company. if ac_classification a \<in> K
        then \<Sum>l\<leftarrow>account_lines db company P a. line_net l else 0)"

lemma pnl_row_net:
  assumes "pnl_row db company P (a, c) = Inr row"
  shows "row_net K row = (if ac_classification a \<in> K
    then \<Sum>l\<leftarrow>filter (\<lambda>l. jl_class l = c) (account_lines db company P a). line_net l else 0)"
  using assms
  by (auto simp: pnl_row_def Let_def row_net_def line_nets_split[symmetric] side_sum_def dest!: sum_money_cents)

lemma sum_concat_pairs:
  "(\<Sum>(a, c)\<leftarrow>concat (map (\<lambda>a. map (\<lambda>c. (a, c)) (g a)) xs). h a c) = (\<Sum>a\<leftarrow>xs. \<Sum>c\<leftarrow>g a. (h a c :: int))"
  by (induction xs) (simp_all add: o_def)

lemma sum_if_filter:
  "(\<And>x. (P x \<and> Q x) = R x) \<Longrightarrow>
     (\<Sum>x\<leftarrow>filter Q xs. if P x then f x else 0) = (\<Sum>x\<leftarrow>xs. if R x then (f x :: int) else 0)"
  by (induction xs) auto

lemma pnl_raw_net:
  assumes "try_map (pnl_row db company P) (pnl_keys db company P) = Inr raw"
  shows "(\<Sum>row\<leftarrow>raw. row_net K row) = accounts_net db company P (K \<inter> {Income, Cogs, Expense})"
proof -
  let ?net = "\<lambda>a c. if ac_classification a \<in> K
    then \<Sum>l\<leftarrow>filter (\<lambda>l. jl_class l = c) (account_lines db company P a). line_net l else 0"
  have "list_all2 (\<lambda>k r. pnl_row db company P k = Inr r) keys raw \<Longrightarrow>
      (\<Sum>row\<leftarrow>raw. row_net K row) = (\<Sum>(a, c)\<leftarrow>keys. ?net a c)" for keys raw
  proof (induction rule: list_all2_induct)
    case (Cons k ks r rs)
    then show ?case by (cases k) (simp only: list.map sum_list.Cons pnl_row_net prod.case)
  qed simp
  with assms have "(\<Sum>row\<leftarrow>raw. row_net K row) = (\<Sum>(a, c)\<leftarrow>pnl_keys db company P. ?net a c)"
    by (simp add: try_map_Inr_iff)
  also have "\<dots> = (\<Sum>a\<leftarrow>filter is_pnl (list_accounts db company).
      \<Sum>c\<leftarrow>remdups (map jl_class (account_lines db company P a)). ?net a c)"
    unfolding pnl_keys_def by (rule sum_concat_pairs)
  also have "\<dots> = (\<Sum>a\<leftarrow>filter is_pnl (list_accounts db company).
      if ac_classification a \<in> K then \<Sum>l\<leftarrow>account_lines db company P a. line_net l else 0)"
  proof (rule arg_cong[where f = sum_list], rule map_cong[OF refl])
    fix a
    have "(\<Sum>c\<leftarrow>remdups (map jl_class (account_lines db company P a)).
        \<Sum>l\<leftarrow>filter (\<lambda>l. jl_class l = c) (account_lines db company P a). line_net l) =
        (\<Sum>l\<leftarrow>account_lines db company P a. line_net l)"
      by (rule group_sum_by) auto
    then show "(\<Sum>c\<leftarrow>remdups (map jl_class (account_lines db company P a)). ?net a c) =
        (if ac_classification a \<in> K then \<Sum>l\<leftarrow>account_lines db company P a. line_net l else 0)"
      by simp
  qed
  also have "\<dots> = accounts_net db company P (K \<inter> {Income, Cogs, Expense})"
    unfolding accounts_net_def
    by (rule sum_if_filter) (auto simp: is_pnl_def)
  finally show ?thesis .
qed

definition dated :: "naive_date \<Rightarrow> naive_date \<Rightarrow> entry_row \<Rightarrow> bool" where
  "dated from to e \<longleftrightarrow> from \<le> en_entry_date e \<and> en_entry_date e \<le> to"

lemma profit_and_loss_facts:
  assumes "profit_and_loss db company from to = Inr pl"
  shows "cents (se_total (pl_income pl)) = - accounts_net db company (dated from to) {Income}"
    "cents (se_total (pl_cogs pl)) = accounts_net db company (dated from to) {Cogs}"
    "cents (se_total (pl_expense pl)) = accounts_net db company (dated from to) {Expense}"
    "cents (pl_net_income pl) = cents (se_total (pl_income pl)) - cents (se_total (pl_cogs pl)) - cents (se_total (pl_expense pl))"
    "cents (pl_gross_margin pl) = cents (se_total (pl_income pl)) - cents (se_total (pl_cogs pl))"
    "list_all (\<lambda>s. values_cents (se_by_account s) = cents (se_total s) \<and> values_cents (se_by_class s) = cents (se_total s))
      [pl_income pl, pl_cogs pl, pl_expense pl]"
proof -
  have P: "(\<lambda>e. from \<le> en_entry_date e \<and> en_entry_date e \<le> to) = dated from to"
    by (simp add: dated_def fun_eq_iff)
  from assms obtain raw i c e where raw: "try_map (pnl_row db company (dated from to)) (pnl_keys db company (dated from to)) = Inr raw"
    and fold: "try_fold pnl_step (empty_section, empty_section, empty_section) raw = Inr (i, c, e)"
    and pl: "pl_income pl = section_finish i" "pl_cogs pl = section_finish c" "pl_expense pl = section_finish e"
      "checked_sub (sb_total i) (sb_total c) = Inr (pl_gross_margin pl)"
      "checked_sub (pl_gross_margin pl) (sb_total e) = Inr (pl_net_income pl)"
    by (auto simp: profit_and_loss_def Let_def P section_finish_def)
  note totals = pnl_fold_totals[OF fold]
  have fin: "se_total (section_finish s) = sb_total s" for s by (simp add: section_finish_def)
  have K: "{Income} \<inter> {Income, Cogs, Expense} = {Income}" "{Cogs} \<inter> {Income, Cogs, Expense} = {Cogs}"
    "- {Income, Cogs} \<inter> {Income, Cogs, Expense} = {Expense}" by auto
  show "cents (se_total (pl_income pl)) = - accounts_net db company (dated from to) {Income}"
    "cents (se_total (pl_cogs pl)) = accounts_net db company (dated from to) {Cogs}"
    "cents (se_total (pl_expense pl)) = accounts_net db company (dated from to) {Expense}"
    using totals pnl_raw_net[OF raw] by (simp_all add: pl fin K)
  show "cents (pl_gross_margin pl) = cents (se_total (pl_income pl)) - cents (se_total (pl_cogs pl))"
    "cents (pl_net_income pl) = cents (se_total (pl_income pl)) - cents (se_total (pl_cogs pl)) - cents (se_total (pl_expense pl))"
    using pl(4,5) by (simp_all add: pl(1-3) fin checked_sub_Inr)
  show "list_all (\<lambda>s. values_cents (se_by_account s) = cents (se_total s) \<and> values_cents (se_by_class s) = cents (se_total s))
      [pl_income pl, pl_cogs pl, pl_expense pl]"
    using totals(4) by (simp add: pl section_finish_def sections_ok_def section_ok_def)
qed

text \<open>
  C10. A profit and loss that is computed reports, over exactly the posted lines dated in the
  range: income as credits less debits, cost of goods and expenses as debits less credits, the
  net income as their difference; and each section's rows by account, and its rows by class,
  both add up to its total.
\<close>

theorem profit_and_loss_correct:
  assumes "profit_and_loss db company from to = Inr pl"
  shows "cents (se_total (pl_income pl)) = - accounts_net db company (dated from to) {Income} \<and>
    cents (se_total (pl_cogs pl)) = accounts_net db company (dated from to) {Cogs} \<and>
    cents (se_total (pl_expense pl)) = accounts_net db company (dated from to) {Expense} \<and>
    cents (pl_net_income pl) = cents (se_total (pl_income pl)) - cents (se_total (pl_cogs pl)) - cents (se_total (pl_expense pl)) \<and>
    list_all (\<lambda>s. values_cents (se_by_account s) = cents (se_total s) \<and> values_cents (se_by_class s) = cents (se_total s))
      [pl_income pl, pl_cogs pl, pl_expense pl]"
  using profit_and_loss_facts[OF assms] by blast

section \<open>Balance sheet\<close>

definition bs_weight :: "classification set \<Rightarrow> account \<times> money \<times> money \<Rightarrow> int" where
  "bs_weight K row = (case row of (a, d, c) \<Rightarrow> if ac_classification a \<in> K then cents d - cents c else 0)"

lemma bs_add_total: "bs_add s a m = Inr s' \<Longrightarrow> cents (bx_total s') = cents (bx_total s) + cents m"
  by (auto simp: bs_add_def checked_add_Inr is_zero_cents split: if_splits)

lemma bs_step_totals:
  assumes "bs_step (x, y, z) row = Inr (x', y', z')"
  shows "cents (bx_total x') = cents (bx_total x) + bs_weight {Asset} row"
    "cents (bx_total y') = cents (bx_total y) - bs_weight {Liability} row"
    "cents (bx_total z') = cents (bx_total z) - bs_weight (- {Asset, Liability}) row"
  using assms
  by (cases row; auto simp: bs_step_def bs_weight_def checked_sub_Inr split: classification.splits dest!: bs_add_total)+

lemma bs_fold_totals:
  assumes "try_fold bs_step (empty_bs_section, empty_bs_section, empty_bs_section) raw = Inr (x, y, z)"
  shows "cents (bx_total x) = (\<Sum>row\<leftarrow>raw. bs_weight {Asset} row)"
    "cents (bx_total y) + cents (bx_total z) = - (\<Sum>row\<leftarrow>raw. bs_weight (- {Asset}) row)"
proof -
  have zero: "bx_total empty_bs_section = ZERO" by (simp add: empty_bs_section_def)
  have "cents (bx_total (fst (x, y, z))) =
      cents (bx_total (fst (empty_bs_section, empty_bs_section, empty_bs_section))) + (\<Sum>row\<leftarrow>raw. bs_weight {Asset} row)"
    using assms by (rule try_fold_weighted[where v = "\<lambda>st. cents (bx_total (fst st))"])
      (auto dest!: bs_step_totals(1))
  then show "cents (bx_total x) = (\<Sum>row\<leftarrow>raw. bs_weight {Asset} row)" by (simp add: zero)
  have split: "bs_weight (- {Asset}) row = bs_weight {Liability} row + bs_weight (- {Asset, Liability}) row" for row
    by (auto simp: bs_weight_def split: prod.split)
  let ?v = "\<lambda>st. cents (bx_total (fst (snd st))) + cents (bx_total (snd (snd st)))"
  have "?v (x, y, z) = ?v (empty_bs_section, empty_bs_section, empty_bs_section) + (\<Sum>row\<leftarrow>raw. - bs_weight (- {Asset}) row)"
    using assms by (rule try_fold_weighted[where v = ?v])
      (auto simp: split bs_step_totals(2,3))
  then show "cents (bx_total y) + cents (bx_total z) = - (\<Sum>row\<leftarrow>raw. bs_weight (- {Asset}) row)"
    by (simp add: zero uminus_sum_list_map o_def)
qed

lemma bs_raw_net:
  assumes "try_map (account_sums db company P) (filter is_sheet (list_accounts db company)) = Inr raw"
  shows "(\<Sum>row\<leftarrow>raw. bs_weight K row) = accounts_net db company P (K \<inter> {Asset, Liability, Equity})"
proof -
  let ?net = "\<lambda>a. \<Sum>l\<leftarrow>account_lines db company P a. line_net l"
  have "(\<Sum>row\<leftarrow>raw. bs_weight K row) =
      (\<Sum>(a, d, c)\<leftarrow>raw. (\<lambda>a d c. if ac_classification a \<in> K then d - c else 0) a (cents d) (cents c))"
    by (simp add: bs_weight_def case_prod_unfold)
  also have "\<dots> = (\<Sum>a\<leftarrow>filter is_sheet (list_accounts db company). if ac_classification a \<in> K then ?net a else 0)"
    by (simp only: raw_sums(4)[OF assms, where g = "\<lambda>a d c. if ac_classification a \<in> K then d - c else 0"] line_nets_split)
  also have "\<dots> = accounts_net db company P (K \<inter> {Asset, Liability, Equity})"
    unfolding accounts_net_def by (rule sum_if_filter) (auto simp: is_sheet_def)
  finally show ?thesis .
qed

lemma accounts_net_split:
  assumes "\<And>e. P e \<longleftrightarrow> Q e \<or> R e" "\<And>e. \<not> (Q e \<and> R e)"
  shows "accounts_net db company P K = accounts_net db company Q K + accounts_net db company R K"
proof -
  have "(\<Sum>l\<leftarrow>account_lines db company P a. line_net l) =
      (\<Sum>l\<leftarrow>account_lines db company Q a. line_net l) + (\<Sum>l\<leftarrow>account_lines db company R a. line_net l)" for a
  proof -
    have "(\<Sum>l\<leftarrow>filter ok (map join_line (filter (\<lambda>(l, e). A l e \<and> P e) ps)). line_net l) =
      (\<Sum>l\<leftarrow>filter ok (map join_line (filter (\<lambda>(l, e). A l e \<and> Q e) ps)). line_net l) +
      (\<Sum>l\<leftarrow>filter ok (map join_line (filter (\<lambda>(l, e). A l e \<and> R e) ps)). line_net l)" for ok A ps
      using assms by (induction ps) auto
    from this[where A = "\<lambda>l e. ln_company l = company \<and> entry_key e = line_entry_key l \<and> en_is_posted e = 1"]
    show ?thesis by (simp add: account_lines_def posted_join_def)
  qed
  then show ?thesis
    unfolding accounts_net_def sum_list_addf[symmetric]
    by (intro arg_cong[where f = sum_list] map_cong) auto
qed

lemma accounts_net_all:
  assumes "journal_ok db" "accounts_keyed db"
  shows "accounts_net db company P UNIV = 0"
  using accounts_sum[OF _ assms(2), where f = line_net] posted_lines_cancel[of db company P] assms(1)
  by (simp add: accounts_net_def journal_ok_def)

lemma accounts_net_classes:
  "accounts_net db company P UNIV = accounts_net db company P {Asset} +
     accounts_net db company P {Liability, Equity} + accounts_net db company P {Income, Cogs, Expense}"
  unfolding accounts_net_def sum_list_addf[symmetric]
proof (rule arg_cong[where f = sum_list], rule map_cong[OF refl])
  fix a
  show "(if ac_classification a \<in> UNIV then x else 0 :: int) =
      (if ac_classification a \<in> {Asset} then x else 0) + (if ac_classification a \<in> {Liability, Equity} then x else 0) +
      (if ac_classification a \<in> {Income, Cogs, Expense} then x else 0)" for x
    by (cases "ac_classification a") simp_all
qed

lemma accounts_net_pnl:
  "accounts_net db company P {Income, Cogs, Expense} = accounts_net db company P {Income} +
     accounts_net db company P {Cogs} + accounts_net db company P {Expense}"
  unfolding accounts_net_def sum_list_addf[symmetric]
proof (rule arg_cong[where f = sum_list], rule map_cong[OF refl])
  fix a
  show "(if ac_classification a \<in> {Income, Cogs, Expense} then x else 0 :: int) =
      (if ac_classification a \<in> {Income} then x else 0) + (if ac_classification a \<in> {Cogs} then x else 0) +
      (if ac_classification a \<in> {Expense} then x else 0)" for x
    by (cases "ac_classification a") simp_all
qed

text \<open>Posted lines of earlier calendar years: the ones whose income is in no row of the sheet.\<close>

definition before_year :: "naive_date \<Rightarrow> entry_row \<Rightarrow> bool" where
  "before_year as_of e \<longleftrightarrow> en_entry_date e \<le> as_of \<and> en_entry_date e < Ymd (year as_of) 1 1"

lemma balance_sheet_gap:
  assumes "balance_sheet db company as_of = Inr bt" "journal_ok db" "accounts_keyed db"
  shows "cents (bx_total (bt_assets bt)) - cents (bt_total_liabilities_and_equity bt) =
    - accounts_net db company (before_year as_of) {Income, Cogs, Expense}"
proof -
  let ?P = "\<lambda>e. en_entry_date e \<le> as_of"
  let ?start = "Ymd (year as_of) 1 1"
  from assms(1) obtain raw x y z pl where raw: "try_map (account_sums db company ?P) (filter is_sheet (list_accounts db company)) = Inr raw"
    and fold: "try_fold bs_step (empty_bs_section, empty_bs_section, empty_bs_section) raw = Inr (x, y, z)"
    and pl: "profit_and_loss db company ?start as_of = Inr pl"
    and bt: "bt_assets bt = x" "cents (bt_total_liabilities_and_equity bt) = cents (bx_total y) + cents (bx_total z) + cents (pl_net_income pl)"
    by (auto simp: balance_sheet_def Let_def checked_add_Inr)
  have K: "{Asset} \<inter> {Asset, Liability, Equity} = {Asset}"
    "- {Asset} \<inter> {Asset, Liability, Equity} = {Liability, Equity}" by auto
  have assets: "cents (bx_total x) = accounts_net db company ?P {Asset}"
    and rest: "cents (bx_total y) + cents (bx_total z) = - accounts_net db company ?P {Liability, Equity}"
    using bs_fold_totals[OF fold] bs_raw_net[OF raw] by (simp_all add: K)
  have net: "cents (pl_net_income pl) = - accounts_net db company (dated ?start as_of) {Income, Cogs, Expense}"
    using profit_and_loss_facts(1-4)[OF pl] by (simp add: accounts_net_pnl)
  have "accounts_net db company ?P K = accounts_net db company (before_year as_of) K + accounts_net db company (dated ?start as_of) K" for K
    by (rule accounts_net_split) (auto simp: before_year_def dated_def)
  moreover have "accounts_net db company ?P {Asset} + accounts_net db company ?P {Liability, Equity} +
      accounts_net db company ?P {Income, Cogs, Expense} = 0"
    using accounts_net_all[OF assms(2,3)] accounts_net_classes by metis
  ultimately show ?thesis by (simp add: bt assets rest net)
qed

text \<open>
  C9. On a sound book the balance sheet is off by exactly the net income of the calendar years
  before the one of its date: assets exceed liabilities and equity by it. So the sheet
  balances when those years' income accounts cancel, and only then.
\<close>

theorem balance_sheet_off_by_prior_years:
  assumes "balance_sheet db company as_of = Inr bt" and "journal_ok db" and "accounts_keyed db"
  shows "cents (bx_total (bt_assets bt)) - cents (bt_total_liabilities_and_equity bt) =
      - accounts_net db company (before_year as_of) {Income, Cogs, Expense} \<and>
    (cents (bx_total (bt_assets bt)) = cents (bt_total_liabilities_and_equity bt)) =
      (accounts_net db company (before_year as_of) {Income, Cogs, Expense} = 0)"
  using balance_sheet_gap[OF assms] by auto

definition sale_db :: db where
  "sale_db = empty_db\<lparr>
     db_accounts := [(''co'', sample_account CHECKING Asset), (''co'', sample_account SALES_INCOME Income)],
     db_document_versions := [(''co'', sample_version ''doc-1'' JournalEntry (Ymd 2027 12 30))],
     db_journal_entries := [sample_entry_row ''e-1'' ''doc-1'' (Ymd 2027 12 30) 1],
     db_journal_lines := [sample_line_row ''e-1'' (cash_in 1 500),
       sample_line_row ''e-1'' ((credit_line 2 (AccountId SALES_INCOME) (money_of 500))\<lparr>jl_class := Some (ClassId ''foam'')\<rparr>)]\<rparr>"

lemma sale_db_ok: "journal_ok sale_db" "accounts_keyed sale_db"
  by (simp_all add: journal_ok_def posted_balanced_def lines_balance_def accounts_keyed_def statement_eval
      sale_db_def sample_db_defs chart_numbers)

definition year_end_sheet :: balance_sheet_report where
  "year_end_sheet =
     \<lparr>bt_assets = \<lparr>bx_rows = [\<lparr>br_account_id = Some (AccountId CHECKING), br_name = CHECKING, br_balance = money_of 500\<rparr>],
                   bx_total = money_of 500\<rparr>,
      bt_liabilities = empty_bs_section,
      bt_equity = \<lparr>bx_rows = [\<lparr>br_account_id = None, br_name = ''Net income (current year)'', br_balance = money_of 500\<rparr>],
                   bx_total = money_of 500\<rparr>,
      bt_total_liabilities_and_equity = money_of 500\<rparr>"

definition new_year_sheet :: balance_sheet_report where
  "new_year_sheet =
     year_end_sheet\<lparr>bt_equity := \<lparr>bx_rows = [\<lparr>br_account_id = None, br_name = ''Net income (current year)'', br_balance = ZERO\<rparr>],
                                 bx_total = ZERO\<rparr>,
                    bt_total_liabilities_and_equity := ZERO\<rparr>"

lemmas sheet_eval =
  balance_sheet_def profit_and_loss_def pnl_keys_def pnl_row_def pnl_step_def bs_step_def bs_add_def
  is_sheet_def is_pnl_def section_add_def section_finish_def empty_section_def empty_bs_section_def
  sale_db_def year_end_sheet_def new_year_sheet_def sample_db_defs report_eval chart_numbers Let_def

lemma year_end_sheet: "balance_sheet sale_db ''co'' (Ymd 2027 12 31) = Inr year_end_sheet"
  by (simp add: sheet_eval)

lemma new_year_sheet: "balance_sheet sale_db ''co'' (Ymd 2028 1 1) = Inr new_year_sheet"
  by (simp add: sheet_eval)

theorem balance_sheet_off_by_prior_years_witness:
  "cents (bx_total (bt_assets new_year_sheet)) - cents (bt_total_liabilities_and_equity new_year_sheet) =
      - accounts_net sale_db ''co'' (before_year (Ymd 2028 1 1)) {Income, Cogs, Expense} \<and>
    (cents (bx_total (bt_assets new_year_sheet)) = cents (bt_total_liabilities_and_equity new_year_sheet)) =
      (accounts_net sale_db ''co'' (before_year (Ymd 2028 1 1)) {Income, Cogs, Expense} = 0)"
  by (rule balance_sheet_off_by_prior_years[OF new_year_sheet sale_db_ok])

text \<open>
  The gap on a book with one sale: the sheet of 31 December balances, the sheet of the next day
  shows assets of 5.00 against nothing, because the sale's income belongs to no year the sheet
  folds in and there is no closing entry.
\<close>

theorem new_year_sheet_does_not_balance:
  "balance_sheet sale_db ''co'' (Ymd 2027 12 31) = Inr year_end_sheet \<and>
   bx_total (bt_assets year_end_sheet) = bt_total_liabilities_and_equity year_end_sheet \<and>
   balance_sheet sale_db ''co'' (Ymd 2028 1 1) = Inr new_year_sheet \<and>
   cents (bx_total (bt_assets new_year_sheet)) = 500 \<and>
   cents (bt_total_liabilities_and_equity new_year_sheet) = 0"
  using year_end_sheet new_year_sheet by (simp add: new_year_sheet_def year_end_sheet_def in_i64_def)

definition sample_pnl :: pnl where
  "sample_pnl =
     \<lparr>pl_income = \<lparr>se_by_account = [(AccountId SALES_INCOME, money_of 500)],
                   se_by_class = [(Some (ClassId ''foam''), money_of 500)], se_total = money_of 500\<rparr>,
      pl_cogs = \<lparr>se_by_account = [], se_by_class = [], se_total = ZERO\<rparr>,
      pl_expense = \<lparr>se_by_account = [], se_by_class = [], se_total = ZERO\<rparr>,
      pl_gross_margin = money_of 500, pl_net_income = money_of 500\<rparr>"

lemma sample_profit_and_loss: "profit_and_loss sale_db ''co'' (Ymd 2027 1 1) (Ymd 2027 12 31) = Inr sample_pnl"
  by (simp add: sheet_eval sample_pnl_def)

theorem profit_and_loss_correct_witness:
  "cents (se_total (pl_income sample_pnl)) = - accounts_net sale_db ''co'' (dated (Ymd 2027 1 1) (Ymd 2027 12 31)) {Income} \<and>
    cents (se_total (pl_cogs sample_pnl)) = accounts_net sale_db ''co'' (dated (Ymd 2027 1 1) (Ymd 2027 12 31)) {Cogs} \<and>
    cents (se_total (pl_expense sample_pnl)) = accounts_net sale_db ''co'' (dated (Ymd 2027 1 1) (Ymd 2027 12 31)) {Expense} \<and>
    cents (pl_net_income sample_pnl) = cents (se_total (pl_income sample_pnl)) - cents (se_total (pl_cogs sample_pnl)) - cents (se_total (pl_expense sample_pnl)) \<and>
    list_all (\<lambda>s. values_cents (se_by_account s) = cents (se_total s) \<and> values_cents (se_by_class s) = cents (se_total s))
      [pl_income sample_pnl, pl_cogs sample_pnl, pl_expense sample_pnl]"
  by (rule profit_and_loss_correct[OF sample_profit_and_loss])

end
