(* ===== verification/Posting_Outcome.thy ===== *)
theory Posting_Outcome
  imports Posting_Balance
begin

text \<open>
  What an entry says about its document: when a document posts nothing, when the debug
  assertion of \<open>post\<close> can fail, what voiding does, what merging keeps, which lines carry a
  class, and the amounts of the control accounts. Theorems over \<open>post\<close> (post.rs).
\<close>

section \<open>Range of the totals\<close>

text \<open>
  \<open>is_balanced\<close> on a posted entry says exactly that its debit column fits in 64 bits, and a
  journal entry, or any entry of a build with debug assertions, passes \<open>is_balanced\<close>.
\<close>

theorem post_entry_is_balanced:
  assumes "post dbg D doc version ctx = Inr (Entry e)"
  shows "is_balanced e = in_i64 (debit_cents e) \<and> (doc_kind doc \<noteq> JournalEntry \<and> \<not> dbg \<or> is_balanced e)"
  using post_entry_facts[OF assms] by (auto simp: is_balanced_iff)

theorem post_entry_is_balanced_witness:
  "is_balanced (receipt_entry 1) = in_i64 (debit_cents (receipt_entry 1)) \<and>
   (doc_kind receipt_doc \<noteq> JournalEntry \<and> \<not> True \<or> is_balanced (receipt_entry 1))"
  by (rule post_entry_is_balanced[OF receipt_posts])

definition classed_line :: "int \<Rightarrow> string \<Rightarrow> int \<Rightarrow> string \<Rightarrow> doc_line" where
  "classed_line no number amount class = (account_doc_line no Account number amount)\<lparr>dl_class := Some (ClassId class)\<rparr>"

definition overflow_doc :: ledger_document where
  "overflow_doc = minimal_doc InventoryAdjustment
     [classed_line 1 INVENTORY_RAW 5000000000000000000 ''Service'',
      classed_line 2 INVENTORY_FINISHED 5000000000000000000 ''Retail'']"

definition overflow_entry :: journal_entry where
  "overflow_entry = entry_of overflow_doc 1
     [debit_line 1 (acct INVENTORY_RAW) (money_of 5000000000000000000),
      (credit_line 2 (acct INVENTORY_ADJUSTMENT) (money_of 5000000000000000000))\<lparr>jl_class := Some (ClassId ''Service'')\<rparr>,
      debit_line 3 (acct INVENTORY_FINISHED) (money_of 5000000000000000000),
      (credit_line 4 (acct INVENTORY_ADJUSTMENT) (money_of 5000000000000000000))\<lparr>jl_class := Some (ClassId ''Retail'')\<rparr>]"

lemma overflow_posts: "post False reference_ops overflow_doc 1 default_context = Inr (Entry overflow_entry)"
  by (simp add: overflow_doc_def overflow_entry_def classed_line_def sample_defs post_eval
      post_inventory_adjustment_def adjustment_line_def is_inventory_asset_def entry_of_def)

text \<open>
  The release build's gap, on a concrete stock adjustment: its two lines fit, its debit column
  does not. Without debug assertions \<open>post\<close> returns an entry its own \<open>is_balanced\<close>
  rejects; with them it panics.
\<close>

theorem release_build_returns_overflowing_entry:
  "post False reference_ops overflow_doc 1 default_context = Inr (Entry overflow_entry) \<and>
   \<not> is_balanced overflow_entry \<and> debit_cents overflow_entry = credit_cents overflow_entry \<and>
   post True reference_ops overflow_doc 1 default_context = Inl Panic"
proof -
  have "\<not> is_balanced overflow_entry" "debit_cents overflow_entry = credit_cents overflow_entry"
    by (simp_all add: is_balanced_iff overflow_entry_def entry_of_def debit_cents_def credit_cents_def
        debit_line_def credit_line_def in_i64_def)
  moreover from this(1) have "post True reference_ops overflow_doc 1 default_context = Inl Panic"
    using overflow_posts
    by (auto simp: post_def Let_def overflow_doc_def minimal_doc_def apply_void_def
        split: if_splits sum.splits)
  ultimately show ?thesis using overflow_posts by simp
qed

section \<open>Documents that post nothing\<close>

lemma merge_fold_zero:
  "list_all (\<lambda>l. is_zero (leg_amount l)) legs \<Longrightarrow> try_fold merge_step [] legs = Inr []"
  by (induction legs) (auto simp: merge_step_def)

lemma merge_step_Nil: "merge_step merged leg = Inr [] \<Longrightarrow> merged = [] \<and> is_zero (leg_amount leg)"
  by (cases merged) (auto simp: merge_step_def split: if_splits)

lemma merge_fold_Nil_iff:
  "try_fold merge_step merged legs = Inr [] \<longleftrightarrow>
     merged = [] \<and> list_all (\<lambda>l. is_zero (leg_amount l)) legs"
proof (induction legs arbitrary: merged)
  case (Cons l ls)
  show ?case
    by (auto simp: Cons.IH dest: merge_step_Nil) (auto simp: merge_step_def)
qed auto

lemma merge_legs_Nil_iff:
  "merge_legs legs = Inr [] \<longleftrightarrow> list_all (\<lambda>l. is_zero (leg_amount l)) legs"
proof
  assume "merge_legs legs = Inr []"
  then obtain merged where m: "try_fold merge_step [] legs = Inr merged" "number_legs 1 merged = []"
    by (auto simp: merge_legs_def)
  have "merged_ok (\<lambda>_ _. True) merged" using merge_fold(3)[OF m(1)] by simp
  with m(2) have "merged = []"
    by (cases merged) (auto simp: merged_ok_def is_zero_cents)
  with m(1) show "list_all (\<lambda>l. is_zero (leg_amount l)) legs" by (simp add: merge_fold_Nil_iff)
next
  assume "list_all (\<lambda>l. is_zero (leg_amount l)) legs"
  then have "try_fold merge_step [] legs = Inr []" by (simp add: merge_fold_Nil_iff)
  then show "merge_legs legs = Inr []" by (simp add: merge_legs_def)
qed

lemma not_posts [simp]: "\<not> posts k \<longleftrightarrow> is_contract k"
  by (simp add: posts_def)

text \<open>
  \<open>post\<close> answers "no entry" exactly for the contract kinds (estimates and orders), whatever
  they hold, and for documents all of whose legs are zero.
\<close>

theorem post_nothing_iff:
  "post dbg D doc version ctx = Inr NonPosting \<longleftrightarrow>
     is_contract (doc_kind doc) \<or>
     (\<exists>legs. post_legs D doc ctx = Inr legs \<and> list_all (\<lambda>l. is_zero (leg_amount l)) legs)"
proof (cases "is_contract (doc_kind doc)")
  case True
  then show ?thesis by (simp add: post_def)
next
  case False
  show ?thesis
  proof (cases "post_legs D doc ctx")
    case (Inl f)
    with False show ?thesis by (simp add: post_def)
  next
    case (Inr legs)
    with False merge_legs_Nil_iff[of legs] show ?thesis
      by (cases "merge_legs legs") (auto simp: post_def finalize_entry_of)
  qed
qed

section \<open>Voiding\<close>

lemma line_rules_voided [simp]:
  "revenue_line D (doc\<lparr>doc_is_voided := v\<rparr>) ctx = revenue_line D doc ctx"
  "returns_line D (doc\<lparr>doc_is_voided := v\<rparr>) ctx = returns_line D doc ctx"
  "purchase_line mk (doc\<lparr>doc_is_voided := v\<rparr>) ctx = purchase_line mk doc ctx"
  "deposit_line (doc\<lparr>doc_is_voided := v\<rparr>) = deposit_line doc"
  "journal_leg (doc\<lparr>doc_is_voided := v\<rparr>) = journal_leg doc"
  "adjustment_line (doc\<lparr>doc_is_voided := v\<rparr>) = adjustment_line doc"
  "named_account_amount (doc\<lparr>doc_is_voided := v\<rparr>) = named_account_amount doc"
  by (intro ext; simp add: revenue_line_def returns_line_def purchase_line_def deposit_line_def
      journal_leg_def adjustment_line_def named_account_amount_def Let_def case_prod_unfold cong: line_kind.case_cong if_cong)+

lemma rules_voided [simp]:
  "revenue_legs D (doc\<lparr>doc_is_voided := v\<rparr>) ctx = revenue_legs D doc ctx"
  "returns_legs D (doc\<lparr>doc_is_voided := v\<rparr>) ctx = returns_legs D doc ctx"
  "post_payment (doc\<lparr>doc_is_voided := v\<rparr>) ctx = post_payment doc ctx"
  "post_bank_line (doc\<lparr>doc_is_voided := v\<rparr>) ctx = post_bank_line doc ctx"
  "post_settlement (doc\<lparr>doc_is_voided := v\<rparr>) ctx = post_settlement doc ctx"
  "post_build (doc\<lparr>doc_is_voided := v\<rparr>) = post_build doc"
  by (simp_all add: revenue_legs_def returns_legs_def post_payment_def subtotal_def post_bank_line_def
      post_settlement_def post_build_def Let_def case_prod_unfold cong: option.case_cong if_cong)

lemma post_legs_voided [simp]: "post_legs D (doc\<lparr>doc_is_voided := v\<rparr>) ctx = post_legs D doc ctx"
  by (cases "doc_kind doc")
    (simp_all add: post_legs_def post_journal_entry_def post_invoice_def post_sales_receipt_def
      post_credit_memo_def post_refund_receipt_def post_bill_def post_bill_payment_def
      post_vendor_credit_def post_purchase_def post_deposit_def post_raw_material_receipt_def
      post_inventory_adjustment_def)

lemma entry_of_voided [simp]: "entry_of (doc\<lparr>doc_is_voided := v\<rparr>) version lines = entry_of doc version lines"
  by (simp add: entry_of_def)

lemma post_voided_entry:
  assumes "post dbg D (doc\<lparr>doc_is_voided := False\<rparr>) version ctx = Inr (Entry e)"
  shows "post dbg D (doc\<lparr>doc_is_voided := True\<rparr>) version ctx = Inr (Entry (apply_void e True))"
  using assms by (auto simp: post_Entry_iff apply_void_def)

text \<open>
  A voided document posts if and only if the live one does, and its entry gives back every
  account's movement, line for line, with the memo marked.
\<close>

theorem void_undoes_every_account:
  assumes "post dbg D (doc\<lparr>doc_is_voided := False\<rparr>) version ctx = Inr (Entry e)"
  shows "\<exists>v. post dbg D (doc\<lparr>doc_is_voided := True\<rparr>) version ctx = Inr (Entry v) \<and>
    (\<forall>a. account_net a (je_lines v) + account_net a (je_lines e) = 0) \<and>
    map jl_line_no (je_lines v) = map jl_line_no (je_lines e) \<and>
    je_memo v = Some (''VOID: '' @ unwrap_or (je_memo e) []) \<and> je_source_id v = je_source_id e"
  using post_voided_entry[OF assms]
  by (intro exI[of _ "apply_void e True"]) (simp_all add: apply_void_def o_def)

lemma receipt_doc_live: "receipt_doc\<lparr>doc_is_voided := False\<rparr> = receipt_doc"
  by (simp add: receipt_doc_def minimal_doc_def)

theorem void_undoes_every_account_witness:
  "\<exists>v. post True reference_ops (receipt_doc\<lparr>doc_is_voided := True\<rparr>) 1 default_context = Inr (Entry v) \<and>
    (\<forall>a. account_net a (je_lines v) + account_net a (je_lines (receipt_entry 1)) = 0) \<and>
    map jl_line_no (je_lines v) = map jl_line_no (je_lines (receipt_entry 1)) \<and>
    je_memo v = Some (''VOID: '' @ unwrap_or (je_memo (receipt_entry 1)) []) \<and>
    je_source_id v = je_source_id (receipt_entry 1)"
  by (rule void_undoes_every_account) (simp add: receipt_doc_live receipt_posts)

section \<open>Merging\<close>

text \<open>
  Merging keeps what each account moves, writes one line per account, class, entity, side
  and taxability, and numbers the lines; every line has one positive side even though
  the legs may be negative.
\<close>

theorem merge_keeps_movements:
  assumes "merge_legs legs = Inr lines"
  shows "account_net a lines = leg_net a legs \<and> distinct (map line_key lines) \<and>
    list_all one_sided lines \<and> map jl_line_no lines = map int [1..<Suc (length lines)]"
  using merge_legs_facts(1-4)[OF assms] by (simp add: lines_numbered_def)

definition sample_legs :: "leg list" where
  "sample_legs =
     [credit (acct SALES_INCOME) (money_of 500) None None, credit (acct SALES_INCOME) (money_of 700) None None,
      debit (acct SALES_INCOME) (money_of (- 300)) None None, debit (acct CHECKING) (money_of 1500) None None]"

definition sample_lines :: "journal_line list" where
  "sample_lines =
     [credit_line 1 (acct SALES_INCOME) (money_of 1500), debit_line 2 (acct CHECKING) (money_of 1500)]"

lemma sample_merge: "merge_legs sample_legs = Inr sample_lines"
  by (simp add: sample_legs_def sample_lines_def post_eval)

theorem merge_keeps_movements_witness:
  "account_net (acct SALES_INCOME) sample_lines = leg_net (acct SALES_INCOME) sample_legs \<and>
   distinct (map line_key sample_lines) \<and> list_all one_sided sample_lines \<and>
   map jl_line_no sample_lines = map int [1..<Suc (length sample_lines)]"
  by (rule merge_keeps_movements[OF sample_merge])

section \<open>The class rule\<close>

definition classed :: "account_id \<Rightarrow> class_id option \<Rightarrow> bool" where
  "classed a c \<longleftrightarrow> requires_class a = (c \<noteq> None)"

definition legs_classed :: "leg list \<Rightarrow> bool" where
  "legs_classed legs \<longleftrightarrow> list_all (\<lambda>l. classed (leg_account l) (leg_class l)) legs"

text \<open>
  The accounts a document or the configuration names without a class must be balance-sheet
  accounts, and a settlement's fee line must name its class: \<open>post_settlement\<close> copies the
  class from the line and never asks for one.
\<close>

definition classless :: "account_id option \<Rightarrow> bool" where
  "classless a \<longleftrightarrow> (case a of None \<Rightarrow> True | Some a \<Rightarrow> \<not> requires_class a)"

definition cash_accounts_ok :: "ledger_document \<Rightarrow> posting_context \<Rightarrow> bool" where
  "cash_accounts_ok doc ctx \<longleftrightarrow>
     classless (doc_deposit_to doc) \<and> classless (doc_pay_from doc) \<and>
     \<not> requires_class (cfg_default_deposit_account (ctx_config ctx)) \<and>
     \<not> requires_class (cfg_default_bank_account (ctx_config ctx)) \<and>
     (\<forall>item \<in> ran (ctx_items ctx). classless (ia_asset item)) \<and>
     list_all (\<lambda>line. \<not> is_account_named line MERCHANT_FEES \<or> dl_class line \<noteq> None) (doc_lines doc)"

locale classed_builder = leg_builder build
  for build :: "ledger_document \<Rightarrow> posting_context \<Rightarrow> leg list post_res" +
  assumes build_classed: "build doc ctx = Inr legs \<Longrightarrow> cash_accounts_ok doc ctx \<Longrightarrow> legs_classed legs"

lemma legs_classed_simps [simp]:
  "legs_classed []" "legs_classed (l # ls) \<longleftrightarrow> classed (leg_account l) (leg_class l) \<and> legs_classed ls"
  "legs_classed (xs @ ys) \<longleftrightarrow> legs_classed xs \<and> legs_classed ys"
  by (simp_all add: legs_classed_def)

lemma class_for_classed: "class_for line item header a = Inr c \<Longrightarrow> classed a c"
  by (auto simp: class_for_def classed_def Let_def split: if_splits)

lemma control_accounts_classless [simp]:
  "classed (acct ACCOUNTS_RECEIVABLE) c = (c = None)" "classed (acct ACCOUNTS_PAYABLE) c = (c = None)"
  "classed (acct SALES_TAX_PAYABLE) c = (c = None)" "classed (acct CUSTOMER_DEPOSITS) c = (c = None)"
  "classed (acct UNDEPOSITED_FUNDS) c = (c = None)" "classed (acct AUTHNET_CLEARING) c = (c = None)"
  "classed (acct INVENTORY_RAW) c = (c = None)" "classed (acct INVENTORY_FINISHED) c = (c = None)"
  "classed (acct INVENTORY_RECEIVED_NOT_BILLED) c = (c = None)"
  by (simp_all add: classed_def requires_class_def acct_def chart_numbers)

lemma income_accounts_classed [simp]:
  "classed (acct SALES_INCOME) c = (c \<noteq> None)" "classed (acct COGS) c = (c \<noteq> None)"
  "classed (acct RETURNS_ALLOWANCES) c = (c \<noteq> None)" "classed (acct MERCHANT_FEES) c = (c \<noteq> None)"
  "classed (acct INVENTORY_ADJUSTMENT) c = (c \<noteq> None)" "classed (acct PARTS_LABOUR_APPLIED) c = (c \<noteq> None)"
  "classed (acct MANUFACTURING_VARIANCE) c = (c \<noteq> None)"
  by (simp_all add: classed_def requires_class_def acct_def chart_numbers)

lemma inventory_asset_classless [simp]: "is_inventory_asset (account_no a) \<Longrightarrow> classed a c = (c = None)"
  by (cases a) (auto simp: is_inventory_asset_def classed_def requires_class_def split: list.splits)

lemma cash_accounts_classed:
  assumes "cash_accounts_ok doc ctx"
  shows "classed (unwrap_or (doc_deposit_to doc) (cfg_default_bank_account (ctx_config ctx))) None"
    "classed (unwrap_or (doc_deposit_to doc) (cfg_default_deposit_account (ctx_config ctx))) None"
    "classed (unwrap_or (doc_pay_from doc) (cfg_default_bank_account (ctx_config ctx))) None"
    "classed (unwrap_or (doc_deposit_to doc) (acct UNDEPOSITED_FUNDS)) None"
    "classed (unwrap_or (or_else (doc_deposit_to doc) (doc_pay_from doc)) (cfg_default_bank_account (ctx_config ctx))) None"
  using assms control_accounts_classless(5)[of None]
  by (auto simp: cash_accounts_ok_def classless_def classed_def unwrap_or_def or_else_def split: option.splits)

lemma lookup_item_asset:
  assumes "lookup_item ctx i = Inr (Some item)" "cash_accounts_ok doc ctx" "ia_asset item = Some a"
  shows "classed a None"
  using assms by (auto simp: lookup_item_def cash_accounts_ok_def classless_def classed_def ran_def
      split: option.splits)

lemma inventory_legs_classed:
  assumes "lookup_item ctx i = Inr item" "cash_accounts_ok doc ctx" "c \<noteq> None" "legs_classed legs"
  shows "post_inventory_cogs D legs line item c = Inr legs' \<Longrightarrow> legs_classed legs'"
    "post_inventory_return D legs line item c = Inr legs' \<Longrightarrow> legs_classed legs'"
  using assms
  by (auto simp: post_inventory_cogs_def post_inventory_return_def lookup_item_asset
      split: option.splits if_splits)

lemma fold_classed:
  assumes "try_fold f ([], ZERO) xs = Inr (legs, tot)"
    and "\<And>x legs tot legs' tot'. x \<in> set xs \<Longrightarrow> legs_classed legs \<Longrightarrow> f (legs, tot) x = Inr (legs', tot') \<Longrightarrow> legs_classed legs'"
  shows "legs_classed legs"
proof -
  have "case (legs, tot) of (legs, tot) \<Rightarrow> legs_classed legs"
    using assms(1) by (rule try_fold_invariant) (use assms(2) in \<open>auto split: prod.splits\<close>)
  then show ?thesis by simp
qed

lemma revenue_line_classed:
  assumes "revenue_line D doc ctx (legs, tot) line = Inr (legs', tot')"
    "cash_accounts_ok doc ctx" "legs_classed legs"
  shows "legs_classed legs'"
  using assms
  by (auto simp: revenue_line_def Let_def case_prod_unfold split: line_kind.splits
      dest!: class_for_classed dest: inventory_legs_classed(1)[rotated -1])

lemma returns_line_classed:
  assumes "returns_line D doc ctx (legs, tot) line = Inr (legs', tot')"
    "cash_accounts_ok doc ctx" "legs_classed legs"
  shows "legs_classed legs'"
  using assms
  by (auto simp: returns_line_def Let_def split: if_splits
      dest!: class_for_classed dest: inventory_legs_classed(2)[rotated -1])

lemma revenue_fold_classed:
  assumes "try_fold (revenue_line D doc ctx) ([], ZERO) ls = Inr (legs, tot)" "cash_accounts_ok doc ctx"
  shows "legs_classed legs"
  using assms(1) by (rule fold_classed) (rule revenue_line_classed[OF _ assms(2)])

lemma revenue_legs_classed:
  "revenue_legs D doc ctx = Inr (legs, tot) \<Longrightarrow> cash_accounts_ok doc ctx \<Longrightarrow> legs_classed legs"
  by (auto simp: revenue_legs_def Let_def split: option.splits) (drule revenue_fold_classed; simp)+

lemma returns_fold_classed:
  assumes "try_fold (returns_line D doc ctx) ([], ZERO) ls = Inr (legs, tot)" "cash_accounts_ok doc ctx"
  shows "legs_classed legs"
  using assms(1) by (rule fold_classed) (rule returns_line_classed[OF _ assms(2)])

lemma returns_legs_classed:
  "returns_legs D doc ctx = Inr (legs, tot) \<Longrightarrow> cash_accounts_ok doc ctx \<Longrightarrow> legs_classed legs"
  by (auto simp: returns_legs_def Let_def split: option.splits) (drule returns_fold_classed; simp)+

lemma purchase_fold_classed:
  assumes "try_fold (purchase_line mk doc ctx) ([], ZERO) (doc_lines doc) = Inr (legs, tot)"
    and "\<And>a m c e. leg_account (mk a m c e) = a \<and> leg_class (mk a m c e) = c"
  shows "legs_classed legs"
  using assms(1)
  by (rule fold_classed)
    (auto simp: purchase_line_def Let_def assms(2) split: line_kind.splits dest!: class_for_classed)

lemma deposit_fold_classed:
  assumes "try_fold (deposit_line doc) ([], ZERO) (doc_lines doc) = Inr (legs, tot)"
  shows "legs_classed legs"
  using assms
  by (rule fold_classed) (auto simp: deposit_line_def Let_def split: if_splits dest!: class_for_classed)

lemma adjustment_fold_classed:
  assumes "try_fold (adjustment_line doc) [] ls = Inr legs"
  shows "legs_classed legs"
  using assms
  by (rule try_fold_invariant) (auto simp: adjustment_line_def Let_def split: if_splits option.splits)

lemma journal_fold_classed:
  assumes "try_fold (journal_leg doc) [] ls = Inr legs"
  shows "legs_classed legs"
  using assms
  by (rule try_fold_invariant) (auto simp: journal_leg_def split: if_splits dest!: class_for_classed)

lemma settlement_classed:
  assumes "post_settlement doc ctx = Inr legs" "cash_accounts_ok doc ctx"
  shows "legs_classed legs"
  using assms
  by (auto simp: post_settlement_def Let_def cash_accounts_classed cash_accounts_ok_def list_all_iff
      is_zero_cents split: if_splits option.splits dest!: find_map_Some)

interpretation invoice: classed_builder "post_invoice D" for D
  by unfold_locales (auto simp: post_invoice_def dest: revenue_legs_classed)

interpretation sales_receipt: classed_builder "post_sales_receipt D" for D
  by unfold_locales (auto simp: post_sales_receipt_def Let_def cash_accounts_classed dest: revenue_legs_classed)

interpretation credit_memo: classed_builder "post_credit_memo D" for D
  by unfold_locales (auto simp: post_credit_memo_def dest: returns_legs_classed)

interpretation refund_receipt: classed_builder "post_refund_receipt D" for D
  by unfold_locales (auto simp: post_refund_receipt_def Let_def cash_accounts_classed dest: returns_legs_classed)

interpretation payment: classed_builder post_payment
  by unfold_locales (auto simp: post_payment_def Let_def cash_accounts_classed split: if_splits)

interpretation bill: classed_builder post_bill
  by unfold_locales (auto simp: post_bill_def dest: purchase_fold_classed)

interpretation bill_payment: classed_builder post_bill_payment
  by unfold_locales (auto simp: post_bill_payment_def Let_def cash_accounts_classed)

interpretation vendor_credit: classed_builder post_vendor_credit
  by unfold_locales (auto simp: post_vendor_credit_def dest: purchase_fold_classed)

interpretation purchase: classed_builder post_purchase
  by unfold_locales (auto simp: post_purchase_def Let_def cash_accounts_classed dest: purchase_fold_classed)

interpretation deposit: classed_builder post_deposit
  by unfold_locales (auto simp: post_deposit_def Let_def cash_accounts_classed dest: deposit_fold_classed)

interpretation bank_line: classed_builder post_bank_line
  by unfold_locales
    (auto simp: post_bank_line_def Let_def cash_accounts_classed split: if_splits dest!: class_for_classed)

interpretation settlement: classed_builder post_settlement
  by unfold_locales (rule settlement_classed)

interpretation raw_material_receipt: classed_builder "\<lambda>doc ctx. post_raw_material_receipt doc"
  by unfold_locales (auto simp: post_raw_material_receipt_def)

interpretation build: classed_builder "\<lambda>doc ctx. post_build doc"
  by unfold_locales (auto simp: post_build_def Let_def split: if_splits)

interpretation inventory_adjustment: classed_builder "\<lambda>doc ctx. post_inventory_adjustment doc"
  by unfold_locales (auto simp: post_inventory_adjustment_def dest: adjustment_fold_classed split: if_splits)

lemmas rules_classed =
  invoice.build_classed sales_receipt.build_classed credit_memo.build_classed refund_receipt.build_classed
  payment.build_classed bill.build_classed bill_payment.build_classed vendor_credit.build_classed
  purchase.build_classed deposit.build_classed bank_line.build_classed settlement.build_classed
  raw_material_receipt.build_classed build.build_classed inventory_adjustment.build_classed

lemma post_legs_classed:
  "post_legs D doc ctx = Inr legs \<Longrightarrow> cash_accounts_ok doc ctx \<Longrightarrow> legs_classed legs"
  by (auto simp: post_legs_def post_journal_entry_def dest: rules_classed journal_fold_classed
      split: doc_kind.splits if_splits)

lemma post_entry_classed:
  assumes "post dbg D doc version ctx = Inr (Entry e)" and "cash_accounts_ok doc ctx"
  shows "list_all (\<lambda>l. classed (jl_account l) (jl_class l)) (je_lines e)"
proof -
  from assms(1) obtain legs lines where p:
    "post_legs D doc ctx = Inr legs" "merge_legs legs = Inr lines"
    "e = apply_void (entry_of doc version lines) (doc_is_voided doc)"
    by (auto simp: post_Entry_iff)
  have "legs_classed legs" using post_legs_classed[OF p(1) assms(2)] .
  then have "list_all (\<lambda>l. classed (jl_account l) (jl_class l)) lines"
    using merge_legs_facts(6)[where P = classed, OF p(2)] by (simp add: legs_classed_def list_all_iff)
  then show ?thesis by (simp add: p(3) list_all_iff)
qed



section \<open>The amounts of an invoice\<close>

definition kind_total :: "line_kind \<Rightarrow> ledger_document \<Rightarrow> int" where
  "kind_total k doc = (\<Sum>line\<leftarrow>doc_lines doc. if dl_kind line = k then cents (dl_amount line) else 0)"

definition tax_cents :: "ledger_document \<Rightarrow> int" where
  "tax_cents doc = (case doc_tax doc of None \<Rightarrow> 0 | Some tax \<Rightarrow> cents (td_total_tax tax))"

definition revenue_accounts :: "account_id set" where
  "revenue_accounts = {acct ACCOUNTS_RECEIVABLE, acct SALES_INCOME, acct SHIPPING_INCOME,
     acct DISCOUNTS_GIVEN, acct SALES_TAX_PAYABLE}"

text \<open>No item uses one of the invoice's own accounts as its inventory asset.\<close>

definition assets_apart :: "posting_context \<Rightarrow> bool" where
  "assets_apart ctx \<longleftrightarrow> (\<forall>item \<in> ran (ctx_items ctx). \<forall>a \<in> revenue_accounts. ia_asset item \<noteq> Some a)"

definition revenue_weight :: "account_id \<Rightarrow> doc_line \<Rightarrow> int" where
  "revenue_weight a line =
     (case dl_kind line of
        Item \<Rightarrow> if a = acct SALES_INCOME then - cents (dl_amount line) else 0
      | Shipping \<Rightarrow> if a = acct SHIPPING_INCOME then - cents (dl_amount line) else 0
      | Discount \<Rightarrow> if a = acct DISCOUNTS_GIVEN then cents (dl_amount line) else 0
      | _ \<Rightarrow> 0)"

lemma revenue_accounts_distinct [simp]:
  "acct COGS \<notin> revenue_accounts"
  "distinct [acct ACCOUNTS_RECEIVABLE, acct SALES_INCOME, acct SHIPPING_INCOME,
     acct DISCOUNTS_GIVEN, acct SALES_TAX_PAYABLE]"
  by (simp_all add: revenue_accounts_def acct_def chart_numbers)

lemma cogs_leg_net:
  assumes "post_inventory_cogs D legs line item c = Inr legs'" "lookup_item ctx i = Inr item"
    "assets_apart ctx" "a \<in> revenue_accounts"
  shows "leg_net a legs' = leg_net a legs"
proof -
  have "acct COGS \<noteq> a" using assms(4) revenue_accounts_distinct(1) by metis
  with assms show ?thesis
    by (auto simp: post_inventory_cogs_def lookup_item_def assets_apart_def ran_def
        split: option.splits if_splits)
qed

lemma revenue_line_weight:
  assumes "revenue_line D doc ctx (legs, tot) line = Inr (legs', tot')" "assets_apart ctx" "a \<in> revenue_accounts"
  shows "leg_net a legs' = leg_net a legs + revenue_weight a line"
  using assms
  by (auto simp: revenue_line_def revenue_weight_def Let_def case_prod_unfold cogs_leg_net
      split: line_kind.splits)

lemma revenue_fold_weight:
  assumes "try_fold (revenue_line D doc ctx) ([], ZERO) ls = Inr (legs, tot)"
    "assets_apart ctx" "a \<in> revenue_accounts"
  shows "leg_net a legs = (\<Sum>line\<leftarrow>ls. revenue_weight a line)"
proof -
  have "leg_net a (fst (legs, tot)) = leg_net a (fst ([], ZERO)) + (\<Sum>line\<leftarrow>ls. revenue_weight a line)"
    using assms(1)
    by (rule try_fold_weighted[where v = "\<lambda>st. leg_net a (fst st)"])
      (auto dest: revenue_line_weight[OF _ assms(2,3)])
  then show ?thesis by simp
qed

lemma revenue_weights:
  "(\<Sum>line\<leftarrow>ls. revenue_weight (acct SALES_INCOME) line) =
     - (\<Sum>line\<leftarrow>ls. if dl_kind line = Item then cents (dl_amount line) else 0)"
  "(\<Sum>line\<leftarrow>ls. revenue_weight (acct SHIPPING_INCOME) line) =
     - (\<Sum>line\<leftarrow>ls. if dl_kind line = Shipping then cents (dl_amount line) else 0)"
  "(\<Sum>line\<leftarrow>ls. revenue_weight (acct DISCOUNTS_GIVEN) line) =
     (\<Sum>line\<leftarrow>ls. if dl_kind line = Discount then cents (dl_amount line) else 0)"
  "(\<Sum>line\<leftarrow>ls. revenue_weight (acct ACCOUNTS_RECEIVABLE) line) = 0"
  "(\<Sum>line\<leftarrow>ls. revenue_weight (acct SALES_TAX_PAYABLE) line) = 0"
  using revenue_accounts_distinct(2)
  by (induction ls; auto simp: revenue_weight_def split: line_kind.split)+

definition total_weight :: "doc_line \<Rightarrow> int" where
  "total_weight line =
     (case dl_kind line of
        Item \<Rightarrow> cents (dl_amount line)
      | Shipping \<Rightarrow> cents (dl_amount line)
      | Discount \<Rightarrow> - cents (dl_amount line)
      | _ \<Rightarrow> 0)"

lemma revenue_total:
  assumes "revenue_legs D doc ctx = Inr (legs, tot)"
  shows "cents tot = kind_total Item doc + kind_total Shipping doc - kind_total Discount doc + tax_cents doc"
proof -
  have fold: "cents tot = kind_total Item doc + kind_total Shipping doc - kind_total Discount doc"
    if "try_fold (revenue_line D doc ctx) ([], ZERO) (doc_lines doc) = Inr (legs, tot)" for legs tot
  proof -
    have "cents (snd (legs, tot)) = cents (snd ([] :: leg list, ZERO)) + (\<Sum>line\<leftarrow>doc_lines doc. total_weight line)"
      using that
      by (rule try_fold_weighted[where v = "\<lambda>st. cents (snd st)"])
        (auto simp: revenue_line_def total_weight_def Let_def case_prod_unfold checked_add_Inr checked_sub_Inr
          split: line_kind.splits)
    moreover have "(\<Sum>line\<leftarrow>ls. total_weight line) = (\<Sum>line\<leftarrow>ls. if dl_kind line = Item then cents (dl_amount line) else 0)
        + (\<Sum>line\<leftarrow>ls. if dl_kind line = Shipping then cents (dl_amount line) else 0)
        - (\<Sum>line\<leftarrow>ls. if dl_kind line = Discount then cents (dl_amount line) else 0)" for ls
      by (induction ls) (auto simp: total_weight_def split: line_kind.split)
    ultimately show ?thesis by (simp add: kind_total_def)
  qed
  from assms show ?thesis
    by (auto simp: revenue_legs_def Let_def tax_cents_def checked_add_Inr split: option.splits dest!: fold)
qed

lemma post_entry_nets:
  assumes "post dbg D doc version ctx = Inr (Entry e)" "\<not> doc_is_voided doc"
  shows "\<exists>legs. post_legs D doc ctx = Inr legs \<and> (\<forall>a. account_net a (je_lines e) = leg_net a legs)"
proof -
  from assms obtain legs lines where p: "post_legs D doc ctx = Inr legs" "merge_legs legs = Inr lines"
    "e = entry_of doc version lines"
    by (auto simp: post_Entry_iff apply_void_def)
  then show ?thesis using merge_legs_facts(4)[OF p(2)] by simp
qed

lemma revenue_legs_nets:
  assumes "revenue_legs D doc ctx = Inr (legs, tot)" "assets_apart ctx"
  shows "leg_net (acct SALES_INCOME) legs = - kind_total Item doc"
    "leg_net (acct SHIPPING_INCOME) legs = - kind_total Shipping doc"
    "leg_net (acct DISCOUNTS_GIVEN) legs = kind_total Discount doc"
    "leg_net (acct SALES_TAX_PAYABLE) legs = - tax_cents doc"
    "leg_net (acct ACCOUNTS_RECEIVABLE) legs = 0"
proof -
  from assms(1) obtain legs' tot' where fold:
    "try_fold (revenue_line D doc ctx) ([], ZERO) (doc_lines doc) = Inr (legs', tot')"
    and legs: "legs = legs' @ (case doc_tax doc of None \<Rightarrow> [] | Some tax \<Rightarrow> [credit (acct SALES_TAX_PAYABLE) (td_total_tax tax) None None])"
    by (auto simp: revenue_legs_def Let_def split: option.splits)
  note weight = revenue_fold_weight[OF fold assms(2)]
  have tail: "leg_net a legs = leg_net a legs' - (if a = acct SALES_TAX_PAYABLE then tax_cents doc else 0)" for a
    by (auto simp: legs tax_cents_def split: option.split)
  have nets: "leg_net a legs' = (\<Sum>line\<leftarrow>doc_lines doc. revenue_weight a line)" if "a \<in> revenue_accounts" for a
    using weight that .
  show "leg_net (acct SALES_INCOME) legs = - kind_total Item doc"
    "leg_net (acct SHIPPING_INCOME) legs = - kind_total Shipping doc"
    "leg_net (acct DISCOUNTS_GIVEN) legs = kind_total Discount doc"
    "leg_net (acct SALES_TAX_PAYABLE) legs = - tax_cents doc"
    "leg_net (acct ACCOUNTS_RECEIVABLE) legs = 0"
    using revenue_accounts_distinct(2)
    by (simp_all add: tail nets revenue_accounts_def revenue_weights kind_total_def)
qed

text \<open>
  C6. An invoice's entry debits receivables with the item and shipping lines less the discounts
  plus the tax, credits sales and shipping income with exactly their lines, debits
  discounts with theirs and credits the tax to the tax liability, whatever cost-of-goods
  lines go with it.
\<close>

theorem invoice_entry_amounts:
  assumes "post dbg D doc version ctx = Inr (Entry e)" and "doc_kind doc = Invoice"
    and "\<not> doc_is_voided doc" and "assets_apart ctx"
  shows "account_net (acct ACCOUNTS_RECEIVABLE) (je_lines e) =
      kind_total Item doc + kind_total Shipping doc - kind_total Discount doc + tax_cents doc \<and>
    account_net (acct SALES_INCOME) (je_lines e) = - kind_total Item doc \<and>
    account_net (acct SHIPPING_INCOME) (je_lines e) = - kind_total Shipping doc \<and>
    account_net (acct DISCOUNTS_GIVEN) (je_lines e) = kind_total Discount doc \<and>
    account_net (acct SALES_TAX_PAYABLE) (je_lines e) = - tax_cents doc"
proof -
  from assms(1,3) obtain legs where legs: "post_legs D doc ctx = Inr legs"
    and net: "\<And>a. account_net a (je_lines e) = leg_net a legs"
    by (auto dest: post_entry_nets)
  from legs assms(2) obtain pre tot where pre: "revenue_legs D doc ctx = Inr (pre, tot)"
    "legs = pre @ [debit (acct ACCOUNTS_RECEIVABLE) tot None (doc_contact doc)]"
    by (auto simp: post_legs_def post_invoice_def)
  show ?thesis
    using revenue_legs_nets[OF pre(1) assms(4)] revenue_total[OF pre(1)] revenue_accounts_distinct(2)
    by (simp add: net pre(2))
qed

definition invoice_line :: "int \<Rightarrow> line_kind \<Rightarrow> int \<Rightarrow> doc_line" where
  "invoice_line no kind amount = (plain_line no kind amount)\<lparr>dl_class := Some (ClassId ''Retail'')\<rparr>"

definition invoice_doc :: ledger_document where
  "invoice_doc = (minimal_doc Invoice
     [invoice_line 1 Item 10000, invoice_line 2 Discount 1000, invoice_line 3 Shipping 500])
     \<lparr>doc_tax := Some \<lparr>td_total_tax = money_of 663, td_taxable_base = money_of 10000, td_rate = dec_new 6625 5\<rparr>\<rparr>"

definition invoice_entry :: journal_entry where
  "invoice_entry = entry_of invoice_doc 1
     [(credit_line 1 (acct SALES_INCOME) (money_of 10000))\<lparr>jl_class := Some (ClassId ''Retail'')\<rparr>,
      (debit_line 2 (acct DISCOUNTS_GIVEN) (money_of 1000))\<lparr>jl_class := Some (ClassId ''Retail'')\<rparr>,
      (credit_line 3 (acct SHIPPING_INCOME) (money_of 500))\<lparr>jl_class := Some (ClassId ''Retail'')\<rparr>,
      credit_line 4 (acct SALES_TAX_PAYABLE) (money_of 663),
      debit_line 5 (acct ACCOUNTS_RECEIVABLE) (money_of 10163)]"

lemma invoice_posts: "post False reference_ops invoice_doc 1 default_context = Inr (Entry invoice_entry)"
  by (simp add: invoice_doc_def invoice_entry_def invoice_line_def sample_defs post_eval post_invoice_def
      revenue_legs_def revenue_line_def lookup_item_def class_for_def requires_class_def resolve_class_def
      line_tax_def tax_parts_def post_inventory_cogs_def leg_with_tax_def entry_of_def)

theorem invoice_entry_amounts_witness:
  "account_net (acct ACCOUNTS_RECEIVABLE) (je_lines invoice_entry) =
      kind_total Item invoice_doc + kind_total Shipping invoice_doc - kind_total Discount invoice_doc + tax_cents invoice_doc \<and>
    account_net (acct SALES_INCOME) (je_lines invoice_entry) = - kind_total Item invoice_doc \<and>
    account_net (acct SHIPPING_INCOME) (je_lines invoice_entry) = - kind_total Shipping invoice_doc \<and>
    account_net (acct DISCOUNTS_GIVEN) (je_lines invoice_entry) = kind_total Discount invoice_doc \<and>
    account_net (acct SALES_TAX_PAYABLE) (je_lines invoice_entry) = - tax_cents invoice_doc"
  by (rule invoice_entry_amounts[OF invoice_posts])
    (simp_all add: invoice_doc_def minimal_doc_def assets_apart_def default_context_def)

section \<open>Payments, bills and vendor credits\<close>

definition applied_cents :: "ledger_document \<Rightarrow> int" where
  "applied_cents doc = (\<Sum>ap\<leftarrow>doc_applications doc. cents (ap_amount ap))"

definition payment_deposit :: "ledger_document \<Rightarrow> account_id" where
  "payment_deposit doc = unwrap_or (doc_deposit_to doc) (acct UNDEPOSITED_FUNDS)"

text \<open>
  A payment that posts credits receivables with what it applies, customer deposits with what
  it leaves unapplied, and debits the deposit account with both; and when it states lines, they
  sum to exactly that amount.
\<close>

theorem payment_entry_amounts:
  assumes "post dbg D doc version ctx = Inr (Entry e)" and "doc_kind doc = Payment"
    and "\<not> doc_is_voided doc"
    and "payment_deposit doc \<noteq> acct ACCOUNTS_RECEIVABLE" and "payment_deposit doc \<noteq> acct CUSTOMER_DEPOSITS"
  shows "account_net (acct ACCOUNTS_RECEIVABLE) (je_lines e) = - applied_cents doc \<and>
    account_net (acct CUSTOMER_DEPOSITS) (je_lines e) = - cents (doc_unapplied doc) \<and>
    account_net (payment_deposit doc) (je_lines e) = applied_cents doc + cents (doc_unapplied doc) \<and>
    (doc_lines doc = [] \<or> (\<Sum>line\<leftarrow>doc_lines doc. cents (dl_amount line)) = applied_cents doc + cents (doc_unapplied doc))"
proof -
  from assms(1,3) obtain legs where legs: "post_legs D doc ctx = Inr legs"
    and net: "\<And>a. account_net a (je_lines e) = leg_net a legs"
    by (auto dest: post_entry_nets)
  have "acct ACCOUNTS_RECEIVABLE \<noteq> acct CUSTOMER_DEPOSITS" by (simp add: acct_def chart_numbers)
  with legs assms(2,4,5) show ?thesis
    by (auto simp: net post_legs_def post_payment_def subtotal_def Let_def checked_add_Inr
        is_zero_cents applied_cents_def o_def payment_deposit_def split: if_splits dest!: checked_sum_cents)
qed

definition payment_doc :: ledger_document where
  "payment_doc = (minimal_doc Payment [])\<lparr>
     doc_applications := [\<lparr>ap_target_document_id = ''inv-1'', ap_target_kind = Invoice, ap_amount = money_of 8000\<rparr>],
     doc_unapplied := money_of 2000\<rparr>"

definition payment_entry :: journal_entry where
  "payment_entry = entry_of payment_doc 1
     [credit_line 1 (acct ACCOUNTS_RECEIVABLE) (money_of 8000),
      credit_line 2 (acct CUSTOMER_DEPOSITS) (money_of 2000),
      debit_line 3 (acct UNDEPOSITED_FUNDS) (money_of 10000)]"

lemma payment_posts: "post False reference_ops payment_doc 1 default_context = Inr (Entry payment_entry)"
  by (simp add: payment_doc_def payment_entry_def sample_defs post_eval rule_evals entry_of_def)

theorem payment_entry_amounts_witness:
  "account_net (acct ACCOUNTS_RECEIVABLE) (je_lines payment_entry) = - applied_cents payment_doc \<and>
    account_net (acct CUSTOMER_DEPOSITS) (je_lines payment_entry) = - cents (doc_unapplied payment_doc) \<and>
    account_net (payment_deposit payment_doc) (je_lines payment_entry) =
      applied_cents payment_doc + cents (doc_unapplied payment_doc) \<and>
    (doc_lines payment_doc = [] \<or> (\<Sum>line\<leftarrow>doc_lines payment_doc. cents (dl_amount line)) =
      applied_cents payment_doc + cents (doc_unapplied payment_doc))"
  by (rule payment_entry_amounts[OF payment_posts])
    (simp_all add: payment_doc_def minimal_doc_def payment_deposit_def acct_def chart_numbers)

definition mirror_leg :: "leg \<Rightarrow> leg" where
  "mirror_leg l = l\<lparr>leg_side := (case leg_side l of Debit \<Rightarrow> Credit | Credit \<Rightarrow> Debit)\<rparr>"

lemma mirror_leg_simps [simp]:
  "mirror_leg (debit a m c e) = credit a m c e" "mirror_leg (credit a m c e) = debit a m c e"
  by (simp_all add: mirror_leg_def debit_def credit_def)

definition mirror_state :: "leg list \<times> money \<Rightarrow> leg list \<times> money" where
  "mirror_state st = (map mirror_leg (fst st), snd st)"

lemma purchase_line_mirror:
  "purchase_line credit doc ctx (mirror_state st) line =
     and_then (purchase_line debit doc ctx st line) (\<lambda>st. Inr (mirror_state st))"
  by (cases st) (simp add: purchase_line_def mirror_state_def Let_def and_then_assoc split: line_kind.split)

lemma purchase_fold_mirror:
  "try_fold (purchase_line credit doc ctx) (mirror_state st) ls =
     and_then (try_fold (purchase_line debit doc ctx) st ls) (\<lambda>st. Inr (mirror_state st))"
  by (induction ls arbitrary: st) (simp_all add: purchase_line_mirror and_then_assoc)

text \<open>
  A vendor credit is the mirror of the bill with the same contents: the same legs in the same
  order with the sides exchanged, and the same errors.
\<close>

theorem vendor_credit_mirrors_bill:
  "post_vendor_credit doc ctx = and_then (post_bill doc ctx) (\<lambda>legs. Inr (map mirror_leg legs))"
  using purchase_fold_mirror[of doc ctx "([], ZERO)" "doc_lines doc"]
  by (simp add: post_vendor_credit_def post_bill_def mirror_state_def and_then_assoc case_prod_unfold)

end
