(* ===== verification/Store_Posting.thy ===== *)
theory Store_Posting
  imports Store Report_Facts Posting_Outcome
begin

text \<open>
  Posting, exactly: when \<open>post_entry\<close> accepts an entry, what it changes and that a refusal
  changes nothing; what reversing does to the book; and that what the posting rules make of a
  document is what the store accepts.
\<close>

section \<open>All or nothing\<close>

lemma post_entry_refused_unchanged: "post_entry company e entry_id now db = (Inl err, db') \<Longrightarrow> db' = db"
  unfolding post_entry_def
  by (auto simp: and_run_Inl split: if_splits dest: transaction.all_or_nothing)

interpretation posting: write_unit "post_entry company e entry_id now" for company e entry_id now
  by unfold_locales (rule post_entry_refused_unchanged)

interpretation reversing: write_unit "reverse_entry company entry_id on reversal_id now"
  for company entry_id on reversal_id now
  by unfold_locales
    (auto simp: reverse_entry_def and_run_Inl split: if_splits prod.splits dest: posting.all_or_nothing)

section \<open>What posting writes\<close>

definition posted_row :: "string \<Rightarrow> string \<Rightarrow> journal_entry \<Rightarrow> timestamp \<Rightarrow> entry_row" where
  "posted_row company entry_id e now = (entry_row_of company entry_id e)\<lparr>en_is_posted := 1, en_posted_at := Some now\<rparr>"

definition with_posted :: "string \<Rightarrow> string \<Rightarrow> journal_entry \<Rightarrow> timestamp \<Rightarrow> db \<Rightarrow> db" where
  "with_posted company entry_id e now db =
     db\<lparr>db_journal_entries := db_journal_entries db @ [posted_row company entry_id e now],
        db_journal_lines := db_journal_lines db @ map (line_row_of company entry_id) (je_lines e)\<rparr>"

lemma entry_row_of_sel [simp]:
  "entry_key (entry_row_of c i e) = (c, i)" "en_is_posted (entry_row_of c i e) = 0"
  "en_company (entry_row_of c i e) = c" "en_source_id (entry_row_of c i e) = je_source_id e"
  "en_source_version (entry_row_of c i e) = je_source_version e"
  by (simp_all add: entry_row_of_def entry_key_def)

lemma posted_row_sel [simp]:
  "entry_key (posted_row c i e now) = (c, i)" "en_is_posted (posted_row c i e now) = 1"
  "en_company (posted_row c i e now) = c" "en_entry_id (posted_row c i e now) = i"
  "en_entry_date (posted_row c i e now) = je_entry_date e"
  "en_source_id (posted_row c i e now) = je_source_id e"
  "en_source_version (posted_row c i e now) = je_source_version e"
  "en_posted_at (posted_row c i e now) = Some now"
  "en_memo (posted_row c i e now) = je_memo e" "en_source_type (posted_row c i e now) = je_source_type e"
  "en_reversal_of_id (posted_row c i e now) = je_reversal_of e"
  "en_is_flagged (posted_row c i e now) = je_is_flagged e"
  by (simp_all add: posted_row_def entry_row_of_def entry_key_def)

lemma line_row_of_sel [simp]:
  "line_entry_key (line_row_of c i l) = (c, i)" "ln_line (line_row_of c i l) = l"
  "ln_company (line_row_of c i l) = c" "ln_entry_id (line_row_of c i l) = i"
  "ln_cleared_at (line_row_of c i l) = None"
  by (simp_all add: line_row_of_def line_entry_key_def)

lemma insert_line_Inr:
  "insert_line row db = Inr db' \<Longrightarrow> db' = db\<lparr>db_journal_lines := db_journal_lines db @ [row]\<rparr>"
  by (auto simp: insert_line_def split: if_splits)

lemma insert_lines_run:
  "run_each (\<lambda>l. execute (insert_line (g l))) ls db = (Inr u, db') \<Longrightarrow>
     db' = db\<lparr>db_journal_lines := db_journal_lines db @ map g ls\<rparr>"
proof (induction ls arbitrary: db)
  case (Cons l ls)
  then obtain d where "insert_line (g l) db = Inr d" "run_each (\<lambda>l. execute (insert_line (g l))) ls d = (Inr u, db')"
    by auto
  with Cons.IH show ?case by (fastforce dest: insert_line_Inr)
qed simp

lemma map_update_fresh:
  "(c, i) \<notin> entry_key ` set es \<Longrightarrow> map (\<lambda>e. if entry_key e = (c, i) then f e else e) es = es"
  by (induction es) auto

text \<open>The entry's key is new: the insert's primary key check saw the row added.\<close>

lemma insert_entry_facts:
  assumes "insert_entry row db = Inr db'"
  shows "db' = db\<lparr>db_journal_entries := db_journal_entries db @ [row]\<rparr>"
    "entry_key row \<notin> entry_key ` set (db_journal_entries db)"
    "document_exists db (en_company row) (en_source_id row) (en_source_version row)"
  using assms
  by (auto simp: insert_entry_def journal_keys_ok_def journal_references_ok_def document_exists_def split: if_splits)

lemma post_entry_accepted:
  assumes "post_entry company e entry_id now db = (Inr r, db')"
  shows "r = entry_id" "db' = with_posted company entry_id e now db" "is_balanced e"
    "\<And>l. l \<in> set (je_lines e) \<Longrightarrow> check_class_rule db company l = Inr ()"
    "\<And>locked. locked_through db company = Some locked \<Longrightarrow> locked < je_entry_date e"
    "document_exists db company (je_source_id e) (je_source_version e)"
    "(company, entry_id) \<notin> entry_key ` set (db_journal_entries db)"
    "journal_lines_ok db' \<and> journal_keys_ok db' \<and> journal_references_ok db'"
proof -
  from assms obtain d1 d2 where steps: "r = entry_id" "is_balanced e"
    "\<forall>l \<in> set (je_lines e). check_class_rule db company l = Inr ()"
    "insert_entry (entry_row_of company entry_id e) db = Inr d1"
    "run_each (\<lambda>line. execute (insert_line (line_row_of company entry_id line))) (je_lines e) d1 = (Inr (), d2)"
    "update_entries (\<lambda>e. entry_key e = (company, entry_id)) (\<lambda>e. e\<lparr>en_is_posted := 1, en_posted_at := Some now\<rparr>) d2 = Inr db'"
    and gate: "(case locked_through db company of Some locked \<Rightarrow>
        if je_entry_date e \<le> locked then Inl (E_PeriodClosed locked) else Inr () | None \<Rightarrow> Inr ()) = Inr ()"
    unfolding post_entry_def by (auto split: if_splits)
  note new = insert_entry_facts[OF steps(4)]
  have d2: "d2 = d1\<lparr>db_journal_lines := db_journal_lines d1 @ map (line_row_of company entry_id) (je_lines e)\<rparr>"
    by (rule insert_lines_run[OF steps(5)])
  have "(company, entry_id) \<notin> entry_key ` set (db_journal_entries db)" using new(2) by simp
  then show "db' = with_posted company entry_id e now db"
    using steps(6) by (auto simp: update_entries_def d2 new(1) with_posted_def posted_row_def map_update_fresh)
  show "r = entry_id" "is_balanced e" using steps by simp_all
  show "\<And>l. l \<in> set (je_lines e) \<Longrightarrow> check_class_rule db company l = Inr ()" using steps by blast
  show "\<And>locked. locked_through db company = Some locked \<Longrightarrow> locked < je_entry_date e"
    using gate by (auto split: if_splits)
  show "document_exists db company (je_source_id e) (je_source_version e)" using new(3) by simp
  show "(company, entry_id) \<notin> entry_key ` set (db_journal_entries db)" using new(2) by simp
  show "journal_lines_ok db' \<and> journal_keys_ok db' \<and> journal_references_ok db'"
    using steps(6) by (auto simp: update_entries_def)
qed

section \<open>When posting succeeds\<close>

lemma one_sided_checks: "line_checks l = one_sided l"
  by (auto simp: line_checks_def one_sided_def cents_def)

lemma check_class_rule_account:
  "check_class_rule db company l = Inr () \<Longrightarrow> account_exists db company (jl_account l)"
  by (auto simp: check_class_rule_def account_row_in_def account_exists_def company_accounts_def list_ex_iff
      dest!: find_map_Some)

lemma exists_update [simp]:
  "document_exists (db\<lparr>db_journal_lines := ls\<rparr>) c d v = document_exists db c d v"
  "document_exists (db\<lparr>db_journal_entries := es\<rparr>) c d v = document_exists db c d v"
  "account_exists (db\<lparr>db_journal_lines := ls\<rparr>) c a = account_exists db c a"
  "account_exists (db\<lparr>db_journal_entries := es\<rparr>) c a = account_exists db c a"
  "posted_entry (db\<lparr>db_journal_lines := ls\<rparr>) k = posted_entry db k"
  by (simp_all add: document_exists_def account_exists_def posted_entry_def)

lemma matched_exists_append: "matched_exists es r \<Longrightarrow> matched_exists (es @ fs) r"
  by (auto simp: matched_exists_def split: prod.splits option.splits)

lemma insert_entry_succeeds:
  assumes "journal_ok db" "en_is_posted row = 0" "entry_key row \<notin> entry_key ` set (db_journal_entries db)"
    "document_exists db (en_company row) (en_source_id row) (en_source_version row)"
  shows "insert_entry row db = Inr (db\<lparr>db_journal_entries := db_journal_entries db @ [row]\<rparr>)"
  using assms
  by (auto simp: insert_entry_def journal_ok_def journal_lines_ok_def journal_keys_ok_def journal_references_ok_def
      list_all_iff list_ex_iff matched_exists_append)

lemma insert_lines_succeed:
  assumes "journal_lines_ok db" "journal_keys_ok db" "journal_references_ok db"
    and "\<not> posted_entry db (company, entry_id)" "(company, entry_id) \<in> entry_key ` set (db_journal_entries db)"
    and "\<And>l. l \<in> set ls \<Longrightarrow> line_checks l \<and> account_exists db company (jl_account l)"
    and "distinct (map jl_line_no ls)"
    and "\<And>l r. l \<in> set ls \<Longrightarrow> r \<in> set (db_journal_lines db) \<Longrightarrow> line_pk r \<noteq> ((company, entry_id), jl_line_no l)"
  shows "run_each (\<lambda>l. execute (insert_line (line_row_of company entry_id l))) ls db =
    (Inr (), db\<lparr>db_journal_lines := db_journal_lines db @ map (line_row_of company entry_id) ls\<rparr>)"
  using assms
proof (induction ls arbitrary: db)
  case (Cons l ls)
  let ?db = "db\<lparr>db_journal_lines := db_journal_lines db @ [line_row_of company entry_id l]\<rparr>"
  have "line_pk (line_row_of company entry_id l) = ((company, entry_id), jl_line_no l)" by (simp add: line_pk_def)
  then have keys: "journal_keys_ok ?db"
    using Cons.prems(2) Cons.prems(8)[of l] by (fastforce simp: journal_keys_ok_def)
  have "journal_lines_ok ?db"
    using Cons.prems(1,6) by (simp add: journal_lines_ok_def)
  moreover have "list_ex (\<lambda>e. entry_key e = (company, entry_id)) (db_journal_entries db)"
    using Cons.prems(5) by (auto simp: list_ex_iff)
  then have "journal_references_ok ?db"
    using Cons.prems(3,6) by (simp add: journal_references_ok_def)
  ultimately have ok: "journal_lines_ok ?db" "journal_keys_ok ?db" "journal_references_ok ?db"
    using keys by simp_all
  with Cons.prems(4) have "insert_line (line_row_of company entry_id l) db = Inr ?db"
    by (simp add: insert_line_def)
  moreover have "run_each (\<lambda>l. execute (insert_line (line_row_of company entry_id l))) ls ?db =
      (Inr (), ?db\<lparr>db_journal_lines := db_journal_lines ?db @ map (line_row_of company entry_id) ls\<rparr>)"
  proof (rule Cons.IH[OF ok])
    show "\<not> posted_entry ?db (company, entry_id)" "(company, entry_id) \<in> entry_key ` set (db_journal_entries ?db)"
      using Cons.prems(4,5) by (simp_all add: posted_entry_def)
    show "line_checks k \<and> account_exists ?db company (jl_account k)" if "k \<in> set ls" for k
      using Cons.prems(6)[of k] that by (simp add: account_exists_def)
    show "distinct (map jl_line_no ls)" using Cons.prems(7) by simp
    show "line_pk r \<noteq> ((company, entry_id), jl_line_no k)" if "k \<in> set ls" "r \<in> set (db_journal_lines ?db)" for k r
      using that Cons.prems(7,8) by (force simp: line_pk_def)
  qed
  ultimately show ?case by simp
qed simp

definition gate_open :: "db \<Rightarrow> string \<Rightarrow> naive_date \<Rightarrow> bool" where
  "gate_open db company on \<longleftrightarrow> (case locked_through db company of None \<Rightarrow> True | Some locked \<Rightarrow> locked < on)"

lemma no_lines_without_entry:
  assumes "journal_references_ok db" "k \<notin> entry_key ` set (db_journal_entries db)"
  shows "r \<in> set (db_journal_lines db) \<Longrightarrow> line_entry_key r \<noteq> k"
  using assms by (force simp: journal_references_ok_def list_all_iff list_ex_iff)

lemma matched_exists_posted:
  "matched_exists (es @ [posted_row c i e now]) = matched_exists (es @ [entry_row_of c i e])"
  by (rule ext) (simp add: matched_exists_def split: prod.split option.split)

lemma post_entry_accepts:
  assumes "journal_ok db" "gate_open db company (je_entry_date e)" "is_balanced e"
    and rule: "\<And>l. l \<in> set (je_lines e) \<Longrightarrow> check_class_rule db company l = Inr ()"
    and doc: "document_exists db company (je_source_id e) (je_source_version e)"
    and fresh: "(company, entry_id) \<notin> entry_key ` set (db_journal_entries db)"
    and nos: "distinct (map jl_line_no (je_lines e))"
  shows "post_entry company e entry_id now db = (Inr entry_id, with_posted company entry_id e now db)"
proof -
  let ?row = "entry_row_of company entry_id e"
  let ?d1 = "db\<lparr>db_journal_entries := db_journal_entries db @ [?row]\<rparr>"
  let ?d2 = "?d1\<lparr>db_journal_lines := db_journal_lines ?d1 @ map (line_row_of company entry_id) (je_lines e)\<rparr>"
  let ?d3 = "with_posted company entry_id e now db"
  have ok: "journal_lines_ok db" "journal_keys_ok db" "journal_references_ok db"
    using assms(1) by (simp_all add: journal_ok_def)
  have wb: "list_all one_sided (je_lines e)" "debit_cents e = credit_cents e" "je_lines e \<noteq> []" "in_i64 (debit_cents e)"
    using assms(3) by (auto simp: is_balanced_iff well_balanced_def)
  have i1: "insert_entry ?row db = Inr ?d1"
    using assms(1) fresh doc by (intro insert_entry_succeeds) simp_all
  note no_lines = no_lines_without_entry[OF ok(3) fresh]
  have i2: "run_each (\<lambda>l. execute (insert_line (line_row_of company entry_id l))) (je_lines e) ?d1 = (Inr (), ?d2)"
  proof (rule insert_lines_succeed)
    from i1 show "journal_lines_ok ?d1" "journal_keys_ok ?d1" "journal_references_ok ?d1"
      by (auto simp: insert_entry_def split: if_splits)
    show "\<not> posted_entry ?d1 (company, entry_id)" using fresh by (fastforce simp: posted_entry_iff image_iff)
    show "(company, entry_id) \<in> entry_key ` set (db_journal_entries ?d1)" by simp
    show "line_checks l \<and> account_exists ?d1 company (jl_account l)" if "l \<in> set (je_lines e)" for l
      using check_class_rule_account[OF rule[OF that]] wb(1) that
      by (auto simp: one_sided_checks list_all_iff account_exists_def)
    show "distinct (map jl_line_no (je_lines e))" by (rule nos)
    show "line_pk r \<noteq> ((company, entry_id), jl_line_no l)" if "r \<in> set (db_journal_lines ?d1)" for l r
      using no_lines[of r] that by (auto simp: line_pk_def)
  qed
  have lines: "lines_of ?d2 (company, entry_id) = map (line_row_of company entry_id) (je_lines e)"
    using no_lines by (auto simp: lines_of_def filter_map o_def filter_empty_conv)
  have sums: "sql_sum (map (\<lambda>l. cents (jl_debit l)) (je_lines e)) = Inr (debit_cents e)"
    "sql_sum (map (\<lambda>l. cents (jl_credit l)) (je_lines e)) = Inr (credit_cents e)"
  proof -
    have "in_i64 (credit_cents e)" using wb by simp
    with wb show "sql_sum (map (\<lambda>l. cents (jl_debit l)) (je_lines e)) = Inr (debit_cents e)"
      "sql_sum (map (\<lambda>l. cents (jl_credit l)) (je_lines e)) = Inr (credit_cents e)"
      unfolding debit_cents_def credit_cents_def
      by (intro sql_sum_nonneg; auto simp: list_all_iff one_sided_nonneg)+
  qed
  have trigger: "trg_journal_entries_balance_on_post ?d2 (company, entry_id) = Inr ()"
    unfolding trg_journal_entries_balance_on_post_def lines
    using sums wb(2,3) by (simp add: Let_def o_def cents_def[symmetric])
  have keys: "distinct (map entry_key (db_journal_entries ?d2))" "distinct (map line_pk (db_journal_lines ?d2))"
    and d2ok: "journal_lines_ok ?d2" "journal_references_ok ?d2"
  proof -
    have "?d2 = snd (run_each (\<lambda>l. execute (insert_line (line_row_of company entry_id l))) (je_lines e) ?d1)"
      by (simp only: i2 snd_conv)
    have pk: "map line_pk (map (line_row_of company entry_id) (je_lines e)) = map (Pair (company, entry_id)) (map jl_line_no (je_lines e))"
      by (simp add: line_pk_def)
    have "distinct (map line_pk (map (line_row_of company entry_id) (je_lines e)))"
      unfolding pk using nos by (simp add: distinct_map inj_on_def)
    moreover have "line_pk ` set (db_journal_lines db) \<inter> line_pk ` line_row_of company entry_id ` set (je_lines e) = {}"
      using no_lines by (fastforce simp: line_pk_def)
    ultimately show "distinct (map line_pk (db_journal_lines ?d2))"
      using ok(2) by (simp add: journal_keys_ok_def image_image)
    show "distinct (map entry_key (db_journal_entries ?d2))"
      using ok(2) fresh by (simp add: journal_keys_ok_def)
    show "journal_lines_ok ?d2"
      using ok(1) wb(1) by (auto simp: journal_lines_ok_def list_all_iff one_sided_checks)
    show "journal_references_ok ?d2"
      using ok(3) doc check_class_rule_account[OF rule]
      by (auto simp: journal_references_ok_def list_all_iff list_ex_iff matched_exists_append)
  qed
  have upd: "map (\<lambda>r. if entry_key r = (company, entry_id) then r\<lparr>en_is_posted := 1, en_posted_at := Some now\<rparr> else r)
      (db_journal_entries ?d2) = db_journal_entries ?d3"
    using fresh by (simp add: with_posted_def posted_row_def map_update_fresh)
  have "journal_keys_ok ?d3" "journal_lines_ok ?d3" "journal_references_ok ?d3"
    using keys d2ok by (simp_all add: journal_keys_ok_def journal_lines_ok_def journal_references_ok_def with_posted_def
        matched_exists_posted)
  moreover have "?d2\<lparr>db_journal_entries := map (\<lambda>r. if entry_key r = (company, entry_id)
      then r\<lparr>en_is_posted := 1, en_posted_at := Some now\<rparr> else r) (db_journal_entries ?d2)\<rparr> = ?d3"
    unfolding upd by (cases db) (simp add: with_posted_def)
  moreover have "update_entry_triggers ?d2 r (r\<lparr>en_is_posted := 1, en_posted_at := Some now\<rparr>) = Inr ()"
    if "r \<in> set (filter (\<lambda>r. entry_key r = (company, entry_id)) (db_journal_entries ?d2))" for r
  proof -
    have "r = ?row" using that fresh by (fastforce simp: image_iff)
    then show ?thesis using trigger by (simp add: update_entry_triggers_def posted_row_def[symmetric])
  qed
  ultimately have "update_entries (\<lambda>e. entry_key e = (company, entry_id)) (\<lambda>e. e\<lparr>en_is_posted := 1, en_posted_at := Some now\<rparr>) ?d2 = Inr ?d3"
    by (simp add: update_entries_def)
  moreover have "(case locked_through db company of Some locked \<Rightarrow>
        if je_entry_date e \<le> locked then Inl (E_PeriodClosed locked) else Inr () | None \<Rightarrow> Inr ()) = Inr ()"
    using assms(2) by (auto simp: gate_open_def split: option.splits)
  ultimately show ?thesis
    unfolding post_entry_def using assms(3) rule i1 i2 by auto
qed

lemma with_posted_sel [simp]:
  "db_journal_entries (with_posted c i e now db) = db_journal_entries db @ [posted_row c i e now]"
  "db_journal_lines (with_posted c i e now db) = db_journal_lines db @ map (line_row_of c i) (je_lines e)"
  "db_accounts (with_posted c i e now db) = db_accounts db"
  "db_classes (with_posted c i e now db) = db_classes db"
  "db_companies (with_posted c i e now db) = db_companies db"
  "db_periods (with_posted c i e now db) = db_periods db"
  "db_document_versions (with_posted c i e now db) = db_document_versions db"
  "db_bank_lines (with_posted c i e now db) = db_bank_lines db"
  "db_close_history (with_posted c i e now db) = db_close_history db"
  by (simp_all add: with_posted_def)

definition acceptable :: "db \<Rightarrow> string \<Rightarrow> journal_entry \<Rightarrow> string \<Rightarrow> bool" where
  "acceptable db company e entry_id \<longleftrightarrow>
     gate_open db company (je_entry_date e) \<and> is_balanced e \<and>
     list_all (\<lambda>l. check_class_rule db company l = Inr ()) (je_lines e) \<and>
     document_exists db company (je_source_id e) (je_source_version e) \<and>
     (company, entry_id) \<notin> entry_key ` set (db_journal_entries db) \<and>
     distinct (map jl_line_no (je_lines e))"

lemma accepted_line_nos:
  assumes "journal_keys_ok (with_posted c i e now db)"
  shows "distinct (map jl_line_no (je_lines e))"
proof -
  have "distinct (map line_pk (map (line_row_of c i) (je_lines e)))"
    using assms by (simp add: journal_keys_ok_def)
  then show ?thesis by (simp add: distinct_map inj_on_def line_pk_def)
qed

lemma accepted_acceptable:
  assumes "post_entry company e entry_id now db = (Inr r, db')"
  shows "acceptable db company e entry_id"
proof -
  note acc = post_entry_accepted[OF assms]
  have "gate_open db company (je_entry_date e)"
    using acc(5) by (auto simp: gate_open_def split: option.split)
  moreover have "distinct (map jl_line_no (je_lines e))"
    using acc(2,8) by (metis accepted_line_nos)
  ultimately show ?thesis
    using acc(3,4,6,7) by (simp add: acceptable_def list_all_iff)
qed

lemma post_entry_cases:
  assumes "journal_ok db"
  shows "if acceptable db company e entry_id
    then post_entry company e entry_id now db = (Inr entry_id, with_posted company entry_id e now db)
    else \<exists>err. post_entry company e entry_id now db = (Inl err, db)"
proof (cases "acceptable db company e entry_id")
  case True
  with assms post_entry_accepts[of db company e entry_id now] show ?thesis
    by (simp add: acceptable_def list_all_iff)
next
  case False
  obtain r db' where run: "post_entry company e entry_id now db = (r, db')" by (cases "post_entry company e entry_id now db")
  with False accepted_acceptable obtain err where "r = Inl err" by (cases r) blast+
  with run False post_entry_refused_unchanged show ?thesis by auto
qed

lemma closed_period_refused:
  assumes "locked_through db company = Some locked" "je_entry_date e \<le> locked"
  shows "post_entry company e entry_id now db = (Inl (E_PeriodClosed locked), db)"
  using assms by (simp add: post_entry_def and_run_def reading_def)

text \<open>
  C4. On a sound book \<open>post_entry\<close> accepts an entry exactly when the period is open for its date,
  it balances, every line passes the class rule on a known account and class, its document
  version is stored, and its id and line numbers are new. It then adds that entry, posted,
  with its lines, and nothing else; otherwise it changes nothing, and a date in a closed
  period is refused as such before anything else is looked at.
\<close>

theorem post_entry_exactly:
  assumes "journal_ok db"
  shows "(if acceptable db company e entry_id
      then post_entry company e entry_id now db = (Inr entry_id, with_posted company entry_id e now db)
      else \<exists>err. post_entry company e entry_id now db = (Inl err, db)) \<and>
    (case locked_through db company of None \<Rightarrow> True
     | Some locked \<Rightarrow> locked < je_entry_date e \<or>
         post_entry company e entry_id now db = (Inl (E_PeriodClosed locked), db))"
proof -
  have "locked < je_entry_date e \<or> post_entry company e entry_id now db = (Inl (E_PeriodClosed locked), db)"
    if "locked_through db company = Some locked" for locked
    using closed_period_refused[OF that] by (cases "je_entry_date e \<le> locked") auto
  then show ?thesis using post_entry_cases[OF assms] by (auto split: option.split)
qed

definition capital_entry :: journal_entry where
  "capital_entry =
     \<lparr>je_entry_date = Ymd 2027 1 6, je_memo = None, je_source_type = JournalEntry,
      je_source_id = ''doc-1'', je_source_version = 1, je_reversal_of = None, je_is_flagged = True,
      je_lines = [cash_in 1 900, capital_in 2 900]\<rparr>"

theorem post_entry_exactly_witness:
  "(if acceptable posted_db ''co'' capital_entry ''e-2''
      then post_entry ''co'' capital_entry ''e-2'' 7 posted_db = (Inr ''e-2'', with_posted ''co'' ''e-2'' capital_entry 7 posted_db)
      else \<exists>err. post_entry ''co'' capital_entry ''e-2'' 7 posted_db = (Inl err, posted_db)) \<and>
    (case locked_through posted_db ''co'' of None \<Rightarrow> True
     | Some locked \<Rightarrow> locked < je_entry_date capital_entry \<or>
         post_entry ''co'' capital_entry ''e-2'' 7 posted_db = (Inl (E_PeriodClosed locked), posted_db)) \<and>
    acceptable posted_db ''co'' capital_entry ''e-2''"
proof -
  have "acceptable posted_db ''co'' capital_entry ''e-2''"
    by (simp add: acceptable_def gate_open_def locked_through_def locked_through_in_def sql_max_def check_class_rule_def
        account_row_in_def company_accounts_def document_exists_def of_company_def is_balanced_iff well_balanced_def
        one_sided_def debit_cents_def credit_cents_def in_i64_def entry_key_def capital_entry_def sample_db_defs
        chart_numbers)
  then show ?thesis using post_entry_exactly[OF posted_db_ok] by blast
qed

section \<open>Reading entries back\<close>

lemma find_map_append: "find_map P (xs @ ys) = or_else (find_map P xs) (find_map P ys)"
  by (induction xs) auto

lemma find_map_none: "(\<And>x. x \<in> set xs \<Longrightarrow> \<not> P x) \<Longrightarrow> find_map P xs = None"
  by (simp add: find_map_None)

lemma lines_of_with_posted:
  assumes "journal_references_ok db" "(c, i) \<notin> entry_key ` set (db_journal_entries db)"
  shows "lines_of (with_posted c i e now db) k = (if k = (c, i) then map (line_row_of c i) (je_lines e) else lines_of db k)"
  using no_lines_without_entry[OF assms]
  by (auto simp: lines_of_def filter_map o_def filter_empty_conv)

lemma entry_after_posting:
  assumes "journal_ok db" "(c, i) \<notin> entry_key ` set (db_journal_entries db)" "sorted (map jl_line_no (je_lines e))"
  shows "entry (with_posted c i e now db) c i = Inr (e, True)"
    "(c', j) \<noteq> (c, i) \<Longrightarrow> entry (with_posted c i e now db) c' j = entry db c' j"
proof -
  have refs: "journal_references_ok db" using assms(1) by (simp add: journal_ok_def)
  have "find_map (\<lambda>e. entry_key e = (c, i)) (db_journal_entries db) = None"
    using assms(2) by (intro find_map_none) (auto simp: image_iff)
  moreover have "map ln_line (map (line_row_of c i) (je_lines e)) = je_lines e" by (simp add: o_def)
  ultimately show "entry (with_posted c i e now db) c i = Inr (e, True)"
    using assms(3) by (simp add: entry_def find_map_append lines_of_with_posted[OF refs assms(2)] sort_key_id_if_sorted)
  show "(c', j) \<noteq> (c, i) \<Longrightarrow> entry (with_posted c i e now db) c' j = entry db c' j"
    by (auto simp: entry_def find_map_append lines_of_with_posted[OF refs assms(2)] or_else_def split: option.split)
qed


lemma capital_posts: "post_entry ''co'' capital_entry ''e-2'' 7 posted_db = (Inr ''e-2'', with_posted ''co'' ''e-2'' capital_entry 7 posted_db)"
  using post_entry_cases[OF posted_db_ok, of "''co''" capital_entry "''e-2''" 7]
  by (simp add: acceptable_def gate_open_def locked_through_def locked_through_in_def sql_max_def check_class_rule_def
        account_row_in_def company_accounts_def document_exists_def of_company_def is_balanced_iff well_balanced_def
        one_sided_def debit_cents_def credit_cents_def in_i64_def entry_key_def capital_entry_def sample_db_defs
        chart_numbers)

lemma capital_sorted: "sorted (map jl_line_no (je_lines capital_entry))"
  by (simp add: capital_entry_def cash_in_def capital_in_def debit_line_def credit_line_def)


section \<open>Reversing\<close>

lemma entry_posted_sorted:
  "entry db c i = Inr (e, b) \<Longrightarrow> sorted (map jl_line_no (je_lines e))"
  by (auto simp: entry_def)

lemma reversed_line_nos [simp]: "map jl_line_no (je_lines (reversed e on r)) = map jl_line_no (je_lines e)"
  by (simp add: reversed_def o_def)

lemma reversed_sel [simp]:
  "je_source_id (reversed e on r) = je_source_id e" "je_reversal_of (reversed e on r) = Some r"
  "je_entry_date (reversed e on r) = on"
  by (simp_all add: reversed_def)

lemma reverse_entry_accepted:
  assumes "reverse_entry company entry_id on reversal_id now db = (Inr r, db')"
  obtains original where "entry db company entry_id = Inr (original, True)" "r = reversal_id"
    "post_entry company (reversed original on entry_id) reversal_id now db = (Inr r, db')"
    "db' = with_posted company reversal_id (reversed original on entry_id) now db"
proof -
  from assms obtain p where p: "entry db company entry_id = Inr p"
    and run: "(case p of (original, is_posted) \<Rightarrow> if \<not> is_posted then fail E_NotFound
      else post_entry company (reversed original on entry_id) reversal_id now) db = (Inr r, db')"
    by (auto simp: reverse_entry_def)
  obtain original is_posted where "p = (original, is_posted)" by (cases p)
  with p run have original: "entry db company entry_id = Inr (original, True)"
    and posted: "post_entry company (reversed original on entry_id) reversal_id now db = (Inr r, db')"
    by (auto split: if_splits)
  from post_entry_accepted(1,2)[OF posted] show thesis
    by (intro that[OF original _ posted]) simp_all
qed

lemma try_map_set: "try_map f xs = Inr ys \<Longrightarrow> set ys = {y. \<exists>x \<in> set xs. f x = Inr y}"
  by (induction xs arbitrary: ys) auto

definition document_entry_ids :: "db \<Rightarrow> string \<Rightarrow> string \<Rightarrow> string set" where
  "document_entry_ids db company document =
     en_entry_id ` {r \<in> set (db_journal_entries db). en_company r = company \<and> en_source_id r = document}"

lemma entries_for_document_set:
  assumes "entries_for_document db company document = Inr es"
  shows "set es = {(i, e, b). entry db company i = Inr (e, b) \<and> i \<in> document_entry_ids db company document}"
  using try_map_set[OF assms[unfolded entries_for_document_def Let_def]]
  by (auto simp: document_entry_ids_def image_iff)

lemma try_map_total: "(\<And>x. x \<in> set xs \<Longrightarrow> \<exists>y. f x = Inr y) \<Longrightarrow> \<exists>ys. try_map f xs = Inr ys"
  by (induction xs) fastforce+

lemma entry_total:
  assumes "r \<in> set (db_journal_entries db)"
  shows "\<exists>x. entry db (en_company r) (en_entry_id r) = Inr x"
proof -
  have "find_map (\<lambda>e. entry_key e = (en_company r, en_entry_id r)) (db_journal_entries db) \<noteq> None"
    using assms by (auto simp: find_map_None entry_key_def)
  then show ?thesis by (auto simp: entry_def)
qed

lemma entries_for_document_total: "\<exists>es. entries_for_document db company document = Inr es"
  unfolding entries_for_document_def Let_def
  by (rule try_map_total) (auto dest!: entry_total)

lemma live_entries_ids:
  assumes "live_entries_for_document db company document = Inr live"
  shows "fst ` set live = {i. \<exists>e. entry db company i = Inr (e, True) \<and> i \<in> document_entry_ids db company document \<and>
      je_reversal_of e = None \<and> \<not> (\<exists>j f. entry db company j = Inr (f, True) \<and>
        j \<in> document_entry_ids db company document \<and> je_reversal_of f = Some i)}"
proof -
  from assms obtain es where es: "entries_for_document db company document = Inr es"
    and live: "live = map (\<lambda>(i, e, _). (i, e)) (filter (\<lambda>(i, e, posted). posted \<and> je_reversal_of e = None \<and>
      i \<notin> set (List.map_filter (\<lambda>(_, e, posted). if posted then je_reversal_of e else None) es)) es)"
    by (auto simp: live_entries_for_document_def Let_def)
  have rev: "i \<in> set (List.map_filter (\<lambda>(_, e, posted). if posted then je_reversal_of e else None) es) \<longleftrightarrow>
      (\<exists>j f. (j, f, True) \<in> set es \<and> je_reversal_of f = Some i)" for i
    by (force simp: map_filter_def image_iff split: if_splits)
  have "fst ` set live = {i. \<exists>e. (i, e, True) \<in> set es \<and> je_reversal_of e = None \<and>
      \<not> (\<exists>j f. (j, f, True) \<in> set es \<and> je_reversal_of f = Some i)}"
    unfolding live by (force simp: rev image_iff)
  then show ?thesis unfolding entries_for_document_set[OF es] by simp
qed

lemma live_entries_total: "\<exists>live. live_entries_for_document db company document = Inr live"
  using entries_for_document_total[of db company document]
  by (auto simp: live_entries_for_document_def Let_def)

lemma document_entry_ids_with_posted:
  "document_entry_ids (with_posted c i e now db) c d =
     (if je_source_id e = d then insert i (document_entry_ids db c d) else document_entry_ids db c d)"
proof -
  have split: "{r \<in> set (es @ [p]). en_company r = c \<and> en_source_id r = d} =
      (if en_company p = c \<and> en_source_id p = d then insert p {r \<in> set es. en_company r = c \<and> en_source_id r = d}
       else {r \<in> set es. en_company r = c \<and> en_source_id r = d})" for es p
    by auto
  show ?thesis unfolding document_entry_ids_def with_posted_sel split by simp
qed

lemma entry_source:
  assumes "entry db c i = Inr (e, b)"
  shows "i \<in> document_entry_ids db c (je_source_id e)"
  using assms by (force simp: entry_def document_entry_ids_def entry_key_def dest!: find_map_Some)

lemma reversal_facts:
  assumes "journal_ok db" "reverse_entry company entry_id on reversal_id now db = (Inr r, db')"
  shows "\<exists>original. entry db company entry_id = Inr (original, True) \<and>
    entry db' company r = Inr (reversed original on entry_id, True) \<and>
    (\<forall>a. account_net a (je_lines (reversed original on entry_id)) + account_net a (je_lines original) = 0) \<and>
    (\<exists>live live'. live_entries_for_document db company (je_source_id original) = Inr live \<and>
      live_entries_for_document db' company (je_source_id original) = Inr live' \<and>
      fst ` set live' = fst ` set live - {entry_id})"
proof -
  from assms(2) obtain original where original: "entry db company entry_id = Inr (original, True)" "r = reversal_id"
    and posted: "post_entry company (reversed original on entry_id) reversal_id now db = (Inr r, db')"
    and db': "db' = with_posted company reversal_id (reversed original on entry_id) now db"
    by (rule reverse_entry_accepted)
  let ?rev = "reversed original on entry_id" and ?doc = "je_source_id original"
  note fresh = post_entry_accepted(7)[OF posted]
  have sorted: "sorted (map jl_line_no (je_lines ?rev))"
    using entry_posted_sorted[OF original(1)] by (simp only: reversed_line_nos)
  note reads = entry_after_posting[OF assms(1) fresh sorted]
  have new: "entry db' company r = Inr (?rev, True)" by (simp add: db' original(2) reads(1))
  have old: "entry db' company i = entry db company i" if "i \<noteq> r" for i
    using reads(2)[of company i] that by (simp add: db' original(2))
  have ids: "document_entry_ids db' company ?doc = insert r (document_entry_ids db company ?doc)"
    by (simp add: db' document_entry_ids_with_posted original(2))
  have r_new: "r \<notin> document_entry_ids db company ?doc"
    using fresh by (auto simp: document_entry_ids_def entry_key_def original(2))
  obtain live live' where live: "live_entries_for_document db company ?doc = Inr live"
    and live': "live_entries_for_document db' company ?doc = Inr live'"
    using live_entries_total by blast
  have "i \<in> fst ` set live' \<longleftrightarrow> i \<in> fst ` set live \<and> i \<noteq> entry_id" for i
  proof (cases "i = r")
    case True
    then show ?thesis using r_new new by (simp add: live_entries_ids[OF live] live_entries_ids[OF live'])
  next
    case False
    have by_others: "(\<exists>j f. entry db' company j = Inr (f, True) \<and> j \<in> document_entry_ids db' company ?doc \<and> je_reversal_of f = Some i) \<longleftrightarrow>
        i = entry_id \<or> (\<exists>j f. entry db company j = Inr (f, True) \<and> j \<in> document_entry_ids db company ?doc \<and> je_reversal_of f = Some i)"
    proof -
      have "(\<exists>j f. entry db' company j = Inr (f, True) \<and> j \<in> document_entry_ids db' company ?doc \<and> je_reversal_of f = Some i) \<longleftrightarrow>
          (\<exists>f. entry db' company r = Inr (f, True) \<and> je_reversal_of f = Some i) \<or>
          (\<exists>j f. j \<noteq> r \<and> entry db company j = Inr (f, True) \<and> j \<in> document_entry_ids db company ?doc \<and> je_reversal_of f = Some i)"
        using old ids by (metis insert_iff)
      also have "\<dots> \<longleftrightarrow> i = entry_id \<or> (\<exists>j f. entry db company j = Inr (f, True) \<and> j \<in> document_entry_ids db company ?doc \<and> je_reversal_of f = Some i)"
        using new r_new by auto
      finally show ?thesis .
    qed
    have "i \<in> document_entry_ids db' company ?doc \<longleftrightarrow> i \<in> document_entry_ids db company ?doc"
      using False ids by simp
    then show ?thesis
      unfolding live_entries_ids[OF live] live_entries_ids[OF live'] mem_Collect_eq by_others old[OF False] by blast
  qed
  then have "fst ` set live' = fst ` set live - {entry_id}" by blast
  with original(1) new live live' show ?thesis by auto
qed

text \<open>
  C8. A reversal that is accepted takes the entry off the book: the reversal is stored posted, it
  undoes the original account by account, and the document's live entries are the ones it had,
  less the reversed one; the reversal itself is not live.
\<close>

theorem reversal_retires_the_entry:
  assumes "journal_ok db" and "reverse_entry company entry_id on reversal_id now db = (Inr r, db')"
  shows "\<exists>original. entry db company entry_id = Inr (original, True) \<and>
    entry db' company r = Inr (reversed original on entry_id, True) \<and>
    (\<forall>a. account_net a (je_lines (reversed original on entry_id)) + account_net a (je_lines original) = 0) \<and>
    (\<exists>live live'. live_entries_for_document db company (je_source_id original) = Inr live \<and>
      live_entries_for_document db' company (je_source_id original) = Inr live' \<and>
      fst ` set live' = fst ` set live - {entry_id})"
  by (rule reversal_facts[OF assms])

definition stored_entry :: journal_entry where
  "stored_entry =
     \<lparr>je_entry_date = Ymd 2027 1 5, je_memo = None, je_source_type = JournalEntry, je_source_id = ''doc-1'',
      je_source_version = 1, je_reversal_of = None, je_is_flagged = False,
      je_lines = [cash_in 1 500, capital_in 2 500]\<rparr>"

lemma stored_entry: "entry posted_db ''co'' ''e-1'' = Inr (stored_entry, True)"
  by (simp add: entry_def stored_entry_def lines_of_def line_entry_key_def entry_key_def sample_db_defs chart_numbers)

definition reversal_db :: db where
  "reversal_db = with_posted ''co'' ''e-2'' (reversed stored_entry (Ymd 2027 1 9) ''e-1'') 9 posted_db"

lemma reversal_runs: "reverse_entry ''co'' ''e-1'' (Ymd 2027 1 9) ''e-2'' 9 posted_db = (Inr ''e-2'', reversal_db)"
proof -
  have "acceptable posted_db ''co'' (reversed stored_entry (Ymd 2027 1 9) ''e-1'') ''e-2''"
    by (simp add: acceptable_def gate_open_def locked_through_def locked_through_in_def sql_max_def check_class_rule_def
        account_row_in_def company_accounts_def document_exists_def of_company_def is_balanced_iff well_balanced_def
        one_sided_def debit_cents_def credit_cents_def in_i64_def entry_key_def stored_entry_def reversed_def sample_db_defs
        chart_numbers)
  then show ?thesis
    using post_entry_cases[OF posted_db_ok, of "''co''" "reversed stored_entry (Ymd 2027 1 9) ''e-1''" "''e-2''" 9]
    by (simp add: reverse_entry_def and_run_def reading_def stored_entry reversal_db_def)
qed

theorem reversal_retires_the_entry_witness:
  "\<exists>original. entry posted_db ''co'' ''e-1'' = Inr (original, True) \<and>
    entry reversal_db ''co'' ''e-2'' = Inr (reversed original (Ymd 2027 1 9) ''e-1'', True) \<and>
    (\<forall>a. account_net a (je_lines (reversed original (Ymd 2027 1 9) ''e-1'')) + account_net a (je_lines original) = 0) \<and>
    (\<exists>live live'. live_entries_for_document posted_db ''co'' (je_source_id original) = Inr live \<and>
      live_entries_for_document reversal_db ''co'' (je_source_id original) = Inr live' \<and>
      fst ` set live' = fst ` set live - {''e-1''})"
  by (rule reversal_retires_the_entry[OF posted_db_ok reversal_runs])

section \<open>Saving leaves the journal alone\<close>

definition still_journal :: "db \<Rightarrow> db \<Rightarrow> bool" where
  "still_journal db db' \<longleftrightarrow>
     db_journal_entries db' = db_journal_entries db \<and> db_journal_lines db' = db_journal_lines db"

interpretation journal_still: step_order still_journal
  by unfold_locales (auto simp: still_journal_def)

lemma save_keeps_journal:
  assumes "save_document to_json company doc command command_id now db = (r, db')"
  shows "db_journal_entries db' = db_journal_entries db" "db_journal_lines db' = db_journal_lines db"
proof -
  have "obeys still_journal (save_document to_json company doc command command_id now)"
    unfolding save_document_def
    by (intro journal_still.steps journal_still.stated)
      (auto simp: still_journal_def insert_oplog_def insert_document_version_def)
  from obeysD[OF this assms] show "db_journal_entries db' = db_journal_entries db" "db_journal_lines db' = db_journal_lines db"
    by (simp_all add: still_journal_def)
qed

section \<open>From document to book\<close>

definition chart_numbered :: "db \<Rightarrow> bool" where
  "chart_numbered db \<longleftrightarrow> list_all (\<lambda>(company, a). ac_account_id a = AccountId (ac_number a)) (db_accounts db)"

definition chart_knows :: "db \<Rightarrow> string \<Rightarrow> journal_entry \<Rightarrow> bool" where
  "chart_knows db company e \<longleftrightarrow>
     list_all (\<lambda>l. account_exists db company (jl_account l) \<and>
       (case jl_class l of None \<Rightarrow> True | Some c \<Rightarrow> class_exists_in db company c)) (je_lines e)"

lemma account_row_in_exists:
  assumes "account_exists db company a"
  shows "\<exists>row. account_row_in db company a = Some row \<and> ac_account_id row = a \<and> (company, row) \<in> set (db_accounts db)"
proof -
  have "account_row_in db company a \<noteq> None"
    using assms by (auto simp: account_exists_def account_row_in_def company_accounts_def find_map_None list_ex_iff)
  then obtain row where row: "account_row_in db company a = Some row" by blast
  then show ?thesis
    by (auto simp: account_row_in_def company_accounts_def of_company_set dest!: find_map_Some)
qed

lemma class_rule_holds:
  assumes "chart_numbered db" "account_exists db company (jl_account l)"
    "case jl_class l of None \<Rightarrow> True | Some c \<Rightarrow> class_exists_in db company c"
    "classed (jl_account l) (jl_class l)"
  shows "check_class_rule db company l = Inr ()"
proof -
  obtain row where row: "account_row_in db company (jl_account l) = Some row" "ac_account_id row = jl_account l"
    "(company, row) \<in> set (db_accounts db)"
    using account_row_in_exists[OF assms(2)] by blast
  then have "jl_account l = AccountId (ac_number row)"
    using assms(1) by (fastforce simp: chart_numbered_def list_all_iff)
  then have "(case ac_number row of [] \<Rightarrow> False | c # _ \<Rightarrow> c \<in> set ''4567'') = requires_class (jl_account l)"
    by (simp add: requires_class_def split: list.split)
  with assms(3,4) row(1) show ?thesis
    by (auto simp: check_class_rule_def Let_def classed_def split: option.splits)
qed

lemma post_entry_source:
  assumes "post dbg D doc version ctx = Inr (Entry e)"
  shows "je_source_id e = doc_document_id doc" "je_source_version e = version" "je_entry_date e = doc_txn_date doc"
    "je_reversal_of e = None"
  using assms by (auto simp: post_Entry_iff apply_void_def entry_of_def)

lemma lines_numbered_distinct: "lines_numbered ls \<Longrightarrow> distinct (map jl_line_no ls)"
  by (simp add: lines_numbered_def distinct_map inj_on_def del: upt_Suc)

lemma post_is_acceptable:
  assumes "post dbg D doc version ctx = Inr (Entry e)" "in_i64 (debit_cents e)" "cash_accounts_ok doc ctx"
    "chart_numbered db" "chart_knows db company e" "gate_open db company (doc_txn_date doc)"
    "document_exists db company (doc_document_id doc) version"
    "(company, entry_id) \<notin> entry_key ` set (db_journal_entries db)"
  shows "acceptable db company e entry_id"
proof -
  have "is_balanced e" using post_entry_facts(1)[OF assms(1)] assms(2) by (simp add: is_balanced_iff)
  moreover have "list_all (\<lambda>l. check_class_rule db company l = Inr ()) (je_lines e)"
    using post_entry_classed[OF assms(1,3)] assms(5) class_rule_holds[OF assms(4)]
    by (auto simp: list_all_iff chart_knows_def)
  moreover have "distinct (map jl_line_no (je_lines e))"
    using post_entry_facts(2)[OF assms(1)] by (rule lines_numbered_distinct)
  ultimately show ?thesis
    using assms(6-8) by (simp add: acceptable_def post_entry_source[OF assms(1)])
qed

text \<open>
  C2. The posting rules and the store agree: the entry \<open>post\<close> makes of a stored document version
  is accepted by \<open>post_entry\<close> as it is and reads back unchanged, provided its column fits in 64
  bits, its accounts and classes are in the chart, its cash accounts are balance-sheet
  accounts, and the period is open on its date.
\<close>

theorem posted_document_is_accepted:
  assumes "post dbg D doc version ctx = Inr (Entry e)" and "in_i64 (debit_cents e)"
    and "cash_accounts_ok doc ctx" and "journal_ok db" and "chart_numbered db" and "chart_knows db company e"
    and "gate_open db company (doc_txn_date doc)" and "document_exists db company (doc_document_id doc) version"
    and "(company, entry_id) \<notin> entry_key ` set (db_journal_entries db)"
  shows "\<exists>db'. post_entry company e entry_id now db = (Inr entry_id, db') \<and> entry db' company entry_id = Inr (e, True)"
proof -
  have "acceptable db company e entry_id"
    using assms(1-3,5-9) by (rule post_is_acceptable)
  then have "post_entry company e entry_id now db = (Inr entry_id, with_posted company entry_id e now db)"
    using post_entry_cases[OF assms(4)] by (simp split: if_splits)
  moreover have "sorted (map jl_line_no (je_lines e))"
    using post_entry_facts(2)[OF assms(1)]
    by (auto simp: lines_numbered_def sorted_iff_nth_mono simp del: upt_Suc)
  ultimately show ?thesis using entry_after_posting(1)[OF assms(4,9)] by blast
qed

definition receipt_db :: db where
  "receipt_db = empty_db\<lparr>
     db_accounts := [(''co'', sample_account INVENTORY_RAW Asset), (''co'', sample_account INVENTORY_RECEIVED_NOT_BILLED Liability)],
     db_document_versions := [(''co'', sample_version ''doc-1'' RawMaterialReceipt (Ymd 2026 9 12))]\<rparr>"

theorem posted_document_is_accepted_witness:
  "\<exists>db'. post_entry ''co'' (receipt_entry 1) ''e-1'' 5 receipt_db = (Inr ''e-1'', db') \<and>
     entry db' ''co'' ''e-1'' = Inr (receipt_entry 1, True)"
proof (rule posted_document_is_accepted[where D = reference_ops and ctx = default_context and dbg = True, OF receipt_posts])
  note defs = receipt_db_def receipt_doc_def receipt_entry_def entry_of_def sample_defs sample_db_defs
    chart_numbers acct_def
  show "in_i64 (debit_cents (receipt_entry 1))"
    by (simp add: defs debit_cents_def in_i64_def)
  show "cash_accounts_ok receipt_doc default_context"
    by (simp add: cash_accounts_ok_def defs classless_def requires_class_def is_account_named_def)
  show "journal_ok receipt_db"
    by (simp add: journal_ok_def posted_balanced_def statement_eval defs)
  show "chart_numbered receipt_db" by (simp add: chart_numbered_def defs)
  show "chart_knows receipt_db ''co'' (receipt_entry 1)"
    by (simp add: chart_knows_def account_exists_def of_company_def defs)
  show "gate_open receipt_db ''co'' (doc_txn_date receipt_doc)"
    by (simp add: gate_open_def locked_through_def locked_through_in_def of_company_def sql_max_def defs)
  show "document_exists receipt_db ''co'' (doc_document_id receipt_doc) 1"
    by (simp add: document_exists_def of_company_def defs)
  show "(''co'', ''e-1'') \<notin> entry_key ` set (db_journal_entries receipt_db)" by (simp add: defs)
qed

end
