(* ===== verification/History.thy ===== *)
theory History
  imports Store_Posting Store_Desk "HOL-Library.Sublist" "HOL-Library.Option_ord"
begin

text \<open>
  What no operation of the ledger undoes. Every table but \<open>periods\<close> only grows: the journal by
  whole posted entries, a stored row changes in the columns meant to change and no others
  (a reconciliation stamp, a bank line's match, a request's decision, a statement's close).
\<close>

section \<open>The relation\<close>

text \<open>A posted line is itself apart from its stamp, and a stamp once set stays set.\<close>

definition same_line :: "line_row \<Rightarrow> line_row \<Rightarrow> bool" where
  "same_line l k \<longleftrightarrow> k\<lparr>ln_cleared_at := ln_cleared_at l\<rparr> = l \<and> (ln_cleared_at l \<noteq> None \<longrightarrow> ln_cleared_at k \<noteq> None)"

definition journal_grows :: "db \<Rightarrow> db \<Rightarrow> bool" where
  "journal_grows db db' \<longleftrightarrow> (\<exists>es old new.
     db_journal_entries db' = db_journal_entries db @ es \<and>
     list_all (\<lambda>e. en_is_posted e = 1 \<and> entry_key e \<notin> entry_key ` set (db_journal_entries db)) es \<and>
     db_journal_lines db' = old @ new \<and> list_all2 same_line (db_journal_lines db) old \<and>
     list_all (\<lambda>l. line_entry_key l \<in> entry_key ` set es) new)"

text \<open>Of an account the id, the number; of a statement all but its close; of a bank line all but its match.\<close>

definition account_key :: "string \<times> account \<Rightarrow> string \<times> account_id \<times> string" where
  "account_key row = (fst row, ac_account_id (snd row), ac_number (snd row))"

definition class_key :: "string \<times> class_row \<Rightarrow> string \<times> class_id" where
  "class_key row = (fst row, cl_class_id (snd row))"

definition unclosed :: "string \<times> bank_statement_row \<Rightarrow> string \<times> bank_statement_row" where
  "unclosed row = (fst row, (snd row)\<lparr>bs_closed_at := None\<rparr>)"

definition unmatched :: "string \<times> bank_line_row \<Rightarrow> string \<times> bank_line_row" where
  "unmatched row = (fst row, (snd row)\<lparr>bl_matched_entry_id := None, bl_matched_line_no := None,
     bl_match_kind := None, bl_matched_at := None\<rparr>)"

definition undecided :: "string \<times> adjustment_request_row \<Rightarrow> string \<times> adjustment_request_row" where
  "undecided row = (fst row, (snd row)\<lparr>ar_state := Proposed, ar_decided_by := None, ar_decided_at := None,
     ar_decision_note := None, ar_posted_entry_id := None\<rparr>)"

text \<open>An account's id is its number, and no company has two of one id.\<close>

definition chart_keys_ok :: "(string \<times> account_id \<times> string) list \<Rightarrow> bool" where
  "chart_keys_ok keys \<longleftrightarrow>
     distinct (map (\<lambda>(company, ident, _). (company, ident)) keys) \<and> list_all (\<lambda>(_, ident, number). ident = AccountId number) keys"

definition chart_keyed :: "db \<Rightarrow> bool" where
  "chart_keyed db \<longleftrightarrow> chart_keys_ok (map account_key (db_accounts db))"

definition tables_grow :: "db \<Rightarrow> db \<Rightarrow> bool" where
  "tables_grow db db' \<longleftrightarrow>
     prefix (map fst (db_companies db)) (map fst (db_companies db')) \<and>
     prefix (map account_key (db_accounts db)) (map account_key (db_accounts db')) \<and>
     prefix (map class_key (db_classes db)) (map class_key (db_classes db')) \<and>
     prefix (db_close_history db) (db_close_history db') \<and>
     prefix (db_document_versions db) (db_document_versions db') \<and>
     prefix (db_tb_snapshots db) (db_tb_snapshots db') \<and>
     prefix (db_oplog db) (db_oplog db') \<and>
     prefix (map undecided (db_adjustment_requests db)) (map undecided (db_adjustment_requests db')) \<and>
     prefix (map unclosed (db_bank_statements db)) (map unclosed (db_bank_statements db')) \<and>
     prefix (map unmatched (db_bank_lines db)) (map unmatched (db_bank_lines db')) \<and>
     (chart_keyed db \<longrightarrow> chart_keyed db')"

text \<open>The constraints of the journal and of the bank tables, as an invariant.\<close>

definition bank_ok :: "db \<Rightarrow> bool" where
  "bank_ok db \<longleftrightarrow> list_all match_kind_ok (db_bank_lines db) \<and> bank_keys_ok db \<and> bank_references_ok db"

definition book_sound :: "db \<Rightarrow> bool" where
  "book_sound db \<longleftrightarrow> journal_ok db \<and> bank_ok db"

definition keeps_history :: "db \<Rightarrow> db \<Rightarrow> bool" where
  "keeps_history db db' \<longleftrightarrow> journal_grows db db' \<and> tables_grow db db' \<and> (book_sound db \<longrightarrow> book_sound db')"

section \<open>Doing nothing and composing\<close>

lemma same_line_refl [simp]: "same_line l l"
  by (simp add: same_line_def)

lemma same_line_eqs:
  "same_line l k \<Longrightarrow> ln_line k = ln_line l \<and> line_entry_key k = line_entry_key l \<and> ln_company k = ln_company l"
  by (cases l; cases k) (auto simp: same_line_def line_entry_key_def)

lemma same_line_trans: "same_line a b \<Longrightarrow> same_line b c \<Longrightarrow> same_line a c"
  by (cases a; cases b; cases c) (auto simp: same_line_def)

lemma same_lines_refl [simp]: "list_all2 same_line ls ls"
  by (simp add: list_all2_refl)

lemma same_lines_trans: "list_all2 same_line a b \<Longrightarrow> list_all2 same_line b c \<Longrightarrow> list_all2 same_line a c"
  by (rule list_all2_trans) (auto intro: same_line_trans)

lemma same_lines_keys: "list_all2 same_line a b \<Longrightarrow> map line_entry_key b = map line_entry_key a"
  by (induction rule: list_all2_induct) (auto dest: same_line_eqs)

lemma journal_unchanged:
  "db_journal_entries db' = db_journal_entries db \<Longrightarrow> db_journal_lines db' = db_journal_lines db \<Longrightarrow> journal_grows db db'"
  unfolding journal_grows_def by (intro exI[of _ "[]"] exI[of _ "db_journal_lines db"]) simp

lemma journal_grows_trans:
  assumes "journal_grows a b" "journal_grows b c"
  shows "journal_grows a c"
proof -
  from assms(1) obtain es old new where 1: "db_journal_entries b = db_journal_entries a @ es"
    "list_all (\<lambda>e. en_is_posted e = 1 \<and> entry_key e \<notin> entry_key ` set (db_journal_entries a)) es"
    "db_journal_lines b = old @ new" "list_all2 same_line (db_journal_lines a) old"
    "list_all (\<lambda>l. line_entry_key l \<in> entry_key ` set es) new"
    unfolding journal_grows_def by blast
  from assms(2) obtain es' old' new' where 2: "db_journal_entries c = db_journal_entries b @ es'"
    "list_all (\<lambda>e. en_is_posted e = 1 \<and> entry_key e \<notin> entry_key ` set (db_journal_entries b)) es'"
    "db_journal_lines c = old' @ new'" "list_all2 same_line (db_journal_lines b) old'"
    "list_all (\<lambda>l. line_entry_key l \<in> entry_key ` set es') new'"
    unfolding journal_grows_def by blast
  from 2(4) obtain old1 new1 where split: "old' = old1 @ new1" "list_all2 same_line old old1" "list_all2 same_line new new1"
    unfolding 1(3) list_all2_append1 by blast
  have "map line_entry_key new1 = map line_entry_key new" by (rule same_lines_keys[OF split(3)])
  then have "line_entry_key ` set new1 = line_entry_key ` set new" by (metis set_map)
  then have "list_all (\<lambda>l. line_entry_key l \<in> entry_key ` set (es @ es')) (new1 @ new')"
    using 1(5) 2(5) by (force simp: list_all_iff)
  moreover have "list_all2 same_line (db_journal_lines a) old1"
    using same_lines_trans[OF 1(4) split(2)] .
  moreover have "list_all (\<lambda>e. en_is_posted e = 1 \<and> entry_key e \<notin> entry_key ` set (db_journal_entries a)) (es @ es')"
    using 1(1,2) 2(2) by (auto simp: list_all_iff)
  ultimately show ?thesis
    unfolding journal_grows_def
    by (intro exI[of _ "es @ es'"] exI[of _ old1] exI[of _ "new1 @ new'"]) (simp add: 1(1) 2(1,3) split(1))
qed

interpretation history: step_order keeps_history
proof unfold_locales
  show "keeps_history db db" for db
    by (simp add: keeps_history_def journal_unchanged tables_grow_def)
  show "keeps_history a b \<Longrightarrow> keeps_history b c \<Longrightarrow> keeps_history a c" for a b c
    by (auto simp: keeps_history_def tables_grow_def intro: journal_grows_trans prefix_order.trans)
qed

section \<open>The period gate\<close>

text \<open>The lock never moves back, and what is written is dated after it: all operations but a reopen.\<close>

definition new_entries :: "db \<Rightarrow> db \<Rightarrow> entry_row list" where
  "new_entries db db' = drop (length (db_journal_entries db)) (db_journal_entries db')"

definition keeps_gate :: "db \<Rightarrow> db \<Rightarrow> bool" where
  "keeps_gate db db' \<longleftrightarrow> keeps_history db db' \<and>
     (\<forall>c. locked_through db c \<le> locked_through db' c) \<and>
     list_all (\<lambda>e. gate_open db (en_company e) (en_entry_date e)) (new_entries db db')"

lemma gate_open_earlier:
  assumes "locked_through a c \<le> locked_through b c" "gate_open b c d"
  shows "gate_open a c d"
  using assms by (cases "locked_through a c"; cases "locked_through b c") (auto simp: gate_open_def)

lemma new_entries_append:
  assumes "keeps_history a b" "keeps_history b c"
  shows "new_entries a c = new_entries a b @ new_entries b c"
  using assms by (auto simp: keeps_history_def journal_grows_def new_entries_def)

interpretation gate: step_order keeps_gate
proof unfold_locales
  show "keeps_gate db db" for db
    by (simp add: keeps_gate_def history.refl new_entries_def)
  show "keeps_gate a c" if ab: "keeps_gate a b" and bc: "keeps_gate b c" for a b c
  proof -
    have "keeps_history a c" using ab bc by (auto simp: keeps_gate_def intro: history.trans)
    moreover have "locked_through a x \<le> locked_through c x" for x
      using ab bc unfolding keeps_gate_def by (meson order_trans)
    moreover have "list_all (\<lambda>e. gate_open a (en_company e) (en_entry_date e)) (new_entries a c)"
      using ab bc new_entries_append[of a b c]
      by (auto simp: keeps_gate_def list_all_iff intro: gate_open_earlier[of a _ b])
    ultimately show ?thesis by (simp add: keeps_gate_def)
  qed
qed

lemma obeys_weaken: "(\<And>a b. R a b \<Longrightarrow> S a b) \<Longrightarrow> obeys R m \<Longrightarrow> obeys S m"
  by (simp add: obeys_def)

lemma gate_history: "keeps_gate a b \<Longrightarrow> keeps_history a b"
  by (simp add: keeps_gate_def)

text \<open>A write beside the journal and the periods.\<close>

definition aside :: "db \<Rightarrow> db \<Rightarrow> bool" where
  "aside db db' \<longleftrightarrow>
     db_journal_entries db' = db_journal_entries db \<and> db_journal_lines db' = db_journal_lines db \<and>
     db_periods db' = db_periods db \<and> tables_grow db db' \<and> (bank_ok db \<longrightarrow> bank_ok db')"

text \<open>Growing tables leave no reference of the journal or of the bank tables dangling.\<close>

lemma list_ex_prefix: "prefix xs ys \<Longrightarrow> list_ex P xs \<Longrightarrow> list_ex P ys"
  by (auto simp: prefix_def)

lemma grown_references:
  assumes "tables_grow db db'"
  shows "document_exists db c d v \<Longrightarrow> document_exists db' c d v"
    "account_exists db c a \<Longrightarrow> account_exists db' c a"
    "has_company db c \<Longrightarrow> has_company db' c"
proof -
  have "prefix (db_document_versions db) (db_document_versions db')"
    and accounts: "set (map account_key (db_accounts db)) \<subseteq> set (map account_key (db_accounts db'))"
    and companies: "set (map fst (db_companies db)) \<subseteq> set (map fst (db_companies db'))"
    using assms unfolding tables_grow_def by (blast dest: set_mono_prefix)+
  then show "document_exists db c d v \<Longrightarrow> document_exists db' c d v"
    by (force simp: document_exists_def list_ex_iff of_company_set dest: set_mono_prefix)
  show "account_exists db c a \<Longrightarrow> account_exists db' c a"
  proof -
    assume "account_exists db c a"
    then obtain n where "(c, a, n) \<in> set (map account_key (db_accounts db))"
      by (force simp: account_exists_def list_ex_iff of_company_set account_key_def)
    then have "(c, a, n) \<in> set (map account_key (db_accounts db'))" using accounts by blast
    then show ?thesis by (force simp: account_exists_def list_ex_iff of_company_set account_key_def)
  qed
  show "has_company db c \<Longrightarrow> has_company db' c"
    using companies by (force simp: has_company_def list_ex_iff)
qed

lemma grown_journal_ok:
  assumes "journal_ok db" "tables_grow db db'" "db_journal_entries db' = db_journal_entries db"
    "db_journal_lines db' = db_journal_lines db" "list_all (matched_exists (db_journal_entries db')) (db_bank_lines db')"
  shows "journal_ok db'"
  using assms(1,3-5) grown_references[OF assms(2)]
  by (auto simp: journal_ok_def posted_balanced_def lines_of_def journal_lines_ok_def journal_keys_ok_def
      journal_references_ok_def list_all_iff)

lemma grown_bank_ok:
  assumes "bank_ok db" "tables_grow db db'" "db_journal_entries db' = db_journal_entries db"
    "db_bank_statements db' = db_bank_statements db" "db_bank_lines db' = db_bank_lines db"
  shows "bank_ok db'"
  using assms(1,3-5) grown_references[OF assms(2)]
  by (force simp: bank_ok_def bank_keys_ok_def bank_references_ok_def list_all_iff)

lemma grown_sound:
  assumes "tables_grow db db'" "db_journal_entries db' = db_journal_entries db"
    "db_journal_lines db' = db_journal_lines db"
    "db_bank_statements db' = db_bank_statements db" "db_bank_lines db' = db_bank_lines db"
  shows "book_sound db \<Longrightarrow> book_sound db'"
  using grown_bank_ok[OF _ assms(1,2,4,5)] grown_journal_ok[OF _ assms(1-3)]
  by (auto simp: book_sound_def bank_ok_def bank_references_ok_def)

lemma locked_through_periods: "db_periods db' = db_periods db \<Longrightarrow> locked_through db' c = locked_through db c"
  by (simp add: locked_through_def locked_through_in_def)

lemma aside_gate: "aside db db' \<Longrightarrow> keeps_gate db db'"
  by (auto simp: aside_def keeps_gate_def keeps_history_def new_entries_def journal_unchanged
      locked_through_periods[of db' db] book_sound_def bank_ok_def[of db'] bank_references_ok_def[of db']
      intro: grown_journal_ok)

interpretation beside: step_order aside
  by unfold_locales (auto simp: aside_def tables_grow_def intro: prefix_order.trans)

section \<open>Statements beside the journal\<close>

lemma map_update_rows:
  assumes "\<And>c r. key (c, f r) = key (c, r)"
  shows "map key (update_rows company P f table) = map key table"
  by (induction table) (auto simp: update_rows_def assms)

lemma update_row_keys [simp]:
  "map fst (update_rows company P f table) = map fst table"
  by (rule map_update_rows) simp

lemma insert_unique_Inr: "insert_unique key c row t = Inr t' \<Longrightarrow> t' = t @ [(c, row)]"
  by (auto simp: insert_unique_def split: if_splits)

lemma asideI:
  assumes "db_journal_entries db' = db_journal_entries db" "db_journal_lines db' = db_journal_lines db"
    "db_periods db' = db_periods db" "tables_grow db db'"
    "db_bank_statements db' = db_bank_statements db" "db_bank_lines db' = db_bank_lines db"
  shows "aside db db'"
  using assms grown_bank_ok[of db db'] by (simp add: aside_def)

lemma account_keys_updated:
  "(\<And>r. ac_account_id (f r) = ac_account_id r \<and> ac_number (f r) = ac_number r) \<Longrightarrow>
     map account_key (update_rows company P f table) = map account_key table"
  by (rule map_update_rows) (simp add: account_key_def)

lemma class_keys_updated:
  "(\<And>r. cl_class_id (f r) = cl_class_id r) \<Longrightarrow> map class_key (update_rows company P f table) = map class_key table"
  by (rule map_update_rows) (simp add: class_key_def)

lemma upsert_company_beside: "upsert_company company name realm now db = Inr db' \<Longrightarrow> aside db db'"
  by (rule asideI) (auto simp: upsert_company_def tables_grow_def chart_keyed_def split: if_splits)

lemma account_added:
  assumes "ac_account_id a = AccountId (ac_number a)" "\<not> account_exists db company (ac_account_id a)" "chart_keyed db"
  shows "chart_keyed (db\<lparr>db_accounts := db_accounts db @ [(company, a)]\<rparr>)"
proof -
  have "(company, ac_account_id a) \<notin> set (map (\<lambda>(c, i, _). (c, i)) (map account_key (db_accounts db)))"
    using assms(2) by (force simp: account_exists_def list_ex_iff of_company_set account_key_def)
  with assms(1,3) show ?thesis
    by (simp add: chart_keyed_def chart_keys_ok_def account_key_def[of "(company, a)"] del: map_map set_map)
qed

lemma new_account_key: "ac_account_id (new_account n name c i r m) = AccountId (ac_number (new_account n name c i r m))"
  by (simp add: new_account_def)

lemma insert_account_beside:
  "insert_account_if_new company a db = Inr db' \<Longrightarrow> ac_account_id a = AccountId (ac_number a) \<Longrightarrow> aside db db'"
  by (rule asideI) (auto simp: insert_account_if_new_def tables_grow_def account_added split: if_splits)

lemma insert_class_beside: "insert_class_if_new company c db = Inr db' \<Longrightarrow> aside db db'"
  by (rule asideI) (auto simp: insert_class_if_new_def tables_grow_def chart_keyed_def split: if_splits)

lemma upsert_account_beside:
  "upsert_account company a db = Inr db' \<Longrightarrow> ac_account_id a = AccountId (ac_number a) \<Longrightarrow> aside db db'"
  by (rule asideI)
    (auto simp: upsert_account_def tables_grow_def account_added account_keys_updated split: if_splits,
      simp add: chart_keyed_def account_keys_updated)

lemma upsert_class_beside: "upsert_class company c db = Inr db' \<Longrightarrow> aside db db'"
  by (rule asideI) (auto simp: upsert_class_def tables_grow_def chart_keyed_def class_keys_updated split: if_splits)

lemma insert_close_history_beside: "insert_close_history company row db = Inr db' \<Longrightarrow> aside db db'"
  by (rule asideI) (auto simp: insert_close_history_def tables_grow_def chart_keyed_def dest!: insert_unique_Inr)

lemma insert_oplog_beside: "insert_oplog company row db = Inr db' \<Longrightarrow> aside db db'"
  by (rule asideI) (auto simp: insert_oplog_def tables_grow_def chart_keyed_def dest!: insert_unique_Inr)

lemma insert_document_version_beside: "insert_document_version company row db = Inr db' \<Longrightarrow> aside db db'"
  by (rule asideI) (auto simp: insert_document_version_def tables_grow_def chart_keyed_def dest!: insert_unique_Inr)

lemma insert_snapshot_beside:
  "insert_unique sn_snapshot_id company row (db_tb_snapshots db) = Inr t \<Longrightarrow> aside db (db\<lparr>db_tb_snapshots := t\<rparr>)"
  by (rule asideI) (auto simp: tables_grow_def chart_keyed_def dest!: insert_unique_Inr)

lemma insert_request_beside:
  "insert_unique ar_request_id company row (db_adjustment_requests db) = Inr t \<Longrightarrow>
     aside db (db\<lparr>db_adjustment_requests := t\<rparr>)"
  by (rule asideI) (auto simp: tables_grow_def chart_keyed_def dest!: insert_unique_Inr)

lemma bank_constrained_Inr [simp]:
  "bank_constrained db = Inr db' \<longleftrightarrow> db' = db \<and> list_all match_kind_ok (db_bank_lines db) \<and> bank_keys_ok db \<and> bank_references_ok db"
  by (auto simp: bank_constrained_def)

lemma statements_updated:
  "map unclosed (update_rows company P (\<lambda>s. s\<lparr>bs_closed_at := x\<rparr>) table) = map unclosed table"
  by (rule map_update_rows) (simp add: unclosed_def)

lemma bank_lines_updated:
  "map unmatched (update_rows company P (\<lambda>b. b\<lparr>bl_match_kind := k, bl_matched_entry_id := i, bl_matched_line_no := n,
     bl_matched_at := a\<rparr>) table) = map unmatched table"
  by (rule map_update_rows) (simp add: unmatched_def)

lemma requests_updated:
  "map undecided (update_rows company P (\<lambda>r. r\<lparr>ar_state := s, ar_decided_by := b, ar_decided_at := a,
     ar_decision_note := n, ar_posted_entry_id := i\<rparr>) table) = map undecided table"
  by (rule map_update_rows) (simp add: undecided_def)

section \<open>Operations\<close>

text \<open>The contract of an operation that runs forward: it keeps the history and the gate.\<close>

locale forward_operation =
  fixes run :: "('e, 'a) run"
  assumes keeps: "obeys keeps_gate run"
begin

lemma forward: "keeps_gate db (snd (run db))"
  using keeps by (simp add: obeys_def)

lemma history: "obeys keeps_history run"
  using keeps by (rule obeys_weaken[rotated]) (rule gate_history)

lemma lock_stays: "locked_through db c \<le> locked_through (snd (run db)) c"
  using forward by (simp add: keeps_gate_def)

end

lemma obeys_beside: "obeys aside m \<Longrightarrow> obeys keeps_gate m"
  by (rule obeys_weaken) (rule aside_gate)

lemmas by_steps = beside.steps beside.stated

interpretation create_company: forward_operation "create_company company display_name realm_id now"
  for company display_name realm_id now
  unfolding create_company_def
  by (unfold_locales, rule obeys_beside)
    (intro by_steps, auto intro: upsert_company_beside insert_account_beside insert_class_beside by_steps new_account_key)

interpretation add_account: forward_operation "add_account company number name classification is_contra source_ref needs_mapping"
  for company number name classification is_contra source_ref needs_mapping
  unfolding add_account_def
  by (unfold_locales, rule obeys_beside) (intro by_steps, erule upsert_account_beside, rule new_account_key)

interpretation add_class: forward_operation "add_class company ident name source_ref"
  for company ident name source_ref
  unfolding add_class_def
  by (unfold_locales, rule obeys_beside) (intro by_steps, erule upsert_class_beside)

interpretation set_account_source_ref: forward_operation "set_account_source_ref company number source_ref"
  for company number source_ref
proof (unfold_locales, rule obeys_beside)
  show "obeys aside (set_account_source_ref company number source_ref :: (ledger_error, bool) run)"
    by (rule obeysI, rule asideI)
      (auto simp: set_account_source_ref_def Let_def tables_grow_def chart_keyed_def account_keys_updated)
qed

interpretation save_document: forward_operation "save_document to_json company doc command command_id now"
  for to_json company doc command command_id now
  unfolding save_document_def
  by (unfold_locales, rule obeys_beside)
    (intro by_steps; erule insert_oplog_beside insert_document_version_beside)

interpretation snapshot: forward_operation "snapshot_trial_balance company as_of snapshot_id now"
  for company as_of snapshot_id now
  unfolding snapshot_trial_balance_def
  by (unfold_locales, rule obeys_beside)
    (intro by_steps, auto intro: insert_snapshot_beside)

text \<open>Closing only adds a closed period; a period already there is closed afterwards.\<close>

lemma locked_through_mono:
  assumes "\<And>c p. (c, p) \<in> set (db_periods db) \<Longrightarrow> pe_closed p \<Longrightarrow>
      \<exists>q. (c, q) \<in> set (db_periods db') \<and> pe_closed q \<and> pe_period_end q = pe_period_end p"
  shows "locked_through db c \<le> locked_through db' c"
proof (cases "locked_through db c")
  case (Some d)
  then obtain p where p: "(c, p) \<in> set (db_periods db)" "pe_closed p" "pe_period_end p = d"
    by (auto simp: locked_through_def locked_through_in_def sql_max_Some of_company_set)
  from assms[OF p(1,2)] obtain q where q: "(c, q) \<in> set (db_periods db')" "pe_closed q" "pe_period_end q = d"
    using p(3) by blast
  then have "locked_through db' c \<noteq> None"
    by (auto simp: locked_through_def locked_through_in_def filter_empty_conv of_company_set)
  then obtain d' where d': "locked_through db' c = Some d'" by blast
  then have "d \<le> d'" using q by (auto simp: locked_through_def locked_through_in_def sql_max_Some of_company_set)
  with Some d' show ?thesis by simp
qed simp

lemma upsert_closed_period_gate:
  assumes "upsert_closed_period company p db = Inr db'" "pe_closed p"
  shows "keeps_gate db db'"
proof -
  have same: "db_journal_entries db' = db_journal_entries db" "db_journal_lines db' = db_journal_lines db" "tables_grow db db'"
    "book_sound db \<longrightarrow> book_sound db'"
    using assms(1) by (auto simp: upsert_closed_period_def tables_grow_def chart_keyed_def split: if_splits intro: grown_sound[rotated -1])
  have "locked_through db c \<le> locked_through db' c" for c
  proof (rule locked_through_mono)
    fix c' q assume "(c', q) \<in> set (db_periods db)" "pe_closed q"
    then show "\<exists>r. (c', r) \<in> set (db_periods db') \<and> pe_closed r \<and> pe_period_end r = pe_period_end q"
      using assms by (force simp: upsert_closed_period_def update_rows_def split: if_splits)
  qed
  with same show ?thesis
    by (simp add: keeps_gate_def keeps_history_def journal_unchanged new_entries_def)
qed

interpretation close_period: forward_operation "close_period company period_end actor why snapshot_id now"
  for company period_end actor why snapshot_id now
  unfolding close_period_def
  by unfold_locales
    (intro gate.steps gate.stated snapshot.keeps; erule upsert_closed_period_gate aside_gate[OF insert_close_history_beside], simp?)

lemma reopen_keeps_history: "obeys keeps_history (reopen_period company period_end actor why now)"
  unfolding reopen_period_def
  by (intro history.steps history.stated)
    (auto simp: keeps_history_def journal_unchanged tables_grow_def chart_keyed_def
      intro: grown_sound[rotated -1] dest!: insert_close_history_beside[THEN aside_gate, THEN gate_history, unfolded keeps_history_def])

text \<open>Posting writes one posted entry with its lines, dated after the lock.\<close>

lemma posted_balances:
  assumes "is_balanced e"
  shows "lines_balance (map (line_row_of c i) (je_lines e))"
  using assms by (auto simp: is_balanced_iff well_balanced_def lines_balance_def debit_sum_def credit_sum_def
      debit_cents_def credit_cents_def o_def)

lemma with_posted_more [simp]:
  "db_bank_statements (with_posted c i e now db) = db_bank_statements db"
  "db_tb_snapshots (with_posted c i e now db) = db_tb_snapshots db"
  "db_oplog (with_posted c i e now db) = db_oplog db"
  "db_adjustment_requests (with_posted c i e now db) = db_adjustment_requests db"
  by (simp_all add: with_posted_def)

lemma with_posted_sound:
  assumes "book_sound db" and "post_entry company e entry_id now db = (Inr r, db')"
  shows "book_sound db'"
proof -
  note acc = post_entry_accepted[OF assms(2)]
  have refs: "journal_references_ok db" using assms(1) by (simp add: book_sound_def journal_ok_def)
  have "posted_balanced db'"
    using assms(1) acc(7) posted_balances[OF acc(3)]
    by (auto simp: posted_balanced_def acc(2) lines_of_with_posted[OF refs acc(7)] list_all_iff book_sound_def
        journal_ok_def image_iff)
  moreover have "bank_ok db'"
    using assms(1) acc(8) by (auto simp: book_sound_def bank_ok_def acc(2) bank_keys_ok_def bank_references_ok_def
        journal_references_ok_def list_all_iff account_exists_def has_company_def)
  ultimately show ?thesis using acc(8) by (simp add: book_sound_def journal_ok_def)
qed

lemma with_posted_grows:
  assumes "(company, entry_id) \<notin> entry_key ` set (db_journal_entries db)"
  shows "journal_grows db (with_posted company entry_id e now db) \<and> tables_grow db (with_posted company entry_id e now db)"
proof -
  have "journal_grows db (with_posted company entry_id e now db)"
    unfolding journal_grows_def
    by (intro exI[of _ "[posted_row company entry_id e now]"] exI[of _ "db_journal_lines db"]
        exI[of _ "map (line_row_of company entry_id) (je_lines e)"]) (use assms in \<open>simp add: list_all_iff\<close>)
  then show ?thesis by (simp add: tables_grow_def chart_keyed_def with_posted_def)
qed

interpretation post_entry: forward_operation "post_entry company e entry_id now" for company e entry_id now
proof (unfold_locales, rule obeysI)
  fix db r db' assume run: "post_entry company e entry_id now db = (r, db')"
  show "keeps_gate db db'"
  proof (cases r)
    case (Inl err)
    then show ?thesis using run post_entry_refused_unchanged gate.refl by metis
  next
    case (Inr i)
    note acc = post_entry_accepted[OF run[unfolded Inr]]
    have "locked_through db' c = locked_through db c" for c
      by (simp add: acc(2) locked_through_def locked_through_in_def)
    moreover have "gate_open db company (je_entry_date e)"
      using acc(5) by (auto simp: gate_open_def split: option.split)
    ultimately show ?thesis
      using with_posted_grows[OF acc(7), of e now] with_posted_sound[OF _ run[unfolded Inr]]
      by (simp add: keeps_gate_def keeps_history_def new_entries_def acc(2))
  qed
qed

interpretation reverse_entry: forward_operation "reverse_entry company entry_id on reversal_id now"
  for company entry_id on reversal_id now
  unfolding reverse_entry_def by unfold_locales (intro gate.steps post_entry.keeps)

section \<open>Requests and bank tables\<close>

interpretation insert_adjustment_request: forward_operation
    "insert_adjustment_request company request_id requested_by requested_at description lines_json"
  for company request_id requested_by requested_at description lines_json
  unfolding insert_adjustment_request_def
  by (unfold_locales, rule obeys_beside) (intro by_steps, auto intro: insert_request_beside)

interpretation decide_adjustment_request: forward_operation
    "decide_adjustment_request company request_id decided_by decided_at why new_state posted_entry_id"
  for company request_id decided_by decided_at why new_state posted_entry_id
  unfolding decide_adjustment_request_def
  by (unfold_locales, rule obeys_beside)
    (intro by_steps, rule asideI, auto simp: tables_grow_def chart_keyed_def requests_updated)

text \<open>A statement on a bank table leaves rows its constraints hold of.\<close>

lemma bank_statement_beside:
  assumes "db_journal_entries db' = db_journal_entries db" "db_journal_lines db' = db_journal_lines db"
    "db_periods db' = db_periods db" "tables_grow db db'" "bank_constrained db' = Inr d"
  shows "aside db d"
  using assms by (auto simp: aside_def bank_ok_def)

interpretation create_bank_statement: forward_operation
    "create_bank_statement company statement_id account period_start period_end balance_in balance_out now"
  for company statement_id account period_start period_end balance_in balance_out now
  unfolding create_bank_statement_def
  by (unfold_locales, rule obeys_beside)
    (intro by_steps, rule bank_statement_beside[rotated -1], assumption, auto simp: tables_grow_def chart_keyed_def)

lemma statement_key_updated:
  "map statement_key (update_rows company P (\<lambda>s. s\<lparr>bs_closed_at := x\<rparr>) table) = map statement_key table"
  by (rule map_update_rows) (simp add: statement_key_def)

lemma statement_closed_beside:
  "aside db (db\<lparr>db_bank_statements := update_rows company P (\<lambda>s. s\<lparr>bs_closed_at := x\<rparr>) (db_bank_statements db)\<rparr>)"
proof -
  let ?db = "db\<lparr>db_bank_statements := update_rows company P (\<lambda>s. s\<lparr>bs_closed_at := x\<rparr>) (db_bank_statements db)\<rparr>"
  have keys: "statement_key ` set (db_bank_statements ?db) = statement_key ` set (db_bank_statements db)"
    using arg_cong[OF statement_key_updated[of company P x "db_bank_statements db"], of set] by simp
  have "bank_ok db \<longrightarrow> bank_ok ?db"
  proof
    assume "bank_ok db"
    moreover have "list_ex (\<lambda>r. statement_key r = k) (db_bank_statements ?db) = list_ex (\<lambda>r. statement_key r = k) (db_bank_statements db)" for k
    proof -
      have "list_ex (\<lambda>r. statement_key r = k) t \<longleftrightarrow> k \<in> statement_key ` set t" for t by (auto simp: list_ex_iff)
      then show ?thesis by (simp only: keys)
    qed
    moreover have "list_all (\<lambda>(c, s). has_company ?db c \<and> account_exists ?db c (bs_account_id s)) (db_bank_statements ?db)"
      if "list_all (\<lambda>(c, s). has_company db c \<and> account_exists db c (bs_account_id s)) (db_bank_statements db)"
      using that by (auto simp: list_all_iff update_rows_def has_company_def account_exists_def)
    ultimately show "bank_ok ?db"
      by (simp add: bank_ok_def bank_keys_ok_def bank_references_ok_def statement_key_updated account_exists_def)
  qed
  then show ?thesis by (simp add: aside_def tables_grow_def chart_keyed_def statements_updated)
qed

interpretation close_bank_statement: forward_operation "close_bank_statement company statement_id now"
  for company statement_id now
  unfolding close_bank_statement_def
  by (unfold_locales, rule obeys_beside) (intro by_steps, auto intro: statement_closed_beside)

interpretation insert_bank_line: forward_operation
    "insert_bank_line_if_new company line_id statement_id account posted_on amount description external_id"
  for company line_id statement_id account posted_on amount description external_id
  unfolding insert_bank_line_if_new_def
  by (unfold_locales, rule obeys_beside)
    (intro by_steps, rule bank_statement_beside[rotated -1], assumption, auto simp: tables_grow_def chart_keyed_def)

interpretation set_bank_line_match: forward_operation "set_bank_line_match company line_id match_kind entry_id line_no now"
  for company line_id match_kind entry_id line_no now
  unfolding set_bank_line_match_def
  by (unfold_locales, rule obeys_beside)
    (intro by_steps, rule bank_statement_beside[rotated -1], assumption, auto simp: tables_grow_def chart_keyed_def bank_lines_updated)

lemma update_lines_Inr:
  "update_lines P f db = Inr db' \<Longrightarrow>
     db' = db\<lparr>db_journal_lines := map (\<lambda>l. if P l then f l else l) (db_journal_lines db)\<rparr> \<and>
     journal_lines_ok db' \<and> journal_keys_ok db' \<and> journal_references_ok db'"
  by (auto simp: update_lines_def)

lemma sums_of_lines:
  "debit_sum ls = (\<Sum>l\<leftarrow>map ln_line ls. cents (jl_debit l))" "credit_sum ls = (\<Sum>l\<leftarrow>map ln_line ls. cents (jl_credit l))"
  by (simp_all add: debit_sum_def credit_sum_def o_def)

lemma same_lines_balance:
  assumes "list_all2 same_line ls ks"
  shows "lines_balance (filter (\<lambda>l. line_entry_key l = k) ks) = lines_balance (filter (\<lambda>l. line_entry_key l = k) ls)"
proof -
  have "map ln_line (filter (\<lambda>l. line_entry_key l = k) ks) = map ln_line (filter (\<lambda>l. line_entry_key l = k) ls)"
    using assms by (induction rule: list_all2_induct) (auto dest: same_line_eqs)
  then have "lines_balance (filter (\<lambda>l. line_entry_key l = k) ks) \<longleftrightarrow>
      map ln_line (filter (\<lambda>l. line_entry_key l = k) ls) \<noteq> [] \<and>
      debit_sum (filter (\<lambda>l. line_entry_key l = k) ls) = credit_sum (filter (\<lambda>l. line_entry_key l = k) ls)"
    unfolding lines_balance_def sums_of_lines by (metis map_is_Nil_conv)
  then show ?thesis by (simp add: lines_balance_def)
qed

lemma stamped_grows:
  assumes "update_lines P (\<lambda>l. l\<lparr>ln_cleared_at := Some now\<rparr>) db = Inr db'"
  shows "keeps_gate db db'"
proof -
  have db': "db' = db\<lparr>db_journal_lines := map (\<lambda>l. if P l then l\<lparr>ln_cleared_at := Some now\<rparr> else l) (db_journal_lines db)\<rparr>"
    and ok: "journal_lines_ok db'" "journal_keys_ok db'" "journal_references_ok db'"
    using update_lines_Inr[OF assms] by blast+
  have same: "list_all2 same_line ls (map (\<lambda>l. if P l then l\<lparr>ln_cleared_at := Some now\<rparr> else l) ls)" for ls
    by (induction ls) (auto simp: same_line_def)
  then have "journal_grows db db'"
    unfolding journal_grows_def db' by (intro exI[of _ "[]"] exI) auto
  moreover have "posted_balanced db'" if "posted_balanced db"
    using that same_lines_balance[OF same] by (simp add: posted_balanced_def lines_of_def db')
  then have "book_sound db \<longrightarrow> book_sound db'"
    using ok by (auto simp: book_sound_def journal_ok_def bank_ok_def bank_keys_ok_def bank_references_ok_def db'
        has_company_def account_exists_def)
  ultimately show ?thesis
    by (simp add: keeps_gate_def keeps_history_def new_entries_def db' tables_grow_def chart_keyed_def locked_through_def locked_through_in_def)
qed

interpretation clear_journal_line: forward_operation "clear_journal_line company entry_id line_no now"
  for company entry_id line_no now
  unfolding clear_journal_line_def
  by unfold_locales (intro gate.steps gate.stated, erule stamped_grows)

section \<open>A closed month stays as it was\<close>

lemma same_line_join: "list_all2 same_line ls ks \<Longrightarrow> map ln_line ks = map ln_line ls"
  by (induction rule: list_all2_induct) (auto dest: same_line_eqs)

lemma posted_join_concat:
  "map join_line (posted_join db company P) =
     concat (map (\<lambda>l. map (\<lambda>_. ln_line l) (filter (\<lambda>e. ln_company l = company \<and> entry_key e = line_entry_key l \<and>
       en_is_posted e = 1 \<and> P e) (db_journal_entries db))) (db_journal_lines db))"
proof -
  have "map join_line (filter (\<lambda>(l, e). ln_company l = company \<and> entry_key e = line_entry_key l \<and> en_is_posted e = 1 \<and> P e)
      (List.product ls es)) =
    concat (map (\<lambda>l. map (\<lambda>_. ln_line l) (filter (\<lambda>e. ln_company l = company \<and> entry_key e = line_entry_key l \<and>
       en_is_posted e = 1 \<and> P e) es)) ls)" for ls es
    by (induction ls) (simp_all add: filter_map o_def join_line_def)
  then show ?thesis by (simp add: posted_join_def)
qed

lemma frozen_lines:
  assumes "keeps_gate db db'" and "locked_through db company = Some locked" and "\<And>e. P e \<Longrightarrow> en_entry_date e \<le> locked"
  shows "map join_line (posted_join db' company P) = map join_line (posted_join db company P)"
proof -
  from assms(1) obtain es old new where
    es: "db_journal_entries db' = db_journal_entries db @ es"
      "list_all (\<lambda>e. en_is_posted e = 1 \<and> entry_key e \<notin> entry_key ` set (db_journal_entries db)) es"
    and ls: "db_journal_lines db' = old @ new" "list_all2 same_line (db_journal_lines db) old"
      "list_all (\<lambda>l. line_entry_key l \<in> entry_key ` set es) new"
    and dated: "list_all (\<lambda>e. gate_open db (en_company e) (en_entry_date e)) es"
    by (auto simp: keeps_gate_def keeps_history_def journal_grows_def new_entries_def)
  let ?hit = "\<lambda>l e. ln_company l = company \<and> entry_key e = line_entry_key l \<and> en_is_posted e = 1 \<and> P e"
  have late: "filter (?hit l) es = []" for l
  proof -
    have "\<not> ?hit l e" if "e \<in> set es" for e
    proof
      assume hit: "?hit l e"
      then have "en_company e = company" by (metis key_company)
      with dated that assms(2) have "locked < en_entry_date e" by (auto simp: list_all_iff gate_open_def)
      moreover have "en_entry_date e \<le> locked" using hit assms(3) by blast
      ultimately show False by simp
    qed
    then show ?thesis by (simp add: filter_empty_conv)
  qed
  have fresh: "filter (?hit l) (db_journal_entries db) = []" if "l \<in> set new" for l
  proof -
    from that ls(3) obtain e' where "e' \<in> set es" "line_entry_key l = entry_key e'"
      by (auto simp: list_all_iff)
    with es(2) have "line_entry_key l \<notin> entry_key ` set (db_journal_entries db)"
      by (simp add: list_all_iff)
    then show ?thesis by (auto simp: filter_empty_conv image_iff)
  qed
  have old: "concat (map (\<lambda>l. map (\<lambda>_. ln_line l) (filter (?hit l) (db_journal_entries db))) ks) =
      concat (map (\<lambda>l. map (\<lambda>_. ln_line l) (filter (?hit l) (db_journal_entries db))) js)" if "list_all2 same_line js ks" for js ks
    using that by (induction rule: list_all2_induct) (auto dest: same_line_eqs)
  have "concat (map (\<lambda>l. map (\<lambda>_. ln_line l) (filter (?hit l) (db_journal_entries db))) new) = []"
    using fresh by simp
  then show ?thesis
    unfolding posted_join_concat es(1) ls(1) filter_append late using old[OF ls(2)] by simp
qed

lemma reports_of_lines:
  assumes "\<And>P. (\<And>e. P e \<Longrightarrow> en_entry_date e \<le> locked) \<Longrightarrow>
      map join_line (posted_join db' company P) = map join_line (posted_join db company P)"
    and "company_accounts db' company = company_accounts db company" and "until \<le> locked"
  shows "trial_balance db' company until = trial_balance db company until"
    "profit_and_loss db' company lo until = profit_and_loss db company lo until"
    "balance_sheet db' company until = balance_sheet db company until"
proof -
  have accounts: "list_accounts db' company = list_accounts db company" by (simp add: list_accounts_def assms(2))
  have rows: "account_lines db' company P = account_lines db company P" if "\<And>e. P e \<Longrightarrow> en_entry_date e \<le> until" for P
    using assms(1)[of P] that assms(3) by (force simp: account_lines_def fun_eq_iff)
  have cum: "account_sums db' company (\<lambda>e. en_entry_date e \<le> until) = account_sums db company (\<lambda>e. en_entry_date e \<le> until)"
    by (rule ext) (simp add: account_sums_def rows)
  show "trial_balance db' company until = trial_balance db company until"
    by (simp add: trial_balance_def accounts cum)
  have pl: "profit_and_loss db' company lo until = profit_and_loss db company lo until" for lo
  proof -
    let ?P = "\<lambda>e. lo \<le> en_entry_date e \<and> en_entry_date e \<le> until"
    have lines: "account_lines db' company ?P = account_lines db company ?P" by (rule rows) simp
    have "pnl_keys db' company ?P = pnl_keys db company ?P" by (simp only: pnl_keys_def accounts lines)
    moreover have "pnl_row db' company ?P = pnl_row db company ?P"
      by (rule ext) (simp only: pnl_row_def lines)
    ultimately show ?thesis by (simp add: profit_and_loss_def)
  qed
  then show "profit_and_loss db' company lo until = profit_and_loss db company lo until" .
  show "balance_sheet db' company until = balance_sheet db company until"
    by (simp add: balance_sheet_def accounts cum pl)
qed

section \<open>A posted entry reads the same ever after\<close>

lemma find_map_prefix: "prefix xs ys \<Longrightarrow> find_map P xs = Some x \<Longrightarrow> find_map P ys = Some x"
  by (auto simp: prefix_def find_map_append)

lemma entry_kept:
  assumes "keeps_history db db'" "entry db c i = Inr x"
  shows "entry db' c i = Inr x"
proof -
  from assms(1) obtain es old new where g:
    "db_journal_entries db' = db_journal_entries db @ es"
    "list_all (\<lambda>e. en_is_posted e = 1 \<and> entry_key e \<notin> entry_key ` set (db_journal_entries db)) es"
    "db_journal_lines db' = old @ new" "list_all2 same_line (db_journal_lines db) old"
    "list_all (\<lambda>l. line_entry_key l \<in> entry_key ` set es) new"
    by (auto simp: keeps_history_def journal_grows_def)
  from assms(2) obtain row where row: "find_map (\<lambda>e. entry_key e = (c, i)) (db_journal_entries db) = Some row"
    by (auto simp: entry_def)
  then have key: "(c, i) \<in> entry_key ` set (db_journal_entries db)" by (force dest!: find_map_Some)
  have "filter (\<lambda>l. line_entry_key l = (c, i)) new = []"
    using g(2,5) key by (force simp: filter_empty_conv list_all_iff)
  moreover have "map ln_line (filter (\<lambda>l. line_entry_key l = (c, i)) old) =
      map ln_line (filter (\<lambda>l. line_entry_key l = (c, i)) (db_journal_lines db))"
    using g(4) by (induction rule: list_all2_induct) (auto dest: same_line_eqs)
  ultimately have "map ln_line (lines_of db' (c, i)) = map ln_line (lines_of db (c, i))"
    by (simp add: lines_of_def g(3))
  moreover have "find_map (\<lambda>e. entry_key e = (c, i)) (db_journal_entries db') = Some row"
    by (rule find_map_prefix[OF _ row]) (simp add: g(1))
  ultimately show ?thesis using assms(2) row by (simp add: entry_def)
qed

end
