(* ===== verification/Bank_Facts.thy ===== *)
theory Bank_Facts
  imports Bank History Posting_Outcome
begin

text \<open>
  Bank reconciliation: every run of the desk keeps the book's history and gate; a matched bank
  line stands for one cleared journal line of its account and no other bank line does; an import
  twice over adds nothing; a statement closes exactly when its figures add up; and what
  confirming a proposal posts.
\<close>

section \<open>Forward operations\<close>

lemmas desk_steps = gate.steps gate.stated create_bank_statement.keeps insert_bank_line.keeps
  clear_journal_line.keeps set_bank_line_match.keeps save_document.keeps post_entry.keeps close_bank_statement.keeps

interpretation import_statement: forward_operation "import_statement company account statement statement_id line_ids now"
  for company account statement statement_id line_ids now
  unfolding import_statement_def import_line_def by unfold_locales (intro desk_steps)

lemma try_settlements_keeps: "obeys keeps_gate (try_settlements company line now entries)"
proof (induction entries)
  case (Cons i entries)
  then show ?case unfolding try_settlements.simps read_only_def by (intro desk_steps)
qed (simp only: try_settlements.simps gate.no_write)

lemma posted_entry_of_keeps: "obeys keeps_gate (posted_entry_of E doc version)"
  unfolding posted_entry_of_def by (auto intro!: gate.steps split: sum.split posting.split)

lemma fee_adjustment_keeps:
  "obeys keeps_gate (post_settlement_fee_adjustment E company bank_account fee fee_class posted_on i fresh now)"
  unfolding post_settlement_fee_adjustment_def Let_def
  by (intro desk_steps posted_entry_of_keeps)

lemma try_fee_settlements_keeps: "obeys keeps_gate (try_fee_settlements E company line amount rules fresh now candidates)"
proof (induction candidates)
  case (Cons c candidates)
  then show ?case
    by (cases c) (simp only: try_fee_settlements.simps read_only_def, intro desk_steps fee_adjustment_keeps)
qed (simp only: try_fee_settlements.simps gate.no_write)

lemma propose_keeps: "obeys keeps_gate (propose company line is_money_in now report)"
  unfolding propose_def by (intro desk_steps)

lemma match_one_line_keeps: "obeys keeps_gate (match_one_line E company rules fresh now report line)"
  unfolding match_one_line_def Let_def read_only_def try_settlement_match_def try_settlement_fee_match_def
  by (intro desk_steps propose_keeps try_settlements_keeps try_fee_settlements_keeps impI conjI)
    (auto intro!: desk_steps propose_keeps try_settlements_keeps try_fee_settlements_keeps split: list.split)

interpretation match_statement: forward_operation "match_statement E company statement_id rules fresh now"
  for E company statement_id rules fresh now
  unfolding match_statement_def read_only_def
  by unfold_locales (intro desk_steps match_one_line_keeps)

interpretation confirm_proposal: forward_operation "confirm_proposal E company line_id account class_opt fresh now"
  for E company line_id account class_opt fresh now
  unfolding confirm_proposal_def read_only_def Let_def
  by unfold_locales (intro desk_steps posted_entry_of_keeps)

interpretation close_statement: forward_operation "close_statement company statement_id now"
  for company statement_id now
  unfolding close_statement_def Let_def by unfold_locales (intro desk_steps)

section \<open>Matched lines\<close>

text \<open>The journal line a resolved bank line stands for, by its primary key.\<close>

definition match_key :: "string \<times> bank_line_row \<Rightarrow> ((string \<times> string) \<times> int) option" where
  "match_key row =
     (case row of (c, b) \<Rightarrow>
      if \<not> is_resolved (bl_match_kind b) then None
      else case (bl_matched_entry_id b, bl_matched_line_no b) of
          (Some i, Some n) \<Rightarrow> Some ((c, i), n)
        | _ \<Rightarrow> None)"

definition bank_side :: "bank_line_row \<Rightarrow> side" where
  "bank_side b = (if is_negative (bl_amount b) then Credit else Debit)"

text \<open>An exact match is for the amount, on the side of its direction.\<close>

definition right_amount :: "bank_line_row \<Rightarrow> journal_line \<Rightarrow> bool" where
  "right_amount b l \<longleftrightarrow>
     bl_match_kind b \<noteq> Some ''exact'' \<or> cents (side_column (bank_side b) l) = \<bar>cents (bl_amount b)\<bar>"

definition stands_for :: "db \<Rightarrow> string \<times> bank_line_row \<Rightarrow> bool" where
  "stands_for db row \<longleftrightarrow>
     (if \<not> is_resolved (bl_match_kind (snd row)) then True
      else case match_key row of
          None \<Rightarrow> False
        | Some k \<Rightarrow> posted_entry db (fst k) \<and>
            list_ex (\<lambda>l. line_pk l = k \<and> ln_cleared_at l \<noteq> None \<and> jl_account (ln_line l) = bl_account_id (snd row) \<and>
              right_amount (snd row) (ln_line l)) (db_journal_lines db))"

definition matches_sound :: "db \<Rightarrow> bool" where
  "matches_sound db \<longleftrightarrow>
     list_all (stands_for db) (db_bank_lines db) \<and> distinct (List.map_filter match_key (db_bank_lines db))"

definition all_posted :: "db \<Rightarrow> bool" where
  "all_posted db \<longleftrightarrow> list_all (\<lambda>e. en_is_posted e = 1) (db_journal_entries db)"

definition desk_ok :: "db \<Rightarrow> bool" where
  "desk_ok db \<longleftrightarrow> book_sound db \<and> all_posted db \<and> matches_sound db"

lemma all_posted_grows: "keeps_history db db' \<Longrightarrow> all_posted db \<Longrightarrow> all_posted db'"
  by (auto simp: keeps_history_def journal_grows_def all_posted_def list_all_iff)

lemma posted_entry_grows: "keeps_history db db' \<Longrightarrow> posted_entry db k \<Longrightarrow> posted_entry db' k"
  by (auto simp: keeps_history_def journal_grows_def posted_entry_def)

lemma line_grows:
  assumes "keeps_history db db'" "l \<in> set (db_journal_lines db)"
  obtains l' where "l' \<in> set (db_journal_lines db')" "same_line l l'"
proof -
  from assms(1) obtain old new where "db_journal_lines db' = old @ new" "list_all2 same_line (db_journal_lines db) old"
    by (auto simp: keeps_history_def journal_grows_def)
  moreover then obtain i where "i < length old" "db_journal_lines db ! i = l"
    using assms(2) by (metis in_set_conv_nth list_all2_lengthD)
  ultimately show thesis
    by (intro that[of "old ! i"]) (auto dest: list_all2_nthD2)
qed

lemma stands_for_grows:
  assumes "keeps_history db db'" "stands_for db row"
  shows "stands_for db' row"
proof (cases "is_resolved (bl_match_kind (snd row))")
  case True
  with assms(2) obtain k l where k: "match_key row = Some k" "posted_entry db (fst k)" "l \<in> set (db_journal_lines db)"
    "line_pk l = k" "ln_cleared_at l \<noteq> None" "jl_account (ln_line l) = bl_account_id (snd row)"
    "right_amount (snd row) (ln_line l)"
    by (auto simp: stands_for_def list_ex_iff split: option.splits)
  obtain l' where l': "l' \<in> set (db_journal_lines db')" "same_line l l'" by (rule line_grows[OF assms(1) k(3)])
  have "ln_line l' = ln_line l" "line_pk l' = k" "ln_cleared_at l' \<noteq> None"
    using same_line_eqs[OF l'(2)] l'(2) k(4,5) by (auto simp: line_pk_def same_line_def)
  with k l'(1) True posted_entry_grows[OF assms(1) k(2)] show ?thesis
    by (auto simp: stands_for_def list_ex_iff)
qed (simp add: stands_for_def)

lemma matches_grow:
  assumes "keeps_history db db'" "db_bank_lines db' = db_bank_lines db @ new" "list_all (\<lambda>r. \<not> is_resolved (bl_match_kind (snd r))) new"
    and "matches_sound db"
  shows "matches_sound db'"
proof -
  have "List.map_filter match_key new = []"
    using assms(3) by (induction new) (auto simp: List.map_filter_def match_key_def)
  then have "List.map_filter match_key (db_bank_lines db') = List.map_filter match_key (db_bank_lines db)"
    by (simp add: assms(2) List.map_filter_def)
  moreover have "list_all (stands_for db') (db_bank_lines db')"
    using assms(3,4) stands_for_grows[OF assms(1)]
    by (auto simp: matches_sound_def assms(2) list_all_iff stands_for_def)
  ultimately show ?thesis using assms(4) by (simp add: matches_sound_def)
qed

lemma desk_ok_grows:
  assumes "keeps_history db db'" "db_bank_lines db' = db_bank_lines db @ new" "list_all (\<lambda>r. \<not> is_resolved (bl_match_kind (snd r))) new"
    and "desk_ok db"
  shows "desk_ok db'"
  using assms matches_grow[OF assms(1-3)] all_posted_grows[OF assms(1)]
  by (auto simp: desk_ok_def keeps_history_def)

lemma obeys_here: "obeys R m \<Longrightarrow> R db (snd (m db))"
  by (simp add: obeys_def)

section \<open>Settling one line\<close>

text \<open>The bank line at hand is, its match apart, the stored one.\<close>

definition known_line :: "string \<Rightarrow> bank_line_row \<Rightarrow> db \<Rightarrow> bool" where
  "known_line company line db \<longleftrightarrow>
     (\<exists>b. (company, b) \<in> set (db_bank_lines db) \<and> unmatched (company, b) = unmatched (company, line))"

lemma unmatched_eqs:
  "unmatched (c, b) = unmatched (c, line) \<Longrightarrow>
     bl_line_id b = bl_line_id line \<and> bl_account_id b = bl_account_id line \<and> bl_amount b = bl_amount line \<and>
     bl_statement_id b = bl_statement_id line"
  by (cases b; cases line) (simp add: unmatched_def)

lemma known_line_grows: "keeps_history db db' \<Longrightarrow> known_line company line db \<Longrightarrow> known_line company line db'"
proof -
  assume "keeps_history db db'" "known_line company line db"
  then obtain b where b: "(company, b) \<in> set (db_bank_lines db)" "unmatched (company, b) = unmatched (company, line)"
    and "set (map unmatched (db_bank_lines db)) \<subseteq> set (map unmatched (db_bank_lines db'))"
    unfolding known_line_def keeps_history_def tables_grow_def by (blast dest: set_mono_prefix)
  then have "unmatched (company, line) \<in> set (map unmatched (db_bank_lines db'))"
    by (metis image_eqI set_map subsetD)
  then obtain r where r: "r \<in> set (db_bank_lines db')" "unmatched r = unmatched (company, line)" by auto
  moreover obtain c b where "r = (c, b)" by (rule prod.exhaust)
  ultimately show ?thesis unfolding known_line_def by (auto simp: unmatched_def)
qed

lemma unique_in_table:
  assumes "distinct (map key xs)" "x \<in> set xs" "y \<in> set xs" "key x = key y"
  shows "x = y"
  using assms by (metis distinct_map inj_onD)

lemma distinct_replaced:
  assumes "distinct (map key xs)" "x \<in> set xs" "distinct (List.map_filter g xs)"
    and "g y = Some k" "k \<notin> set (List.map_filter g xs)"
    and "\<And>z. z \<in> set xs \<Longrightarrow> h z = (if key z = key x then y else z)"
  shows "distinct (List.map_filter g (map h xs))"
proof -
  obtain as bs where xs: "xs = as @ x # bs" using assms(2) by (meson split_list)
  have "key x \<notin> key ` set as \<union> key ` set bs" using assms(1) by (simp add: xs)
  then have "h z = z" if "z \<in> set as \<union> set bs" for z using assms(6)[of z] that by (auto simp: xs image_iff)
  then have "map h as = as" "map h bs = bs" by (simp_all add: map_idI)
  moreover have "h x = y" using assms(6)[OF assms(2)] by simp
  ultimately
  show ?thesis using assms(3-5)
    by (cases "g x") (auto simp: xs List.map_filter_def disjoint_iff image_iff)
qed

lemma set_match_run:
  assumes "set_bank_line_match company line_id kind entry_id line_no now db = (r, db')"
  shows "db' = db \<or> db' = db\<lparr>db_bank_lines := update_rows company (\<lambda>b. bl_line_id b = line_id)
      (\<lambda>b. b\<lparr>bl_match_kind := Some kind, bl_matched_entry_id := entry_id, bl_matched_line_no := line_no,
         bl_matched_at := Some now\<rparr>) (db_bank_lines db)\<rparr>"
  using assms by (auto simp: set_bank_line_match_def and_run_def reading_def execute_def split: sum.splits if_splits)

lemma clear_line_run:
  assumes "clear_journal_line company entry_id line_no now db = (Inr u, db')"
  shows "db' = db\<lparr>db_journal_lines := map (\<lambda>l. if journal_line_at company entry_id line_no l
      then l\<lparr>ln_cleared_at := Some now\<rparr> else l) (db_journal_lines db)\<rparr>"
  using assms by (auto simp: clear_journal_line_def split: if_splits dest!: update_lines_Inr)

lemma clear_line_failed:
  assumes "clear_journal_line company entry_id line_no now db = (Inl e, db')" "desk_ok db"
  shows "desk_ok db'"
proof -
  have "keeps_history db db'"
    using obeysD[OF clear_journal_line.history assms(1)] .
  moreover have "db_bank_lines db' = db_bank_lines db"
    using assms(1) by (auto simp: clear_journal_line_def and_run_Inl execute_Inl split: if_splits dest!: update_lines_Inr)
  ultimately show ?thesis by (intro desk_ok_grows[OF _ _ _ assms(2), of db' "[]"]) simp_all
qed

text \<open>
  The two writes of a match: stamp the journal line, set the bank line's match. The journal
  line was not stamped before, so no other bank line stands for it.
\<close>

definition settle :: "string \<Rightarrow> string \<Rightarrow> string \<Rightarrow> string \<Rightarrow> int \<Rightarrow> timestamp \<Rightarrow> unit desk" where
  "settle company line_id kind entry_id line_no now =
     and_run (ledger (clear_journal_line company entry_id line_no now)) (\<lambda>_.
     ledger (set_bank_line_match company line_id kind (Some entry_id) (Some line_no) now))"

lemma settle_fold:
  "and_run (ledger (clear_journal_line company entry_id line_no now)) (\<lambda>_.
     and_run (ledger (set_bank_line_match company line_id kind (Some entry_id) (Some line_no) now)) k) =
   and_run (settle company line_id kind entry_id line_no now) k"
  by (simp add: settle_def and_run_assoc)

lemma settled_ok:
  assumes ok: "desk_ok db" and known: "known_line company line db"
    and l: "l \<in> set (db_journal_lines db)" "line_pk l = ((company, entry_id), line_no)" "ln_cleared_at l = None"
    and acct: "jl_account (ln_line l) = bl_account_id line" and posted: "posted_entry db (company, entry_id)"
    and kind: "is_resolved (Some kind)"
    and amount: "kind \<noteq> ''exact'' \<or> cents (side_column (bank_side line) (ln_line l)) = \<bar>cents (bl_amount line)\<bar>"
  shows "desk_ok (snd (settle company (bl_line_id line) kind entry_id line_no now db))"
proof -
  let ?f = "\<lambda>b. b\<lparr>bl_match_kind := Some kind, bl_matched_entry_id := Some entry_id, bl_matched_line_no := Some line_no,
      bl_matched_at := Some now\<rparr>"
  let ?k = "((company, entry_id), line_no)"
  obtain r1 d1 where clear: "clear_journal_line company entry_id line_no now db = (r1, d1)"
    by (cases "clear_journal_line company entry_id line_no now db")
  show ?thesis
  proof (cases r1)
    case (Inl e)
    then show ?thesis using clear clear_line_failed[OF _ ok]
      by (simp add: settle_def and_run_def lift_run_def)
  next
    case (Inr u)
    note run1 = clear[unfolded Inr]
    have h1: "keeps_history db d1" using obeysD[OF clear_journal_line.history run1] .
    note d1 = clear_line_run[OF run1]
    have ok1: "desk_ok d1" by (rule desk_ok_grows[OF h1 _ _ ok, of "[]"]) (simp_all add: d1)
    obtain r2 d2 where set_run: "set_bank_line_match company (bl_line_id line) kind (Some entry_id) (Some line_no) now d1 = (r2, d2)"
      by (cases "set_bank_line_match company (bl_line_id line) kind (Some entry_id) (Some line_no) now d1")
    have final: "snd (settle company (bl_line_id line) kind entry_id line_no now db) = d2"
      using run1 set_run by (simp add: settle_def and_run_def lift_run_def split: sum.split)
    have h2: "keeps_history d1 d2" using obeysD[OF set_bank_line_match.history set_run] .
    from set_match_run[OF set_run] show ?thesis
    proof
      assume "d2 = d1"
      then show ?thesis using ok1 final by simp
    next
      let ?h = "\<lambda>(c, r). (c, if c = company \<and> bl_line_id r = bl_line_id line then ?f r else r)"
      assume "d2 = d1\<lparr>db_bank_lines := update_rows company (\<lambda>b. bl_line_id b = bl_line_id line) ?f (db_bank_lines d1)\<rparr>"
      then have rows: "db_bank_lines d2 = map ?h (db_bank_lines db)" and lines: "db_journal_lines d2 = db_journal_lines d1"
        and entries: "db_journal_entries d2 = db_journal_entries db"
        by (simp_all add: d1 update_rows_def)
      have keys: "distinct (map bank_line_key (db_bank_lines db))" and pks: "distinct (map line_pk (db_journal_lines db))"
        using ok by (simp_all add: desk_ok_def book_sound_def bank_ok_def bank_keys_ok_def journal_ok_def journal_keys_ok_def)
      obtain b where b: "(company, b) \<in> set (db_bank_lines db)" "unmatched (company, b) = unmatched (company, line)"
        using known by (auto simp: known_line_def)
      note same = unmatched_eqs[OF b(2)]
      have only: "r = b" if "(company, r) \<in> set (db_bank_lines db)" "bl_line_id r = bl_line_id line" for r
        using unique_in_table[OF keys that(1) b(1)] that(2) same by (simp add: bank_line_key_def)
      have sound: "list_all (stands_for db) (db_bank_lines db)" "distinct (List.map_filter match_key (db_bank_lines db))"
        using ok by (simp_all add: desk_ok_def matches_sound_def)
      have new: "?k \<notin> set (List.map_filter match_key (db_bank_lines db))"
      proof
        assume "?k \<in> set (List.map_filter match_key (db_bank_lines db))"
        then obtain r where r: "r \<in> set (db_bank_lines db)" "match_key r = Some ?k"
          by (auto simp: List.map_filter_def)
        then have "is_resolved (bl_match_kind (snd r))" by (auto simp: match_key_def split: prod.splits if_splits)
        with r sound(1) obtain l' where "l' \<in> set (db_journal_lines db)" "line_pk l' = ?k" "ln_cleared_at l' \<noteq> None"
          by (fastforce simp: stands_for_def list_all_iff list_ex_iff)
        with unique_in_table[OF pks _ l(1)] l(2,3) show False by metis
      qed
      have key: "match_key (company, ?f b) = Some ?k" using kind by (simp add: match_key_def)
      have "distinct (List.map_filter match_key (map ?h (db_bank_lines db)))"
      proof (rule distinct_replaced[OF keys b(1) sound(2) key new])
        fix z assume "z \<in> set (db_bank_lines db)"
        moreover obtain c r where "z = (c, r)" by (cases z)
        ultimately show "?h z = (if bank_line_key z = bank_line_key (company, b) then (company, ?f b) else z)"
          using only[of r] same by (auto simp: bank_line_key_def)
      qed
      moreover have "stands_for d2 z" if "z \<in> set (db_bank_lines d2)" for z
      proof -
        from that obtain c r where r: "(c, r) \<in> set (db_bank_lines db)" "z = ?h (c, r)" by (auto simp: rows)
        show ?thesis
        proof (cases "c = company \<and> bl_line_id r = bl_line_id line")
          case True
          with r only have z: "z = (company, ?f b)" by auto
          have "l\<lparr>ln_cleared_at := Some now\<rparr> \<in> set (db_journal_lines d2)"
            using l by (force simp: lines d1 journal_line_at_def)
          moreover have "posted_entry d2 (company, entry_id)" using posted by (simp add: posted_entry_def entries)
          ultimately show ?thesis
            unfolding stands_for_def z snd_conv key
            using kind acct same amount l(2)
            by (auto simp: list_ex_iff right_amount_def bank_side_def line_pk_def line_entry_key_def
                intro!: bexI[of _ "l\<lparr>ln_cleared_at := Some now\<rparr>"])
        next
          case False
          then have "z = (c, r)" using r(2) by auto
          with r(1) sound(1) have "stands_for db z" by (auto simp: list_all_iff)
          then show ?thesis using stands_for_grows h1 h2 history.trans by blast
        qed
      qed
      ultimately have "matches_sound d2" by (simp add: matches_sound_def list_all_iff rows)
      then show ?thesis using ok1 h2 all_posted_grows[OF h2] by (simp add: final desk_ok_def keeps_history_def)
    qed
  qed
qed

section \<open>Every operation of the desk keeps the matches sound\<close>

text \<open>For the bank line at hand, and for any line at all.\<close>

definition desk_line :: "string \<Rightarrow> bank_line_row \<Rightarrow> db \<Rightarrow> db \<Rightarrow> bool" where
  "desk_line company line db db' \<longleftrightarrow>
     keeps_history db db' \<and> (desk_ok db \<and> known_line company line db \<longrightarrow> desk_ok db')"

definition desk_step :: "db \<Rightarrow> db \<Rightarrow> bool" where
  "desk_step db db' \<longleftrightarrow> keeps_history db db' \<and> (desk_ok db \<longrightarrow> desk_ok db')"

interpretation at_line: step_order "desk_line company line" for company line
  by unfold_locales (auto simp: desk_line_def history.refl intro: history.trans known_line_grows)

interpretation at_desk: step_order desk_step
  by unfold_locales (auto simp: desk_step_def history.refl intro: history.trans)

lemma desk_step_line: "obeys desk_step m \<Longrightarrow> obeys (desk_line company line) m"
  by (rule obeys_weaken) (auto simp: desk_step_def desk_line_def)

lemma obeys_desk_stepI:
  assumes "obeys keeps_history m" and "\<And>db r db'. m db = (r, db') \<Longrightarrow>
      \<exists>new. db_bank_lines db' = db_bank_lines db @ new \<and> list_all (\<lambda>r. \<not> is_resolved (bl_match_kind (snd r))) new"
  shows "obeys desk_step m"
proof (rule obeysI)
  fix db r db' assume run: "m db = (r, db')"
  have "keeps_history db db'" using obeysD[OF assms(1) run] .
  with assms(2)[OF run] show "desk_step db db'" by (auto simp: desk_step_def intro: desk_ok_grows)
qed

definition still_lines :: "db \<Rightarrow> db \<Rightarrow> bool" where
  "still_lines db db' \<longleftrightarrow> db_bank_lines db' = db_bank_lines db"

interpretation still: step_order still_lines
  by unfold_locales (auto simp: still_lines_def)

lemma desk_step_still: "obeys keeps_history m \<Longrightarrow> obeys still_lines m \<Longrightarrow> obeys desk_step m"
  by (rule obeys_desk_stepI) (auto dest!: obeysD simp: still_lines_def)

lemma save_document_desk: "obeys desk_step (save_document to_json company doc command command_id now)"
proof (rule desk_step_still[OF save_document.history])
  show "obeys still_lines (save_document to_json company doc command command_id now)"
    unfolding save_document_def
    by (intro still.steps still.stated) (auto simp: still_lines_def insert_oplog_def insert_document_version_def)
qed

lemma post_entry_desk: "obeys desk_step (post_entry company e entry_id now)"
proof (rule desk_step_still[OF post_entry.history])
  show "obeys still_lines (post_entry company e entry_id now)"
  proof (rule obeysI)
    fix db r db' assume run: "post_entry company e entry_id now db = (r, db')"
    then show "still_lines db db'"
      using post_entry_refused_unchanged[of company e entry_id now db] post_entry_accepted(2)[of company e entry_id now db]
      by (cases r) (auto simp: still_lines_def)
  qed
qed

lemma create_statement_desk: "obeys desk_step (create_bank_statement c i a ps pe ob cb now)"
proof (rule desk_step_still[OF create_bank_statement.history])
  show "obeys still_lines (create_bank_statement c i a ps pe ob cb now)"
    unfolding create_bank_statement_def by (intro still.steps still.stated) (auto simp: still_lines_def)
qed

lemma close_statement_desk: "obeys desk_step (close_statement company statement_id now)"
proof (rule desk_step_still[OF close_statement.history])
  show "obeys still_lines (close_statement company statement_id now)"
    unfolding close_statement_def Let_def close_bank_statement_def
    by (intro still.steps still.stated) (auto simp: still_lines_def)
qed

lemma insert_line_desk: "obeys desk_step (insert_bank_line_if_new c i s a d m t x)"
  by (rule obeys_desk_stepI[OF insert_bank_line.history])
    (auto simp: insert_bank_line_if_new_def and_run_def reading_def execute_def new_bank_line_def is_resolved_def
      split: if_splits sum.splits)

lemma import_statement_desk: "obeys desk_step (import_statement company account statement statement_id line_ids now)"
  unfolding import_statement_def import_line_def
  by (intro at_desk.steps create_statement_desk insert_line_desk)

lemma map_filter_thinned:
  assumes "\<And>x. x \<in> set xs \<Longrightarrow> g (h x) = g x \<or> g (h x) = None" "distinct (List.map_filter g xs)"
  shows "distinct (List.map_filter g (map h xs)) \<and> set (List.map_filter g (map h xs)) \<subseteq> set (List.map_filter g xs)"
  using assms
proof (induction xs)
  case (Cons x xs)
  then have IH: "distinct (List.map_filter g (map h xs))" "set (List.map_filter g (map h xs)) \<subseteq> set (List.map_filter g xs)"
    by (auto simp: List.map_filter_def split: if_splits)
  have "g (h x) = g x \<or> g (h x) = None" using Cons.prems(1) by simp
  with IH Cons.prems(2) show ?case
    by (cases "g x"; cases "g (h x)") (auto simp: List.map_filter_simps)
qed (simp add: List.map_filter_simps)

lemma set_unresolved_desk:
  assumes "\<not> is_resolved (Some kind)"
  shows "obeys desk_step (set_bank_line_match company line_id kind i n now)"
proof (rule obeysI)
  fix db r db' assume run: "set_bank_line_match company line_id kind i n now db = (r, db')"
  have h: "keeps_history db db'" using obeysD[OF set_bank_line_match.history run] .
  let ?h = "\<lambda>(c, r). (c, if c = company \<and> bl_line_id r = line_id
      then r\<lparr>bl_match_kind := Some kind, bl_matched_entry_id := i, bl_matched_line_no := n, bl_matched_at := Some now\<rparr> else r)"
  have "desk_ok db'" if ok: "desk_ok db"
    using set_match_run[OF run]
  proof
    assume "db' = db"
    with ok show ?thesis by simp
  next
    assume db': "db' = db\<lparr>db_bank_lines := update_rows company (\<lambda>b. bl_line_id b = line_id)
      (\<lambda>b. b\<lparr>bl_match_kind := Some kind, bl_matched_entry_id := i, bl_matched_line_no := n, bl_matched_at := Some now\<rparr>)
      (db_bank_lines db)\<rparr>"
    then have rows: "db_bank_lines db' = map ?h (db_bank_lines db)" by (simp add: update_rows_def)
    have none: "match_key (?h z) = match_key z \<or> match_key (?h z) = None" for z
      using assms by (cases z) (auto simp: match_key_def)
    have "distinct (List.map_filter match_key (db_bank_lines db'))"
      unfolding rows using map_filter_thinned[of "db_bank_lines db" match_key ?h] none ok
      by (simp add: desk_ok_def matches_sound_def)
    moreover have "stands_for db' z" if "z \<in> set (db_bank_lines db')" for z
    proof -
      from that obtain c r where r: "(c, r) \<in> set (db_bank_lines db)" "z = ?h (c, r)" by (auto simp: rows)
      show ?thesis
      proof (cases "c = company \<and> bl_line_id r = line_id")
        case True
        then show ?thesis using r(2) assms by (simp add: stands_for_def)
      next
        case False
        then have "z = (c, r)" using r(2) by auto
        with r(1) ok have "stands_for db z" by (auto simp: desk_ok_def matches_sound_def list_all_iff)
        then show ?thesis by (rule stands_for_grows[OF h])
      qed
    qed
    ultimately show ?thesis
      using ok h all_posted_grows[OF h] by (simp add: desk_ok_def matches_sound_def list_all_iff keeps_history_def)
  qed
  with h show "desk_step db db'" by (simp add: desk_step_def)
qed

lemma propose_desk: "obeys desk_step (propose company line is_money_in now report)"
  unfolding propose_def by (intro at_desk.steps set_unresolved_desk) (simp_all add: is_resolved_def)

lemma posted_entry_of_still: "snd (posted_entry_of E doc version db) = db"
  by (simp add: posted_entry_of_def ret_def fail_def split: sum.split posting.split)

lemma posted_entry_of_desk: "obeys desk_step (posted_entry_of E doc version)"
  by (rule obeysI) (metis at_desk.refl posted_entry_of_still snd_conv)

lemma fee_adjustment_desk:
  "obeys desk_step (post_settlement_fee_adjustment E company bank_account fee fee_class posted_on i fresh now)"
  unfolding post_settlement_fee_adjustment_def Let_def
  by (intro at_desk.steps posted_entry_of_desk save_document_desk post_entry_desk)

text \<open>Settling the journal line found, then whatever else keeps the desk.\<close>

lemma settle_keeps: "obeys keeps_history (settle company line_id kind entry_id line_no now)"
  unfolding settle_def by (intro history.steps clear_journal_line.history set_bank_line_match.history)

lemma settle_line:
  assumes "desk_ok db \<Longrightarrow> known_line company line db \<Longrightarrow>
      \<exists>l. l \<in> set (db_journal_lines db) \<and> line_pk l = ((company, entry_id), line_no) \<and> ln_cleared_at l = None \<and>
        jl_account (ln_line l) = bl_account_id line \<and> posted_entry db (company, entry_id) \<and> is_resolved (Some kind) \<and>
        (kind \<noteq> ''exact'' \<or> cents (side_column (bank_side line) (ln_line l)) = \<bar>cents (bl_amount line)\<bar>)"
    and "\<And>x. obeys (desk_line company line) (k x)"
  shows "desk_line company line db (snd (and_run (settle company (bl_line_id line) kind entry_id line_no now) k db))"
proof -
  obtain r d where run: "settle company (bl_line_id line) kind entry_id line_no now db = (r, d)"
    by (cases "settle company (bl_line_id line) kind entry_id line_no now db")
  have h: "keeps_history db d" using obeysD[OF settle_keeps run] .
  have "desk_ok d" if "desk_ok db" "known_line company line db"
    using assms(1)[OF that] settled_ok[OF that, of _ entry_id line_no kind now] run by auto
  with h have first: "desk_line company line db d" by (simp add: desk_line_def)
  show ?thesis
  proof (cases r)
    case (Inl e)
    then show ?thesis using run first by (simp add: and_run_def)
  next
    case (Inr u)
    then have "snd (and_run (settle company (bl_line_id line) kind entry_id line_no now) k db) = snd (k u d)"
      using run by (simp add: and_run_def)
    then show ?thesis using first assms(2)[of u] at_line.trans unfolding obeys_def by metis
  qed
qed

lemma abs_amount_Inr: "abs_amount line = Inr amount \<Longrightarrow> cents amount = \<bar>cents (bl_amount line)\<bar>"
  by (auto simp: abs_amount_def is_negative_cents checked_neg_Inr split: if_splits)

lemma posted_join_facts:
  assumes "(l, e) \<in> set (posted_join db company P)"
  shows "l \<in> set (db_journal_lines db)" "ln_company l = company" "entry_key e = line_entry_key l" "en_is_posted e = 1"
    "P e" "posted_entry db (line_entry_key l)"
  using assms by (auto simp: posted_join_def posted_entry_def list_ex_iff)

lemma uncleared_candidate:
  assumes "(entry_id, line_no, date) \<in> set (uncleared_lines_matching db company account s amount kinds lo hi)"
  obtains l where "l \<in> set (db_journal_lines db)" "line_pk l = ((company, entry_id), line_no)" "ln_cleared_at l = None"
    "jl_account (ln_line l) = account" "side_column s (ln_line l) = amount" "posted_entry db (company, entry_id)"
proof -
  from assms obtain l e where le: "(l, e) \<in> set (posted_join db company (from_sources kinds lo hi))"
    "entry_id = ln_entry_id l" "line_no = jl_line_no (ln_line l)" "ln_cleared_at l = None"
    "jl_account (ln_line l) = account" "side_column s (ln_line l) = amount"
    by (auto simp: uncleared_lines_matching_def split: if_splits)
  note facts = posted_join_facts[OF le(1)]
  have key: "line_entry_key l = (company, entry_id)" using facts(2) le(2) by (simp add: line_entry_key_def)
  show thesis
    by (rule that[of l]) (use le facts key in \<open>simp_all add: line_pk_def\<close>)
qed

lemma bank_leg_facts:
  assumes "entry db company entry_id = Inr (e, b)" "bank_leg_of line e = Some bank_leg" "all_posted db"
    and "\<not> is_line_cleared db company entry_id (jl_line_no bank_leg)" "journal_ok db"
  obtains l where "l \<in> set (db_journal_lines db)" "line_pk l = ((company, entry_id), jl_line_no bank_leg)"
    "ln_cleared_at l = None" "jl_account (ln_line l) = bl_account_id line" "posted_entry db (company, entry_id)"
proof -
  from assms(1) obtain row where row: "row \<in> set (db_journal_entries db)" "entry_key row = (company, entry_id)"
    "je_lines e = sort_key jl_line_no (map ln_line (lines_of db (company, entry_id)))"
    by (auto simp: entry_def dest!: find_map_Some)
  from assms(2) row(3) obtain l where l: "l \<in> set (lines_of db (company, entry_id))" "ln_line l = bank_leg"
    "jl_account bank_leg = bl_account_id line"
    by (auto simp: bank_leg_of_def dest!: find_map_Some)
  have in_lines: "l \<in> set (db_journal_lines db)" "line_pk l = ((company, entry_id), jl_line_no bank_leg)"
    using l by (auto simp: lines_of_def line_pk_def)
  have "find_map (journal_line_at company entry_id (jl_line_no bank_leg)) (db_journal_lines db) \<noteq> None"
    using in_lines by (auto simp: find_map_None journal_line_at_def)
  then obtain k where k: "find_map (journal_line_at company entry_id (jl_line_no bank_leg)) (db_journal_lines db) = Some k" by auto
  then have "k \<in> set (db_journal_lines db)" "line_pk k = line_pk l"
    using in_lines by (auto simp: journal_line_at_def dest!: find_map_Some)
  moreover have "distinct (map line_pk (db_journal_lines db))"
    using assms(5) by (simp add: journal_ok_def journal_keys_ok_def)
  ultimately have "k = l" using in_lines(1) by (metis unique_in_table)
  with assms(4) k have "ln_cleared_at l = None" by (simp add: is_line_cleared_def)
  moreover have "posted_entry db (company, entry_id)"
    using row assms(3) by (auto simp: posted_entry_def all_posted_def list_ex_iff list_all_iff)
  ultimately show thesis using that in_lines l(2,3) by blast
qed

lemma settlement_found:
  assumes "entry db company entry_id = Inr (e, b)" "bank_leg_of line e = Some bank_leg"
    and "\<not> is_line_cleared db company entry_id (jl_line_no bank_leg)" "desk_ok db"
  shows "\<exists>l. l \<in> set (db_journal_lines db) \<and> line_pk l = ((company, entry_id), jl_line_no bank_leg) \<and> ln_cleared_at l = None \<and>
        jl_account (ln_line l) = bl_account_id line \<and> posted_entry db (company, entry_id) \<and> is_resolved (Some ''settlement'') \<and>
        (''settlement'' \<noteq> ''exact'' \<or> cents (side_column (bank_side line) (ln_line l)) = \<bar>cents (bl_amount line)\<bar>)"
proof -
  have "all_posted db" "journal_ok db" using assms(4) by (simp_all add: desk_ok_def book_sound_def)
  then obtain l where "l \<in> set (db_journal_lines db)" "line_pk l = ((company, entry_id), jl_line_no bank_leg)"
    "ln_cleared_at l = None" "jl_account (ln_line l) = bl_account_id line" "posted_entry db (company, entry_id)"
    by (rule bank_leg_facts[OF assms(1,2) _ assms(3)])
  moreover have "is_resolved (Some ''settlement'')" "''settlement'' \<noteq> ''exact''" by (simp_all add: is_resolved_def)
  ultimately show ?thesis by blast
qed

lemma try_settlements_line: "obeys (desk_line company line) (try_settlements company line now entries)"
proof (induction entries)
  case Nil
  show ?case by (simp only: try_settlements.simps at_line.no_write)
next
  case (Cons i entries)
  show ?case
    unfolding try_settlements.simps read_only_def settle_fold
  proof (rule at_line.looked_up, goal_cases)
    case (1 db r)
    obtain e b where r: "r = (e, b)" by (cases r)
    with 1 have read: "entry db company i = Inr (e, b)" by simp
    show ?case
    proof (cases "bank_leg_of line e")
      case None
      then show ?thesis using Cons r by (simp add: obeys_def)
    next
      case (Some bank_leg)
      show ?thesis
      proof (cases "is_line_cleared db company i (jl_line_no bank_leg)")
        case True
        then show ?thesis using Cons r Some by (simp add: obeys_def and_run_def reading_def)
      next
        case False
        have "desk_line company line db (snd (and_run (settle company (bl_line_id line) ''settlement'' i (jl_line_no bank_leg) now) (\<lambda>_. ret True) db))"
          using settlement_found[OF read Some False] by (intro settle_line at_line.no_write)
        then show ?thesis using r Some False by (simp add: and_run_def[of "reading _"] reading_def)
      qed
    qed
  qed
qed

lemma try_fee_settlements_line: "obeys (desk_line company line) (try_fee_settlements E company line amount rules fresh now candidates)"
proof (induction candidates)
  case Nil
  show ?case by (simp only: try_fee_settlements.simps at_line.no_write)
next
  case (Cons c candidates)
  obtain i gross where c: "c = (i, gross)" by (cases c)
  show ?case
    unfolding c try_fee_settlements.simps read_only_def settle_fold
  proof (rule at_line.looked_up, goal_cases)
    case (1 db r)
    obtain e b where r: "r = (e, b)" by (cases r)
    with 1 have read: "entry db company i = Inr (e, b)" by simp
    show ?case
    proof (cases "bank_leg_of line e")
      case None
      then show ?thesis using Cons r by (simp add: obeys_def)
    next
      case (Some bank_leg)
      show ?thesis
      proof (cases "is_line_cleared db company i (jl_line_no bank_leg)")
        case True
        then show ?thesis using Cons r Some by (simp add: obeys_def and_run_def reading_def)
      next
        case False
        have "desk_line company line db (snd (and_run (settle company (bl_line_id line) ''settlement'' i (jl_line_no bank_leg) now)
            (\<lambda>_. and_run (post_settlement_fee_adjustment E company (bl_account_id line) fee (mr_fee_class rules)
               (bl_posted_on line) i fresh now) (\<lambda>_. ret True)) db))" for fee
          using settlement_found[OF read Some False]
          by (intro settle_line at_line.steps desk_step_line fee_adjustment_desk)
        then show ?thesis using r Some False
          by (simp add: and_run_def[of "reading _"] reading_def at_line.refl split: sum.split)
      qed
    qed
  qed
qed

lemma match_one_line_line: "obeys (desk_line company line) (match_one_line E company rules fresh now report line)"
proof -
  let ?lo = "be_add_days E (bl_posted_on line) (- mr_date_window_days rules)"
    and ?hi = "be_add_days E (bl_posted_on line) (mr_date_window_days rules)"
  have rest: "obeys (desk_line company line)
      (and_run (if \<not> is_negative (bl_amount line) then try_settlement_match company line amount ?lo ?hi now else ret False) (\<lambda>settled.
       if settled then ret (report\<lparr>mp_settlement := mp_settlement report + 1\<rparr>)
       else and_run (if \<not> is_negative (bl_amount line)
           then try_settlement_fee_match E company line amount rules ?lo ?hi (fresh (bl_line_id line)) now else ret False) (\<lambda>settled.
         if settled then ret (report\<lparr>mp_settlement_fee := mp_settlement_fee report + 1\<rparr>)
         else propose company line (\<not> is_negative (bl_amount line)) now report)))" for amount
    unfolding try_settlement_match_def try_settlement_fee_match_def read_only_def
    by (intro at_line.steps try_settlements_line try_fee_settlements_line desk_step_line propose_desk)
  show ?thesis
    unfolding match_one_line_def Let_def read_only_def settle_fold
  proof (rule at_line.looked_up, goal_cases)
    case (1 db0 amount)
    then have amount: "cents amount = \<bar>cents (bl_amount line)\<bar>" by (rule abs_amount_Inr)
    show ?case
    proof (rule obeys_here, rule at_line.looked_up, goal_cases)
      case (1 db candidates)
      let ?found = "uncleared_lines_matching db company (bl_account_id line) (bank_side line) amount EXACT_MATCH_SOURCE_KINDS ?lo ?hi"
      have candidates: "set candidates = set ?found" using 1 by (auto simp: nearest_def bank_side_def)
      show ?case
      proof (cases candidates)
        case Nil
        then show ?thesis using rest[of amount] by (simp add: obeys_def)
      next
        case (Cons c cs)
        obtain i n d where c: "c = (i, n, d)" by (cases c)
        have found: "(i, n, d) \<in> set ?found"
          using candidates unfolding Cons c by (metis list.set_intros(1))
        obtain l where "l \<in> set (db_journal_lines db)" "line_pk l = ((company, i), n)" "ln_cleared_at l = None"
          "jl_account (ln_line l) = bl_account_id line" "side_column (bank_side line) (ln_line l) = amount"
          "posted_entry db (company, i)"
          by (rule uncleared_candidate[OF found])
        moreover have "is_resolved (Some ''exact'')" by (simp add: is_resolved_def)
        ultimately have "desk_line company line db (snd (and_run (settle company (bl_line_id line) ''exact'' i n now)
            (\<lambda>_. ret (report\<lparr>mp_exact := mp_exact report + 1\<rparr>)) db))"
          using amount by (intro settle_line at_line.no_write) blast
        then show ?thesis by (simp add: Cons c)
      qed
    qed
  qed
qed

lemma known_stored: "(company, line) \<in> set (db_bank_lines db) \<Longrightarrow> known_line company line db"
  by (auto simp: known_line_def)

lemma matching_loop:
  assumes "\<And>line. line \<in> set lines \<Longrightarrow> known_line company line db"
  shows "desk_step db (snd (run_fold (match_one_line E company rules fresh now) report lines db))"
  using assms
proof (induction lines arbitrary: report db)
  case Nil
  show ?case by (simp add: at_desk.refl)
next
  case (Cons line lines)
  obtain r d where run: "match_one_line E company rules fresh now report line db = (r, d)"
    by (cases "match_one_line E company rules fresh now report line db")
  have "desk_line company line db d" using obeysD[OF match_one_line_line run] .
  with Cons.prems have first: "desk_step db d" by (auto simp: desk_line_def desk_step_def)
  then have "known_line company l d" if "l \<in> set lines" for l
    using Cons.prems[of l] that by (auto simp: desk_step_def intro: known_line_grows)
  then have "desk_step d (snd (run_fold (match_one_line E company rules fresh now) rep lines d))" for rep
    by (rule Cons.IH)
  with first run show ?case
    by (cases r) (auto simp: and_run_def intro: at_desk.trans)
qed

lemma match_statement_desk: "obeys desk_step (match_statement E company statement_id rules fresh now)"
  unfolding match_statement_def read_only_def
proof (rule at_desk.looked_up, goal_cases)
  case (1 db statement)
  show ?case
  proof (cases "bs_closed_at statement = None")
    case True
    have "known_line company line db" if "line \<in> set (list_bank_lines db company statement_id)" for line
      using that by (intro known_stored) (auto simp: list_bank_lines_def of_company_set)
    then have "desk_step db (snd (run_fold (match_one_line E company rules fresh now) empty_match_report
        (filter (\<lambda>line. bl_match_kind line = None) (list_bank_lines db company statement_id)) db))"
      by (intro matching_loop) auto
    then show ?thesis using True by (simp add: and_run_def reading_def)
  qed (simp add: at_desk.refl)
qed

text \<open>A confirmed line is settled against the entry just posted, whose lines carry no stamp.\<close>

lemma posted_line_fresh:
  assumes "post_entry company e i now db = (Inr entry_id, db')" "l \<in> set (je_lines e)"
  shows "line_row_of company entry_id l \<in> set (db_journal_lines db')"
    "line_pk (line_row_of company entry_id l) = ((company, entry_id), jl_line_no l)"
    "posted_entry db' (company, entry_id)"
  using post_entry_accepted(1,2)[OF assms(1)] assms(2)
  by (simp_all add: line_pk_def posted_entry_def)

lemma confirm_tail_line:
  assumes "find_map (\<lambda>l. jl_account l = bl_account_id line) (je_lines e) = Some bank_leg"
  shows "obeys (desk_line company line)
    (and_run (ledger (post_entry company e (snd fresh) now)) (\<lambda>entry_id.
     and_run (settle company (bl_line_id line) ''manual'' entry_id (jl_line_no bank_leg) now) (\<lambda>_. ret entry_id)))"
proof (rule obeysI)
  fix db r db'
  assume run: "and_run (ledger (post_entry company e (snd fresh) now)) (\<lambda>entry_id.
     and_run (settle company (bl_line_id line) ''manual'' entry_id (jl_line_no bank_leg) now) (\<lambda>_. ret entry_id)) db = (r, db')"
  obtain r1 d1 where post: "post_entry company e (snd fresh) now db = (r1, d1)" by (cases "post_entry company e (snd fresh) now db")
  have first: "desk_line company line db d1" using obeysD[OF desk_step_line[OF post_entry_desk] post] .
  show "desk_line company line db db'"
  proof (cases r1)
    case (Inl err)
    then show ?thesis using run post first by (simp add: and_run_def lift_run_def)
  next
    case (Inr entry_id)
    note leg = find_map_Some[OF assms]
    note line_facts = posted_line_fresh[OF post[unfolded Inr], of bank_leg]
    have "desk_line company line d1 (snd (and_run (settle company (bl_line_id line) ''manual'' entry_id (jl_line_no bank_leg) now) (\<lambda>_. ret entry_id) d1))"
    proof (rule settle_line, goal_cases)
      case 1
      show ?case
        using leg line_facts by (intro exI[of _ "line_row_of company entry_id bank_leg"]) (simp add: is_resolved_def)
    next
      case (2 x)
      show ?case by (rule at_line.no_write)
    qed
    moreover have "db' = snd (and_run (settle company (bl_line_id line) ''manual'' entry_id (jl_line_no bank_leg) now) (\<lambda>_. ret entry_id) d1)"
      using run post by (simp add: and_run_def[of "lift_run _ _"] lift_run_def Inr)
    ultimately show ?thesis using first at_line.trans by blast
  qed
qed

lemma confirm_proposal_desk: "obeys desk_step (confirm_proposal E company line_id account class_opt fresh now)"
  unfolding confirm_proposal_def read_only_def settle_fold Let_def
proof (rule at_desk.looked_up, goal_cases)
  case (1 db line)
  from 1 have line: "(company, line) \<in> set (db_bank_lines db)" "bl_line_id line = line_id"
    by (auto simp: bank_line_def of_company_set dest!: find_map_Some)
  show ?case
  proof (cases "bl_match_kind line \<noteq> Some ''proposed''")
    case True
    then show ?thesis by (simp add: at_desk.refl)
  next
    case False
    have step: "desk_line company line db d \<Longrightarrow> desk_step db d" for d
      using known_stored[OF line(1)] by (simp add: desk_line_def desk_step_def)
    show ?thesis
      unfolding if_not_P[OF False]
    proof (rule step, rule obeys_here, rule at_line.composed, rule at_line.no_write(3), rule at_line.branched(1),
        rule at_line.no_write(2), rule at_line.composed, rule at_line.no_write(3), rule at_line.composed,
        rule at_line.lifted, rule desk_step_line, rule save_document_desk, rule at_line.composed, rule desk_step_line,
        rule posted_entry_of_desk, rule at_line.looked_up, goal_cases)
      case (1 statement amount version e db line_no)
      then obtain bank_leg where leg: "find_map (\<lambda>l. jl_account l = bl_account_id line) (je_lines e) = Some bank_leg"
        "line_no = jl_line_no bank_leg"
        by auto
      show ?case
        using confirm_tail_line[where company = company and fresh = fresh and now = now, OF leg(1), THEN obeys_here, of db]
        by (simp only: leg(2) line(2)[symmetric])
    qed
  qed
qed

end
