(* ===== verification/Book.thy ===== *)
theory Book
  imports Bank_Facts Report_Facts
begin

text \<open>
  A book over time: every command of the ledger that writes, and what no sequence of them breaks.
  A command is performed as the callers perform it, with its result dropped and its errors
  survived: whatever it leaves in the database is what the next one finds.
\<close>

section \<open>Commands\<close>

text \<open>The identifiers and the clock a call draws are part of the command.\<close>

datatype command =
    Create_company string string "string option" timestamp
  | Add_account string string string classification bool "string option" bool
  | Add_class string string string "string option"
  | Set_source_ref string string string
  | Save_document string ledger_document command_meta string timestamp
  | Snapshot string naive_date string timestamp
  | Close_period string naive_date string string string timestamp
  | Reopen_period string naive_date string string timestamp
  | Post_entry string journal_entry string timestamp
  | Reverse_entry string string naive_date string timestamp
  | Propose_adjustment string string string timestamp string string
  | Decide_adjustment string string string timestamp string adjustment_state "string option"
  | Import_statement string account_id new_statement string "string list" timestamp
  | Match_statement string string match_rules "string \<Rightarrow> string \<times> string" timestamp
  | Confirm_proposal string string account_id "class_id option" "string \<times> string" timestamp
  | Close_statement string string timestamp

fun perform :: "bank_env \<Rightarrow> command \<Rightarrow> db \<Rightarrow> db" where
  "perform E (Create_company c name realm now) db = snd (create_company c name realm now db)"
| "perform E (Add_account c number name cls contra ref unmapped) db = snd (add_account c number name cls contra ref unmapped db)"
| "perform E (Add_class c ident name ref) db = snd (add_class c ident name ref db)"
| "perform E (Set_source_ref c number ref) db = snd (set_account_source_ref c number ref db)"
| "perform E (Save_document c doc meta ident now) db = snd (save_document (be_to_json E) c doc meta ident now db)"
| "perform E (Snapshot c as_of ident now) db = snd (snapshot_trial_balance c as_of ident now db)"
| "perform E (Close_period c on actor why ident now) db = snd (close_period c on actor why ident now db)"
| "perform E (Reopen_period c on actor why now) db = snd (reopen_period c on actor why now db)"
| "perform E (Post_entry c e ident now) db = snd (post_entry c e ident now db)"
| "perform E (Reverse_entry c i on ident now) db = snd (reverse_entry c i on ident now db)"
| "perform E (Propose_adjustment c ident who at_time what lines) db = snd (insert_adjustment_request c ident who at_time what lines db)"
| "perform E (Decide_adjustment c ident who at_time why state posted) db =
     snd (decide_adjustment_request c ident who at_time why state posted db)"
| "perform E (Import_statement c account stmt ident line_ids now) db = snd (import_statement c account stmt ident line_ids now db)"
| "perform E (Match_statement c ident rules fresh now) db = snd (match_statement E c ident rules fresh now db)"
| "perform E (Confirm_proposal c line account cls fresh now) db = snd (confirm_proposal E c line account cls fresh now db)"
| "perform E (Close_statement c ident now) db = snd (close_statement c ident now db)"

definition perform_all :: "bank_env \<Rightarrow> command list \<Rightarrow> db \<Rightarrow> db" where
  "perform_all E = fold (perform E)"

fun reopens :: "command \<Rightarrow> bool" where
  "reopens (Reopen_period _ _ _ _ _) = True"
| "reopens _ = False"

section \<open>One command\<close>

lemma perform_keeps_history: "keeps_history db (perform E cmd db)"
  using obeysD[OF reopen_keeps_history]
  by (cases cmd)
    (auto intro!: obeys_here[of keeps_history] create_company.history add_account.history add_class.history
      set_account_source_ref.history save_document.history snapshot.history close_period.history
      reopen_keeps_history post_entry.history reverse_entry.history insert_adjustment_request.history
      decide_adjustment_request.history import_statement.history match_statement.history
      confirm_proposal.history close_statement.history)

lemma perform_keeps_gate: "\<not> reopens cmd \<Longrightarrow> keeps_gate db (perform E cmd db)"
  by (cases cmd)
    (simp_all add: create_company.forward add_account.forward add_class.forward set_account_source_ref.forward
      save_document.forward snapshot.forward close_period.forward post_entry.forward reverse_entry.forward
      insert_adjustment_request.forward decide_adjustment_request.forward import_statement.forward
      match_statement.forward confirm_proposal.forward close_statement.forward)

text \<open>The commands that write no bank line.\<close>

lemmas still_by_steps = still.steps still.stated

lemma still_rows [simp]:
  "still_lines db (db_accounts_update f db)" "still_lines db (db_classes_update g db)"
  "still_lines db (db_companies_update h db)" "still_lines db (db_periods_update i db)"
  "still_lines db (db_close_history_update j db)" "still_lines db (db_tb_snapshots_update k db)"
  "still_lines db (db_adjustment_requests_update m db)"
  by (simp_all add: still_lines_def)

lemma chart_still:
  "obeys still_lines (create_company c name realm now)" "obeys still_lines (add_account c number name cls contra ref unmapped)"
  "obeys still_lines (add_class c ident name ref)" "obeys still_lines (set_account_source_ref c number source :: bool op)"
  unfolding create_company_def add_account_def add_class_def
     apply (intro still_by_steps; auto simp: upsert_company_def insert_account_if_new_def insert_class_if_new_def
       still_lines_def intro!: still_by_steps split: if_splits)
    apply (intro still_by_steps; auto simp: upsert_account_def still_lines_def split: if_splits)
   apply (intro still_by_steps; auto simp: upsert_class_def still_lines_def split: if_splits)
  by (rule obeysI) (auto simp: set_account_source_ref_def Let_def)

lemma period_still:
  "obeys still_lines (snapshot_trial_balance c as_of ident now)"
  "obeys still_lines (close_period c on actor why ident now)" "obeys still_lines (reopen_period c on actor why now)"
proof -
  show snapshot: "obeys still_lines (snapshot_trial_balance c as_of ident now)" for c as_of ident now
    unfolding snapshot_trial_balance_def by (intro still_by_steps; auto)
  show "obeys still_lines (close_period c on actor why ident now)"
    unfolding close_period_def
    by (intro still_by_steps snapshot; auto simp: upsert_closed_period_def insert_close_history_def split: if_splits)
  show "obeys still_lines (reopen_period c on actor why now)"
    unfolding reopen_period_def
    by (intro still_by_steps; auto simp: insert_close_history_def split: if_splits)
qed

lemma request_still:
  "obeys still_lines (insert_adjustment_request c ident who at_time what lines)"
  "obeys still_lines (decide_adjustment_request c ident who at_time why state posted)"
  unfolding insert_adjustment_request_def decide_adjustment_request_def by (intro still_by_steps; auto)+

lemma reverse_entry_desk: "obeys desk_step (reverse_entry c i on ident now)"
  unfolding reverse_entry_def by (intro at_desk.steps post_entry_desk)

lemma perform_desk: "desk_step db (perform E cmd db)"
  by (cases cmd)
    (auto intro!: obeys_here[of desk_step] desk_step_still chart_still period_still request_still save_document_desk
      post_entry_desk reverse_entry_desk import_statement_desk match_statement_desk confirm_proposal_desk close_statement_desk
      create_company.history add_account.history add_class.history set_account_source_ref.history
      snapshot.history close_period.history reopen_keeps_history insert_adjustment_request.history
      decide_adjustment_request.history)

section \<open>Any number of commands\<close>

text \<open>A relation every command obeys holds from the start to the end of a sequence.\<close>

context step_order
begin

lemma performed:
  "(\<And>cmd db. cmd \<in> set cmds \<Longrightarrow> R db (perform E cmd db)) \<Longrightarrow> R db (perform_all E cmds db)"
  by (induction cmds arbitrary: db) (auto simp: perform_all_def refl intro: trans)

end

lemma all_keeps_history: "keeps_history db (perform_all E cmds db)"
  by (rule history.performed) (rule perform_keeps_history)

lemma all_keeps_gate: "list_all (\<lambda>cmd. \<not> reopens cmd) cmds \<Longrightarrow> keeps_gate db (perform_all E cmds db)"
  by (rule gate.performed) (auto simp: list_all_iff intro: perform_keeps_gate)

lemma all_desk: "desk_step db (perform_all E cmds db)"
  by (rule at_desk.performed) (rule perform_desk)

lemma empty_desk: "desk_ok empty_db" "chart_keyed empty_db"
  by (simp_all add: desk_ok_def book_sound_def bank_ok_def bank_keys_ok_def bank_references_ok_def external_keys_def
      all_posted_def matches_sound_def chart_keyed_def chart_keys_ok_def empty_db_def List.map_filter_simps
      empty_db_ok[unfolded empty_db_def])

lemma chart_keyed_accounts: "chart_keyed db \<Longrightarrow> accounts_keyed db"
  by (simp add: chart_keyed_def chart_keys_ok_def accounts_keyed_def account_key_def o_def case_prod_unfold)

lemma reachable_facts:
  "desk_ok (perform_all E cmds empty_db)" "chart_keyed (perform_all E cmds empty_db)"
proof -
  show "desk_ok (perform_all E cmds empty_db)"
    using all_desk[of empty_db E cmds] empty_desk(1) by (simp add: desk_step_def)
  have "tables_grow empty_db (perform_all E cmds empty_db)"
    using all_keeps_history[of empty_db E cmds] by (simp add: keeps_history_def)
  then show "chart_keyed (perform_all E cmds empty_db)" using empty_desk(2) by (simp add: tables_grow_def)
qed

text \<open>
  C11. Whatever commands are performed on a new database, in any order and whichever of them fail:
  every journal entry is posted and balances line by line, every row refers to rows that exist,
  keys are unique, account ids are their numbers; each bank line marked as matched stands for one
  posted, cleared line on its account, of its amount when the match is exact, and no two stand
  for the same one; and the columns of every trial balance that can be drawn agree.
\<close>

theorem reachable_book_is_sound:
  "all_posted (perform_all E cmds empty_db) \<and> journal_ok (perform_all E cmds empty_db) \<and>
   bank_ok (perform_all E cmds empty_db) \<and> matches_sound (perform_all E cmds empty_db) \<and>
   chart_keyed (perform_all E cmds empty_db) \<and>
   (case trial_balance (perform_all E cmds empty_db) company as_of of
      Inl _ \<Rightarrow> True
    | Inr tb \<Rightarrow> cents (tr_total_debits tb) = cents (tr_total_credits tb))"
proof -
  let ?db = "perform_all E cmds empty_db"
  have ok: "desk_ok ?db" "chart_keyed ?db" by (rule reachable_facts)+
  then have "cents (tr_total_debits tb) = cents (tr_total_credits tb)" if "trial_balance ?db company as_of = Inr tb" for tb
    using trial_balance_facts[OF that] chart_keyed_accounts by (auto simp: desk_ok_def book_sound_def)
  with ok show ?thesis by (auto simp: desk_ok_def book_sound_def split: sum.split)
qed

lemma same_lines_readings:
  "list_all2 same_line ls ks \<Longrightarrow> map (\<lambda>l. (line_entry_key l, ln_line l)) ks = map (\<lambda>l. (line_entry_key l, ln_line l)) ls"
  by (induction rule: list_all2_induct) (auto dest: same_line_eqs)

text \<open>
  C12. The book is append-only: after any commands, reopening a period included, the entries, the lines
  in all but their reconciliation stamps, the document versions, the operation log and the history
  of closes begin with what they were, and every entry that could be read reads the same.
\<close>

theorem history_is_append_only:
  "prefix (db_journal_entries db) (db_journal_entries (perform_all E cmds db)) \<and>
   prefix (map (\<lambda>l. (line_entry_key l, ln_line l)) (db_journal_lines db))
     (map (\<lambda>l. (line_entry_key l, ln_line l)) (db_journal_lines (perform_all E cmds db))) \<and>
   prefix (db_document_versions db) (db_document_versions (perform_all E cmds db)) \<and>
   prefix (db_oplog db) (db_oplog (perform_all E cmds db)) \<and>
   prefix (db_close_history db) (db_close_history (perform_all E cmds db)) \<and>
   {(c, i, e). entry db c i = Inr e} \<subseteq> {(c, i, e). entry (perform_all E cmds db) c i = Inr e}"
proof -
  let ?db = "perform_all E cmds db"
  have grows: "keeps_history db ?db" by (rule all_keeps_history)
  then obtain es old new where j: "db_journal_entries ?db = db_journal_entries db @ es"
    "db_journal_lines ?db = old @ new" "list_all2 same_line (db_journal_lines db) old"
    by (auto simp: keeps_history_def journal_grows_def)
  have "prefix (db_journal_entries db) (db_journal_entries ?db)" by (simp add: j(1))
  moreover have "prefix (map (\<lambda>l. (line_entry_key l, ln_line l)) (db_journal_lines db))
     (map (\<lambda>l. (line_entry_key l, ln_line l)) (db_journal_lines ?db))"
    using same_lines_readings[OF j(3)] by (simp add: j(2))
  moreover have "{(c, i, e). entry db c i = Inr e} \<subseteq> {(c, i, e). entry ?db c i = Inr e}"
    using entry_kept[OF grows] by blast
  ultimately show ?thesis using grows by (simp add: keeps_history_def tables_grow_def)
qed

lemma account_movement_of_lines:
  "map join_line (posted_join db' company (\<lambda>e. en_entry_date e \<le> as_of)) =
     map join_line (posted_join db company (\<lambda>e. en_entry_date e \<le> as_of)) \<Longrightarrow>
   account_movement db' company as_of a = account_movement db company as_of a"
  by (simp add: account_movement_def posted_lines_def)

text \<open>
  C13. A closed month stays as it was: unless a period is reopened, whatever is posted, reversed,
  imported, matched or confirmed later, the movement of every account up to a date in the
  closed stretch is what it was, and while the chart is the same so are the trial balance, the
  profit and loss and the balance sheet drawn at that date.
\<close>

theorem closed_month_is_frozen:
  assumes "list_all (\<lambda>cmd. \<not> reopens cmd) cmds" and "locked_through db company = Some locked" and "as_of \<le> locked"
  shows "(\<forall>a. account_movement (perform_all E cmds db) company as_of a = account_movement db company as_of a) \<and>
    (company_accounts (perform_all E cmds db) company = company_accounts db company \<longrightarrow>
       trial_balance (perform_all E cmds db) company as_of = trial_balance db company as_of \<and>
       profit_and_loss (perform_all E cmds db) company since as_of = profit_and_loss db company since as_of \<and>
       balance_sheet (perform_all E cmds db) company as_of = balance_sheet db company as_of)"
proof -
  have lines: "map join_line (posted_join (perform_all E cmds db) company P) = map join_line (posted_join db company P)"
    if "\<And>e. P e \<Longrightarrow> en_entry_date e \<le> locked" for P
    using frozen_lines[OF all_keeps_gate[OF assms(1)] assms(2) that] .
  have "account_movement (perform_all E cmds db) company as_of a = account_movement db company as_of a" for a
    by (rule account_movement_of_lines) (rule lines, use assms(3) in \<open>auto intro: order_trans\<close>)
  with reports_of_lines[OF lines _ assms(3)] show ?thesis by blast
qed

text \<open>A book closed over its only entry, which is then reversed in the open month.\<close>

definition closed_db :: db where
  "closed_db = posted_db\<lparr>db_periods := [(''co'', \<lparr>pe_period_end = Ymd 2027 1 7, pe_closed = True, pe_closed_at = 8,
     pe_closed_by = ''joel'', pe_tb_snapshot_id = ''t-1''\<rparr>)]\<rparr>"

lemma closed_db_ok: "journal_ok closed_db"
  using posted_db_ok
  by (simp add: closed_db_def journal_ok_def posted_balanced_def journal_lines_ok_def journal_keys_ok_def journal_references_ok_def
      lines_of_def document_exists_def account_exists_def)

lemma closed_entry: "entry closed_db ''co'' ''e-1'' = Inr (stored_entry, True)"
  by (simp add: entry_def stored_entry_def lines_of_def line_entry_key_def entry_key_def closed_db_def sample_db_defs chart_numbers)

lemma closed_reversal:
  "reverse_entry ''co'' ''e-1'' (Ymd 2027 1 9) ''e-2'' 9 closed_db =
     (Inr ''e-2'', with_posted ''co'' ''e-2'' (reversed stored_entry (Ymd 2027 1 9) ''e-1'') 9 closed_db)"
proof -
  have "acceptable closed_db ''co'' (reversed stored_entry (Ymd 2027 1 9) ''e-1'') ''e-2''"
    by (simp add: acceptable_def gate_open_def locked_through_def locked_through_in_def sql_max_def check_class_rule_def
        account_row_in_def company_accounts_def document_exists_def of_company_def is_balanced_iff well_balanced_def
        one_sided_def debit_cents_def credit_cents_def in_i64_def entry_key_def stored_entry_def reversed_def closed_db_def
        sample_db_defs chart_numbers less_naive_date_def)
  then show ?thesis
    using post_entry_cases[OF closed_db_ok, of "''co''" "reversed stored_entry (Ymd 2027 1 9) ''e-1''" "''e-2''" 9]
    by (simp add: reverse_entry_def and_run_def reading_def closed_entry stored_entry_def)
qed

theorem closed_month_is_frozen_witness:
  "\<forall>E. let later = perform_all E [Reverse_entry ''co'' ''e-1'' (Ymd 2027 1 9) ''e-2'' 9] closed_db in
     length (db_journal_entries later) = 2 \<and> account_movement later ''co'' (Ymd 2027 1 6) (AccountId CHECKING) = 500 \<and>
     trial_balance later ''co'' (Ymd 2027 1 6) = trial_balance closed_db ''co'' (Ymd 2027 1 6)"
proof
  fix E
  let ?cmds = "[Reverse_entry ''co'' ''e-1'' (Ymd 2027 1 9) ''e-2'' 9]"
  have later: "perform_all E ?cmds closed_db =
      with_posted ''co'' ''e-2'' (reversed stored_entry (Ymd 2027 1 9) ''e-1'') 9 closed_db"
    by (simp add: perform_all_def closed_reversal[unfolded One_nat_def])
  have locked: "locked_through closed_db ''co'' = Some (Ymd 2027 1 7)"
    by (simp add: locked_through_def locked_through_in_def of_company_def sql_max_def closed_db_def)
  have moved: "account_movement closed_db ''co'' (Ymd 2027 1 6) (AccountId CHECKING) = 500"
    by (simp add: account_movement_def account_net_def line_net_def posted_lines_def report_eval closed_db_def sample_db_defs
        chart_numbers)
  have rows: "company_accounts (perform_all E ?cmds closed_db) ''co'' = company_accounts closed_db ''co''"
    "length (db_journal_entries (perform_all E ?cmds closed_db)) = 2"
    unfolding later by (simp_all add: with_posted_def company_accounts_def closed_db_def posted_db_def)
  have "list_all (\<lambda>cmd. \<not> reopens cmd) ?cmds" "Ymd 2027 1 6 \<le> Ymd 2027 1 7" by (simp_all add: less_eq_naive_date_def)
  from closed_month_is_frozen[OF this(1) locked this(2), of E] moved rows show "let later = perform_all E ?cmds closed_db in
      length (db_journal_entries later) = 2 \<and> account_movement later ''co'' (Ymd 2027 1 6) (AccountId CHECKING) = 500 \<and>
      trial_balance later ''co'' (Ymd 2027 1 6) = trial_balance closed_db ''co'' (Ymd 2027 1 6)"
    unfolding Let_def by metis
qed

end
