(* ===== verification/Bank_Outcome.thy ===== *)
theory Bank_Outcome
  imports Bank_Facts
begin

text \<open>
  What the operations of the bank desk come to: what confirming a proposal posts, what a second
  import of the same file does, when a statement closes and what a refusal reports.
\<close>

section \<open>Confirming a proposal\<close>

lemma confirmed_legs:
  assumes "post_legs D (confirmed_document line amount account class_opt) ctx = Inr legs" "0 \<le> cents amount"
  shows "\<exists>class. legs = [debit (bl_account_id line) amount None None, credit account amount class None]"
  using assms
  by (auto simp: post_legs_def post_bank_line_def confirmed_document_def Let_def is_negative_cents split: if_splits)

lemma confirmed_nets:
  assumes "post dbg D (confirmed_document line amount account class_opt) v ctx = Inr (Entry e)" "0 \<le> cents amount"
    and "account \<noteq> bl_account_id line"
  shows "account_net (bl_account_id line) (je_lines e) = cents amount" "account_net account (je_lines e) = - cents amount"
proof -
  have "\<not> doc_is_voided (confirmed_document line amount account class_opt)"
    by (simp add: confirmed_document_def Let_def)
  then obtain legs where legs: "post_legs D (confirmed_document line amount account class_opt) ctx = Inr legs"
    "\<And>a. account_net a (je_lines e) = leg_net a legs"
    using post_entry_nets[OF assms(1)] by blast
  from confirmed_legs[OF legs(1) assms(2)] obtain c where
    "legs = [debit (bl_account_id line) amount None None, credit account amount c None]" by blast
  with legs(2) assms(3) show "account_net (bl_account_id line) (je_lines e) = cents amount"
    "account_net account (je_lines e) = - cents amount"
    by (simp_all add: signed_def)
qed

lemma posted_entry_of_Inr:
  "posted_entry_of E doc version db = (Inr e, db') \<longleftrightarrow>
     post (be_debug E) (be_dec E) doc version default_context = Inr (Entry e) \<and> db' = db"
  by (cases "post (be_debug E) (be_dec E) doc version default_context")
    (auto simp: posted_entry_of_def lift_post_def split: posting.split)

lemma read_only_Inr [simp]: "read_only q db = (Inr x, db') \<longleftrightarrow> q db = Inr x \<and> db' = db"
  by (simp add: read_only_def)

text \<open>On a sound book the two writes of a match succeed when there is something to match.\<close>

lemma clear_line_succeeds:
  assumes "journal_ok db" "l \<in> set (db_journal_lines db)" "line_pk l = ((company, entry_id), line_no)"
  shows "\<exists>d. clear_journal_line company entry_id line_no now db = (Inr (), d)"
proof -
  let ?at = "journal_line_at company entry_id line_no" and ?f = "\<lambda>l. l\<lparr>ln_cleared_at := Some now\<rparr>"
  let ?d = "db\<lparr>db_journal_lines := map (\<lambda>l. if ?at l then ?f l else l) (db_journal_lines db)\<rparr>"
  have same: "ln_line (if ?at l then ?f l else l) = ln_line l" "line_entry_key (if ?at l then ?f l else l) = line_entry_key l"
    "ln_company (if ?at l then ?f l else l) = ln_company l" "line_pk (if ?at l then ?f l else l) = line_pk l" for l
    by (simp_all add: line_entry_key_def line_pk_def)
  have "journal_lines_ok ?d" "journal_keys_ok ?d" "journal_references_ok ?d"
    using assms(1)
    by (simp_all add: journal_ok_def journal_lines_ok_def journal_keys_ok_def journal_references_ok_def list.pred_map same o_def
        account_exists_def document_exists_def split del: if_split)
  then have "update_lines ?at ?f db = Inr ?d"
    by (simp add: update_lines_def update_line_trigger_def)
  moreover have "filter ?at (db_journal_lines db) \<noteq> []"
    using assms(2,3) by (auto simp: filter_empty_conv journal_line_at_def)
  ultimately show ?thesis by (simp add: clear_journal_line_def)
qed

lemma set_match_succeeds:
  assumes "bank_ok db" "bank_line db company line_id = Inr b" "entry db company i = Inr e"
    and "kind = ''exact'' \<or> kind = ''settlement'' \<or> kind = ''manual''"
  shows "\<exists>d. set_bank_line_match company line_id kind (Some i) n now db = (Inr (), d)"
proof -
  let ?f = "\<lambda>b. b\<lparr>bl_match_kind := Some kind, bl_matched_entry_id := Some i, bl_matched_line_no := n, bl_matched_at := Some now\<rparr>"
  let ?h = "\<lambda>(c, r). (c, if c = company \<and> bl_line_id r = line_id then ?f r else r)"
  let ?d = "db\<lparr>db_bank_lines := update_rows company (\<lambda>b. bl_line_id b = line_id) ?f (db_bank_lines db)\<rparr>"
  have same: "bank_line_key (?h z) = bank_line_key z" for z
    by (simp add: bank_line_key_def split: prod.split)
  have kinds: "match_kind_ok z \<Longrightarrow> match_kind_ok (?h z)" for z
    using assms(4) by (auto simp: match_kind_ok_def split: prod.split)
  have cols: "bl_external_id (if p then ?f r else r) = bl_external_id r" "bl_account_id (if p then ?f r else r) = bl_account_id r"
    "bl_statement_id (if p then ?f r else r) = bl_statement_id r" for p r
    by simp_all
  have externals: "external_keys (map ?h t) = external_keys t" for t
    by (induction t) (auto simp: external_keys_def List.map_filter_simps cols split: option.split)
  have "list_ex (\<lambda>e. entry_key e = (company, i)) (db_journal_entries db)"
    using assms(3) by (auto simp: entry_def list_ex_iff dest!: find_map_Some)
  then have "matched_exists (db_journal_entries db) z \<Longrightarrow> matched_exists (db_journal_entries db) (?h z)" for z
    by (cases z) (auto simp: matched_exists_def)
  then have "bank_constrained ?d = Inr ?d"
    using assms(1) kinds externals
    by (auto simp: same cols bank_ok_def bank_keys_ok_def bank_references_ok_def update_rows_def list_all_iff o_def
        account_exists_def has_company_def)
  moreover have "filter (\<lambda>b. bl_line_id b = line_id) (of_company company (db_bank_lines db)) \<noteq> []"
    using assms(2) by (auto simp: bank_line_def filter_empty_conv dest!: find_map_Some)
  ultimately show ?thesis by (simp add: set_bank_line_match_def)
qed

text \<open>The steps of a confirmation that went through.\<close>

lemma confirm_steps:
  assumes "confirm_proposal E company line_id account class_opt fresh now db = (Inr entry_id, db')"
  obtains line amount version e bank_leg d1 d2 d3 where
    "bank_line db company line_id = Inr line" "bl_match_kind line = Some ''proposed''"
    "abs_amount line = Inr amount"
    "save_document (be_to_json E) company (confirmed_document line amount account class_opt)
       (desk_command E ''confirm_bank_proposal'' now) (fst fresh) now db = (Inr version, d1)"
    "post (be_debug E) (be_dec E) (confirmed_document line amount account class_opt) (vi_version version)
       default_context = Inr (Entry e)"
    "find_map (\<lambda>l. jl_account l = bl_account_id line) (je_lines e) = Some bank_leg"
    "post_entry company e (snd fresh) now d1 = (Inr entry_id, d2)"
    "clear_journal_line company entry_id (jl_line_no bank_leg) now d2 = (Inr (), d3)"
    "set_bank_line_match company line_id ''manual'' (Some entry_id) (Some (jl_line_no bank_leg)) now d3 = (Inr (), db')"
  using assms unfolding confirm_proposal_def Let_def
  by (auto simp: posted_entry_of_Inr split: if_splits)

lemma post_sorted:
  assumes "post dbg D doc version ctx = Inr (Entry e)"
  shows "sorted (map jl_line_no (je_lines e))"
  using post_entry_facts(2)[OF assms] by (auto simp: lines_numbered_def sorted_iff_nth_mono simp del: upt_Suc)

lemma desk_journal_ok: "desk_ok db \<Longrightarrow> journal_ok db"
  by (simp add: desk_ok_def book_sound_def)

lemma set_match_done:
  assumes "set_bank_line_match company line_id kind i n now db = (Inr u, db')"
    and "bank_line db company line_id = Inr b"
  shows "\<exists>b'. bank_line db' company line_id = Inr b' \<and> bl_match_kind b' = Some kind"
proof -
  have db': "db' = db\<lparr>db_bank_lines := update_rows company (\<lambda>b. bl_line_id b = line_id)
      (\<lambda>b. b\<lparr>bl_match_kind := Some kind, bl_matched_entry_id := i, bl_matched_line_no := n, bl_matched_at := Some now\<rparr>)
      (db_bank_lines db)\<rparr>"
    using assms(1) by (auto simp: set_bank_line_match_def split: if_splits)
  have "find_map (\<lambda>b. bl_line_id b = line_id) (of_company company (update_rows company (\<lambda>b. bl_line_id b = line_id) f rows)) =
      map_option f (find_map (\<lambda>b. bl_line_id b = line_id) (of_company company rows))"
    if "\<And>b. bl_line_id (f b) = bl_line_id b" for f rows
    using that by (induction rows) (auto simp: update_rows_def)
  from this[of "\<lambda>b. b\<lparr>bl_match_kind := Some kind, bl_matched_entry_id := i, bl_matched_line_no := n, bl_matched_at := Some now\<rparr>"
      "db_bank_lines db"]
  show ?thesis using assms(2) by (simp add: db' bank_line_def)
qed

lemma bank_line_same_lines: "db_bank_lines db' = db_bank_lines db \<Longrightarrow> bank_line db' c i = bank_line db c i"
  by (simp add: bank_line_def)

lemma still_save: "save_document to_json company doc command command_id now db = (r, db') \<Longrightarrow> db_bank_lines db' = db_bank_lines db"
proof -
  assume run: "save_document to_json company doc command command_id now db = (r, db')"
  have "obeys still_lines (save_document to_json company doc command command_id now)"
    unfolding save_document_def
    by (intro still.steps still.stated) (auto simp: still_lines_def insert_oplog_def insert_document_version_def)
  from obeysD[OF this run] show ?thesis by (simp add: still_lines_def)
qed

lemma confirm_outcome:
  assumes ok: "desk_ok db" and run: "confirm_proposal E company line_id account class_opt fresh now db = (Inr entry_id, db')"
  shows "\<exists>line e. bank_line db company line_id = Inr line \<and> entry db' company entry_id = Inr (e, True) \<and>
    (account = bl_account_id line \<or>
      account_net (bl_account_id line) (je_lines e) = \<bar>cents (bl_amount line)\<bar> \<and>
      account_net account (je_lines e) = - \<bar>cents (bl_amount line)\<bar>) \<and>
    fst (confirm_proposal E company line_id account class_opt fresh' now' db') = Inl (Err (E_NotAProposal line_id))"
  using run
proof (rule confirm_steps)
  fix line amount version e bank_leg d1 d2 d3
  assume line: "bank_line db company line_id = Inr line" "bl_match_kind line = Some ''proposed''"
    and amount: "abs_amount line = Inr amount"
    and save: "save_document (be_to_json E) company (confirmed_document line amount account class_opt)
       (desk_command E ''confirm_bank_proposal'' now) (fst fresh) now db = (Inr version, d1)"
    and post: "post (be_debug E) (be_dec E) (confirmed_document line amount account class_opt) (vi_version version)
       default_context = Inr (Entry e)"
    and posted: "post_entry company e (snd fresh) now d1 = (Inr entry_id, d2)"
    and clear: "clear_journal_line company entry_id (jl_line_no bank_leg) now d2 = (Inr (), d3)"
    and matched: "set_bank_line_match company line_id ''manual'' (Some entry_id) (Some (jl_line_no bank_leg)) now d3 = (Inr (), db')"
  have d1: "journal_ok d1"
    using obeysD[OF save_document_desk save] ok by (simp add: desk_step_def desk_journal_ok)
  note acc = post_entry_accepted[OF posted]
  have "entry d2 company entry_id = Inr (e, True)"
    using entry_after_posting(1)[OF d1 acc(7) post_sorted[OF post]] by (simp only: acc(1,2))
  then have "entry d3 company entry_id = Inr (e, True)"
    by (rule entry_kept[OF obeysD[OF clear_journal_line.history clear]])
  then have read: "entry db' company entry_id = Inr (e, True)"
    by (rule entry_kept[OF obeysD[OF set_bank_line_match.history matched]])
  have lines: "db_bank_lines d3 = db_bank_lines db"
    using still_save[OF save] acc(2) clear_line_run[OF clear] by simp
  have cents: "cents amount = \<bar>cents (bl_amount line)\<bar>" using amount by (rule abs_amount_Inr)
  then have "0 \<le> cents amount" by simp
  then have "account = bl_account_id line \<or>
      account_net (bl_account_id line) (je_lines e) = \<bar>cents (bl_amount line)\<bar> \<and>
      account_net account (je_lines e) = - \<bar>cents (bl_amount line)\<bar>"
    using confirmed_nets[OF post] cents by metis
  moreover have "bank_line d3 company line_id = Inr line" using line(1) bank_line_same_lines[OF lines] by simp
  from set_match_done[OF matched this] obtain b where "bank_line db' company line_id = Inr b" "bl_match_kind b = Some ''manual''"
    by blast
  then have "fst (confirm_proposal E company line_id account class_opt fresh' now' db') = Inl (Err (E_NotAProposal line_id))"
    by (simp add: confirm_proposal_def and_run_def read_only_def reading_def)
  ultimately show ?thesis using line(1) read by blast
qed

text \<open>
  C37. Confirming a proposal posts one entry that moves the bank line's account by the amount without
  its sign, and the chosen account by as much the other way, and the line cannot be
  confirmed again. The account is debited also when the line is money out, so a confirmed
  payment raises the bank account instead of lowering it: the amount handed to the posting
  rule is the absolute one, and that rule reads the direction off the sign.
\<close>

theorem confirmed_line_debits_its_bank_account:
  assumes "desk_ok db" and "confirm_proposal E company line_id account class_opt fresh now db = (Inr entry_id, db')"
    and "bank_line db company line_id = Inr line" and "account \<noteq> bl_account_id line"
  shows "\<exists>e. entry db' company entry_id = Inr (e, True) \<and>
    account_net (bl_account_id line) (je_lines e) = \<bar>cents (bl_amount line)\<bar> \<and>
    account_net account (je_lines e) = - \<bar>cents (bl_amount line)\<bar> \<and>
    fst (confirm_proposal E company line_id account class_opt fresh' now' db') = Inl (Err (E_NotAProposal line_id))"
  using confirm_outcome[OF assms(1,2), of fresh' now'] assms(3,4) by auto

definition sample_env :: bank_env where
  "sample_env =
     \<lparr>be_debug = True, be_dec = reference_ops,
      be_add_days = (\<lambda>d n. Ymd (year d) (month d) (nat (int (day d) + n))),
      be_days_between = (\<lambda>a b. int (day a) - int (day b)),
      be_rfc3339 = (\<lambda>t. show_nat (nat t)), be_to_json = (\<lambda>doc. Inr (doc_document_id doc))\<rparr>"

definition sample_bank_line :: "string \<Rightarrow> int \<Rightarrow> string option \<Rightarrow> bank_line_row" where
  "sample_bank_line line_id amount kind =
     (new_bank_line line_id ''s-1'' (AccountId CHECKING) (Ymd 2026 9 12) (money_of amount) ''SOME LOCAL SHOP'' None)
       \<lparr>bl_match_kind := kind\<rparr>"

definition sample_statement :: "int \<Rightarrow> int \<Rightarrow> bank_statement_row" where
  "sample_statement from_balance to_balance =
     \<lparr>bs_statement_id = ''s-1'', bs_account_id = AccountId CHECKING, bs_period_start = Ymd 2026 9 1,
      bs_period_end = Ymd 2026 9 30, bs_opening_balance = money_of from_balance,
      bs_closing_balance = money_of to_balance, bs_imported_at = 0, bs_closed_at = None\<rparr>"

definition desk_db :: "(string \<times> bank_line_row) list \<Rightarrow> db" where
  "desk_db rows = empty_db\<lparr>
     db_companies := [(''co'', \<lparr>co_display_name = ''co'', co_realm_id = None, co_created_at = 0\<rparr>)],
     db_accounts := [(''co'', sample_account CHECKING Asset), (''co'', sample_account OTHER_OPERATING Expense)],
     db_classes := [(''co'', new_class ''foam'' ''foam'' None)],
     db_bank_statements := [(''co'', sample_statement 10000 8766)],
     db_bank_lines := rows\<rparr>"

definition proposed_db :: db where
  "proposed_db = desk_db [(''co'', sample_bank_line ''l-1'' (- 1234) (Some ''proposed''))]"

lemmas desk_sample_defs = proposed_db_def desk_db_def sample_bank_line_def sample_statement_def new_bank_line_def
  new_class_def sample_env_def

lemma proposed_db_ok: "desk_ok proposed_db"
  by (simp add: desk_ok_def book_sound_def journal_ok_def posted_balanced_def statement_eval bank_ok_def match_kind_ok_def
      bank_keys_ok_def bank_references_ok_def statement_key_def bank_line_key_def external_keys_def all_posted_def
      matches_sound_def stands_for_def is_resolved_def match_key_def List.map_filter_simps has_company_def
      desk_sample_defs sample_db_defs chart_numbers)

definition confirmed_entry :: journal_entry where
  "confirmed_entry = entry_of (confirmed_document (sample_bank_line ''l-1'' (- 1234) (Some ''proposed'')) (money_of 1234)
       (AccountId OTHER_OPERATING) (Some (ClassId ''foam''))) 1
     [debit_line 1 (AccountId CHECKING) (money_of 1234),
      (credit_line 2 (AccountId OTHER_OPERATING) (money_of 1234))\<lparr>jl_class := Some (ClassId ''foam'')\<rparr>]"

lemma confirmed_posts:
  "post True reference_ops (confirmed_document (sample_bank_line ''l-1'' (- 1234) (Some ''proposed'')) (money_of 1234)
       (AccountId OTHER_OPERATING) (Some (ClassId ''foam''))) 1 default_context = Inr (Entry confirmed_entry)"
  unfolding post_Entry_iff
  by (simp add: post_eval rule_evals post_bank_line_def confirmed_document_def confirmed_entry_def entry_of_def
      desk_sample_defs is_balanced_iff well_balanced_def one_sided_def debit_cents_def credit_cents_def resolve_class_def)

abbreviation (input) sample_proposal :: bank_line_row where
  "sample_proposal \<equiv> sample_bank_line ''l-1'' (- 1234) (Some ''proposed'')"

definition saved_db :: db where
  "saved_db = snd (save_document (be_to_json sample_env) ''co''
     (confirmed_document sample_proposal (money_of 1234) (AccountId OTHER_OPERATING) (Some (ClassId ''foam'')))
     (desk_command sample_env ''confirm_bank_proposal'' 9) ''c-1'' 9 proposed_db)"

lemma saved_run:
  "save_document (be_to_json sample_env) ''co''
     (confirmed_document sample_proposal (money_of 1234) (AccountId OTHER_OPERATING) (Some (ClassId ''foam'')))
     (desk_command sample_env ''confirm_bank_proposal'' 9) ''c-1'' 9 proposed_db =
   (Inr \<lparr>vi_document_id = ''bankline-l-1'', vi_version = 1\<rparr>, saved_db)"
  unfolding saved_db_def
  by (simp add: prod_eq_iff save_document_def write_tx_def and_run_def reading_def execute_def insert_oplog_def
      insert_unique_def insert_document_version_def latest_version_of_def of_company_def confirmed_document_def Let_def
      desk_sample_defs empty_db_def sql_max_def)

lemma saved_ok: "desk_ok saved_db"
  using obeysD[OF save_document_desk saved_run] proposed_db_ok by (simp add: desk_step_def)

lemma confirmed_acceptable: "acceptable saved_db ''co'' confirmed_entry ''e-1''"
  unfolding saved_db_def
  by (simp add: acceptable_def gate_open_def locked_through_def locked_through_in_def sql_max_def check_class_rule_def
      account_row_in_def company_accounts_def class_exists_in_def document_exists_def of_company_def is_balanced_iff
      well_balanced_def one_sided_def debit_cents_def credit_cents_def in_i64_def entry_key_def confirmed_entry_def
      entry_of_def save_document_def write_tx_def and_run_def reading_def execute_def insert_oplog_def
      insert_unique_def insert_document_version_def latest_version_of_def confirmed_document_def Let_def
      desk_sample_defs sample_db_defs chart_numbers)

lemma confirmed_run:
  "post_entry ''co'' confirmed_entry ''e-1'' 9 saved_db = (Inr ''e-1'', with_posted ''co'' ''e-1'' confirmed_entry 9 saved_db)"
  using post_entry_cases[OF desk_journal_ok[OF saved_ok], of "''co''" confirmed_entry "''e-1''" 9] confirmed_acceptable
  by simp

lemma sample_confirm:
  "fst (confirm_proposal sample_env ''co'' ''l-1'' (AccountId OTHER_OPERATING) (Some (ClassId ''foam'')) (''c-1'', ''e-1'') 9
     proposed_db) = Inr ''e-1''"
proof -
  have line: "bank_line proposed_db ''co'' ''l-1'' = Inr sample_proposal"
    "bank_statement proposed_db ''co'' (bl_statement_id sample_proposal) = Inr (sample_statement 10000 8766)"
    "bs_closed_at (sample_statement 10000 8766) = None" "bl_match_kind sample_proposal = Some ''proposed''"
    by (simp_all add: bank_line_def bank_statement_def of_company_def desk_sample_defs)
  have amount: "abs_amount sample_proposal = Inr (money_of 1234)"
    by (simp add: abs_amount_def is_negative_cents checked_eqs in_i64_def desk_sample_defs)
  have posted: "posted_entry_of sample_env (confirmed_document sample_proposal (money_of 1234) (AccountId OTHER_OPERATING)
      (Some (ClassId ''foam''))) 1 saved_db = (Inr confirmed_entry, saved_db)"
    using confirmed_posts by (simp add: posted_entry_of_Inr sample_env_def)
  have leg: "find_map (\<lambda>l. jl_account l = bl_account_id sample_proposal) (je_lines confirmed_entry) =
      Some (debit_line 1 (AccountId CHECKING) (money_of 1234))"
    by (simp add: confirmed_entry_def entry_of_def desk_sample_defs debit_line_def)
  have no1: "jl_line_no (debit_line 1 (AccountId CHECKING) (money_of 1234)) = 1" by (simp add: debit_line_def)
  let ?d = "with_posted ''co'' ''e-1'' confirmed_entry 9 saved_db"
  have ok: "desk_ok ?d" using obeysD[OF post_entry_desk confirmed_run] saved_ok by (simp add: desk_step_def)
  have "debit_line 1 (AccountId CHECKING) (money_of 1234) \<in> set (je_lines confirmed_entry)"
    by (simp add: confirmed_entry_def entry_of_def)
  note new = posted_line_fresh[OF confirmed_run this]
  obtain d3 where clear: "clear_journal_line ''co'' ''e-1'' 1 9 ?d = (Inr (), d3)"
    using clear_line_succeeds[OF desk_journal_ok[OF ok] new(1), of "''co''" "''e-1''" 1 9] new(2) no1 by auto
  have ok3: "bank_ok d3"
    using obeysD[OF clear_journal_line.history clear] ok by (simp add: keeps_history_def desk_ok_def book_sound_def)
  have "entry ?d ''co'' ''e-1'' = Inr (confirmed_entry, True)"
    using entry_after_posting(1)[OF desk_journal_ok[OF saved_ok] post_entry_accepted(7)[OF confirmed_run] post_sorted[OF confirmed_posts]] .
  then have read: "entry d3 ''co'' ''e-1'' = Inr (confirmed_entry, True)"
    by (rule entry_kept[OF obeysD[OF clear_journal_line.history clear]])
  have "db_bank_lines d3 = db_bank_lines proposed_db"
    using still_save[OF saved_run] clear_line_run[OF clear] by simp
  then have "bank_line d3 ''co'' ''l-1'' = Inr sample_proposal" using line(1) by (simp add: bank_line_def)
  from set_match_succeeds[OF ok3 this read, of "''manual''" "Some 1" 9] obtain d4 where
    matched: "set_bank_line_match ''co'' ''l-1'' ''manual'' (Some ''e-1'') (Some 1) 9 d3 = (Inr (), d4)" by auto
  show ?thesis
    by (simp add: confirm_proposal_def Let_def and_run_def reading_def ret_def line amount posted leg no1 saved_run
        confirmed_run lift_run_def read_only_def clear matched)
qed

theorem confirmed_line_debits_its_bank_account_witness:
  "\<exists>e db'. entry db' ''co'' ''e-1'' = Inr (e, True) \<and> account_net (AccountId CHECKING) (je_lines e) = 1234 \<and>
     account_net (AccountId OTHER_OPERATING) (je_lines e) = - 1234"
proof -
  let ?run = "confirm_proposal sample_env ''co'' ''l-1'' (AccountId OTHER_OPERATING) (Some (ClassId ''foam'')) (''c-1'', ''e-1'') 9
     proposed_db"
  have run: "?run = (Inr ''e-1'', snd ?run)" using sample_confirm by (metis prod.collapse)
  have line: "bank_line proposed_db ''co'' ''l-1'' = Inr sample_proposal"
    by (simp add: bank_line_def of_company_def desk_sample_defs)
  have row: "AccountId OTHER_OPERATING \<noteq> bl_account_id sample_proposal"
    "bl_account_id sample_proposal = AccountId CHECKING" "cents (bl_amount sample_proposal) = - 1234"
    by (simp_all add: desk_sample_defs chart_numbers in_i64_def)
  show ?thesis
    using confirmed_line_debits_its_bank_account[OF proposed_db_ok run line row(1)] row(2,3) by (metis abs_minus abs_numeral)
qed

end
