(* ===== verification/Mfg.thy ===== *)
theory Mfg
  imports Store Posting_Balance "HOL-Library.Product_Lexorder" "HOL-Library.Char_ord" "HOL-Library.List_Lexorder"
begin

text \<open>
  Manufacturing costing, \<open>apps/ledger/src/mfg.rs\<close> and \<open>mfg/landed.rs\<close>: the materials table and its
  running value, the allocation of freight by board foot, and the raw material receipt. The module's
  six tables stand beside the books in a \<open>shop\<close>. Its functions write statement by statement, with no
  transaction around them, so an error leaves what was already written. A decimal column holds the
  number its text denotes, in normal form.
\<close>

section \<open>Errors, outside code and machine arithmetic\<close>

datatype mfg_error =
    MfgLedger ledger_error
  | MfgSqlite string
  | MfgMoney money_error
  | MfgPost post_error
  | UnknownMaterial string
  | UnknownSheet string
  | EmptySheet string
  | EmptyReceipt
  | LineNamesNothing string int
  | ConsumptionNotOnSheet string
  | InvalidAdjustmentAccount string
  | BadDecimal string string
  | MissingBoardFeet string

type_synonym 'a mfg_res = "(mfg_error, 'a) res"

text \<open>The decimal library, the two serialisations, and whether debug assertions are compiled in.\<close>

record mfg_env =
  me_debug :: bool
  me_dec :: dec_ops
  me_rfc3339 :: "timestamp \<Rightarrow> string"
  me_to_json :: "ledger_document \<Rightarrow> string + string"

definition mfg_money :: "money_error + 'a \<Rightarrow> 'a mfg_res" where
  "mfg_money r = map_err (\<lambda>e. Err (MfgMoney e)) r"

text \<open>The operators of \<open>Decimal\<close> panic where the checked operation gives \<open>None\<close>.\<close>

definition dec_op :: "decimal option \<Rightarrow> decimal mfg_res" where
  "dec_op x = ok_or x Panic"

definition i64_result :: "bool \<Rightarrow> int \<Rightarrow> i64 mfg_res" where
  "i64_result dbg x = (if in_i64 x \<or> \<not> dbg then Inr (word_of_int x) else Inl Panic)"

definition dec_zero :: decimal where
  "dec_zero = Decimal 0 0"

definition dec_sum :: "dec_ops \<Rightarrow> decimal list \<Rightarrow> decimal mfg_res" where
  "dec_sum D ds = try_fold (\<lambda>acc d. dec_op (d_add D acc d)) dec_zero ds"

definition money_decimal :: "money \<Rightarrow> decimal" where
  "money_decimal m = dec_new (sint (minor m)) 2"

definition decimal_to_text :: "decimal \<Rightarrow> decimal" where
  "decimal_to_text v = strip_zeros (mantissa v) (scale v)"

section \<open>Tables\<close>

datatype material_unit = Bf | Sheet | Ea | Lf

fun material_unit_as_str :: "material_unit \<Rightarrow> string" where
  "material_unit_as_str Bf = ''bf''"
| "material_unit_as_str Sheet = ''sheet''"
| "material_unit_as_str Ea = ''ea''"
| "material_unit_as_str Lf = ''lf''"

definition parse_material_unit :: "string \<Rightarrow> material_unit option" where
  "parse_material_unit raw =
     (if raw = ''bf'' then Some Bf
      else if raw = ''sheet'' then Some Sheet
      else if raw = ''ea'' then Some Ea
      else if raw = ''lf'' then Some Lf
      else None)"

record material =
  mt_material_id :: string
  mt_name :: string
  mt_unit :: material_unit
  mt_sheet_board_feet :: "decimal option"
  mt_avg_cost :: money
  mt_qty_on_hand :: decimal
  mt_total_value :: money
  mt_is_active :: bool
  mt_source_ref :: "string option"

record lot_row =
  lo_lot_id :: string
  lo_material_id :: string
  lo_received_on :: naive_date
  lo_qty :: decimal
  lo_base_cost :: money
  lo_freight_alloc :: money
  lo_landed_cost :: money
  lo_po_ref :: "string option"
  lo_vendor_ref :: "string option"

datatype sheet_line_unit = LineBf | LineEa

record build_sheet_row =
  bs_sheet_id :: string
  bs_item_id :: string
  bs_version :: int
  bs_name :: string
  bs_yield_pct :: decimal
  bs_labour_minutes :: decimal
  bs_labour_rate :: money
  bs_overhead :: money
  bs_is_active :: bool
  bs_created_at :: timestamp

record sheet_line =
  sl_line_no :: int
  sl_material_id :: "string option"
  sl_part_item_id :: "string option"
  sl_qty_per_unit :: decimal
  sl_unit :: sheet_line_unit
  sl_note :: "string option"

record build_row =
  bd_build_id :: string
  bd_sheet_id :: string
  bd_item_id :: string
  bd_qty_built :: decimal
  bd_started_on :: "naive_date option"
  bd_completed_on :: naive_date
  bd_standard_cost :: money
  bd_actual_material :: money
  bd_actual_labour :: money
  bd_variance :: money
  bd_entry_id :: "string option"
  bd_note :: "string option"

record consumption_row =
  cs_build_id :: string
  cs_line_no :: int
  cs_material_id :: string
  cs_qty_actual :: decimal
  cs_cost :: money

text \<open>The books, and the six tables of migration 5, each row with its company.\<close>

record shop =
  sh_books :: db
  sh_materials :: "(string \<times> material) list"
  sh_lots :: "(string \<times> lot_row) list"
  sh_sheets :: "(string \<times> build_sheet_row) list"
  sh_sheet_lines :: "(string \<times> (string \<times> sheet_line)) list"
  sh_builds :: "(string \<times> build_row) list"
  sh_consumptions :: "(string \<times> consumption_row) list"

type_synonym 'a mfg = "(shop, mfg_error failure, 'a) stateful"

definition books :: "'a op \<Rightarrow> 'a mfg" where
  "books m s = (case m (sh_books s) of (r, db) \<Rightarrow>
     (map_err (\<lambda>e. Err (MfgLedger e)) r, s\<lparr>sh_books := db\<rparr>))"

definition shop_sql :: "(shop \<Rightarrow> string + shop) \<Rightarrow> unit mfg" where
  "shop_sql stmt s = (case stmt s of Inl m \<Rightarrow> (Inl (Err (MfgSqlite m)), s) | Inr s' \<Rightarrow> (Inr (), s'))"

definition pure_step :: "'a mfg_res \<Rightarrow> 'a mfg" where
  "pure_step r = reading (\<lambda>_. r)"

section \<open>Materials\<close>

record new_material =
  nm_material_id :: string
  nm_name :: string
  nm_unit :: string
  nm_sheet_board_feet :: "decimal option"
  nm_source_ref :: "string option"

definition insert_material :: "string \<Rightarrow> material \<Rightarrow> shop \<Rightarrow> string + shop" where
  "insert_material company row s =
     and_then (insert_unique mt_material_id company row (sh_materials s)) (\<lambda>t.
     and_then (references_company (sh_books s) company) (\<lambda>_. Inr (s\<lparr>sh_materials := t\<rparr>)))"

definition add_material :: "string \<Rightarrow> new_material \<Rightarrow> unit mfg" where
  "add_material company new =
     and_run (pure_step (ok_or (parse_material_unit (nm_unit new)) (Err (BadDecimal ''unit'' (nm_unit new))))) (\<lambda>unit.
     if unit = Sheet \<and> nm_sheet_board_feet new = None then fail (Err (MissingBoardFeet (nm_material_id new)))
     else shop_sql (insert_material company
       \<lparr>mt_material_id = nm_material_id new, mt_name = nm_name new, mt_unit = unit,
        mt_sheet_board_feet = map_option decimal_to_text (nm_sheet_board_feet new), mt_avg_cost = ZERO,
        mt_qty_on_hand = dec_zero, mt_total_value = ZERO, mt_is_active = True,
        mt_source_ref = nm_source_ref new\<rparr>))"

definition find_material :: "shop \<Rightarrow> string \<Rightarrow> string \<Rightarrow> material option" where
  "find_material s company material_id =
     find_map (\<lambda>m. mt_material_id m = material_id) (of_company company (sh_materials s))"

definition get_material :: "string \<Rightarrow> string \<Rightarrow> material mfg" where
  "get_material company material_id =
     reading (\<lambda>s. ok_or (find_material s company material_id) (Err (UnknownMaterial material_id)))"

definition list_materials :: "shop \<Rightarrow> string \<Rightarrow> material list" where
  "list_materials s company = sort_key mt_material_id (of_company company (sh_materials s))"

definition set_material_position :: "string \<Rightarrow> string \<Rightarrow> money \<Rightarrow> decimal \<Rightarrow> money \<Rightarrow> unit mfg" where
  "set_material_position company material_id avg_cost qty_on_hand total_value = shop_sql (\<lambda>s.
     Inr (s\<lparr>sh_materials := update_rows company (\<lambda>m. mt_material_id m = material_id)
       (\<lambda>m. m\<lparr>mt_avg_cost := avg_cost, mt_qty_on_hand := decimal_to_text qty_on_hand,
               mt_total_value := total_value\<rparr>) (sh_materials s)\<rparr>))"

text \<open>The moving average: the running value per unit on hand, or zero with nothing on hand.\<close>

definition average_cost :: "dec_ops \<Rightarrow> money \<Rightarrow> decimal \<Rightarrow> money mfg_res" where
  "average_cost D new_value new_qty =
     (if mantissa new_qty = 0 then Inr ZERO
      else and_then (dec_op (d_div D (money_decimal new_value) new_qty))
        (\<lambda>per_unit. mfg_money (round_money D per_unit LineExtension)))"

section \<open>Allocating freight\<close>

record receipt_line =
  rl_material_id :: string
  rl_qty :: decimal
  rl_unit :: material_unit
  rl_sheet_board_feet :: "decimal option"
  rl_base_cost :: money

definition board_foot_weight :: "dec_ops \<Rightarrow> receipt_line \<Rightarrow> decimal mfg_res" where
  "board_foot_weight D line =
     (case rl_unit line of
        Bf \<Rightarrow> Inr (rl_qty line)
      | Sheet \<Rightarrow>
          (case rl_sheet_board_feet line of
             Some bf_per_sheet \<Rightarrow> dec_op (d_mul D (rl_qty line) bf_per_sheet)
           | None \<Rightarrow> Inl (Err (MissingBoardFeet (rl_material_id line))))
      | _ \<Rightarrow> Inr dec_zero)"

definition tracked_qty :: "dec_ops \<Rightarrow> material \<Rightarrow> decimal \<Rightarrow> decimal mfg_res" where
  "tracked_qty D material qty =
     (case mt_unit material of
        Sheet \<Rightarrow>
          (case mt_sheet_board_feet material of
             Some bf_per_sheet \<Rightarrow> dec_op (d_mul D qty bf_per_sheet)
           | None \<Rightarrow> Inl (Err (MissingBoardFeet (mt_material_id material))))
      | _ \<Rightarrow> Inr qty)"

text \<open>The weights freight is shared by, with their total.\<close>

definition freight_weights :: "dec_ops \<Rightarrow> receipt_line list \<Rightarrow> (decimal list \<times> decimal) mfg_res" where
  "freight_weights D lines =
     and_then (try_map (board_foot_weight D) lines) (\<lambda>weights.
     let has_board_feet = list_ex (\<lambda>w. 0 < dec_val w) weights;
         weights = (if has_board_feet then weights else map rl_qty lines) in
     and_then (dec_sum D weights) (\<lambda>total_weight.
     let weights = (if 0 < dec_val total_weight then weights else replicate (length lines) (Decimal 1 0)) in
     and_then (dec_sum D weights) (\<lambda>total_weight. Inr (weights, total_weight))))"

definition share_line ::
  "bool \<Rightarrow> dec_ops \<Rightarrow> i64 \<Rightarrow> decimal \<Rightarrow> i64 list \<times> i64 \<times> (nat \<times> decimal) list \<Rightarrow> nat \<times> decimal \<Rightarrow>
   (i64 list \<times> i64 \<times> (nat \<times> decimal) list) mfg_res" where
  "share_line dbg D freight_minor total_weight st p =
     (case st of (floors, allocated, remainders) \<Rightarrow> case p of (i, weight) \<Rightarrow>
      and_then (dec_op (d_mul D (Decimal (sint freight_minor) 0) weight)) (\<lambda>product.
      and_then (dec_op (d_div D product total_weight)) (\<lambda>share.
      let floor = d_trunc D share; floor_minor = unwrap_or (d_to_i64 D floor) 0 in
      and_then (i64_result dbg (sint allocated + sint floor_minor)) (\<lambda>allocated.
      and_then (dec_op (d_sub D share floor)) (\<lambda>remainder.
      Inr (floors[i := floor_minor], allocated, remainders @ [(i, remainder)]))))))"

lemma minus_one_cent: "0 <s (w :: i64) \<Longrightarrow> sint (w - 1) = sint w - 1"
proof -
  assume pos: "0 <s w"
  then have "in_i64 (sint w - 1)" using sint_in_i64[of w] unfolding in_i64_def by (simp add: word_sless_alt)
  moreover have "w - 1 = word_of_int (sint w - 1)" by simp
  ultimately show ?thesis by (metis sint_of_int_i64)
qed

text \<open>\<open>while leftover > 0\<close>: one cent each along the order of the remainders, round and round.\<close>

function hand_out :: "bool \<Rightarrow> nat list \<Rightarrow> nat \<Rightarrow> i64 \<Rightarrow> i64 list \<Rightarrow> i64 list mfg_res" where
  "hand_out dbg order cursor leftover floors =
     (if 0 <s leftover \<and> order \<noteq> [] then
        let i = order ! (cursor mod length order) in
        and_then (i64_result dbg (sint (floors ! i) + 1)) (\<lambda>more.
        hand_out dbg order (cursor + 1) (leftover - 1) (floors[i := more]))
      else Inr floors)"
  by pat_completeness auto

termination
  by (relation "measure (\<lambda>(_, _, _, leftover, _). nat (sint leftover))")
    (auto simp: minus_one_cent word_sless_alt)

declare hand_out.simps [simp del]

definition by_remainder :: "(nat \<times> decimal) list \<Rightarrow> nat list" where
  "by_remainder remainders = map fst (sort_key (\<lambda>(i, r). (- dec_val r, i)) remainders)"

definition allocate_freight :: "bool \<Rightarrow> dec_ops \<Rightarrow> receipt_line list \<Rightarrow> money \<Rightarrow> (nat \<times> money) list mfg_res" where
  "allocate_freight dbg D lines freight =
     (if lines = [] then Inr []
      else if is_zero freight then Inr (map (\<lambda>no. (no, ZERO)) [1..<Suc (length lines)])
      else if dbg \<and> is_negative freight then Inl Panic
      else
        and_then (freight_weights D lines) (\<lambda>(weights, total_weight).
        let freight_minor = minor freight in
        and_then (try_fold (share_line dbg D freight_minor total_weight)
            (replicate (length lines) 0, 0, []) (enumerate 0 weights)) (\<lambda>(floors, allocated, remainders).
        and_then (i64_result dbg (sint freight_minor - sint allocated)) (\<lambda>leftover.
        and_then (hand_out dbg (by_remainder remainders) 0 leftover floors) (\<lambda>floors.
        Inr (map (\<lambda>(i, m). (i + 1, from_minor m)) (enumerate 0 floors)))))))"

section \<open>Receiving materials\<close>

record material_receipt_line =
  ml_material_id :: string
  ml_qty :: decimal
  ml_base_cost :: money

record material_receipt =
  mr_vendor_ref :: "string option"
  mr_po_ref :: "string option"
  mr_received_on :: naive_date
  mr_lines :: "material_receipt_line list"
  mr_freight :: money

record received_line =
  rv_material_id :: string
  rv_lot_id :: string
  rv_freight_alloc :: money
  rv_landed_cost :: money
  rv_new_avg_cost :: money
  rv_new_qty_on_hand :: decimal

record receipt_result =
  rr_entry_id :: string
  rr_total_landed :: money
  rr_lines :: "received_line list"

text \<open>The identifiers a call draws: a lot per line, the document, the command and the entry.\<close>

record fresh_ids =
  fi_lot :: "nat \<Rightarrow> string"
  fi_document :: string
  fi_command :: string
  fi_entry :: string
  fi_build :: string

definition insert_material_lot :: "string \<Rightarrow> lot_row \<Rightarrow> shop \<Rightarrow> string + shop" where
  "insert_material_lot company row s =
     and_then (insert_unique lo_lot_id company row (sh_lots s)) (\<lambda>t.
     if find_material s company (lo_material_id row) = None then Inl ''FOREIGN KEY constraint failed''
     else Inr (s\<lparr>sh_lots := t\<rparr>))"

definition account_line :: "int \<Rightarrow> string \<Rightarrow> money \<Rightarrow> doc_line" where
  "account_line line_no account amount =
     \<lparr>dl_line_no = line_no, dl_kind = Account, dl_amount = amount, dl_class = None, dl_item_id = None,
      dl_account = Some (AccountId account), dl_is_taxable = False, dl_qty = None, dl_unit_cost = None,
      dl_description = None, dl_posting = None, dl_entity = None\<rparr>"

text \<open>
  The end the three postings share: save the document, post it on the default context and store
  the entry. \<open>NonPosting\<close> is \<open>unreachable!\<close>.
\<close>

definition entry_or_panic :: "posting post_res \<Rightarrow> journal_entry mfg_res" where
  "entry_or_panic r =
     (case r of
        Inl (Err e) \<Rightarrow> Inl (Err (MfgPost e))
      | Inl Panic \<Rightarrow> Inl Panic
      | Inr (Entry e) \<Rightarrow> Inr e
      | Inr NonPosting \<Rightarrow> Inl Panic)"

definition record_document ::
  "mfg_env \<Rightarrow> string \<Rightarrow> ledger_document \<Rightarrow> string \<Rightarrow> fresh_ids \<Rightarrow> timestamp \<Rightarrow> string mfg" where
  "record_document E company doc kind ids now =
     and_run (books (save_document (me_to_json E) company doc
         \<lparr>cm_actor_id = ''dan'', cm_kind = kind, cm_hlc = me_rfc3339 E now\<rparr> (fi_command ids) now)) (\<lambda>version.
     and_run (pure_step (entry_or_panic
         (post (me_debug E) (me_dec E) doc (vi_version version) default_context))) (\<lambda>entry.
     books (post_entry company entry (fi_entry ids) now)))"

definition shop_document ::
  "string \<Rightarrow> doc_kind \<Rightarrow> naive_date \<Rightarrow> class_id option \<Rightarrow> doc_line list \<Rightarrow> string option \<Rightarrow> ledger_document" where
  "shop_document identity kind on class ls memo =
     \<lparr>doc_document_id = identity, doc_kind = kind, doc_number = None, doc_txn_date = on,
      doc_due_date = None, doc_contact = None, doc_header_class = class, doc_lines = ls, doc_tax = None,
      doc_deposit_to = None, doc_pay_from = None, doc_applications = [], doc_unapplied = ZERO,
      doc_is_voided = False, doc_source_ref = None, doc_memo = memo\<rparr>"

definition receipt_document :: "material_receipt \<Rightarrow> money \<Rightarrow> string \<Rightarrow> ledger_document" where
  "receipt_document receipt total_landed uuid =
     shop_document (''rmr-'' @ uuid) RawMaterialReceipt (mr_received_on receipt) None
       [account_line 1 INVENTORY_RAW total_landed, account_line 2 INVENTORY_RECEIVED_NOT_BILLED total_landed]
       (Some (''raw material receipt'' @ (case mr_po_ref receipt of Some po \<Rightarrow> '', '' @ po | None \<Rightarrow> [])))"

definition receive_line ::
  "mfg_env \<Rightarrow> string \<Rightarrow> material_receipt \<Rightarrow> fresh_ids \<Rightarrow> money \<times> received_line list \<Rightarrow>
   material_receipt_line \<times> material \<times> (nat \<times> money) \<Rightarrow> (money \<times> received_line list) mfg" where
  "receive_line E company receipt ids acc step =
     (case acc of (total_landed, received) \<Rightarrow> case step of (line, material, (line_no, freight_alloc)) \<Rightarrow>
      and_run (pure_step (mfg_money (checked_add (ml_base_cost line) freight_alloc))) (\<lambda>landed_cost.
      and_run (pure_step (mfg_money (checked_add total_landed landed_cost))) (\<lambda>total_landed.
      and_run (pure_step (tracked_qty (me_dec E) material (ml_qty line))) (\<lambda>qty_tracked.
      and_run (pure_step (dec_op (d_add (me_dec E) (mt_qty_on_hand material) qty_tracked))) (\<lambda>new_qty.
      and_run (pure_step (mfg_money (checked_add (mt_total_value material) landed_cost))) (\<lambda>new_value.
      and_run (pure_step (average_cost (me_dec E) new_value new_qty)) (\<lambda>new_avg.
      and_run (set_material_position company (mt_material_id material) new_avg new_qty new_value) (\<lambda>_.
      and_run (shop_sql (insert_material_lot company
          \<lparr>lo_lot_id = fi_lot ids line_no, lo_material_id = mt_material_id material,
           lo_received_on = mr_received_on receipt, lo_qty = decimal_to_text qty_tracked,
           lo_base_cost = ml_base_cost line, lo_freight_alloc = freight_alloc, lo_landed_cost = landed_cost,
           lo_po_ref = mr_po_ref receipt, lo_vendor_ref = mr_vendor_ref receipt\<rparr>)) (\<lambda>_.
      ret (total_landed, received @
        [\<lparr>rv_material_id = mt_material_id material, rv_lot_id = fi_lot ids line_no,
          rv_freight_alloc = freight_alloc, rv_landed_cost = landed_cost, rv_new_avg_cost = new_avg,
          rv_new_qty_on_hand = new_qty\<rparr>]))))))))))"

definition receipt_line_of :: "material_receipt_line \<Rightarrow> material \<Rightarrow> receipt_line" where
  "receipt_line_of line material =
     \<lparr>rl_material_id = ml_material_id line, rl_qty = ml_qty line, rl_unit = mt_unit material,
      rl_sheet_board_feet = mt_sheet_board_feet material, rl_base_cost = ml_base_cost line\<rparr>"

definition receive_materials ::
  "mfg_env \<Rightarrow> string \<Rightarrow> material_receipt \<Rightarrow> fresh_ids \<Rightarrow> timestamp \<Rightarrow> receipt_result mfg" where
  "receive_materials E company receipt ids now =
     (if mr_lines receipt = [] then fail (Err EmptyReceipt)
      else
        and_run (reading (\<lambda>s. try_map (\<lambda>line. ok_or (find_material s company (ml_material_id line))
            (Err (UnknownMaterial (ml_material_id line)))) (mr_lines receipt))) (\<lambda>materials.
        and_run (pure_step (allocate_freight (me_debug E) (me_dec E)
            (map2 receipt_line_of (mr_lines receipt) materials) (mr_freight receipt))) (\<lambda>allocation.
        and_run (run_fold (receive_line E company receipt ids) (ZERO, [])
            (zip (mr_lines receipt) (zip materials allocation))) (\<lambda>(total_landed, received).
        and_run (record_document E company (receipt_document receipt total_landed (fi_document ids))
            ''receive_materials'' ids now) (\<lambda>entry_id.
        ret \<lparr>rr_entry_id = entry_id, rr_total_landed = total_landed, rr_lines = received\<rparr>)))))"

end
