(* ===== verification/Mfg_Build.thy ===== *)
theory Mfg_Build
  imports Mfg
begin

text \<open>
  \<open>apps/ledger/src/mfg/sheet.rs\<close>, \<open>mfg/build.rs\<close> and \<open>mfg/report.rs\<close>: build sheets and the standard cost
  they price to, the sensitivity table, a completed build with its variance, the inventory
  adjustment, and the four reports.
\<close>

section \<open>Build sheets\<close>

definition parse_sheet_unit :: "string \<Rightarrow> sheet_line_unit option" where
  "parse_sheet_unit raw = (if raw = ''bf'' then Some LineBf else if raw = ''ea'' then Some LineEa else None)"

definition component_id :: "sheet_line \<Rightarrow> string option" where
  "component_id line = or_else (sl_material_id line) (sl_part_item_id line)"

record build_sheet_full =
  bf_header :: build_sheet_row
  bf_lines :: "sheet_line list"

record new_sheet_line =
  nl_material_id :: "string option"
  nl_part_item_id :: "string option"
  nl_qty_per_unit :: decimal
  nl_unit :: string
  nl_note :: "string option"

record new_build_sheet =
  nb_sheet_id :: string
  nb_item_id :: string
  nb_version :: int
  nb_name :: string
  nb_yield_pct :: decimal
  nb_labour_minutes :: decimal
  nb_labour_rate :: money
  nb_overhead :: money
  nb_lines :: "new_sheet_line list"

text \<open>The check of one line, with the units read so far.\<close>

definition check_sheet_line :: "string \<Rightarrow> sheet_line_unit list \<Rightarrow> new_sheet_line \<Rightarrow> sheet_line_unit list mfg_res" where
  "check_sheet_line sheet_id units line =
     and_then (ok_or (parse_sheet_unit (nl_unit line)) (Err (BadDecimal ''unit'' (nl_unit line)))) (\<lambda>unit.
     if (nl_material_id line \<noteq> None) = (nl_part_item_id line \<noteq> None)
     then Inl (Err (LineNamesNothing sheet_id (int (length units) + 1)))
     else Inr (units @ [unit]))"

definition build_sheet :: "shop \<Rightarrow> string \<Rightarrow> string \<Rightarrow> build_sheet_full mfg_res" where
  "build_sheet s company sheet_id =
     and_then (ok_or (find_map (\<lambda>b. bs_sheet_id b = sheet_id) (of_company company (sh_sheets s)))
       (Err (UnknownSheet sheet_id))) (\<lambda>header.
     Inr \<lparr>bf_header = header,
          bf_lines = sort_key sl_line_no (map snd (filter (\<lambda>(i, _). i = sheet_id)
            (of_company company (sh_sheet_lines s))))\<rparr>)"

definition upsert_sheet :: "string \<Rightarrow> build_sheet_row \<Rightarrow> shop \<Rightarrow> string + shop" where
  "upsert_sheet company row s =
     (if list_ex (\<lambda>b. bs_sheet_id b = bs_sheet_id row) (of_company company (sh_sheets s))
      then Inr (s\<lparr>sh_sheets := update_rows company (\<lambda>b. bs_sheet_id b = bs_sheet_id row)
             (\<lambda>b. row\<lparr>bs_created_at := bs_created_at b\<rparr>) (sh_sheets s)\<rparr>)
      else and_then (references_company (sh_books s) company) (\<lambda>_.
        Inr (s\<lparr>sh_sheets := sh_sheets s @ [(company, row)]\<rparr>)))"

definition insert_sheet_line :: "string \<Rightarrow> string \<Rightarrow> sheet_line \<Rightarrow> shop \<Rightarrow> string + shop" where
  "insert_sheet_line company sheet_id line s =
     and_then (insert_unique (\<lambda>(i, l). (i, sl_line_no l)) company (sheet_id, line) (sh_sheet_lines s)) (\<lambda>t.
     if list_ex (\<lambda>b. bs_sheet_id b = sheet_id) (of_company company (sh_sheets s))
     then Inr (s\<lparr>sh_sheet_lines := t\<rparr>) else Inl ''FOREIGN KEY constraint failed'')"

definition add_build_sheet :: "string \<Rightarrow> new_build_sheet \<Rightarrow> timestamp \<Rightarrow> build_sheet_full mfg" where
  "add_build_sheet company new now =
     (if nb_lines new = [] then fail (Err (EmptySheet (nb_sheet_id new)))
      else
        and_run (pure_step (try_fold (check_sheet_line (nb_sheet_id new)) [] (nb_lines new))) (\<lambda>units.
        and_run (shop_sql (upsert_sheet company
          \<lparr>bs_sheet_id = nb_sheet_id new, bs_item_id = nb_item_id new, bs_version = nb_version new,
           bs_name = nb_name new, bs_yield_pct = decimal_to_text (nb_yield_pct new),
           bs_labour_minutes = decimal_to_text (nb_labour_minutes new), bs_labour_rate = nb_labour_rate new,
           bs_overhead = nb_overhead new, bs_is_active = True, bs_created_at = now\<rparr>)) (\<lambda>_.
        and_run (shop_sql (\<lambda>s. Inr (s\<lparr>sh_sheet_lines := filter (\<lambda>(c, i, _). \<not> (c = company \<and> i = nb_sheet_id new))
          (sh_sheet_lines s)\<rparr>))) (\<lambda>_.
        and_run (run_each (\<lambda>(i, line, unit). shop_sql (insert_sheet_line company (nb_sheet_id new)
            \<lparr>sl_line_no = int i + 1, sl_material_id = nl_material_id line, sl_part_item_id = nl_part_item_id line,
             sl_qty_per_unit = decimal_to_text (nl_qty_per_unit line), sl_unit = unit, sl_note = nl_note line\<rparr>))
          (enumerate 0 (zip (nb_lines new) units))) (\<lambda>_.
        reading (\<lambda>s. build_sheet s company (nb_sheet_id new)))))))"

definition list_build_sheets :: "shop \<Rightarrow> string \<Rightarrow> build_sheet_row list" where
  "list_build_sheets s company = sort_key bs_sheet_id (of_company company (sh_sheets s))"

section \<open>The standard cost\<close>

record standard_cost =
  sc_material :: money
  sc_labour :: money
  sc_overhead :: money
  sc_total :: money
  sc_per_unit :: money
  sc_material_gross_bf :: decimal

text \<open>One line of the sheet: the material dollars, the parts dollars and the gross board feet so far.\<close>

definition cost_line ::
  "dec_ops \<Rightarrow> build_sheet_full \<Rightarrow> (string \<Rightarrow> material option) \<Rightarrow> decimal \<times> decimal \<times> decimal \<Rightarrow> sheet_line \<Rightarrow>
   (decimal \<times> decimal \<times> decimal) mfg_res" where
  "cost_line D sheet materials acc line =
     (case acc of (material_dollars, parts_dollars, material_gross_bf) \<Rightarrow>
      and_then (ok_or (component_id line) (Err (LineNamesNothing (bs_sheet_id (bf_header sheet)) (sl_line_no line)))) (\<lambda>component.
      and_then (ok_or (materials component) (Err (UnknownMaterial component))) (\<lambda>material.
      let unit_cost = money_decimal (mt_avg_cost material) in
      case sl_unit line of
        LineBf \<Rightarrow>
          and_then (dec_op (d_div D (sl_qty_per_unit line) (bs_yield_pct (bf_header sheet)))) (\<lambda>gross_bf.
          and_then (dec_op (d_add D material_gross_bf gross_bf)) (\<lambda>material_gross_bf.
          and_then (dec_op (d_mul D gross_bf unit_cost)) (\<lambda>dollars.
          and_then (dec_op (d_add D material_dollars dollars)) (\<lambda>material_dollars.
          Inr (material_dollars, parts_dollars, material_gross_bf)))))
      | LineEa \<Rightarrow>
          and_then (dec_op (d_mul D (sl_qty_per_unit line) unit_cost)) (\<lambda>dollars.
          and_then (dec_op (d_add D parts_dollars dollars)) (\<lambda>parts_dollars.
          Inr (material_dollars, parts_dollars, material_gross_bf))))))"

definition per_hour :: "dec_ops \<Rightarrow> decimal \<Rightarrow> money \<Rightarrow> decimal mfg_res" where
  "per_hour D minutes rate =
     and_then (dec_op (d_div D minutes (Decimal 60 0))) (\<lambda>hours. dec_op (d_mul D hours (money_decimal rate)))"

definition line_money :: "dec_ops \<Rightarrow> decimal \<Rightarrow> money mfg_res" where
  "line_money D dollars = mfg_money (round_money D dollars LineExtension)"

definition standard_cost ::
  "dec_ops \<Rightarrow> build_sheet_full \<Rightarrow> (string \<Rightarrow> material option) \<Rightarrow> standard_cost mfg_res" where
  "standard_cost D sheet materials =
     (if bf_lines sheet = [] then Inl (Err (EmptySheet (bs_sheet_id (bf_header sheet))))
      else
        and_then (try_fold (cost_line D sheet materials) (dec_zero, dec_zero, dec_zero) (bf_lines sheet))
          (\<lambda>(material_dollars, parts_dollars, material_gross_bf).
        and_then (per_hour D (bs_labour_minutes (bf_header sheet)) (bs_labour_rate (bf_header sheet))) (\<lambda>labour_dollars.
        and_then (line_money D material_dollars) (\<lambda>material.
        and_then (line_money D labour_dollars) (\<lambda>labour.
        and_then (line_money D parts_dollars) (\<lambda>parts.
        let overhead = bs_overhead (bf_header sheet) in
        and_then (mfg_money (checked_add material labour)) (\<lambda>tot.
        and_then (mfg_money (checked_add tot overhead)) (\<lambda>tot.
        and_then (mfg_money (checked_add tot parts)) (\<lambda>tot.
        Inr \<lparr>sc_material = material, sc_labour = labour, sc_overhead = overhead, sc_total = tot,
             sc_per_unit = tot, sc_material_gross_bf = material_gross_bf\<rparr>)))))))))"

section \<open>Sensitivity\<close>

record scenario =
  sn_name :: string
  sn_margin_pct :: decimal
  sn_delta_vs_base :: decimal

definition margin_pct :: "dec_ops \<Rightarrow> money \<Rightarrow> money \<Rightarrow> decimal mfg_res" where
  "margin_pct D tot sell_price =
     (if is_zero sell_price then Inr dec_zero
      else and_then (dec_op (d_sub D (money_decimal sell_price) (money_decimal tot))) (\<lambda>margin.
        dec_op (d_div D margin (money_decimal sell_price))))"

definition scenario_of :: "dec_ops \<Rightarrow> string \<Rightarrow> money \<Rightarrow> money \<Rightarrow> decimal \<Rightarrow> scenario mfg_res" where
  "scenario_of D name tot sell_price base_margin =
     and_then (margin_pct D tot sell_price) (\<lambda>margin.
     and_then (dec_op (d_sub D margin base_margin)) (\<lambda>delta.
     Inr \<lparr>sn_name = name, sn_margin_pct = margin, sn_delta_vs_base = delta\<rparr>))"

text \<open>The total with one bucket scaled by a factor.\<close>

definition apply_factor :: "dec_ops \<Rightarrow> money \<Rightarrow> money \<Rightarrow> decimal \<Rightarrow> money mfg_res" where
  "apply_factor D tot bucket factor =
     and_then (dec_op (d_mul D (money_decimal bucket) factor)) (\<lambda>scaled.
     and_then (line_money D scaled) (\<lambda>adjusted.
     and_then (mfg_money (checked_sub tot bucket)) (\<lambda>rest. mfg_money (checked_add rest adjusted))))"

definition dec_clamp :: "decimal \<Rightarrow> decimal \<Rightarrow> decimal \<Rightarrow> decimal" where
  "dec_clamp lo hi x = (if dec_val x < dec_val lo then lo else if dec_val hi < dec_val x then hi else x)"

definition shifted_yield :: "dec_ops \<Rightarrow> build_sheet_full \<Rightarrow> decimal \<Rightarrow> build_sheet_full mfg_res" where
  "shifted_yield D sheet delta =
     and_then (dec_op (d_add D (bs_yield_pct (bf_header sheet)) delta)) (\<lambda>candidate.
     Inr (sheet\<lparr>bf_header := (bf_header sheet)\<lparr>bs_yield_pct :=
       dec_clamp (Decimal 1 2) (Decimal 99 2) candidate\<rparr>\<rparr>))"

definition sensitivity ::
  "dec_ops \<Rightarrow> build_sheet_full \<Rightarrow> (string \<Rightarrow> material option) \<Rightarrow> money \<Rightarrow> scenario list mfg_res" where
  "sensitivity D sheet materials sell_price =
     and_then (standard_cost D sheet materials) (\<lambda>base.
     and_then (margin_pct D (sc_total base) sell_price) (\<lambda>base_margin.
     let factored = (\<lambda>bucket (name, factor).
           and_then (apply_factor D (sc_total base) bucket factor) (\<lambda>tot.
           scenario_of D name tot sell_price base_margin));
         shifted = (\<lambda>(name, delta).
           and_then (shifted_yield D sheet delta) (\<lambda>sheet.
           and_then (standard_cost D sheet materials) (\<lambda>cost.
           scenario_of D name (sc_total cost) sell_price base_margin)))
     in and_then (try_map (factored (sc_material base)) [(''Foam price +5%'', Decimal 105 2), (''Foam price -5%'', Decimal 95 2)]) (\<lambda>foam.
        and_then (try_map shifted [(''Yield +5 points'', Decimal 5 2), (''Yield -5 points'', Decimal (- 5) 2)]) (\<lambda>yields.
        and_then (try_map (factored (sc_labour base)) [(''Labour +10%'', Decimal 110 2), (''Labour -10%'', Decimal 90 2)]) (\<lambda>labour.
        Inr (foam @ yields @ labour))))))"

section \<open>Completing a build\<close>

record new_build =
  nw_sheet_id :: string
  nw_qty_built :: decimal
  nw_consumptions :: "(string \<times> decimal) list"
  nw_labour_minutes_actual :: decimal
  nw_completed_on :: naive_date
  nw_started_on :: "naive_date option"
  nw_class :: class_id
  nw_note :: "string option"

record build_result =
  br_build_id :: string
  br_entry_id :: string
  br_standard_cost :: money
  br_actual_material :: money
  br_applied :: money
  br_variance :: money
  br_actual_labour :: money

text \<open>The materials a sheet's lines name, each read once.\<close>

definition load_material ::
  "shop \<Rightarrow> string \<Rightarrow> (string \<Rightarrow> material option) \<Rightarrow> sheet_line \<Rightarrow> (string \<Rightarrow> material option) mfg_res" where
  "load_material s company materials line =
     (case component_id line of
        None \<Rightarrow> Inr materials
      | Some component \<Rightarrow>
          if materials component \<noteq> None then Inr materials
          else and_then (ok_or (find_material s company component) (Err (UnknownMaterial component)))
            (\<lambda>m. Inr (materials(component \<mapsto> m))))"

definition load_materials :: "shop \<Rightarrow> string \<Rightarrow> build_sheet_full \<Rightarrow> (string \<Rightarrow> material option) mfg_res" where
  "load_materials s company sheet = try_fold (load_material s company) Map.empty (bf_lines sheet)"

definition extended :: "dec_ops \<Rightarrow> decimal \<Rightarrow> money \<Rightarrow> money mfg_res" where
  "extended D qty cost = and_then (dec_op (d_mul D qty (money_decimal cost))) (line_money D)"

definition price_consumption ::
  "dec_ops \<Rightarrow> (string \<Rightarrow> material option) \<Rightarrow> money \<times> (string \<times> decimal \<times> money) list \<Rightarrow> string \<times> decimal \<Rightarrow>
   (money \<times> (string \<times> decimal \<times> money) list) mfg_res" where
  "price_consumption D materials acc p =
     (case acc of (actual_material, priced) \<Rightarrow> case p of (material_id, qty_actual) \<Rightarrow>
      and_then (ok_or (materials material_id) Panic) (\<lambda>material.
      and_then (extended D qty_actual (mt_avg_cost material)) (\<lambda>cost.
      and_then (mfg_money (checked_add actual_material cost)) (\<lambda>actual_material.
      Inr (actual_material, priced @ [(material_id, qty_actual, cost)])))))"

text \<open>What a build comes to before anything is written.\<close>

record build_figures =
  fg_finished :: money
  fg_actual_material :: money
  fg_applied :: money
  fg_variance :: money
  fg_actual_labour :: money
  fg_consumptions :: "(string \<times> decimal \<times> money) list"

definition build_figures ::
  "dec_ops \<Rightarrow> build_sheet_full \<Rightarrow> (string \<Rightarrow> material option) \<Rightarrow> new_build \<Rightarrow> build_figures mfg_res" where
  "build_figures D sheet materials build =
     and_then (standard_cost D sheet materials) (\<lambda>standard.
     and_then (extended D (nw_qty_built build) (sc_total standard)) (\<lambda>finished.
     and_then (extended D (nw_qty_built build) (sc_material standard)) (\<lambda>material_extended.
     and_then (mfg_money (checked_sub finished material_extended)) (\<lambda>applied.
     and_then (try_fold (price_consumption D materials) (ZERO, []) (nw_consumptions build)) (\<lambda>(actual_material, priced).
     and_then (mfg_money (checked_sub finished actual_material)) (\<lambda>rest.
     and_then (mfg_money (checked_sub rest applied)) (\<lambda>variance.
     and_then (per_hour D (nw_labour_minutes_actual build) (bs_labour_rate (bf_header sheet))) (\<lambda>labour_dollars.
     and_then (line_money D labour_dollars) (\<lambda>actual_labour.
     Inr \<lparr>fg_finished = finished, fg_actual_material = actual_material, fg_applied = applied,
          fg_variance = variance, fg_actual_labour = actual_labour, fg_consumptions = priced\<rparr>)))))))))"

definition build_document :: "new_build \<Rightarrow> build_figures \<Rightarrow> string \<Rightarrow> ledger_document" where
  "build_document build figures uuid =
     shop_document (''build-'' @ uuid) Build (nw_completed_on build) (Some (nw_class build))
       [account_line 1 INVENTORY_FINISHED (fg_finished figures),
        account_line 2 INVENTORY_RAW (fg_actual_material figures),
        account_line 3 PARTS_LABOUR_APPLIED (fg_applied figures)]
       (or_else (nw_note build) (Some (''build against '' @ nw_sheet_id build)))"

definition relieve ::
  "dec_ops \<Rightarrow> string \<Rightarrow> (string \<Rightarrow> material option) \<Rightarrow> string \<times> decimal \<times> money \<Rightarrow> unit mfg" where
  "relieve D company materials p =
     (case p of (material_id, qty_actual, cost) \<Rightarrow>
      and_run (pure_step (ok_or (materials material_id) Panic)) (\<lambda>material.
      and_run (pure_step (dec_op (d_sub D (mt_qty_on_hand material) qty_actual))) (\<lambda>new_qty.
      and_run (pure_step (mfg_money (checked_sub (mt_total_value material) cost))) (\<lambda>new_value.
      and_run (pure_step (average_cost D new_value new_qty)) (\<lambda>new_avg.
      set_material_position company material_id new_avg new_qty new_value)))))"

definition insert_build :: "string \<Rightarrow> build_row \<Rightarrow> shop \<Rightarrow> string + shop" where
  "insert_build company row s =
     and_then (insert_unique bd_build_id company row (sh_builds s)) (\<lambda>t.
     and_then (references_company (sh_books s) company) (\<lambda>_.
     if list_ex (\<lambda>b. bs_sheet_id b = bd_sheet_id row) (of_company company (sh_sheets s))
     then Inr (s\<lparr>sh_builds := t\<rparr>) else Inl ''FOREIGN KEY constraint failed''))"

definition insert_build_consumption :: "string \<Rightarrow> consumption_row \<Rightarrow> shop \<Rightarrow> string + shop" where
  "insert_build_consumption company row s =
     and_then (insert_unique (\<lambda>r. (cs_build_id r, cs_line_no r)) company row (sh_consumptions s)) (\<lambda>t.
     if list_ex (\<lambda>b. bd_build_id b = cs_build_id row) (of_company company (sh_builds s)) \<and>
        find_material s company (cs_material_id row) \<noteq> None
     then Inr (s\<lparr>sh_consumptions := t\<rparr>) else Inl ''FOREIGN KEY constraint failed'')"

definition complete_build ::
  "mfg_env \<Rightarrow> string \<Rightarrow> new_build \<Rightarrow> fresh_ids \<Rightarrow> timestamp \<Rightarrow> build_result mfg" where
  "complete_build E company build ids now =
     and_run (reading (\<lambda>s. build_sheet s company (nw_sheet_id build))) (\<lambda>sheet.
     and_run (reading (\<lambda>s. load_materials s company sheet)) (\<lambda>materials.
     and_run (pure_step (try_each (\<lambda>(material_id, _).
         if materials material_id = None then Inl (Err (ConsumptionNotOnSheet material_id)) else Inr ())
       (nw_consumptions build))) (\<lambda>_.
     and_run (pure_step (build_figures (me_dec E) sheet materials build)) (\<lambda>figures.
     and_run (record_document E company (build_document build figures (fi_document ids))
         ''complete_build'' ids now) (\<lambda>entry_id.
     and_run (run_each (relieve (me_dec E) company materials) (fg_consumptions figures)) (\<lambda>_.
     and_run (shop_sql (insert_build company
       \<lparr>bd_build_id = fi_build ids, bd_sheet_id = nw_sheet_id build, bd_item_id = bs_item_id (bf_header sheet),
        bd_qty_built = decimal_to_text (nw_qty_built build), bd_started_on = nw_started_on build,
        bd_completed_on = nw_completed_on build, bd_standard_cost = fg_finished figures,
        bd_actual_material = fg_actual_material figures, bd_actual_labour = fg_actual_labour figures,
        bd_variance = fg_variance figures, bd_entry_id = Some entry_id, bd_note = nw_note build\<rparr>)) (\<lambda>_.
     and_run (run_each (\<lambda>(i, material_id, qty_actual, cost). shop_sql (insert_build_consumption company
         \<lparr>cs_build_id = fi_build ids, cs_line_no = int i + 1, cs_material_id = material_id,
          cs_qty_actual = decimal_to_text qty_actual, cs_cost = cost\<rparr>))
       (enumerate 0 (fg_consumptions figures))) (\<lambda>_.
     ret \<lparr>br_build_id = fi_build ids, br_entry_id = entry_id, br_standard_cost = fg_finished figures,
          br_actual_material = fg_actual_material figures, br_applied = fg_applied figures,
          br_variance = fg_variance figures, br_actual_labour = fg_actual_labour figures\<rparr>))))))))"

definition list_builds :: "shop \<Rightarrow> string \<Rightarrow> build_row list" where
  "list_builds s company =
     sort_key (\<lambda>b. (bd_completed_on b, bd_build_id b)) (of_company company (sh_builds s))"

section \<open>Inventory adjustments\<close>

record new_adjustment =
  na_account :: string
  na_amount :: money
  na_class :: class_id
  na_adjusted_on :: naive_date
  na_reason :: string

definition inventory_document :: "new_adjustment \<Rightarrow> string \<Rightarrow> ledger_document" where
  "inventory_document adjustment uuid =
     shop_document (''adj-'' @ uuid) InventoryAdjustment (na_adjusted_on adjustment) (Some (na_class adjustment))
       [account_line 1 (na_account adjustment) (na_amount adjustment)] (Some (na_reason adjustment))"

definition adjust_inventory ::
  "mfg_env \<Rightarrow> string \<Rightarrow> new_adjustment \<Rightarrow> fresh_ids \<Rightarrow> timestamp \<Rightarrow> string mfg" where
  "adjust_inventory E company adjustment ids now =
     (if na_account adjustment \<noteq> INVENTORY_RAW \<and> na_account adjustment \<noteq> INVENTORY_FINISHED
      then fail (Err (InvalidAdjustmentAccount (na_account adjustment)))
      else record_document E company (inventory_document adjustment (fi_document ids)) ''adjust_inventory'' ids now)"

section \<open>Reports\<close>

record item_variance =
  iv_item_id :: string
  iv_build_count :: nat
  iv_total_standard_material :: money
  iv_total_variance :: money
  iv_variance_pct :: "decimal option"

text \<open>\<open>GROUP BY item_id\<close> over the company's builds of the period; \<open>SUM\<close> refuses to leave 64 bits.\<close>

definition builds_between :: "shop \<Rightarrow> string \<Rightarrow> naive_date \<Rightarrow> naive_date \<Rightarrow> build_row list" where
  "builds_between s company from_date to_date =
     filter (\<lambda>b. from_date \<le> bd_completed_on b \<and> bd_completed_on b \<le> to_date) (of_company company (sh_builds s))"

definition item_variance_of :: "dec_ops \<Rightarrow> build_row list \<Rightarrow> string \<Rightarrow> item_variance mfg_res" where
  "item_variance_of D builds item =
     (let rows = filter (\<lambda>b. bd_item_id b = item) builds in
      and_then (map_err (\<lambda>m. Err (MfgSqlite m)) (sql_sum (map (\<lambda>b. sint (minor (bd_variance b)) + sint (minor (bd_actual_material b))) rows))) (\<lambda>standard.
      and_then (map_err (\<lambda>m. Err (MfgSqlite m)) (sql_sum (map (\<lambda>b. sint (minor (bd_variance b))) rows))) (\<lambda>variance.
      let total_standard_material = from_minor (word_of_int standard); total_variance = from_minor (word_of_int variance) in
      and_then (if is_zero total_standard_material then Inr None
        else and_then (dec_op (d_div D (money_decimal total_variance) (money_decimal total_standard_material)))
          (\<lambda>pct. Inr (Some pct))) (\<lambda>variance_pct.
      Inr \<lparr>iv_item_id = item, iv_build_count = length rows, iv_total_standard_material = total_standard_material,
           iv_total_variance = total_variance, iv_variance_pct = variance_pct\<rparr>))))"

definition variance_by_item ::
  "dec_ops \<Rightarrow> shop \<Rightarrow> string \<Rightarrow> naive_date \<Rightarrow> naive_date \<Rightarrow> item_variance list mfg_res" where
  "variance_by_item D s company from_date to_date =
     (let builds = builds_between s company from_date to_date in
      and_then (try_map (item_variance_of D builds) (sort (remdups (map bd_item_id builds)))) (\<lambda>rows.
      Inr (sort_key (\<lambda>v. (- (case iv_variance_pct v of Some p \<Rightarrow> \<bar>dec_val p\<bar> | None \<Rightarrow> 0), iv_item_id v)) rows)))"

record on_hand_row =
  oh_material_id :: string
  oh_qty_on_hand :: decimal
  oh_avg_cost :: money
  oh_value :: money

record on_hand_report =
  or_materials :: "on_hand_row list"
  or_total_value :: money
  or_account_1300_balance :: money

definition account_balance :: "shop \<Rightarrow> string \<Rightarrow> string \<Rightarrow> money mfg_res" where
  "account_balance s company account =
     (let lines = filter (\<lambda>l. jl_account l = AccountId account)
            (map join_line (posted_join (sh_books s) company (\<lambda>_. True))) in
      and_then (map_err (\<lambda>m. Err (MfgSqlite m)) (sql_sum (map (\<lambda>l. sint (minor (jl_debit l))) lines))) (\<lambda>debit.
      and_then (map_err (\<lambda>m. Err (MfgSqlite m)) (sql_sum (map (\<lambda>l. sint (minor (jl_credit l))) lines))) (\<lambda>credit.
      mfg_money (checked_sub (from_minor (word_of_int debit)) (from_minor (word_of_int credit))))))"

definition material_on_hand :: "shop \<Rightarrow> string \<Rightarrow> on_hand_report mfg_res" where
  "material_on_hand s company =
     (let materials = list_materials s company in
      and_then (mfg_money (checked_sum (map mt_total_value materials))) (\<lambda>total_value.
      and_then (account_balance s company INVENTORY_RAW) (\<lambda>balance.
      Inr \<lparr>or_materials = map (\<lambda>m. \<lparr>oh_material_id = mt_material_id m, oh_qty_on_hand = mt_qty_on_hand m,
             oh_avg_cost = mt_avg_cost m, oh_value = mt_total_value m\<rparr>) materials,
           or_total_value = total_value, or_account_1300_balance = balance\<rparr>)))"

record cost_rollup =
  cr_item_id :: string
  cr_sheet_id :: string
  cr_standard :: standard_cost
  cr_build_count :: nat
  cr_total_actual_material :: money
  cr_total_variance :: money

text \<open>\<open>ORDER BY version DESC LIMIT 1\<close> over the item's active sheets.\<close>

definition latest_sheet :: "build_sheet_row list \<Rightarrow> build_sheet_row option" where
  "latest_sheet rows =
     (case sql_max (map bs_version rows) of
        None \<Rightarrow> None
      | Some v \<Rightarrow> find_map (\<lambda>b. bs_version b = v) rows)"

definition cost_rollup :: "dec_ops \<Rightarrow> shop \<Rightarrow> string \<Rightarrow> string \<Rightarrow> cost_rollup mfg_res" where
  "cost_rollup D s company item =
     and_then (ok_or (latest_sheet (filter (\<lambda>b. bs_item_id b = item \<and> bs_is_active b) (of_company company (sh_sheets s))))
       (Err (UnknownSheet item))) (\<lambda>header.
     and_then (build_sheet s company (bs_sheet_id header)) (\<lambda>sheet.
     and_then (load_materials s company sheet) (\<lambda>materials.
     and_then (standard_cost D sheet materials) (\<lambda>standard.
     let builds = filter (\<lambda>b. bd_item_id b = item) (list_builds s company) in
     and_then (mfg_money (checked_sum (map bd_actual_material builds))) (\<lambda>actual.
     and_then (mfg_money (checked_sum (map bd_variance builds))) (\<lambda>variance.
     Inr \<lparr>cr_item_id = item, cr_sheet_id = bs_sheet_id header, cr_standard = standard,
          cr_build_count = length builds, cr_total_actual_material = actual, cr_total_variance = variance\<rparr>))))))"

end
