(* ===== verification/Mfg_Freight.thy ===== *)
theory Mfg_Freight
  imports Mfg "HOL-Library.Multiset"
begin

text \<open>
  The allocation of freight (\<open>allocate_freight\<close> in \<open>apps/ledger/src/mfg/landed.rs\<close>): what the decimal
  library has to give for the shares to be right, the loop that hands out the leftover cents, and
  the allocation as a whole.
\<close>

section \<open>What the allocation relies on\<close>

text \<open>
  Documented behaviour of \<open>Decimal\<close>: a sum, a difference or a quotient that has a representation is
  that value; any quotient below \<open>2^63\<close> keeps nine places at least; \<open>trunc\<close> drops the fraction.
\<close>

definition dec_exact :: "dec_ops \<Rightarrow> bool" where
  "dec_exact D \<longleftrightarrow>
     (\<forall>a b. dec_ok a \<longrightarrow> dec_ok b \<longrightarrow> dec_representable (dec_val a + dec_val b) \<longrightarrow>
        (\<exists>c. d_add D a b = Some c \<and> dec_ok c \<and> dec_val c = dec_val a + dec_val b)) \<and>
     (\<forall>a b. dec_ok a \<longrightarrow> dec_ok b \<longrightarrow> dec_representable (dec_val a - dec_val b) \<longrightarrow>
        (\<exists>c. d_sub D a b = Some c \<and> dec_ok c \<and> dec_val c = dec_val a - dec_val b)) \<and>
     (\<forall>a b. dec_ok a \<longrightarrow> dec_ok b \<longrightarrow> dec_val b \<noteq> 0 \<longrightarrow> \<bar>dec_val a / dec_val b\<bar> < 2 ^ 63 \<longrightarrow>
        (\<exists>c. d_div D a b = Some c \<and> dec_ok c \<and> \<bar>dec_val c - dec_val a / dec_val b\<bar> < 1 / 10 ^ 9 \<and>
           (dec_representable (dec_val a / dec_val b) \<longrightarrow> dec_val c = dec_val a / dec_val b))) \<and>
     (\<forall>a. dec_ok a \<longrightarrow> dec_ok (d_trunc D a) \<and>
        dec_val (d_trunc D a) = (if dec_val a < 0 then - of_int \<lfloor>- dec_val a\<rfloor> else of_int \<lfloor>dec_val a\<rfloor>))"

lemma exact_add:
  "dec_exact D \<Longrightarrow> dec_ok a \<Longrightarrow> dec_ok b \<Longrightarrow> dec_representable (dec_val a + dec_val b) \<Longrightarrow>
     \<exists>c. d_add D a b = Some c \<and> dec_ok c \<and> dec_val c = dec_val a + dec_val b"
  unfolding dec_exact_def by blast

lemma exact_sub:
  "dec_exact D \<Longrightarrow> dec_ok a \<Longrightarrow> dec_ok b \<Longrightarrow> dec_representable (dec_val a - dec_val b) \<Longrightarrow>
     \<exists>c. d_sub D a b = Some c \<and> dec_ok c \<and> dec_val c = dec_val a - dec_val b"
  unfolding dec_exact_def by blast

lemma exact_div:
  "dec_exact D \<Longrightarrow> dec_ok a \<Longrightarrow> dec_ok b \<Longrightarrow> dec_val b \<noteq> 0 \<Longrightarrow> \<bar>dec_val a / dec_val b\<bar> < 2 ^ 63 \<Longrightarrow>
     \<exists>c. d_div D a b = Some c \<and> dec_ok c \<and> \<bar>dec_val c - dec_val a / dec_val b\<bar> < 1 / 10 ^ 9 \<and>
       (dec_representable (dec_val a / dec_val b) \<longrightarrow> dec_val c = dec_val a / dec_val b)"
  unfolding dec_exact_def by blast

lemma exact_trunc:
  "dec_exact D \<Longrightarrow> dec_ok a \<Longrightarrow> 0 \<le> dec_val a \<Longrightarrow>
     dec_ok (d_trunc D a) \<and> dec_val (d_trunc D a) = of_int \<lfloor>dec_val a\<rfloor>"
  unfolding dec_exact_def by simp

lemma exact_mul:
  "dec_laws D \<Longrightarrow> dec_ok a \<Longrightarrow> dec_ok b \<Longrightarrow> dec_representable (dec_val a * dec_val b) \<Longrightarrow>
     \<exists>c. d_mul D a b = Some c \<and> dec_ok c \<and> dec_val c = dec_val a * dec_val b"
  unfolding dec_laws_def by blast

lemma whole_to_i64: "dec_laws D \<Longrightarrow> dec_ok x \<Longrightarrow> dec_val x = of_int k \<Longrightarrow> d_to_i64 D x = to_i64 k"
  unfolding dec_laws_def by blast

section \<open>Weights of few digits\<close>

text \<open>Weights with at most \<open>e\<close> places each and fewer than nine digits between them.\<close>

definition small_weights :: "nat \<Rightarrow> decimal list \<Rightarrow> bool" where
  "small_weights e ws \<longleftrightarrow>
     e \<le> 28 \<and> list_all (\<lambda>w. dec_ok w \<and> 0 \<le> mantissa w \<and> scale w \<le> e) ws \<and>
     (\<Sum>w\<leftarrow>ws. dec_val w) * 10 ^ e < 10 ^ 9"

definition units :: "nat \<Rightarrow> decimal \<Rightarrow> int" where
  "units e w = mantissa w * 10 ^ (e - scale w)"

lemma units_val: "scale w \<le> e \<Longrightarrow> dec_val w = of_int (units e w) / 10 ^ e"
  by (auto simp: units_def dec_val_def power_add field_simps dest!: le_Suc_ex)

lemma units_nonneg: "0 \<le> mantissa w \<Longrightarrow> 0 \<le> units e w"
  by (simp add: units_def)

lemma units_sum:
  "list_all (\<lambda>w. dec_ok w \<and> 0 \<le> mantissa w \<and> scale w \<le> e) ws \<Longrightarrow>
     (\<Sum>w\<leftarrow>ws. dec_val w) = of_int (\<Sum>w\<leftarrow>ws. units e w) / 10 ^ e"
  by (induction ws) (simp_all add: units_val add_divide_distrib)

lemma small_weights_units:
  assumes "small_weights e ws"
  shows "(\<Sum>w\<leftarrow>ws. dec_val w) = of_int (\<Sum>w\<leftarrow>ws. units e w) / 10 ^ e" "(\<Sum>w\<leftarrow>ws. units e w) < 10 ^ 9"
    "w \<in> set ws \<Longrightarrow> dec_ok w \<and> dec_val w = of_int (units e w) / 10 ^ e \<and> 0 \<le> units e w"
    "0 \<le> (\<Sum>w\<leftarrow>ws. units e w)" "e \<le> 28"
proof -
  have all: "list_all (\<lambda>w. dec_ok w \<and> 0 \<le> mantissa w \<and> scale w \<le> e) ws" and e: "e \<le> 28"
    and lt: "(\<Sum>w\<leftarrow>ws. dec_val w) * 10 ^ e < 10 ^ 9"
    using assms by (simp_all add: small_weights_def)
  show sum: "(\<Sum>w\<leftarrow>ws. dec_val w) = of_int (\<Sum>w\<leftarrow>ws. units e w) / 10 ^ e" by (rule units_sum[OF all])
  have "of_int (\<Sum>w\<leftarrow>ws. units e w) < (of_int (10 ^ 9) :: rat)" using lt unfolding sum by simp
  then show "(\<Sum>w\<leftarrow>ws. units e w) < 10 ^ 9" by (simp only: of_int_less_iff)
  show "e \<le> 28" by (rule e)
  show "dec_ok w \<and> dec_val w = of_int (units e w) / 10 ^ e \<and> 0 \<le> units e w" if "w \<in> set ws"
    using all that by (auto simp: list_all_iff units_val units_nonneg)
  show "0 \<le> (\<Sum>w\<leftarrow>ws. units e w)"
    using all by (auto intro!: sum_list_nonneg simp: list_all_iff units_nonneg)
qed

lemma scaled_representable: "\<bar>m\<bar> < 2 ^ 96 \<Longrightarrow> e \<le> 28 \<Longrightarrow> dec_representable (of_int m / 10 ^ e)"
  unfolding dec_representable_def by (rule exI[of _ "Decimal m e"]) (simp add: dec_ok_def dec_val_def)

lemma units_le_total: "list_all (\<lambda>w. 0 \<le> units e w) ws \<Longrightarrow> w \<in> set ws \<Longrightarrow> units e w \<le> (\<Sum>w\<leftarrow>ws. units e w)"
  by (rule member_le_sum_list) (auto simp: list_all_iff)

lemma dec_sum_exact:
  assumes exact: "dec_exact D" and small: "small_weights e ws"
  shows "\<exists>t. dec_sum D ws = Inr t \<and> dec_ok t \<and> dec_val t = (\<Sum>w\<leftarrow>ws. dec_val w)"
proof -
  have "\<exists>t. try_fold (\<lambda>acc d. dec_op (d_add D acc d)) a vs = Inr t \<and> dec_ok t \<and> dec_val t = dec_val a + (\<Sum>w\<leftarrow>vs. dec_val w)"
    if "dec_ok a" "dec_val a = of_int k / 10 ^ e" "0 \<le> k" "list_all (\<lambda>w. dec_ok w \<and> 0 \<le> mantissa w \<and> scale w \<le> e) vs"
      "k + (\<Sum>w\<leftarrow>vs. units e w) < 10 ^ 9" for a k vs
    using that
  proof (induction vs arbitrary: a k)
    case (Cons v vs)
    have v: "dec_ok v" "dec_val v = of_int (units e v) / 10 ^ e" "0 \<le> units e v"
      using Cons.prems(4) by (simp_all add: units_val units_nonneg)
    have rest: "0 \<le> (\<Sum>w\<leftarrow>vs. units e w)"
      using Cons.prems(4) by (auto intro!: sum_list_nonneg simp: list_all_iff units_nonneg)
    have val: "dec_val a + dec_val v = of_int (k + units e v) / 10 ^ e"
      using Cons.prems(2) v(2) by (simp add: add_divide_distrib)
    have "dec_representable (dec_val a + dec_val v)"
      unfolding val using Cons.prems(3,5) v(3) rest small by (intro scaled_representable) (simp_all add: small_weights_def)
    then obtain c where c: "d_add D a v = Some c" "dec_ok c" "dec_val c = dec_val a + dec_val v"
      using exact_add[OF exact Cons.prems(1) v(1)] by blast
    from Cons.IH[of c "k + units e v"] c val Cons.prems v(3) show ?case
      by (auto simp: dec_op_def add.assoc)
  qed simp
  note this[of dec_zero 0 ws]
  with small_weights_units[OF small] small show ?thesis
    by (auto simp: dec_sum_def dec_zero_def dec_ok_def dec_val_def small_weights_def)
qed

section \<open>One share\<close>

text \<open>The whole cents of a line's share, as the code computes them, are the floor of the exact share.\<close>

definition whole_share :: "int \<Rightarrow> int \<Rightarrow> int \<Rightarrow> int" where
  "whole_share F K u = F * u div K"

lemma near_floor:
  fixes q :: rat
  assumes K: "0 < K" "K < 10 ^ 9" and near: "\<bar>q - of_int n / of_int K\<bar> < 1 / 10 ^ 9"
    and exact: "K dvd n \<Longrightarrow> q = of_int n / of_int K"
  shows "\<lfloor>q\<rfloor> = n div K"
proof (cases "K dvd n")
  case True
  then have "q = of_int (n div K)" using exact K(1) by (auto elim!: dvdE)
  then show ?thesis by simp
next
  case False
  define r where "r = n mod K"
  have "r \<noteq> 0" "0 \<le> r" "r < K" using False K(1) by (simp_all add: r_def dvd_eq_mod_eq_0)
  then have r: "1 \<le> r" "r + 1 \<le> K" by simp_all
  have n: "n = K * (n div K) + r" by (simp add: r_def)
  have split: "of_int n / of_int K = (of_int (n div K) + of_int r / of_int K :: rat)"
    by (subst n) (use K(1) in \<open>simp add: field_simps\<close>)
  have "(of_int K :: rat) \<le> of_int (10 ^ 9)" using K(2) by (simp only: of_int_le_iff)
  then have "(1 :: rat) / 10 ^ 9 \<le> 1 / of_int K" using K(1) by (simp add: frac_le)
  moreover have "1 / of_int K \<le> (of_int r / of_int K :: rat)"
    using r(1) K(1) by (simp add: divide_right_mono)
  moreover have "(of_int r + 1) / of_int K \<le> (1 :: rat)"
  proof -
    have "(of_int (r + 1) :: rat) \<le> of_int K" using r(2) by (simp only: of_int_le_iff)
    then show ?thesis using K(1) by simp
  qed
  then have "of_int r / of_int K \<le> (1 - 1 / of_int K :: rat)" by (simp add: add_divide_distrib)
  ultimately show ?thesis
    using near split by (intro floor_unique) linarith+
qed

lemma fraction_representable:
  assumes "dec_ok c" "0 \<le> dec_val c"
  shows "dec_representable (dec_val c - of_int \<lfloor>dec_val c\<rfloor>)"
proof -
  obtain m s where c: "c = Decimal m s" by (cases c)
  have m: "0 \<le> m" "\<bar>m\<bar> < 2 ^ 96" "s \<le> 28"
    using assms not_le[of "(10::rat) ^ s" 0] by (auto simp: c dec_ok_def dec_val_def zero_le_divide_iff)
  have fl: "\<lfloor>dec_val c\<rfloor> = m div 10 ^ s"
    using floor_divide_of_int_eq[of m "10 ^ s"] by (simp add: c dec_val_def)
  have "dec_val c - of_int \<lfloor>dec_val c\<rfloor> = of_int (m - m div 10 ^ s * 10 ^ s) / 10 ^ s"
    unfolding fl by (simp add: c dec_val_def diff_divide_distrib)
  also have "m - m div 10 ^ s * 10 ^ s = m mod 10 ^ s" by (simp add: minus_div_mult_eq_mod)
  finally have eq: "dec_val c - of_int \<lfloor>dec_val c\<rfloor> = of_int (m mod 10 ^ s) / 10 ^ s" .
  have "m mod 10 ^ s \<le> m" using m(1) by (simp add: zmod_le_nonneg_dividend)
  then have "\<bar>m mod 10 ^ s\<bar> < 2 ^ 96" using m(1,2) by simp
  then show ?thesis unfolding eq using m(3) by (rule scaled_representable)
qed

lemma share_computed:
  assumes laws: "dec_laws D" and exact: "dec_exact D" and F: "0 \<le> F" "F < 2 ^ 63"
    and w: "dec_ok w" "dec_val w = of_int u / 10 ^ e" "0 \<le> u" "u \<le> K" and e: "e \<le> 28"
    and t: "dec_ok t" "dec_val t = of_int K / 10 ^ e" "0 < K" "K < 10 ^ 9"
  shows "\<exists>product share remainder. d_mul D (Decimal F 0) w = Some product \<and> d_div D product t = Some share \<and>
    d_to_i64 D (d_trunc D share) = Some (word_of_int (whole_share F K u)) \<and>
    d_sub D share (d_trunc D share) = Some remainder \<and> in_i64 (whole_share F K u)"
proof -
  have "F * u \<le> (2 ^ 63) * (10 ^ 9)" using F w(3,4) t(4) by (intro mult_mono) simp_all
  then have "\<bar>F * u\<bar> < 2 ^ 96" using F(1) w(3) by simp
  then have "dec_representable (of_int (F * u) / 10 ^ e)" using e by (rule scaled_representable)
  moreover have F_ok: "dec_ok (Decimal F 0)" "dec_val (Decimal F 0) = of_int F" using F by (simp_all add: dec_ok_def dec_val_def)
  ultimately obtain p where p: "d_mul D (Decimal F 0) w = Some p" "dec_ok p" "dec_val p = of_int (F * u) / 10 ^ e"
    using exact_mul[OF laws F_ok(1) w(1)] w(2) by auto
  have quot: "dec_val p / dec_val t = of_int (F * u) / of_int K" using t(2,3) p(3) by simp
  have le: "whole_share F K u \<le> F" "0 \<le> whole_share F K u"
  proof -
    have "F * u div K \<le> F * K div K" using F(1) w(4) t(3) by (intro zdiv_mono1 mult_left_mono) simp_all
    then show "whole_share F K u \<le> F" using t(3) by (simp add: whole_share_def)
    show "0 \<le> whole_share F K u" using F(1) w(3) t(3) by (simp add: whole_share_def pos_imp_zdiv_nonneg_iff)
  qed
  have "of_int (F * u) / of_int K \<le> (of_int F :: rat)"
  proof -
    have "(of_int (F * u) :: rat) \<le> of_int (F * K)" using F(1) w(4) by (simp only: of_int_le_iff mult_left_mono)
    then show ?thesis using t(3) by (simp add: divide_le_eq)
  qed
  moreover have "(of_int F :: rat) < of_int (2 ^ 63)" using F(2) by (simp only: of_int_less_iff)
  moreover have "0 \<le> (of_int (F * u) / of_int K :: rat)" using F(1) w(3) t(3) by simp
  ultimately have bound: "\<bar>of_int (F * u) / of_int K :: rat\<bar> < 2 ^ 63" by simp
  have "dec_val t \<noteq> 0" using t(2,3) by simp
  from exact_div[OF exact p(2) t(1) this] bound obtain q where q: "d_div D p t = Some q" "dec_ok q"
    "\<bar>dec_val q - of_int (F * u) / of_int K\<bar> < 1 / 10 ^ 9"
    "dec_representable (of_int (F * u) / of_int K) \<Longrightarrow> dec_val q = of_int (F * u) / of_int K"
    unfolding quot by blast
  have whole: "dec_val q = of_int (F * u) / of_int K" if "K dvd F * u"
  proof (rule q(4))
    have "of_int (F * u) / of_int K = (of_int (whole_share F K u) :: rat)"
      using of_int_div[OF that, where ?'a = rat] by (simp add: whole_share_def)
    then show "dec_representable (of_int (F * u) / of_int K)" using le F(2) by (simp add: of_int_representable)
  qed
  have fl: "\<lfloor>dec_val q\<rfloor> = whole_share F K u"
    unfolding whole_share_def by (rule near_floor[OF t(3,4) q(3)]) (rule whole)
  then have nonneg: "0 \<le> dec_val q" using le(2) zero_le_floor[of "dec_val q"] by linarith
  note tr = exact_trunc[OF exact q(2) nonneg]
  obtain r where "d_sub D q (d_trunc D q) = Some r"
    using exact_sub[OF exact q(2)] tr fraction_representable[OF q(2) nonneg] by metis
  moreover have "d_to_i64 D (d_trunc D q) = to_i64 (whole_share F K u)"
    using tr fl by (intro whole_to_i64[OF laws]) simp_all
  moreover have "in_i64 (whole_share F K u)" using le F(2) by (simp add: in_i64_def)
  ultimately show ?thesis using p(1) q(1) by (simp add: to_i64_def)
qed

section \<open>The two loops\<close>

lemma i64_result_in: "in_i64 x \<Longrightarrow> i64_result dbg x = Inr (word_of_int x)"
  by (simp add: i64_result_def)

lemma shares_computed:
  assumes laws: "dec_laws D" and exact: "dec_exact D" and F: "0 \<le> sint fm"
    and t: "dec_ok t" "dec_val t = of_int K / 10 ^ e" "0 < K" "K < 10 ^ 9" and e: "e \<le> 28"
    and w: "\<And>w. w \<in> set ws \<Longrightarrow> dec_ok w \<and> dec_val w = of_int (units e w) / 10 ^ e \<and> 0 \<le> units e w \<and> units e w \<le> K"
    and room: "k + length ws \<le> length floors" "0 \<le> sint al"
      "sint al + (\<Sum>w\<leftarrow>ws. whole_share (sint fm) K (units e w)) < 2 ^ 63"
  shows "\<exists>out al' rs'. try_fold (share_line dbg D fm t) (floors, al, rs) (enumerate k ws) = Inr (out, al', rs') \<and>
    length out = length floors \<and> sint al' = sint al + (\<Sum>w\<leftarrow>ws. whole_share (sint fm) K (units e w)) \<and>
    map fst rs' = map fst rs @ [k..<k + length ws] \<and>
    (\<forall>i < length floors. out ! i = (if k \<le> i \<and> i < k + length ws
       then word_of_int (whole_share (sint fm) K (units e (ws ! (i - k)))) else floors ! i))"
  using w room
proof (induction ws arbitrary: k floors al rs)
  case (Cons v ws)
  let ?s = "whole_share (sint fm) K (units e v)"
  have v: "dec_ok v" "dec_val v = of_int (units e v) / 10 ^ e" "0 \<le> units e v" "units e v \<le> K"
    using Cons.prems(1)[of v] by simp_all
  have F63: "sint fm < 2 ^ 63" using sint_less[of fm] by simp
  obtain p q r where share: "d_mul D (Decimal (sint fm) 0) v = Some p" "d_div D p t = Some q"
    "d_to_i64 D (d_trunc D q) = Some (word_of_int ?s)" "d_sub D q (d_trunc D q) = Some r" "in_i64 ?s"
    using share_computed[OF laws exact F F63 v e t] by blast
  have nonneg: "0 \<le> whole_share (sint fm) K (units e w)" if "w \<in> set (v # ws)" for w
    using F Cons.prems(1)[OF that] t(3) by (simp add: whole_share_def pos_imp_zdiv_nonneg_iff)
  then have rest: "0 \<le> (\<Sum>w\<leftarrow>ws. whole_share (sint fm) K (units e w))" "0 \<le> ?s"
    by (auto intro!: sum_list_nonneg)
  have al: "in_i64 (sint al + ?s)" using rest Cons.prems(3,4) by (simp add: in_i64_def)
  have step: "share_line dbg D fm t (floors, al, rs) (k, v) =
      Inr (floors[k := word_of_int ?s], word_of_int (sint al + ?s), rs @ [(k, r)])"
    using share al by (simp add: share_line_def dec_op_def i64_result_in)
  let ?fl = "floors[k := word_of_int ?s]" and ?al = "word_of_int (sint al + ?s) :: i64" and ?rs = "rs @ [(k, r)]"
  have sal: "sint ?al = sint al + ?s" by (rule sint_of_int_i64[OF al])
  have "\<exists>out al' rs'. try_fold (share_line dbg D fm t) (?fl, ?al, ?rs) (enumerate (Suc k) ws) = Inr (out, al', rs') \<and>
    length out = length ?fl \<and> sint al' = sint ?al + (\<Sum>w\<leftarrow>ws. whole_share (sint fm) K (units e w)) \<and>
    map fst rs' = map fst ?rs @ [Suc k..<Suc k + length ws] \<and>
    (\<forall>i < length ?fl. out ! i = (if Suc k \<le> i \<and> i < Suc k + length ws
       then word_of_int (whole_share (sint fm) K (units e (ws ! (i - Suc k)))) else ?fl ! i))"
    unfolding sal by (rule Cons.IH[of "Suc k" ?fl ?al ?rs, unfolded sal]) (use Cons.prems rest in auto)
  then obtain out al' rs' where IH:
    "try_fold (share_line dbg D fm t) (?fl, ?al, ?rs) (enumerate (Suc k) ws) = Inr (out, al', rs')"
    "length out = length floors" "sint al' = sint al + ?s + (\<Sum>w\<leftarrow>ws. whole_share (sint fm) K (units e w))"
    "map fst rs' = map fst rs @ [k] @ [Suc k..<Suc k + length ws]"
    "\<And>i. i < length floors \<Longrightarrow> out ! i = (if Suc k \<le> i \<and> i < Suc k + length ws
       then word_of_int (whole_share (sint fm) K (units e (ws ! (i - Suc k)))) else ?fl ! i)"
    unfolding sal
  proof (elim exE conjE)
    fix out al' rs'
    assume *: "try_fold (share_line dbg D fm t) (?fl, ?al, ?rs) (enumerate (Suc k) ws) = Inr (out, al', rs')"
      "length out = length ?fl" "sint al' = sint al + ?s + (\<Sum>w\<leftarrow>ws. whole_share (sint fm) K (units e w))"
      "map fst rs' = map fst ?rs @ [Suc k..<Suc k + length ws]"
      "\<forall>i < length ?fl. out ! i = (if Suc k \<le> i \<and> i < Suc k + length ws
         then word_of_int (whole_share (sint fm) K (units e (ws ! (i - Suc k)))) else ?fl ! i)"
    show thesis by (rule that[OF *(1)]) (use *(2-5) in simp_all)
  qed
  have "out ! i = (if k \<le> i \<and> i < k + length (v # ws)
       then word_of_int (whole_share (sint fm) K (units e ((v # ws) ! (i - k)))) else floors ! i)"
    if "i < length floors" for i
    using IH(5)[OF that] that by (cases "i = k") (auto simp: nth_Cons' not_le)
  moreover have "map fst rs' = map fst rs @ [k..<k + length (v # ws)]"
    unfolding IH(4) by (simp add: upt_conv_Cons del: upt_Suc)
  moreover have "try_fold (share_line dbg D fm t) (floors, al, rs) (enumerate k (v # ws)) = Inr (out, al', rs')"
    using IH(1) step by simp
  moreover have "sint al' = sint al + (\<Sum>w\<leftarrow>v # ws. whole_share (sint fm) K (units e w))"
    using IH(3) by simp
  ultimately show ?case using IH(2) by blast
qed auto

lemma hand_out_gives:
  assumes "distinct order" "set order \<subseteq> {..<length floors}" "0 \<le> sint leftover"
    and "cursor + nat (sint leftover) \<le> length order"
    and "\<And>i. i \<in> set (drop cursor order) \<Longrightarrow> in_i64 (sint (floors ! i) + 1)"
  shows "\<exists>out. hand_out dbg order cursor leftover floors = Inr out \<and> length out = length floors \<and>
    (\<forall>i < length floors. sint (out ! i) =
       sint (floors ! i) + (if i \<in> set (take (nat (sint leftover)) (drop cursor order)) then 1 else 0))"
  using assms
proof (induction "nat (sint leftover)" arbitrary: cursor leftover floors)
  case 0
  then show ?case by (subst hand_out.simps) (simp add: word_sless_alt)
next
  case (Suc n)
  let ?i = "order ! cursor"
  let ?f = "floors[?i := word_of_int (sint (floors ! ?i) + 1)]"
  have pos: "0 <s leftover" "cursor < length order" using Suc.hyps(2) Suc.prems(4) by (simp_all add: word_sless_alt)
  have less: "sint (leftover - 1) = sint leftover - 1" by (rule minus_one_cent[OF pos(1)])
  have rest: "drop cursor order = ?i # drop (Suc cursor) order" using pos(2) by (simp add: Cons_nth_drop_Suc)
  have room: "in_i64 (sint (floors ! ?i) + 1)" using Suc.prems(5) rest by simp
  have fresh: "?i \<notin> set (drop (Suc cursor) order)"
    using Suc.prems(1) rest by (metis distinct.simps(2) distinct_drop)
  have step: "hand_out dbg order cursor leftover floors = hand_out dbg order (Suc cursor) (leftover - 1) ?f"
    by (subst hand_out.simps) (use pos room in \<open>auto simp: i64_result_in Let_def\<close>)
  have i: "?i < length floors" using pos(2) Suc.prems(2) by (meson lessThan_iff nth_mem subsetD)
  have "in_i64 (sint (?f ! j) + 1)" if "j \<in> set (drop (Suc cursor) order)" for j
    using Suc.prems(5)[of j] that fresh rest by (cases "j = ?i") auto
  moreover have nn: "n = nat (sint (leftover - 1))" using Suc.hyps(2) less by simp
  ultimately have "\<exists>out. hand_out dbg order (Suc cursor) (leftover - 1) ?f = Inr out \<and> length out = length ?f \<and>
      (\<forall>i < length ?f. sint (out ! i) = sint (?f ! i) +
         (if i \<in> set (take (nat (sint (leftover - 1))) (drop (Suc cursor) order)) then 1 else 0))"
    by (intro Suc.hyps(1)) (use Suc.hyps(2) Suc.prems less in auto)
  then obtain out where out: "hand_out dbg order (Suc cursor) (leftover - 1) ?f = Inr out" "length out = length floors"
    "\<And>j. j < length floors \<Longrightarrow> sint (out ! j) =
       sint (?f ! j) + (if j \<in> set (take n (drop (Suc cursor) order)) then 1 else 0)"
    unfolding nn[symmetric] by auto
  have n: "nat (sint leftover) = Suc n" using Suc.hyps(2) by simp
  have "sint (out ! j) = sint (floors ! j) + (if j \<in> set (take (Suc n) (drop cursor order)) then 1 else 0)"
    if "j < length floors" for j
  proof (cases "j = ?i")
    case True
    have "sint (floors ! ?i + 1) = sint (floors ! ?i) + 1"
      using sint_of_int_i64[OF room] by simp
    with out(3)[OF that] True i fresh show ?thesis by (auto simp: rest dest: in_set_takeD)
  next
    case False
    with out(3)[OF that] show ?thesis by (auto simp: rest)
  qed
  then show ?case using step out(1,2) unfolding n by auto
qed

section \<open>The allocation\<close>

lemma whole_shares_bounds:
  assumes "0 \<le> F" "0 < K" "(\<Sum>u\<leftarrow>us. u) = K"
  shows "(\<Sum>u\<leftarrow>us. whole_share F K u) \<le> F" "F - (\<Sum>u\<leftarrow>us. whole_share F K u) \<le> int (length us)"
proof -
  have "(\<Sum>u\<leftarrow>us. whole_share F K u) * K \<le> F * (\<Sum>u\<leftarrow>us. u)"
  proof (induction us)
    case (Cons u us)
    have "whole_share F K u * K \<le> F * u"
      using assms(2) by (simp add: whole_share_def minus_mod_eq_div_mult[symmetric])
    with Cons.IH show ?case by (simp add: algebra_simps)
  qed simp
  then show "(\<Sum>u\<leftarrow>us. whole_share F K u) \<le> F" using assms(2,3) by simp
  have "F * (\<Sum>u\<leftarrow>us. u) \<le> ((\<Sum>u\<leftarrow>us. whole_share F K u) + int (length us)) * K"
  proof (induction us)
    case (Cons u us)
    have "F * u = whole_share F K u * K + (F * u) mod K" by (simp add: whole_share_def)
    then have "F * u \<le> (whole_share F K u + 1) * K"
      using pos_mod_bound[OF assms(2), of "F * u"] by (simp add: algebra_simps)
    with Cons.IH show ?case by (simp add: algebra_simps)
  qed simp
  then show "F - (\<Sum>u\<leftarrow>us. whole_share F K u) \<le> int (length us)" using assms(2,3) by simp
qed

lemma by_remainder_order:
  "map fst rs = [0..<n] \<Longrightarrow> distinct (by_remainder rs) \<and> set (by_remainder rs) = {..<n} \<and> length (by_remainder rs) = n"
proof -
  assume idx: "map fst rs = [0..<n]"
  have m: "mset (by_remainder rs) = mset (map fst rs)" by (simp add: by_remainder_def)
  then have "mset (by_remainder rs) = mset [0..<n]" by (simp only: idx)
  then show ?thesis by (metis distinct_upt mset_eq_imp_distinct_iff mset_eq_setD set_upt mset_eq_length length_upt minus_nat.diff_0 lessThan_atLeast0)
qed

lemma freight_weights_facts:
  assumes "freight_weights D lines = Inr (ws, t)"
  shows "length ws = length lines" "dec_sum D ws = Inr t" "0 < dec_val t \<or> ws = replicate (length lines) (Decimal 1 0)"
  using assms by (auto simp: freight_weights_def Let_def split: if_splits dest: try_map_length)

lemma freight_total:
  assumes "dec_exact D" "freight_weights D lines = Inr (ws, t)" "lines \<noteq> []" "small_weights e ws"
  shows "dec_ok t" "dec_val t = (\<Sum>w\<leftarrow>ws. dec_val w)" "0 < (\<Sum>w\<leftarrow>ws. dec_val w)"
proof -
  note facts = freight_weights_facts[OF assms(2)]
  from dec_sum_exact[OF assms(1,4)] facts(2) show t: "dec_ok t" "dec_val t = (\<Sum>w\<leftarrow>ws. dec_val w)" by auto
  from facts(3) show "0 < (\<Sum>w\<leftarrow>ws. dec_val w)"
  proof
    assume "ws = replicate (length lines) (Decimal 1 0)"
    then show ?thesis using assms(3) by (simp add: dec_val_def sum_list_replicate)
  qed (simp add: t)
qed

lemma enumerate_money_fst: "map fst (map (\<lambda>(i, m). (i + 1, from_minor m)) (enumerate 0 ms)) = [1..<Suc (length ms)]"
  by (rule nth_equalityI) (simp_all add: nth_enumerate_eq split: prod.split del: upt_Suc)

lemma allocation_of:
  assumes laws: "dec_laws D" "dec_exact D" and lines: "lines \<noteq> []" and F: "0 < cents freight"
    and ws: "freight_weights D lines = Inr (ws, t)" and small: "small_weights e ws"
  shows "\<exists>out given. allocate_freight dbg D lines freight = Inr (map (\<lambda>(i, m). (i + 1, from_minor m)) (enumerate 0 out)) \<and>
    length out = length lines \<and> given \<subseteq> {..<length lines} \<and>
    int (card given) = cents freight - (\<Sum>w\<leftarrow>ws. whole_share (cents freight) (\<Sum>w\<leftarrow>ws. units e w) (units e w)) \<and>
    (\<forall>i < length lines. sint (out ! i) =
       whole_share (cents freight) (\<Sum>w\<leftarrow>ws. units e w) (units e (ws ! i)) + (if i \<in> given then 1 else 0))"
proof -
  let ?F = "cents freight" and ?K = "\<Sum>w\<leftarrow>ws. units e w" and ?n = "length lines"
  let ?S = "\<Sum>w\<leftarrow>ws. whole_share ?F ?K (units e w)"
  note units = small_weights_units[OF small]
  note tot = freight_total[OF laws(2) ws lines small]
  note len = freight_weights_facts(1)[OF ws]
  have t: "dec_val t = of_int ?K / 10 ^ e" using tot(2) units(1) by simp
  have K: "0 < ?K" using tot(3) units(1) by (simp add: zero_less_divide_iff)
  have each: "dec_ok w \<and> dec_val w = of_int (units e w) / 10 ^ e \<and> 0 \<le> units e w \<and> units e w \<le> ?K" if "w \<in> set ws" for w
    using units(3)[OF that] units_le_total[of e ws w] units(3) that by (auto simp: list_all_iff)
  have S: "?S \<le> ?F" "?F - ?S \<le> int ?n"
    using whole_shares_bounds[of ?F ?K "map (units e) ws"] F K len by (simp_all add: o_def)
  have F63: "?F < 2 ^ 63" by (rule cents_bounds)
  have share_bound: "0 \<le> whole_share ?F ?K (units e w) \<and> whole_share ?F ?K (units e w) \<le> ?F" if "w \<in> set ws" for w
  proof -
    have "?F * units e w div ?K \<le> ?F * ?K div ?K" using F each[OF that] K by (intro zdiv_mono1 mult_left_mono) simp_all
    then show ?thesis using F each[OF that] K by (simp add: whole_share_def pos_imp_zdiv_nonneg_iff)
  qed
  have S0: "0 \<le> ?S" using share_bound by (auto intro!: sum_list_nonneg)
  obtain floors al rs where fold:
    "try_fold (share_line dbg D (minor freight) t) (replicate ?n 0, 0, []) (enumerate 0 ws) = Inr (floors, al, rs)"
    "length floors = ?n" "sint al = ?S" "map fst rs = [0..<?n]"
    "\<And>i. i < ?n \<Longrightarrow> floors ! i = word_of_int (whole_share ?F ?K (units e (ws ! i)))"
    using shares_computed[OF laws, of "minor freight" t ?K e ws 0 "replicate ?n 0" 0 dbg "[]"]
      F tot(1) t K units(2,5) each S(1) F63 len by (auto simp: cents_def)
  have floor: "sint (floors ! i) = whole_share ?F ?K (units e (ws ! i))" if "i < ?n" for i
    using fold(5)[OF that] share_bound[of "ws ! i"] that len F63 by (simp add: in_i64_def)
  note order = by_remainder_order[OF fold(4)]
  let ?left = "word_of_int (?F - ?S) :: i64" and ?order = "by_remainder rs"
  have left: "sint ?left = ?F - ?S" using S0 S(1) F63 by (intro sint_of_int_i64) (simp add: in_i64_def)
  have "in_i64 (sint (floors ! i) + 1)" if "i < ?n" "0 < ?F - ?S" for i
  proof -
    have "ws ! i \<in> set ws" using that(1) len by simp
    then have "whole_share ?F ?K (units e (ws ! i)) \<le> ?S"
      using share_bound by (intro member_le_sum_list) auto
    then show ?thesis using floor[OF that(1)] share_bound[of "ws ! i"] that len F63 by (simp add: in_i64_def)
  qed
  then have "\<exists>out. hand_out dbg ?order 0 ?left floors = Inr out \<and> length out = length floors \<and>
      (\<forall>i < length floors. sint (out ! i) =
         sint (floors ! i) + (if i \<in> set (take (nat (sint ?left)) (drop 0 ?order)) then 1 else 0))"
  proof (cases "0 < ?F - ?S")
    case True
    show ?thesis
      by (rule hand_out_gives) (use order fold(2) left True S(2) \<open>\<And>i. i < ?n \<Longrightarrow> 0 < ?F - ?S \<Longrightarrow> _ i\<close> in auto)
  next
    case False
    then have "sint ?left = 0" using left S(1) by simp
    then show ?thesis by (subst hand_out.simps) (simp add: word_sless_alt)
  qed
  then obtain out where out: "hand_out dbg ?order 0 ?left floors = Inr out" "length out = ?n"
    "\<And>i. i < ?n \<Longrightarrow> sint (out ! i) = whole_share ?F ?K (units e (ws ! i)) + (if i \<in> set (take (nat (?F - ?S)) ?order) then 1 else 0)"
    using fold(2) floor left by auto
  let ?given = "set (take (nat (?F - ?S)) ?order)"
  have "card ?given = nat (?F - ?S)"
    using order S(2) by (simp add: distinct_card)
  then have "int (card ?given) = ?F - ?S" using S(1) by simp
  moreover have "?given \<subseteq> {..<?n}" using order by (auto dest: in_set_takeD)
  moreover have "i64_result dbg (sint (minor freight) - sint al) = Inr ?left"
    using S0 S(1) F63 fold(3) by (subst i64_result_in) (simp_all add: in_i64_def cents_def)
  then have "allocate_freight dbg D lines freight = Inr (map (\<lambda>(i, m). (i + 1, from_minor m)) (enumerate 0 out))"
    using lines F ws fold(1) out(1) by (simp add: allocate_freight_def is_zero_cents is_negative_cents Let_def)
  ultimately show ?thesis using out(2,3) by blast
qed

lemma sum_with_given:
  fixes n :: nat
  assumes "given \<subseteq> {..<n}"
  shows "(\<Sum>i\<in>{..<n}. f i + (if i \<in> given then 1 else 0)) = (\<Sum>i\<in>{..<n}. f i) + int (card given)"
proof -
  have "(\<Sum>i\<in>{..<n}. (if i \<in> given then 1 else 0 :: int)) = int (card given)"
  proof -
    have "(\<Sum>i\<in>{..<n}. (if i \<in> given then 1 else 0 :: int)) = (\<Sum>i\<in>{..<n} \<inter> given. 1)"
      by (rule sum.inter_restrict[symmetric]) simp
    moreover have "{..<n} \<inter> given = given" using assms by blast
    ultimately show ?thesis by simp
  qed
  then show ?thesis by (simp add: sum.distrib)
qed

lemma enumerate_money_cents:
  "(\<Sum>p\<leftarrow>map (\<lambda>(i, m). (i + 1, from_minor m)) (enumerate 0 ms). cents (snd p)) = (\<Sum>i\<in>{..<length ms}. sint (ms ! i))"
proof -
  have "map (cents \<circ> snd \<circ> (\<lambda>(i, m). (i + 1, from_minor m))) (enumerate 0 ms) = map sint ms"
    by (rule nth_equalityI) (simp_all add: nth_enumerate_eq cents_def from_minor_def)
  then show ?thesis by (simp add: o_def sum_list_sum_nth atLeast0LessThan)
qed

lemma whole_share_near: "0 < K \<Longrightarrow> \<bar>of_int (whole_share F K u + (if b then 1 else 0)) - of_int (F * u) / of_int K\<bar> \<le> (1 :: rat)"
proof -
  assume K: "0 < K"
  have "of_int (F * u) / of_int K - of_int (whole_share F K u) = (of_int ((F * u) mod K) / of_int K :: rat)"
  proof -
    have "(of_int (F * u) :: rat) = of_int (whole_share F K u * K + (F * u) mod K)" by (simp add: whole_share_def)
    then show ?thesis using K by (simp add: field_simps)
  qed
  moreover have "0 \<le> (of_int ((F * u) mod K) / of_int K :: rat)" using K by simp
  moreover have "of_int ((F * u) mod K) / of_int K \<le> (1 :: rat)"
  proof -
    have "(of_int ((F * u) mod K) :: rat) \<le> of_int K" using pos_mod_bound[OF K, of "F * u"] by (simp only: of_int_le_iff less_imp_le)
    then show ?thesis using K by simp
  qed
  ultimately show ?thesis by auto
qed


section \<open>A decimal library with these laws\<close>

text \<open>
  The reference instance with division as \<open>dec_exact\<close> has it: the exact quotient where it has a
  representation, else nine places.
\<close>

definition shop_ops :: dec_ops where
  "shop_ops = reference_ops\<lparr>d_div := (\<lambda>a b.
     if mantissa b = 0 then None
     else let n = mantissa a * 10 ^ (28 + scale b); m = mantissa b * 10 ^ scale a in
       or_else (if m dvd n then dec_fit (n div m) 28 else None)
         (dec_fit (mantissa a * 10 ^ (9 + scale b) div m) 9))\<rparr>"

lemma shop_ops_sel [simp]:
  "d_mul shop_ops = d_mul reference_ops" "d_add shop_ops = d_add reference_ops"
  "d_sub shop_ops = d_sub reference_ops" "d_trunc shop_ops = d_trunc reference_ops"
  "d_round_dp shop_ops = d_round_dp reference_ops" "d_to_i64 shop_ops = d_to_i64 reference_ops"
  by (simp_all add: shop_ops_def)

lemma shop_laws: "dec_laws shop_ops"
  using reference_laws by (simp add: dec_laws_def)

lemma dec_val_cross: "dec_val a / dec_val b = of_int (mantissa a * 10 ^ scale b) / of_int (mantissa b * 10 ^ scale a)"
  by (simp add: dec_val_def)

lemma representable_at_28: "dec_representable x \<Longrightarrow> \<exists>k :: int. x * 10 ^ 28 = of_int k"
proof -
  assume "dec_representable x"
  then obtain d where d: "dec_ok d" "dec_val d = x" by (auto simp: dec_representable_def)
  then obtain j where j: "28 = scale d + j" by (auto simp: dec_ok_def le_iff_add)
  have "(10 :: rat) ^ (scale d + j) = 10 ^ scale d * 10 ^ j" by (rule power_add)
  then have pow: "(10 :: rat) ^ 28 = 10 ^ scale d * 10 ^ j" unfolding j .
  have "x * 10 ^ 28 = of_int (mantissa d * 10 ^ j)"
    unfolding d(2)[symmetric] dec_val_def pow by simp
  then show ?thesis by blast
qed

lemma nine_places: "\<bar>x :: rat\<bar> < 2 ^ 63 \<Longrightarrow> \<bar>\<lfloor>x * 10 ^ 9\<rfloor>\<bar> < 2 ^ 96"
proof -
  assume "\<bar>x\<bar> < 2 ^ 63"
  then have "x * 10 ^ 9 < of_int (2 ^ 63 * 10 ^ 9)" "of_int (- (2 ^ 63 * 10 ^ 9)) \<le> x * 10 ^ 9"
    by (simp_all add: abs_less_iff)
  moreover define f where "f = \<lfloor>x * 10 ^ 9\<rfloor>"
  ultimately have "f < 2 ^ 63 * 10 ^ 9" "- (2 ^ 63 * 10 ^ 9) \<le> f"
    by (simp_all only: floor_less_iff le_floor_iff)
  then show ?thesis unfolding f_def[symmetric] by (simp add: abs_less_iff)
qed

lemma nine_near: "\<bar>of_int \<lfloor>x * 10 ^ 9\<rfloor> / 10 ^ 9 - x\<bar> < (1 / 10 ^ 9 :: rat)"
proof -
  define y where "y = x * 10 ^ 9"
  have x: "x = y / 10 ^ 9" by (simp add: y_def)
  have "\<bar>of_int \<lfloor>y\<rfloor> - y\<bar> < 1" by linarith
  then have "\<bar>(of_int \<lfloor>y\<rfloor> - y) / 10 ^ 9\<bar> < 1 / 10 ^ 9" by (simp add: abs_divide divide_strict_right_mono)
  then show ?thesis unfolding y_def[symmetric] by (simp add: x diff_divide_distrib)
qed

lemma shop_div:
  assumes "dec_ok a" "dec_ok b" "dec_val b \<noteq> 0" "\<bar>dec_val a / dec_val b\<bar> < 2 ^ 63"
  shows "\<exists>c. d_div shop_ops a b = Some c \<and> dec_ok c \<and> \<bar>dec_val c - dec_val a / dec_val b\<bar> < 1 / 10 ^ 9 \<and>
    (dec_representable (dec_val a / dec_val b) \<longrightarrow> dec_val c = dec_val a / dec_val b)"
proof -
  let ?m = "mantissa b * 10 ^ scale a" and ?n = "mantissa a * 10 ^ scale b"
  have b: "mantissa b \<noteq> 0" using assms(3) by (auto simp: dec_val_def)
  then have m: "?m \<noteq> 0" by simp
  let ?q = "of_int ?n / of_int ?m :: rat"
  have q: "dec_val a / dec_val b = ?q" by (rule dec_val_cross)
  define N where "N k = mantissa a * 10 ^ (k + scale b)" for k :: nat
  have N: "of_int (N k) / of_int ?m = ?q * 10 ^ k" for k
    by (simp add: N_def power_add)
  have div: "d_div shop_ops a b = or_else (if ?m dvd N 28 then dec_fit (N 28 div ?m) 28 else None) (dec_fit (N 9 div ?m) 9)"
    using b by (simp add: shop_ops_def Let_def N_def)
  have dvd: "?m dvd N 28 \<longleftrightarrow> (\<exists>k :: int. ?q * 10 ^ 28 = of_int k)"
  proof
    assume "?m dvd N 28"
    then have "of_int (N 28 div ?m) = ?q * 10 ^ 28" using of_int_div[where ?'a = rat] N by metis
    then show "\<exists>k :: int. ?q * 10 ^ 28 = of_int k" by metis
  next
    assume "\<exists>k :: int. ?q * 10 ^ 28 = of_int k"
    then obtain k :: int where "of_int (N 28) / of_int ?m = (of_int k :: rat)" using N[of 28] by metis
    then have "(of_int (N 28) :: rat) = of_int (k * ?m)" using m by (simp add: divide_eq_eq)
    then show "?m dvd N 28" by (simp only: of_int_eq_iff dvd_triv_right)
  qed
  have whole: "of_int (N 28 div ?m) / 10 ^ 28 = ?q" if "?m dvd N 28"
  proof -
    have "of_int (N 28 div ?m) = of_int (N 28) / (of_int ?m :: rat)" using that by (rule of_int_div)
    then have "of_int (N 28 div ?m) = ?q * 10 ^ 28" unfolding N .
    then show ?thesis by (simp only: nonzero_mult_div_cancel_right) simp
  qed
  have nine: "\<exists>c. dec_fit (N 9 div ?m) 9 = Some c \<and> dec_ok c \<and> \<bar>dec_val c - ?q\<bar> < 1 / 10 ^ 9"
  proof -
    have fl: "N 9 div ?m = \<lfloor>?q * 10 ^ 9\<rfloor>" using floor_divide_of_int_eq[of "N 9" ?m] N[of 9] by metis
    have "\<bar>?q\<bar> < 2 ^ 63" using assms(4) unfolding q by simp
    then have "\<bar>\<lfloor>?q * 10 ^ 9\<rfloor>\<bar> < 2 ^ 96" by (rule nine_places)
    then have "dec_representable (of_int (N 9 div ?m) / 10 ^ 9)" unfolding fl by (intro scaled_representable) simp_all
    then obtain c where c: "dec_fit (N 9 div ?m) 9 = Some c" "dec_ok c" "dec_val c = of_int \<lfloor>?q * 10 ^ 9\<rfloor> / 10 ^ 9"
      using dec_fit_representable unfolding fl by blast
    have "\<bar>dec_val c - ?q\<bar> < 1 / 10 ^ 9" unfolding c(3) by (rule nine_near)
    with c show ?thesis by blast
  qed
  show ?thesis
  proof (cases "if ?m dvd N 28 then dec_fit (N 28 div ?m) 28 else None")
    case None
    have "\<not> dec_representable ?q"
    proof
      assume rep: "dec_representable ?q"
      then have "?m dvd N 28" using dvd representable_at_28 by blast
      moreover from this have "of_int (N 28 div ?m) / 10 ^ 28 = ?q" by (rule whole)
      ultimately show False using dec_fit_representable[of "N 28 div ?m" 28] rep None by auto
    qed
    then show ?thesis using nine None unfolding div q by auto
  next
    case (Some c)
    then have c: "?m dvd N 28" "dec_fit (N 28 div ?m) 28 = Some c" by (simp_all split: if_splits)
    then have ok: "dec_ok c" and val: "dec_val c = of_int (N 28 div ?m) / 10 ^ 28"
      by (auto simp: dec_fit_def Let_def dec_val_strip_zeros split: if_splits)
    have "dec_val c = ?q" unfolding val using c(1) by (rule whole)
    moreover have "d_div shop_ops a b = Some c" unfolding div Some by simp
    ultimately show ?thesis using ok unfolding q by simp
  qed
qed

lemma reference_trunc:
  assumes "dec_ok a"
  shows "dec_ok (d_trunc reference_ops a) \<and>
    dec_val (d_trunc reference_ops a) = (if dec_val a < 0 then - of_int \<lfloor>- dec_val a\<rfloor> else of_int \<lfloor>dec_val a\<rfloor>)"
proof -
  have fl: "\<lfloor>of_int k / 10 ^ scale a :: rat\<rfloor> = k div 10 ^ scale a" for k
    using floor_divide_of_int_eq[of k "10 ^ scale a", where ?'a = rat] by simp
  have neg: "dec_val a < 0 \<longleftrightarrow> mantissa a < 0" by (simp add: dec_val_def divide_less_0_iff not_less)
  have "\<bar>mantissa a\<bar> div 10 ^ scale a \<le> \<bar>mantissa a\<bar> div 1" by (rule zdiv_mono2) simp_all
  moreover have "0 \<le> \<bar>mantissa a\<bar> div 10 ^ scale a" by (simp add: pos_imp_zdiv_nonneg_iff)
  ultimately have "\<bar>sgn (mantissa a) * (\<bar>mantissa a\<bar> div 10 ^ scale a)\<bar> \<le> \<bar>mantissa a\<bar>"
    by (cases "mantissa a = 0") (simp_all only: abs_mult abs_sgn_eq, simp_all)
  then have "dec_ok (d_trunc reference_ops a)" using assms by (simp add: reference_ops_def dec_ok_def)
  moreover have "dec_val (d_trunc reference_ops a) = (if dec_val a < 0 then - of_int \<lfloor>- dec_val a\<rfloor> else of_int \<lfloor>dec_val a\<rfloor>)"
    using fl[of "mantissa a"] fl[of "- mantissa a"] unfolding neg
    by (auto simp: reference_ops_def dec_val_def sgn_if)
  ultimately show ?thesis by blast
qed

lemma shop_exact: "dec_exact shop_ops"
proof -
  have add: "dec_val a + dec_val b = of_int (mantissa a * 10 ^ scale b + mantissa b * 10 ^ scale a) / 10 ^ (scale a + scale b)"
    and sub: "dec_val a - dec_val b = of_int (mantissa a * 10 ^ scale b - mantissa b * 10 ^ scale a) / 10 ^ (scale a + scale b)" for a b
    by (simp_all add: dec_val_def power_add field_simps)
  have "\<exists>c. d_add shop_ops a b = Some c \<and> dec_ok c \<and> dec_val c = dec_val a + dec_val b"
    if "dec_representable (dec_val a + dec_val b)" for a b
    using dec_fit_representable[OF that[unfolded add]] unfolding add by (simp add: reference_ops_def)
  moreover have "\<exists>c. d_sub shop_ops a b = Some c \<and> dec_ok c \<and> dec_val c = dec_val a - dec_val b"
    if "dec_representable (dec_val a - dec_val b)" for a b
    using dec_fit_representable[OF that[unfolded sub]] unfolding sub by (simp add: reference_ops_def)
  ultimately show ?thesis
    unfolding dec_exact_def using shop_div reference_trunc by simp
qed

text \<open>Foam of 7, 11 and 3 board feet sharing 10.01, as the module's own test has it.\<close>

definition foam_line :: "string \<Rightarrow> int \<Rightarrow> int \<Rightarrow> receipt_line" where
  "foam_line name qty base =
     \<lparr>rl_material_id = name, rl_qty = Decimal qty 0, rl_unit = Bf, rl_sheet_board_feet = None,
      rl_base_cost = money_of base\<rparr>"

definition pallet :: "receipt_line list" where
  "pallet = [foam_line ''a'' 7 1000, foam_line ''b'' 11 1500, foam_line ''c'' 3 500]"

lemma pallet_weights: "freight_weights shop_ops pallet = Inr ([Decimal 7 0, Decimal 11 0, Decimal 3 0], Decimal 21 0)"
  by (simp add: freight_weights_def pallet_def foam_line_def board_foot_weight_def dec_val_def dec_sum_def dec_zero_def
      dec_op_def reference_ops_def dec_fit_def dec_ok_def)


end
