(* ===== verification/Mfg_Facts.thy ===== *)
theory Mfg_Facts
  imports Mfg_Build Mfg_Freight Bank_Facts Posting_Outcome Report_Facts
begin

text \<open>
  What the manufacturing operations do to the stock and to the books: the running value of the
  materials, account 1300 as the posted lines have it, and the amounts each posting moves.
\<close>

section \<open>Stock and books\<close>

text \<open>The running value of a company's materials, and what the posted lines come to on an account.\<close>

definition stock_cents :: "shop \<Rightarrow> string \<Rightarrow> int" where
  "stock_cents s company = (\<Sum>m\<leftarrow>of_company company (sh_materials s). cents (mt_total_value m))"

definition book_cents :: "db \<Rightarrow> string \<Rightarrow> string \<Rightarrow> int" where
  "book_cents db company number = account_net (AccountId number) (posted_lines db company (\<lambda>_. True))"

definition materials_keyed :: "shop \<Rightarrow> bool" where
  "materials_keyed s \<longleftrightarrow> distinct (map (\<lambda>(c, m). (c, mt_material_id m)) (sh_materials s))"

definition shop_ok :: "shop \<Rightarrow> bool" where
  "shop_ok s \<longleftrightarrow> book_sound (sh_books s) \<and> materials_keyed s"

section \<open>Runs on a shop\<close>

lemma pure_step_run [simp]: "pure_step r s = (x, s') \<longleftrightarrow> r = x \<and> s' = s"
  by (auto simp: pure_step_def)

lemma shop_sql_Inr [simp]: "shop_sql stmt s = (Inr u, s') \<longleftrightarrow> stmt s = Inr s'"
  by (auto simp: shop_sql_def split: sum.splits)

lemma books_Inr: "books m s = (Inr x, s') \<longleftrightarrow> (\<exists>db. m (sh_books s) = (Inr x, db) \<and> s' = s\<lparr>sh_books := db\<rparr>)"
  by (auto simp: books_def split: prod.splits)

lemma mfg_money_Inr [simp]: "mfg_money r = Inr x \<longleftrightarrow> r = Inr x"
  by (simp add: mfg_money_def)

lemma dec_op_Inr [simp]: "dec_op x = Inr d \<longleftrightarrow> x = Some d"
  by (simp add: dec_op_def)

section \<open>Positions\<close>

lemma find_material_facts:
  "find_material s company i = Some m \<Longrightarrow> (company, m) \<in> set (sh_materials s) \<and> mt_material_id m = i"
  unfolding find_material_def by (drule find_map_Some) (simp add: of_company_set)

lemma set_position_run:
  assumes "set_material_position company i avg q v s = (Inr u, s')"
  shows "s' = s\<lparr>sh_materials := update_rows company (\<lambda>m. mt_material_id m = i)
    (\<lambda>m. m\<lparr>mt_avg_cost := avg, mt_qty_on_hand := decimal_to_text q, mt_total_value := v\<rparr>) (sh_materials s)\<rparr>"
  using assms by (simp add: set_material_position_def)

lemma of_company_update:
  "of_company c (update_rows c P f t) = map (\<lambda>r. if P r then f r else r) (of_company c t)"
  by (induction t) (auto simp: update_rows_def)

lemma find_map_update:
  assumes "\<And>r. k (f r) = k r"
  shows "find_map (\<lambda>r. k r = i) (map (\<lambda>r. if k r = j then f r else r) rows) =
    (if i = j then map_option f (find_map (\<lambda>r. k r = i) rows) else find_map (\<lambda>r. k r = i) rows)"
  by (induction rows) (auto simp: assms)

lemma find_after_position:
  assumes "set_material_position company i avg q v s = (Inr u, s')"
  shows "find_material s' company j = (if j = i then map_option
      (\<lambda>m. m\<lparr>mt_avg_cost := avg, mt_qty_on_hand := decimal_to_text q, mt_total_value := v\<rparr>) (find_material s company j)
    else find_material s company j)"
  unfolding set_position_run[OF assms] find_material_def
  by (simp add: of_company_update find_map_update[where k = mt_material_id])

lemma update_rows_keys:
  assumes "\<And>r. k (f r) = k r"
  shows "map (\<lambda>(c, r). (c, k r)) (update_rows company P f t) = map (\<lambda>(c, r). (c, k r)) t"
  by (induction t) (auto simp: update_rows_def assms)

lemma keyed_after_position:
  "set_material_position company i avg q v s = (Inr u, s') \<Longrightarrow> materials_keyed s' = materials_keyed s"
  by (drule set_position_run) (simp add: materials_keyed_def update_rows_keys[where k = mt_material_id])

lemma keyed_company: "materials_keyed s \<Longrightarrow> distinct (map mt_material_id (of_company company (sh_materials s)))"
proof -
  assume "materials_keyed s"
  then have "distinct (filter (\<lambda>p. fst p = company) (map (\<lambda>(c, m). (c, mt_material_id m)) (sh_materials s)))"
    by (simp add: materials_keyed_def)
  moreover have "filter (\<lambda>p. fst p = company) (map (\<lambda>(c, m). (c, mt_material_id m)) t) =
      map (Pair company) (map mt_material_id (of_company company t))" for t
    by (induction t) auto
  ultimately have "distinct (map (Pair company) (map mt_material_id (of_company company (sh_materials s))))" by metis
  then show ?thesis using distinct_map by blast
qed

lemma sum_update_keyed:
  assumes "distinct (map k rows)" "find_map (\<lambda>r. k r = i) rows = Some r"
  shows "(\<Sum>r\<leftarrow>map (\<lambda>r. if k r = i then f r else r) rows. (w r :: int)) = (\<Sum>r\<leftarrow>rows. w r) - w r + w (f r)"
  using assms
proof (induction rows)
  case (Cons x rows)
  have away: "map (\<lambda>r. if k r = i then f r else r) rows = rows" if "k x = i"
    using Cons.prems(1) that by (intro map_idI) (auto simp: image_iff)
  show ?case
  proof (cases "k x = i")
    case True
    with Cons.prems(2) have "r = x" by simp
    then show ?thesis using True away[OF True] by (simp del: map_map)
  next
    case False
    with Cons show ?thesis by simp
  qed
qed simp

lemma stock_after_position:
  assumes "set_material_position company i avg q v s = (Inr u, s')" "materials_keyed s" "find_material s company i = Some m"
  shows "stock_cents s' company = stock_cents s company - cents (mt_total_value m) + cents v"
  unfolding set_position_run[OF assms(1)] stock_cents_def
  using sum_update_keyed[OF keyed_company[OF assms(2), of company] assms(3)[unfolded find_material_def],
      where w = "\<lambda>m. cents (mt_total_value m)"]
  by (simp add: of_company_update)

lemma books_after_position: "set_material_position company i avg q v s = (Inr u, s') \<Longrightarrow> sh_books s' = sh_books s"
  by (drule set_position_run) simp

section \<open>Saving and posting\<close>

lemma account_net_sum: "account_net a ls = (\<Sum>l\<leftarrow>ls. if jl_account l = a then line_net l else 0)"
  by (induction ls) simp_all

lemma book_cents_with_posted:
  assumes refs: "journal_references_ok db" and fresh: "(company, i) \<notin> entry_key ` set (db_journal_entries db)"
  shows "book_cents (with_posted company i e now db) company number =
    book_cents db company number + account_net (AccountId number) (je_lines e)"
proof -
  let ?f = "\<lambda>l. if jl_account l = AccountId number then line_net l else 0"
  have old: "lines_of (with_posted company i e now db) (entry_key r) = lines_of db (entry_key r)"
    if "r \<in> set (db_journal_entries db)" for r
  proof -
    have "entry_key r \<noteq> (company, i)" using that fresh by (metis image_eqI)
    then show ?thesis by (simp add: lines_of_with_posted[OF refs fresh])
  qed
  have new: "lines_of (with_posted company i e now db) (company, i) = map (line_row_of company i) (je_lines e)"
    by (simp add: lines_of_with_posted[OF refs fresh])
  have "(\<Sum>r\<leftarrow>filter P (db_journal_entries db). \<Sum>l\<leftarrow>lines_of (with_posted company i e now db) (entry_key r). ?f (ln_line l)) =
      (\<Sum>r\<leftarrow>filter P (db_journal_entries db). \<Sum>l\<leftarrow>lines_of db (entry_key r). ?f (ln_line l))" for P
    using old by (intro arg_cong[where f = sum_list] map_cong) auto
  then show ?thesis
    unfolding book_cents_def account_net_sum posted_lines_sum by (simp add: new o_def cong: if_cong)
qed

text \<open>
  \<open>record_document\<close> changes the books alone, keeps them sound, and moves every account by what the
  posting rule's legs come to on it.
\<close>

lemma record_document_facts:
  assumes run: "record_document E company doc kind ids now s = (Inr i, s')"
    and ok: "book_sound (sh_books s)" and live: "\<not> doc_is_voided doc"
  obtains db legs where "s' = s\<lparr>sh_books := db\<rparr>" "book_sound db" "post_legs (me_dec E) doc default_context = Inr legs"
    "legs \<noteq> []" "\<exists>l \<in> set legs. cents (leg_amount l) \<noteq> 0"
    "\<And>number. book_cents db company number = book_cents (sh_books s) company number + leg_net (AccountId number) legs"
proof -
  from run obtain version d1 e d2 where steps:
    "save_document (me_to_json E) company doc \<lparr>cm_actor_id = ''dan'', cm_kind = kind, cm_hlc = me_rfc3339 E now\<rparr>
       (fi_command ids) now (sh_books s) = (Inr version, d1)"
    "entry_or_panic (post (me_debug E) (me_dec E) doc (vi_version version) default_context) = Inr e"
    "post_entry company e (fi_entry ids) now d1 = (Inr i, d2)" "s' = s\<lparr>sh_books := d2\<rparr>"
    unfolding record_document_def by (auto simp: books_Inr)
  have sound1: "book_sound d1"
    using obeysD[OF save_document.history steps(1)] ok by (simp add: keeps_history_def)
  have sound2: "book_sound d2"
    using obeysD[OF post_entry.history steps(3)] sound1 by (simp add: keeps_history_def)
  have posted: "post (me_debug E) (me_dec E) doc (vi_version version) default_context = Inr (Entry e)"
    using steps(2) by (auto simp: entry_or_panic_def split: sum.splits failure.splits posting.splits)
  obtain legs where legs: "post_legs (me_dec E) doc default_context = Inr legs" "\<And>a. account_net a (je_lines e) = leg_net a legs"
    using post_entry_nets[OF posted live] by auto
  obtain ls where ls: "merge_legs legs = Inr ls" "ls \<noteq> []"
    using posted legs(1) by (auto simp: post_Entry_iff)
  have some: "\<exists>l \<in> set legs. cents (leg_amount l) \<noteq> 0"
    using ls merge_legs_Nil_iff[of legs] by (auto simp: is_zero_cents list_all_iff)
  note acc = post_entry_accepted[OF steps(3)]
  have refs: "journal_references_ok d1" using sound1 by (simp add: book_sound_def journal_ok_def)
  have "book_cents d1 company number = book_cents (sh_books s) company number" for number
    using save_keeps_journal[OF steps(1)] by (simp add: book_cents_def posted_lines_def posted_join_def)
  then have "book_cents d2 company number = book_cents (sh_books s) company number + leg_net (AccountId number) legs" for number
    unfolding acc(2) book_cents_with_posted[OF refs acc(7)] legs(2) by simp
  with that steps(4) sound2 legs(1) some show thesis by fastforce
qed

section \<open>Receipts\<close>

text \<open>One line of a receipt, on materials read before the loop.\<close>

lemma receive_line_facts:
  assumes run: "receive_line E company receipt ids (tot, received) (line, m, no, freight) s = (Inr (tot', received'), s')"
    and keyed: "materials_keyed s" and found: "find_material s company (mt_material_id m) = Some cur"
  obtains landed where "cents tot' = cents tot + cents landed" "cents landed = cents (ml_base_cost line) + cents freight"
    "sh_books s' = sh_books s" "materials_keyed s'"
    "stock_cents s' company = stock_cents s company - cents (mt_total_value cur) + cents (mt_total_value m) + cents landed"
    "\<And>j. j \<noteq> mt_material_id m \<Longrightarrow> find_material s' company j = find_material s company j"
    "\<exists>m'. find_material s' company (mt_material_id m) = Some m' \<and> mt_material_id m' = mt_material_id m \<and>
       cents (mt_total_value m') = cents (mt_total_value m) + cents landed"
    "\<exists>avg q. received' = received @ [\<lparr>rv_material_id = mt_material_id m, rv_lot_id = fi_lot ids no,
       rv_freight_alloc = freight, rv_landed_cost = landed, rv_new_avg_cost = avg, rv_new_qty_on_hand = q\<rparr>]"
proof -
  from run obtain landed q new_qty v avg s1 where steps: "checked_add (ml_base_cost line) freight = Inr landed"
    "checked_add tot landed = Inr tot'" "checked_add (mt_total_value m) landed = Inr v"
    "set_material_position company (mt_material_id m) avg new_qty v s = (Inr (), s1)"
    "insert_material_lot company \<lparr>lo_lot_id = fi_lot ids no, lo_material_id = mt_material_id m,
       lo_received_on = mr_received_on receipt, lo_qty = decimal_to_text q, lo_base_cost = ml_base_cost line,
       lo_freight_alloc = freight, lo_landed_cost = landed, lo_po_ref = mr_po_ref receipt,
       lo_vendor_ref = mr_vendor_ref receipt\<rparr> s1 = Inr s'"
    "received' = received @ [\<lparr>rv_material_id = mt_material_id m, rv_lot_id = fi_lot ids no,
       rv_freight_alloc = freight, rv_landed_cost = landed, rv_new_avg_cost = avg, rv_new_qty_on_hand = new_qty\<rparr>]"
    unfolding receive_line_def by auto
  have s': "sh_books s' = sh_books s1" "sh_materials s' = sh_materials s1"
    using steps(5) by (auto simp: insert_material_lot_def split: if_splits)
  have same: "find_material s' c j = find_material s1 c j" "materials_keyed s' = materials_keyed s1"
    "stock_cents s' c = stock_cents s1 c" for c j
    using s'(2) by (simp_all add: find_material_def materials_keyed_def stock_cents_def)
  show thesis
  proof (rule that[of landed])
    show "cents tot' = cents tot + cents landed" "cents landed = cents (ml_base_cost line) + cents freight"
      using steps(1,2) by (simp_all add: checked_add_Inr)
    show "sh_books s' = sh_books s" "materials_keyed s'"
      using s'(1) same(2) keyed keyed_after_position[OF steps(4)] books_after_position[OF steps(4)] by simp_all
    show "stock_cents s' company = stock_cents s company - cents (mt_total_value cur) + cents (mt_total_value m) + cents landed"
      using stock_after_position[OF steps(4) keyed found] steps(3) same(3) by (simp add: checked_add_Inr)
    show "find_material s' company j = find_material s company j" if "j \<noteq> mt_material_id m" for j
      using find_after_position[OF steps(4), of j] that same(1) by simp
    show "\<exists>m'. find_material s' company (mt_material_id m) = Some m' \<and> mt_material_id m' = mt_material_id m \<and>
       cents (mt_total_value m') = cents (mt_total_value m) + cents landed"
      using find_after_position[OF steps(4), of "mt_material_id m"] found find_material_facts[OF found] steps(3) same(1)
      by (simp add: checked_add_Inr)
  qed (use steps(6) in blast)
qed

lemma receive_lines_stock:
  assumes "run_fold (receive_line E company receipt ids) (tot, received) steps s = (Inr (tot', received'), s')"
    and "materials_keyed s" "distinct (map (\<lambda>(_, m, _). mt_material_id m) steps)"
    and "\<And>l m a. (l, m, a) \<in> set steps \<Longrightarrow> find_material s company (mt_material_id m) = Some m"
  shows "sh_books s' = sh_books s \<and> materials_keyed s' \<and>
    stock_cents s' company - stock_cents s company = cents tot' - cents tot"
  using assms
proof (induction steps arbitrary: tot received s)
  case (Cons step steps)
  obtain l m no a where step: "step = (l, m, no, a)" by (cases step)
  from Cons.prems(1) obtain tot1 received1 s1 where run:
    "receive_line E company receipt ids (tot, received) (l, m, no, a) s = (Inr (tot1, received1), s1)"
    "run_fold (receive_line E company receipt ids) (tot1, received1) steps s1 = (Inr (tot', received'), s')"
    unfolding step by auto
  have found: "find_material s company (mt_material_id m) = Some m" using Cons.prems(4)[of l m "(no, a)"] step by simp
  obtain landed where facts: "cents tot1 = cents tot + cents landed" "sh_books s1 = sh_books s" "materials_keyed s1"
    "stock_cents s1 company = stock_cents s company - cents (mt_total_value m) + cents (mt_total_value m) + cents landed"
    "\<And>j. j \<noteq> mt_material_id m \<Longrightarrow> find_material s1 company j = find_material s company j"
    by (rule receive_line_facts[OF run(1) Cons.prems(2) found]) (rule that)
  have later: "find_material s1 company (mt_material_id m2) = Some m2" if "(l2, m2, a2) \<in> set steps" for l2 m2 a2
  proof -
    have "mt_material_id m2 \<noteq> mt_material_id m" using Cons.prems(3) that by (force simp: step)
    then show ?thesis using facts(5) Cons.prems(4)[of l2 m2 a2] that by simp
  qed
  have "sh_books s' = sh_books s1 \<and> materials_keyed s' \<and> stock_cents s' company - stock_cents s1 company = cents tot' - cents tot1"
    using Cons.prems(3) later by (intro Cons.IH[OF run(2) facts(3)]) auto
  then show ?case using facts by simp
qed simp

lemma receipt_legs:
  assumes "post_legs D (receipt_document receipt tot uuid) ctx = Inr legs"
  shows "legs = [debit (acct INVENTORY_RAW) tot None None, credit (acct INVENTORY_RECEIVED_NOT_BILLED) tot None None]"
  using assms
  by (simp add: post_legs_def receipt_document_def shop_document_def post_raw_material_receipt_def named_account_amount_def
      is_account_named_def account_line_def)

lemma receive_materials_steps:
  assumes "receive_materials E company receipt ids now s = (Inr r, s')"
  obtains materials allocation tot received s1 where
    "list_all2 (\<lambda>line m. find_material s company (ml_material_id line) = Some m) (mr_lines receipt) materials"
    "allocate_freight (me_debug E) (me_dec E) (map2 receipt_line_of (mr_lines receipt) materials) (mr_freight receipt) = Inr allocation"
    "run_fold (receive_line E company receipt ids) (ZERO, []) (zip (mr_lines receipt) (zip materials allocation)) s = (Inr (tot, received), s1)"
    "record_document E company (receipt_document receipt tot (fi_document ids)) ''receive_materials'' ids now s1 = (Inr (rr_entry_id r), s')"
    "rr_total_landed r = tot" "rr_lines r = received"
  using assms unfolding receive_materials_def
  by (auto simp: try_map_Inr_iff split: if_splits)

lemma zip_middle: "length ls = length ms \<Longrightarrow> map (\<lambda>(_, m, _). f m) (zip ls (zip ms as)) = take (length as) (map f ms)"
proof (induction ls ms arbitrary: as rule: list_induct2)
  case (Cons l ls m ms)
  then show ?case by (cases as) simp_all
qed simp

lemma receipt_steps_found:
  assumes all: "list_all2 (\<lambda>line m. find_material s company (ml_material_id line) = Some m) ls ms"
  shows "(l, m, a) \<in> set (zip ls (zip ms as)) \<Longrightarrow> find_material s company (mt_material_id m) = Some m"
    "distinct (map ml_material_id ls) \<Longrightarrow> distinct (map (\<lambda>(_, m, _). mt_material_id m) (zip ls (zip ms as)))"
proof -
  have ids: "map mt_material_id ms = map ml_material_id ls"
    using all by (induction rule: list_all2_induct) (auto dest: find_material_facts)
  have pairs: "list_all2 (\<lambda>l m. find_material s company (ml_material_id l) = Some m \<and> mt_material_id m = ml_material_id l) ls ms"
    using all by (rule list_all2_mono) (auto dest: find_material_facts)
  show "find_material s company (mt_material_id m) = Some m" if "(l, m, a) \<in> set (zip ls (zip ms as))"
  proof -
    from that obtain n where n: "n < length ls" "n < length ms" "l = ls ! n" "m = ms ! n"
      by (auto simp: in_set_zip)
    show ?thesis using list_all2_nthD[OF pairs n(1)] n(3,4) by simp
  qed
  have "map (\<lambda>(_, m, _). mt_material_id m) (zip ls (zip ms as)) = take (length as) (map ml_material_id ls)"
    unfolding ids[symmetric] by (rule zip_middle[OF list_all2_lengthD[OF all]])
  then show "distinct (map (\<lambda>(_, m, _). mt_material_id m) (zip ls (zip ms as)))" if "distinct (map ml_material_id ls)"
    using that by (metis distinct_take)
qed

lemma receipt_facts:
  assumes run: "receive_materials E company receipt ids now s = (Inr r, s')"
    and ok: "shop_ok s" and once: "distinct (map ml_material_id (mr_lines receipt))"
  shows "shop_ok s'" "stock_cents s' company = stock_cents s company + cents (rr_total_landed r)"
    "book_cents (sh_books s') company number = book_cents (sh_books s) company number +
       (if number = INVENTORY_RAW then cents (rr_total_landed r) else 0) -
       (if number = INVENTORY_RECEIVED_NOT_BILLED then cents (rr_total_landed r) else 0)"
    "cents (rr_total_landed r) \<noteq> 0"
proof -
  obtain materials allocation tot received s1 where steps:
    "list_all2 (\<lambda>line m. find_material s company (ml_material_id line) = Some m) (mr_lines receipt) materials"
    "run_fold (receive_line E company receipt ids) (ZERO, []) (zip (mr_lines receipt) (zip materials allocation)) s = (Inr (tot, received), s1)"
    "record_document E company (receipt_document receipt tot (fi_document ids)) ''receive_materials'' ids now s1 = (Inr (rr_entry_id r), s')"
    "rr_total_landed r = tot"
    using receive_materials_steps[OF run] by metis
  note found = receipt_steps_found[OF steps(1)]
  have keyed: "materials_keyed s" using ok by (simp add: shop_ok_def)
  have "sh_books s1 = sh_books s \<and> materials_keyed s1 \<and> stock_cents s1 company - stock_cents s company = cents tot - cents ZERO"
    by (rule receive_lines_stock[OF steps(2) keyed found(2)[OF once]]) (rule found(1))
  then have loop: "sh_books s1 = sh_books s" "materials_keyed s1" "stock_cents s1 company - stock_cents s company = cents tot"
    by simp_all
  have sound: "book_sound (sh_books s1)" using loop(1) ok by (simp add: shop_ok_def)
  have live: "\<not> doc_is_voided (receipt_document receipt tot (fi_document ids))"
    by (simp add: receipt_document_def shop_document_def)
  obtain db legs where rec: "s' = s1\<lparr>sh_books := db\<rparr>" "book_sound db"
    "post_legs (me_dec E) (receipt_document receipt tot (fi_document ids)) default_context = Inr legs"
    "\<exists>l \<in> set legs. cents (leg_amount l) \<noteq> 0"
    "\<And>number. book_cents db company number = book_cents (sh_books s1) company number + leg_net (AccountId number) legs"
    by (rule record_document_facts[OF steps(3) sound live]) (rule that)
  note legs = receipt_legs[OF rec(3)]
  show "shop_ok s'" using rec(1,2) loop(2) by (simp add: shop_ok_def materials_keyed_def)
  show "stock_cents s' company = stock_cents s company + cents (rr_total_landed r)"
    using loop(3) steps(4) rec(1) by (simp add: stock_cents_def)
  show "book_cents (sh_books s') company number = book_cents (sh_books s) company number +
       (if number = INVENTORY_RAW then cents (rr_total_landed r) else 0) -
       (if number = INVENTORY_RECEIVED_NOT_BILLED then cents (rr_total_landed r) else 0)"
    using rec(5)[of number] rec(1) loop(1) steps(4) by (simp add: legs acct_def chart_numbers)
  show "cents (rr_total_landed r) \<noteq> 0" using rec(4) steps(4) by (simp add: legs)
qed

section \<open>Builds\<close>

lemma load_materials_found:
  assumes "load_materials s company sheet = Inr materials" "materials i = Some m"
  shows "find_material s company i = Some m"
proof -
  have "\<forall>j x. materials j = Some x \<longrightarrow> find_material s company j = Some x"
    using assms(1) unfolding load_materials_def
    by (rule try_fold_invariant) (auto simp: load_material_def split: option.splits if_splits)
  then show ?thesis using assms(2) by blast
qed

lemma price_consumptions:
  assumes "try_fold (price_consumption D materials) (tot, priced) cs = Inr (tot', priced')"
  shows "\<exists>new. priced' = priced @ new \<and> map (\<lambda>(i, q, _). (i, q)) new = cs \<and>
    cents tot' = cents tot + (\<Sum>(_, _, c)\<leftarrow>new. cents c)"
  using assms
proof (induction cs arbitrary: tot priced)
  case (Cons x cs)
  obtain i q where x: "x = (i, q)" by (cases x)
  from Cons.prems obtain st where st: "price_consumption D materials (tot, priced) (i, q) = Inr st"
    "try_fold (price_consumption D materials) st cs = Inr (tot', priced')" by (auto simp: x)
  from st(1) obtain tot1 c where c: "checked_add tot c = Inr tot1" "st = (tot1, priced @ [(i, q, c)])"
    by (auto simp: price_consumption_def)
  from Cons.IH[OF st(2)[unfolded c(2)]] obtain new where "priced' = (priced @ [(i, q, c)]) @ new"
    "map (\<lambda>(i, q, _). (i, q)) new = cs" "cents tot' = cents tot1 + (\<Sum>(_, _, c)\<leftarrow>new. cents c)" by blast
  then show ?case using c(1) by (intro exI[of _ "(i, q, c) # new"]) (simp add: x checked_add_Inr)
qed simp

lemma relieve_facts:
  assumes run: "relieve D company materials (i, q, c) s = (Inr u, s')" and keyed: "materials_keyed s"
    and found: "\<And>m. materials i = Some m \<Longrightarrow> find_material s company i = Some m"
  shows "sh_books s' = sh_books s" "materials_keyed s'" "stock_cents s' company = stock_cents s company - cents c"
    "j \<noteq> i \<Longrightarrow> find_material s' company j = find_material s company j"
proof -
  from run obtain m new_qty v avg where steps: "materials i = Some m" "checked_sub (mt_total_value m) c = Inr v"
    "set_material_position company i avg new_qty v s = (Inr u, s')"
    unfolding relieve_def by auto
  show "sh_books s' = sh_books s" "materials_keyed s'"
    using keyed_after_position[OF steps(3)] books_after_position[OF steps(3)] keyed by simp_all
  show "stock_cents s' company = stock_cents s company - cents c"
    using stock_after_position[OF steps(3) keyed found[OF steps(1)]] steps(2) by (simp add: checked_sub_Inr)
  show "j \<noteq> i \<Longrightarrow> find_material s' company j = find_material s company j"
    using find_after_position[OF steps(3), of j] by simp
qed

lemma relieve_all:
  assumes "run_each (relieve D company materials) cs s = (Inr u, s')" "materials_keyed s"
    and "distinct (map fst cs)"
    and "\<And>i m. i \<in> fst ` set cs \<Longrightarrow> materials i = Some m \<Longrightarrow> find_material s company i = Some m"
  shows "sh_books s' = sh_books s \<and> materials_keyed s' \<and>
    stock_cents s' company = stock_cents s company - (\<Sum>(_, _, c)\<leftarrow>cs. cents c)"
  using assms
proof (induction cs arbitrary: s)
  case (Cons x cs)
  obtain i q c where x: "x = (i, q, c)" by (cases x)
  from Cons.prems(1) obtain s1 where run: "relieve D company materials (i, q, c) s = (Inr (), s1)"
    "run_each (relieve D company materials) cs s1 = (Inr u, s')" by (auto simp: x)
  have "find_material s company i = Some m" if "materials i = Some m" for m
    using Cons.prems(4)[of i m] that by (simp add: x)
  note facts = relieve_facts[OF run(1) Cons.prems(2) this]
  have later: "find_material s1 company j = Some m" if "j \<in> fst ` set cs" "materials j = Some m" for j m
  proof -
    have "j \<noteq> i" using Cons.prems(3) that(1) by (auto simp: x)
    then show ?thesis using facts(4)[of j] Cons.prems(4)[of j m] that by simp
  qed
  have "sh_books s' = sh_books s1 \<and> materials_keyed s' \<and>
      stock_cents s' company = stock_cents s1 company - (\<Sum>(_, _, c)\<leftarrow>cs. cents c)"
    using Cons.prems(3) by (intro Cons.IH[OF run(2)]) (simp_all add: facts(2) later)
  then show ?case using facts(1,3) by (simp add: x)
qed simp

definition same_stock :: "shop \<Rightarrow> shop \<Rightarrow> bool" where
  "same_stock s s' \<longleftrightarrow> sh_books s' = sh_books s \<and> sh_materials s' = sh_materials s"

lemma same_stock_refl: "same_stock s s"
  by (simp add: same_stock_def)

lemma same_stock_each:
  assumes "run_each f xs s = (Inr u, s')" "\<And>x t t'. f x t = (Inr (), t') \<Longrightarrow> same_stock t t'"
  shows "same_stock s s'"
  using assms(1)
proof (induction xs arbitrary: s)
  case (Cons x xs)
  then obtain s1 where run: "f x s = (Inr (), s1)" "run_each f xs s1 = (Inr u, s')" by auto
  from assms(2)[OF run(1)] Cons.IH[OF run(2)] show ?case by (simp add: same_stock_def)
qed (simp add: same_stock_refl)

lemma insert_build_stock: "insert_build company row s = Inr s' \<Longrightarrow> same_stock s s'"
  by (auto simp: insert_build_def same_stock_def split: if_splits)

lemma insert_consumption_stock: "insert_build_consumption company row s = Inr s' \<Longrightarrow> same_stock s s'"
  by (auto simp: insert_build_consumption_def same_stock_def split: if_splits)

lemma build_legs:
  assumes "post_legs D (build_document build figures uuid) ctx = Inr legs"
  shows "leg_net (acct INVENTORY_FINISHED) legs = cents (fg_finished figures)"
    "leg_net (acct INVENTORY_RAW) legs = - cents (fg_actual_material figures)"
    "leg_net (acct PARTS_LABOUR_APPLIED) legs = - cents (fg_applied figures)"
    "leg_net (acct MANUFACTURING_VARIANCE) legs =
       - (cents (fg_finished figures) - cents (fg_actual_material figures) - cents (fg_applied figures))"
proof -
  from assms obtain rest variance where v: "checked_sub (fg_finished figures) (fg_actual_material figures) = Inr rest"
    "checked_sub rest (fg_applied figures) = Inr variance"
    and tail: "(\<exists>overrun. is_negative variance \<and> checked_neg variance = Inr overrun \<and>
        legs = [debit (acct INVENTORY_FINISHED) (fg_finished figures) None None,
                credit (acct INVENTORY_RAW) (fg_actual_material figures) None None,
                credit (acct PARTS_LABOUR_APPLIED) (fg_applied figures) (Some (nw_class build)) None,
                debit (acct MANUFACTURING_VARIANCE) overrun (Some (nw_class build)) None]) \<or>
      (\<not> is_negative variance \<and> legs = [debit (acct INVENTORY_FINISHED) (fg_finished figures) None None,
                credit (acct INVENTORY_RAW) (fg_actual_material figures) None None,
                credit (acct PARTS_LABOUR_APPLIED) (fg_applied figures) (Some (nw_class build)) None] @
         (if is_zero variance then [] else [credit (acct MANUFACTURING_VARIANCE) variance (Some (nw_class build)) None]))"
    by (auto simp: post_legs_def build_document_def shop_document_def post_build_def named_account_amount_def
        is_account_named_def account_line_def chart_numbers Let_def split: if_splits)
  have var: "cents variance = cents (fg_finished figures) - cents (fg_actual_material figures) - cents (fg_applied figures)"
    using v by (simp add: checked_sub_Inr)
  from tail var show "leg_net (acct INVENTORY_FINISHED) legs = cents (fg_finished figures)"
    "leg_net (acct INVENTORY_RAW) legs = - cents (fg_actual_material figures)"
    "leg_net (acct PARTS_LABOUR_APPLIED) legs = - cents (fg_applied figures)"
    "leg_net (acct MANUFACTURING_VARIANCE) legs =
       - (cents (fg_finished figures) - cents (fg_actual_material figures) - cents (fg_applied figures))"
    by (auto simp: acct_def chart_numbers checked_neg_Inr is_zero_cents)
qed

lemma complete_build_steps:
  assumes "complete_build E company build ids now s = (Inr r, s')"
  obtains sheet materials figures s1 s2 where
    "load_materials s company sheet = Inr materials"
    "build_figures (me_dec E) sheet materials build = Inr figures"
    "record_document E company (build_document build figures (fi_document ids)) ''complete_build'' ids now s = (Inr (br_entry_id r), s1)"
    "run_each (relieve (me_dec E) company materials) (fg_consumptions figures) s1 = (Inr (), s2)" "same_stock s2 s'"
    "br_standard_cost r = fg_finished figures" "br_actual_material r = fg_actual_material figures"
    "br_applied r = fg_applied figures" "br_variance r = fg_variance figures"
proof -
  from assms obtain sheet materials figures entry_id s1 s2 s3 row where steps:
    "load_materials s company sheet = Inr materials"
    "build_figures (me_dec E) sheet materials build = Inr figures"
    "record_document E company (build_document build figures (fi_document ids)) ''complete_build'' ids now s = (Inr entry_id, s1)"
    "run_each (relieve (me_dec E) company materials) (fg_consumptions figures) s1 = (Inr (), s2)"
    "insert_build company row s2 = Inr s3"
    "run_each (\<lambda>(i, material_id, qty_actual, cost). shop_sql (insert_build_consumption company
         \<lparr>cs_build_id = fi_build ids, cs_line_no = int i + 1, cs_material_id = material_id,
          cs_qty_actual = decimal_to_text qty_actual, cs_cost = cost\<rparr>))
       (enumerate 0 (fg_consumptions figures)) s3 = (Inr (), s')"
    "r = \<lparr>br_build_id = fi_build ids, br_entry_id = entry_id, br_standard_cost = fg_finished figures,
          br_actual_material = fg_actual_material figures, br_applied = fg_applied figures,
          br_variance = fg_variance figures, br_actual_labour = fg_actual_labour figures\<rparr>"
    unfolding complete_build_def by auto
  have "same_stock s3 s'"
    by (rule same_stock_each[OF steps(6)]) (auto dest: insert_consumption_stock split: prod.splits)
  with insert_build_stock[OF steps(5)] have "same_stock s2 s'" by (simp add: same_stock_def)
  with that[OF steps(1,2) _ steps(4)] steps(3,7) show thesis by simp
qed

lemma build_figures_facts:
  assumes "build_figures D sheet materials build = Inr figures"
  shows "map (\<lambda>(i, q, _). (i, q)) (fg_consumptions figures) = nw_consumptions build"
    "cents (fg_actual_material figures) = (\<Sum>(_, _, c)\<leftarrow>fg_consumptions figures. cents c)"
    "cents (fg_variance figures) = cents (fg_finished figures) - cents (fg_actual_material figures) - cents (fg_applied figures)"
proof -
  from assms obtain actual priced rest where steps:
    "try_fold (price_consumption D materials) (ZERO, []) (nw_consumptions build) = Inr (actual, priced)"
    "checked_sub (fg_finished figures) actual = Inr rest" "checked_sub rest (fg_applied figures) = Inr (fg_variance figures)"
    "fg_actual_material figures = actual" "fg_consumptions figures = priced"
    unfolding build_figures_def by auto
  from price_consumptions[OF steps(1)] steps(4,5)
  show "map (\<lambda>(i, q, _). (i, q)) (fg_consumptions figures) = nw_consumptions build"
    "cents (fg_actual_material figures) = (\<Sum>(_, _, c)\<leftarrow>fg_consumptions figures. cents c)" by auto
  show "cents (fg_variance figures) = cents (fg_finished figures) - cents (fg_actual_material figures) - cents (fg_applied figures)"
    using steps(2-4) by (simp add: checked_sub_Inr)
qed

lemma build_facts:
  assumes run: "complete_build E company build ids now s = (Inr r, s')"
    and ok: "shop_ok s" and once: "distinct (map fst (nw_consumptions build))"
  shows "shop_ok s'" "stock_cents s' company = stock_cents s company - cents (br_actual_material r)"
    "book_cents (sh_books s') company INVENTORY_FINISHED = book_cents (sh_books s) company INVENTORY_FINISHED + cents (br_standard_cost r)"
    "book_cents (sh_books s') company INVENTORY_RAW = book_cents (sh_books s) company INVENTORY_RAW - cents (br_actual_material r)"
    "book_cents (sh_books s') company PARTS_LABOUR_APPLIED = book_cents (sh_books s) company PARTS_LABOUR_APPLIED - cents (br_applied r)"
    "book_cents (sh_books s') company MANUFACTURING_VARIANCE = book_cents (sh_books s) company MANUFACTURING_VARIANCE - cents (br_variance r)"
    "cents (br_standard_cost r) = cents (br_actual_material r) + cents (br_applied r) + cents (br_variance r)"
proof -
  obtain sheet materials figures s1 s2 where steps:
    "load_materials s company sheet = Inr materials"
    "build_figures (me_dec E) sheet materials build = Inr figures"
    "record_document E company (build_document build figures (fi_document ids)) ''complete_build'' ids now s = (Inr (br_entry_id r), s1)"
    "run_each (relieve (me_dec E) company materials) (fg_consumptions figures) s1 = (Inr (), s2)" "same_stock s2 s'"
    "br_standard_cost r = fg_finished figures" "br_actual_material r = fg_actual_material figures"
    "br_applied r = fg_applied figures" "br_variance r = fg_variance figures"
    by (rule complete_build_steps[OF run]) (rule that)
  note fig = build_figures_facts[OF steps(2)]
  have sound: "book_sound (sh_books s)" "materials_keyed s" using ok by (simp_all add: shop_ok_def)
  have live: "\<not> doc_is_voided (build_document build figures (fi_document ids))"
    by (simp add: build_document_def shop_document_def)
  obtain db legs where rec: "s1 = s\<lparr>sh_books := db\<rparr>" "book_sound db"
    "post_legs (me_dec E) (build_document build figures (fi_document ids)) default_context = Inr legs"
    "\<And>number. book_cents db company number = book_cents (sh_books s) company number + leg_net (AccountId number) legs"
    by (rule record_document_facts[OF steps(3) sound(1) live]) (rule that)
  have same: "find_material s1 company i = find_material s company i" "materials_keyed s1" "stock_cents s1 company = stock_cents s company" for i
    using sound(2) by (simp_all add: rec(1) find_material_def materials_keyed_def stock_cents_def)
  have "map fst (fg_consumptions figures) = map fst (nw_consumptions build)"
    unfolding fig(1)[symmetric] by (simp add: o_def case_prod_beta)
  then have "distinct (map fst (fg_consumptions figures))" using once by simp
  then have "sh_books s2 = sh_books s1 \<and> materials_keyed s2 \<and>
      stock_cents s2 company = stock_cents s1 company - (\<Sum>(_, _, c)\<leftarrow>fg_consumptions figures. cents c)"
    by (rule relieve_all[OF steps(4) same(2)]) (simp add: same(1) load_materials_found[OF steps(1)])
  then have after: "sh_books s' = db" "materials_keyed s'"
    "stock_cents s' company = stock_cents s company - cents (br_actual_material r)"
    using steps(5,7) rec(1) same(3) fig(2) by (simp_all add: same_stock_def materials_keyed_def stock_cents_def)
  show "shop_ok s'" using after(1,2) rec(2) by (simp add: shop_ok_def)
  show "stock_cents s' company = stock_cents s company - cents (br_actual_material r)" by (rule after(3))
  note legs = build_legs[OF rec(3), unfolded acct_def]
  show "book_cents (sh_books s') company INVENTORY_FINISHED = book_cents (sh_books s) company INVENTORY_FINISHED + cents (br_standard_cost r)"
    "book_cents (sh_books s') company INVENTORY_RAW = book_cents (sh_books s) company INVENTORY_RAW - cents (br_actual_material r)"
    "book_cents (sh_books s') company PARTS_LABOUR_APPLIED = book_cents (sh_books s) company PARTS_LABOUR_APPLIED - cents (br_applied r)"
    "book_cents (sh_books s') company MANUFACTURING_VARIANCE = book_cents (sh_books s) company MANUFACTURING_VARIANCE - cents (br_variance r)"
    unfolding after(1) rec(4) legs steps(6-9) fig(3) by simp_all
  show "cents (br_standard_cost r) = cents (br_actual_material r) + cents (br_applied r) + cents (br_variance r)"
    using fig(3) steps(6-9) by simp
qed

end
