(* ===== verification/Mfg_Outcome.thy ===== *)
theory Mfg_Outcome
  imports Mfg_Facts
begin

text \<open>
  The outcome of manufacturing costing: the stock agrees with account 1300 through every sequence
  of operations that names each material once, what becomes of a receipt that names one twice, and
  what a posting that moves nothing does.
\<close>

section \<open>A workshop at work\<close>

text \<open>
  What a company's shop goes through: materials and sheets are added, receipts and builds that name
  each material once go through, finished goods are counted. A step that fails before it has
  written anything leaves the shop as it is and is not one.
\<close>

inductive workshop :: "mfg_env \<Rightarrow> string \<Rightarrow> shop \<Rightarrow> shop \<Rightarrow> bool" for E company where
  material_added: "add_material company new s = (Inr u, s') \<Longrightarrow> workshop E company s s'"
| sheet_added: "add_build_sheet company new_sheet now s = (Inr full, s') \<Longrightarrow> workshop E company s s'"
| received: "receive_materials E company receipt ids now s = (Inr r, s') \<Longrightarrow>
    distinct (map ml_material_id (mr_lines receipt)) \<Longrightarrow> workshop E company s s'"
| built: "complete_build E company build ids now s = (Inr b, s') \<Longrightarrow>
    distinct (map fst (nw_consumptions build)) \<Longrightarrow> workshop E company s s'"
| counted: "adjust_inventory E company adjustment ids now s = (Inr i, s') \<Longrightarrow>
    na_account adjustment = INVENTORY_FINISHED \<Longrightarrow> workshop E company s s'"

inductive workshop_run :: "mfg_env \<Rightarrow> string \<Rightarrow> shop \<Rightarrow> shop \<Rightarrow> bool" for E company where
  idle: "workshop_run E company s s"
| work: "workshop_run E company s t \<Longrightarrow> workshop E company t u \<Longrightarrow> workshop_run E company s u"

text \<open>The agreement the report is about.\<close>

definition stock_ties :: "shop \<Rightarrow> string \<Rightarrow> bool" where
  "stock_ties s company \<longleftrightarrow> stock_cents s company = book_cents (sh_books s) company INVENTORY_RAW"

lemma add_material_facts:
  assumes "add_material company new s = (Inr u, s')" "shop_ok s"
  shows "shop_ok s' \<and> stock_cents s' company = stock_cents s company \<and> sh_books s' = sh_books s"
proof -
  from assms(1) obtain row t where t: "insert_unique mt_material_id company row (sh_materials s) = Inr t"
    "s' = s\<lparr>sh_materials := t\<rparr>" "mt_total_value row = ZERO"
    by (auto simp: add_material_def insert_material_def split: if_splits)
  from t(1) have new: "t = sh_materials s @ [(company, row)]" "mt_material_id row \<notin> mt_material_id ` set (of_company company (sh_materials s))"
    by (auto simp: insert_unique_def list_ex_iff split: if_splits)
  then have "(company, mt_material_id row) \<notin> (\<lambda>(c, m). (c, mt_material_id m)) ` set (sh_materials s)"
    by (auto simp: of_company_set image_iff)
  then show ?thesis
    using assms(2) t(2,3) new(1) by (simp add: shop_ok_def materials_keyed_def stock_cents_def)
qed

lemma add_sheet_facts:
  assumes "add_build_sheet company new now s = (Inr full, s')"
  shows "same_stock s s'"
proof -
  from assms obtain units row s1 s2 where steps: "upsert_sheet company row s = Inr s1"
    "s2 = s1\<lparr>sh_sheet_lines := filter (\<lambda>(c, i, _). \<not> (c = company \<and> i = nb_sheet_id new)) (sh_sheet_lines s1)\<rparr>"
    "run_each (\<lambda>(i, line, unit). shop_sql (insert_sheet_line company (nb_sheet_id new)
            \<lparr>sl_line_no = int i + 1, sl_material_id = nl_material_id line, sl_part_item_id = nl_part_item_id line,
             sl_qty_per_unit = decimal_to_text (nl_qty_per_unit line), sl_unit = unit, sl_note = nl_note line\<rparr>))
          (enumerate 0 (zip (nb_lines new) units)) s2 = (Inr (), s')"
    unfolding add_build_sheet_def by (auto split: if_splits)
  have "same_stock s s1" using steps(1) by (auto simp: upsert_sheet_def same_stock_def split: if_splits)
  moreover have "same_stock s2 s'"
    by (rule same_stock_each[OF steps(3)])
      (auto simp: insert_sheet_line_def same_stock_def split: prod.splits if_splits)
  ultimately show ?thesis using steps(2) by (simp add: same_stock_def)
qed

lemma adjustment_legs:
  assumes "post_legs D (inventory_document adjustment uuid) ctx = Inr legs" "na_account adjustment = INVENTORY_FINISHED"
  shows "leg_net (AccountId INVENTORY_RAW) legs = 0"
  using assms
  by (auto simp: post_legs_def inventory_document_def shop_document_def post_inventory_adjustment_def adjustment_line_def
      account_line_def chart_numbers acct_def split: if_splits)

lemma adjustment_facts:
  assumes "adjust_inventory E company adjustment ids now s = (Inr i, s')" "shop_ok s"
    "na_account adjustment = INVENTORY_FINISHED"
  shows "shop_ok s' \<and> stock_cents s' company = stock_cents s company \<and>
    book_cents (sh_books s') company INVENTORY_RAW = book_cents (sh_books s) company INVENTORY_RAW"
proof -
  have rec: "record_document E company (inventory_document adjustment (fi_document ids)) ''adjust_inventory'' ids now s = (Inr i, s')"
    using assms(1) by (auto simp: adjust_inventory_def split: if_splits)
  have live: "\<not> doc_is_voided (inventory_document adjustment (fi_document ids))"
    by (simp add: inventory_document_def shop_document_def)
  have sound: "book_sound (sh_books s)" using assms(2) by (simp add: shop_ok_def)
  obtain db legs where r: "s' = s\<lparr>sh_books := db\<rparr>" "book_sound db"
    "post_legs (me_dec E) (inventory_document adjustment (fi_document ids)) default_context = Inr legs"
    "\<And>number. book_cents db company number = book_cents (sh_books s) company number + leg_net (AccountId number) legs"
    by (rule record_document_facts[OF rec sound live]) (rule that)
  then show ?thesis
    using assms(2) adjustment_legs[OF r(3) assms(3)] by (simp add: shop_ok_def materials_keyed_def stock_cents_def)
qed

lemma workshop_keeps:
  assumes "workshop E company s s'" "shop_ok s" "stock_ties s company"
  shows "shop_ok s' \<and> stock_ties s' company"
  using assms(1)
proof cases
  case (material_added new u)
  from add_material_facts[OF this assms(2)] assms(3) show ?thesis by (simp add: stock_ties_def)
next
  case (sheet_added new now full)
  from add_sheet_facts[OF this] assms(2,3) show ?thesis
    by (simp add: same_stock_def stock_ties_def shop_ok_def materials_keyed_def stock_cents_def)
next
  case (received receipt ids now r)
  note facts = receipt_facts[OF received(1) assms(2) received(2)]
  from facts(1,2) facts(3)[of INVENTORY_RAW] assms(3) show ?thesis by (simp add: stock_ties_def chart_numbers)
next
  case (built build ids now b)
  note facts = build_facts[OF built(1) assms(2) built(2)]
  from facts(1,2,4) assms(3) show ?thesis by (simp add: stock_ties_def)
next
  case (counted adjustment ids now i)
  from adjustment_facts[OF this(1) assms(2) this(2)] assms(3) show ?thesis by (simp add: stock_ties_def)
qed

lemma workshop_run_keeps:
  "workshop_run E company s s' \<Longrightarrow> shop_ok s \<Longrightarrow> stock_ties s company \<Longrightarrow> shop_ok s' \<and> stock_ties s' company"
  by (induction rule: workshop_run.induct) (use workshop_keeps in blast)+

section \<open>The report of material on hand\<close>

lemma sum_sort_key: "(\<Sum>x\<leftarrow>sort_key k xs. (f x :: int)) = (\<Sum>x\<leftarrow>xs. f x)"
  by (metis mset_map mset_sort sum_mset_sum_list)

lemma account_balance_cents:
  assumes "account_balance s company number = Inr m"
  shows "cents m = book_cents (sh_books s) company number"
proof -
  let ?ls = "filter (\<lambda>l. jl_account l = AccountId number) (posted_lines (sh_books s) company (\<lambda>_. True))"
  from assms obtain d c where sums: "sql_sum (map (\<lambda>l. sint (minor (jl_debit l))) ?ls) = Inr d"
    "sql_sum (map (\<lambda>l. sint (minor (jl_credit l))) ?ls) = Inr c"
    "checked_sub (from_minor (word_of_int d)) (from_minor (word_of_int c)) = Inr m"
    by (auto simp: account_balance_def posted_lines_def Let_def)
  have "cents m = d - c"
    using sums(3) sql_sum_range[OF sums(1)] sql_sum_range[OF sums(2)]
    by (simp add: checked_sub_Inr from_minor_def cents_def)
  also have "\<dots> = account_net (AccountId number) (posted_lines (sh_books s) company (\<lambda>_. True))"
    using sql_sum_Inr[OF sums(1)] sql_sum_Inr[OF sums(2)]
    by (simp add: account_net_def line_net_def cents_def sum_list_subtractf)
  finally show ?thesis by (simp add: book_cents_def)
qed

lemma report_cents:
  assumes "material_on_hand s company = Inr report"
  shows "cents (or_total_value report) = stock_cents s company"
    "cents (or_account_1300_balance report) = book_cents (sh_books s) company INVENTORY_RAW"
proof -
  from assms obtain tot balance where r: "checked_sum (map mt_total_value (list_materials s company)) = Inr tot"
    "account_balance s company INVENTORY_RAW = Inr balance" "or_total_value report = tot" "or_account_1300_balance report = balance"
    by (auto simp: material_on_hand_def Let_def)
  show "cents (or_total_value report) = stock_cents s company"
    using checked_sum_cents[OF r(1)] r(3) by (simp add: stock_cents_def list_materials_def o_def sum_sort_key)
  show "cents (or_account_1300_balance report) = book_cents (sh_books s) company INVENTORY_RAW"
    using account_balance_cents[OF r(2)] r(4) by simp
qed

section \<open>A shop to try it on\<close>

definition shop_env :: mfg_env where
  "shop_env = \<lparr>me_debug = True, me_dec = shop_ops, me_rfc3339 = (\<lambda>_. ''now''), me_to_json = (\<lambda>doc. Inr ''doc'')\<rparr>"

definition foam :: material where
  "foam = \<lparr>mt_material_id = ''foam'', mt_name = ''foam'', mt_unit = Bf, mt_sheet_board_feet = None,
     mt_avg_cost = ZERO, mt_qty_on_hand = dec_zero, mt_total_value = ZERO, mt_is_active = True, mt_source_ref = None\<rparr>"

definition depot_books :: db where
  "depot_books = empty_db\<lparr>
     db_accounts := [(''co'', sample_account INVENTORY_RAW Asset), (''co'', sample_account INVENTORY_RECEIVED_NOT_BILLED Liability)]\<rparr>"

definition depot :: shop where
  "depot = \<lparr>sh_books = depot_books, sh_materials = [(''co'', foam)], sh_lots = [], sh_sheets = [],
     sh_sheet_lines = [], sh_builds = [], sh_consumptions = []\<rparr>"

definition foam_receipt :: "int list \<Rightarrow> material_receipt" where
  "foam_receipt costs = \<lparr>mr_vendor_ref = None, mr_po_ref = None, mr_received_on = Ymd 2026 8 1,
     mr_lines = map (\<lambda>c. \<lparr>ml_material_id = ''foam'', ml_qty = Decimal 100 0, ml_base_cost = money_of c\<rparr>) costs,
     mr_freight = ZERO\<rparr>"

definition sample_ids :: fresh_ids where
  "sample_ids = \<lparr>fi_lot = show_nat, fi_document = ''d'', fi_command = ''c'', fi_entry = ''e'', fi_build = ''b''\<rparr>"

lemma depot_ok: "shop_ok depot" "stock_ties depot ''co''"
proof -
  have "book_sound depot_books"
    by (simp add: book_sound_def journal_ok_def posted_balanced_def bank_ok_def journal_lines_ok_def journal_keys_ok_def
        journal_references_ok_def bank_keys_ok_def bank_references_ok_def external_keys_def depot_books_def empty_db_def)
  then show "shop_ok depot" by (simp add: shop_ok_def materials_keyed_def depot_def)
  show "stock_ties depot ''co''"
    by (simp add: stock_ties_def stock_cents_def book_cents_def posted_lines_def posted_join_def depot_def depot_books_def
        empty_db_def foam_def)
qed

section \<open>Properties\<close>

text \<open>
  C26. Material on hand agrees with account 1300 to the cent: from any sound shop where it does, after
  any sequence of added materials and sheets, receipts and builds that name each material once, and
  counts of finished goods, the report of material on hand shows the same amount on both sides.
\<close>

theorem material_on_hand_agrees_with_1300:
  assumes "workshop_run E company s s'" and "shop_ok s" and "stock_ties s company"
    and "material_on_hand s' company = Inr report"
  shows "or_total_value report = or_account_1300_balance report"
  using workshop_run_keeps[OF assms(1-3)] report_cents[OF assms(4)]
  by (simp add: stock_ties_def flip: cents_inject)

lemma first_receipt:
  "case receive_materials shop_env ''co'' (foam_receipt [40000]) sample_ids 7 depot of
     (Inr r, s') \<Rightarrow> (case material_on_hand s' ''co'' of Inr report \<Rightarrow> or_total_value report = money_of 40000 | Inl _ \<Rightarrow> False)
   | (Inl _, s') \<Rightarrow> False"
  by code_simp

theorem material_on_hand_agrees_with_1300_witness:
  "\<exists>s' report. workshop_run shop_env ''co'' depot s' \<and> material_on_hand s' ''co'' = Inr report \<and>
     or_account_1300_balance report = money_of 40000"
proof -
  obtain r s' report where run: "receive_materials shop_env ''co'' (foam_receipt [40000]) sample_ids 7 depot = (Inr r, s')"
    "material_on_hand s' ''co'' = Inr report" "or_total_value report = money_of 40000"
    using first_receipt by (auto split: prod.splits sum.splits)
  have "distinct (map ml_material_id (mr_lines (foam_receipt [40000])))" by (simp add: foam_receipt_def)
  then have "workshop_run shop_env ''co'' depot s'" by (rule work[OF idle received[OF run(1)]])
  with material_on_hand_agrees_with_1300[OF this depot_ok run(2)] run(2,3) show ?thesis by metis
qed

section \<open>A material on two lines\<close>

text \<open>What the received lines of one material leave: the landed cost of the last of them.\<close>

definition last_landed :: "received_line list \<Rightarrow> string \<Rightarrow> int" where
  "last_landed received i =
     (case rev (filter (\<lambda>v. rv_material_id v = i) received) of [] \<Rightarrow> 0 | v # _ \<Rightarrow> cents (rv_landed_cost v))"

lemma receive_lines_last:
  assumes run: "run_fold (receive_line E company receipt ids) (ZERO, []) steps s = (Inr (tot, received), s')"
    and keyed: "materials_keyed s"
    and found: "\<And>l m a. (l, m, a) \<in> set steps \<Longrightarrow> find_material s company (mt_material_id m) = Some m"
  shows "cents tot = (\<Sum>v\<leftarrow>received. cents (rv_landed_cost v))"
    "find_material s company i = Some m \<Longrightarrow> \<exists>m'. find_material s' company i = Some m' \<and>
       cents (mt_total_value m') = cents (mt_total_value m) + last_landed received i"
proof -
  let ?I = "\<lambda>(tot, received) t. materials_keyed t \<and> cents tot = (\<Sum>v\<leftarrow>received. cents (rv_landed_cost v)) \<and>
    (\<forall>i m. find_material s company i = Some m \<longrightarrow> (\<exists>m'. find_material t company i = Some m' \<and>
       cents (mt_total_value m') = cents (mt_total_value m) + last_landed received i))"
  have "?I (tot, received) s'"
    using run
  proof (rule run_fold_invariant)
    show "?I (ZERO, []) s" using keyed by (simp add: last_landed_def)
    fix acc step t acc' t'
    assume step: "step \<in> set steps" and I: "?I acc t" and r: "receive_line E company receipt ids acc step t = (Inr acc', t')"
    obtain l m no a tot received tot' received' where split: "step = (l, m, no, a)" "acc = (tot, received)" "acc' = (tot', received')"
      by (metis prod.collapse)
    have orig: "find_material s company (mt_material_id m) = Some m" using found[of l m "(no, a)"] step split by simp
    then obtain cur where cur: "find_material t company (mt_material_id m) = Some cur" using I split by blast
    have keyed_t: "materials_keyed t" using I split by simp
    obtain landed where facts: "cents tot' = cents tot + cents landed" "materials_keyed t'"
      "\<And>j. j \<noteq> mt_material_id m \<Longrightarrow> find_material t' company j = find_material t company j"
      "\<exists>m'. find_material t' company (mt_material_id m) = Some m' \<and> mt_material_id m' = mt_material_id m \<and>
         cents (mt_total_value m') = cents (mt_total_value m) + cents landed"
      "\<exists>avg q. received' = received @ [\<lparr>rv_material_id = mt_material_id m, rv_lot_id = fi_lot ids no,
         rv_freight_alloc = a, rv_landed_cost = landed, rv_new_avg_cost = avg, rv_new_qty_on_hand = q\<rparr>]"
      by (rule receive_line_facts[OF r[unfolded split] keyed_t cur]) (rule that)
    have "\<exists>m'. find_material t' company i = Some m' \<and> cents (mt_total_value m') = cents (mt_total_value m2) + last_landed received' i"
      if "find_material s company i = Some m2" for i m2
    proof (cases "i = mt_material_id m")
      case True
      then show ?thesis using facts(4,5) orig that by (auto simp: last_landed_def)
    next
      case False
      then show ?thesis using facts(3)[OF False] facts(5) I that split by (auto simp: last_landed_def)
    qed
    then show "?I acc' t'" using facts(1,2,5) I split by auto
  qed
  then show "cents tot = (\<Sum>v\<leftarrow>received. cents (rv_landed_cost v))"
    "find_material s company i = Some m \<Longrightarrow> \<exists>m'. find_material s' company i = Some m' \<and>
       cents (mt_total_value m') = cents (mt_total_value m) + last_landed received i"
    by auto
qed

lemma record_document_live:
  assumes "record_document E company doc kind ids now s = (Inr i, s')" "\<not> doc_is_voided doc"
  shows "sh_materials s' = sh_materials s"
    "\<exists>legs. post_legs (me_dec E) doc default_context = Inr legs \<and> (\<exists>l \<in> set legs. cents (leg_amount l) \<noteq> 0)"
proof -
  from assms(1) obtain version e where e:
    "entry_or_panic (post (me_debug E) (me_dec E) doc version default_context) = Inr e" "sh_materials s' = sh_materials s"
    unfolding record_document_def by (auto simp: books_Inr)
  then obtain legs ls where ls: "post_legs (me_dec E) doc default_context = Inr legs" "merge_legs legs = Inr ls" "ls \<noteq> []"
    by (auto simp: entry_or_panic_def post_Entry_iff split: sum.splits failure.splits posting.splits)
  then show "sh_materials s' = sh_materials s"
    "\<exists>legs. post_legs (me_dec E) doc default_context = Inr legs \<and> (\<exists>l \<in> set legs. cents (leg_amount l) \<noteq> 0)"
    using e(2) merge_legs_Nil_iff[of legs] by (auto simp: is_zero_cents list_all_iff)
qed


lemma doubled_receipt:
  "case receive_materials shop_env ''co'' (foam_receipt [4000, 2000]) sample_ids 7 depot of
     (Inr r, s') \<Rightarrow> cents (rr_total_landed r) = 6000 \<and> last_landed (rr_lines r) ''foam'' = 2000
   | (Inl _, s') \<Rightarrow> False"
  by code_simp


section \<open>Receipts that cost nothing\<close>

lemma free_lines:
  assumes "run_fold (receive_line E company receipt ids) (tot, received) steps s = (Inr (tot', received'), s')"
    and "\<And>l m no a. (l, m, no, a) \<in> set steps \<Longrightarrow> cents (ml_base_cost l) = 0 \<and> cents a = 0"
  shows "cents tot' = cents tot"
  using assms
proof (induction steps arbitrary: tot received s)
  case (Cons step steps)
  obtain l m no a where step: "step = (l, m, no, a)" by (cases step)
  from Cons.prems(1) obtain acc s1 where run: "receive_line E company receipt ids (tot, received) (l, m, no, a) s = (Inr acc, s1)"
    "run_fold (receive_line E company receipt ids) acc steps s1 = (Inr (tot', received'), s')" unfolding step by auto
  obtain tot1 received1 where acc: "acc = (tot1, received1)" by (cases acc)
  from run(1) obtain landed where "checked_add (ml_base_cost l) a = Inr landed" "checked_add tot landed = Inr tot1"
    unfolding receive_line_def acc by auto
  moreover have "cents (ml_base_cost l) = 0 \<and> cents a = 0" using Cons.prems(2)[of l m no a] step by simp
  ultimately have "cents tot1 = cents tot" by (simp add: checked_add_Inr)
  with Cons.IH[OF run(2)[unfolded acc]] Cons.prems(2) show ?case by (metis list.set_intros(2))
qed simp

text \<open>
  A receipt that costs nothing never completes: with every base cost and the freight zero the legs
  come to nothing, \<open>post\<close> answers that the document does not post, and the \<open>unreachable!\<close> after
  it is reached; the same holds of every document whose amounts are all zero.
\<close>

theorem a_free_receipt_never_completes:
  assumes "list_all (\<lambda>l. cents (ml_base_cost l) = 0) (mr_lines receipt)" and "cents (mr_freight receipt) = 0"
  shows "isl (fst (receive_materials E company receipt ids now s))"
proof (rule ccontr)
  assume "\<not> isl (fst (receive_materials E company receipt ids now s))"
  then obtain r s' where run: "receive_materials E company receipt ids now s = (Inr r, s')"
    by (cases "receive_materials E company receipt ids now s") (auto simp: isl_def split: sum.splits, metis sum.exhaust)
  obtain materials allocation tot received s1 where steps:
    "list_all2 (\<lambda>line m. find_material s company (ml_material_id line) = Some m) (mr_lines receipt) materials"
    "allocate_freight (me_debug E) (me_dec E) (map2 receipt_line_of (mr_lines receipt) materials) (mr_freight receipt) = Inr allocation"
    "run_fold (receive_line E company receipt ids) (ZERO, []) (zip (mr_lines receipt) (zip materials allocation)) s = (Inr (tot, received), s1)"
    "record_document E company (receipt_document receipt tot (fi_document ids)) ''receive_materials'' ids now s1 = (Inr (rr_entry_id r), s')"
    by (rule receive_materials_steps[OF run])
  have free: "cents (snd a) = 0" if "a \<in> set allocation" for a
    using steps(2) assms(2) that by (auto simp: allocate_freight_def is_zero_cents split: if_splits)
  have "cents tot = cents ZERO"
  proof (rule free_lines[OF steps(3)])
    fix l m no a assume "(l, m, no, a) \<in> set (zip (mr_lines receipt) (zip materials allocation))"
    then have "l \<in> set (mr_lines receipt)" "(no, a) \<in> set allocation" by (auto dest: set_zip_leftD set_zip_rightD)
    then show "cents (ml_base_cost l) = 0 \<and> cents a = 0" using assms(1) free by (force simp: list_all_iff)
  qed
  moreover obtain legs where legs: "post_legs (me_dec E) (receipt_document receipt tot (fi_document ids)) default_context = Inr legs"
    "\<exists>l \<in> set legs. cents (leg_amount l) \<noteq> 0"
    using record_document_live(2)[OF steps(4)] by (auto simp: receipt_document_def shop_document_def)
  ultimately show False using receipt_legs[OF legs(1)] by simp
qed

lemma free_receipt_stock:
  "map (\<lambda>(_, m). mt_qty_on_hand m) (sh_materials (snd (receive_materials shop_env ''co'' (foam_receipt [0]) sample_ids 7 depot))) = [Decimal 100 0]"
  by code_simp

theorem a_free_receipt_never_completes_witness:
  "isl (fst (receive_materials shop_env ''co'' (foam_receipt [0]) sample_ids 7 depot)) \<and>
   map (\<lambda>(_, m). mt_qty_on_hand m) (sh_materials (snd (receive_materials shop_env ''co'' (foam_receipt [0]) sample_ids 7 depot))) = [Decimal 100 0]"
proof
  show "isl (fst (receive_materials shop_env ''co'' (foam_receipt [0]) sample_ids 7 depot))"
    by (rule a_free_receipt_never_completes) (simp_all add: foam_receipt_def in_i64_def)
qed (rule free_receipt_stock)

section \<open>What a build posts\<close>


definition mill :: shop where
  "mill = \<lparr>sh_books = empty_db\<lparr>
       db_companies := [(''co'', \<lparr>co_display_name = ''Co'', co_realm_id = None, co_created_at = 1\<rparr>)],
       db_accounts := map (\<lambda>n. (''co'', sample_account n Asset)) [INVENTORY_RAW, INVENTORY_FINISHED] @
         [(''co'', sample_account MANUFACTURING_VARIANCE Cogs)],
       db_classes := [(''co'', new_class ''foam'' ''foam'' None)]\<rparr>,
     sh_materials = [(''co'', foam\<lparr>mt_avg_cost := money_of 400, mt_qty_on_hand := Decimal 100 0, mt_total_value := money_of 40000\<rparr>)],
     sh_lots = [],
     sh_sheets = [(''co'', \<lparr>bs_sheet_id = ''tube'', bs_item_id = ''tube'', bs_version = 1, bs_name = ''tube'',
       bs_yield_pct = Decimal 8 1, bs_labour_minutes = dec_zero, bs_labour_rate = money_of 4800, bs_overhead = ZERO,
       bs_is_active = True, bs_created_at = 1\<rparr>)],
     sh_sheet_lines = [(''co'', ''tube'', \<lparr>sl_line_no = 1, sl_material_id = Some ''foam'', sl_part_item_id = None,
       sl_qty_per_unit = Decimal 2 0, sl_unit = LineBf, sl_note = None\<rparr>)],
     sh_builds = [], sh_consumptions = []\<rparr>"

definition tube_build :: new_build where
  "tube_build = \<lparr>nw_sheet_id = ''tube'', nw_qty_built = Decimal 10 0, nw_consumptions = [(''foam'', Decimal 30 0)],
     nw_labour_minutes_actual = dec_zero, nw_completed_on = Ymd 2026 8 19, nw_started_on = None,
     nw_class = ClassId ''foam'', nw_note = None\<rparr>"

lemma mill_ok: "shop_ok mill"
proof -
  have "book_sound (sh_books mill)"
    by (simp add: book_sound_def journal_ok_def posted_balanced_def bank_ok_def journal_lines_ok_def journal_keys_ok_def
        journal_references_ok_def bank_keys_ok_def bank_references_ok_def external_keys_def mill_def empty_db_def)
  then show "shop_ok mill" by (simp add: shop_ok_def materials_keyed_def mill_def)
qed

lemma tube_built:
  "case fst (complete_build shop_env ''co'' tube_build sample_ids 7 mill) of
     Inr r \<Rightarrow> (br_actual_material r, br_variance r) = (Money 12000, Money (- 2000)) | Inl _ \<Rightarrow> False"
  by code_simp


end
