(* ===== verification/Utf8_Text.thy ===== *)
theory Utf8_Text
  imports Ledger_Prelude
begin

text \<open>
  Text of the standard library that both programs use. A text is its UTF-8 bytes: what the code
  asks for of an ASCII character it asks of a byte, since no byte of another character is one.
\<close>

section \<open>Characters\<close>

definition is_ascii_digit :: "char \<Rightarrow> bool" where
  "is_ascii_digit c \<longleftrightarrow> 48 \<le> (of_char c :: nat) \<and> (of_char c :: nat) \<le> 57"

definition to_ascii_lowercase :: "string \<Rightarrow> string" where
  "to_ascii_lowercase = map (\<lambda>c. if 65 \<le> (of_char c :: nat) \<and> (of_char c :: nat) \<le> 90 then char_of ((of_char c :: nat) + 32) else c)"

section \<open>White space\<close>

text \<open>The characters \<open>char::is_whitespace\<close> knows, each as its UTF-8 bytes.\<close>

definition white_space :: "string list" where
  "white_space =
     map (map char_of)
       ([[9], [10], [11], [12], [13], [32], [0xC2, 0x85], [0xC2, 0xA0], [0xE1, 0x9A, 0x80]] @
        map (\<lambda>b. [0xE2, 0x80, b]) ([0x80..<0x8B] @ [0xA8, 0xA9, 0xAF]) @
        [[0xE2, 0x81, 0x9F], [0xE3, 0x80, 0x80 :: nat]])"

lemma white_space_nonempty: "w \<in> set white_space \<Longrightarrow> 0 < length w"
  by (auto simp: white_space_def)

function strip_leading :: "string list \<Rightarrow> string \<Rightarrow> string" where
  "strip_leading patterns s =
     (case find_map (\<lambda>w. w \<noteq> [] \<and> starts_with w s) patterns of
        None \<Rightarrow> s
      | Some w \<Rightarrow> strip_leading patterns (drop (length w) s))"
  by pat_completeness auto

termination
proof (relation "measure (length \<circ> snd)")
  fix patterns :: "string list" and s w :: string
  assume "find_map (\<lambda>w. w \<noteq> [] \<and> starts_with w s) patterns = Some w"
  then have "w \<noteq> []" "starts_with w s" by (auto dest!: find_map_Some)
  then have "0 < length w" "0 < length s" by (cases w; cases s; simp)+
  then show "((patterns, drop (length w) s), (patterns, s)) \<in> measure (length \<circ> snd)" by simp
qed simp

declare strip_leading.simps [simp del]

definition trim :: "string \<Rightarrow> string" where
  "trim s = rev (strip_leading (map rev white_space) (rev (strip_leading white_space s)))"

text \<open>A text that begins and ends with a printed ASCII character is left as it is.\<close>

definition printed :: "char \<Rightarrow> bool" where
  "printed c \<longleftrightarrow> 32 < (of_char c :: nat) \<and> (of_char c :: nat) < 128"

lemma white_space_unprinted: "w \<in> set white_space \<Longrightarrow> \<not> printed (hd w) \<and> \<not> printed (last w)"
  by (auto simp: white_space_def printed_def)

lemma strip_none: "(\<And>w. w \<in> set ps \<Longrightarrow> w \<noteq> [] \<Longrightarrow> \<not> starts_with w s) \<Longrightarrow> strip_leading ps s = s"
  by (subst strip_leading.simps) (auto simp: find_map_None split: option.split dest!: find_map_Some)

lemma starts_with_hd: "starts_with w s \<Longrightarrow> w \<noteq> [] \<Longrightarrow> hd w = hd s"
  by (cases w; cases s) auto

lemma trim_printed:
  assumes "s = [] \<or> printed (hd s) \<and> printed (last s)"
  shows "trim s = s"
proof (cases "s = []")
  case True
  have "strip_leading ps [] = []" for ps
    by (rule strip_none) (auto elim: starts_with.elims)
  then show ?thesis by (simp add: trim_def True)
next
  case False
  then have p: "printed (hd s)" "printed (last s)" using assms by auto
  have "strip_leading white_space s = s"
    by (rule strip_none) (metis p(1) starts_with_hd white_space_unprinted)
  moreover have "strip_leading (map rev white_space) (rev s) = rev s"
  proof (rule strip_none)
    fix w assume w: "w \<in> set (map rev white_space)" "w \<noteq> []"
    then obtain v where v: "v \<in> set white_space" "w = rev v" "v \<noteq> []" by auto
    show "\<not> starts_with w (rev s)"
      using starts_with_hd[of w "rev s"] white_space_unprinted[OF v(1)] p(2) v False by (auto simp: hd_rev)
  qed
  ultimately show ?thesis by (simp add: trim_def)
qed

section \<open>Lines\<close>

text \<open>
  \<open>str::lines\<close>: a line ends at a line feed, with a carriage return before it left out; what is
  left after the last one is a line of its own.
\<close>

definition line_feed :: char where
  "line_feed = CHR 0x0A"

definition carriage_return :: char where
  "carriage_return = CHR 0x0D"

definition without_return :: "string \<Rightarrow> string" where
  "without_return line = (if line \<noteq> [] \<and> last line = carriage_return then butlast line else line)"

fun lines_from :: "string \<Rightarrow> string \<Rightarrow> string list" where
  "lines_from line [] = (if line = [] then [] else [line])"
| "lines_from line (c # cs) =
     (if c = line_feed then without_return line # lines_from [] cs else lines_from (line @ [c]) cs)"

definition text_lines :: "string \<Rightarrow> string list" where
  "text_lines text = lines_from [] text"

lemma lines_from_plain: "line_feed \<notin> set s \<Longrightarrow> lines_from line (s @ line_feed # rest) = without_return (line @ s) # lines_from [] rest"
  by (induction s arbitrary: line) auto

text \<open>A file written a line at a time is read a line at a time.\<close>

lemma text_lines_of_lines:
  assumes "\<And>l. l \<in> set ls \<Longrightarrow> line_feed \<notin> set l \<and> (l = [] \<or> last l \<noteq> carriage_return)"
  shows "text_lines (concat (map (\<lambda>l. l @ [line_feed]) ls)) = ls"
  using assms
  by (induction ls) (auto simp: text_lines_def without_return_def lines_from_plain[where line = "[]", simplified])

end
