(* ===== verification/Qbo_Domain.thy ===== *)
theory Qbo_Domain
  imports Utf8_Text
begin

text \<open>
  The replica's domain (\<open>domain.rs\<close>): realms, the kinds of entity mirrored from QuickBooks, the tier
  each is synced in, the names they have on the wire, and the JSON values their payloads are.
\<close>

section \<open>Realms\<close>

datatype domain_error = InvalidRealmId string | UnknownEntityType string

datatype realm_id = RealmId (realm_as_str: string)

definition parse_realm :: "string \<Rightarrow> domain_error + realm_id" where
  "parse_realm raw = (if raw = [] \<or> \<not> list_all is_ascii_digit raw then Inl (InvalidRealmId raw) else Inr (RealmId raw))"

section \<open>Entity types\<close>

datatype entity_type =
    Account | Class | Customer | Vendor | Item | TaxCode | TaxRate | Term | Department | CompanyInfo |
  Preferences | Attachable | Estimate | Invoice | SalesReceipt | CreditMemo | RefundReceipt | Payment |
  PurchaseOrder | Bill | BillPayment | VendorCredit | Purchase | Deposit | JournalEntry | Transfer |
  CreditCardPayment | InventoryAdjustment

datatype document_type =
    DocEstimate | DocInvoice | DocSalesReceipt | DocCreditMemo | DocRefundReceipt | DocPayment |
  DocPurchaseOrder | DocBill | DocBillPayment | DocVendorCredit | DocPurchase | DocDeposit |
  DocJournalEntry | DocTransfer | DocCreditCardPayment | DocInventoryAdjustment

datatype sync_tier = Masters | Documents | Peripheral

definition all_entity_types :: "entity_type list" where
  "all_entity_types =
     [CompanyInfo, Account, Class, Customer, Vendor, Item, TaxCode, TaxRate, Term, Estimate, Invoice,
      SalesReceipt, CreditMemo, RefundReceipt, Payment, PurchaseOrder, Bill, BillPayment, VendorCredit,
      Purchase, Deposit, JournalEntry, Transfer, CreditCardPayment, InventoryAdjustment, Department,
      Preferences, Attachable]"

definition tier :: "entity_type \<Rightarrow> sync_tier" where
  "tier e =
     (if e \<in> {CompanyInfo, Account, Class, Customer, Vendor, Item, TaxCode, TaxRate, Term} then Masters
      else if e \<in> {Department, Preferences, Attachable} then Peripheral else Documents)"

definition m0_scope :: "entity_type list" where
  "m0_scope = filter (\<lambda>e. tier e \<noteq> Peripheral) all_entity_types"

definition requires_query_before_create :: "entity_type \<Rightarrow> bool" where
  "requires_query_before_create e \<longleftrightarrow> e \<in> {Customer, Item}"

fun entity_as_str :: "entity_type \<Rightarrow> string" where
  "entity_as_str Account = ''Account''"
| "entity_as_str Class = ''Class''"
| "entity_as_str Customer = ''Customer''"
| "entity_as_str Vendor = ''Vendor''"
| "entity_as_str Item = ''Item''"
| "entity_as_str TaxCode = ''TaxCode''"
| "entity_as_str TaxRate = ''TaxRate''"
| "entity_as_str Term = ''Term''"
| "entity_as_str Department = ''Department''"
| "entity_as_str CompanyInfo = ''CompanyInfo''"
| "entity_as_str Preferences = ''Preferences''"
| "entity_as_str Attachable = ''Attachable''"
| "entity_as_str Estimate = ''Estimate''"
| "entity_as_str Invoice = ''Invoice''"
| "entity_as_str SalesReceipt = ''SalesReceipt''"
| "entity_as_str CreditMemo = ''CreditMemo''"
| "entity_as_str RefundReceipt = ''RefundReceipt''"
| "entity_as_str Payment = ''Payment''"
| "entity_as_str PurchaseOrder = ''PurchaseOrder''"
| "entity_as_str Bill = ''Bill''"
| "entity_as_str BillPayment = ''BillPayment''"
| "entity_as_str VendorCredit = ''VendorCredit''"
| "entity_as_str Purchase = ''Purchase''"
| "entity_as_str Deposit = ''Deposit''"
| "entity_as_str JournalEntry = ''JournalEntry''"
| "entity_as_str Transfer = ''Transfer''"
| "entity_as_str CreditCardPayment = ''CreditCardPayment''"
| "entity_as_str InventoryAdjustment = ''InventoryAdjustment''"

definition response_key :: "entity_type \<Rightarrow> string" where
  "response_key e = (if e = CreditCardPayment then ''CreditCardPaymentTxn'' else entity_as_str e)"

definition parse_entity :: "string \<Rightarrow> domain_error + entity_type" where
  "parse_entity raw = ok_or (find_map (\<lambda>e. entity_as_str e = raw) all_entity_types) (UnknownEntityType raw)"

definition parse_response_key :: "string \<Rightarrow> domain_error + entity_type" where
  "parse_response_key raw =
     (case parse_entity raw of
        Inr e \<Rightarrow> Inr e
      | Inl _ \<Rightarrow> ok_or (find_map (\<lambda>e. response_key e = raw) all_entity_types) (UnknownEntityType raw))"

fun as_document :: "entity_type \<Rightarrow> document_type option" where
  "as_document Estimate = Some DocEstimate"
| "as_document Invoice = Some DocInvoice"
| "as_document SalesReceipt = Some DocSalesReceipt"
| "as_document CreditMemo = Some DocCreditMemo"
| "as_document RefundReceipt = Some DocRefundReceipt"
| "as_document Payment = Some DocPayment"
| "as_document PurchaseOrder = Some DocPurchaseOrder"
| "as_document Bill = Some DocBill"
| "as_document BillPayment = Some DocBillPayment"
| "as_document VendorCredit = Some DocVendorCredit"
| "as_document Purchase = Some DocPurchase"
| "as_document Deposit = Some DocDeposit"
| "as_document JournalEntry = Some DocJournalEntry"
| "as_document Transfer = Some DocTransfer"
| "as_document CreditCardPayment = Some DocCreditCardPayment"
| "as_document InventoryAdjustment = Some DocInventoryAdjustment"
| "as_document _ = None"

fun as_entity :: "document_type \<Rightarrow> entity_type" where
  "as_entity DocEstimate = Estimate"
| "as_entity DocInvoice = Invoice"
| "as_entity DocSalesReceipt = SalesReceipt"
| "as_entity DocCreditMemo = CreditMemo"
| "as_entity DocRefundReceipt = RefundReceipt"
| "as_entity DocPayment = Payment"
| "as_entity DocPurchaseOrder = PurchaseOrder"
| "as_entity DocBill = Bill"
| "as_entity DocBillPayment = BillPayment"
| "as_entity DocVendorCredit = VendorCredit"
| "as_entity DocPurchase = Purchase"
| "as_entity DocDeposit = Deposit"
| "as_entity DocJournalEntry = JournalEntry"
| "as_entity DocTransfer = Transfer"
| "as_entity DocCreditCardPayment = CreditCardPayment"
| "as_entity DocInventoryAdjustment = InventoryAdjustment"

section \<open>JSON\<close>

text \<open>\<open>serde_json::Value\<close>; a number is its literal, an object its fields in the order of the map.\<close>

datatype json = JNull | JBool bool | JNumber string | JString string | JArray "json list" | JObject "(string \<times> json) list"

fun json_get :: "json \<Rightarrow> string \<Rightarrow> json option" where
  "json_get (JObject fields) key = map_of fields key"
| "json_get _ key = None"

fun json_str :: "json \<Rightarrow> string option" where
  "json_str (JString s) = Some s"
| "json_str _ = None"

section \<open>Names\<close>

lemma all_entity_types_complete: "set all_entity_types = UNIV" "distinct all_entity_types"
proof -
  have "e \<in> set all_entity_types" for e by (cases e) (simp_all add: all_entity_types_def)
  then show "set all_entity_types = UNIV" by blast
  show "distinct all_entity_types" by (simp add: all_entity_types_def)
qed

lemma entity_as_str_inj: "distinct (map entity_as_str all_entity_types)"
  by (simp add: all_entity_types_def)

lemma find_map_key:
  assumes "distinct (map f xs)" "x \<in> set xs"
  shows "find_map (\<lambda>y. f y = f x) xs = Some x"
  using assms by (induction xs) (auto simp: image_iff)

text \<open>Names read back, and the document types are the entity types of the documents' tier.\<close>

lemma entity_roundtrip: "parse_entity (entity_as_str e) = Inr e"
  using find_map_key[OF entity_as_str_inj, of e] all_entity_types_complete by (simp add: parse_entity_def)

lemma response_key_roundtrip: "parse_response_key (response_key e) = Inr e"
  by (cases e) (simp_all add: parse_response_key_def response_key_def parse_entity_def all_entity_types_def)

lemma document_roundtrip: "as_document (as_entity d) = Some d"
  by (cases d) simp_all

lemma documents_tier: "as_document e \<noteq> None \<longleftrightarrow> tier e = Documents"
  by (cases e) (simp_all add: tier_def)

text \<open>A sync walks every master before any document, and the peripheral types last.\<close>

lemma walk_by_tier:
  "\<exists>ms ds ps. all_entity_types = ms @ ds @ ps \<and> list_all (\<lambda>e. tier e = Masters) ms \<and>
     list_all (\<lambda>e. tier e = Documents) ds \<and> list_all (\<lambda>e. tier e = Peripheral) ps"
  by (intro exI[of _ "take 9 all_entity_types"] exI[of _ "take 16 (drop 9 all_entity_types)"]
      exI[of _ "drop 25 all_entity_types"]) (simp add: all_entity_types_def tier_def)

end
