(* ===== verification/Outbox.thy ===== *)
theory Outbox
  imports Qbo_Domain
begin

text \<open>
  The outbox record and its state machine (\<open>outbox.rs\<close>): what a local write waiting to be sent to
  QuickBooks is, the operations on it, and the life it can lead. An operation takes \<open>&mut self\<close>:
  it returns the record it leaves also when it fails.
\<close>

section \<open>Records\<close>

type_synonym uuid = "128 word"

type_synonym utc = int

datatype outbox_state = Pending | InFlight | Applied | Conflicted | Rejected | Discarded

datatype outbox_error = IllegalTransition outbox_state outbox_state | DependencyNotSatisfied uuid

datatype drain_failure = F_Transient string | F_StaleSyncToken | F_Rejected string

datatype operation = Create | Update

fun is_terminal :: "outbox_state \<Rightarrow> bool" where
  "is_terminal s \<longleftrightarrow> s = Applied \<or> s = Discarded"

fun needs_attention :: "outbox_state \<Rightarrow> bool" where
  "needs_attention s \<longleftrightarrow> s = Conflicted \<or> s = Rejected"

fun is_drainable :: "outbox_state \<Rightarrow> bool" where
  "is_drainable s \<longleftrightarrow> s = Pending"

fun can_transition_to :: "outbox_state \<Rightarrow> outbox_state \<Rightarrow> bool" where
  "can_transition_to Pending InFlight = True"
| "can_transition_to InFlight Pending = True"
| "can_transition_to InFlight Applied = True"
| "can_transition_to InFlight Conflicted = True"
| "can_transition_to InFlight Rejected = True"
| "can_transition_to Conflicted Pending = True"
| "can_transition_to Rejected Pending = True"
| "can_transition_to Conflicted Discarded = True"
| "can_transition_to Rejected Discarded = True"
| "can_transition_to _ _ = False"

fun state_as_str :: "outbox_state \<Rightarrow> string" where
  "state_as_str Pending = ''pending''"
| "state_as_str InFlight = ''in_flight''"
| "state_as_str Applied = ''applied''"
| "state_as_str Conflicted = ''conflicted''"
| "state_as_str Rejected = ''rejected''"
| "state_as_str Discarded = ''discarded''"

definition parse_state :: "string \<Rightarrow> outbox_state option" where
  "parse_state raw = find_map (\<lambda>s. state_as_str s = raw) [Pending, InFlight, Applied, Conflicted, Rejected, Discarded]"

fun operation_as_str :: "operation \<Rightarrow> string" where
  "operation_as_str Create = ''create''"
| "operation_as_str Update = ''update''"

definition parse_operation :: "string \<Rightarrow> operation option" where
  "parse_operation raw = (if raw = ''create'' then Some Create else if raw = ''update'' then Some Update else None)"

record outbox_record =
  ob_id :: uuid
  ob_realm :: realm_id
  ob_entity_type :: entity_type
  ob_operation :: operation
  ob_payload :: json
  ob_local_id :: string
  ob_base_sync_token :: "string option"
  ob_request_id :: uuid
  ob_state :: outbox_state
  ob_attempts :: "32 word"
  ob_depends_on :: "uuid option"
  ob_last_error :: "string option"
  ob_created_at :: utc
  ob_updated_at :: utc

definition MAX_ATTEMPTS :: "32 word" where
  "MAX_ATTEMPTS = 8"

record new_outbox_record =
  no_id :: uuid
  no_request_id :: uuid
  no_realm :: realm_id
  no_entity_type :: entity_type
  no_operation :: operation
  no_payload :: json
  no_local_id :: string
  no_base_sync_token :: "string option"

definition new_record :: "new_outbox_record \<Rightarrow> utc \<Rightarrow> outbox_record" where
  "new_record given now =
     \<lparr>ob_id = no_id given, ob_realm = no_realm given, ob_entity_type = no_entity_type given,
      ob_operation = no_operation given, ob_payload = no_payload given, ob_local_id = no_local_id given,
      ob_base_sync_token = no_base_sync_token given, ob_request_id = no_request_id given, ob_state = Pending,
      ob_attempts = 0, ob_depends_on = None, ob_last_error = None, ob_created_at = now, ob_updated_at = now\<rparr>"

definition depending_on :: "outbox_record \<Rightarrow> uuid \<Rightarrow> outbox_record" where
  "depending_on r parent = r\<lparr>ob_depends_on := Some parent\<rparr>"

definition is_eligible :: "outbox_record \<Rightarrow> bool \<Rightarrow> bool" where
  "is_eligible r dependency_applied \<longleftrightarrow> is_drainable (ob_state r) \<and> (ob_depends_on r = None \<or> dependency_applied)"

section \<open>Operations\<close>

type_synonym record_op = "outbox_record \<Rightarrow> (outbox_error + unit) \<times> outbox_record"

definition transition :: "outbox_state \<Rightarrow> utc \<Rightarrow> record_op" where
  "transition next_state now r =
     (if \<not> can_transition_to (ob_state r) next_state then (Inl (IllegalTransition (ob_state r) next_state), r)
      else (Inr (), r\<lparr>ob_state := next_state, ob_updated_at := now\<rparr>))"

definition begin_attempt :: "bool \<Rightarrow> utc \<Rightarrow> record_op" where
  "begin_attempt dependency_applied now r =
     (if ob_depends_on r \<noteq> None \<and> \<not> dependency_applied then (Inl (DependencyNotSatisfied (ob_id r)), r)
      else case transition InFlight now r of
          (Inl e, r) \<Rightarrow> (Inl e, r)
        | (Inr _, r) \<Rightarrow> (Inr (), r\<lparr>ob_attempts := ob_attempts r + 1\<rparr>))"

definition mark_applied :: "utc \<Rightarrow> record_op" where
  "mark_applied now r = transition Applied now (r\<lparr>ob_last_error := None\<rparr>)"

definition failure_state :: "drain_failure \<Rightarrow> 32 word \<Rightarrow> outbox_state" where
  "failure_state f attempts =
     (case f of
        F_Transient _ \<Rightarrow> if attempts < MAX_ATTEMPTS then Pending else Rejected
      | F_StaleSyncToken \<Rightarrow> Conflicted
      | F_Rejected _ \<Rightarrow> Rejected)"

fun failure_message :: "drain_failure \<Rightarrow> string" where
  "failure_message (F_Transient m) = m"
| "failure_message F_StaleSyncToken = ''stale SyncToken: record changed in QBO''"
| "failure_message (F_Rejected m) = m"

definition mark_failed :: "drain_failure \<Rightarrow> utc \<Rightarrow> record_op" where
  "mark_failed f now r =
     transition (failure_state f (ob_attempts r)) now (r\<lparr>ob_last_error := Some (failure_message f)\<rparr>)"

definition recover_in_flight :: "utc \<Rightarrow> record_op" where
  "recover_in_flight now r = transition Pending now r"

definition resolve :: "utc \<Rightarrow> record_op" where
  "resolve now r = transition Pending now (r\<lparr>ob_attempts := 0, ob_last_error := None\<rparr>)"

definition discard :: "utc \<Rightarrow> record_op" where
  "discard now r = transition Discarded now r"

definition needs_query_before_create :: "outbox_record \<Rightarrow> bool" where
  "needs_query_before_create r \<longleftrightarrow> ob_operation r = Create \<and> requires_query_before_create (ob_entity_type r)"

section \<open>What an operation can do to a record\<close>

text \<open>The columns fixed when the record is made; the sync token is set again only by a person's retry.\<close>

definition identity :: "outbox_record \<Rightarrow> outbox_record" where
  "identity r = r\<lparr>ob_state := Pending, ob_attempts := 0, ob_last_error := None, ob_updated_at := 0\<rparr>"

lemma identity_fields:
  "identity r = identity s \<Longrightarrow> ob_id r = ob_id s \<and> ob_realm r = ob_realm s \<and> ob_entity_type r = ob_entity_type s \<and>
     ob_operation r = ob_operation s \<and> ob_payload r = ob_payload s \<and> ob_local_id r = ob_local_id s \<and>
     ob_base_sync_token r = ob_base_sync_token s \<and> ob_request_id r = ob_request_id s \<and>
     ob_depends_on r = ob_depends_on s \<and> ob_created_at r = ob_created_at s"
  by (cases r; cases s) (simp add: identity_def)

lemma identity_update [simp]:
  "identity (r\<lparr>ob_state := a\<rparr>) = identity r" "identity (r\<lparr>ob_attempts := b\<rparr>) = identity r"
  "identity (r\<lparr>ob_last_error := c\<rparr>) = identity r" "identity (r\<lparr>ob_updated_at := d\<rparr>) = identity r"
  by (cases r; simp add: identity_def)+

lemma transition_cases:
  "transition n now r = (Inr (), r\<lparr>ob_state := n, ob_updated_at := now\<rparr>) \<and> can_transition_to (ob_state r) n \<or>
   transition n now r = (Inl (IllegalTransition (ob_state r) n), r) \<and> \<not> can_transition_to (ob_state r) n"
  by (simp add: transition_def)

text \<open>The operations of a record, as its owners call them.\<close>

datatype record_step =
  Begin bool utc | Succeed utc | Fail drain_failure utc | Recover utc | Resolve utc | Discard utc

fun step_record :: "record_step \<Rightarrow> record_op" where
  "step_record (Begin dep now) = begin_attempt dep now"
| "step_record (Succeed now) = mark_applied now"
| "step_record (Fail f now) = mark_failed f now"
| "step_record (Recover now) = recover_in_flight now"
| "step_record (Resolve now) = resolve now"
| "step_record (Discard now) = discard now"

lemmas step_defs =
  begin_attempt_def mark_applied_def mark_failed_def recover_in_flight_def resolve_def discard_def transition_def

lemma step_identity: "identity (snd (step_record s r)) = identity r"
  by (cases s) (auto simp: step_defs)

lemma step_transitions:
  "step_record s r = (x, r') \<Longrightarrow> ob_state r' = ob_state r \<or> can_transition_to (ob_state r) (ob_state r')"
  by (cases s) (auto simp: step_defs split: if_splits)

lemma step_error_state: "step_record s r = (Inl e, r') \<Longrightarrow> ob_state r' = ob_state r"
  by (cases s) (auto simp: step_defs split: if_splits)

lemma terminal_stuck: "is_terminal s \<Longrightarrow> \<not> can_transition_to s t"
  by (cases s; cases t) auto

lemma terminal_step: "is_terminal (ob_state r) \<Longrightarrow> fst (step_record s r) \<noteq> Inr () \<and> ob_state (snd (step_record s r)) = ob_state r"
  by (cases s) (auto simp: step_defs terminal_stuck simp del: is_terminal.simps)

end
