(* ===== verification/Worker.thy ===== *)
theory Worker
  imports Outbox
begin

text \<open>
  The drain worker (\<open>worker.rs\<close>): one pass over the queue of outbox records. Everything the pass does to
  the outside - a record persisted, a request sent to QuickBooks with its answer, the two hooks - is an
  event of its trace, and what the outside answers is an arbitrary function of the trace so far, so
  a statement about every outside is a statement about every database and every QuickBooks.
\<close>

section \<open>Local ids in payloads\<close>

definition LOCAL_ID_PREFIX :: string where
  "LOCAL_ID_PREFIX = ''local:''"

definition is_local :: "string \<Rightarrow> bool" where
  "is_local text \<longleftrightarrow> starts_with LOCAL_ID_PREFIX text"

type_synonym id_map = "string \<times> string \<Rightarrow> string option"

definition rewrite_text :: "realm_id \<Rightarrow> id_map \<Rightarrow> string \<Rightarrow> json \<times> bool" where
  "rewrite_text realm ids text =
     (if is_local text then
        case ids (realm_as_str realm, text) of
          Some qbo_id \<Rightarrow> (JString qbo_id, True)
        | None \<Rightarrow> (JString text, False)
      else (JString text, True))"

primrec rewrite_local_ids :: "realm_id \<Rightarrow> id_map \<Rightarrow> json \<Rightarrow> json \<times> bool" where
  "rewrite_local_ids realm ids JNull = (JNull, True)"
| "rewrite_local_ids realm ids (JBool b) = (JBool b, True)"
| "rewrite_local_ids realm ids (JNumber n) = (JNumber n, True)"
| "rewrite_local_ids realm ids (JString text) = rewrite_text realm ids text"
| "rewrite_local_ids realm ids (JArray items) =
     (let rewritten = map (rewrite_local_ids realm ids) items
      in (JArray (map fst rewritten), list_all snd rewritten))"
| "rewrite_local_ids realm ids (JObject members) =
     (let rewritten = map (map_prod id (rewrite_local_ids realm ids)) members
      in (JObject (map (\<lambda>(key, item). (key, fst item)) rewritten), list_all (\<lambda>(key, item). snd item) rewritten))"

text \<open>\<open>local_references\<close> of \<open>writes.rs\<close>: every local id a payload mentions.\<close>

primrec local_references :: "json \<Rightarrow> string set" where
  "local_references JNull = {}"
| "local_references (JBool b) = {}"
| "local_references (JNumber n) = {}"
| "local_references (JString s) = (if is_local s then {s} else {})"
| "local_references (JArray items) = \<Union> (set (map local_references items))"
| "local_references (JObject members) = \<Union> (set (map (\<lambda>(key, refs). refs) (map (map_prod id local_references) members)))"

text \<open>The name a create is looked up by, for the two types whose names are unique.\<close>

definition unique_name_field :: "entity_type \<Rightarrow> string option" where
  "unique_name_field e = (if e = Customer then Some ''DisplayName'' else if e = Item then Some ''Name'' else None)"

definition unique_name_of :: "entity_type \<Rightarrow> json \<Rightarrow> string option" where
  "unique_name_of e payload =
     Option.bind (unique_name_field e) (\<lambda>field. Option.bind (json_get payload field) json_str)"

section \<open>The outside\<close>

datatype qbo_error = StaleSyncToken | Validation string | RateLimited | Network string | NotFound | DailyBudgetExhausted string

fun is_transient :: "qbo_error \<Rightarrow> bool" where
  "is_transient RateLimited = True"
| "is_transient (Network _) = True"
| "is_transient _ = False"

fun qbo_error_str :: "qbo_error \<Rightarrow> string" where
  "qbo_error_str StaleSyncToken = ''stale SyncToken''"
| "qbo_error_str (Validation m) = ''validation failure: '' @ m"
| "qbo_error_str RateLimited = ''rate limited''"
| "qbo_error_str (Network m) = ''network failure: '' @ m"
| "qbo_error_str NotFound = ''not found''"
| "qbo_error_str (DailyBudgetExhausted m) = m"

text \<open>Of the entity a call returns the worker reads the id alone.\<close>

datatype event =
    Persisted outbox_record
  | Persist_failed outbox_record string
  | Found realm_id entity_type string "qbo_error + string option"
  | Created realm_id entity_type json uuid "qbo_error + string"
  | Updated realm_id entity_type string json string uuid "qbo_error + string"
  | Transitioned outbox_record "string option"
  | Crash_point nat

type_synonym trace = "event list"

record outside =
  o_persist :: "trace \<Rightarrow> outbox_record \<Rightarrow> string + unit"
  o_find_by_name :: "trace \<Rightarrow> realm_id \<Rightarrow> entity_type \<Rightarrow> string \<Rightarrow> qbo_error + string option"
  o_create :: "trace \<Rightarrow> realm_id \<Rightarrow> entity_type \<Rightarrow> json \<Rightarrow> uuid \<Rightarrow> qbo_error + string"
  o_update :: "trace \<Rightarrow> realm_id \<Rightarrow> entity_type \<Rightarrow> string \<Rightarrow> json \<Rightarrow> string \<Rightarrow> uuid \<Rightarrow> qbo_error + string"
  o_hooked :: bool

definition persist_event :: "outside \<Rightarrow> trace \<Rightarrow> outbox_record \<Rightarrow> event" where
  "persist_event w t r = (case o_persist w t r of Inl m \<Rightarrow> Persist_failed r m | Inr _ \<Rightarrow> Persisted r)"

section \<open>Issuing one request\<close>

text \<open>\<open>issue\<close>: its calls, and the id the record landed under with whether it was adopted.\<close>

definition issue :: "outside \<Rightarrow> id_map \<Rightarrow> trace \<Rightarrow> outbox_record \<Rightarrow> json \<Rightarrow> (qbo_error + string \<times> bool) \<times> trace" where
  "issue w ids t r payload =
     (let realm = ob_realm r; e = ob_entity_type r in
      case ob_operation r of
        Create \<Rightarrow>
          (let create = (\<lambda>t. case o_create w t realm e payload (ob_request_id r) of
                  answer \<Rightarrow> (map_sum id (\<lambda>qbo_id. (qbo_id, False)) answer,
                    t @ [Created realm e payload (ob_request_id r) answer]))
           in case (if needs_query_before_create r then unique_name_of e payload else None) of
                None \<Rightarrow> create t
              | Some name \<Rightarrow>
                  (let answer = o_find_by_name w t realm e name; t = t @ [Found realm e name answer]
                   in case answer of
                        Inl err \<Rightarrow> (Inl err, t)
                      | Inr (Some qbo_id) \<Rightarrow> (Inr (qbo_id, True), t)
                      | Inr None \<Rightarrow> create t))
      | Update \<Rightarrow>
          (let qbo_id = unwrap_or (ids (realm_as_str realm, ob_local_id r)) (ob_local_id r);
               token = unwrap_or (ob_base_sync_token r) [];
               answer = o_update w t realm e qbo_id payload token (ob_request_id r)
           in (map_sum id (\<lambda>qbo_id. (qbo_id, False)) answer,
               t @ [Updated realm e qbo_id payload token (ob_request_id r) answer])))"

definition failure_of :: "qbo_error \<Rightarrow> drain_failure" where
  "failure_of err =
     (if err = StaleSyncToken then F_StaleSyncToken
      else if is_transient err then F_Transient (qbo_error_str err) else F_Rejected (qbo_error_str err))"

section \<open>One pass\<close>

record drain_report =
  dr_applied :: nat
  dr_adopted :: nat
  dr_conflicted :: nat
  dr_rejected :: nat
  dr_retried :: nat
  dr_blocked :: nat

definition empty_drain_report :: drain_report where
  "empty_drain_report = \<lparr>dr_applied = 0, dr_adopted = 0, dr_conflicted = 0, dr_rejected = 0, dr_retried = 0, dr_blocked = 0\<rparr>"

type_synonym entity_key = "string \<times> entity_type \<times> string"

definition entity_key :: "outbox_record \<Rightarrow> entity_key" where
  "entity_key r = (realm_as_str (ob_realm r), ob_entity_type r, ob_local_id r)"

record drain_state =
  ds_trace :: trace
  ds_id_map :: id_map
  ds_applied_calls :: nat
  ds_records :: "outbox_record list"
  ds_states :: "uuid \<Rightarrow> outbox_state option"
  ds_blocked :: "entity_key set"
  ds_report :: drain_report

definition block :: "outbox_record \<Rightarrow> drain_state \<Rightarrow> drain_state" where
  "block r st = st\<lparr>ds_blocked := insert (entity_key r) (ds_blocked st)\<rparr>"

definition count_blocked :: "drain_state \<Rightarrow> drain_state" where
  "count_blocked st = st\<lparr>ds_report := (ds_report st)\<lparr>dr_blocked := dr_blocked (ds_report st) + 1\<rparr>\<rparr>"

definition put_record :: "nat \<Rightarrow> outbox_record \<Rightarrow> drain_state \<Rightarrow> drain_state" where
  "put_record i r st = st\<lparr>ds_records := (ds_records st)[i := r]\<rparr>"

definition emit :: "event list \<Rightarrow> drain_state \<Rightarrow> drain_state" where
  "emit es st = st\<lparr>ds_trace := ds_trace st @ es\<rparr>"

definition hooks :: "outside \<Rightarrow> event list \<Rightarrow> event list" where
  "hooks w es = (if o_hooked w then es else [])"

definition dependency_applied :: "drain_state \<Rightarrow> outbox_record \<Rightarrow> bool" where
  "dependency_applied st r = (case ob_depends_on r of None \<Rightarrow> True | Some parent \<Rightarrow> ds_states st parent = Some Applied)"

text \<open>The request is answered: the \<open>match outcome\<close> of the loop body.\<close>

definition land :: "outside \<Rightarrow> utc \<Rightarrow> nat \<Rightarrow> outbox_record \<Rightarrow> string \<Rightarrow> bool \<Rightarrow> drain_state \<Rightarrow> drain_state" where
  "land w now i r qbo_id adopted st =
     (let calls = ds_applied_calls st + 1;
          st = emit (hooks w [Crash_point calls]) st;
          landed = snd (mark_applied now r);
          st = emit [persist_event w (ds_trace st) landed] (put_record i landed st);
          st = emit (hooks w [Transitioned landed (Some qbo_id)]) st;
          rep = ds_report st
      in st\<lparr>ds_applied_calls := calls,
            ds_id_map := (ds_id_map st)((realm_as_str (ob_realm r), ob_local_id r) \<mapsto> qbo_id),
            ds_states := (ds_states st)(ob_id r \<mapsto> Applied),
            ds_report := rep\<lparr>dr_applied := dr_applied rep + 1,
              dr_adopted := dr_adopted rep + (if adopted then 1 else 0)\<rparr>\<rparr>)"

definition count_failed :: "outbox_state \<Rightarrow> drain_report \<Rightarrow> drain_report" where
  "count_failed s rep =
     (case s of
        Conflicted \<Rightarrow> rep\<lparr>dr_conflicted := dr_conflicted rep + 1\<rparr>
      | Rejected \<Rightarrow> rep\<lparr>dr_rejected := dr_rejected rep + 1\<rparr>
      | _ \<Rightarrow> rep\<lparr>dr_retried := dr_retried rep + 1\<rparr>)"

definition fall :: "outside \<Rightarrow> utc \<Rightarrow> nat \<Rightarrow> outbox_record \<Rightarrow> qbo_error \<Rightarrow> drain_state \<Rightarrow> drain_state" where
  "fall w now i r err st =
     (let failed = snd (mark_failed (failure_of err) now r);
          st = emit [persist_event w (ds_trace st) failed] (put_record i failed st);
          st = emit (hooks w [Transitioned failed None]) st
      in block r (st\<lparr>ds_states := (ds_states st)(ob_id r \<mapsto> ob_state failed),
            ds_report := count_failed (ob_state failed) (ds_report st)\<rparr>))"

definition attempt :: "outside \<Rightarrow> utc \<Rightarrow> nat \<Rightarrow> outbox_record \<Rightarrow> json \<Rightarrow> drain_state \<Rightarrow> drain_state" where
  "attempt w now i r payload st =
     (let (begun, r) = begin_attempt True now r in
      if begun \<noteq> Inr () then block r (count_blocked (put_record i r st))
      else case o_persist w (ds_trace st) r of
          Inl m \<Rightarrow>
            (let st = emit [Persist_failed r m] st;
                 r = snd (mark_failed (F_Transient (''not sent: '' @ m)) now r)
             in block r (count_blocked (put_record i r st)))
        | Inr _ \<Rightarrow>
            (let st = emit ([Persisted r] @ hooks w [Transitioned r None]) (put_record i r st)
             in case issue w (ds_id_map st) (ds_trace st) r payload of
                  (Inr (qbo_id, adopted), t) \<Rightarrow> land w now i r qbo_id adopted (st\<lparr>ds_trace := t\<rparr>)
                | (Inl err, t) \<Rightarrow> fall w now i r err (st\<lparr>ds_trace := t\<rparr>)))"

text \<open>The body of the loop over the queue.\<close>

definition drain_record :: "outside \<Rightarrow> utc \<Rightarrow> nat \<Rightarrow> drain_state \<Rightarrow> drain_state" where
  "drain_record w now i st =
     (let r = ds_records st ! i in
      if \<not> is_drainable (ob_state r) then
        (if \<not> is_terminal (ob_state r) then block r st else st)
      else if \<not> dependency_applied st r \<or> entity_key r \<in> ds_blocked st then block r (count_blocked st)
      else case rewrite_local_ids (ob_realm r) (ds_id_map st) (ob_payload r) of
          (payload, references_resolved) \<Rightarrow>
            if \<not> references_resolved then block r (count_blocked st)
            else attempt w now i r payload st)"

definition drain_order :: "outbox_record list \<Rightarrow> nat list" where
  "drain_order records = sort_key (\<lambda>i. ob_id (records ! i)) [0..<length records]"

definition drain_start :: "id_map \<Rightarrow> trace \<Rightarrow> outbox_record list \<Rightarrow> drain_state" where
  "drain_start ids t records =
     \<lparr>ds_trace = t, ds_id_map = ids, ds_applied_calls = 0, ds_records = records,
      ds_states = map_of (rev (map (\<lambda>r. (ob_id r, ob_state r)) records)), ds_blocked = {}, ds_report = empty_drain_report\<rparr>"

definition drain_with :: "outside \<Rightarrow> utc \<Rightarrow> id_map \<Rightarrow> trace \<Rightarrow> outbox_record list \<Rightarrow> drain_state" where
  "drain_with w now ids t records = fold (drain_record w now) (drain_order records) (drain_start ids t records)"

end
