(* ===== verification/Worker_Facts.thy ===== *)
theory Worker_Facts
  imports Worker "HOL-Library.Sublist"
begin

text \<open>
  What a drain pass does: the payloads it sends, the order it keeps, what is on disk whenever a
  request goes out, and that the queue comes to rest.
\<close>

section \<open>Payloads\<close>

lemma rewrite_resolved_iff:
  "snd (rewrite_local_ids realm ids v) \<longleftrightarrow> (\<forall>s \<in> local_references v. ids (realm_as_str realm, s) \<noteq> None)"
proof (induction v)
  case (JString s)
  then show ?case by (simp add: rewrite_text_def split: option.split)
next
  case (JArray items)
  then show ?case by (auto simp: Let_def list_all_iff)
next
  case (JObject members)
  then show ?case by (force simp: Let_def list_all_iff)
qed simp_all

definition real_ids :: "id_map \<Rightarrow> bool" where
  "real_ids ids \<longleftrightarrow> (\<forall>k v. ids k = Some v \<longrightarrow> \<not> is_local v)"

lemma rewrite_leaves_no_local:
  assumes "real_ids ids" "snd (rewrite_local_ids realm ids v)"
  shows "local_references (fst (rewrite_local_ids realm ids v)) = {}"
  using assms(2)
proof (induction v)
  case (JString s)
  then show ?case using assms(1) by (auto simp: rewrite_text_def real_ids_def split: option.splits)
next
  case (JArray items)
  then show ?case by (auto simp: Let_def list_all_iff)
next
  case (JObject members)
  then show ?case by (fastforce simp: Let_def list_all_iff)
qed simp_all

lemma rewrite_without_local: "local_references v = {} \<Longrightarrow> rewrite_local_ids realm ids v = (v, True)"
proof (induction v)
  case (JString s)
  then show ?case by (simp add: rewrite_text_def split: if_splits)
next
  case (JArray items)
  then have "\<forall>v \<in> set items. rewrite_local_ids realm ids v = (v, True)" by auto
  then show ?case by (auto simp: Let_def list_all_iff intro!: map_idI)
next
  case (JObject members)
  then have "\<forall>m \<in> set members. rewrite_local_ids realm ids (snd m) = (snd m, True)" by (fastforce simp: prod_set_defs)
  then show ?case by (auto simp: Let_def list_all_iff intro!: map_idI)
qed simp_all

section \<open>Traces\<close>

fun call_of :: "event \<Rightarrow> uuid option" where
  "call_of (Created _ _ _ q _) = Some q"
| "call_of (Updated _ _ _ _ _ q _) = Some q"
| "call_of _ = None"

text \<open>The \<open>RequestId\<close>s of the writes sent, in order.\<close>

definition sends :: "trace \<Rightarrow> uuid list" where
  "sends = List.map_filter call_of"

fun saved_as :: "uuid \<Rightarrow> event \<Rightarrow> outbox_record option" where
  "saved_as i (Persisted r) = (if ob_id r = i then Some r else None)"
| "saved_as i _ = None"

text \<open>The states of one record that reached the disk.\<close>

definition saves :: "uuid \<Rightarrow> trace \<Rightarrow> outbox_record list" where
  "saves i = List.map_filter (saved_as i)"

fun begins_attempt :: "event \<Rightarrow> bool" where
  "begins_attempt (Persisted r) \<longleftrightarrow> ob_state r = InFlight"
| "begins_attempt (Persist_failed r _) \<longleftrightarrow> ob_state r = InFlight"
| "begins_attempt _ = False"

definition tries :: "trace \<Rightarrow> nat" where
  "tries t = length (filter begins_attempt t)"

lemma trace_simps [simp]:
  "sends [] = []" "sends (e # t) = (case call_of e of None \<Rightarrow> sends t | Some q \<Rightarrow> q # sends t)"
  "sends (t @ u) = sends t @ sends u"
  "saves i [] = []" "saves i (e # t) = (case saved_as i e of None \<Rightarrow> saves i t | Some r \<Rightarrow> r # saves i t)"
  "saves i (t @ u) = saves i t @ saves i u"
  "tries [] = 0" "tries (e # t) = (if begins_attempt e then 1 else 0) + tries t" "tries (t @ u) = tries t + tries u"
  by (simp_all add: sends_def saves_def tries_def List.map_filter_def split: option.split)

lemma hooks_quiet [simp]:
  "sends (hooks w [Transitioned r q]) = []" "saves i (hooks w [Transitioned r q]) = []" "tries (hooks w [Transitioned r q]) = 0"
  "sends (hooks w [Crash_point n]) = []" "saves i (hooks w [Crash_point n]) = []" "tries (hooks w [Crash_point n]) = 0"
  by (simp_all add: hooks_def)

lemma persist_quiet [simp]: "sends [persist_event w t r] = []" "call_of (persist_event w t r) = None"
  "begins_attempt (persist_event w t r) \<longleftrightarrow> ob_state r = InFlight"
  by (auto simp: persist_event_def split: sum.split)

lemma tries_single: "tries [persist_event w t r] = (if ob_state r = InFlight then 1 else 0)"
  by simp

section \<open>One record of a pass\<close>

text \<open>The record as its attempt begins.\<close>

definition begun :: "utc \<Rightarrow> outbox_record \<Rightarrow> outbox_record" where
  "begun now r = r\<lparr>ob_state := InFlight, ob_updated_at := now, ob_attempts := ob_attempts r + 1\<rparr>"

lemma begin_drainable: "ob_state r = Pending \<Longrightarrow> begin_attempt True now r = (Inr (), begun now r)"
  by (simp add: begin_attempt_def transition_def begun_def)

lemma begun_facts [simp]:
  "ob_state (begun now r) = InFlight" "ob_attempts (begun now r) = ob_attempts r + 1" "identity (begun now r) = identity r"
  "ob_id (begun now r) = ob_id r" "ob_realm (begun now r) = ob_realm r" "ob_local_id (begun now r) = ob_local_id r"
  "ob_request_id (begun now r) = ob_request_id r" "ob_entity_type (begun now r) = ob_entity_type r"
  "entity_key (begun now r) = entity_key r" "ob_operation (begun now r) = ob_operation r"
  "ob_base_sync_token (begun now r) = ob_base_sync_token r"
  by (simp_all add: begun_def entity_key_def)

lemma mark_applied_begun:
  "mark_applied now (begun now r) = (Inr (), (begun now r)\<lparr>ob_last_error := None, ob_state := Applied\<rparr>)"
  by (simp add: mark_applied_def transition_def begun_def)

lemma failure_transition: "can_transition_to InFlight (failure_state f a)"
  by (cases f) (simp_all add: failure_state_def)

lemma mark_failed_begun:
  "mark_failed f now (begun now r) = (Inr (), (begun now r)\<lparr>ob_last_error := Some (failure_message f),
     ob_state := failure_state f (ob_attempts r + 1)\<rparr>)"
  by (simp add: mark_failed_def transition_def failure_transition begun_def)

lemma failure_state_open: "failure_state f a \<in> {Pending, Conflicted, Rejected}"
  by (cases f) (simp_all add: failure_state_def)

lemma failure_state_not [simp]: "failure_state f a \<noteq> InFlight" "failure_state f a \<noteq> Applied" "failure_state f a \<noteq> Discarded"
  using failure_state_open[of f a] by auto

lemma entity_key_updates [simp]:
  "entity_key (r\<lparr>ob_state := s\<rparr>) = entity_key r" "entity_key (r\<lparr>ob_last_error := m\<rparr>) = entity_key r"
  by (simp_all add: entity_key_def)

section \<open>Requests\<close>

text \<open>A call is about a record when it carries that record's write.\<close>

fun call_about :: "outbox_record \<Rightarrow> json \<Rightarrow> event \<Rightarrow> bool" where
  "call_about r payload (Created realm e p q _) \<longleftrightarrow>
     ob_operation r = Create \<and> realm = ob_realm r \<and> e = ob_entity_type r \<and> p = payload \<and> q = ob_request_id r"
| "call_about r payload (Updated realm e _ p token q _) \<longleftrightarrow>
     ob_operation r = Update \<and> realm = ob_realm r \<and> e = ob_entity_type r \<and> p = payload \<and>
     token = unwrap_or (ob_base_sync_token r) [] \<and> q = ob_request_id r"
| "call_about r payload _ = False"

text \<open>QuickBooks hands out no id with the local prefix.\<close>

definition real_answers :: "outside \<Rightarrow> bool" where
  "real_answers w \<longleftrightarrow>
     (\<forall>t realm e n q. o_find_by_name w t realm e n = Inr (Some q) \<longrightarrow> \<not> is_local q) \<and>
     (\<forall>t realm e p i q. o_create w t realm e p i = Inr q \<longrightarrow> \<not> is_local q) \<and>
     (\<forall>t realm e o' p s i q. o_update w t realm e o' p s i = Inr q \<longrightarrow> \<not> is_local q)"

definition only_calls :: "outbox_record \<Rightarrow> json \<Rightarrow> event list \<Rightarrow> bool" where
  "only_calls r payload es \<longleftrightarrow>
     (sends es = [] \<or> sends es = [ob_request_id r]) \<and> tries es = 0 \<and> (\<forall>i. saves i es = []) \<and> (\<forall>x. Persisted x \<notin> set es) \<and>
     (\<forall>e \<in> set es. call_of e \<noteq> None \<longrightarrow> call_about r payload e)"

lemma issue_events:
  obtains es where "snd (issue w ids t r payload) = t @ es" "only_calls r payload es"
proof -
  have "\<exists>es. snd (issue w ids t r payload) = t @ es \<and> only_calls r payload es"
    by (cases "ob_operation r")
      (auto simp: issue_def Let_def only_calls_def split: option.split sum.split)
  then show thesis using that by blast
qed

declare map_sum_Inr_iff [simp]

lemma issue_real: "real_answers w \<Longrightarrow> fst (issue w ids t r payload) = Inr (q, adopted) \<Longrightarrow> \<not> is_local q"
  by (cases "ob_operation r")
    (auto simp: issue_def Let_def real_answers_def split: option.splits sum.splits)

section \<open>What one step of the pass changes\<close>

definition work :: "outbox_record \<Rightarrow> nat" where
  "work r = (if ob_state r = Pending then max 1 (8 - unat (ob_attempts r)) else 0)"

text \<open>A record as the queue keeps it: its count is within the limit.\<close>

definition tame :: "outbox_record \<Rightarrow> bool" where
  "tame r \<longleftrightarrow> unat (ob_attempts r) \<le> 8"

lemma attempts_next: "tame r \<Longrightarrow> unat (ob_attempts r + 1) = unat (ob_attempts r) + 1"
  by (subst unat_plus_if') (simp add: tame_def)

lemma failure_pending_iff:
  "tame r \<Longrightarrow> failure_state f (ob_attempts r + 1) = Pending \<longleftrightarrow> (\<exists>m. f = F_Transient m) \<and> unat (ob_attempts r) + 1 < 8"
  by (cases f) (auto simp: failure_state_def word_less_nat_alt attempts_next MAX_ATTEMPTS_def)

lemma work_spent:
  assumes "tame r" "ob_state r = Pending" "ob_attempts r' = ob_attempts r + 1"
    "ob_state r' = failure_state f (ob_attempts r + 1) \<or> ob_state r' = Applied"
  shows "work r' + 1 \<le> work r"
  using assms failure_pending_iff[OF assms(1), of f] attempts_next[OF assms(1)]
  by (auto simp: work_def split: if_splits)

lemma tame_kept:
  assumes "tame r" "ob_attempts r' = ob_attempts r + 1"
    "ob_state r' = failure_state f (ob_attempts r + 1) \<or> ob_state r' = Applied"
  shows "ob_state r' = Pending \<longrightarrow> tame r'"
  using assms failure_pending_iff[OF assms(1), of f] attempts_next[OF assms(1)] by (auto simp: tame_def)

text \<open>The call of a step comes after the record was persisted in flight, with nothing saved in between.\<close>

definition write_ahead :: "outbox_record \<Rightarrow> outbox_record \<Rightarrow> json \<Rightarrow> event list \<Rightarrow> bool" where
  "write_ahead r flying payload es \<longleftrightarrow>
     (\<forall>pre c post. es = pre @ c # post \<longrightarrow> call_of c \<noteq> None \<longrightarrow>
        saves (ob_id r) pre = [flying] \<and> call_about r payload c)"

definition step_effect :: "outside \<Rightarrow> utc \<Rightarrow> nat \<Rightarrow> drain_state \<Rightarrow> drain_state \<Rightarrow> outbox_record \<Rightarrow> event list \<Rightarrow> bool" where
  "step_effect w now i st st' r' es \<longleftrightarrow> (let r = ds_records st ! i; rw = rewrite_local_ids (ob_realm r) (ds_id_map st) (ob_payload r) in
     ds_records st' = (ds_records st)[i := r'] \<and> ds_trace st' = ds_trace st @ es \<and> identity r' = identity r \<and>
     ds_blocked st \<subseteq> ds_blocked st' \<and> (is_terminal (ob_state r') \<or> entity_key r \<in> ds_blocked st') \<and>
     (es = [] \<and> r' = r \<or>
      ob_state r = Pending \<and> ob_attempts r' = ob_attempts r + 1 \<and> tries es = 1 \<and>
      (ob_state r' = Applied \<or> (\<exists>f. ob_state r' = failure_state f (ob_attempts r + 1))) \<and>
      dependency_applied st r \<and> entity_key r \<notin> ds_blocked st \<and> snd rw) \<and>
     (sends es = [] \<or> sends es = [ob_request_id r]) \<and>
     (ds_states st' = ds_states st \<and> (es = [] \<or> ob_state r' \<noteq> Applied) \<or>
      es \<noteq> [] \<and> ds_states st' = (ds_states st)(ob_id r \<mapsto> ob_state r')) \<and>
     write_ahead r (begun now r) (fst rw) es \<and> (\<forall>x. Persisted x \<in> set es \<longrightarrow> identity x = identity r) \<and>
     (real_answers w \<and> real_ids (ds_id_map st) \<longrightarrow> real_ids (ds_id_map st')))"

lemma write_ahead_Nil [simp]: "write_ahead r flying payload []"
  by (simp add: write_ahead_def)

lemma write_ahead_quiet: "sends es = [] \<Longrightarrow> write_ahead r flying payload es"
  unfolding write_ahead_def by (auto split: option.splits)

lemma write_ahead_calls:
  assumes "only_calls (begun now r) payload es" "sends post' = []"
  shows "write_ahead r (begun now r) payload ([Persisted (begun now r)] @ hooks w [Transitioned (begun now r) None] @ es @ post')"
  unfolding write_ahead_def
proof (intro allI impI)
  fix pre c post
  assume split: "[Persisted (begun now r)] @ hooks w [Transitioned (begun now r) None] @ es @ post' = pre @ c # post"
    and call: "call_of c \<noteq> None"
  let ?head = "[Persisted (begun now r)] @ hooks w [Transitioned (begun now r) None]"
  have head: "\<forall>e \<in> set ?head. call_of e = None" by (simp add: hooks_def)
  have tail: "\<forall>e \<in> set post'. call_of e = None"
    using assms(2) by (induction post') (auto split: option.splits)
  from split obtain es1 es2 where parts: "pre = ?head @ es1" "es = es1 @ c # es2"
    using call head tail by (auto simp: append_eq_append_conv2 append_eq_Cons_conv Cons_eq_append_conv)
  show "saves (ob_id r) pre = [begun now r] \<and> call_about r payload c"
    using assms(1) call parts by (cases c) (auto simp: only_calls_def)
qed

text \<open>The outcome of a record in flight.\<close>

lemma land_effect:
  shows "ds_records (land w now i (begun now r) q adopted st) =
      (ds_records st)[i := (begun now r)\<lparr>ob_last_error := None, ob_state := Applied\<rparr>]"
    "\<exists>es. ds_trace (land w now i (begun now r) q adopted st) = ds_trace st @ es \<and> sends es = [] \<and> tries es = 0 \<and>
      (\<forall>x. Persisted x \<in> set es \<longrightarrow> identity x = identity r)"
    "ds_blocked (land w now i (begun now r) q adopted st) = ds_blocked st"
    "ds_states (land w now i (begun now r) q adopted st) = (ds_states st)(ob_id r \<mapsto> Applied)"
    "ds_id_map (land w now i (begun now r) q adopted st) = (ds_id_map st)((realm_as_str (ob_realm r), ob_local_id r) \<mapsto> q)"
  by (auto simp add: land_def Let_def emit_def put_record_def mark_applied_begun hooks_def persist_event_def split: sum.splits)

lemma fall_effect:
  shows "\<exists>f. ds_records (fall w now i (begun now r) err st) = (ds_records st)[i := (begun now r)\<lparr>ob_last_error := Some (failure_message f),
      ob_state := failure_state f (ob_attempts r + 1)\<rparr>] \<and>
      ds_states (fall w now i (begun now r) err st) = (ds_states st)(ob_id r \<mapsto> failure_state f (ob_attempts r + 1))"
    "\<exists>es. ds_trace (fall w now i (begun now r) err st) = ds_trace st @ es \<and> sends es = [] \<and> tries es = 0 \<and>
      (\<forall>x. Persisted x \<in> set es \<longrightarrow> identity x = identity r)"
    "ds_blocked (fall w now i (begun now r) err st) = insert (entity_key r) (ds_blocked st)"
    "ds_id_map (fall w now i (begun now r) err st) = ds_id_map st"
  by (auto simp: fall_def Let_def emit_def put_record_def block_def mark_failed_begun hooks_def persist_event_def split: sum.splits)

lemma attempt_effect:
  assumes pending: "ob_state r = Pending" and here: "r = ds_records st ! i"
    and clear: "dependency_applied st r" "entity_key r \<notin> ds_blocked st"
    and resolved: "rewrite_local_ids (ob_realm r) (ds_id_map st) (ob_payload r) = (payload, True)"
  obtains r' es where "step_effect w now i st (attempt w now i r payload st) r' es" "es \<noteq> []"
proof (cases "o_persist w (ds_trace st) (begun now r)")
  case (Inl m)
  let ?f = "F_Transient (''not sent: '' @ m)"
  let ?r = "(begun now r)\<lparr>ob_last_error := Some (failure_message ?f), ob_state := failure_state ?f (ob_attempts r + 1)\<rparr>"
  have run: "attempt w now i r payload st =
      block (begun now r) (count_blocked (put_record i ?r (emit [Persist_failed (begun now r) m] st)))"
    by (simp add: attempt_def begin_drainable pending Inl mark_failed_begun Let_def block_def)
  show thesis
    using pending clear resolved
    by (intro that[of ?r "[Persist_failed (begun now r) m]"])
      (auto simp: step_effect_def run block_def count_blocked_def put_record_def emit_def here[symmetric] Let_def
        intro: write_ahead_quiet)
next
  case (Inr u)
  let ?es1 = "[Persisted (begun now r)] @ hooks w [Transitioned (begun now r) None]"
  let ?st1 = "emit ?es1 (put_record i (begun now r) st)"
  obtain es2 where issued: "snd (issue w (ds_id_map ?st1) (ds_trace ?st1) (begun now r) payload) = ds_trace ?st1 @ es2"
    "only_calls (begun now r) payload es2" by (rule issue_events)
  let ?st2 = "?st1\<lparr>ds_trace := ds_trace ?st1 @ es2\<rparr>"
  have trace: "ds_trace ?st2 = ds_trace st @ ?es1 @ es2" by (simp add: emit_def put_record_def)
  have quiet: "sends es2 = [] \<or> sends es2 = [ob_request_id r]" "tries es2 = 0"
    using issued(2) by (auto simp: only_calls_def)
  have same: "ds_id_map ?st1 = ds_id_map st" "ds_id_map ?st2 = ds_id_map st" "ds_blocked ?st2 = ds_blocked st"
    "ds_states ?st2 = ds_states st" "ds_records ?st2 = (ds_records st)[i := begun now r]"
    by (simp_all add: emit_def put_record_def)
  show thesis
  proof (cases "fst (issue w (ds_id_map ?st1) (ds_trace ?st1) (begun now r) payload)")
    case (Inl err)
    have run: "attempt w now i r payload st = fall w now i (begun now r) err ?st2"
      using issued(1) Inl by (simp add: attempt_def begin_drainable pending Inr Let_def case_prod_unfold)
    note eff = fall_effect[of w now i r err ?st2]
    obtain f where f: "ds_records (fall w now i (begun now r) err ?st2) = (ds_records st)[i := (begun now r)\<lparr>ob_last_error := Some (failure_message f),
        ob_state := failure_state f (ob_attempts r + 1)\<rparr>]"
      "ds_states (fall w now i (begun now r) err ?st2) = (ds_states st)(ob_id r \<mapsto> failure_state f (ob_attempts r + 1))"
      using eff(1) same by auto
    obtain es3 where es3: "ds_trace (fall w now i (begun now r) err ?st2) = ds_trace st @ ?es1 @ es2 @ es3" "sends es3 = []" "tries es3 = 0"
      "\<forall>x. Persisted x \<in> set es3 \<longrightarrow> identity x = identity r"
      using eff(2) trace by auto
    let ?r = "(begun now r)\<lparr>ob_last_error := Some (failure_message f), ob_state := failure_state f (ob_attempts r + 1)\<rparr>"
    have saved: "\<forall>x. Persisted x \<in> set (?es1 @ es2 @ es3) \<longrightarrow> identity x = identity r"
      using issued(2) es3(4) by (auto simp: only_calls_def hooks_def)
    have "write_ahead r (begun now r) payload (?es1 @ es2 @ es3)"
      using write_ahead_calls[OF issued(2) es3(2), of w] by simp
    then show thesis
      using pending clear resolved quiet f es3(1-3) saved eff(3,4) same
      by (intro that[of ?r "?es1 @ es2 @ es3"]) (auto simp: step_effect_def run here[symmetric] Let_def)
  next
    case landed: (Inr x)
    obtain q adopted where x: "x = (q, adopted)" by (cases x)
    have run: "attempt w now i r payload st = land w now i (begun now r) q adopted ?st2"
      using issued(1) landed x by (simp add: attempt_def begin_drainable pending Inr Let_def case_prod_unfold)
    note eff = land_effect[of w now i r q adopted ?st2]
    obtain es3 where es3: "ds_trace (land w now i (begun now r) q adopted ?st2) = ds_trace st @ ?es1 @ es2 @ es3" "sends es3 = []" "tries es3 = 0"
      "\<forall>x. Persisted x \<in> set es3 \<longrightarrow> identity x = identity r"
      using eff(2) trace by auto
    have saved: "\<forall>x. Persisted x \<in> set (?es1 @ es2 @ es3) \<longrightarrow> identity x = identity r"
      using issued(2) es3(4) by (auto simp: only_calls_def hooks_def)
    have "write_ahead r (begun now r) payload (?es1 @ es2 @ es3)"
      using write_ahead_calls[OF issued(2) es3(2), of w] by simp
    moreover have "real_answers w \<and> real_ids (ds_id_map st) \<longrightarrow> real_ids (ds_id_map (land w now i (begun now r) q adopted ?st2))"
      using issue_real[OF _ landed[unfolded x]] eff(5) same by (auto simp: real_ids_def)
    ultimately show thesis
      using pending clear resolved quiet es3(1-3) saved eff(1,3,4) same
      by (intro that[of "(begun now r)\<lparr>ob_last_error := None, ob_state := Applied\<rparr>" "?es1 @ es2 @ es3"])
        (auto simp: step_effect_def run here[symmetric] Let_def)
  qed
qed

lemma drain_record_effect:
  obtains r' es where "step_effect w now i st (drain_record w now i st) r' es"
proof -
  define r where "r = ds_records st ! i"
  have still: "ds_records st = (ds_records st)[i := r]" by (simp add: r_def)
  obtain payload ok where rw: "rewrite_local_ids (ob_realm r) (ds_id_map st) (ob_payload r) = (payload, ok)"
    by fastforce
  have body: "drain_record w now i st =
      (if ob_state r \<noteq> Pending then (if \<not> is_terminal (ob_state r) then block r st else st)
       else if \<not> dependency_applied st r \<or> entity_key r \<in> ds_blocked st \<or> \<not> ok then block r (count_blocked st)
       else attempt w now i r payload st)"
    by (simp add: drain_record_def r_def[symmetric] Let_def rw)
  consider (passed) "\<not> is_drainable (ob_state r)"
    | (held) "ob_state r = Pending" "drain_record w now i st = block r (count_blocked st)"
    | (tried) "ob_state r = Pending" "dependency_applied st r" "entity_key r \<notin> ds_blocked st" "ok"
        "drain_record w now i st = attempt w now i r payload st"
    unfolding body
    by (cases "dependency_applied st r"; cases "entity_key r \<in> ds_blocked st"; cases ok) auto
  then show thesis
  proof cases
    case passed
    then show thesis
      using still
      by (intro that[of r "[]"]) (auto simp: step_effect_def drain_record_def block_def r_def Let_def)
  next
    case held
    then show thesis
      using still
      by (intro that[of r "[]"]) (auto simp: step_effect_def block_def count_blocked_def r_def Let_def)
  next
    case tried
    show thesis using attempt_effect[OF tried(1) r_def tried(2,3)] rw tried(4,5) that by metis
  qed
qed

section \<open>The whole pass\<close>

lemma step_trace:
  assumes "step_effect w now i st st' r' es"
  shows "ds_trace st' = ds_trace st @ es" "tries es = 0 \<Longrightarrow> es = []"
  using assms unfolding step_effect_def Let_def by (simp, metis zero_neq_one)

lemma step_records:
  assumes "step_effect w now i st st' r' es" "i < length (ds_records st)"
  shows "length (ds_records st') = length (ds_records st)" "ds_records st' ! i = r'"
    "j \<noteq> i \<Longrightarrow> ds_records st' ! j = ds_records st ! j" "identity (ds_records st' ! j) = identity (ds_records st ! j)"
  using assms by (auto simp: step_effect_def Let_def nth_list_update)

text \<open>
  The records sent, as a subsequence of the order they are taken in: none of them was blocked, and one
  earlier in the order for the same entity is done with for good.
\<close>

definition no_overtaking :: "nat list \<Rightarrow> drain_state \<Rightarrow> drain_state \<Rightarrow> nat list \<Rightarrow> bool" where
  "no_overtaking js st st' ks \<longleftrightarrow>
     (\<forall>xs a ys k. js = xs @ a # ys \<longrightarrow> k \<in> set ks \<inter> set ys \<longrightarrow>
        entity_key (ds_records st ! a) = entity_key (ds_records st ! k) \<longrightarrow> is_terminal (ob_state (ds_records st' ! a)))"

definition pass_effect :: "nat list \<Rightarrow> drain_state \<Rightarrow> drain_state \<Rightarrow> nat list \<Rightarrow> event list \<Rightarrow> bool" where
  "pass_effect js st st' ks es \<longleftrightarrow>
     ds_trace st' = ds_trace st @ es \<and> length (ds_records st') = length (ds_records st) \<and>
     (\<forall>j. identity (ds_records st' ! j) = identity (ds_records st ! j)) \<and>
     (\<forall>j. j \<notin> set js \<longrightarrow> ds_records st' ! j = ds_records st ! j) \<and>
     ds_blocked st \<subseteq> ds_blocked st' \<and>
     subseq ks js \<and> sends es = map (\<lambda>k. ob_request_id (ds_records st ! k)) ks \<and>
     (\<forall>k \<in> set ks. ob_state (ds_records st ! k) = Pending \<and> entity_key (ds_records st ! k) \<notin> ds_blocked st) \<and>
     no_overtaking js st st' ks \<and>
     (\<forall>x. Persisted x \<in> set es \<longrightarrow> (\<exists>j \<in> set js. ob_state (ds_records st ! j) = Pending \<and> identity x = identity (ds_records st ! j)))"

lemma entity_key_identity: "identity r = identity s \<Longrightarrow> entity_key r = entity_key s"
  using identity_fields[of r s] by (simp add: entity_key_def)

lemma pass_runs:
  assumes "distinct js" "\<forall>j \<in> set js. j < length (ds_records st)"
  obtains ks es where "pass_effect js st (fold (drain_record w now) js st) ks es"
proof -
  have "\<exists>ks es. pass_effect js st (fold (drain_record w now) js st) ks es"
    using assms
  proof (induction js arbitrary: st)
    case Nil
    show ?case by (intro exI[of _ "[]"]) (simp add: pass_effect_def no_overtaking_def)
  next
    case (Cons i js)
    let ?st = "drain_record w now i st"
    obtain r' es1 where step: "step_effect w now i st ?st r' es1" by (rule drain_record_effect)
    have i: "i < length (ds_records st)" using Cons.prems(2) by simp
    note recs = step_records[OF step i]
    from Cons.IH[of ?st] Cons.prems recs(1) obtain ks es2 where
      rest: "pass_effect js ?st (fold (drain_record w now) js ?st) ks es2" by auto
    have same: "ds_records ?st ! k = ds_records st ! k" if "k \<in> set js" for k
      using that Cons.prems(1) recs(3)[of k] by auto
    have ks: "set ks \<subseteq> set js" using rest by (auto simp: pass_effect_def elim!: list_emb_set)
    have cleared: "ob_state (ds_records st ! k) = Pending \<and> entity_key (ds_records st ! k) \<notin> ds_blocked st" if "k \<in> set ks" for k
    proof -
      have "ds_blocked st \<subseteq> ds_blocked ?st" using step by (simp add: step_effect_def Let_def)
      moreover have "ds_records ?st ! k = ds_records st ! k" using that same ks by blast
      moreover have "ob_state (ds_records ?st ! k) = Pending \<and> entity_key (ds_records ?st ! k) \<notin> ds_blocked ?st"
        using rest that by (simp add: pass_effect_def)
      ultimately show ?thesis by (metis subsetD)
    qed
    have maps: "map (\<lambda>k. ob_request_id (ds_records ?st ! k)) ks = map (\<lambda>k. ob_request_id (ds_records st ! k)) ks"
      using same ks by auto
    have sent: "sends es1 = [] \<or> sends es1 = [ob_request_id (ds_records st ! i)] \<and> ob_state (ds_records st ! i) = Pending \<and>
        entity_key (ds_records st ! i) \<notin> ds_blocked st"
      using step by (auto simp: step_effect_def Let_def)
    have common: "ds_trace (fold (drain_record w now) js ?st) = ds_trace st @ es1 @ es2"
      "length (ds_records (fold (drain_record w now) js ?st)) = length (ds_records st)"
      "\<forall>j. identity (ds_records (fold (drain_record w now) js ?st) ! j) = identity (ds_records st ! j)"
      "\<forall>j. j \<notin> set (i # js) \<longrightarrow> ds_records (fold (drain_record w now) js ?st) ! j = ds_records st ! j"
      "ds_blocked st \<subseteq> ds_blocked (fold (drain_record w now) js ?st)"
      using rest recs(1,3,4) step[unfolded step_effect_def Let_def] unfolding pass_effect_def
      by (simp, simp, metis, metis list.set_intros, blast)
    have saved: "\<exists>j \<in> set (i # js). ob_state (ds_records st ! j) = Pending \<and> identity x = identity (ds_records st ! j)"
      if x: "Persisted x \<in> set (es1 @ es2)" for x
    proof (cases "Persisted x \<in> set es1")
      case True
      then have "ob_state (ds_records st ! i) = Pending \<and> identity x = identity (ds_records st ! i)"
        using step unfolding step_effect_def Let_def by (metis empty_iff list.set(1))
      then show ?thesis by simp
    next
      case False
      then have "\<exists>j \<in> set js. ob_state (ds_records ?st ! j) = Pending \<and> identity x = identity (ds_records ?st ! j)"
        using x rest by (simp add: pass_effect_def)
      then show ?thesis using same by auto
    qed
    have order: "no_overtaking (i # js) st (fold (drain_record w now) js ?st) (l @ ks)" if l: "l = [] \<or> l = [i]" for l
      unfolding no_overtaking_def
    proof (intro allI impI)
      fix xs a ys k
      assume split: "i # js = xs @ a # ys" and "k \<in> set (l @ ks) \<inter> set ys"
        and key: "entity_key (ds_records st ! a) = entity_key (ds_records st ! k)"
      then have k: "k \<in> set js" "k \<in> set ks" "k \<in> set ys"
        using l Cons.prems(1) by (cases xs; auto)+
      show "is_terminal (ob_state (ds_records (fold (drain_record w now) js ?st) ! a))"
      proof (cases xs)
        case Nil
        with split have a: "a = i" "i \<notin> set js" using Cons.prems(1) by simp_all
        have "entity_key (ds_records st ! i) \<notin> ds_blocked ?st"
          using rest k(2) same[OF k(1)] key a(1) by (auto simp: pass_effect_def)
        then have "is_terminal (ob_state r')" using step by (auto simp: step_effect_def Let_def simp del: is_terminal.simps)
        then show ?thesis using rest a recs(2) by (auto simp: pass_effect_def simp del: is_terminal.simps)
      next
        case (Cons x xs')
        with split have js: "js = xs' @ a # ys" by simp
        then have "a \<in> set js" by simp
        then have "entity_key (ds_records ?st ! a) = entity_key (ds_records ?st ! k)" using key same k(1) by metis
        moreover have "no_overtaking js ?st (fold (drain_record w now) js ?st) ks" using rest by (simp add: pass_effect_def)
        ultimately show ?thesis using js k(2,3) unfolding no_overtaking_def by (metis IntI)
      qed
    qed
    from sent show ?case
    proof
      assume "sends es1 = []"
      moreover have "subseq ks (i # js)" using rest by (simp add: pass_effect_def list_emb_Cons)
      ultimately show ?thesis
        using common rest cleared maps order[of "[]"] saved
        by (intro exI[of _ ks] exI[of _ "es1 @ es2"]) (simp add: pass_effect_def)
    next
      assume "sends es1 = [ob_request_id (ds_records st ! i)] \<and> ob_state (ds_records st ! i) = Pending \<and>
        entity_key (ds_records st ! i) \<notin> ds_blocked st"
      then show ?thesis
        using common rest cleared maps order[of "[i]"] saved
        by (intro exI[of _ "i # ks"] exI[of _ "es1 @ es2"]) (simp add: pass_effect_def)
    qed
  qed
  then show thesis using that by blast
qed

lemma pass_records:
  assumes "distinct js" "\<forall>j \<in> set js. j < length (ds_records st)"
  shows "length (ds_records (fold (drain_record w now) js st)) = length (ds_records st)"
    "j \<notin> set js \<Longrightarrow> ds_records (fold (drain_record w now) js st) ! j = ds_records st ! j"
    "identity (ds_records (fold (drain_record w now) js st) ! j) = identity (ds_records st ! j)"
proof -
  obtain ks es where "pass_effect js st (fold (drain_record w now) js st) ks es" by (rule pass_runs[OF assms])
  then show "length (ds_records (fold (drain_record w now) js st)) = length (ds_records st)"
    "j \<notin> set js \<Longrightarrow> ds_records (fold (drain_record w now) js st) ! j = ds_records st ! j"
    "identity (ds_records (fold (drain_record w now) js st) ! j) = identity (ds_records st ! j)"
    by (simp_all add: pass_effect_def)
qed

lemma drain_order_facts:
  "distinct (drain_order records)" "set (drain_order records) = {..<length records}"
  "sorted (map (\<lambda>i. ob_id (records ! i)) (drain_order records))"
  by (simp_all add: drain_order_def atLeast0LessThan)

lemma drain_order_bounds: "\<forall>j \<in> set (drain_order records). j < length (ds_records (drain_start ids t records))"
  by (simp add: drain_order_facts drain_start_def)

lemma earlier_in_order:
  assumes "a < length records" "k < length records" "ob_id (records ! a) < ob_id (records ! k)"
  obtains xs ys where "drain_order records = xs @ a # ys" "k \<in> set ys"
proof -
  have "a \<in> set (drain_order records)" using assms(1) by (simp add: drain_order_facts)
  then obtain xs ys where split: "drain_order records = xs @ a # ys" by (auto simp: in_set_conv_decomp)
  have "k \<in> set (drain_order records)" using assms(2) by (simp add: drain_order_facts)
  moreover have "k \<noteq> a" using assms(3) by auto
  moreover have "k \<notin> set xs"
    using drain_order_facts(3)[of records] assms(3) by (auto simp: split sorted_append)
  ultimately have "k \<in> set ys" by (simp add: split)
  then show thesis using that split by blast
qed

lemma drain_pass:
  obtains ks es where
    "ds_trace (drain_with w now ids t records) = t @ es"
    "length (ds_records (drain_with w now ids t records)) = length records"
    "\<forall>j. identity (ds_records (drain_with w now ids t records) ! j) = identity (records ! j)"
    "subseq ks (drain_order records)" "sends es = map (\<lambda>k. ob_request_id (records ! k)) ks"
    "\<forall>k \<in> set ks. ob_state (records ! k) = Pending"
    "\<forall>k \<in> set ks. \<forall>a < length records. ob_id (records ! a) < ob_id (records ! k) \<longrightarrow>
       entity_key (records ! a) = entity_key (records ! k) \<longrightarrow>
       is_terminal (ob_state (ds_records (drain_with w now ids t records) ! a))"
proof -
  let ?st = "drain_start ids t records" and ?after = "drain_with w now ids t records"
  obtain ks es where eff: "pass_effect (drain_order records) ?st ?after ks es"
    unfolding drain_with_def by (rule pass_runs[OF drain_order_facts(1) drain_order_bounds])
  have start: "ds_records ?st = records" "ds_trace ?st = t" by (simp_all add: drain_start_def)
  have "is_terminal (ob_state (ds_records ?after ! a))"
    if "k \<in> set ks" "a < length records" "ob_id (records ! a) < ob_id (records ! k)"
      "entity_key (records ! a) = entity_key (records ! k)" for k a
  proof -
    have "k \<in> set (drain_order records)" using eff that(1) by (auto simp: pass_effect_def elim!: list_emb_set)
    then have "k < length records" by (simp add: drain_order_facts)
    from earlier_in_order[OF that(2) this that(3)] obtain xs ys where "drain_order records = xs @ a # ys" "k \<in> set ys" .
    then show ?thesis
      using eff that(1,4) start(1) unfolding pass_effect_def no_overtaking_def by (metis IntI)
  qed
  with eff start show thesis by (intro that[of es ks]) (simp_all add: pass_effect_def del: is_terminal.simps)
qed

section \<open>Write-ahead\<close>

lemma pass_write_ahead:
  assumes "distinct js" "\<forall>j \<in> set js. j < length (ds_records st)" "real_answers w" "real_ids (ds_id_map st)"
  shows "\<exists>es. ds_trace (fold (drain_record w now) js st) = ds_trace st @ es \<and>
    (\<forall>pre c post. es = pre @ c # post \<longrightarrow> call_of c \<noteq> None \<longrightarrow>
      (\<exists>k \<in> set js. \<exists>payload olds. call_about (ds_records st ! k) payload c \<and> local_references payload = {} \<and>
         saves (ob_id (ds_records st ! k)) pre = olds @ [begun now (ds_records st ! k)]))"
  using assms
proof (induction js arbitrary: st)
  case Nil
  then show ?case by simp
next
  case (Cons i js)
  let ?st = "drain_record w now i st" and ?r = "ds_records st ! i"
  let ?rw = "rewrite_local_ids (ob_realm ?r) (ds_id_map st) (ob_payload ?r)"
  obtain r' es1 where step: "step_effect w now i st ?st r' es1" by (rule drain_record_effect)
  have i: "i < length (ds_records st)" using Cons.prems(2) by simp
  note recs = step_records[OF step i]
  have "real_ids (ds_id_map ?st)" using step Cons.prems(3,4) by (simp add: step_effect_def Let_def)
  with Cons.IH[of ?st] Cons.prems recs(1) obtain es2 where
    es2: "ds_trace (fold (drain_record w now) js ?st) = ds_trace ?st @ es2"
      "\<And>pre c post. es2 = pre @ c # post \<Longrightarrow> call_of c \<noteq> None \<Longrightarrow>
        \<exists>k \<in> set js. \<exists>payload olds. call_about (ds_records ?st ! k) payload c \<and> local_references payload = {} \<and>
         saves (ob_id (ds_records ?st ! k)) pre = olds @ [begun now (ds_records ?st ! k)]" by auto
  have ahead: "write_ahead ?r (begun now ?r) (fst ?rw) es1" and trace: "ds_trace ?st = ds_trace st @ es1"
    and resolved: "es1 = [] \<or> snd ?rw"
    using step by (auto simp: step_effect_def Let_def)
  have "\<exists>k \<in> set (i # js). \<exists>payload olds. call_about (ds_records st ! k) payload c \<and> local_references payload = {} \<and>
      saves (ob_id (ds_records st ! k)) pre = olds @ [begun now (ds_records st ! k)]"
    if split: "es1 @ es2 = pre @ c # post" and call: "call_of c \<noteq> None" for pre c post
  proof -
    from split consider (first) us where "es1 = pre @ c # us" | (later) us where "pre = es1 @ us" "es2 = us @ c # post"
      by (auto simp: append_eq_append_conv2 append_eq_Cons_conv)
    then show ?thesis
    proof cases
      case first
      then have "snd ?rw" using resolved by simp
      then have "local_references (fst ?rw) = {}" by (rule rewrite_leaves_no_local[OF Cons.prems(4)])
      then show ?thesis using ahead first call unfolding write_ahead_def by (metis append_Nil list.set_intros(1))
    next
      case later
      from es2(2)[OF later(2) call] obtain k payload olds where k: "k \<in> set js" "call_about (ds_records ?st ! k) payload c"
        "local_references payload = {}" "saves (ob_id (ds_records ?st ! k)) us = olds @ [begun now (ds_records ?st ! k)]" by blast
      have "ds_records ?st ! k = ds_records st ! k" using recs(3)[of k] k(1) Cons.prems(1) by auto
      then show ?thesis using k later(1)
        by (intro bexI[of _ k] exI[of _ payload] exI[of _ "saves (ob_id (ds_records st ! k)) es1 @ olds"]) simp_all
    qed
  qed
  then show ?case using es2(1) trace by (intro exI[of _ "es1 @ es2"]) simp
qed

section \<open>Retries are limited\<close>

text \<open>The attempts the pending records of a kind have left, the kind told by the \<open>RequestId\<close>.\<close>

definition work_of :: "(uuid \<Rightarrow> bool) \<Rightarrow> outbox_record list \<Rightarrow> nat" where
  "work_of P records = sum_list (map (\<lambda>r. if P (ob_request_id r) then work r else 0) records)"

definition all_tame :: "outbox_record list \<Rightarrow> bool" where
  "all_tame records \<longleftrightarrow> (\<forall>r \<in> set records. ob_state r = Pending \<longrightarrow> tame r)"

lemma work_of_updated:
  assumes "i < length records"
  shows "work_of P (records[i := r']) + (if P (ob_request_id (records ! i)) then work (records ! i) else 0) =
    work_of P records + (if P (ob_request_id r') then work r' else 0)"
  using assms
proof (induction records arbitrary: i)
  case (Cons r records)
  show ?case
  proof (cases i)
    case (Suc j)
    then show ?thesis using Cons.IH[of j] Cons.prems unfolding Suc nth_Cons_Suc by (simp add: work_of_def split del: if_split)
  qed (simp add: work_of_def)
qed simp

lemma step_work:
  assumes "step_effect w now i st st' r' es" "i < length (ds_records st)" "all_tame (ds_records st)"
  shows "length (filter P (sends es)) + work_of P (ds_records st') \<le> work_of P (ds_records st)"
    "tries es + work_of (\<lambda>_. True) (ds_records st') \<le> work_of (\<lambda>_. True) (ds_records st)" "all_tame (ds_records st')"
proof -
  let ?r = "ds_records st ! i"
  have eff: "ds_records st' = (ds_records st)[i := r']" "ob_request_id r' = ob_request_id ?r"
    "sends es = [] \<or> sends es = [ob_request_id ?r]"
    "es = [] \<and> r' = ?r \<or> ob_state ?r = Pending \<and> ob_attempts r' = ob_attempts ?r + 1 \<and> tries es = 1 \<and>
      (ob_state r' = Applied \<or> (\<exists>f. ob_state r' = failure_state f (ob_attempts ?r + 1)))"
    using assms(1) identity_fields[of r' ?r] by (auto simp: step_effect_def Let_def)
  have tame: "ob_state ?r = Pending \<longrightarrow> tame ?r" using assms(2,3) by (simp add: all_tame_def)
  have spent: "es = [] \<and> r' = ?r \<or> work r' + 1 \<le> work ?r \<and> tries es = 1"
    using eff(4) tame work_spent[of ?r r'] by blast
  then show "length (filter P (sends es)) + work_of P (ds_records st') \<le> work_of P (ds_records st)"
    "tries es + work_of (\<lambda>_. True) (ds_records st') \<le> work_of (\<lambda>_. True) (ds_records st)"
    using work_of_updated[OF assms(2), of P r'] work_of_updated[OF assms(2), of "\<lambda>_. True" r'] eff(1-3)
    by (auto split: if_splits)
  have "ob_state r' = Pending \<longrightarrow> tame r'"
    using eff(4) tame tame_kept[of ?r r'] by blast
  then show "all_tame (ds_records st')"
    using assms(3) eff(1) by (auto simp: all_tame_def dest!: set_update_subset_insert[THEN subsetD])
qed

lemma pass_work:
  assumes "\<forall>j \<in> set js. j < length (ds_records st)" "all_tame (ds_records st)"
  shows "\<exists>es. ds_trace (fold (drain_record w now) js st) = ds_trace st @ es \<and>
    length (filter P (sends es)) + work_of P (ds_records (fold (drain_record w now) js st)) \<le> work_of P (ds_records st) \<and>
    tries es + work_of (\<lambda>_. True) (ds_records (fold (drain_record w now) js st)) \<le> work_of (\<lambda>_. True) (ds_records st) \<and>
    all_tame (ds_records (fold (drain_record w now) js st))"
  using assms
proof (induction js arbitrary: st)
  case (Cons i js)
  let ?st = "drain_record w now i st"
  obtain r' es1 where step: "step_effect w now i st ?st r' es1" by (rule drain_record_effect)
  have i: "i < length (ds_records st)" using Cons.prems(1) by simp
  note here = step_work[OF step i Cons.prems(2)]
  from Cons.IH[of ?st] Cons.prems(1) here(3) step_records(1)[OF step i] obtain es2 where
    "ds_trace (fold (drain_record w now) js ?st) = ds_trace ?st @ es2"
    "length (filter P (sends es2)) + work_of P (ds_records (fold (drain_record w now) js ?st)) \<le> work_of P (ds_records ?st)"
    "tries es2 + work_of (\<lambda>_. True) (ds_records (fold (drain_record w now) js ?st)) \<le> work_of (\<lambda>_. True) (ds_records ?st)"
    "all_tame (ds_records (fold (drain_record w now) js ?st))" by auto
  moreover have "ds_trace ?st = ds_trace st @ es1" using step by (simp add: step_effect_def Let_def)
  ultimately show ?case using here(1)[of P] here(2) by (intro exI[of _ "es1 @ es2"]) auto
qed simp

text \<open>Passes one after the other, each with an outside and a clock of its own.\<close>

type_synonym queue = "id_map \<times> trace \<times> outbox_record list"

fun drain_pass :: "queue \<Rightarrow> outside \<times> utc \<Rightarrow> queue" where
  "drain_pass (ids, t, records) (w, now) =
     (let st = drain_with w now ids t records in (ds_id_map st, ds_trace st, ds_records st))"

abbreviation drain_passes :: "queue \<Rightarrow> (outside \<times> utc) list \<Rightarrow> queue" where
  "drain_passes \<equiv> foldl drain_pass"

lemma drain_start_sel [simp]:
  "ds_trace (drain_start ids t records) = t" "ds_records (drain_start ids t records) = records"
  "ds_id_map (drain_start ids t records) = ids" "ds_blocked (drain_start ids t records) = {}"
  by (simp_all add: drain_start_def)

lemma one_pass_work:
  assumes "all_tame records" "drain_pass (ids, t, records) x = (ids', t', records')"
  obtains es where "t' = t @ es" "length (filter P (sends es)) + work_of P records' \<le> work_of P records"
    "tries es + work_of (\<lambda>_. True) records' \<le> work_of (\<lambda>_. True) records" "all_tame records'"
proof -
  obtain w now where x: "x = (w, now)" by (cases x)
  show thesis
    using pass_work[OF drain_order_bounds[of records ids t], of w now P] assms x that by (auto simp: drain_with_def Let_def)
qed

lemma passes_work:
  assumes "all_tame records" "drain_passes (ids, t, records) ws = (ids', t', records')"
  shows "\<exists>es. t' = t @ es \<and> length (filter P (sends es)) + work_of P records' \<le> work_of P records"
  using assms
proof (induction ws arbitrary: ids t records)
  case (Cons x ws)
  obtain ids1 t1 records1 where one: "drain_pass (ids, t, records) x = (ids1, t1, records1)" by (metis prod_cases3)
  obtain es1 where es1: "t1 = t @ es1" "length (filter P (sends es1)) + work_of P records1 \<le> work_of P records" "all_tame records1"
    using one_pass_work[OF Cons.prems(1) one, of P] by metis
  from Cons.IH[OF es1(3), of ids1 t1] Cons.prems(2) one obtain es2 where
    "t' = t1 @ es2" "length (filter P (sends es2)) + work_of P records' \<le> work_of P records1" by auto
  then show ?case using es1(1,2) by (intro exI[of _ "es1 @ es2"]) auto
qed simp

lemma work_bound: "work r \<le> 8"
  by (simp add: work_def)

lemma work_of_bound: "work_of P records \<le> 8 * length (filter (\<lambda>r. P (ob_request_id r)) records)"
  using work_bound by (induction records) (auto simp: work_of_def intro: add_mono)

lemma drain_saves:
  assumes "Persisted x \<in> set (ds_trace (drain_with w now ids [] records))"
  shows "\<exists>k < length records. ob_state (records ! k) = Pending \<and> identity x = identity (records ! k)"
proof -
  obtain ks es where "pass_effect (drain_order records) (drain_start ids [] records) (drain_with w now ids [] records) ks es"
    unfolding drain_with_def by (rule pass_runs[OF drain_order_facts(1) drain_order_bounds])
  then have "\<exists>j \<in> set (drain_order records). ob_state (records ! j) = Pending \<and> identity x = identity (records ! j)"
    using assms by (simp add: pass_effect_def)
  then show ?thesis by (auto simp: drain_order_facts)
qed

end
