(* ===== verification/Worker_Outcome.thy ===== *)
theory Worker_Outcome
  imports Worker_Facts
begin

text \<open>
  The promises of the outbox: a landed write is final, nothing is sent that is not already on disk in
  flight, writes to one entity keep their order, retries are limited and the queue comes to rest.
\<close>

section \<open>A pass that sends nothing\<close>

lemma idle_step:
  assumes "ds_trace (drain_record w now i st) = ds_trace st"
  shows "ds_records (drain_record w now i st) = ds_records st" "ds_states (drain_record w now i st) = ds_states st"
    "ds_id_map (drain_record w now i st) = ds_id_map st"
    "ds_blocked (drain_record w now i st) \<subseteq> ds_blocked st \<union>
       (if is_terminal (ob_state (ds_records st ! i)) then {} else {entity_key (ds_records st ! i)})"
    "ob_state (ds_records st ! i) = Pending \<Longrightarrow> \<not> dependency_applied st (ds_records st ! i) \<or>
       entity_key (ds_records st ! i) \<in> ds_blocked st \<or>
       (\<exists>s \<in> local_references (ob_payload (ds_records st ! i)). ds_id_map st (realm_as_str (ob_realm (ds_records st ! i)), s) = None)"
proof -
  define r where "r = ds_records st ! i"
  obtain payload ok where rw: "rewrite_local_ids (ob_realm r) (ds_id_map st) (ob_payload r) = (payload, ok)"
    by fastforce
  then have ok: "ok \<longleftrightarrow> (\<forall>s \<in> local_references (ob_payload r). ds_id_map st (realm_as_str (ob_realm r), s) \<noteq> None)"
    by (metis rewrite_resolved_iff snd_conv)
  have body: "drain_record w now i st =
      (if ob_state r \<noteq> Pending then (if \<not> is_terminal (ob_state r) then block r st else st)
       else if \<not> dependency_applied st r \<or> entity_key r \<in> ds_blocked st \<or> \<not> ok then block r (count_blocked st)
       else attempt w now i r payload st)"
    by (simp add: drain_record_def r_def[symmetric] Let_def rw)
  have held: "\<not> (ob_state r = Pending \<and> dependency_applied st r \<and> entity_key r \<notin> ds_blocked st \<and> ok)"
  proof
    assume go: "ob_state r = Pending \<and> dependency_applied st r \<and> entity_key r \<notin> ds_blocked st \<and> ok"
    then obtain r' es where "step_effect w now i st (attempt w now i r payload st) r' es" "es \<noteq> []"
      using attempt_effect[of r st i payload w now] rw by (auto simp: r_def)
    then have "ds_trace (attempt w now i r payload st) \<noteq> ds_trace st" by (simp add: step_effect_def Let_def)
    then show False using assms body go by simp
  qed
  then show "ds_records (drain_record w now i st) = ds_records st" "ds_states (drain_record w now i st) = ds_states st"
    "ds_id_map (drain_record w now i st) = ds_id_map st"
    "ds_blocked (drain_record w now i st) \<subseteq> ds_blocked st \<union>
       (if is_terminal (ob_state (ds_records st ! i)) then {} else {entity_key (ds_records st ! i)})"
    unfolding body r_def[symmetric] by (auto simp: block_def count_blocked_def)
  show "ob_state (ds_records st ! i) = Pending \<Longrightarrow> \<not> dependency_applied st (ds_records st ! i) \<or>
       entity_key (ds_records st ! i) \<in> ds_blocked st \<or>
       (\<exists>s \<in> local_references (ob_payload (ds_records st ! i)). ds_id_map st (realm_as_str (ob_realm (ds_records st ! i)), s) = None)"
    using held ok unfolding r_def by auto
qed

lemma trace_grows: "\<exists>es. ds_trace (fold (drain_record w now) js st) = ds_trace st @ es"
proof (induction js arbitrary: st)
  case (Cons i js)
  obtain r' es where "step_effect w now i st (drain_record w now i st) r' es" by (rule drain_record_effect)
  then have "ds_trace (drain_record w now i st) = ds_trace st @ es" by (simp add: step_effect_def Let_def)
  with Cons[of "drain_record w now i st"] show ?case by auto
qed simp

lemma idle_fold:
  assumes "ds_trace (fold (drain_record w now) js st) = ds_trace st" "js = xs @ k # ys" "ob_state (ds_records st ! k) = Pending"
  shows "\<not> dependency_applied st (ds_records st ! k) \<or> entity_key (ds_records st ! k) \<in> ds_blocked st \<or>
    (\<exists>s \<in> local_references (ob_payload (ds_records st ! k)). ds_id_map st (realm_as_str (ob_realm (ds_records st ! k)), s) = None) \<or>
    (\<exists>a \<in> set xs. entity_key (ds_records st ! a) = entity_key (ds_records st ! k) \<and> \<not> is_terminal (ob_state (ds_records st ! a)))"
  using assms
proof (induction js arbitrary: st xs)
  case (Cons i js)
  let ?st = "drain_record w now i st"
  obtain es where "ds_trace (fold (drain_record w now) js ?st) = ds_trace ?st @ es" using trace_grows by blast
  moreover obtain r' es1 where "step_effect w now i st ?st r' es1" by (rule drain_record_effect)
  then have "ds_trace ?st = ds_trace st @ es1" by (simp add: step_effect_def Let_def)
  ultimately have idle: "ds_trace ?st = ds_trace st" "ds_trace (fold (drain_record w now) js ?st) = ds_trace ?st"
    using Cons.prems(1) by simp_all
  note same = idle_step[OF idle(1)]
  show ?case
  proof (cases xs)
    case Nil
    then show ?thesis using same(5) Cons.prems(2,3) by auto
  next
    case (Cons x xs')
    then have js: "js = xs' @ k # ys" "x = i" using Cons.prems(2) by simp_all
    have "dependency_applied ?st r \<longleftrightarrow> dependency_applied st r" for r
      using same(2) by (simp add: dependency_applied_def split: option.split)
    with Cons.IH[OF idle(2) js(1)] Cons.prems(3) same(1,3) have
      "\<not> dependency_applied st (ds_records st ! k) \<or> entity_key (ds_records st ! k) \<in> ds_blocked ?st \<or>
      (\<exists>s \<in> local_references (ob_payload (ds_records st ! k)). ds_id_map st (realm_as_str (ob_realm (ds_records st ! k)), s) = None) \<or>
      (\<exists>a \<in> set xs'. entity_key (ds_records st ! a) = entity_key (ds_records st ! k) \<and> \<not> is_terminal (ob_state (ds_records st ! a)))"
      by simp
    then show ?thesis using same(4) unfolding Cons js(2) by (auto split: if_splits)
  qed
qed simp

text \<open>What a pending record can be waiting for.\<close>

definition waits :: "id_map \<Rightarrow> outbox_record list \<Rightarrow> nat \<Rightarrow> bool" where
  "waits ids records k \<longleftrightarrow>
     (\<exists>parent. ob_depends_on (records ! k) = Some parent \<and>
        \<not> list_ex (\<lambda>r. ob_id r = parent \<and> ob_state r = Applied) records) \<or>
     (\<exists>s \<in> local_references (ob_payload (records ! k)). ids (realm_as_str (ob_realm (records ! k)), s) = None) \<or>
     (\<exists>a < length records. a \<noteq> k \<and> ob_id (records ! a) \<le> ob_id (records ! k) \<and>
        entity_key (records ! a) = entity_key (records ! k) \<and> \<not> is_terminal (ob_state (records ! a)))"

lemma not_applied_waits:
  assumes "\<not> dependency_applied (drain_start ids t records) r" "distinct (map ob_id records)"
  shows "\<exists>parent. ob_depends_on r = Some parent \<and> \<not> list_ex (\<lambda>r. ob_id r = parent \<and> ob_state r = Applied) records"
proof -
  from assms(1) obtain parent where p: "ob_depends_on r = Some parent"
    "map_of (rev (map (\<lambda>r. (ob_id r, ob_state r)) records)) parent \<noteq> Some Applied"
    by (auto simp: dependency_applied_def drain_start_def split: option.splits)
  have "\<not> list_ex (\<lambda>r. ob_id r = parent \<and> ob_state r = Applied) records"
  proof
    assume "list_ex (\<lambda>r. ob_id r = parent \<and> ob_state r = Applied) records"
    then have "(parent, Applied) \<in> set (rev (map (\<lambda>r. (ob_id r, ob_state r)) records))" by (force simp: list_ex_iff)
    moreover have "distinct (map fst (rev (map (\<lambda>r. (ob_id r, ob_state r)) records)))"
      using assms(2) by (simp add: rev_map[symmetric] o_def)
    ultimately show False using p(2) map_of_is_SomeI by fast
  qed
  with p(1) show ?thesis by blast
qed

lemma idle_pass_waits:
  assumes "ds_trace (drain_with w now ids t records) = t" "distinct (map ob_id records)"
    and "k < length records" "ob_state (records ! k) = Pending"
  shows "waits ids records k"
proof -
  have "k \<in> set (drain_order records)" using assms(3) by (simp add: drain_order_facts)
  then obtain xs ys where split: "drain_order records = xs @ k # ys" by (auto simp: in_set_conv_decomp)
  have before: "a < length records \<and> a \<noteq> k \<and> ob_id (records ! a) \<le> ob_id (records ! k)" if "a \<in> set xs" for a
  proof -
    have "a \<in> set (drain_order records)" using that by (simp add: split)
    then have "a < length records" by (simp add: drain_order_facts)
    then show ?thesis
      using that drain_order_facts(1,3)[of records] by (auto simp: split sorted_append)
  qed
  have "ds_trace (fold (drain_record w now) (drain_order records) (drain_start ids t records)) = t"
    using assms(1) by (simp add: drain_with_def)
  with idle_fold[OF _ split, of w now "drain_start ids t records"] assms(4)
  have "\<not> dependency_applied (drain_start ids t records) (records ! k) \<or>
    (\<exists>s \<in> local_references (ob_payload (records ! k)). ids (realm_as_str (ob_realm (records ! k)), s) = None) \<or>
    (\<exists>a \<in> set xs. entity_key (records ! a) = entity_key (records ! k) \<and> \<not> is_terminal (ob_state (records ! a)))"
    by simp
  then show ?thesis
    using not_applied_waits[OF _ assms(2), of ids t] before unfolding waits_def by meson
qed

section \<open>The queue comes to rest\<close>

lemma pass_untried:
  assumes "drain_pass (ids, t, records) (w, now) = (ids', t @ es, records')" "tries es = 0"
  shows "ds_trace (drain_with w now ids t records) = t"
proof -
  have "\<exists>es. ds_trace (fold (drain_record w now) js st) = ds_trace st @ es \<and> (tries es = 0 \<longrightarrow> es = [])" for js st
  proof (induction js arbitrary: st)
    case (Cons i js)
    let ?st = "drain_record w now i st"
    obtain r' es1 where step: "step_effect w now i st ?st r' es1" by (rule drain_record_effect)
    obtain es2 where rest: "ds_trace (fold (drain_record w now) js ?st) = ds_trace ?st @ es2" "tries es2 = 0 \<longrightarrow> es2 = []"
      using Cons.IH[of ?st] by metis
    have "ds_trace (fold (drain_record w now) (i # js) st) = ds_trace st @ es1 @ es2"
      using rest(1) step_trace(1)[OF step] by simp
    moreover have "tries (es1 @ es2) = 0 \<longrightarrow> es1 @ es2 = []" using rest(2) step_trace(2)[OF step] by simp
    ultimately show ?case by metis
  qed simp
  from this[of "drain_order records" "drain_start ids t records"] assms show ?thesis
    by (auto simp: drain_with_def Let_def)
qed

lemma rest_reached:
  assumes "all_tame records" "work_of (\<lambda>_. True) records < length ws"
  shows "\<exists>n < length ws. \<exists>ids' t' records'. drain_passes (ids, t, records) (take n ws) = (ids', t', records') \<and>
    ds_trace (drain_with (fst (ws ! n)) (snd (ws ! n)) ids' t' records') = t' \<and> map identity records' = map identity records"
  using assms
proof (induction ws arbitrary: ids t records)
  case (Cons x ws)
  obtain w now where x: "x = (w, now)" by (cases x)
  obtain ids1 t1 records1 where one: "drain_pass (ids, t, records) x = (ids1, t1, records1)" by (metis prod_cases3)
  obtain es where es: "t1 = t @ es" "tries es + work_of (\<lambda>_. True) records1 \<le> work_of (\<lambda>_. True) records" "all_tame records1"
    using one_pass_work[OF Cons.prems(1) one, of "\<lambda>_. True"] by metis
  have same: "map identity records1 = map identity records"
  proof -
    obtain ks es' where "length (ds_records (drain_with w now ids t records)) = length records"
      "\<forall>j. identity (ds_records (drain_with w now ids t records) ! j) = identity (records ! j)"
      using drain_pass[of w now ids t records] by metis
    then show ?thesis using one by (intro nth_equalityI) (auto simp: x Let_def)
  qed
  show ?case
  proof (cases "tries es = 0")
    case True
    then have "ds_trace (drain_with w now ids t records) = t" using pass_untried[of ids t records w now ids1 es records1] one es(1) x by simp
    then show ?thesis using x by (intro exI[of _ 0]) simp
  next
    case False
    then have "work_of (\<lambda>_. True) records1 < length ws" using es(2) Cons.prems(2) by simp
    from Cons.IH[OF es(3) this, of ids1 t1] obtain n ids' t' records' where n: "n < length ws"
      "drain_passes (ids1, t1, records1) (take n ws) = (ids', t', records')"
      "ds_trace (drain_with (fst (ws ! n)) (snd (ws ! n)) ids' t' records') = t'"
      "map identity records' = map identity records1" by blast
    then show ?thesis using one same by (intro exI[of _ "Suc n"]) auto
  qed
qed simp

text \<open>
  C16. The queue comes to rest: when the pending records are within their attempts, among any more drain
  passes than eight for each record, whatever QuickBooks answers in each, there is one before which
  every pending record is waiting for something - a record it depends on that has not landed, a
  local id without a real one, or an earlier write to the same entity that is still open.
\<close>

theorem queue_comes_to_rest:
  assumes "all_tame records" "distinct (map ob_id records)" "8 * length records < length ws"
  shows "\<exists>n < length ws. case drain_passes (ids, t, records) (take n ws) of
    (ids', _, records') \<Rightarrow> \<forall>k < length records'. ob_state (records' ! k) = Pending \<longrightarrow> waits ids' records' k"
proof -
  have "work_of (\<lambda>_. True) records < length ws"
    using work_of_bound[of "\<lambda>_. True" records] assms(3) by simp
  from rest_reached[OF assms(1) this, of ids t] obtain n ids' t' records' where n: "n < length ws"
    "drain_passes (ids, t, records) (take n ws) = (ids', t', records')"
    "ds_trace (drain_with (fst (ws ! n)) (snd (ws ! n)) ids' t' records') = t'" "map identity records' = map identity records"
    by blast
  have ids: "map ob_id (map identity rs) = map ob_id rs" for rs
    by (simp add: identity_def)
  have "distinct (map ob_id records')" using assms(2) ids[of records'] ids[of records] n(4) by simp
  from idle_pass_waits[OF n(3) this] show ?thesis using n(1,2) by (intro exI[of _ n]) auto
qed

section \<open>Samples\<close>

definition sample_update :: "uuid \<Rightarrow> outbox_record" where
  "sample_update i = new_record
     \<lparr>no_id = i, no_request_id = 100 + i, no_realm = RealmId ''42'', no_entity_type = Invoice, no_operation = Update,
      no_payload = JObject [(''CustomerRef'', JString ''local:c'')], no_local_id = ''77'', no_base_sync_token = Some ''3''\<rparr> 0"

definition busy :: outside where
  "busy = \<lparr>o_persist = (\<lambda>_ _. Inr ()), o_find_by_name = (\<lambda>_ _ _ _. Inr None), o_create = (\<lambda>_ _ _ _ _. Inl RateLimited),
     o_update = (\<lambda>_ _ _ _ _ _ _. Inl RateLimited), o_hooked = False\<rparr>"

definition known_customer :: id_map where
  "known_customer = [(''42'', ''local:c'') \<mapsto> ''9'']"

definition sample_call :: "uuid \<Rightarrow> event" where
  "sample_call i = Updated (RealmId ''42'') Invoice ''77'' (JObject [(''CustomerRef'', JString ''9'')]) ''3'' (100 + i) (Inl RateLimited)"

definition retried :: "outbox_record \<Rightarrow> outbox_record" where
  "retried r = (begun 5 r)\<lparr>ob_last_error := Some ''rate limited'', ob_state := Pending\<rparr>"

lemmas pass_eval =
  drain_with_def drain_order_def drain_start_def drain_record_def attempt_def issue_def fall_def block_def count_blocked_def
  count_failed_def put_record_def emit_def hooks_def persist_event_def dependency_applied_def entity_key_def rewrite_text_def
  is_local_def LOCAL_ID_PREFIX_def begin_attempt_def mark_failed_def transition_def failure_of_def failure_state_def MAX_ATTEMPTS_def
  empty_drain_report_def Let_def word_le_nat_alt word_less_nat_alt

lemma sample_pass:
  "ds_trace (drain_with busy 5 known_customer [] [sample_update 2, sample_update 1]) =
     [Persisted (begun 5 (sample_update 1)), sample_call 1, Persisted (retried (sample_update 1))]"
  "ds_records (drain_with busy 5 known_customer [] [sample_update 2, sample_update 1]) = [sample_update 2, retried (sample_update 1)]"
  by (simp_all add: pass_eval sample_update_def new_record_def busy_def known_customer_def sample_call_def retried_def begun_def)

lemma sample_facts:
  "all_tame [sample_update 2, sample_update 1]" "distinct (map ob_id [sample_update 2, sample_update 1])"
  "distinct (map ob_request_id [sample_update 2, sample_update 1])" "real_answers busy" "real_ids known_customer"
  by (simp_all add: all_tame_def tame_def sample_update_def new_record_def real_answers_def busy_def real_ids_def
      known_customer_def is_local_def LOCAL_ID_PREFIX_def)

theorem queue_comes_to_rest_witness:
  "\<exists>n < 17. case drain_passes (known_customer, [], [sample_update 2, sample_update 1]) (take n (replicate 17 (busy, 5))) of
    (ids', _, records') \<Rightarrow> \<forall>k < length records'. ob_state (records' ! k) = Pending \<longrightarrow> waits ids' records' k"
  using queue_comes_to_rest[OF sample_facts(1,2), of "replicate 17 (busy, 5)" known_customer "[]"] by simp

section \<open>What goes out\<close>



text \<open>
  C20. A pass sends each pending record at most once, in the order of their ids and none that was not
  pending, and a write never overtakes an earlier one to the same entity: when one is sent, every
  earlier one of that entity has landed or was discarded.
\<close>

theorem writes_keep_their_order:
  "\<exists>ks. subseq ks (drain_order records) \<and>
    sends (drop (length t) (ds_trace (drain_with w now ids t records))) = map (\<lambda>k. ob_request_id (records ! k)) ks \<and>
    (\<forall>k \<in> set ks. ob_state (records ! k) = Pending \<and>
      (\<forall>a < length records. ob_id (records ! a) < ob_id (records ! k) \<longrightarrow>
         entity_key (records ! a) = entity_key (records ! k) \<longrightarrow>
         is_terminal (ob_state (ds_records (drain_with w now ids t records) ! a))))"
  by (rule drain_pass[of w now ids t records]) (metis append_eq_conv_conj)

theorem writes_keep_their_order_witness:
  "\<exists>ks. subseq ks (drain_order [sample_update 2, sample_update 1]) \<and>
    map (\<lambda>k. ob_request_id ([sample_update 2, sample_update 1] ! k)) ks = [101] \<and>
    (\<forall>k \<in> set ks. ob_state ([sample_update 2, sample_update 1] ! k) = Pending)"
proof -
  let ?rs = "[sample_update 2, sample_update 1]"
  have "sends (drop (length ([] :: trace)) (ds_trace (drain_with busy 5 known_customer [] ?rs))) = [101]"
    by (simp add: sample_pass sample_call_def)
  with writes_keep_their_order[of ?rs "[]" busy 5 known_customer] show ?thesis by metis
qed

text \<open>
  Over any number of passes, whatever QuickBooks answers and whatever fails to persist, a write goes
  out at most eight times, each time under the one \<open>RequestId\<close> it was made with.
\<close>

theorem at_most_eight_sends:
  assumes "all_tame records" "distinct (map ob_request_id records)"
    and "drain_passes (ids, t, records) ws = (ids', t @ es, records')"
  shows "count_list (sends es) q \<le> 8 \<and> set (sends es) \<subseteq> ob_request_id ` set records"
proof -
  have sent: "length (filter P (sends es)) \<le> 8 * length (filter (\<lambda>r. P (ob_request_id r)) records)" for P
    using passes_work[OF assms(1,3), of P] work_of_bound[of P records] by auto
  have "length (filter (\<lambda>r. q = ob_request_id r) records) \<le> 1"
    using assms(2) by (induction records) (auto simp: filter_empty_conv)
  then have "count_list (sends es) q \<le> 8" using sent[of "\<lambda>p. q = p"] by (simp add: count_list_eq_length_filter)
  moreover have "filter (\<lambda>p. p \<notin> ob_request_id ` set records) (sends es) = []"
    using sent[of "\<lambda>p. p \<notin> ob_request_id ` set records"] by (simp add: filter_empty_conv)
  ultimately show ?thesis by (auto simp: filter_empty_conv)
qed

theorem at_most_eight_sends_witness:
  "count_list (sends [Persisted (begun 5 (sample_update 1)), sample_call 1, Persisted (retried (sample_update 1))]) 101 \<le> 8"
  using at_most_eight_sends[OF sample_facts(1,3), of known_customer "[]" "[(busy, 5)]" "ds_id_map (drain_with busy 5 known_customer []
    [sample_update 2, sample_update 1])" _ "[sample_update 2, retried (sample_update 1)]" 101] sample_pass
  by (simp add: Let_def)

section \<open>The life of a record\<close>

definition run_steps :: "record_step list \<Rightarrow> outbox_record \<Rightarrow> outbox_record" where
  "run_steps steps r = fold (\<lambda>s r. snd (step_record s r)) steps r"

lemma steps_identity: "identity (run_steps steps r) = identity r"
  unfolding run_steps_def by (induction steps arbitrary: r) (simp_all add: step_identity)

lemma steps_terminal: "is_terminal (ob_state r) \<Longrightarrow> ob_state (run_steps steps r) = ob_state r"
  unfolding run_steps_def
proof (induction steps arbitrary: r)
  case (Cons s steps)
  then show ?case using terminal_step[of r s] by simp
qed simp

text \<open>
  Nothing brings back a write that has landed or was discarded: every operation on it is refused
  and leaves its state, so it never becomes eligible again; and whatever happens to a record, its
  payload, its \<open>RequestId\<close> and the rest of what it was made with stay the same.
\<close>

theorem landed_write_is_final:
  assumes "ob_state r = Applied \<or> ob_state r = Discarded"
  shows "ob_state (run_steps steps r) = ob_state r \<and> \<not> is_eligible (run_steps steps r) dep \<and>
    fst (step_record s (run_steps steps r)) \<noteq> Inr () \<and>
    ob_request_id (run_steps steps r) = ob_request_id r \<and> ob_payload (run_steps steps r) = ob_payload r"
proof -
  have "is_terminal (ob_state r)" using assms by simp
  note stays = steps_terminal[OF this, of steps]
  moreover have "fst (step_record s (run_steps steps r)) \<noteq> Inr ()"
    using terminal_step[of "run_steps steps r" s] assms stays by simp
  ultimately show ?thesis
    using identity_fields[OF steps_identity[of steps r]] assms by (auto simp: is_eligible_def)
qed

theorem landed_write_is_final_witness:
  "ob_state (run_steps [Recover 6, Resolve 7, Begin True 8] (run_steps [Begin True 1, Succeed 2] (sample_update 1))) = Applied"
proof -
  have "ob_state (run_steps [Begin True 1, Succeed 2] (sample_update 1)) = Applied"
    by (simp add: run_steps_def step_defs sample_update_def new_record_def)
  then show ?thesis using landed_write_is_final[of "run_steps [Begin True 1, Succeed 2] (sample_update 1)"] by metis
qed

text \<open>The limit is a failure's: a record whose process dies in flight is recovered and sent any number of times.\<close>

lemma recovery_has_no_limit:
  assumes "ob_state r = Pending" "ob_depends_on r = None"
  shows "ob_state (run_steps (concat (replicate n [Begin True now, Recover now])) r) = Pending \<and>
    ob_attempts (run_steps (concat (replicate n [Begin True now, Recover now])) r) = ob_attempts r + of_nat n"
  using assms
proof (induction n arbitrary: r)
  case (Suc n)
  from Suc.prems Suc.IH[of "r\<lparr>ob_attempts := ob_attempts r + 1, ob_state := Pending, ob_updated_at := now\<rparr>"]
  show ?case by (simp add: run_steps_def step_defs add.assoc)
qed (simp add: run_steps_def)

end
