(* ===== verification/Writes.thy ===== *)
theory Writes
  imports Worker_Outcome "HOL-Library.List_Lexorder" "HOL-Library.Char_ord"
begin

text \<open>
  The write path end to end (\<open>writes.rs\<close> with its tables of \<open>store.rs\<close> and \<open>outbox_store.rs\<close>): queueing
  a change, the failure inbox, the gate a company's writes are behind, and one drain of a realm
  with everything it persists. Each function but the drain makes its one write last, so an error
  leaves the replica as it was.
\<close>

section \<open>The replica's tables\<close>

datatype environment = Production | Sandbox

record realm_row =
  rr_realm_id :: realm_id
  rr_display_name :: string
  rr_is_write_enabled :: bool
  rr_environment :: environment

text \<open>Of a mirrored entity the write path reads these two columns.\<close>

record mirrored_entity =
  me_sync_token :: string
  me_is_deleted :: bool

record replica =
  rp_realms :: "realm_row list"
  rp_outbox :: "outbox_record list"
  rp_id_map :: id_map
  rp_entities :: "realm_id \<Rightarrow> entity_type \<Rightarrow> string \<Rightarrow> mirrored_entity option"
  rp_first_full_sweep :: "realm_id \<Rightarrow> utc option"

datatype write_error =
  WritesOff | W_Store string | W_Outbox outbox_error | NoSuchRecord uuid | Invalid string

definition realm_of :: "replica \<Rightarrow> realm_id \<Rightarrow> realm_row option" where
  "realm_of rp realm = find_map (\<lambda>row. rr_realm_id row = realm) (rp_realms rp)"

definition is_write_enabled :: "replica \<Rightarrow> realm_id \<Rightarrow> bool" where
  "is_write_enabled rp realm = (case realm_of rp realm of None \<Rightarrow> False | Some row \<Rightarrow> rr_is_write_enabled row)"

definition realm_environment :: "replica \<Rightarrow> realm_id \<Rightarrow> string + environment" where
  "realm_environment rp realm =
     ok_or (map_option rr_environment (realm_of rp realm)) (''realm '' @ realm_as_str realm @ '' is not registered'')"

definition set_write_enabled :: "realm_id \<Rightarrow> bool \<Rightarrow> replica \<Rightarrow> replica" where
  "set_write_enabled realm enabled rp = rp\<lparr>rp_realms :=
     map (\<lambda>row. if rr_realm_id row = realm then row\<lparr>rr_is_write_enabled := enabled\<rparr> else row) (rp_realms rp)\<rparr>"

definition register_realm :: "realm_id \<Rightarrow> string \<Rightarrow> replica \<Rightarrow> replica" where
  "register_realm realm display_name rp =
     (if realm_of rp realm = None
      then rp\<lparr>rp_realms := rp_realms rp @ [\<lparr>rr_realm_id = realm, rr_display_name = display_name,
             rr_is_write_enabled = False, rr_environment = Production\<rparr>]\<rparr>
      else rp\<lparr>rp_realms := map (\<lambda>row. if rr_realm_id row = realm then row\<lparr>rr_display_name := display_name\<rparr> else row)
             (rp_realms rp)\<rparr>)"

definition outbox_record_of :: "replica \<Rightarrow> uuid \<Rightarrow> outbox_record option" where
  "outbox_record_of rp i = find_map (\<lambda>r. ob_id r = i) (rp_outbox rp)"

definition outbox_records :: "replica \<Rightarrow> realm_id \<Rightarrow> outbox_state list \<Rightarrow> outbox_record list" where
  "outbox_records rp realm states =
     filter (\<lambda>r. ob_state r \<in> set states) (sort_key ob_id (filter (\<lambda>r. ob_realm r = realm) (rp_outbox rp)))"

definition open_states :: "outbox_state list" where
  "open_states = [Pending, InFlight, Conflicted, Rejected]"

definition open_writes_for :: "replica \<Rightarrow> realm_id \<Rightarrow> string \<Rightarrow> outbox_record list" where
  "open_writes_for rp realm local_id = filter (\<lambda>r. ob_local_id r = local_id) (outbox_records rp realm open_states)"

definition enqueue :: "outbox_record \<Rightarrow> replica \<Rightarrow> write_error + replica" where
  "enqueue r rp =
     (if outbox_record_of rp (ob_id r) \<noteq> None then Inl (W_Store ''UNIQUE constraint failed: outbox.id'')
      else Inr (rp\<lparr>rp_outbox := rp_outbox rp @ [r]\<rparr>))"

text \<open>The columns \<open>save_outbox_state\<close> writes.\<close>

definition saved_row :: "outbox_record \<Rightarrow> outbox_record \<Rightarrow> outbox_record" where
  "saved_row r old = old\<lparr>ob_base_sync_token := ob_base_sync_token r, ob_state := ob_state r, ob_attempts := ob_attempts r,
     ob_last_error := ob_last_error r, ob_updated_at := ob_updated_at r\<rparr>"

definition save_outbox_state :: "outbox_record \<Rightarrow> replica \<Rightarrow> write_error + replica" where
  "save_outbox_state r rp =
     (if outbox_record_of rp (ob_id r) = None then Inl (W_Store ''outbox record not found'')
      else Inr (rp\<lparr>rp_outbox := map (\<lambda>old. if ob_id old = ob_id r then saved_row r old else old) (rp_outbox rp)\<rparr>))"

definition resolve_local_id :: "replica \<Rightarrow> realm_id \<Rightarrow> string \<Rightarrow> string option" where
  "resolve_local_id rp realm local_id = rp_id_map rp (realm_as_str realm, local_id)"

definition id_map_of :: "replica \<Rightarrow> realm_id \<Rightarrow> id_map" where
  "id_map_of rp realm = (\<lambda>(r, local_id). if r = realm_as_str realm then rp_id_map rp (r, local_id) else None)"

definition record_id_mapping :: "realm_id \<Rightarrow> string \<Rightarrow> string \<Rightarrow> replica \<Rightarrow> replica" where
  "record_id_mapping realm local_id qbo_id rp =
     (if rp_id_map rp (realm_as_str realm, local_id) \<noteq> None then rp
      else rp\<lparr>rp_id_map := (rp_id_map rp)((realm_as_str realm, local_id) \<mapsto> qbo_id)\<rparr>)"

section \<open>Queueing\<close>

definition require_writes :: "replica \<Rightarrow> realm_id \<Rightarrow> write_error + unit" where
  "require_writes rp realm = (if is_write_enabled rp realm then Inr () else Inl WritesOff)"

definition parent_of :: "replica \<Rightarrow> realm_id \<Rightarrow> string \<Rightarrow> write_error + uuid option" where
  "parent_of rp realm local_id =
     (if resolve_local_id rp realm local_id \<noteq> None then Inr None
      else case find_map (\<lambda>r. ob_operation r = Create \<and> ob_local_id r = local_id) (outbox_records rp realm open_states) of
          Some r \<Rightarrow> Inr (Some (ob_id r))
        | None \<Rightarrow> Inl (Invalid (local_id @ '' refers to nothing queued or synced'')))"

text \<open>The ids a call mints are arguments: the record's and its \<open>RequestId\<close>.\<close>

definition queue_write ::
  "uuid \<times> uuid \<Rightarrow> realm_id \<Rightarrow> entity_type \<Rightarrow> operation \<Rightarrow> string \<Rightarrow> json \<Rightarrow> string option \<Rightarrow> utc \<Rightarrow> replica \<Rightarrow>
   write_error + outbox_record \<times> replica" where
  "queue_write ids realm e oper local_id payload base now rp =
     and_then (require_writes rp realm) (\<lambda>_.
     let references = sorted_list_of_set (local_references payload - {local_id}) in
     and_then (try_fold (\<lambda>dep reference. and_then (parent_of rp realm reference) (\<lambda>parent.
        Inr (case parent of Some p \<Rightarrow> Some p | None \<Rightarrow> dep))) None references) (\<lambda>depends_on.
     let r = (new_record \<lparr>no_id = fst ids, no_request_id = snd ids, no_realm = realm, no_entity_type = e, no_operation = oper,
            no_payload = payload, no_local_id = local_id, no_base_sync_token = base\<rparr> now)\<lparr>ob_depends_on := depends_on\<rparr> in
     and_then (enqueue r rp) (\<lambda>rp. Inr (r, rp))))"

definition queue_create ::
  "uuid \<times> uuid \<Rightarrow> string \<Rightarrow> realm_id \<Rightarrow> entity_type \<Rightarrow> json \<Rightarrow> utc \<Rightarrow> replica \<Rightarrow> write_error + outbox_record \<times> replica" where
  "queue_create ids fresh realm e payload now rp =
     queue_write ids realm e Create (LOCAL_ID_PREFIX @ fresh) payload None now rp"

definition queue_update ::
  "uuid \<times> uuid \<Rightarrow> realm_id \<Rightarrow> entity_type \<Rightarrow> string \<Rightarrow> json \<Rightarrow> utc \<Rightarrow> replica \<Rightarrow> write_error + outbox_record \<times> replica" where
  "queue_update ids realm e qbo_id payload now rp =
     and_then (ok_or (rp_entities rp realm e qbo_id) (Invalid (entity_as_str e @ '' '' @ qbo_id @ '' is not in the replica'')))
       (\<lambda>entity.
     if me_is_deleted entity then Inl (Invalid (entity_as_str e @ '' '' @ qbo_id @ '' was deleted in QuickBooks''))
     else queue_write ids realm e Update qbo_id payload (Some (me_sync_token entity)) now rp)"

section \<open>The failure inbox\<close>

datatype resolution = Retry | Drop

definition outbox_op :: "record_op \<Rightarrow> outbox_record \<Rightarrow> write_error + outbox_record" where
  "outbox_op f r = (case f r of (Inl e, _) \<Rightarrow> Inl (W_Outbox e) | (Inr _, r') \<Rightarrow> Inr r')"

definition rebase :: "replica \<Rightarrow> realm_id \<Rightarrow> outbox_record \<Rightarrow> write_error + outbox_record" where
  "rebase rp realm r =
     (if ob_state r = Conflicted \<and> ob_operation r = Update then
        and_then (ok_or (rp_entities rp realm (ob_entity_type r) (ob_local_id r))
            (Invalid ''the record is no longer in the replica'')) (\<lambda>current.
        if Some (me_sync_token current) = ob_base_sync_token r
        then Inl (Invalid ''the replica has not picked up the other edit yet; sync, look at it, then retry'')
        else Inr (r\<lparr>ob_base_sync_token := Some (me_sync_token current)\<rparr>))
      else Inr r)"

definition resolve_write :: "realm_id \<Rightarrow> uuid \<Rightarrow> resolution \<Rightarrow> utc \<Rightarrow> replica \<Rightarrow> write_error + outbox_record \<times> replica" where
  "resolve_write realm i choice now rp =
     and_then (ok_or (outbox_record_of rp i) (NoSuchRecord i)) (\<lambda>r.
     if ob_realm r \<noteq> realm then Inl (NoSuchRecord i)
     else
       and_then
         (case choice of
            Drop \<Rightarrow> outbox_op (discard now) r
          | Retry \<Rightarrow>
              and_then (require_writes rp realm) (\<lambda>_.
              and_then (rebase rp realm r) (\<lambda>r. outbox_op (resolve now) r))) (\<lambda>r.
       and_then (save_outbox_state r rp) (\<lambda>rp. Inr (r, rp))))"

section \<open>The gate\<close>

definition SOAK_DAYS :: int where
  "SOAK_DAYS = 14"

text \<open>Instants are seconds; \<open>num_days\<close> of a duration is truncated towards zero.\<close>

definition num_days :: "int \<Rightarrow> int" where
  "num_days secs = (if 0 \<le> secs then secs div 86400 else - (- secs div 86400))"

definition check_enable :: "realm_id \<Rightarrow> bool \<Rightarrow> utc \<Rightarrow> replica \<Rightarrow> string + unit" where
  "check_enable realm confirmed now rp =
     and_then (realm_environment rp realm) (\<lambda>env.
     if env = Sandbox then Inr ()
     else
       and_then (ok_or (rp_first_full_sweep rp realm) ''this company has never completed a full sync'') (\<lambda>first.
       if num_days (now - first) < SOAK_DAYS then Inl ''read-only period''
       else if \<not> confirmed then Inl ''production writes need the explicit go: pass --confirm''
       else try_each (\<lambda>other.
              if rr_realm_id other \<noteq> realm \<and> rr_is_write_enabled other then
                and_then (realm_environment rp (rr_realm_id other)) (\<lambda>env.
                if env = Production then Inl (rr_display_name other @ '' already has writes on; one production company at a time'')
                else Inr ())
              else Inr ()) (rp_realms rp)))"

text \<open>The \<open>writes\<close> command of \<open>main.rs\<close>, with \<open>--enable\<close> and with \<open>--disable\<close>.\<close>

definition enable_writes :: "realm_id \<Rightarrow> bool \<Rightarrow> utc \<Rightarrow> replica \<Rightarrow> string + replica" where
  "enable_writes realm confirmed now rp =
     (if \<not> list_ex (\<lambda>row. rr_realm_id row = realm) (rp_realms rp) then Inl (realm_as_str realm @ '' is not in this replica'')
      else and_then (check_enable realm confirmed now rp) (\<lambda>_. Inr (set_write_enabled realm True rp)))"

definition disable_writes :: "realm_id \<Rightarrow> replica \<Rightarrow> string + replica" where
  "disable_writes realm rp =
     (if \<not> list_ex (\<lambda>row. rr_realm_id row = realm) (rp_realms rp) then Inl (realm_as_str realm @ '' is not in this replica'')
      else Inr (set_write_enabled realm False rp))"

section \<open>One drain of a realm\<close>

record write_report =
  wr_recovered :: nat
  wr_drain :: drain_report
  wr_landed :: "(entity_type \<times> string) list"

definition recovered :: "utc \<Rightarrow> outbox_record \<Rightarrow> outbox_record" where
  "recovered now r = (if ob_state r = InFlight then snd (recover_in_flight now r) else r)"

definition save_if_known :: "outbox_record \<Rightarrow> replica \<Rightarrow> replica" where
  "save_if_known r rp = (case save_outbox_state r rp of Inl _ \<Rightarrow> rp | Inr rp' \<Rightarrow> rp')"

text \<open>What of a trace has reached the disk.\<close>

fun replay_event :: "event \<Rightarrow> replica \<Rightarrow> replica" where
  "replay_event (Persisted r) rp = save_if_known r rp"
| "replay_event _ rp = rp"

definition replay :: "trace \<Rightarrow> replica \<Rightarrow> replica" where
  "replay t rp = fold replay_event t rp"

text \<open>The records a drain works on: the open ones, recovered, and the parents that are not among them.\<close>

definition drain_queue :: "realm_id \<Rightarrow> utc \<Rightarrow> replica \<Rightarrow> outbox_record list" where
  "drain_queue realm now rp =
     (let records = map (recovered now) (outbox_records rp realm open_states);
          parents = remdups (filter (\<lambda>p. p \<notin> ob_id ` set records) (List.map_filter ob_depends_on records))
      in records @ List.map_filter (outbox_record_of rp) parents)"

definition recover_all :: "realm_id \<Rightarrow> utc \<Rightarrow> replica \<Rightarrow> replica" where
  "recover_all realm now rp =
     fold (\<lambda>r. save_if_known (recovered now r)) (filter (\<lambda>r. ob_state r = InFlight) (outbox_records rp realm open_states)) rp"

definition landed_now :: "utc \<Rightarrow> drain_state \<Rightarrow> outbox_record list" where
  "landed_now now st = filter (\<lambda>r. ob_state r = Applied \<and> ob_updated_at r = now) (ds_records st)"

definition map_landed :: "realm_id \<Rightarrow> drain_state \<Rightarrow> outbox_record \<Rightarrow> replica \<Rightarrow> replica" where
  "map_landed realm st r rp =
     (case ds_id_map st (realm_as_str realm, ob_local_id r) of
        Some qbo_id \<Rightarrow> if ob_operation r = Create then record_id_mapping realm (ob_local_id r) qbo_id rp else rp
      | None \<Rightarrow> rp)"

definition drain_once :: "outside \<Rightarrow> realm_id \<Rightarrow> utc \<Rightarrow> replica \<Rightarrow> write_error + write_report \<times> trace \<times> replica" where
  "drain_once w realm now rp =
     and_then (require_writes rp realm) (\<lambda>_.
     let recovering = filter (\<lambda>r. ob_state r = InFlight) (outbox_records rp realm open_states);
         st = drain_with w now (id_map_of rp realm) [] (drain_queue realm now rp);
         landed = landed_now now st
     in Inr (\<lparr>wr_recovered = length recovering, wr_drain = ds_report st,
              wr_landed = map (\<lambda>r. (ob_entity_type r,
                unwrap_or (ds_id_map st (realm_as_str realm, ob_local_id r)) (ob_local_id r))) landed\<rparr>,
          ds_trace st, fold (map_landed realm st) landed (replay (ds_trace st) (recover_all realm now rp))))"

text \<open>The process dies after so many events of the drain: what the next one finds.\<close>

definition crash_after :: "nat \<Rightarrow> outside \<Rightarrow> realm_id \<Rightarrow> utc \<Rightarrow> replica \<Rightarrow> replica" where
  "crash_after n w realm now rp =
     replay (take n (ds_trace (drain_with w now (id_map_of rp realm) [] (drain_queue realm now rp)))) (recover_all realm now rp)"

end
