(* ===== verification/Writes_Facts.thy ===== *)
theory Writes_Facts
  imports Writes
begin

text \<open>
  What the write path keeps, over any sequence of its commands, of syncs and of crashes: no write is lost
  or changed, a landed one stays landed, and at most one production company takes writes.
\<close>

section \<open>Rows\<close>

text \<open>The columns no statement of the write path sets again.\<close>

definition fixed :: "outbox_record \<Rightarrow> outbox_record" where
  "fixed r = r\<lparr>ob_base_sync_token := None, ob_state := Pending, ob_attempts := 0, ob_last_error := None, ob_updated_at := 0\<rparr>"

lemma fixed_saved [simp]: "fixed (saved_row x old) = fixed old"
  by (simp add: fixed_def saved_row_def)

lemma fixed_id: "fixed r = fixed s \<Longrightarrow> ob_id r = ob_id s"
  by (cases r; cases s) (simp add: fixed_def)

lemma fixed_ids: "map fixed rs = map fixed ss \<Longrightarrow> map ob_id rs = map ob_id ss"
  by (auto simp: list_eq_iff_nth_eq intro: fixed_id)

definition save_rows :: "outbox_record \<Rightarrow> outbox_record list \<Rightarrow> outbox_record list" where
  "save_rows x = map (\<lambda>old. if ob_id old = ob_id x then saved_row x old else old)"

lemma save_if_known: "save_if_known x rp = rp\<lparr>rp_outbox := save_rows x (rp_outbox rp)\<rparr>"
proof (cases "outbox_record_of rp (ob_id x) = None")
  case True
  then have "\<forall>old \<in> set (rp_outbox rp). ob_id old \<noteq> ob_id x"
    by (simp add: outbox_record_of_def find_map_None)
  then have "save_rows x (rp_outbox rp) = rp_outbox rp" by (simp add: save_rows_def map_idI)
  then show ?thesis using True by (simp add: save_if_known_def save_outbox_state_def)
qed (auto simp: save_if_known_def save_outbox_state_def save_rows_def)

text \<open>Saving records with ids among \<open>S\<close> touches no other row, and of no row the fixed columns.\<close>

definition touches :: "uuid set \<Rightarrow> outbox_record list \<Rightarrow> outbox_record list \<Rightarrow> bool" where
  "touches S rows rows' \<longleftrightarrow> map fixed rows' = map fixed rows \<and>
     (\<forall>i < length rows. ob_id (rows ! i) \<notin> S \<longrightarrow> rows' ! i = rows ! i)"

lemma touches_refl [simp]: "touches S rows rows"
  by (simp add: touches_def)

lemma touches_trans:
  assumes "touches S a b" "touches S b c"
  shows "touches S a c"
proof -
  have "length b = length a" using assms(1) map_eq_imp_length_eq by (auto simp: touches_def)
  with assms show ?thesis by (simp add: touches_def)
qed

lemma touches_save: "ob_id x \<in> S \<Longrightarrow> touches S rows (save_rows x rows)"
  by (auto simp: touches_def save_rows_def)

lemma touches_fold:
  "(\<And>x. x \<in> set xs \<Longrightarrow> ob_id (f x) \<in> S) \<Longrightarrow>
     touches S (rp_outbox rp) (rp_outbox (fold (\<lambda>x. save_if_known (f x)) xs rp)) \<and>
     fold (\<lambda>x. save_if_known (f x)) xs rp = rp\<lparr>rp_outbox := rp_outbox (fold (\<lambda>x. save_if_known (f x)) xs rp)\<rparr>"
proof (induction xs arbitrary: rp)
  case (Cons x xs)
  from Cons.IH[of "save_if_known (f x) rp"] Cons.prems touches_save[of "f x" S "rp_outbox rp"] show ?case
    by (auto simp: save_if_known intro: touches_trans)
qed simp

lemma replay_touches:
  "(\<And>x. Persisted x \<in> set t \<Longrightarrow> ob_id x \<in> S) \<Longrightarrow>
     touches S (rp_outbox rp) (rp_outbox (replay t rp)) \<and> replay t rp = rp\<lparr>rp_outbox := rp_outbox (replay t rp)\<rparr>"
proof (induction t arbitrary: rp)
  case (Cons e t)
  have rest: "touches S (rp_outbox rp') (rp_outbox (replay t rp')) \<and> replay t rp' = rp'\<lparr>rp_outbox := rp_outbox (replay t rp')\<rparr>" for rp'
    using Cons by simp
  show ?case
  proof (cases "\<exists>x. e = Persisted x")
    case True
    then obtain x where e: "e = Persisted x" by blast
    then have "ob_id x \<in> S" using Cons.prems by simp
    with rest[of "save_if_known x rp"] touches_save[of x S "rp_outbox rp"] show ?thesis
      by (auto simp: e replay_def save_if_known intro: touches_trans)
  next
    case False
    then have "replay (e # t) rp = replay t rp" by (cases e) (simp_all add: replay_def)
    then show ?thesis using rest by simp
  qed
qed (simp add: replay_def)

section \<open>What a drain can save\<close>

lemma outbox_record_of_Some: "outbox_record_of rp i = Some r \<Longrightarrow> r \<in> set (rp_outbox rp) \<and> ob_id r = i"
  by (auto simp: outbox_record_of_def dest!: find_map_Some)

lemma outbox_records_mem: "r \<in> set (outbox_records rp realm states) \<longleftrightarrow>
    r \<in> set (rp_outbox rp) \<and> ob_realm r = realm \<and> ob_state r \<in> set states"
  by (auto simp: outbox_records_def)

lemma recovered_id [simp]: "ob_id (recovered now r) = ob_id r"
  by (simp add: recovered_def recover_in_flight_def transition_def)

definition open_ids :: "replica \<Rightarrow> uuid set" where
  "open_ids rp = {ob_id r |r. r \<in> set (rp_outbox rp) \<and> \<not> is_terminal (ob_state r)}"

lemma queue_pending:
  assumes "r \<in> set (drain_queue realm now rp)" "ob_state r = Pending"
  shows "ob_id r \<in> open_ids rp"
proof -
  from assms(1) consider (queued) old where "old \<in> set (outbox_records rp realm open_states)" "r = recovered now old"
    | (parent) p where "outbox_record_of rp p = Some r"
    by (auto simp: drain_queue_def Let_def List.map_filter_def)
  then show ?thesis
  proof cases
    case queued
    then show ?thesis by (auto simp: open_ids_def outbox_records_mem open_states_def)
  next
    case parent
    then show ?thesis using outbox_record_of_Some[OF parent] assms(2) by (auto simp: open_ids_def)
  qed
qed

lemma drain_saves_open:
  assumes "Persisted x \<in> set (ds_trace (drain_with w now ids [] (drain_queue realm now rp)))"
  shows "ob_id x \<in> open_ids rp"
proof -
  from drain_saves[OF assms] obtain k where k: "k < length (drain_queue realm now rp)"
    "ob_state (drain_queue realm now rp ! k) = Pending" "identity x = identity (drain_queue realm now rp ! k)" by blast
  then show ?thesis using queue_pending[OF nth_mem[OF k(1)] k(2)] identity_fields[OF k(3)] by simp
qed

lemma recover_all_touches:
  "touches (open_ids rp) (rp_outbox rp) (rp_outbox (recover_all realm now rp)) \<and>
   recover_all realm now rp = rp\<lparr>rp_outbox := rp_outbox (recover_all realm now rp)\<rparr>"
  unfolding recover_all_def
  by (rule touches_fold) (auto simp: open_ids_def outbox_records_mem open_states_def)

lemma drained_rows:
  assumes "\<And>x. Persisted x \<in> set t \<Longrightarrow> ob_id x \<in> open_ids rp"
  shows "touches (open_ids rp) (rp_outbox rp) (rp_outbox (replay t (recover_all realm now rp)))"
    "rp_realms (replay t (recover_all realm now rp)) = rp_realms rp"
  using replay_touches[of t "open_ids rp" "recover_all realm now rp", OF assms] recover_all_touches[of rp realm now]
  by (auto intro: touches_trans) (metis replica.select_convs(1) replica.surjective replica.update_convs(2))+

lemma map_landed_rest [simp]:
  "rp_outbox (map_landed realm st r rp) = rp_outbox rp" "rp_realms (map_landed realm st r rp) = rp_realms rp"
  by (simp_all add: map_landed_def record_id_mapping_def split: option.split)

lemma fold_landed_rest [simp]:
  "rp_outbox (fold (map_landed realm st) rs rp) = rp_outbox rp" "rp_realms (fold (map_landed realm st) rs rp) = rp_realms rp"
  by (induction rs arbitrary: rp) simp_all

lemma drain_once_rows:
  assumes "drain_once w realm now rp = Inr (rep, t, rp')"
  shows "touches (open_ids rp) (rp_outbox rp) (rp_outbox rp')" "rp_realms rp' = rp_realms rp"
  using assms drained_rows[OF drain_saves_open, where realm = realm and now = now]
  by (auto simp: drain_once_def Let_def)

lemma crash_rows:
  "touches (open_ids rp) (rp_outbox rp) (rp_outbox (crash_after n w realm now rp))"
  "rp_realms (crash_after n w realm now rp) = rp_realms rp"
  unfolding crash_after_def
  by (rule drained_rows, meson drain_saves_open in_set_takeD)+

section \<open>The replica over time\<close>

text \<open>The commands of the write path, what a sync changes of the tables it reads, and a crash in a drain.\<close>

inductive replica_step :: "replica \<Rightarrow> replica \<Rightarrow> bool" where
  registered: "replica_step rp (register_realm realm name rp)"
| enabled: "enable_writes realm confirmed now rp = Inr rp' \<Longrightarrow> replica_step rp rp'"
| disabled: "disable_writes realm rp = Inr rp' \<Longrightarrow> replica_step rp rp'"
| created: "queue_create ids fresh realm e payload now rp = Inr (r, rp') \<Longrightarrow> replica_step rp rp'"
| updated: "queue_update ids realm e qbo_id payload now rp = Inr (r, rp') \<Longrightarrow> replica_step rp rp'"
| resolved: "resolve_write realm i choice now rp = Inr (r, rp') \<Longrightarrow> replica_step rp rp'"
| drained: "drain_once w realm now rp = Inr (rep, t, rp') \<Longrightarrow> replica_step rp rp'"
| crashed: "replica_step rp (crash_after n w realm now rp)"
| synced: "replica_step rp (rp\<lparr>rp_entities := entities, rp_first_full_sweep := sweeps\<rparr>)"

inductive_cases replica_stepE: "replica_step rp rp'"

definition row_keeps :: "outbox_record list \<Rightarrow> outbox_record list \<Rightarrow> bool" where
  "row_keeps rows rows' \<longleftrightarrow> distinct (map ob_id rows) \<longrightarrow>
     distinct (map ob_id rows') \<and> prefix (map fixed rows) (map fixed rows') \<and>
     (\<forall>i < length rows. is_terminal (ob_state (rows ! i)) \<longrightarrow> ob_state (rows' ! i) = ob_state (rows ! i))"

lemma row_keeps_refl [simp]: "row_keeps rows rows"
  by (simp add: row_keeps_def)

lemma row_keeps_trans:
  assumes "row_keeps a b" "row_keeps b c"
  shows "row_keeps a c"
  unfolding row_keeps_def
proof (intro impI)
  assume "distinct (map ob_id a)"
  then have b: "distinct (map ob_id b)" "prefix (map fixed a) (map fixed b)"
    "\<forall>i < length a. is_terminal (ob_state (a ! i)) \<longrightarrow> ob_state (b ! i) = ob_state (a ! i)"
    using assms(1) unfolding row_keeps_def by blast+
  then have c: "distinct (map ob_id c)" "prefix (map fixed b) (map fixed c)"
    "\<forall>i < length b. is_terminal (ob_state (b ! i)) \<longrightarrow> ob_state (c ! i) = ob_state (b ! i)"
    using assms(2) unfolding row_keeps_def by blast+
  have "length a \<le> length b" using prefix_length_le[OF b(2)] by simp
  then show "distinct (map ob_id c) \<and> prefix (map fixed a) (map fixed c) \<and>
      (\<forall>i < length a. is_terminal (ob_state (a ! i)) \<longrightarrow> ob_state (c ! i) = ob_state (a ! i))"
    using b c prefix_order.trans by auto
qed

lemma touches_keeps:
  assumes "touches (open_ids rp) (rp_outbox rp) rows'"
  shows "row_keeps (rp_outbox rp) rows'"
  unfolding row_keeps_def
proof (intro impI conjI allI)
  assume d: "distinct (map ob_id (rp_outbox rp))"
  show "distinct (map ob_id rows')" using d fixed_ids[of rows' "rp_outbox rp"] assms by (simp add: touches_def)
  show "prefix (map fixed (rp_outbox rp)) (map fixed rows')" using assms by (simp add: touches_def)
  fix i assume i: "i < length (rp_outbox rp)" "is_terminal (ob_state (rp_outbox rp ! i))"
  have "ob_id (rp_outbox rp ! i) \<notin> open_ids rp"
  proof
    assume "ob_id (rp_outbox rp ! i) \<in> open_ids rp"
    then obtain j where "j < length (rp_outbox rp)" "ob_id (rp_outbox rp ! j) = ob_id (rp_outbox rp ! i)"
      "\<not> is_terminal (ob_state (rp_outbox rp ! j))"
      by (auto simp: open_ids_def in_set_conv_nth simp del: is_terminal.simps)
    then show False using d i by (metis length_map nth_eq_iff_index_eq nth_map)
  qed
  then show "ob_state (rows' ! i) = ob_state (rp_outbox rp ! i)" using assms i(1) by (simp add: touches_def)
qed

lemma enqueue_keeps: "enqueue r rp = Inr rp' \<Longrightarrow> row_keeps (rp_outbox rp) (rp_outbox rp') \<and> rp_realms rp' = rp_realms rp"
  by (auto simp: enqueue_def row_keeps_def nth_append outbox_record_of_def find_map_None image_iff split: if_splits) blast

lemma queue_keeps:
  "queue_write ids realm e oper local_id payload base now rp = Inr (r, rp') \<Longrightarrow>
     row_keeps (rp_outbox rp) (rp_outbox rp') \<and> rp_realms rp' = rp_realms rp"
  by (auto simp: queue_write_def Let_def dest: enqueue_keeps)

lemma record_op_open: "outbox_op (step_record s) r = Inr r' \<Longrightarrow> \<not> is_terminal (ob_state r) \<and> ob_id r' = ob_id r"
  using terminal_step[of r s] identity_fields[OF step_identity[of s r]]
  by (auto simp: outbox_op_def split: prod.splits sum.splits)

lemma rebase_row: "rebase rp realm r = Inr r' \<Longrightarrow> ob_id r' = ob_id r \<and> ob_state r' = ob_state r"
  by (auto simp: rebase_def split: if_splits)

lemma resolve_keeps:
  assumes "resolve_write realm i choice now rp = Inr (r, rp')"
  shows "row_keeps (rp_outbox rp) (rp_outbox rp') \<and> rp_realms rp' = rp_realms rp"
proof -
  from assms obtain old where old: "outbox_record_of rp i = Some old" "save_outbox_state r rp = Inr rp'"
    "\<not> is_terminal (ob_state old) \<and> ob_id r = ob_id old"
    using record_op_open[of "Discard now"] record_op_open[of "Resolve now"] rebase_row
    by (cases choice) (fastforce simp: resolve_write_def split: if_splits)+
  then have "ob_id r \<in> open_ids rp" using outbox_record_of_Some[OF old(1)] by (auto simp: open_ids_def)
  moreover have "rp' = rp\<lparr>rp_outbox := save_rows r (rp_outbox rp)\<rparr>"
    using old(2) by (auto simp: save_outbox_state_def save_rows_def split: if_splits)
  ultimately show ?thesis by (simp add: touches_keeps touches_save)
qed

lemma step_keeps: "replica_step rp rp' \<Longrightarrow> row_keeps (rp_outbox rp) (rp_outbox rp')"
proof (induction rule: replica_step.induct)
  case (registered rp realm name)
  then show ?case by (simp add: register_realm_def)
next
  case (enabled realm confirmed now rp rp')
  then show ?case by (auto simp: enable_writes_def set_write_enabled_def split: if_splits)
next
  case (disabled realm rp rp')
  then show ?case by (auto simp: disable_writes_def set_write_enabled_def split: if_splits)
next
  case (created ids fresh realm e payload now rp r rp')
  then show ?case by (auto simp: queue_create_def dest: queue_keeps)
next
  case (updated ids realm e qbo_id payload now rp r rp')
  then show ?case by (auto simp: queue_update_def dest: queue_keeps split: if_splits)
next
  case (resolved realm i choice now rp r rp')
  then show ?case by (auto dest: resolve_keeps)
next
  case (drained w realm now rp rep t rp')
  then show ?case by (auto intro: touches_keeps dest: drain_once_rows)
next
  case (crashed rp n w realm now)
  then show ?case by (intro touches_keeps crash_rows)
qed simp

lemma steps_keep: "replica_step\<^sup>*\<^sup>* rp rp' \<Longrightarrow> row_keeps (rp_outbox rp) (rp_outbox rp')"
  by (induction rule: rtranclp_induct) (auto intro: row_keeps_trans step_keeps)

text \<open>
  C14. The outbox never loses a write: over any sequence of commands, syncs and crashes its rows stay,
  in their places, each with the payload, the entity, the \<open>RequestId\<close> and the dependency it was
  queued with, no two get the same id, and one that has landed or was discarded is so for good.
\<close>

theorem outbox_never_loses_a_write:
  assumes "replica_step\<^sup>*\<^sup>* rp rp'" "distinct (map ob_id (rp_outbox rp))"
  shows "distinct (map ob_id (rp_outbox rp')) \<and> prefix (map fixed (rp_outbox rp)) (map fixed (rp_outbox rp')) \<and>
    (\<forall>i < length (rp_outbox rp). is_terminal (ob_state (rp_outbox rp ! i)) \<longrightarrow>
       ob_state (rp_outbox rp' ! i) = ob_state (rp_outbox rp ! i))"
  using steps_keep[OF assms(1)] assms(2) by (simp add: row_keeps_def)

section \<open>One production company at a time\<close>

definition writing :: "replica \<Rightarrow> realm_row list" where
  "writing rp = filter (\<lambda>row. rr_is_write_enabled row \<and> rr_environment row = Production) (rp_realms rp)"

definition one_writer :: "replica \<Rightarrow> bool" where
  "one_writer rp \<longleftrightarrow> distinct (map rr_realm_id (rp_realms rp)) \<and> length (writing rp) \<le> 1"

lemma realm_of_mem:
  "distinct (map rr_realm_id (rp_realms rp)) \<Longrightarrow> row \<in> set (rp_realms rp) \<Longrightarrow> realm_of rp (rr_realm_id row) = Some row"
proof -
  have "find_map (\<lambda>r. rr_realm_id r = rr_realm_id row) rows = Some row" if "distinct (map rr_realm_id rows)" "row \<in> set rows" for rows
    using that by (induction rows) (auto simp: image_iff)
  then show "distinct (map rr_realm_id (rp_realms rp)) \<Longrightarrow> row \<in> set (rp_realms rp) \<Longrightarrow> realm_of rp (rr_realm_id row) = Some row"
    by (simp add: realm_of_def)
qed

lemma enable_alone:
  assumes "enable_writes realm confirmed now rp = Inr rp'" "one_writer rp"
  shows "one_writer rp'"
proof -
  let ?f = "\<lambda>row. if rr_realm_id row = realm then row\<lparr>rr_is_write_enabled := True\<rparr> else row"
  have d: "distinct (map rr_realm_id (rp_realms rp))" and one: "length (writing rp) \<le> 1"
    using assms(2) by (simp_all add: one_writer_def)
  have rp': "rp_realms rp' = map ?f (rp_realms rp)" and ok: "check_enable realm confirmed now rp = Inr ()"
    using assms(1) by (auto simp: enable_writes_def set_write_enabled_def split: if_splits)
  have ids: "map rr_realm_id (rp_realms rp') = map rr_realm_id (rp_realms rp)" by (simp add: rp')
  from ok obtain env where env: "realm_environment rp realm = Inr env" by (auto simp: check_enable_def)
  have "length (writing rp') \<le> 1"
  proof (cases "env = Sandbox")
    case True
    have "rr_environment row = Sandbox" if "row \<in> set (rp_realms rp)" "rr_realm_id row = realm" for row
      using realm_of_mem[OF d that(1)] that(2) env True by (simp add: realm_environment_def)
    then have "filter (\<lambda>row. rr_is_write_enabled row \<and> rr_environment row = Production) (map ?f rows) =
        filter (\<lambda>row. rr_is_write_enabled row \<and> rr_environment row = Production) rows" if "set rows \<subseteq> set (rp_realms rp)" for rows
      using that by (induction rows) auto
    then show ?thesis using one by (simp add: writing_def rp')
  next
    case False
    have others: "\<not> (rr_is_write_enabled row \<and> rr_environment row = Production)"
      if row: "row \<in> set (rp_realms rp)" "rr_realm_id row \<noteq> realm" for row
    proof
      assume on: "rr_is_write_enabled row \<and> rr_environment row = Production"
      have "realm_environment rp (rr_realm_id row) = Inr Production"
        using realm_of_mem[OF d row(1)] on by (simp add: realm_environment_def)
      then show False using ok env False row on by (fastforce simp: check_enable_def split: if_splits)
    qed
    have "length (filter (\<lambda>row. rr_is_write_enabled row \<and> rr_environment row = Production) (map ?f rows)) \<le> 1"
      if "set rows \<subseteq> set (rp_realms rp)" "distinct (map rr_realm_id rows)" for rows
      using that
    proof (induction rows)
      case (Cons row rows)
      show ?case
      proof (cases "rr_realm_id row = realm")
        case True
        then have "\<forall>x \<in> set rows. rr_realm_id x \<noteq> realm" using Cons.prems(2) by (auto simp: image_iff)
        then have "filter (\<lambda>row. rr_is_write_enabled row \<and> rr_environment row = Production) (map ?f rows) = []"
          using others Cons.prems(1) by (auto simp: filter_empty_conv)
        then show ?thesis by simp
      next
        case False
        then show ?thesis using others[of row] Cons by auto
      qed
    qed simp
    then show ?thesis using d by (simp add: writing_def rp')
  qed
  with ids d show ?thesis by (simp add: one_writer_def)
qed

lemma length_filter_map_le: "(\<And>x. P (f x) \<Longrightarrow> P x) \<Longrightarrow> length (filter P (map f xs)) \<le> length (filter P xs)"
  by (induction xs) auto

lemma register_alone: "one_writer rp \<Longrightarrow> one_writer (register_realm realm name rp)"
proof -
  assume one: "one_writer rp"
  let ?f = "\<lambda>row. if rr_realm_id row = realm then row\<lparr>rr_display_name := name\<rparr> else row"
  have "map rr_realm_id (map ?f (rp_realms rp)) = map rr_realm_id (rp_realms rp)" by simp
  then have "distinct (map rr_realm_id (map ?f (rp_realms rp)))" using one unfolding one_writer_def by (simp only:)
  moreover have "length (filter (\<lambda>row. rr_is_write_enabled row \<and> rr_environment row = Production) (map ?f (rp_realms rp))) \<le>
      length (filter (\<lambda>row. rr_is_write_enabled row \<and> rr_environment row = Production) (rp_realms rp))"
    by (rule length_filter_map_le) (auto split: if_splits)
  moreover have "realm \<notin> rr_realm_id ` set (rp_realms rp)" if "realm_of rp realm = None"
    using that by (auto simp: realm_of_def find_map_None)
  ultimately show ?thesis
    using one by (auto simp: register_realm_def one_writer_def writing_def)
qed

lemma disable_alone: "disable_writes realm rp = Inr rp' \<Longrightarrow> one_writer rp \<Longrightarrow> one_writer rp'"
proof -
  assume run: "disable_writes realm rp = Inr rp'" and one: "one_writer rp"
  let ?f = "\<lambda>row. if rr_realm_id row = realm then row\<lparr>rr_is_write_enabled := False\<rparr> else row"
  have rp': "rp_realms rp' = map ?f (rp_realms rp)"
    using run by (auto simp: disable_writes_def set_write_enabled_def split: if_splits)
  have "map rr_realm_id (map ?f (rp_realms rp)) = map rr_realm_id (rp_realms rp)" by simp
  then have "distinct (map rr_realm_id (map ?f (rp_realms rp)))" using one unfolding one_writer_def by (simp only:)
  moreover have "length (filter (\<lambda>row. rr_is_write_enabled row \<and> rr_environment row = Production) (map ?f (rp_realms rp))) \<le>
      length (filter (\<lambda>row. rr_is_write_enabled row \<and> rr_environment row = Production) (rp_realms rp))"
    by (rule length_filter_map_le) (auto split: if_splits)
  ultimately show ?thesis using one by (simp add: one_writer_def writing_def rp')
qed

lemma one_writer_realms: "rp_realms rp' = rp_realms rp \<Longrightarrow> one_writer rp \<Longrightarrow> one_writer rp'"
  by (simp add: one_writer_def writing_def)

lemma step_alone: "replica_step rp rp' \<Longrightarrow> one_writer rp \<Longrightarrow> one_writer rp'"
proof (induction rule: replica_step.induct)
  case (created ids fresh realm e payload now rp r rp')
  then show ?case by (auto simp: queue_create_def dest: queue_keeps intro: one_writer_realms)
next
  case (updated ids realm e qbo_id payload now rp r rp')
  then show ?case by (auto simp: queue_update_def dest: queue_keeps intro: one_writer_realms split: if_splits)
next
  case (resolved realm i choice now rp r rp')
  then show ?case by (auto dest: resolve_keeps intro: one_writer_realms)
next
  case (drained w realm now rp rep t rp')
  then show ?case using drain_once_rows(2) one_writer_realms by blast
next
  case (crashed rp n w realm now)
  then show ?case using crash_rows(2) one_writer_realms by blast
next
  case (synced rp entities sweeps)
  then show ?case by (simp add: one_writer_def writing_def)
qed (auto intro: register_alone enable_alone disable_alone)

text \<open>
  C21. At most one production company takes writes at any time, whatever is registered, switched on or
  off, queued, drained or synced, from a replica of which that holds.
\<close>

theorem one_production_company_writes:
  assumes "replica_step\<^sup>*\<^sup>* rp rp'" "one_writer rp"
  shows "length (filter (\<lambda>row. rr_is_write_enabled row \<and> rr_environment row = Production) (rp_realms rp')) \<le> 1"
proof -
  have "one_writer rp'" using assms by (induction rule: rtranclp_induct) (auto intro: step_alone)
  then show ?thesis by (simp add: one_writer_def writing_def)
qed

section \<open>Queueing and resolving\<close>

lemma finite_local_references [simp]: "finite (local_references v)"
  by (induction v) (auto simp: prod_set_defs)

lemma parents_found:
  assumes "try_fold (\<lambda>dep s. and_then (q s) (\<lambda>parent. Inr (case parent of Some p \<Rightarrow> Some p | None \<Rightarrow> dep))) dep refs = Inr found"
  shows "(\<forall>s \<in> set refs. \<exists>x. q s = Inr x) \<and> (found = dep \<or> (\<exists>s \<in> set refs. q s = Inr found)) \<and>
    (found = None \<longrightarrow> (\<forall>s \<in> set refs. q s = Inr None))"
  using assms
proof (induction refs arbitrary: dep)
  case (Cons s refs)
  then obtain x where x: "q s = Inr x"
    "try_fold (\<lambda>dep s. and_then (q s) (\<lambda>parent. Inr (case parent of Some p \<Rightarrow> Some p | None \<Rightarrow> dep)))
       (case x of Some p \<Rightarrow> Some p | None \<Rightarrow> dep) refs = Inr found" by auto
  have kept: "found = None \<longrightarrow> y = None" if
    "try_fold (\<lambda>dep s. and_then (q s) (\<lambda>parent. Inr (case parent of Some p \<Rightarrow> Some p | None \<Rightarrow> dep))) y refs = Inr found" for y refs
    using that by (induction refs arbitrary: y) (fastforce split: option.splits)+
  show ?case using Cons.IH[OF x(2)] x(1) kept[OF x(2)] by (cases x) auto
qed simp

definition open_create :: "replica \<Rightarrow> realm_id \<Rightarrow> string \<Rightarrow> outbox_record \<Rightarrow> bool" where
  "open_create rp realm s p \<longleftrightarrow> p \<in> set (rp_outbox rp) \<and> ob_realm p = realm \<and> ob_operation p = Create \<and>
     ob_local_id p = s \<and> \<not> is_terminal (ob_state p)"

lemma parent_of_Inr:
  assumes "parent_of rp realm s = Inr x"
  shows "case x of None \<Rightarrow> rp_id_map rp (realm_as_str realm, s) \<noteq> None
    | Some i \<Rightarrow> rp_id_map rp (realm_as_str realm, s) = None \<and> (\<exists>p. open_create rp realm s p \<and> ob_id p = i)"
  using assms
  by (auto simp: parent_of_def resolve_local_id_def open_create_def outbox_records_mem open_states_def
      dest!: find_map_Some split: if_splits option.splits)

text \<open>
  A write is queued only for a company that takes writes and only when everything it refers to can
  become real: each other local id in its payload already has its QuickBooks id, or an open create of
  the same company in the outbox will give it one, and when there is such a create the record
  depends on one of them. It is added pending, at the end, and nothing else changes.
\<close>

theorem queued_write_can_land:
  assumes "queue_write ids realm e oper local_id payload base now rp = Inr (r, rp')"
  shows "is_write_enabled rp realm \<and> rp' = rp\<lparr>rp_outbox := rp_outbox rp @ [r]\<rparr> \<and> ob_state r = Pending \<and>
    (\<forall>s \<in> local_references payload - {local_id}.
       rp_id_map rp (realm_as_str realm, s) \<noteq> None \<or> (\<exists>p. open_create rp realm s p)) \<and>
    (case ob_depends_on r of
       None \<Rightarrow> \<forall>s \<in> local_references payload - {local_id}. rp_id_map rp (realm_as_str realm, s) \<noteq> None
     | Some i \<Rightarrow> \<exists>s \<in> local_references payload - {local_id}. \<exists>p. open_create rp realm s p \<and> ob_id p = i)"
proof -
  let ?refs = "sorted_list_of_set (local_references payload - {local_id})"
  from assms obtain found where on: "is_write_enabled rp realm"
    and fold: "try_fold (\<lambda>dep s. and_then (parent_of rp realm s) (\<lambda>parent. Inr (case parent of Some p \<Rightarrow> Some p | None \<Rightarrow> dep)))
        None ?refs = Inr found"
    and r: "ob_depends_on r = found" "ob_state r = Pending" "rp' = rp\<lparr>rp_outbox := rp_outbox rp @ [r]\<rparr>"
    by (auto simp: queue_write_def require_writes_def Let_def enqueue_def new_record_def split: if_splits)
  have refs: "set ?refs = local_references payload - {local_id}" by simp
  note found = parents_found[OF fold, unfolded refs]
  have each: "rp_id_map rp (realm_as_str realm, s) \<noteq> None \<or> (\<exists>p. open_create rp realm s p)"
    if "s \<in> local_references payload - {local_id}" for s
  proof -
    from found that obtain x where "parent_of rp realm s = Inr x" by blast
    from parent_of_Inr[OF this] show ?thesis by (cases x) auto
  qed
  have "case found of
       None \<Rightarrow> \<forall>s \<in> local_references payload - {local_id}. rp_id_map rp (realm_as_str realm, s) \<noteq> None
     | Some i \<Rightarrow> \<exists>s \<in> local_references payload - {local_id}. \<exists>p. open_create rp realm s p \<and> ob_id p = i"
  proof (cases found)
    case None
    then have "rp_id_map rp (realm_as_str realm, s) \<noteq> None" if "s \<in> local_references payload - {local_id}" for s
      using found that parent_of_Inr[of rp realm s None] by auto
    then show ?thesis using None by simp
  next
    case (Some i)
    then obtain s where "s \<in> local_references payload - {local_id}" "parent_of rp realm s = Inr (Some i)" using found by blast
    then show ?thesis using Some parent_of_Inr[of rp realm s "Some i"] by auto
  qed
  with each on r show ?thesis by simp
qed

text \<open>
  A conflict is never settled by sending the stale edit again: when a person retries a conflicted
  update, the record goes back to the queue based on the version the replica now holds, which is
  another than it was based on, and with its attempts counted from zero; a replica that has not yet
  seen the other edit refuses.
\<close>

theorem conflict_is_rebased:
  assumes "outbox_record_of rp i = Some old" "ob_realm old = realm" "ob_state old = Conflicted" "ob_operation old = Update"
    and "is_write_enabled rp realm"
  shows "case rp_entities rp realm (ob_entity_type old) (ob_local_id old) of
      None \<Rightarrow> \<exists>m. resolve_write realm i Retry now rp = Inl (Invalid m)
    | Some current \<Rightarrow>
        if Some (me_sync_token current) = ob_base_sync_token old then \<exists>m. resolve_write realm i Retry now rp = Inl (Invalid m)
        else \<exists>r rp'. resolve_write realm i Retry now rp = Inr (r, rp') \<and> ob_state r = Pending \<and> ob_attempts r = 0 \<and>
          ob_base_sync_token r = Some (me_sync_token current) \<and> ob_request_id r = ob_request_id old \<and>
          rp' = rp\<lparr>rp_outbox := save_rows r (rp_outbox rp)\<rparr>"
proof -
  have "ob_id old = i" using outbox_record_of_Some[OF assms(1)] by simp
  then show ?thesis
    using assms
    by (auto simp: resolve_write_def rebase_def require_writes_def outbox_op_def resolve_def transition_def
        save_outbox_state_def save_rows_def split: option.split)
qed

end
