(* ===== verification/Writes_Outcome.thy ===== *)
theory Writes_Outcome
  imports Writes_Facts
begin

text \<open>
  The write path on concrete replicas: the promises of the outbox at work, and the crash that strands a
  dependant for good.
\<close>

section \<open>A company with a customer and its first invoice queued\<close>

definition sample_realm :: realm_id where
  "sample_realm = RealmId ''42''"

definition sample_customer :: outbox_record where
  "sample_customer = new_record
     \<lparr>no_id = 1, no_request_id = 101, no_realm = sample_realm, no_entity_type = Customer, no_operation = Create,
      no_payload = JObject [(''DisplayName'', JString ''Ann'')], no_local_id = ''local:c'', no_base_sync_token = None\<rparr> 0"

definition sample_invoice :: outbox_record where
  "sample_invoice = (new_record
     \<lparr>no_id = 2, no_request_id = 102, no_realm = sample_realm, no_entity_type = Invoice, no_operation = Create,
      no_payload = JObject [(''CustomerRef'', JString ''local:c'')], no_local_id = ''local:i'', no_base_sync_token = None\<rparr> 0)
        \<lparr>ob_depends_on := Some 1\<rparr>"

definition sample_replica :: "outbox_record list \<Rightarrow> replica" where
  "sample_replica rows =
     \<lparr>rp_realms = [\<lparr>rr_realm_id = sample_realm, rr_display_name = ''Aquamentor'', rr_is_write_enabled = True,
        rr_environment = Production\<rparr>],
      rp_outbox = rows, rp_id_map = Map.empty, rp_entities = (\<lambda>_ _ _. None), rp_first_full_sweep = (\<lambda>_. Some 0)\<rparr>"

definition open_door :: outside where
  "open_door = \<lparr>o_persist = (\<lambda>_ _. Inr ()), o_find_by_name = (\<lambda>_ _ _ _. Inr None),
     o_create = (\<lambda>_ _ e _ _. Inr (if e = Customer then ''9'' else ''10'')), o_update = (\<lambda>_ _ _ q _ _ _. Inr q), o_hooked = False\<rparr>"

lemmas sample_write_defs = sample_replica_def sample_customer_def sample_invoice_def sample_realm_def new_record_def open_door_def

lemmas write_eval =
  drain_once_def require_writes_def is_write_enabled_def realm_of_def outbox_records_def open_states_def drain_queue_def
  recovered_def recover_all_def landed_now_def map_landed_def record_id_mapping_def replay_def save_if_known
  save_rows_def saved_row_def id_map_of_def outbox_record_of_def mark_applied_def needs_query_before_create_def
  requires_query_before_create_def unique_name_of_def unique_name_field_def land_def crash_after_def List.map_filter_simps

definition landed_customer :: outbox_record where
  "landed_customer = sample_customer\<lparr>ob_state := Applied, ob_attempts := 1, ob_updated_at := 5\<rparr>"

lemma crashed_replica:
  "crash_after 4 open_door sample_realm 5 (sample_replica [sample_customer, sample_invoice]) =
     sample_replica [landed_customer, sample_invoice]"
  by (simp add: write_eval pass_eval sample_write_defs landed_customer_def)

lemma stranded_queue:
  "drain_queue sample_realm now (sample_replica [landed_customer, sample_invoice]) = [sample_invoice, landed_customer]"
  by (simp add: write_eval sample_write_defs landed_customer_def)

lemma stranded_pass:
  "drain_with w now Map.empty [] [sample_invoice, landed_customer] =
     (drain_start Map.empty [] [sample_invoice, landed_customer])
       \<lparr>ds_blocked := {entity_key sample_invoice}, ds_report := empty_drain_report\<lparr>dr_blocked := 1\<rparr>\<rparr>"
  by (simp add: pass_eval write_eval sample_write_defs landed_customer_def)

lemma stranded_drain:
  "\<exists>rep. drain_once w sample_realm now (sample_replica [landed_customer, sample_invoice]) =
     Inr (rep, [], sample_replica [landed_customer, sample_invoice])"
proof -
  let ?rp = "sample_replica [landed_customer, sample_invoice]"
  have "require_writes ?rp sample_realm = Inr ()" "id_map_of ?rp sample_realm = Map.empty"
    "recover_all sample_realm now ?rp = ?rp"
    by (simp_all add: write_eval sample_write_defs landed_customer_def fun_eq_iff)
  moreover have "fold (map_landed sample_realm (drain_start Map.empty [] rs)) xs ?rp = ?rp" for rs xs
    by (induction xs) (simp_all add: map_landed_def drain_start_def)
  moreover have "fold (map_landed sample_realm st) xs ?rp = ?rp" if "ds_id_map st = Map.empty" for st xs
    using that by (induction xs) (simp_all add: map_landed_def)
  ultimately show ?thesis
    by (simp add: drain_once_def Let_def stranded_queue stranded_pass drain_start_def replay_def)
qed

lemma open_door_drain:
  "\<exists>rep t rp'. drain_once open_door sample_realm 5 (sample_replica [sample_customer, sample_invoice]) = Inr (rep, t, rp') \<and>
     map ob_state (rp_outbox rp') = [Applied, Applied]"
  by (simp add: pass_eval write_eval sample_write_defs)

text \<open>
  A crash can strand a write for good. A new customer and its first invoice are queued; a drain
  lands both, but if the process dies when the customer is saved as applied and before the pass is
  over, its QuickBooks id has not been recorded, and no later drain asks for it: whatever QuickBooks
  does and whenever it runs, a drain sends nothing, saves nothing and leaves the invoice pending.
\<close>

theorem crash_strands_dependants:
  "let rp = sample_replica [sample_customer, sample_invoice]; crashed = crash_after 4 open_door sample_realm 5 rp in
     (\<exists>rep t rp'. drain_once open_door sample_realm 5 rp = Inr (rep, t, rp') \<and> map ob_state (rp_outbox rp') = [Applied, Applied]) \<and>
     map ob_state (rp_outbox crashed) = [Applied, Pending] \<and>
     (\<forall>w now. \<exists>rep. drain_once w sample_realm now crashed = Inr (rep, [], crashed))"
proof -
  have "map ob_state (rp_outbox (sample_replica [landed_customer, sample_invoice])) = [Applied, Pending]"
    by (simp add: sample_write_defs landed_customer_def)
  then show ?thesis unfolding Let_def crashed_replica using open_door_drain stranded_drain by blast
qed

section \<open>The promises at work\<close>

lemma customer_queued:
  "queue_create (1, 101) ''c'' sample_realm Customer (JObject [(''DisplayName'', JString ''Ann'')]) 0 (sample_replica []) =
     Inr (sample_customer, sample_replica [sample_customer])"
  by (simp add: queue_create_def queue_write_def enqueue_def Let_def write_eval sample_write_defs LOCAL_ID_PREFIX_def is_local_def)

lemma invoice_queued:
  "queue_write (2, 102) sample_realm Invoice Create ''local:i'' (JObject [(''CustomerRef'', JString ''local:c'')]) None 0
     (sample_replica [sample_customer]) = Inr (sample_invoice, sample_replica [sample_customer, sample_invoice])"
  by (simp add: queue_write_def enqueue_def Let_def parent_of_def resolve_local_id_def write_eval sample_write_defs
      LOCAL_ID_PREFIX_def is_local_def)

lemma invoice_created:
  "queue_create (2, 102) ''i'' sample_realm Invoice (JObject [(''CustomerRef'', JString ''local:c'')]) 0
     (sample_replica [sample_customer]) = Inr (sample_invoice, sample_replica [sample_customer, sample_invoice])"
  using invoice_queued by (simp add: queue_create_def LOCAL_ID_PREFIX_def)

lemma sample_steps: "replica_step\<^sup>*\<^sup>* (sample_replica []) (sample_replica [landed_customer, sample_invoice])"
proof -
  have "replica_step (sample_replica [sample_customer, sample_invoice]) (sample_replica [landed_customer, sample_invoice])"
    using replica_step.crashed crashed_replica by metis
  then show ?thesis
    using replica_step.created[OF customer_queued] replica_step.created[OF invoice_created]
    by (meson converse_rtranclp_into_rtranclp rtranclp.rtrancl_refl)
qed

lemma landed_steps:
  "replica_step\<^sup>*\<^sup>* (sample_replica [landed_customer, sample_invoice]) (sample_replica [landed_customer, sample_invoice])"
  by simp

theorem outbox_never_loses_a_write_witness:
  "\<exists>rp'. replica_step\<^sup>*\<^sup>* (sample_replica [sample_customer, sample_invoice]) rp' \<and>
     prefix (map fixed [sample_customer, sample_invoice]) (map fixed (rp_outbox rp')) \<and>
     map ob_state (rp_outbox rp') = [Applied, Pending]"
proof -
  have steps: "replica_step\<^sup>*\<^sup>* (sample_replica [sample_customer, sample_invoice]) (sample_replica [landed_customer, sample_invoice])"
    using replica_step.crashed crashed_replica by (metis r_into_rtranclp)
  have "distinct (map ob_id (rp_outbox (sample_replica [sample_customer, sample_invoice])))"
    by (simp add: sample_write_defs)
  from outbox_never_loses_a_write[OF steps this] steps show ?thesis
    by (intro exI[of _ "sample_replica [landed_customer, sample_invoice]"])
       (simp add: sample_replica_def landed_customer_def, simp add: sample_write_defs)
qed

theorem one_production_company_writes_witness:
  "\<exists>rp'. replica_step\<^sup>*\<^sup>* (sample_replica []) rp' \<and> length (rp_outbox rp') = 2 \<and>
    length (filter (\<lambda>row. rr_is_write_enabled row \<and> rr_environment row = Production) (rp_realms rp')) \<le> 1"
proof -
  have "one_writer (sample_replica [])" by (simp add: one_writer_def writing_def sample_write_defs)
  from one_production_company_writes[OF sample_steps this] sample_steps show ?thesis
    by (intro exI[of _ "sample_replica [landed_customer, sample_invoice]"]) (simp add: sample_replica_def)
qed

theorem queued_write_can_land_witness:
  "is_write_enabled (sample_replica [sample_customer]) sample_realm \<and>
    (\<exists>s \<in> local_references (JObject [(''CustomerRef'', JString ''local:c'')]) - {''local:i''}.
      \<exists>p. open_create (sample_replica [sample_customer]) sample_realm s p \<and> ob_id p = 1)"
proof -
  have "ob_depends_on sample_invoice = Some 1" by (simp add: sample_invoice_def)
  then show ?thesis using queued_write_can_land[OF invoice_queued] by simp
qed

text \<open>An edit of customer 9 that QuickBooks refused as stale; the replica has since seen the other edit.\<close>

definition sample_conflict :: outbox_record where
  "sample_conflict = (new_record
     \<lparr>no_id = 3, no_request_id = 103, no_realm = sample_realm, no_entity_type = Customer, no_operation = Update,
      no_payload = JObject [(''DisplayName'', JString ''Anna'')], no_local_id = ''9'', no_base_sync_token = Some ''4''\<rparr> 0)
        \<lparr>ob_state := Conflicted, ob_attempts := 1\<rparr>"

definition sample_synced :: replica where
  "sample_synced = (sample_replica [sample_conflict])
     \<lparr>rp_entities := (\<lambda>_ _ _. Some \<lparr>me_sync_token = ''5'', me_is_deleted = False\<rparr>)\<rparr>"

theorem conflict_is_rebased_witness:
  "\<exists>r rp'. resolve_write sample_realm 3 Retry 7 sample_synced = Inr (r, rp') \<and> ob_state r = Pending \<and> ob_attempts r = 0 \<and>
    ob_base_sync_token r = Some ''5'' \<and> ob_request_id r = 103"
proof -
  have *: "outbox_record_of sample_synced 3 = Some sample_conflict" "is_write_enabled sample_synced sample_realm"
    by (simp_all add: sample_synced_def sample_conflict_def write_eval sample_write_defs)
  have **: "ob_realm sample_conflict = sample_realm" "ob_state sample_conflict = Conflicted" "ob_operation sample_conflict = Update"
    "ob_request_id sample_conflict = 103" "ob_base_sync_token sample_conflict = Some ''4''"
    by (simp_all add: sample_conflict_def sample_write_defs)
  have e: "rp_entities sample_synced sample_realm (ob_entity_type sample_conflict) (ob_local_id sample_conflict) =
      Some \<lparr>me_sync_token = ''5'', me_is_deleted = False\<rparr>" by (simp add: sample_synced_def)
  show ?thesis using conflict_is_rebased[OF *(1) **(1,2,3) *(2), of 7] **(4,5) by (auto simp: e)
qed


end
