(* ===== verification/Verify.thy ===== *)
theory Verify
  imports Ledger_Query
begin

text \<open>
  \<open>apps/ledger/src/verify.rs\<close>: the invariants sweep over one company's book. Every check is a query of its
  own over the tables as they are, whatever wrote them; a query without an \<open>ORDER BY\<close> answers in
  the order of its first table, a grouped one in the order of its group key.
\<close>

section \<open>Findings\<close>

datatype severity = Fatal | Reported

fun severity_as_str :: "severity \<Rightarrow> string" where
  "severity_as_str Fatal = ''FATAL''"
| "severity_as_str Reported = ''reported''"

record finding =
  fi_check :: string
  fi_severity :: severity
  fi_detail :: string

record verify_report =
  vr_findings :: "finding list"

definition verify_is_ok :: "verify_report \<Rightarrow> bool" where
  "verify_is_ok report \<longleftrightarrow> \<not> list_ex (\<lambda>f. fi_severity f = Fatal) (vr_findings report)"

definition MAX_LISTED :: nat where
  "MAX_LISTED = 20"

text \<open>\<open>ids.join(", ")\<close>.\<close>

fun join_ids :: "string list \<Rightarrow> string" where
  "join_ids [] = []"
| "join_ids [x] = x"
| "join_ids (x # xs) = x @ '', '' @ join_ids xs"

definition finding_if_any :: "string \<Rightarrow> severity \<Rightarrow> string list \<Rightarrow> finding option" where
  "finding_if_any check severity ids =
     (if ids = [] then None
      else
        let listed = length ids;
            detail = if listed > MAX_LISTED
              then join_ids (take MAX_LISTED ids) @ '' (+'' @ show_nat (listed - MAX_LISTED) @ '' more)''
              else join_ids ids
        in Some \<lparr>fi_check = check, fi_severity = severity, fi_detail = detail\<rparr>)"

definition show_int :: "int \<Rightarrow> string" where
  "show_int i = (if i < 0 then ''-'' @ show_nat (nat (- i)) else show_nat (nat i))"

section \<open>The checks\<close>

definition debit_of :: "line_row \<Rightarrow> int" where
  "debit_of l = sint (minor (jl_debit (ln_line l)))"

definition credit_of :: "line_row \<Rightarrow> int" where
  "credit_of l = sint (minor (jl_credit (ln_line l)))"

text \<open>\<open>GROUP BY key HAVING SUM(debit) <> SUM(credit)\<close>, the groups that stay.\<close>

definition uneven_groups :: "(line_row \<Rightarrow> 'k :: linorder) \<Rightarrow> line_row list \<Rightarrow> ledger_error + 'k list" where
  "uneven_groups key rows =
     and_then (try_map (\<lambda>k.
        let ls = filter (\<lambda>l. key l = k) rows in
        and_then (ledger_sql (sql_sum (map debit_of ls))) (\<lambda>dr.
        and_then (ledger_sql (sql_sum (map credit_of ls))) (\<lambda>cr. Inr (k, dr \<noteq> cr))))
       (sorted_list_of_set (key ` set rows))) (\<lambda>groups.
     Inr (map fst (filter snd groups)))"

definition posted_rows :: "db \<Rightarrow> string \<Rightarrow> line_row list" where
  "posted_rows db company = map fst (posted_join db company (\<lambda>_. True))"

definition line_label :: "line_row \<Rightarrow> string" where
  "line_label l = ln_entry_id l @ '':'' @ show_int (jl_line_no (ln_line l))"

definition check_entries_balance :: "db \<Rightarrow> string \<Rightarrow> ledger_error + finding option" where
  "check_entries_balance db company =
     and_then (uneven_groups ln_entry_id (posted_rows db company)) (\<lambda>offenders.
     Inr (finding_if_any ''every posted entry balances'' Fatal offenders))"

definition check_lines_have_entries :: "db \<Rightarrow> string \<Rightarrow> ledger_error + finding option" where
  "check_lines_have_entries db company =
     Inr (finding_if_any ''no journal line without an entry'' Fatal
       (map line_label (filter (\<lambda>l. ln_company l = company \<and>
          \<not> list_ex (\<lambda>e. entry_key e = line_entry_key l) (db_journal_entries db)) (db_journal_lines db))))"

definition check_entries_have_document_versions :: "db \<Rightarrow> string \<Rightarrow> ledger_error + finding option" where
  "check_entries_have_document_versions db company =
     Inr (finding_if_any ''no entry without a document version'' Fatal
       (map en_entry_id (filter (\<lambda>e. en_company e = company \<and>
          \<not> document_exists db company (en_source_id e) (en_source_version e)) (db_journal_entries db))))"

definition check_tb_debits_equal_credits :: "db \<Rightarrow> string \<Rightarrow> ledger_error + finding option" where
  "check_tb_debits_equal_credits db company =
     and_then (ledger_sql (sql_sum (map debit_of (posted_rows db company)))) (\<lambda>debit_minor.
     and_then (ledger_sql (sql_sum (map credit_of (posted_rows db company)))) (\<lambda>credit_minor.
     Inr (if debit_minor = credit_minor then None
       else Some \<lparr>fi_check = ''trial balance debits equal credits'', fi_severity = Fatal,
         fi_detail = ''debits '' @ show_int debit_minor @ '' <> credits '' @ show_int credit_minor @ '' (minor units)''\<rparr>)))"

definition check_income_cogs_expense_lines_have_class :: "db \<Rightarrow> string \<Rightarrow> ledger_error + finding option" where
  "check_income_cogs_expense_lines_have_class db company =
     Inr (finding_if_any ''no income/COGS/expense line without a class'' Fatal
       (concat (map (\<lambda>l. map (\<lambda>_. line_label l) (filter (\<lambda>a. ac_account_id a = jl_account (ln_line l) \<and>
            ac_classification a \<in> {Income, Cogs, Expense} \<and> jl_class (ln_line l) = None) (company_accounts db company)))
          (posted_rows db company))))"

definition check_no_posting_after_close :: "db \<Rightarrow> string \<Rightarrow> ledger_error + finding option" where
  "check_no_posting_after_close db company =
     Inr (finding_if_any ''no posted entry dated inside a closed period, posted after the close'' Fatal
       (concat (map (\<lambda>e. map (\<lambda>_. en_entry_id e) (filter (\<lambda>p. pe_closed p \<and> en_entry_date e \<le> pe_period_end p \<and>
            (case en_posted_at e of None \<Rightarrow> False | Some t \<Rightarrow> pe_closed_at p < t)) (of_company company (db_periods db))))
          (filter (\<lambda>e. en_company e = company \<and> en_is_posted e = 1) (db_journal_entries db)))))"

definition check_normal_balance_consistency :: "db \<Rightarrow> string \<Rightarrow> ledger_error + finding option" where
  "check_normal_balance_consistency db company =
     Inr (finding_if_any ''normal_balance consistent with classification and is_contra'' Fatal
       (List.map_filter (\<lambda>a.
          let expected = (if ac_is_contra a
                then (case normal_balance (ac_classification a) of Debit \<Rightarrow> Credit | Credit \<Rightarrow> Debit)
                else normal_balance (ac_classification a))
          in if expected \<noteq> ac_normal_balance a then Some (account_no (ac_account_id a)) else None)
         (list_accounts db company)))"

definition check_needs_mapping_balances :: "db \<Rightarrow> string \<Rightarrow> ledger_error + finding option" where
  "check_needs_mapping_balances db company =
     and_then (try_map (\<lambda>a.
        let ls = filter (\<lambda>l. jl_account (ln_line l) = ac_account_id a) (posted_rows db company) in
        and_then (ledger_sql (sql_sum (map debit_of ls))) (\<lambda>dr.
        and_then (ledger_sql (sql_sum (map credit_of ls))) (\<lambda>cr. Inr (a, dr - cr \<noteq> 0))))
       (sort_key (account_no \<circ> ac_account_id) (filter ac_needs_mapping (company_accounts db company)))) (\<lambda>groups.
     Inr (finding_if_any ''needs_mapping account with a non-zero balance'' Reported
       (map (\<lambda>(a, _). ac_number a @ '' '' @ ac_name a) (filter snd groups))))"

definition checks :: "(db \<Rightarrow> string \<Rightarrow> ledger_error + finding option) list" where
  "checks =
     [check_entries_balance, check_lines_have_entries, check_entries_have_document_versions, check_tb_debits_equal_credits,
      check_income_cogs_expense_lines_have_class, check_no_posting_after_close, check_normal_balance_consistency,
      check_needs_mapping_balances]"

definition verify :: "db \<Rightarrow> string \<Rightarrow> ledger_error + verify_report" where
  "verify db company =
     and_then (try_fold (\<lambda>findings check. and_then (check db company) (\<lambda>f.
         Inr (case f of Some finding \<Rightarrow> findings @ [finding] | None \<Rightarrow> findings))) [] checks) (\<lambda>findings.
     Inr \<lparr>vr_findings = findings\<rparr>)"

end
