(* ===== verification/Verify_Facts.thy ===== *)
theory Verify_Facts
  imports Verify Book
begin

text \<open>
  The invariants sweep says what it claims: it passes exactly the books its invariants hold of, and a
  book made by the ledger's own commands under one clock passes it but for the accounts whose
  classification was set against their number.
\<close>

section \<open>The sweep\<close>

lemma finding_if_any_None [simp]: "finding_if_any check s ids = None \<longleftrightarrow> ids = []"
  by (simp add: finding_if_any_def Let_def)

lemma finding_if_any_severity: "finding_if_any check s ids = Some f \<Longrightarrow> fi_severity f = s"
  by (auto simp: finding_if_any_def Let_def split: if_splits)

lemma findings_fold:
  "try_fold (\<lambda>findings check. and_then (check db company) (\<lambda>f.
      Inr (case f of Some finding \<Rightarrow> findings @ [finding] | None \<Rightarrow> findings))) acc cs = Inr fs \<Longrightarrow>
   (\<forall>c \<in> set cs. \<exists>r. c db company = Inr r) \<and> set fs = set acc \<union> {f. \<exists>c \<in> set cs. c db company = Inr (Some f)}"
proof (induction cs arbitrary: acc)
  case (Cons c cs)
  then obtain r where r: "c db company = Inr r"
    "try_fold (\<lambda>findings check. and_then (check db company) (\<lambda>f.
      Inr (case f of Some finding \<Rightarrow> findings @ [finding] | None \<Rightarrow> findings)))
      (case r of Some finding \<Rightarrow> acc @ [finding] | None \<Rightarrow> acc) cs = Inr fs" by auto
  from Cons.IH[OF r(2)] r(1) show ?case by (cases r) auto
qed simp

text \<open>The sweep is clean when none of the fatal checks finds anything.\<close>

definition finds_nothing :: "ledger_error + finding option \<Rightarrow> bool" where
  "finds_nothing r \<longleftrightarrow> r = Inr None"

lemma verify_is_ok_iff:
  assumes "verify db company = Inr rep"
  shows "(\<forall>c \<in> set checks. \<exists>r. c db company = Inr r) \<and>
    (verify_is_ok rep \<longleftrightarrow> (\<forall>c \<in> set checks. \<forall>f. c db company = Inr (Some f) \<longrightarrow> fi_severity f \<noteq> Fatal))"
proof -
  from assms obtain fs where fs: "rep = \<lparr>vr_findings = fs\<rparr>"
    "try_fold (\<lambda>findings check. and_then (check db company) (\<lambda>f.
      Inr (case f of Some finding \<Rightarrow> findings @ [finding] | None \<Rightarrow> findings))) [] checks = Inr fs"
    by (auto simp: verify_def)
  from findings_fold[OF fs(2)] fs(1) show ?thesis by (auto simp: verify_is_ok_def list_ex_iff)
qed

section \<open>The rows it reads\<close>

lemma posted_rows:
  assumes "distinct (map entry_key (db_journal_entries db))"
  shows "posted_rows db company =
    filter (\<lambda>l. ln_company l = company \<and> posted_entry db (line_entry_key l)) (db_journal_lines db)"
proof -
  have one: "map fst (filter (\<lambda>(l, e). ln_company l = company \<and> entry_key e = line_entry_key l \<and> en_is_posted e = 1) (map (Pair l) es)) =
      (if ln_company l = company \<and> list_ex (\<lambda>e. entry_key e = line_entry_key l \<and> en_is_posted e = 1) es then [l] else [])"
    if "distinct (map entry_key es)" for l es
    using that
  proof (induction es)
    case (Cons e es)
    show ?case
    proof (cases "entry_key e = line_entry_key l")
      case True
      then have "\<forall>x \<in> set es. entry_key x \<noteq> line_entry_key l" using Cons.prems by (auto simp: image_iff)
      then have "filter (\<lambda>(l, e). ln_company l = company \<and> entry_key e = line_entry_key l \<and> en_is_posted e = 1) (map (Pair l) es) = []"
        "\<not> list_ex (\<lambda>e. entry_key e = line_entry_key l \<and> en_is_posted e = 1) es"
        by (auto simp: filter_empty_conv list_ex_iff)
      then show ?thesis using True by simp
    qed (use Cons in auto)
  qed simp
  have "map fst (filter (\<lambda>(l, e). ln_company l = company \<and> entry_key e = line_entry_key l \<and> en_is_posted e = 1)
      (List.product ls (db_journal_entries db))) =
      filter (\<lambda>l. ln_company l = company \<and> posted_entry db (line_entry_key l)) ls" for ls
    by (induction ls) (simp_all add: one[OF assms] posted_entry_def)
  then show ?thesis by (simp add: posted_rows_def posted_join_def)
qed

lemma summed: "and_then (ledger_sql (sql_sum xs)) k = Inr y \<longleftrightarrow> (\<exists>s. sql_sum xs = Inr s) \<and> k (sum_list xs) = Inr y"
  using sql_sum_Inr[of xs] by (cases "sql_sum xs") (auto simp: ledger_sql_def)

lemma uneven_groups_Inr:
  assumes "uneven_groups key rows = Inr ks"
  shows "set ks = {k. k \<in> key ` set rows \<and>
       (\<Sum>l\<leftarrow>filter (\<lambda>l. key l = k) rows. debit_of l) \<noteq> (\<Sum>l\<leftarrow>filter (\<lambda>l. key l = k) rows. credit_of l)}"
proof -
  define f where "f = (\<lambda>k.
        let ls = filter (\<lambda>l. key l = k) rows in
        and_then (ledger_sql (sql_sum (map debit_of ls))) (\<lambda>dr.
        and_then (ledger_sql (sql_sum (map credit_of ls))) (\<lambda>cr. Inr (k, dr \<noteq> cr))))"
  from assms obtain gs where gs: "try_map f (sorted_list_of_set (key ` set rows)) = Inr gs" "ks = map fst (filter snd gs)"
    by (auto simp: uneven_groups_def f_def)
  define uneven where "uneven = (\<lambda>k. (\<Sum>l\<leftarrow>filter (\<lambda>l. key l = k) rows. debit_of l) \<noteq> (\<Sum>l\<leftarrow>filter (\<lambda>l. key l = k) rows. credit_of l))"
  have each: "g = (k, uneven k)" if "f k = Inr g" for k g
    using that unfolding f_def Let_def summed uneven_def by simp
  have from_key: "\<exists>k \<in> key ` set rows. f k = Inr g" if "g \<in> set gs" for g
    using that unfolding try_map_set[OF gs(1)] by simp
  have to_group: "\<exists>g \<in> set gs. f k = Inr g" if "k \<in> key ` set rows" for k
    by (rule try_map_hits[OF gs(1)]) (use that in simp)
  have "set gs = (\<lambda>k. (k, uneven k)) ` (key ` set rows)"
  proof (rule equalityI; rule subsetI)
    fix g assume "g \<in> set gs"
    then obtain k where "k \<in> key ` set rows" "f k = Inr g" using from_key by blast
    then show "g \<in> (\<lambda>k. (k, uneven k)) ` (key ` set rows)" using each by blast
  next
    fix g assume "g \<in> (\<lambda>k. (k, uneven k)) ` (key ` set rows)"
    then obtain k where k: "k \<in> key ` set rows" "g = (k, uneven k)" by blast
    with to_group obtain g' where "g' \<in> set gs" "f k = Inr g'" by blast
    then show "g \<in> set gs" using each k(2) by metis
  qed
  moreover have "fst ` {g \<in> (\<lambda>k. (k, uneven k)) ` K. snd g} = {k. k \<in> K \<and> uneven k}" for K by force
  moreover have "set ks = fst ` {g \<in> set gs. snd g}" by (simp add: gs(2))
  ultimately show ?thesis by (simp only: uneven_def)
qed

section \<open>Each check\<close>

definition entries_even :: "db \<Rightarrow> string \<Rightarrow> bool" where
  "entries_even db company \<longleftrightarrow>
     (\<forall>e \<in> set (db_journal_entries db). en_company e = company \<and> en_is_posted e = 1 \<longrightarrow>
        debit_sum (lines_of db (entry_key e)) = credit_sum (lines_of db (entry_key e)))"

definition lines_owned :: "db \<Rightarrow> string \<Rightarrow> bool" where
  "lines_owned db company \<longleftrightarrow>
     (\<forall>l \<in> set (db_journal_lines db). ln_company l = company \<longrightarrow>
        (\<exists>e \<in> set (db_journal_entries db). entry_key e = line_entry_key l))"

definition entries_documented :: "db \<Rightarrow> string \<Rightarrow> bool" where
  "entries_documented db company \<longleftrightarrow>
     (\<forall>e \<in> set (db_journal_entries db). en_company e = company \<longrightarrow>
        document_exists db company (en_source_id e) (en_source_version e))"

definition results_classed :: "db \<Rightarrow> string \<Rightarrow> bool" where
  "results_classed db company \<longleftrightarrow>
     (\<forall>l \<in> set (db_journal_lines db). ln_company l = company \<and> posted_entry db (line_entry_key l) \<longrightarrow>
        (\<forall>a \<in> set (company_accounts db company). ac_account_id a = jl_account (ln_line l) \<and>
           ac_classification a \<in> {Income, Cogs, Expense} \<longrightarrow> jl_class (ln_line l) \<noteq> None))"

definition closes_respected :: "db \<Rightarrow> string \<Rightarrow> bool" where
  "closes_respected db company \<longleftrightarrow>
     (\<forall>e \<in> set (db_journal_entries db). en_company e = company \<and> en_is_posted e = 1 \<longrightarrow>
        (\<forall>p \<in> set (of_company company (db_periods db)). pe_closed p \<and> en_entry_date e \<le> pe_period_end p \<longrightarrow>
           en_posted_at e \<le> Some (pe_closed_at p)))"

definition accounts_sided :: "db \<Rightarrow> string \<Rightarrow> bool" where
  "accounts_sided db company \<longleftrightarrow>
     (\<forall>a \<in> set (company_accounts db company). ac_normal_balance a = seeded_side (ac_classification a) (ac_is_contra a))"

lemma sums_of: "debit_sum ls = (\<Sum>l\<leftarrow>ls. debit_of l)" "credit_sum ls = (\<Sum>l\<leftarrow>ls. credit_of l)"
  by (simp_all add: debit_sum_def credit_sum_def debit_of_def credit_of_def cents_def)

lemma rows_of_entry:
  assumes "distinct (map entry_key (db_journal_entries db))"
  shows "filter (\<lambda>l. ln_entry_id l = i) (posted_rows db company) =
    (if posted_entry db (company, i) then lines_of db (company, i) else [])"
  unfolding posted_rows[OF assms] filter_filter
  by (auto simp: lines_of_def line_entry_key_def filter_empty_conv intro!: filter_cong)

lemma balance_found:
  assumes "distinct (map entry_key (db_journal_entries db))" "check_entries_balance db company = Inr r"
  shows "r = None \<longleftrightarrow> entries_even db company"
proof -
  from assms(2) obtain ids where ids: "uneven_groups ln_entry_id (posted_rows db company) = Inr ids"
    and r: "r = None \<longleftrightarrow> ids = []" by (auto simp: check_entries_balance_def)
  have "ids = [] \<longleftrightarrow> (\<forall>i \<in> ln_entry_id ` set (posted_rows db company).
      debit_sum (filter (\<lambda>l. ln_entry_id l = i) (posted_rows db company)) =
      credit_sum (filter (\<lambda>l. ln_entry_id l = i) (posted_rows db company)))"
    using uneven_groups_Inr[OF ids] unfolding sums_of set_empty[symmetric] by auto
  also have "\<dots> \<longleftrightarrow> (\<forall>i. posted_entry db (company, i) \<longrightarrow> debit_sum (lines_of db (company, i)) = credit_sum (lines_of db (company, i)))"
    (is "?L = ?R")
  proof
    assume L: ?L
    show ?R
    proof (intro allI impI)
      fix i assume posted: "posted_entry db (company, i)"
      show "debit_sum (lines_of db (company, i)) = credit_sum (lines_of db (company, i))"
      proof (cases "i \<in> ln_entry_id ` set (posted_rows db company)")
        case True
        with L have "debit_sum (filter (\<lambda>l. ln_entry_id l = i) (posted_rows db company)) =
            credit_sum (filter (\<lambda>l. ln_entry_id l = i) (posted_rows db company))" by blast
        then show ?thesis by (simp add: rows_of_entry[OF assms(1)] posted)
      next
        case False
        then have "filter (\<lambda>l. ln_entry_id l = i) (posted_rows db company) = []" by (auto simp: filter_empty_conv)
        then have "lines_of db (company, i) = []" by (simp add: rows_of_entry[OF assms(1)] posted)
        then show ?thesis by (simp add: sums_of)
      qed
    qed
  next
    assume ?R
    then show ?L by (simp add: rows_of_entry[OF assms(1)] sums_of)
  qed
  also have "\<dots> \<longleftrightarrow> entries_even db company"
    by (auto simp: entries_even_def posted_entry_def list_ex_iff entry_key_def)
  finally show ?thesis using r by simp
qed

lemma owned_found: "check_lines_have_entries db company = Inr r \<Longrightarrow> r = None \<longleftrightarrow> lines_owned db company"
  by (auto simp: check_lines_have_entries_def lines_owned_def filter_empty_conv list_ex_iff)

lemma documented_found:
  "check_entries_have_document_versions db company = Inr r \<Longrightarrow> r = None \<longleftrightarrow> entries_documented db company"
  by (auto simp: check_entries_have_document_versions_def entries_documented_def filter_empty_conv)

lemma classed_found:
  assumes "distinct (map entry_key (db_journal_entries db))" "check_income_cogs_expense_lines_have_class db company = Inr r"
  shows "r = None \<longleftrightarrow> results_classed db company"
proof -
  have "r = finding_if_any ''no income/COGS/expense line without a class'' Fatal
       (concat (map (\<lambda>l. map (\<lambda>_. line_label l) (filter (\<lambda>a. ac_account_id a = jl_account (ln_line l) \<and>
            ac_classification a \<in> {Income, Cogs, Expense} \<and> jl_class (ln_line l) = None) (company_accounts db company)))
          (posted_rows db company)))"
    using assms(2) by (simp add: check_income_cogs_expense_lines_have_class_def)
  then have "r = None \<longleftrightarrow> (\<forall>l \<in> set (posted_rows db company). \<forall>a \<in> set (company_accounts db company).
      \<not> (ac_account_id a = jl_account (ln_line l) \<and> ac_classification a \<in> {Income, Cogs, Expense} \<and> jl_class (ln_line l) = None))"
    by (simp only: finding_if_any_None concat_eq_Nil_conv set_map ball_simps map_is_Nil_conv filter_empty_conv)
  then show ?thesis unfolding results_classed_def posted_rows[OF assms(1)] by auto
qed

lemma closes_found: "check_no_posting_after_close db company = Inr r \<Longrightarrow> r = None \<longleftrightarrow> closes_respected db company"
  by (auto simp: check_no_posting_after_close_def closes_respected_def filter_empty_conv split: option.splits) force+

lemma expected_side:
  "(if c then (case normal_balance k of Debit \<Rightarrow> Credit | Credit \<Rightarrow> Debit) else normal_balance k) = seeded_side k c"
  by (cases c; cases "normal_balance k") (simp_all add: seeded_side_def)

lemma sided_found: "check_normal_balance_consistency db company = Inr r \<Longrightarrow> r = None \<longleftrightarrow> accounts_sided db company"
  unfolding check_normal_balance_consistency_def expected_side Let_def
  by (auto simp: accounts_sided_def list_accounts_def List.map_filter_def filter_empty_conv split: if_splits)

text \<open>When every entry is even so is the book: the fourth check never fires alone.\<close>

lemma total_found:
  assumes "distinct (map entry_key (db_journal_entries db))" "check_tb_debits_equal_credits db company = Inr r" "entries_even db company"
  shows "r = None"
proof -
  let ?rows = "posted_rows db company"
  let ?ids = "sorted_list_of_set (ln_entry_id ` set ?rows)"
  have total: "(\<Sum>i\<leftarrow>?ids. \<Sum>l\<leftarrow>filter (\<lambda>l. ln_entry_id l = i) ?rows. f l) = (\<Sum>l\<leftarrow>?rows. f l)" for f :: "line_row \<Rightarrow> int"
    by (rule group_sum_by) simp_all
  have "(\<Sum>l\<leftarrow>filter (\<lambda>l. ln_entry_id l = i) ?rows. debit_of l) = (\<Sum>l\<leftarrow>filter (\<lambda>l. ln_entry_id l = i) ?rows. credit_of l)" for i
  proof (cases "posted_entry db (company, i)")
    case True
    then obtain e where "e \<in> set (db_journal_entries db)" "entry_key e = (company, i)" "en_is_posted e = 1"
      by (auto simp: posted_entry_def list_ex_iff)
    with assms(3) have "debit_sum (lines_of db (company, i)) = credit_sum (lines_of db (company, i))"
      by (auto simp: entries_even_def entry_key_def)
    then show ?thesis by (simp add: rows_of_entry[OF assms(1)] True sums_of)
  qed (simp add: rows_of_entry[OF assms(1)])
  then have "(\<Sum>l\<leftarrow>?rows. debit_of l) = (\<Sum>l\<leftarrow>?rows. credit_of l)"
    using total[of debit_of] total[of credit_of] by simp
  with assms(2) show ?thesis by (auto simp: check_tb_debits_equal_credits_def dest!: sql_sum_Inr split: if_splits)
qed

lemma mapping_found: "check_needs_mapping_balances db company = Inr (Some f) \<Longrightarrow> fi_severity f = Reported"
  by (auto simp: check_needs_mapping_balances_def intro: finding_if_any_severity)

lemma fatal_findings:
  "check_entries_balance db company = Inr (Some f) \<Longrightarrow> fi_severity f = Fatal"
  "check_lines_have_entries db company = Inr (Some f) \<Longrightarrow> fi_severity f = Fatal"
  "check_entries_have_document_versions db company = Inr (Some f) \<Longrightarrow> fi_severity f = Fatal"
  "check_tb_debits_equal_credits db company = Inr (Some f) \<Longrightarrow> fi_severity f = Fatal"
  "check_income_cogs_expense_lines_have_class db company = Inr (Some f) \<Longrightarrow> fi_severity f = Fatal"
  "check_no_posting_after_close db company = Inr (Some f) \<Longrightarrow> fi_severity f = Fatal"
  "check_normal_balance_consistency db company = Inr (Some f) \<Longrightarrow> fi_severity f = Fatal"
  unfolding check_entries_balance_def check_lines_have_entries_def check_entries_have_document_versions_def
    check_tb_debits_equal_credits_def check_income_cogs_expense_lines_have_class_def check_no_posting_after_close_def
    check_normal_balance_consistency_def
  by (auto split: if_splits intro: finding_if_any_severity)

definition sweep_invariants :: "db \<Rightarrow> string \<Rightarrow> bool" where
  "sweep_invariants db company \<longleftrightarrow>
     entries_even db company \<and> lines_owned db company \<and> entries_documented db company \<and>
     results_classed db company \<and> closes_respected db company \<and> accounts_sided db company"

lemma only_fatal:
  "(\<And>f. r = Some f \<Longrightarrow> fi_severity f = Fatal) \<Longrightarrow> (\<forall>f. r = Some f \<longrightarrow> fi_severity f \<noteq> Fatal) \<longleftrightarrow> r = None"
  by (cases r) auto

lemma sweep_exact:
  assumes "distinct (map entry_key (db_journal_entries db))" "verify db company = Inr rep"
  shows "verify_is_ok rep \<longleftrightarrow> sweep_invariants db company"
proof -
  note sweep = verify_is_ok_iff[OF assms(2)]
  have answered: "\<exists>r. c db company = Inr r" if "c \<in> set checks" for c using sweep that by blast
  obtain r1 r2 r3 r4 r5 r6 r7 where r: "check_entries_balance db company = Inr r1" "check_lines_have_entries db company = Inr r2"
    "check_entries_have_document_versions db company = Inr r3" "check_tb_debits_equal_credits db company = Inr r4"
    "check_income_cogs_expense_lines_have_class db company = Inr r5" "check_no_posting_after_close db company = Inr r6"
    "check_normal_balance_consistency db company = Inr r7"
    using answered unfolding checks_def list.set by (meson insertI1 insertI2)
  have fatal: "r1 = Some f \<Longrightarrow> fi_severity f = Fatal" "r2 = Some f \<Longrightarrow> fi_severity f = Fatal" "r3 = Some f \<Longrightarrow> fi_severity f = Fatal"
    "r4 = Some f \<Longrightarrow> fi_severity f = Fatal" "r5 = Some f \<Longrightarrow> fi_severity f = Fatal" "r6 = Some f \<Longrightarrow> fi_severity f = Fatal"
    "r7 = Some f \<Longrightarrow> fi_severity f = Fatal" for f
    using r fatal_findings[of db company f] by simp_all
  have "verify_is_ok rep \<longleftrightarrow>
      (\<forall>r \<in> {r1, r2, r3, r4, r5, r6, r7}. \<forall>f. r = Some f \<longrightarrow> fi_severity f \<noteq> Fatal)"
    using sweep mapping_found[of db company] by (simp add: checks_def r)
  also have "\<dots> \<longleftrightarrow> r1 = None \<and> r2 = None \<and> r3 = None \<and> r4 = None \<and> r5 = None \<and> r6 = None \<and> r7 = None"
    by (simp only: ball_simps simp_thms only_fatal[OF fatal(1)] only_fatal[OF fatal(2)] only_fatal[OF fatal(3)] only_fatal[OF fatal(4)]
        only_fatal[OF fatal(5)] only_fatal[OF fatal(6)] only_fatal[OF fatal(7)])
  also have "\<dots> \<longleftrightarrow> sweep_invariants db company"
    using balance_found[OF assms(1) r(1)] owned_found[OF r(2)] documented_found[OF r(3)] total_found[OF assms(1) r(4)]
      classed_found[OF assms(1) r(5)] closes_found[OF r(6)] sided_found[OF r(7)]
    unfolding sweep_invariants_def by blast
  finally show ?thesis .
qed

section \<open>Books the commands make\<close>

text \<open>
  What the commands keep besides: at time \<open>t\<close> nothing was posted later, and nothing inside a closed
  period after its close; a line names a class exactly on the numbers the store asks it of; every
  account has the side of its classification.
\<close>

definition numbered_classed :: "journal_line \<Rightarrow> bool" where
  "numbered_classed l \<longleftrightarrow>
     (jl_class l \<noteq> None \<longleftrightarrow> (case account_no (jl_account l) of [] \<Rightarrow> False | c # _ \<Rightarrow> c \<in> set ''4567''))"

definition timely :: "timestamp \<Rightarrow> db \<Rightarrow> bool" where
  "timely t db \<longleftrightarrow>
     (\<forall>e \<in> set (db_journal_entries db). en_posted_at e \<le> Some t \<and>
        (\<forall>p \<in> set (of_company (en_company e) (db_periods db)). pe_closed p \<and> en_entry_date e \<le> pe_period_end p \<longrightarrow>
           en_posted_at e \<le> Some (pe_closed_at p)))"

definition vetted :: "timestamp \<Rightarrow> db \<Rightarrow> bool" where
  "vetted t db \<longleftrightarrow> chart_keyed db \<and> timely t db \<and>
     list_all (\<lambda>l. numbered_classed (ln_line l)) (db_journal_lines db) \<and>
     list_all (\<lambda>row. ac_normal_balance (snd row) = seeded_side (ac_classification (snd row)) (ac_is_contra (snd row))) (db_accounts db)"

lemma timely_later: "timely t db \<Longrightarrow> t \<le> u \<Longrightarrow> timely u db"
  by (fastforce simp: timely_def intro: order_trans)

abbreviation vets :: "timestamp \<Rightarrow> db \<Rightarrow> db \<Rightarrow> bool" where
  "vets t db db' \<equiv> vetted t db \<longrightarrow> vetted t db'"

lemmas vet_steps = keeping.steps[where P = "vetted t" for t] keeping.stated[where P = "vetted t" for t]

text \<open>A step that leaves the chart, the periods and the journal but for its stamps.\<close>

definition quiet :: "db \<Rightarrow> db \<Rightarrow> bool" where
  "quiet db db' \<longleftrightarrow>
     db_accounts db' = db_accounts db \<and> db_periods db' = db_periods db \<and>
     db_journal_entries db' = db_journal_entries db \<and> list_all2 same_line (db_journal_lines db) (db_journal_lines db')"

interpretation quieter: step_order quiet
  by unfold_locales (auto simp: quiet_def intro: same_lines_trans)

lemma same_lines_classed:
  "list_all2 same_line ls ks \<Longrightarrow> list_all (\<lambda>l. numbered_classed (ln_line l)) ks = list_all (\<lambda>l. numbered_classed (ln_line l)) ls"
  by (induction rule: list_all2_induct) (auto dest: same_line_eqs)

lemma quiet_vets: "quiet db db' \<Longrightarrow> vets t db db'"
  using same_lines_classed[of "db_journal_lines db" "db_journal_lines db'"]
  by (auto simp: quiet_def vetted_def timely_def chart_keyed_def)

lemma obeys_quiet: "obeys quiet m \<Longrightarrow> obeys (vets t) m"
  by (rule obeys_weaken) (rule quiet_vets)

lemma quiet_rows [simp]:
  "quiet db (db_companies_update f db)" "quiet db (db_classes_update g db)" "quiet db (db_close_history_update h db)"
  "quiet db (db_document_versions_update i db)" "quiet db (db_tb_snapshots_update j db)" "quiet db (db_oplog_update k db)"
  "quiet db (db_adjustment_requests_update m db)" "quiet db (db_bank_statements_update n db)" "quiet db (db_bank_lines_update p db)"
  by (simp_all add: quiet_def)

lemmas quiet_steps = quieter.steps quieter.stated

lemma quiet_operations:
  "obeys quiet (add_class c ident name ref)" "obeys quiet (save_document to_json c doc command ident now)"
  "obeys quiet (snapshot_trial_balance c as_of ident now)"
  "obeys quiet (insert_adjustment_request c ident who at_time what lines)"
  "obeys quiet (decide_adjustment_request c ident who at_time why state posted)"
  "obeys quiet (create_bank_statement c ident account ps pe ob cb now)" "obeys quiet (close_bank_statement c ident now)"
  "obeys quiet (insert_bank_line_if_new c line_id ident account posted_on amount description external_id)"
  "obeys quiet (set_bank_line_match c line_id match_kind entry_id line_no now)"
  unfolding add_class_def save_document_def snapshot_trial_balance_def insert_adjustment_request_def decide_adjustment_request_def
    create_bank_statement_def close_bank_statement_def insert_bank_line_if_new_def set_bank_line_match_def
          apply (intro quiet_steps; auto simp: upsert_class_def split: if_splits)
         apply (intro quiet_steps; auto simp: insert_oplog_def insert_document_version_def)
        apply (intro quiet_steps; auto)
       apply (intro quiet_steps; auto)
      apply (intro quiet_steps; auto)
     apply (intro quiet_steps; auto)
    apply (intro quiet_steps; auto)
   apply (intro quiet_steps; auto)
  apply (intro quiet_steps; auto)
  done

lemma clear_line_quiet: "obeys quiet (clear_journal_line c entry_id line_no now)"
  unfolding clear_journal_line_def
  by (intro quiet_steps)
    (auto simp: quiet_def same_line_def journal_line_at_def list_all2_map2 list.rel_refl dest!: update_lines_Inr
      intro!: list_all2_refl)

lemma account_vets:
  assumes "insert_account_if_new c (new_account n name k contra ref m) db = Inr db' \<or>
      upsert_account c (new_account n name k contra ref m) db = Inr db'"
  shows "vets t db db'"
proof -
  have same: "db_periods db' = db_periods db" "db_journal_entries db' = db_journal_entries db" "db_journal_lines db' = db_journal_lines db"
    using assms by (auto simp: insert_account_if_new_def upsert_account_def split: if_splits)
  have "aside db db'"
    using assms by (auto intro: insert_account_beside upsert_account_beside new_account_key)
  then have "chart_keyed db \<longrightarrow> chart_keyed db'" by (simp add: aside_def tables_grow_def)
  moreover have "list_all (\<lambda>row. ac_normal_balance (snd row) = seeded_side (ac_classification (snd row)) (ac_is_contra (snd row))) (db_accounts db')"
    if "list_all (\<lambda>row. ac_normal_balance (snd row) = seeded_side (ac_classification (snd row)) (ac_is_contra (snd row))) (db_accounts db)"
    using that assms
    by (auto simp: insert_account_if_new_def upsert_account_def update_rows_def new_account_def list_all_iff split: if_splits)
      force+
  ultimately show ?thesis by (auto simp: vetted_def timely_def same)
qed

lemma chart_vets:
  "obeys (vets t) (create_company c name realm now)" "obeys (vets t) (add_account c number name k contra ref m)"
  "obeys (vets t) (set_account_source_ref c number source :: bool op)"
proof -
  show "obeys (vets t) (create_company c name realm now)"
    unfolding create_company_def
    by (intro vet_steps;
        auto simp: upsert_company_def insert_class_if_new_def split: if_splits intro: quieter.refl[THEN quiet_vets, THEN mp]
          quiet_vets[OF quiet_rows(1), THEN mp] quiet_vets[OF quiet_rows(2), THEN mp]
          account_vets[OF disjI1, THEN mp] intro!: vet_steps)
  show "obeys (vets t) (add_account c number name k contra ref m)"
    unfolding add_account_def by (intro vet_steps account_vets disjI2)
  show "obeys (vets t) (set_account_source_ref c number source :: bool op)"
  proof (rule obeysI)
    fix db r db' assume "set_account_source_ref c number source db = (r, db')"
    then have db': "db' = db\<lparr>db_accounts := update_rows c (\<lambda>a. ac_number a = number \<and> ac_source_ref a = None)
        (\<lambda>a. a\<lparr>ac_source_ref := Some source\<rparr>) (db_accounts db)\<rparr>"
      by (simp add: set_account_source_ref_def Let_def)
    then have "chart_keyed db' = chart_keyed db" by (simp add: chart_keyed_def account_keys_updated)
    moreover have "ac_normal_balance (snd row) = seeded_side (ac_classification (snd row)) (ac_is_contra (snd row))"
      if "row \<in> set (db_accounts db')" "vetted t db" for row
      using that by (auto simp: db' update_rows_def vetted_def list_all_iff split: if_splits)
    ultimately show "vets t db db'" by (auto simp: db' vetted_def timely_def list_all_iff)
  qed
qed

lemma close_vets: "obeys (vets now) (close_period c on actor why ident now)"
  unfolding close_period_def
proof (intro vet_steps obeys_quiet[OF quiet_operations(3)])
  fix db db' moved_from
  assume "upsert_closed_period c \<lparr>pe_period_end = on, pe_closed = True, pe_closed_at = now, pe_closed_by = actor,
      pe_tb_snapshot_id = moved_from\<rparr> db = Inr db'"
  then have rows: "p \<in> set (of_company k (db_periods db')) \<Longrightarrow> p \<in> set (of_company k (db_periods db)) \<or> pe_closed_at p = now"
    and same: "db_accounts db' = db_accounts db" "db_journal_entries db' = db_journal_entries db"
      "db_journal_lines db' = db_journal_lines db" for p k
    by (auto simp: upsert_closed_period_def update_rows_def of_company_def split: if_splits) force+
  show "vets now db db'"
    using rows by (fastforce simp: vetted_def timely_def same chart_keyed_def)
qed (auto intro!: quiet_vets simp: insert_close_history_def)

lemma reopen_vets: "obeys (vets t) (reopen_period c on actor why now)"
  unfolding reopen_period_def
  by (intro vet_steps)
    (auto simp: insert_close_history_def vetted_def timely_def chart_keyed_def update_rows_def of_company_def)

lemma class_rule_numbered:
  assumes "check_class_rule db company l = Inr ()" "chart_keyed db"
  shows "numbered_classed l"
proof -
  from assms(1) obtain a where a: "account_row_in db company (jl_account l) = Some a"
    and rule: "(case ac_number a of [] \<Rightarrow> False | c # _ \<Rightarrow> c \<in> set ''4567'') \<longleftrightarrow> jl_class l \<noteq> None"
    by (auto simp: check_class_rule_def Let_def split: if_splits)
  from a have "a \<in> set (company_accounts db company)" "ac_account_id a = jl_account l"
    by (auto simp: account_row_in_def dest!: find_map_Some)
  then have "jl_account l = AccountId (ac_number a)"
    using assms(2) by (auto simp: chart_keyed_def chart_keys_ok_def list_all_iff account_key_def company_accounts_def of_company_set)
  with rule show ?thesis by (simp add: numbered_classed_def)
qed

lemma post_vets: "obeys (vets now) (post_entry company e ident now)"
proof (rule obeysI, rule impI)
  fix db r db' assume run: "post_entry company e ident now db = (r, db')" and ok: "vetted now db"
  show "vetted now db'"
  proof (cases r)
    case (Inl err)
    then show ?thesis using run post_entry_refused_unchanged ok by metis
  next
    case (Inr i)
    note acc = post_entry_accepted[OF run[unfolded Inr]]
    have "\<not> (pe_closed p \<and> je_entry_date e \<le> pe_period_end p)" if "p \<in> set (of_company company (db_periods db))" for p
    proof
      assume p: "pe_closed p \<and> je_entry_date e \<le> pe_period_end p"
      then have "locked_through db company \<noteq> None"
        using that by (auto simp: locked_through_def locked_through_in_def filter_empty_conv)
      then obtain locked where lock: "locked_through db company = Some locked" by blast
      then have "pe_period_end p \<le> locked"
        using that p by (auto simp: locked_through_def locked_through_in_def sql_max_Some)
      with acc(5)[OF lock] p show False by (meson leD order_trans)
    qed
    moreover have "numbered_classed l" if "l \<in> set (je_lines e)" for l
      using class_rule_numbered[OF acc(4)[OF that]] ok by (simp add: vetted_def)
    ultimately show ?thesis
      using ok unfolding acc(2)
      by (auto simp: vetted_def timely_def chart_keyed_def with_posted_def list_all_iff posted_row_def entry_row_of_def line_row_of_def)
  qed
qed

lemmas desk_vets = vet_steps quiet_operations[THEN obeys_quiet] clear_line_quiet[THEN obeys_quiet] post_vets

lemma reverse_vets: "obeys (vets now) (reverse_entry company i on ident now)"
  unfolding reverse_entry_def by (intro desk_vets)

lemma import_vets: "obeys (vets t) (import_statement company account stmt ident line_ids now)"
  unfolding import_statement_def import_line_def by (intro desk_vets)

lemma try_settlements_vets: "obeys (vets t) (try_settlements company line now entries)"
proof (induction entries)
  case (Cons i entries)
  then show ?case unfolding try_settlements.simps read_only_def by (intro desk_vets)
qed (simp only: try_settlements.simps vet_steps)

lemma posted_entry_of_vets: "obeys (vets t) (posted_entry_of E doc version)"
  unfolding posted_entry_of_def by (auto intro!: vet_steps split: sum.split posting.split)

lemma try_fee_settlements_vets: "obeys (vets now) (try_fee_settlements E company line amount rules fresh now candidates)"
proof (induction candidates)
  case (Cons c candidates)
  then show ?case
    by (cases c) (simp only: try_fee_settlements.simps read_only_def post_settlement_fee_adjustment_def Let_def,
      intro desk_vets posted_entry_of_vets)
qed (simp only: try_fee_settlements.simps vet_steps)

lemma propose_vets: "obeys (vets t) (propose company line is_money_in now report)"
  unfolding propose_def by (intro desk_vets)

lemma match_one_line_vets: "obeys (vets now) (match_one_line E company rules fresh now report line)"
  unfolding match_one_line_def Let_def read_only_def try_settlement_match_def try_settlement_fee_match_def
  by (intro desk_vets propose_vets try_settlements_vets try_fee_settlements_vets impI conjI)
    (auto intro!: desk_vets propose_vets try_settlements_vets try_fee_settlements_vets split: list.split)

lemma desk_commands_vet:
  "obeys (vets now) (match_statement E company ident rules fresh now)"
  "obeys (vets now) (confirm_proposal E company line account cls fresh' now)"
  "obeys (vets t) (close_statement company ident now)"
  unfolding match_statement_def confirm_proposal_def close_statement_def read_only_def Let_def
  by (intro desk_vets match_one_line_vets posted_entry_of_vets)+

section \<open>Under one clock\<close>

text \<open>The time a command is given, and command sequences whose clock never runs back.\<close>

fun time_of :: "command \<Rightarrow> timestamp option" where
  "time_of (Create_company c name realm now) = Some now"
| "time_of (Add_account c number name k contra ref m) = None"
| "time_of (Add_class c ident name ref) = None"
| "time_of (Set_source_ref c number ref) = None"
| "time_of (Save_document c doc meta ident now) = Some now"
| "time_of (Snapshot c as_of ident now) = Some now"
| "time_of (Close_period c on actor why ident now) = Some now"
| "time_of (Reopen_period c on actor why now) = Some now"
| "time_of (Post_entry c e ident now) = Some now"
| "time_of (Reverse_entry c i on ident now) = Some now"
| "time_of (Propose_adjustment c ident who now what lines) = Some now"
| "time_of (Decide_adjustment c ident who now why state posted) = Some now"
| "time_of (Import_statement c account stmt ident line_ids now) = Some now"
| "time_of (Match_statement c ident rules fresh now) = Some now"
| "time_of (Confirm_proposal c line account cls fresh now) = Some now"
| "time_of (Close_statement c ident now) = Some now"

fun on_clock :: "timestamp \<Rightarrow> command list \<Rightarrow> bool" where
  "on_clock t [] = True"
| "on_clock t (cmd # cmds) = (case time_of cmd of None \<Rightarrow> on_clock t cmds | Some u \<Rightarrow> t \<le> u \<and> on_clock u cmds)"

lemma perform_vets: "unwrap_or (time_of cmd) t = t \<Longrightarrow> vets t db (perform E cmd db)"
  by (cases cmd)
    (auto simp: unwrap_or_def intro!: obeys_here[of "vets t"] chart_vets close_vets reopen_vets quiet_operations[THEN obeys_quiet]
      post_vets reverse_vets import_vets desk_commands_vet)

lemma commands_vet: "on_clock t cmds \<Longrightarrow> vetted t db \<Longrightarrow> \<exists>u. vetted u (perform_all E cmds db)"
proof (induction cmds arbitrary: t db)
  case (Cons cmd cmds)
  let ?u = "unwrap_or (time_of cmd) t"
  have "t \<le> ?u" "on_clock ?u cmds" using Cons.prems(1) by (auto simp: unwrap_or_def split: option.splits)
  then have "vetted ?u db" using Cons.prems(2) timely_later by (auto simp: vetted_def)
  then have "vetted ?u (perform E cmd db)"
    using perform_vets[of cmd ?u db E] by (simp add: unwrap_or_def split: option.splits)
  from Cons.IH[OF \<open>on_clock ?u cmds\<close> this] show ?case by (simp add: perform_all_def)
qed (auto simp: perform_all_def)

lemma empty_vetted: "vetted t empty_db"
  by (simp add: vetted_def timely_def chart_keyed_def chart_keys_ok_def empty_db_def)

text \<open>Accounts whose classification reports a result are numbered as such.\<close>

definition numbered_accounts :: "db \<Rightarrow> string \<Rightarrow> bool" where
  "numbered_accounts db company \<longleftrightarrow>
     (\<forall>a \<in> set (company_accounts db company). ac_classification a \<in> {Income, Cogs, Expense} \<longrightarrow>
        (case ac_number a of [] \<Rightarrow> False | c # _ \<Rightarrow> c \<in> set ''4567''))"

lemma vetted_invariants:
  assumes "vetted t db" "journal_ok db" "all_posted db" "numbered_accounts db company"
  shows "sweep_invariants db company"
proof -
  have even: "lines_balance (lines_of db (entry_key e))" if "e \<in> set (db_journal_entries db)" for e
    using assms(2,3) that by (auto simp: journal_ok_def posted_balanced_def all_posted_def list_all_iff)
  have refs: "journal_references_ok db" using assms(2) by (simp add: journal_ok_def)
  have "results_classed db company"
    unfolding results_classed_def
  proof (intro ballI impI)
    fix l a assume l: "l \<in> set (db_journal_lines db)" and a: "a \<in> set (company_accounts db company)"
      "ac_account_id a = jl_account (ln_line l) \<and> ac_classification a \<in> {Income, Cogs, Expense}"
    have "ac_account_id a = AccountId (ac_number a)"
      using assms(1) a(1) by (auto simp: vetted_def chart_keyed_def chart_keys_ok_def list_all_iff account_key_def
          company_accounts_def of_company_set)
    then have number: "account_no (jl_account (ln_line l)) = ac_number a" using a(2) by simp
    have "numbered_classed (ln_line l)" using assms(1) l by (simp add: vetted_def list_all_iff)
    then show "jl_class (ln_line l) \<noteq> None"
      using assms(4) a unfolding numbered_classed_def number numbered_accounts_def by blast
  qed
  moreover have "closes_respected db company"
    using assms(1) by (auto simp: vetted_def timely_def closes_respected_def)
  moreover have "accounts_sided db company"
    using assms(1) by (force simp: vetted_def accounts_sided_def list_all_iff company_accounts_def of_company_set)
  ultimately show ?thesis
    using even refs
    by (auto simp: sweep_invariants_def entries_even_def lines_owned_def entries_documented_def lines_balance_def
        journal_references_ok_def list_all_iff list_ex_iff)
qed

section \<open>The sweep answers\<close>

lemma part_sum:
  assumes "\<And>l. l \<in> set rows \<Longrightarrow> 0 \<le> f l" "in_i64 (\<Sum>l\<leftarrow>rows. f l)"
  shows "\<exists>s. sql_sum (map f (filter P rows)) = Inr s"
proof -
  have nonneg: "0 \<le> (\<Sum>l\<leftarrow>filter Q rows. f l)" for Q using assms(1) by (intro sum_list_nonneg) auto
  have "(\<Sum>l\<leftarrow>rows. f l) = (\<Sum>l\<leftarrow>filter P rows. f l) + (\<Sum>l\<leftarrow>filter (\<lambda>l. \<not> P l) rows. f l)"
    by (induction rows) auto
  with nonneg assms(2) have "in_i64 (\<Sum>l\<leftarrow>filter P rows. f l)"
    by (smt (verit) in_i64_def)
  then show ?thesis using sql_sum_nonneg[of "map f (filter P rows)"] assms(1) by auto
qed

lemma sweep_answers:
  assumes "journal_lines_ok db"
    and "in_i64 (\<Sum>l\<leftarrow>posted_rows db company. debit_of l)" "in_i64 (\<Sum>l\<leftarrow>posted_rows db company. credit_of l)"
  shows "\<exists>rep. verify db company = Inr rep"
proof -
  let ?rows = "posted_rows db company"
  have nonneg: "0 \<le> debit_of l" "0 \<le> credit_of l" if "l \<in> set ?rows" for l
    using assms(1) that
    by (auto simp: posted_rows_def posted_join_def journal_lines_ok_def list_all_iff line_checks_def debit_of_def credit_of_def)
  note sums = part_sum[of ?rows debit_of, OF nonneg(1) assms(2)] part_sum[of ?rows credit_of, OF nonneg(2) assms(3)]
  have each: "\<exists>r. and_then (ledger_sql (sql_sum (map debit_of (filter P ?rows)))) (\<lambda>dr.
      and_then (ledger_sql (sql_sum (map credit_of (filter P ?rows)))) (\<lambda>cr. Inr (k, g dr cr))) = Inr r" for P k g
    using sums[of P] by (auto simp: ledger_sql_def)
  have answers: "\<exists>r. c db company = Inr r" if "c \<in> set checks" for c
  proof -
    have "\<exists>gs. try_map (\<lambda>k.
        let ls = filter (\<lambda>l. ln_entry_id l = k) ?rows in
        and_then (ledger_sql (sql_sum (map debit_of ls))) (\<lambda>dr.
        and_then (ledger_sql (sql_sum (map credit_of ls))) (\<lambda>cr. Inr (k, dr \<noteq> cr)))) ks = Inr gs" for ks
      unfolding Let_def by (rule try_map_total) (rule each)
    then have "\<exists>ids. uneven_groups ln_entry_id ?rows = Inr ids"
      unfolding uneven_groups_def by (metis and_then.simps(2))
    moreover have "\<exists>gs. try_map (\<lambda>a.
        let ls = filter (\<lambda>l. jl_account (ln_line l) = ac_account_id a) ?rows in
        and_then (ledger_sql (sql_sum (map debit_of ls))) (\<lambda>dr.
        and_then (ledger_sql (sql_sum (map credit_of ls))) (\<lambda>cr. Inr (a, dr - cr \<noteq> 0)))) as = Inr gs" for as
      unfolding Let_def by (rule try_map_total) (rule each)
    moreover have "\<exists>s. sql_sum (map debit_of ?rows) = Inr s" "\<exists>s. sql_sum (map credit_of ?rows) = Inr s"
      using sums[of "\<lambda>_. True"] by simp_all
    ultimately show ?thesis
      using that
      by (auto simp: checks_def check_entries_balance_def check_lines_have_entries_def check_entries_have_document_versions_def
          check_tb_debits_equal_credits_def check_income_cogs_expense_lines_have_class_def check_no_posting_after_close_def
          check_normal_balance_consistency_def check_needs_mapping_balances_def ledger_sql_def)
  qed
  have "\<exists>fs. try_fold (\<lambda>findings check. and_then (check db company) (\<lambda>f.
      Inr (case f of Some finding \<Rightarrow> findings @ [finding] | None \<Rightarrow> findings))) acc cs = Inr fs"
    if "set cs \<subseteq> set checks" for acc cs
    using that
  proof (induction cs arbitrary: acc)
    case (Cons c cs)
    then have "c \<in> set checks" by simp
    from answers[OF this] Cons show ?case by auto
  qed simp
  from this[of checks "[]"] show ?thesis by (auto simp: verify_def)
qed

section \<open>What the sweep is worth\<close>


text \<open>
  C39. A book the ledger's own commands made, whichever of them failed and with periods closed and
  reopened, passes the sweep, provided the clock never ran back, no account that reports a result
  is numbered outside 4xxx-7xxx, and the posted columns add up within 64 bits.
\<close>

theorem honest_book_passes_the_sweep:
  assumes "on_clock t cmds" "numbered_accounts (perform_all E cmds empty_db) company"
    and "in_i64 (\<Sum>l\<leftarrow>posted_rows (perform_all E cmds empty_db) company. debit_of l)"
    and "in_i64 (\<Sum>l\<leftarrow>posted_rows (perform_all E cmds empty_db) company. credit_of l)"
  shows "\<exists>rep. verify (perform_all E cmds empty_db) company = Inr rep \<and> verify_is_ok rep"
proof -
  let ?db = "perform_all E cmds empty_db"
  have ok: "journal_ok ?db" "all_posted ?db"
    using reachable_facts(1)[of E cmds] by (auto simp: desk_ok_def book_sound_def)
  obtain rep where rep: "verify ?db company = Inr rep" using sweep_answers[OF _ assms(3,4)] ok(1) by (auto simp: journal_ok_def)
  obtain u where "vetted u ?db" using commands_vet[OF assms(1) empty_vetted] by blast
  then have "sweep_invariants ?db company" by (rule vetted_invariants[OF _ ok assms(2)])
  moreover have "distinct (map entry_key (db_journal_entries ?db))"
    using ok(1) by (simp add: journal_ok_def journal_keys_ok_def)
  ultimately show ?thesis using sweep_exact rep by blast
qed


end
