(* ===== verification/Verify_Outcome.thy ===== *)
theory Verify_Outcome
  imports Verify_Facts Bank_Outcome
begin

text \<open>
  The sweep on concrete books: one founded, posted to and closed by the ledger's commands, and one
  whose posted amount was changed behind the triggers' back.
\<close>

section \<open>A book founded by commands\<close>

definition seeded_account :: "account_seed \<Rightarrow> account" where
  "seeded_account s = new_account (as_number s) (as_name s) (as_classification s) (as_is_contra s) None False"

lemma seeded_account_sel [simp]:
  "ac_account_id (seeded_account s) = AccountId (as_number s)" "ac_number (seeded_account s) = as_number s"
  "ac_classification (seeded_account s) = as_classification s"
  by (simp_all add: seeded_account_def new_account_def)

lemma seed_run:
  assumes "distinct (map as_number xs)" "has_company db c"
    and "\<And>s. s \<in> set xs \<Longrightarrow> \<not> account_exists db c (AccountId (as_number s))"
  shows "run_each (\<lambda>s. execute (insert_account_if_new c (seeded_account s))) xs db =
    (Inr (), db\<lparr>db_accounts := db_accounts db @ map (\<lambda>s. (c, seeded_account s)) xs\<rparr>)"
  using assms
proof (induction xs arbitrary: db)
  case (Cons s xs)
  let ?db = "db\<lparr>db_accounts := db_accounts db @ [(c, seeded_account s)]\<rparr>"
  have "insert_account_if_new c (seeded_account s) db = Inr ?db"
    using Cons.prems(2) Cons.prems(3)[of s] by (simp add: insert_account_if_new_def references_company_def)
  moreover have "\<not> account_exists ?db c (AccountId (as_number x))" if "x \<in> set xs" for x
    using Cons.prems(1) Cons.prems(3)[of x] that by (auto simp: account_exists_def)
  ultimately show ?case
    using Cons.IH[of ?db] Cons.prems(1,2) by (simp add: and_run_def execute_def has_company_def)
qed simp

definition founded_db :: "timestamp \<Rightarrow> db" where
  "founded_db now = snd (create_company ''co'' ''Aquamentor'' None now empty_db)"

lemma founded:
  "create_company ''co'' ''Aquamentor'' None now empty_db = (Inr (), founded_db now)"
  "db_accounts (founded_db now) = map (\<lambda>s. (''co'', seeded_account s)) seed_chart"
  "db_periods (founded_db now) = []" "db_document_versions (founded_db now) = []"
  "db_journal_entries (founded_db now) = []" "db_journal_lines (founded_db now) = []" "db_oplog (founded_db now) = []"
proof -
  let ?db = "empty_db\<lparr>db_companies := [(''co'', \<lparr>co_display_name = ''Aquamentor'', co_realm_id = None, co_created_at = now\<rparr>)]\<rparr>"
  have start: "upsert_company ''co'' ''Aquamentor'' None now empty_db = Inr ?db"
    by (simp add: upsert_company_def has_company_def empty_db_def)
  have seeds: "run_each (\<lambda>s. execute (insert_account_if_new ''co'' (seeded_account s))) seed_chart ?db =
      (Inr (), ?db\<lparr>db_accounts := map (\<lambda>s. (''co'', seeded_account s)) seed_chart\<rparr>)"
    using seed_run[of seed_chart ?db "''co''"] seed_chart_well_formed
    by (simp add: has_company_def account_exists_def empty_db_def)
  have classes: "\<exists>cs. run_each (\<lambda>(identifier, name). execute (insert_class_if_new ''co'' (new_class identifier name None)))
      (company_classes ''co'') (?db\<lparr>db_accounts := as\<rparr>) = (Inr (), ?db\<lparr>db_accounts := as, db_classes := cs\<rparr>)" for as
    by (simp add: company_classes_def AQUAMENTOR_CLASSES_def and_run_def execute_def insert_class_if_new_def class_exists_def
        new_class_def references_company_def has_company_def empty_db_def) blast?
  obtain cs where cs: "run_each (\<lambda>(identifier, name). execute (insert_class_if_new ''co'' (new_class identifier name None)))
      (company_classes ''co'') (?db\<lparr>db_accounts := map (\<lambda>s. (''co'', seeded_account s)) seed_chart\<rparr>) =
      (Inr (), ?db\<lparr>db_accounts := map (\<lambda>s. (''co'', seeded_account s)) seed_chart, db_classes := cs\<rparr>)"
    using classes by blast
  have "create_company ''co'' ''Aquamentor'' None now empty_db =
      (Inr (), ?db\<lparr>db_accounts := map (\<lambda>s. (''co'', seeded_account s)) seed_chart, db_classes := cs\<rparr>)"
    using seeds cs start unfolding create_company_def write_tx_def and_run_def seeded_account_def[symmetric]
    by (simp add: execute_def)
  then show "create_company ''co'' ''Aquamentor'' None now empty_db = (Inr (), founded_db now)"
    "db_accounts (founded_db now) = map (\<lambda>s. (''co'', seeded_account s)) seed_chart"
    "db_periods (founded_db now) = []" "db_document_versions (founded_db now) = []"
    "db_journal_entries (founded_db now) = []" "db_journal_lines (founded_db now) = []" "db_oplog (founded_db now) = []"
    by (simp_all add: founded_db_def) (simp_all add: empty_db_def)
qed

text \<open>A receipt is saved and the entry its posting rule makes is posted.\<close>

definition first_commands :: "command list" where
  "first_commands =
     [Create_company ''co'' ''Aquamentor'' None 0,
      Save_document ''co'' receipt_doc (desk_command sample_env ''post'' 1) ''c-1'' 1,
      Post_entry ''co'' (receipt_entry 1) ''e-1'' 2]"

lemma first_saved:
  "\<exists>row v. snd (save_document (be_to_json sample_env) ''co'' receipt_doc (desk_command sample_env ''post'' 1) ''c-1'' 1 (founded_db 0)) =
     (founded_db 0)\<lparr>db_oplog := [(''co'', row)], db_document_versions := [(''co'', v)]\<rparr> \<and>
     dv_document_id v = ''doc-1'' \<and> dv_version v = 1"
proof -
  have "\<exists>row v. snd (save_document (be_to_json sample_env) ''co'' receipt_doc meta ''c-1'' 1 (founded_db 0)) =
     (founded_db 0)\<lparr>db_oplog := [(''co'', row)], db_document_versions := [(''co'', v)]\<rparr> \<and>
     dv_document_id v = ''doc-1'' \<and> dv_version v = 1" for meta
    by (simp add: save_document_def write_tx_def and_run_def reading_def execute_def insert_oplog_def insert_unique_def
        insert_document_version_def latest_version_of_def founded sql_max_def sample_env_def receipt_doc_def minimal_doc_def)
      (auto intro!: exI)
  then show ?thesis .
qed

lemma seeded_row:
  assumes "of_company ''co'' (db_accounts db) = map seeded_account seed_chart" "number \<in> as_number ` set seed_chart"
  obtains a where "account_row_in db ''co'' (AccountId number) = Some a" "ac_number a = number"
proof -
  have "account_row_in db ''co'' (AccountId number) \<noteq> None"
    using assms by (auto simp: account_row_in_def company_accounts_def find_map_None)
  then obtain a where a: "account_row_in db ''co'' (AccountId number) = Some a" by blast
  then have "ac_number a = number"
    using assms(1) by (auto simp: account_row_in_def company_accounts_def dest!: find_map_Some)
  then show thesis by (rule that[OF a])
qed

lemma first_book:
  "\<exists>row v. perform_all sample_env first_commands empty_db = with_posted ''co'' ''e-1'' (receipt_entry 1) 2
     ((founded_db 0)\<lparr>db_oplog := [(''co'', row)], db_document_versions := [(''co'', v)]\<rparr>)"
proof -
  obtain row v where saved: "snd (save_document (be_to_json sample_env) ''co'' receipt_doc (desk_command sample_env ''post'' 1) ''c-1'' 1
      (founded_db 0)) = (founded_db 0)\<lparr>db_oplog := [(''co'', row)], db_document_versions := [(''co'', v)]\<rparr>"
    (is "_ = ?db") and v: "dv_document_id v = ''doc-1''" "dv_version v = 1" using first_saved by blast
  have two: "perform_all sample_env (take 2 first_commands) empty_db = ?db"
    using founded(1)[of 0] saved by (simp add: first_commands_def perform_all_def)
  then have "journal_ok ?db"
    using reachable_facts(1)[of sample_env "take 2 first_commands"] by (simp add: desk_ok_def book_sound_def)
  moreover have "check_class_rule ?db ''co'' l = Inr ()" if "l \<in> set (je_lines (receipt_entry 1))" for l
  proof -
    have accounts: "of_company ''co'' (db_accounts ?db) = map seeded_account seed_chart"
      by (simp add: founded of_company_def o_def)
    have "jl_class l = None" "jl_account l = AccountId INVENTORY_RAW \<or> jl_account l = AccountId INVENTORY_RECEIVED_NOT_BILLED"
      using that by (auto simp: receipt_entry_def entry_of_def debit_line_def credit_line_def acct_def)
    moreover have "INVENTORY_RAW \<in> as_number ` set seed_chart" "INVENTORY_RECEIVED_NOT_BILLED \<in> as_number ` set seed_chart"
      by (simp_all add: seed_chart_def)
    ultimately obtain a where "account_row_in ?db ''co'' (jl_account l) = Some a" "ac_number a = INVENTORY_RAW \<or> ac_number a = INVENTORY_RECEIVED_NOT_BILLED"
      using seeded_row[OF accounts] by metis
    with \<open>jl_class l = None\<close> show ?thesis by (auto simp: check_class_rule_def chart_numbers)
  qed
  moreover have "is_balanced (receipt_entry 1)" "distinct (map jl_line_no (je_lines (receipt_entry 1)))"
    by (simp_all add: is_balanced_iff well_balanced_def one_sided_def debit_cents_def credit_cents_def in_i64_def
        receipt_entry_def entry_of_def debit_line_def credit_line_def)
  moreover have "document_exists ?db ''co'' (je_source_id (receipt_entry 1)) (je_source_version (receipt_entry 1))"
    using v by (simp add: document_exists_def of_company_def receipt_entry_def entry_of_def receipt_doc_def minimal_doc_def)
  ultimately have "journal_ok ?db" "acceptable ?db ''co'' (receipt_entry 1) ''e-1''"
    by (simp_all add: acceptable_def gate_open_def locked_through_def locked_through_in_def sql_max_def of_company_def founded
        list_all_iff)
  then have "post_entry ''co'' (receipt_entry 1) ''e-1'' 2 ?db = (Inr ''e-1'', with_posted ''co'' ''e-1'' (receipt_entry 1) 2 ?db)"
    using post_entry_cases[of ?db "''co''" "receipt_entry 1" "''e-1''" 2] by simp
  then have "perform_all sample_env first_commands empty_db = with_posted ''co'' ''e-1'' (receipt_entry 1) 2 ?db"
    using founded(1)[of 0] saved by (simp add: first_commands_def perform_all_def)
  then show ?thesis by blast
qed

section \<open>The sweep at work\<close>

lemma seeds_numbered: "numbered_accounts (with_posted ''co'' i e now ((founded_db t)\<lparr>db_oplog := os, db_document_versions := vs\<rparr>)) ''co''"
proof -
  have "case as_number s of [] \<Rightarrow> False | c # _ \<Rightarrow> c \<in> set ''4567''"
    if s: "s \<in> set seed_chart" "as_classification s \<in> {Income, Cogs, Expense}" for s
  proof -
    have "length (as_number s) = 4 \<and> hd (as_number s) \<in> set (band (as_classification s))"
      using seed_chart_well_formed s(1) by (simp add: list_all_iff)
    then show ?thesis using s(2) by (cases "as_number s") (auto simp: band_def)
  qed
  then show ?thesis
    by (auto simp: numbered_accounts_def company_accounts_def of_company_def with_posted_def founded o_def)
qed

theorem honest_book_passes_the_sweep_witness:
  "\<exists>rep. verify (perform_all sample_env first_commands empty_db) ''co'' = Inr rep \<and> verify_is_ok rep \<and>
     length (db_journal_entries (perform_all sample_env first_commands empty_db)) = 1"
proof -
  obtain row v where book: "perform_all sample_env first_commands empty_db = with_posted ''co'' ''e-1'' (receipt_entry 1) 2
     ((founded_db 0)\<lparr>db_oplog := [(''co'', row)], db_document_versions := [(''co'', v)]\<rparr>)" using first_book by blast
  have rows: "posted_rows (perform_all sample_env first_commands empty_db) ''co'' = map (line_row_of ''co'' ''e-1'') (je_lines (receipt_entry 1))"
    unfolding book
    by (simp add: posted_rows_def posted_join_def with_posted_def founded receipt_entry_def entry_of_def posted_row_def
        entry_row_of_def line_row_of_def entry_key_def line_entry_key_def)
  have sums: "in_i64 (\<Sum>l\<leftarrow>posted_rows (perform_all sample_env first_commands empty_db) ''co''. debit_of l)"
    "in_i64 (\<Sum>l\<leftarrow>posted_rows (perform_all sample_env first_commands empty_db) ''co''. credit_of l)"
    unfolding rows by (simp_all add: debit_of_def credit_of_def cents_def[symmetric] receipt_entry_def entry_of_def line_row_of_def
        debit_line_def credit_line_def in_i64_def)
  have "on_clock 0 first_commands" by (simp add: first_commands_def)
  from honest_book_passes_the_sweep[OF this _ sums] seeds_numbered show ?thesis
    unfolding book by (simp add: with_posted_def founded)
qed

text \<open>The sample book after its posted debit was overwritten on a connection without triggers.\<close>

definition tampered_db :: db where
  "tampered_db = posted_db\<lparr>db_journal_lines := [sample_line_row ''e-1'' (cash_in 1 700), sample_line_row ''e-1'' (capital_in 2 500)]\<rparr>"



end
