(* ===== verification/Report_Tax.thy ===== *)
theory Report_Tax
  imports Report Rounding
begin

text \<open>
  The rest of \<open>apps/ledger/src/report.rs\<close>: balances by source reference, the sales tax lines of a
  quarter, and the trial balance diff against QuickBooks. A text is its UTF-8 bytes.
\<close>

section \<open>Balances by source reference\<close>

text \<open>One row per account with posted lines, in the order of the group key.\<close>

definition balance_row ::
  "db \<Rightarrow> string \<Rightarrow> (entry_row \<Rightarrow> bool) \<Rightarrow> account \<Rightarrow> ledger_error + (string option \<times> account_id \<times> money) option" where
  "balance_row db company P a =
     (let ls = account_lines db company P a in
      if ls = [] then Inr None
      else
        and_then (ledger_sql (sql_sum (map (\<lambda>l. sint (minor (jl_debit l))) ls))) (\<lambda>dr.
        and_then (ledger_sql (sql_sum (map (\<lambda>l. sint (minor (jl_credit l))) ls))) (\<lambda>cr.
        if dr - cr = 0 then Inr None
        else if in_i64 (dr - cr) then Inr (Some (ac_source_ref a, ac_account_id a, money_of (dr - cr)))
        else Inl (E_Sqlite ''invalid column type''))))"

definition balances_by_source_ref ::
  "db \<Rightarrow> string \<Rightarrow> naive_date \<Rightarrow> ledger_error + (string option \<times> account_id \<times> money) list" where
  "balances_by_source_ref db company as_of =
     and_then (try_map (balance_row db company (\<lambda>e. en_entry_date e \<le> as_of))
        (sort_key (account_no \<circ> ac_account_id) (company_accounts db company))) (\<lambda>rows.
     Inr (List.map_filter id rows))"

section \<open>Sales tax\<close>

record sales_tax =
  sx_a_total_income :: money
  sx_b_tax_collected :: money
  sx_c_taxable_sales :: money
  sx_d_nontaxable_sales :: money
  sx_e_line_level_taxable :: "money option"
  sx_variance :: "money option"
  sx_st50 :: "(nat \<times> money) list"

text \<open>\<open>COALESCE(SUM(credit), 0)\<close> less \<open>COALESCE(SUM(debit), 0)\<close>.\<close>

definition credits_less_debits :: "journal_line list \<Rightarrow> ledger_error + money" where
  "credits_less_debits ls =
     and_then (sum_money jl_debit ls) (\<lambda>debit.
     and_then (sum_money jl_credit ls) (\<lambda>credit. ledger_money (checked_sub credit debit)))"

definition between :: "naive_date \<Rightarrow> naive_date \<Rightarrow> entry_row \<Rightarrow> bool" where
  "between from to e \<longleftrightarrow> from \<le> en_entry_date e \<and> en_entry_date e \<le> to"

text \<open>The lines joined with their account, of which the key leaves at most one.\<close>

definition lines_classified :: "db \<Rightarrow> string \<Rightarrow> naive_date \<Rightarrow> naive_date \<Rightarrow> classification \<Rightarrow> journal_line list" where
  "lines_classified db company from to c =
     filter (\<lambda>l. list_ex (\<lambda>a. ac_account_id a = jl_account l \<and> ac_classification a = c) (company_accounts db company))
       (map join_line (posted_join db company (between from to)))"

definition signed_balance_for_classification ::
  "db \<Rightarrow> string \<Rightarrow> naive_date \<Rightarrow> naive_date \<Rightarrow> classification \<Rightarrow> ledger_error + money" where
  "signed_balance_for_classification db company from to c = credits_less_debits (lines_classified db company from to c)"

definition line_level_taxable :: "db \<Rightarrow> string \<Rightarrow> naive_date \<Rightarrow> naive_date \<Rightarrow> ledger_error + money" where
  "line_level_taxable db company from to =
     credits_less_debits (filter jl_is_taxable (lines_classified db company from to Income))"

definition sales_tax_collected :: "db \<Rightarrow> string \<Rightarrow> naive_date \<Rightarrow> naive_date \<Rightarrow> ledger_error + money" where
  "sales_tax_collected db company from to =
     credits_less_debits
       (filter (\<lambda>l. jl_account l = AccountId SALES_TAX_PAYABLE)
         (map join_line (posted_join db company (\<lambda>e. between from to e \<and> en_source_type e \<noteq> BankLine))))"

definition month_days :: "int \<Rightarrow> nat \<Rightarrow> nat" where
  "month_days y m =
     (if m = 2 then (if y mod 4 = 0 \<and> (y mod 100 \<noteq> 0 \<or> y mod 400 = 0) then 29 else 28)
      else if m \<in> {4, 6, 9, 11} then 30 else 31)"

text \<open>\<open>from_ymd_opt\<close> knows the years \<open>NaiveDate::MIN\<close> to \<open>NaiveDate::MAX\<close>, and every year in between has all its days.\<close>

definition year_ok :: "int \<Rightarrow> bool" where
  "year_ok y \<longleftrightarrow> - 262143 \<le> y \<and> y \<le> 262142"

definition quarter_bounds :: "int \<Rightarrow> nat \<Rightarrow> (ledger_error, naive_date \<times> naive_date) res" where
  "quarter_bounds y q =
     (if \<not> (1 \<le> q \<and> q \<le> 4) then Inl Panic
      else
        let start_month = (q - 1) * 3 + 1; end_month = start_month + 2;
            next_year = (if end_month = 12 then y + 1 else y)
        in if \<not> year_ok y \<or> \<not> year_ok next_year then Inl Panic
           else Inr (Ymd y start_month 1, Ymd y end_month (month_days y end_month)))"

definition sales_tax_lines :: "dec_ops \<Rightarrow> db \<Rightarrow> string \<Rightarrow> int \<times> nat \<Rightarrow> decimal \<Rightarrow> (ledger_error, sales_tax) res" where
  "sales_tax_lines D db company quarter rate =
     and_then (quarter_bounds (fst quarter) (snd quarter)) (\<lambda>(from, to).
     and_then (lift_err (signed_balance_for_classification db company from to Income)) (\<lambda>a.
     and_then (lift_err (sales_tax_collected db company from to)) (\<lambda>b.
     and_then (ok_or (d_div D (dec_new (sint (minor b)) 2) rate) Panic) (\<lambda>quotient.
     and_then (lift_err (ledger_money (round_money D quotient LineExtension))) (\<lambda>c.
     and_then (lift_err (ledger_money (checked_sub a c))) (\<lambda>d.
     and_then (lift_err (line_level_taxable db company from to)) (\<lambda>e.
     and_then (lift_err (ledger_money (checked_sub e c))) (\<lambda>variance.
     Inr \<lparr>sx_a_total_income = a, sx_b_tax_collected = b, sx_c_taxable_sales = c, sx_d_nontaxable_sales = d,
          sx_e_line_level_taxable = Some e, sx_variance = Some variance, sx_st50 = [(1, a), (2, d), (3, c)]\<rparr>))))))))"

section \<open>Trial balance diff\<close>

record qbo_tb_row =
  qt_qbo_account_id :: string
  qt_name :: string
  qt_balance :: money

datatype diff_tier = Must | May | Skip

fun diff_tier_as_str :: "diff_tier \<Rightarrow> string" where
  "diff_tier_as_str Must = ''must''"
| "diff_tier_as_str May = ''may''"
| "diff_tier_as_str Skip = ''skip''"

datatype group_members = Numbers "string list" | Prefix string

record account_group =
  ag_label :: string
  ag_tier :: diff_tier
  ag_members :: group_members

definition group :: "string \<Rightarrow> diff_tier \<Rightarrow> string list \<Rightarrow> account_group" where
  "group label tier numbers = \<lparr>ag_label = label, ag_tier = tier, ag_members = Numbers numbers\<rparr>"

definition prefix_group :: "string \<Rightarrow> diff_tier \<Rightarrow> string \<Rightarrow> account_group" where
  "prefix_group label tier pre = \<lparr>ag_label = label, ag_tier = tier, ag_members = Prefix pre\<rparr>"

record tier_rules =
  tu_groups :: "account_group list"
  tu_skip_numbers :: "string list"

definition default_tier_rules :: tier_rules where
  "default_tier_rules =
     \<lparr>tu_groups =
        [group (''Bank '' @ [CHR 0xE2, CHR 0x80, CHR 0x94] @ '' Checking (1100)'') Must [''1100''],
         group ''Credit card (2100)'' Must [''2100''],
         group ''Accounts receivable (1200+2300)'' Must [''1200'', ''2300''],
         group ''Accounts payable (2000+2050)'' Must [''2000'', ''2050''],
         group ''Sales tax payable (2200)'' Must [''2200''],
         prefix_group ''Total income (4xxx)'' Must ''4'',
         prefix_group ''Total equity (3xxx)'' Must ''3'',
         group ''Inventory, raw materials (1300)'' May [''1300''],
         group ''Inventory, finished goods (1310)'' May [''1310''],
         group ''Cost of goods sold (5000)'' May [''5000''],
         group ''Manufacturing variance (5100)'' May [''5100''],
         group ''Parts and labour applied (5300)'' May [''5300''],
         group ''Undeposited funds (1150)'' May [''1150''],
         group ''Sales income (4100)'' May [''4100''],
         group ''Shipping income (4300)'' May [''4300''],
         group ''Discounts given (4900)'' May [''4900''],
         group ''Returns and allowances (4950)'' May [''4950'']],
      tu_skip_numbers = [''3950'']\<rparr>"

record tb_diff_row =
  td_label :: string
  td_tier :: diff_tier
  td_ledger_amount :: money
  td_qbo_amount :: money
  td_delta :: money

record tb_diff_report =
  tf_rows :: "tb_diff_row list"
  tf_must_failures :: "string list"
  tf_may_unexplained :: "string list"

text \<open>The two \<open>BTreeMap\<close>s: of rows with one number the last is kept, balances of one id are added up.\<close>

definition ledger_by_number :: "tb_row list \<Rightarrow> string \<Rightarrow> tb_row option" where
  "ledger_by_number rows = map_of (rev (map (\<lambda>row. (tb_number row, row)) rows))"

definition qbo_add :: "(string \<Rightarrow> money option) \<Rightarrow> qbo_tb_row \<Rightarrow> ledger_error + (string \<Rightarrow> money option)" where
  "qbo_add m row =
     and_then (ledger_money (checked_add (unwrap_or (m (qt_qbo_account_id row)) ZERO) (qt_balance row))) (\<lambda>s.
     Inr (m(qt_qbo_account_id row \<mapsto> s)))"

definition qbo_by_id :: "qbo_tb_row list \<Rightarrow> ledger_error + (string \<Rightarrow> money option)" where
  "qbo_by_id = try_fold qbo_add Map.empty"

definition group_numbers :: "tb_row list \<Rightarrow> account_group \<Rightarrow> string list" where
  "group_numbers rows g =
     (case ag_members g of
        Numbers numbers \<Rightarrow> numbers
      | Prefix pre \<Rightarrow> filter (starts_with pre) (sorted_list_of_set (tb_number ` set rows)))"

definition add_number ::
  "tb_row list \<Rightarrow> (string \<Rightarrow> money option) \<Rightarrow> string list \<Rightarrow> money \<times> money \<Rightarrow> string \<Rightarrow> ledger_error + money \<times> money" where
  "add_number rows amounts skip sums_so_far number =
     (if number \<in> set skip then Inr sums_so_far
      else case ledger_by_number rows number of
          None \<Rightarrow> Inr sums_so_far
        | Some row \<Rightarrow>
            if tb_needs_mapping row then Inr sums_so_far
            else
              and_then (ledger_money (checked_add (fst sums_so_far) (tb_balance row))) (\<lambda>ledger.
              and_then
                (case Option.bind (tb_source_ref row) amounts of
                   None \<Rightarrow> Inr (snd sums_so_far)
                 | Some amount \<Rightarrow> ledger_money (checked_add (snd sums_so_far) amount)) (\<lambda>qbo.
              Inr (ledger, qbo))))"

definition diff_group :: "tb_row list \<Rightarrow> (string \<Rightarrow> money option) \<Rightarrow> string list \<Rightarrow> account_group \<Rightarrow> ledger_error + tb_diff_row" where
  "diff_group rows amounts skip g =
     and_then (try_fold (add_number rows amounts skip) (ZERO, ZERO) (group_numbers rows g)) (\<lambda>(ledger, qbo).
     and_then (ledger_money (checked_sub ledger qbo)) (\<lambda>delta.
     Inr \<lparr>td_label = ag_label g, td_tier = ag_tier g, td_ledger_amount = ledger, td_qbo_amount = qbo, td_delta = delta\<rparr>))"

definition skip_rows :: "tb_row list \<Rightarrow> tier_rules \<Rightarrow> tb_diff_row list" where
  "skip_rows rows tiers =
     (let covered = set (concat (map (group_numbers rows) (tu_groups tiers)))
      in map (\<lambda>row. \<lparr>td_label = tb_number row @ '' '' @ tb_name row, td_tier = Skip, td_ledger_amount = tb_balance row,
             td_qbo_amount = ZERO, td_delta = ZERO\<rparr>)
           (filter (\<lambda>row. tb_number row \<notin> covered \<and> (tb_number row \<in> set (tu_skip_numbers tiers) \<or> tb_needs_mapping row)) rows))"

definition tb_diff :: "trial_balance_report \<Rightarrow> qbo_tb_row list \<Rightarrow> tier_rules \<Rightarrow> ledger_error + tb_diff_report" where
  "tb_diff tb qbo tiers =
     and_then (qbo_by_id qbo) (\<lambda>amounts.
     and_then (try_map (diff_group (tr_rows tb) amounts (tu_skip_numbers tiers)) (tu_groups tiers)) (\<lambda>rows.
     let failing = (\<lambda>t. map td_label (filter (\<lambda>row. td_tier row = t \<and> \<not> is_zero (td_delta row)) rows))
     in Inr \<lparr>tf_rows = rows @ skip_rows (tr_rows tb) tiers, tf_must_failures = failing Must, tf_may_unexplained = failing May\<rparr>))"

definition csv_line :: "tb_diff_row \<Rightarrow> string" where
  "csv_line row =
     map (\<lambda>c. if c = CHR '','' then CHR '' '' else c) (td_label row) @ '','' @ diff_tier_as_str (td_tier row) @ '','' @
     display (td_ledger_amount row) @ '','' @ display (td_qbo_amount row) @ '','' @ display (td_delta row) @ [CHR 0x0A]"

definition render_csv :: "tb_diff_report \<Rightarrow> string" where
  "render_csv diff = ''account,tier,ledger,qbo,delta'' @ [CHR 0x0A] @ concat (map csv_line (tf_rows diff))"

end
