(* ===== verification/Report_Tax_Facts.thy ===== *)
theory Report_Tax_Facts
  imports Report_Tax Report_Facts
begin

text \<open>
  The tax report ties to the profit and loss, the balances by source reference to the trial balance,
  and the diff against QuickBooks says exactly which groups of mapped accounts differ - and what it
  leaves out.
\<close>

section \<open>Sums\<close>

lemma credits_less_debits_Inr: "credits_less_debits ls = Inr m \<Longrightarrow> cents m = - (\<Sum>l\<leftarrow>ls. line_net l)"
  by (auto simp: credits_less_debits_def line_net_def sum_list_subtractf dest!: sum_money_cents checked_sub_money_of)

lemma between_dated: "between from to = dated from to"
  by (simp add: between_def dated_def fun_eq_iff)

lemma classified_net:
  assumes "accounts_keyed db"
  shows "(\<Sum>l\<leftarrow>lines_classified db company from to c. line_net l) = accounts_net db company (dated from to) {c}"
proof -
  let ?ls = "lines_classified db company from to c"
  let ?as = "filter (\<lambda>a. ac_classification a = c) (list_accounts db company)"
  have posted: "?ls = filter (\<lambda>l. list_ex (\<lambda>a. ac_account_id a = jl_account l \<and> ac_classification a = c) (company_accounts db company))
      (posted_lines db company (dated from to))"
    by (simp add: lines_classified_def posted_lines_def between_dated)
  have "(\<Sum>l\<leftarrow>?ls. line_net l) = (\<Sum>a\<leftarrow>?as. \<Sum>l\<leftarrow>filter (\<lambda>l. jl_account l = ac_account_id a) ?ls. line_net l)"
  proof (rule group_sum[symmetric])
    show "distinct (map ac_account_id ?as)" using list_accounts_distinct[OF assms] by (rule distinct_map_filter)
  qed (auto simp: lines_classified_def list_ex_iff image_iff)
  also have "\<dots> = (\<Sum>a\<leftarrow>?as. \<Sum>l\<leftarrow>account_lines db company (dated from to) a. line_net l)"
  proof (rule arg_cong[where f = sum_list], rule map_cong[OF refl])
    fix a assume a: "a \<in> set ?as"
    have "filter (\<lambda>l. jl_account l = ac_account_id a) ?ls = account_lines db company (dated from to) a"
      unfolding posted account_lines_posted filter_filter using a by (intro filter_cong) (auto simp: list_ex_iff)
    then show "(\<Sum>l\<leftarrow>filter (\<lambda>l. jl_account l = ac_account_id a) ?ls. line_net l) =
        (\<Sum>l\<leftarrow>account_lines db company (dated from to) a. line_net l)" by simp
  qed
  also have "\<dots> = accounts_net db company (dated from to) {c}"
    unfolding accounts_net_def by (induction "list_accounts db company") (auto simp: sum_list_map_filter')
  finally show ?thesis .
qed

section \<open>Quarters\<close>

definition valid_date :: "naive_date \<Rightarrow> bool" where
  "valid_date d \<longleftrightarrow> 1 \<le> month d \<and> month d \<le> 12 \<and> 1 \<le> day d \<and> day d \<le> month_days (year d) (month d)"

text \<open>The quarters of a year part its days.\<close>

lemma quarter_days:
  assumes "quarter_bounds y q = Inr (from, to)" "valid_date d"
  shows "from \<le> d \<and> d \<le> to \<longleftrightarrow> year d = y \<and> (month d + 2) div 3 = q"
proof -
  from assms(1) have q: "1 \<le> q" "q \<le> 4" "from = Ymd y ((q - 1) * 3 + 1) 1"
    "to = Ymd y ((q - 1) * 3 + 1 + 2) (month_days y ((q - 1) * 3 + 1 + 2))"
    by (auto simp: quarter_bounds_def Let_def split: if_splits)
  define lo where "lo = (q - 1) * 3 + 1"
  have "q = 1 \<or> q = 2 \<or> q = 3 \<or> q = 4" using q(1,2) by linarith
  then have lo: "(month d + 2) div 3 = q \<longleftrightarrow> lo \<le> month d \<and> month d \<le> lo + 2"
    unfolding lo_def by (elim disjE) (simp_all, presburger+)
  consider "month d < lo" | "lo + 2 < month d" | "month d = lo + 2" | "lo \<le> month d" "month d < lo + 2" by linarith
  then show ?thesis
    using assms(2) unfolding lo q(3,4) lo_def[symmetric]
    by cases (auto simp: less_eq_naive_date_def valid_date_def)
qed

section \<open>The tax report\<close>

text \<open>
  C40. The sales tax lines of a quarter tie to the books: line A is the income of the profit and loss of
  the same days, line B what the sales tax account was credited less debited outside bank lines,
  line C is B over the rate rounded half away from zero to cents, and D is what is left of A, so
  lines 2 and 3 of the form add up to line 1; the variance is E less C; and a day counts in
  exactly the quarter its month is in.
\<close>

theorem tax_lines_tie_to_the_books:
  assumes "sales_tax_lines D db company (y, q) rate = Inr sx" and "quarter_bounds y q = Inr (from, to)"
    and "profit_and_loss db company from to = Inr pl" and "accounts_keyed db"
    and "dec_laws D" and "\<forall>a b c. d_div D a b = Some c \<longrightarrow> dec_ok c"
  shows "cents (sx_a_total_income sx) = cents (se_total (pl_income pl)) \<and>
    cents (sx_b_tax_collected sx) = - account_net (AccountId SALES_TAX_PAYABLE)
      (posted_lines db company (\<lambda>e. dated from to e \<and> en_source_type e \<noteq> BankLine)) \<and>
    (\<exists>x. d_div D (dec_new (cents (sx_b_tax_collected sx)) 2) rate = Some x \<and>
       cents (sx_c_taxable_sales sx) = round_half_away (dec_val x * 100)) \<and>
    cents (sx_d_nontaxable_sales sx) + cents (sx_c_taxable_sales sx) = cents (sx_a_total_income sx) \<and>
    sx_st50 sx = [(1, sx_a_total_income sx), (2, sx_d_nontaxable_sales sx), (3, sx_c_taxable_sales sx)] \<and>
    (\<exists>e v. sx_e_line_level_taxable sx = Some e \<and> sx_variance sx = Some v \<and> cents v = cents e - cents (sx_c_taxable_sales sx)) \<and>
    {d. valid_date d \<and> from \<le> d \<and> d \<le> to} = {d. valid_date d \<and> year d = y \<and> (month d + 2) div 3 = q}"
proof -
  from assms(1,2) obtain a b x c d e v where steps:
    "signed_balance_for_classification db company from to Income = Inr a"
    "sales_tax_collected db company from to = Inr b" "d_div D (dec_new (cents b) 2) rate = Some x"
    "round_money D x LineExtension = Inr c" "checked_sub a c = Inr d" "line_level_taxable db company from to = Inr e"
    "checked_sub e c = Inr v"
    and sx: "sx = \<lparr>sx_a_total_income = a, sx_b_tax_collected = b, sx_c_taxable_sales = c, sx_d_nontaxable_sales = d,
      sx_e_line_level_taxable = Some e, sx_variance = Some v, sx_st50 = [(1, a), (2, d), (3, c)]\<rparr>"
    by (auto simp: sales_tax_lines_def cents_def ok_or_Inr_iff)
  have A: "cents a = cents (se_total (pl_income pl))"
    using credits_less_debits_Inr[OF steps(1)[unfolded signed_balance_for_classification_def]]
      profit_and_loss_facts(1)[OF assms(3)] classified_net[OF assms(4), of company "from" "to" Income] by simp
  have B: "cents b = - account_net (AccountId SALES_TAX_PAYABLE)
      (posted_lines db company (\<lambda>e. dated from to e \<and> en_source_type e \<noteq> BankLine))"
    using credits_less_debits_Inr[OF steps(2)[unfolded sales_tax_collected_def]]
    by (simp add: account_net_def posted_lines_def between_dated)
  have "dec_ok x" using assms(6) steps(3) by blast
  from round_money_cents[OF assms(5) this, of LineExtension] steps(4)
  have C: "cents c = round_half_away (dec_val x * 100)" by (auto split: if_splits)
  have D: "cents d = cents a - cents c" "cents v = cents e - cents c"
    using steps(5,7) by (simp_all add: checked_sub_Inr)
  have days: "{d. valid_date d \<and> from \<le> d \<and> d \<le> to} = {d. valid_date d \<and> year d = y \<and> (month d + 2) div 3 = q}"
    using quarter_days[OF assms(2)] by blast
  show ?thesis using A B C D steps(3) unfolding days by (simp add: sx)
qed

section \<open>Balances by source reference\<close>

text \<open>
  The balances by source reference are the trial balance's rows with a balance, no more and no
  fewer, each with its account and its QuickBooks reference.
\<close>

theorem balances_agree_with_trial_balance:
  assumes "balances_by_source_ref db company as_of = Inr bs" and "trial_balance db company as_of = Inr tb"
  shows "set bs = {(tb_source_ref r, tb_account_id r, tb_balance r) |r. r \<in> set (tr_rows tb) \<and> tb_balance r \<noteq> ZERO}"
proof -
  let ?P = "\<lambda>e. en_entry_date e \<le> as_of"
  let ?net = "\<lambda>a. side_sum jl_debit (account_lines db company ?P a) - side_sum jl_credit (account_lines db company ?P a)"
  let ?g = "\<lambda>a. if ?net a = 0 then None else Some (ac_source_ref a, ac_account_id a, money_of (?net a))"
  have row: "r = ?g a \<and> in_i64 (?net a)" if "balance_row db company ?P a = Inr r" for a r
  proof (cases "account_lines db company ?P a = []")
    case False
    with that show ?thesis
      by (auto simp: balance_row_def Let_def side_sum_def cents_def in_i64_def split: if_splits dest!: sql_sum_Inr)
  qed (use that in \<open>simp add: balance_row_def side_sum_def in_i64_def\<close>)
  from assms(1) obtain rs where rs: "try_map (balance_row db company ?P) (sort_key (account_no \<circ> ac_account_id) (company_accounts db company)) = Inr rs"
    "bs = List.map_filter id rs" by (auto simp: balances_by_source_ref_def)
  have "rs = map ?g (sort_key (account_no \<circ> ac_account_id) (company_accounts db company))"
    by (rule try_map_function[OF rs(1)]) (use row in blast)
  moreover have "set (List.map_filter id xs) = {x. Some x \<in> set xs}" for xs :: "(string option \<times> account_id \<times> money) option list"
    by (force simp: List.map_filter_def)
  ultimately have bs: "set bs = {t. \<exists>a \<in> set (company_accounts db company). t = (ac_source_ref a, ac_account_id a, money_of (?net a)) \<and> ?net a \<noteq> 0}"
    unfolding rs(2) by (auto simp: image_iff split: if_splits)
  have range: "in_i64 (?net a)" if "a \<in> set (company_accounts db company)" for a
    using try_map_hits[OF rs(1), of a] row that by auto
  from assms(2) obtain raw where raw: "try_map (account_sums db company ?P) (list_accounts db company) = Inr raw"
    and fold: "try_fold tb_step \<lparr>tr_rows = [], tr_total_debits = ZERO, tr_total_credits = ZERO, tr_wrong_side = []\<rparr> raw = Inr tb"
    by (auto simp: trial_balance_def)
  have rows: "tr_rows tb = map tb_row_of raw" using tb_fold[OF fold] by simp
  have each: "tb_source_ref (tb_row_of x) = ac_source_ref (fst x) \<and> tb_account_id (tb_row_of x) = ac_account_id (fst x) \<and>
      tb_balance (tb_row_of x) = money_of (?net (fst x)) \<and> fst x \<in> set (company_accounts db company)" if "x \<in> set raw" for x
  proof -
    obtain a d c where x: "x = (a, d, c)" by (cases x) auto
    have "a \<in> set (map fst raw)" using that x by force
    then have "a \<in> set (company_accounts db company)" using raw_sums(1)[OF raw] by simp
    then show ?thesis using raw_sums(2,3)[OF raw] that by (simp add: x tb_row_of_def)
  qed
  have all: "\<exists>x \<in> set raw. fst x = a" if "a \<in> set (company_accounts db company)" for a
  proof -
    have "a \<in> set (map fst raw)" using that raw_sums(1)[OF raw] by simp
    then show ?thesis by auto
  qed
  have zero: "money_of (?net a) \<noteq> ZERO \<longleftrightarrow> ?net a \<noteq> 0" if "a \<in> set (company_accounts db company)" for a
    using range[OF that] by (metis cents_ZERO cents_money_of money_of_0)
  let ?t = "\<lambda>a. (ac_source_ref a, ac_account_id a, money_of (?net a))"
  have ref: "(tb_source_ref (tb_row_of x), tb_account_id (tb_row_of x), tb_balance (tb_row_of x)) = ?t (fst x)" if "x \<in> set raw" for x
    using each[OF that] by simp
  have nonzero: "tb_balance (tb_row_of x) \<noteq> ZERO \<longleftrightarrow> ?net (fst x) \<noteq> 0" if "x \<in> set raw" for x
    using each[OF that] zero[of "fst x"] by simp
  show ?thesis
  proof (rule set_eqI, rule iffI)
    fix t assume "t \<in> set bs"
    then obtain a where a: "a \<in> set (company_accounts db company)" "t = ?t a" "?net a \<noteq> 0" unfolding bs by blast
    obtain x where x: "x \<in> set raw" "fst x = a" using all[OF a(1)] by blast
    have "tb_row_of x \<in> set (tr_rows tb)" using x(1) by (simp add: rows)
    moreover have "t = (tb_source_ref (tb_row_of x), tb_account_id (tb_row_of x), tb_balance (tb_row_of x))"
      using ref[OF x(1)] a(2) unfolding x(2) by (rule trans[OF _ sym, rotated])
    moreover have "tb_balance (tb_row_of x) \<noteq> ZERO" using nonzero[OF x(1)] a(3) unfolding x(2) by blast
    ultimately show "t \<in> {(tb_source_ref r, tb_account_id r, tb_balance r) |r. r \<in> set (tr_rows tb) \<and> tb_balance r \<noteq> ZERO}"
      by blast
  next
    fix t assume "t \<in> {(tb_source_ref r, tb_account_id r, tb_balance r) |r. r \<in> set (tr_rows tb) \<and> tb_balance r \<noteq> ZERO}"
    then obtain r where r: "t = (tb_source_ref r, tb_account_id r, tb_balance r)" "r \<in> set (tr_rows tb)" "tb_balance r \<noteq> ZERO"
      by blast
    from r(2) obtain x where x: "x \<in> set raw" "r = tb_row_of x" unfolding rows set_map by (rule imageE)
    have "t = ?t (fst x)" using r(1) ref[OF x(1)] unfolding x(2) by (rule trans)
    moreover have "?net (fst x) \<noteq> 0" using r(3) nonzero[OF x(1)] unfolding x(2) by blast
    moreover have "fst x \<in> set (company_accounts db company)" using each[OF x(1)] by blast
    ultimately show "t \<in> set bs" unfolding bs by blast
  qed
qed

section \<open>The diff against QuickBooks\<close>

text \<open>The rows a group compares, and the two sums it compares over the integers.\<close>

definition group_rows :: "trial_balance_report \<Rightarrow> tier_rules \<Rightarrow> account_group \<Rightarrow> tb_row list" where
  "group_rows tb tiers g =
     filter (\<lambda>row. \<not> tb_needs_mapping row)
       (List.map_filter (ledger_by_number (tr_rows tb))
         (filter (\<lambda>n. n \<notin> set (tu_skip_numbers tiers)) (group_numbers (tr_rows tb) g)))"

definition qbo_balance :: "qbo_tb_row list \<Rightarrow> string \<Rightarrow> int" where
  "qbo_balance qbo i = (\<Sum>row\<leftarrow>filter (\<lambda>row. qt_qbo_account_id row = i) qbo. cents (qt_balance row))"

definition ledger_side :: "trial_balance_report \<Rightarrow> tier_rules \<Rightarrow> account_group \<Rightarrow> int" where
  "ledger_side tb tiers g = (\<Sum>row\<leftarrow>group_rows tb tiers g. cents (tb_balance row))"

definition qbo_side :: "trial_balance_report \<Rightarrow> qbo_tb_row list \<Rightarrow> tier_rules \<Rightarrow> account_group \<Rightarrow> int" where
  "qbo_side tb qbo tiers g =
     (\<Sum>row\<leftarrow>group_rows tb tiers g. case tb_source_ref row of None \<Rightarrow> 0 | Some i \<Rightarrow> qbo_balance qbo i)"

definition amount_of :: "(string \<Rightarrow> money option) \<Rightarrow> string \<Rightarrow> int" where
  "amount_of m i = (case m i of None \<Rightarrow> 0 | Some x \<Rightarrow> cents x)"

lemma qbo_add_Inr:
  assumes "qbo_add m row = Inr m'"
  shows "amount_of m' i = amount_of m i + (if qt_qbo_account_id row = i then cents (qt_balance row) else 0)"
proof -
  from assms obtain s where s: "checked_add (unwrap_or (m (qt_qbo_account_id row)) ZERO) (qt_balance row) = Inr s"
    "m' = m(qt_qbo_account_id row \<mapsto> s)" by (auto simp: qbo_add_def)
  have "cents (unwrap_or (m k) ZERO) = amount_of m k" for k by (simp add: unwrap_or_def amount_of_def split: option.split)
  then have "cents s = amount_of m (qt_qbo_account_id row) + cents (qt_balance row)" using s(1) by (simp add: checked_add_Inr)
  then show ?thesis by (simp add: s(2) amount_of_def)
qed

lemma qbo_by_id_Inr:
  assumes "qbo_by_id qbo = Inr m"
  shows "amount_of m = qbo_balance qbo"
proof
  fix i
  have "amount_of m i = amount_of Map.empty i + (\<Sum>row\<leftarrow>qbo. if qt_qbo_account_id row = i then cents (qt_balance row) else 0)"
    using assms unfolding qbo_by_id_def
    by (rule try_fold_weighted[where v = "\<lambda>m. amount_of m i"]) (rule qbo_add_Inr)
  then show "amount_of m i = qbo_balance qbo i" by (simp add: amount_of_def qbo_balance_def sum_list_map_filter')
qed

lemma add_number_sums:
  assumes "add_number rows amounts skip s n = Inr s'"
  shows "cents (fst s') = cents (fst s) + (\<Sum>row\<leftarrow>filter (\<lambda>row. \<not> tb_needs_mapping row)
      (List.map_filter (ledger_by_number rows) (filter (\<lambda>n. n \<notin> set skip) [n])). cents (tb_balance row)) \<and>
    cents (snd s') = cents (snd s) + (\<Sum>row\<leftarrow>filter (\<lambda>row. \<not> tb_needs_mapping row)
      (List.map_filter (ledger_by_number rows) (filter (\<lambda>n. n \<notin> set skip) [n])).
        case tb_source_ref row of None \<Rightarrow> 0 | Some i \<Rightarrow> amount_of amounts i)"
  using assms
  by (auto simp: add_number_def List.map_filter_simps amount_of_def checked_add_Inr Option.bind_eq_None_conv
      split: if_splits option.splits)

lemma group_fold:
  assumes "try_fold (add_number rows amounts skip) s ns = Inr s'"
  shows "cents (fst s') = cents (fst s) + (\<Sum>row\<leftarrow>filter (\<lambda>row. \<not> tb_needs_mapping row)
      (List.map_filter (ledger_by_number rows) (filter (\<lambda>n. n \<notin> set skip) ns)). cents (tb_balance row)) \<and>
    cents (snd s') = cents (snd s) + (\<Sum>row\<leftarrow>filter (\<lambda>row. \<not> tb_needs_mapping row)
      (List.map_filter (ledger_by_number rows) (filter (\<lambda>n. n \<notin> set skip) ns)).
        case tb_source_ref row of None \<Rightarrow> 0 | Some i \<Rightarrow> amount_of amounts i)"
  using assms
proof (induction ns arbitrary: s)
  case (Cons n ns)
  then obtain t where t: "add_number rows amounts skip s n = Inr t" "try_fold (add_number rows amounts skip) t ns = Inr s'" by auto
  show ?case
    using Cons.IH[OF t(2)] add_number_sums[OF t(1)]
    by (auto simp: List.map_filter_simps split: if_splits option.splits)
qed (simp add: List.map_filter_simps)

lemma diff_group_Inr:
  assumes "diff_group (tr_rows tb) amounts (tu_skip_numbers tiers) g = Inr row" "qbo_by_id qbo = Inr amounts"
  shows "td_label row = ag_label g \<and> td_tier row = ag_tier g \<and> cents (td_ledger_amount row) = ledger_side tb tiers g \<and>
    cents (td_qbo_amount row) = qbo_side tb qbo tiers g \<and> cents (td_delta row) = ledger_side tb tiers g - qbo_side tb qbo tiers g"
proof -
  from assms(1) obtain ledger q d where s: "try_fold (add_number (tr_rows tb) amounts (tu_skip_numbers tiers)) (ZERO, ZERO)
      (group_numbers (tr_rows tb) g) = Inr (ledger, q)" "checked_sub ledger q = Inr d"
    and row: "row = \<lparr>td_label = ag_label g, td_tier = ag_tier g, td_ledger_amount = ledger, td_qbo_amount = q, td_delta = d\<rparr>"
    by (auto simp: diff_group_def)
  have same: "amount_of amounts i = qbo_balance qbo i" for i using qbo_by_id_Inr[OF assms(2)] by (rule fun_cong)
  have "cents ledger = ledger_side tb tiers g" "cents q = qbo_side tb qbo tiers g"
    using group_fold[OF s(1)] unfolding ledger_side_def qbo_side_def group_rows_def same by simp_all
  then show ?thesis using s(2) by (simp add: row checked_sub_Inr)
qed

text \<open>
  What the diff says: a must-match group fails, and a may-differ group is unexplained, exactly when
  the balances of its accounts - those not skipped and not waiting for a mapping - add up over the
  integers to another sum than the QuickBooks balances of the accounts they refer to.
\<close>

theorem diff_compares_mapped_accounts:
  assumes "tb_diff tb qbo tiers = Inr df"
  shows "tf_must_failures df = map ag_label (filter (\<lambda>g. ag_tier g = Must \<and> ledger_side tb tiers g \<noteq> qbo_side tb qbo tiers g) (tu_groups tiers)) \<and>
    tf_may_unexplained df = map ag_label (filter (\<lambda>g. ag_tier g = May \<and> ledger_side tb tiers g \<noteq> qbo_side tb qbo tiers g) (tu_groups tiers)) \<and>
    list_all2 (\<lambda>g row. td_label row = ag_label g \<and> cents (td_ledger_amount row) = ledger_side tb tiers g \<and>
      cents (td_qbo_amount row) = qbo_side tb qbo tiers g \<and> cents (td_delta row) = ledger_side tb tiers g - qbo_side tb qbo tiers g)
      (tu_groups tiers) (take (length (tu_groups tiers)) (tf_rows df))"
proof -
  from assms obtain amounts rows where run: "qbo_by_id qbo = Inr amounts"
    "try_map (diff_group (tr_rows tb) amounts (tu_skip_numbers tiers)) (tu_groups tiers) = Inr rows"
    and df: "tf_rows df = rows @ skip_rows (tr_rows tb) tiers"
      "tf_must_failures df = map td_label (filter (\<lambda>row. td_tier row = Must \<and> \<not> is_zero (td_delta row)) rows)"
      "tf_may_unexplained df = map td_label (filter (\<lambda>row. td_tier row = May \<and> \<not> is_zero (td_delta row)) rows)"
    by (auto simp: tb_diff_def Let_def)
  let ?ok = "\<lambda>g row. td_label row = ag_label g \<and> td_tier row = ag_tier g \<and> cents (td_ledger_amount row) = ledger_side tb tiers g \<and>
      cents (td_qbo_amount row) = qbo_side tb qbo tiers g \<and> cents (td_delta row) = ledger_side tb tiers g - qbo_side tb qbo tiers g"
  have all: "list_all2 ?ok (tu_groups tiers) rows"
    using run(2) diff_group_Inr[OF _ run(1)] unfolding try_map_Inr_iff by (rule list_all2_mono)
  have failing: "map td_label (filter (\<lambda>row. td_tier row = t \<and> \<not> is_zero (td_delta row)) rows) =
      map ag_label (filter (\<lambda>g. ag_tier g = t \<and> ledger_side tb tiers g \<noteq> qbo_side tb qbo tiers g) (tu_groups tiers))" for t
    using all by (induction rule: list_all2_induct) (auto simp: is_zero_cents)
  have "take (length (tu_groups tiers)) (tf_rows df) = rows" using list_all2_lengthD[OF all] by (simp add: df(1))
  moreover have "list_all2 (\<lambda>g row. td_label row = ag_label g \<and> cents (td_ledger_amount row) = ledger_side tb tiers g \<and>
      cents (td_qbo_amount row) = qbo_side tb qbo tiers g \<and> cents (td_delta row) = ledger_side tb tiers g - qbo_side tb qbo tiers g)
      (tu_groups tiers) rows"
    using all by (rule list_all2_mono) blast
  ultimately show ?thesis by (simp add: df(2,3) failing)
qed

lemma diff_group_seen:
  assumes "\<And>row i. row \<in> set rows \<Longrightarrow> tb_source_ref row = Some i \<Longrightarrow> m' i = m i"
  shows "diff_group rows m' skip g = diff_group rows m skip g"
proof -
  have "add_number rows m' skip = add_number rows m skip"
  proof (intro ext)
    fix s n
    have "row \<in> set rows" if "ledger_by_number rows n = Some row" for row
      using that by (auto simp: ledger_by_number_def dest!: map_of_SomeD)
    then have "Option.bind (tb_source_ref row) m' = Option.bind (tb_source_ref row) m" if "ledger_by_number rows n = Some row" for row
      using that assms by (cases "tb_source_ref row") auto
    then show "add_number rows m' skip s n = add_number rows m skip s n"
      by (auto simp: add_number_def split: option.split)
  qed
  then show ?thesis by (simp add: diff_group_def)
qed

text \<open>
  What the diff does not say: a QuickBooks account no account of the ledger refers to, whatever
  its balance, changes nothing of it, so a clean diff does not mean the two books agree; and under
  the default rules the number always skipped, opening balance equity, gets no row of its own,
  though the rules name it to be shown as skipped.
\<close>

theorem diff_overlooks_unmapped_accounts:
  assumes "\<forall>row \<in> set (tr_rows tb). tb_source_ref row \<noteq> Some (qt_qbo_account_id extra)"
    and "\<forall>row \<in> set qbo. qt_qbo_account_id row \<noteq> qt_qbo_account_id extra"
  shows "tb_diff tb (qbo @ [extra]) tiers = tb_diff tb qbo tiers \<and>
    skip_rows (tr_rows tb) default_tier_rules = skip_rows (tr_rows tb) (default_tier_rules\<lparr>tu_skip_numbers := []\<rparr>)"
proof
  show "tb_diff tb (qbo @ [extra]) tiers = tb_diff tb qbo tiers"
  proof (cases "qbo_by_id qbo")
    case (Inr m)
    have unseen: "m i = None" if "\<forall>row \<in> set rows. qt_qbo_account_id row \<noteq> i" "qbo_by_id rows = Inr m" for m i rows
      using that
    proof (induction rows arbitrary: m rule: rev_induct)
      case (snoc row rows)
      then show ?case by (auto simp: qbo_by_id_def try_fold_append qbo_add_def)
    qed (simp add: qbo_by_id_def)
    have "checked_add ZERO (qt_balance extra) = Inr (qt_balance extra)"
      using cents_in_i64 by (simp add: checked_add_eq)
    then have "qbo_by_id (qbo @ [extra]) = Inr (m(qt_qbo_account_id extra \<mapsto> qt_balance extra))"
      using Inr unseen[OF assms(2) Inr] by (simp add: qbo_by_id_def try_fold_append qbo_add_def unwrap_or_def)
    moreover have "diff_group (tr_rows tb) (m(qt_qbo_account_id extra \<mapsto> qt_balance extra)) skip = diff_group (tr_rows tb) m skip" for skip
      by (rule ext, rule diff_group_seen) (use assms(1) in auto)
    ultimately show ?thesis using Inr by (simp add: tb_diff_def)
  qed (simp add: tb_diff_def qbo_by_id_def try_fold_append)
  have covered: "''3950'' \<in> set (concat (map (group_numbers (tr_rows tb)) (tu_groups default_tier_rules)))"
    if "row \<in> set (tr_rows tb)" "tb_number row = ''3950''" for row
    using that by (force simp: default_tier_rules_def group_def prefix_group_def group_numbers_def)
  have only: "tu_skip_numbers default_tier_rules = [''3950'']" by (simp add: default_tier_rules_def)
  show "skip_rows (tr_rows tb) default_tier_rules = skip_rows (tr_rows tb) (default_tier_rules\<lparr>tu_skip_numbers := []\<rparr>)"
    unfolding skip_rows_def Let_def
  proof (rule arg_cong[where f = "map _"], rule filter_cong[OF refl])
    fix row assume "row \<in> set (tr_rows tb)"
    then have "tb_number row \<noteq> ''3950''"
      if "tb_number row \<notin> set (concat (map (group_numbers (tr_rows tb)) (tu_groups default_tier_rules)))"
      using covered[of row] that by metis
    then show "(tb_number row \<notin> set (concat (map (group_numbers (tr_rows tb)) (tu_groups default_tier_rules))) \<and>
        (tb_number row \<in> set (tu_skip_numbers default_tier_rules) \<or> tb_needs_mapping row)) \<longleftrightarrow>
      (tb_number row \<notin> set (concat (map (group_numbers (tr_rows tb)) (tu_groups (default_tier_rules\<lparr>tu_skip_numbers := []\<rparr>)))) \<and>
        (tb_number row \<in> set (tu_skip_numbers (default_tier_rules\<lparr>tu_skip_numbers := []\<rparr>)) \<or> tb_needs_mapping row))"
      unfolding only by auto
  qed
qed


section \<open>A taxed sale\<close>

text \<open>
  A taxable sale of 5.00 with 0.31 of tax at 6.25 percent. The tax divided by the rate gives 4.96, so
  the report shows a variance of 0.04 from the rounding of the tax.
\<close>

definition taxed_db :: db where
  "taxed_db = empty_db\<lparr>
     db_accounts := [(''co'', sample_account CHECKING Asset), (''co'', sample_account SALES_INCOME Income),
                     (''co'', sample_account SALES_TAX_PAYABLE Liability)],
     db_document_versions := [(''co'', sample_version ''doc-1'' JournalEntry (Ymd 2027 12 30))],
     db_journal_entries := [sample_entry_row ''e-1'' ''doc-1'' (Ymd 2027 12 30) 1],
     db_journal_lines := [sample_line_row ''e-1'' (cash_in 1 531),
       sample_line_row ''e-1'' ((credit_line 2 (AccountId SALES_INCOME) (money_of 500))\<lparr>jl_class := Some (ClassId ''foam''), jl_is_taxable := True\<rparr>),
       sample_line_row ''e-1'' (credit_line 3 (AccountId SALES_TAX_PAYABLE) (money_of 31))]\<rparr>"

definition taxed_lines :: sales_tax where
  "taxed_lines =
     \<lparr>sx_a_total_income = money_of 500, sx_b_tax_collected = money_of 31, sx_c_taxable_sales = money_of 496,
      sx_d_nontaxable_sales = money_of 4, sx_e_line_level_taxable = Some (money_of 500), sx_variance = Some (money_of 4),
      sx_st50 = [(1, money_of 500), (2, money_of 4), (3, money_of 496)]\<rparr>"

lemmas tax_eval =
  sales_tax_lines_def signed_balance_for_classification_def sales_tax_collected_def line_level_taxable_def
  lines_classified_def credits_less_debits_def between_def taxed_db_def taxed_lines_def sample_db_defs report_eval chart_numbers Let_def

lemma taxed_keyed: "accounts_keyed taxed_db"
  by (simp add: accounts_keyed_def taxed_db_def sample_db_defs chart_numbers)

lemma fourth_quarter: "quarter_bounds 2027 4 = Inr (Ymd 2027 10 1, Ymd 2027 12 31)"
  by (simp add: quarter_bounds_def month_days_def year_ok_def Let_def)

lemma taxed_profit: "profit_and_loss taxed_db ''co'' (Ymd 2027 10 1) (Ymd 2027 12 31) = Inr sample_pnl"
  by (simp add: sheet_eval taxed_db_def sample_pnl_def)

lemma tax_over_rate: "d_div reference_ops (dec_new 31 2) (Decimal 625 4) = Some (Decimal 496 2)"
  by code_simp

lemma tax_base: "round_money reference_ops (Decimal 496 2) LineExtension = Inr (money_of 496)"
  by code_simp

lemma taxed_sums:
  "signed_balance_for_classification taxed_db ''co'' (Ymd 2027 10 1) (Ymd 2027 12 31) Income = Inr (money_of 500)"
  "sales_tax_collected taxed_db ''co'' (Ymd 2027 10 1) (Ymd 2027 12 31) = Inr (money_of 31)"
  "line_level_taxable taxed_db ''co'' (Ymd 2027 10 1) (Ymd 2027 12 31) = Inr (money_of 500)"
  by (simp_all add: tax_eval)

lemma taxed_sales_tax: "sales_tax_lines reference_ops taxed_db ''co'' (2027, 4) (Decimal 625 4) = Inr taxed_lines"
  using tax_over_rate tax_base
  by (simp add: sales_tax_lines_def fourth_quarter taxed_sums taxed_lines_def checked_sub_eq in_i64_def cents_def[symmetric]
      del: One_nat_def)

lemma reference_div_ok: "\<forall>a b c. d_div reference_ops a b = Some c \<longrightarrow> dec_ok c"
  by (auto simp: reference_ops_def dec_fit_def Let_def split: if_splits)

theorem tax_lines_tie_to_the_books_witness:
  "cents (sx_a_total_income taxed_lines) = cents (se_total (pl_income sample_pnl)) \<and>
    cents (sx_b_tax_collected taxed_lines) = - account_net (AccountId SALES_TAX_PAYABLE)
      (posted_lines taxed_db ''co'' (\<lambda>e. dated (Ymd 2027 10 1) (Ymd 2027 12 31) e \<and> en_source_type e \<noteq> BankLine)) \<and>
    (\<exists>x. d_div reference_ops (dec_new (cents (sx_b_tax_collected taxed_lines)) 2) (Decimal 625 4) = Some x \<and>
       cents (sx_c_taxable_sales taxed_lines) = round_half_away (dec_val x * 100)) \<and>
    cents (sx_d_nontaxable_sales taxed_lines) + cents (sx_c_taxable_sales taxed_lines) = cents (sx_a_total_income taxed_lines) \<and>
    sx_st50 taxed_lines = [(1, sx_a_total_income taxed_lines), (2, sx_d_nontaxable_sales taxed_lines), (3, sx_c_taxable_sales taxed_lines)] \<and>
    (\<exists>e v. sx_e_line_level_taxable taxed_lines = Some e \<and> sx_variance taxed_lines = Some v \<and>
       cents v = cents e - cents (sx_c_taxable_sales taxed_lines)) \<and>
    {d. valid_date d \<and> Ymd 2027 10 1 \<le> d \<and> d \<le> Ymd 2027 12 31} = {d. valid_date d \<and> year d = 2027 \<and> (month d + 2) div 3 = 4}"
  by (rule tax_lines_tie_to_the_books[OF taxed_sales_tax fourth_quarter taxed_profit taxed_keyed reference_laws reference_div_ok])

definition posted_balances :: "(string option \<times> account_id \<times> money) list" where
  "posted_balances = [(None, AccountId CHECKING, money_of 500), (None, AccountId OWNER_CAPITAL, money_of (- 500))]"

lemma posted_by_ref: "balances_by_source_ref posted_db ''co'' (Ymd 2027 12 31) = Inr posted_balances"
  by (simp add: balances_by_source_ref_def balance_row_def posted_balances_def List.map_filter_simps report_eval
      sample_db_defs chart_numbers Let_def)

theorem balances_agree_with_trial_balance_witness:
  "set posted_balances =
    {(tb_source_ref r, tb_account_id r, tb_balance r) |r. r \<in> set (tr_rows sample_tb) \<and> tb_balance r \<noteq> ZERO}"
  by (rule balances_agree_with_trial_balance[OF posted_by_ref sample_trial_balance])

text \<open>A trial balance whose checking account is mapped, against books that hold one account more.\<close>

definition mapped_tb :: trial_balance_report where
  "mapped_tb = sample_tb\<lparr>tr_rows := map (\<lambda>r. r\<lparr>tb_source_ref := Some (''q-'' @ tb_number r)\<rparr>) (tr_rows sample_tb)\<rparr>"

definition sample_tiers :: tier_rules where
  "sample_tiers = \<lparr>tu_groups = [group ''Bank'' Must [CHECKING], group ''Capital'' May [OWNER_CAPITAL]], tu_skip_numbers = []\<rparr>"

definition qbo_row :: "string \<Rightarrow> int \<Rightarrow> qbo_tb_row" where
  "qbo_row i x = \<lparr>qt_qbo_account_id = i, qt_name = i, qt_balance = money_of x\<rparr>"

definition mapped_diff :: tb_diff_report where
  "mapped_diff =
     \<lparr>tf_rows =
        [\<lparr>td_label = ''Bank'', td_tier = Must, td_ledger_amount = money_of 500, td_qbo_amount = money_of 450, td_delta = money_of 50\<rparr>,
         \<lparr>td_label = ''Capital'', td_tier = May, td_ledger_amount = money_of (- 500), td_qbo_amount = money_of (- 500), td_delta = ZERO\<rparr>],
      tf_must_failures = [''Bank''], tf_may_unexplained = []\<rparr>"

lemmas diff_eval =
  tb_diff_def qbo_by_id_def qbo_add_def diff_group_def add_number_def ledger_by_number_def group_numbers_def skip_rows_def
  mapped_tb_def sample_tb_def sample_tiers_def group_def qbo_row_def mapped_diff_def tb_row_of_def sample_account_def
  unwrap_or_def checked_eqs report_eval chart_numbers Let_def

lemma mapped_diff:
  "tb_diff mapped_tb [qbo_row ''q-1100'' 450, qbo_row ''q-3000'' (- 500)] sample_tiers = Inr mapped_diff"
  by (simp add: diff_eval)

theorem diff_compares_mapped_accounts_witness:
  "let qbo = [qbo_row ''q-1100'' 450, qbo_row ''q-3000'' (- 500)] in
    tf_must_failures mapped_diff = map ag_label (filter (\<lambda>g. ag_tier g = Must \<and> ledger_side mapped_tb sample_tiers g \<noteq> qbo_side mapped_tb qbo sample_tiers g) (tu_groups sample_tiers)) \<and>
    tf_may_unexplained mapped_diff = map ag_label (filter (\<lambda>g. ag_tier g = May \<and> ledger_side mapped_tb sample_tiers g \<noteq> qbo_side mapped_tb qbo sample_tiers g) (tu_groups sample_tiers)) \<and>
    list_all2 (\<lambda>g row. td_label row = ag_label g \<and> cents (td_ledger_amount row) = ledger_side mapped_tb sample_tiers g \<and>
      cents (td_qbo_amount row) = qbo_side mapped_tb qbo sample_tiers g \<and>
      cents (td_delta row) = ledger_side mapped_tb sample_tiers g - qbo_side mapped_tb qbo sample_tiers g)
      (tu_groups sample_tiers) (take (length (tu_groups sample_tiers)) (tf_rows mapped_diff))"
  unfolding Let_def by (rule diff_compares_mapped_accounts[OF mapped_diff])

theorem diff_overlooks_unmapped_accounts_witness:
  "tb_diff mapped_tb ([qbo_row ''q-1100'' 450] @ [qbo_row ''q-9'' 123456]) default_tier_rules =
     tb_diff mapped_tb [qbo_row ''q-1100'' 450] default_tier_rules \<and>
   skip_rows (tr_rows mapped_tb) default_tier_rules = skip_rows (tr_rows mapped_tb) (default_tier_rules\<lparr>tu_skip_numbers := []\<rparr>)"
  by (rule diff_overlooks_unmapped_accounts)
    (simp_all add: qbo_row_def mapped_tb_def sample_tb_def tb_row_of_def sample_account_def chart_numbers)

end
