(* ===== verification/Project.thy ===== *)
theory Project
  imports Qbo_Domain Rounding
begin

text \<open>
  \<open>apps/qbo-local/src/project.rs\<close>: turning a mirrored QuickBooks payload into the parsed form its
  tables hold, or into the reason it is quarantined for. The readers of \<open>serde_json\<close> and
  \<open>rust_decimal\<close> the parse calls are arguments.
\<close>

section \<open>Readers\<close>

text \<open>
  Of a number's text: whether its 64 bit float is finite and below \<open>2^53\<close> in magnitude
  (\<open>as_f64\<close>); \<open>Decimal::from_str\<close>; and \<open>Value::to_string\<close>, which only words errors.
\<close>

record readers =
  rd_exact_f64 :: "string \<Rightarrow> bool"
  rd_decimal :: "string \<Rightarrow> decimal option"
  rd_to_string :: "json \<Rightarrow> string"

text \<open>\<open>Number::as_i64\<close>: the text is an integer literal in range.\<close>

definition as_i64 :: "string \<Rightarrow> int option" where
  "as_i64 n =
     (let (negative, digits) = (case n of c # cs \<Rightarrow> if c = CHR ''-'' then (True, cs) else (False, n) | [] \<Rightarrow> (False, []));
          i = (if negative then - int (digits_value 0 digits) else int (digits_value 0 digits))
      in if digits \<noteq> [] \<and> list_all is_ascii_digit digits \<and> in_i64 i then Some i else None)"

definition json_array :: "json \<Rightarrow> json list option" where
  "json_array v = (case v of JArray xs \<Rightarrow> Some xs | _ \<Rightarrow> None)"

definition json_bool :: "json \<Rightarrow> bool option" where
  "json_bool v = (case v of JBool b \<Rightarrow> Some b | _ \<Rightarrow> None)"

section \<open>What is parsed\<close>

datatype contact_type = CustomerContact | VendorContact

fun contact_as_str :: "contact_type \<Rightarrow> string" where
  "contact_as_str CustomerContact = ''Customer''"
| "contact_as_str VendorContact = ''Vendor''"

definition parse_contact_type :: "string \<Rightarrow> contact_type option" where
  "parse_contact_type raw =
     (if raw = ''Customer'' then Some CustomerContact else if raw = ''Vendor'' then Some VendorContact else None)"

text \<open>A mirrored entity as the sync hands it over.\<close>

record mirrored =
  mi_entity_type :: entity_type
  mi_qbo_id :: string
  mi_sync_token :: string
  mi_last_updated :: int
  mi_is_deleted :: bool
  mi_raw_json :: json

datatype project_error =
    MissingField string string string
  | NotAnAmount string string
  | AmountPrecision string string
  | ProjectMoney money_error

definition project_error_str :: "project_error \<Rightarrow> string" where
  "project_error_str e =
     (case e of
        MissingField entity i field \<Rightarrow>
          entity @ '' '' @ i @ '': required field `'' @ field @ ''` is missing or not readable''
      | NotAnAmount field found \<Rightarrow> field @ '' is not a number this build will read as money: '' @ found
      | AmountPrecision field found \<Rightarrow> field @ '' carries more than two decimal places: '' @ found
      | ProjectMoney m \<Rightarrow> ''money conversion failed: '' @
          (case m of Overflow \<Rightarrow> ''money arithmetic overflowed i64 minor units''
           | OutOfRange x \<Rightarrow> ''decimal value '' @ x @ '' is outside the range representable as i64 minor units''))"

record parsed_contact =
  pc_contact_type :: contact_type
  pc_qbo_id :: string
  pc_display_name :: string
  pc_company_name :: "string option"
  pc_email :: "string option"
  pc_phone :: "string option"
  pc_balance :: "money option"
  pc_is_active :: bool
  pc_is_deleted :: bool

record parsed_item =
  pi_qbo_id :: string
  pi_name :: string
  pi_sku :: "string option"
  pi_description :: "string option"
  pi_item_type :: "string option"
  pi_unit_price :: "decimal option"
  pi_purchase_cost :: "decimal option"
  pi_qty_on_hand :: "decimal option"
  pi_income_account_id :: "string option"
  pi_expense_account_id :: "string option"
  pi_asset_account_id :: "string option"
  pi_is_active :: bool
  pi_is_deleted :: bool

record parsed_account =
  pa_qbo_id :: string
  pa_name :: string
  pa_acct_num :: "string option"
  pa_account_type :: "string option"
  pa_account_subtype :: "string option"
  pa_classification :: "string option"
  pa_balance :: "money option"
  pa_is_active :: bool
  pa_is_deleted :: bool

record parsed_class =
  ps_qbo_id :: string
  ps_name :: string
  ps_fully_qualified_name :: "string option"
  ps_parent_id :: "string option"
  ps_is_active :: bool
  ps_is_deleted :: bool

record parsed_doc_line =
  pl_line_no :: i64
  pl_item_id :: "string option"
  pl_description :: "string option"
  pl_qty :: "decimal option"
  pl_unit_price :: "decimal option"
  pl_amount :: money
  pl_class_id :: "string option"
  pl_is_taxable :: bool

record parsed_link =
  pk_to_qbo_id :: string
  pk_to_type :: string
  pk_line_no :: "i64 option"

record parsed_document =
  pd_qbo_id :: string
  pd_doc_type :: document_type
  pd_doc_number :: "string option"
  pd_txn_date :: string
  pd_due_date :: "string option"
  pd_contact_id :: "string option"
  pd_contact_type :: "contact_type option"
  pd_class_id :: "string option"
  pd_total :: money
  pd_balance :: "money option"
  pd_doc_status :: "string option"
  pd_po_number :: "string option"
  pd_private_note :: "string option"
  pd_customer_memo :: "string option"
  pd_currency :: "string option"
  pd_is_deleted :: bool
  pd_lines :: "parsed_doc_line list"
  pd_links :: "parsed_link list"

datatype parsed_entity =
    PContact parsed_contact | PItem parsed_item | PAccount parsed_account | PClass parsed_class | PDocument parsed_document

datatype projection = Parsed parsed_entity | NotProjected | Quarantine string

section \<open>Field readers\<close>

definition json_text :: "json \<Rightarrow> string \<Rightarrow> string option" where
  "json_text v key =
     (case json_get v key of
        Some (JString s) \<Rightarrow> if trim s = [] then None else Some (trim s)
      | Some (JNumber n) \<Rightarrow> if n = [] then None else Some n
      | _ \<Rightarrow> None)"

definition nested_text :: "json \<Rightarrow> string \<Rightarrow> string \<Rightarrow> string option" where
  "nested_text v outer inner = Option.bind (json_get v outer) (\<lambda>found. json_text found inner)"

definition reference :: "json \<Rightarrow> string \<Rightarrow> string option" where
  "reference v key = nested_text v key ''value''"

definition json_flag :: "json \<Rightarrow> string \<Rightarrow> bool option" where
  "json_flag v key = Option.bind (json_get v key) json_bool"

definition missing :: "mirrored \<Rightarrow> string \<Rightarrow> project_error" where
  "missing entity key = MissingField (entity_as_str (mi_entity_type entity)) (mi_qbo_id entity) key"

definition required_string :: "json \<Rightarrow> string \<Rightarrow> mirrored \<Rightarrow> project_error + string" where
  "required_string v key entity = ok_or (json_text v key) (missing entity key)"

definition json_decimal_value :: "readers \<Rightarrow> json \<Rightarrow> decimal option" where
  "json_decimal_value R v =
     (case v of
        JNumber n \<Rightarrow>
          (case as_i64 n of
             Some i \<Rightarrow> Some (Decimal i 0)
           | None \<Rightarrow> if rd_exact_f64 R n then rd_decimal R n else None)
      | JString s \<Rightarrow> rd_decimal R (trim s)
      | _ \<Rightarrow> None)"

definition optional_decimal :: "readers \<Rightarrow> json \<Rightarrow> string \<Rightarrow> project_error + decimal option" where
  "optional_decimal R v key =
     (case json_get v key of
        None \<Rightarrow> Inr None
      | Some found \<Rightarrow>
          if found = JNull then Inr None
          else map_sum id Some (ok_or (json_decimal_value R found) (NotAnAmount key (rd_to_string R found))))"

definition optional_money :: "dec_ops \<Rightarrow> readers \<Rightarrow> json \<Rightarrow> string \<Rightarrow> project_error + money option" where
  "optional_money D R v key =
     and_then (optional_decimal R v key) (\<lambda>d.
     case d of
       None \<Rightarrow> Inr None
     | Some x \<Rightarrow>
         if 2 < scale x then Inl (AmountPrecision key (d_to_string D x))
         else map_sum ProjectMoney Some (round_money D x MirroredAmount))"

definition required_money :: "dec_ops \<Rightarrow> readers \<Rightarrow> json \<Rightarrow> string \<Rightarrow> mirrored \<Rightarrow> project_error + money" where
  "required_money D R v key entity = and_then (optional_money D R v key) (\<lambda>m. ok_or m (missing entity key))"

section \<open>Masters\<close>

definition parse_contact :: "dec_ops \<Rightarrow> readers \<Rightarrow> json \<Rightarrow> mirrored \<Rightarrow> contact_type \<Rightarrow> project_error + parsed_contact" where
  "parse_contact D R raw entity contact_type =
     and_then (required_string raw ''DisplayName'' entity) (\<lambda>display_name.
     and_then (optional_money D R raw ''Balance'') (\<lambda>balance.
     Inr \<lparr>pc_contact_type = contact_type, pc_qbo_id = mi_qbo_id entity, pc_display_name = display_name,
          pc_company_name = json_text raw ''CompanyName'', pc_email = nested_text raw ''PrimaryEmailAddr'' ''Address'',
          pc_phone = nested_text raw ''PrimaryPhone'' ''FreeFormNumber'', pc_balance = balance,
          pc_is_active = unwrap_or (json_flag raw ''Active'') True, pc_is_deleted = mi_is_deleted entity\<rparr>))"

definition parse_item :: "readers \<Rightarrow> json \<Rightarrow> mirrored \<Rightarrow> project_error + parsed_item" where
  "parse_item R raw entity =
     and_then (required_string raw ''Name'' entity) (\<lambda>name.
     and_then (optional_decimal R raw ''UnitPrice'') (\<lambda>unit_price.
     and_then (optional_decimal R raw ''PurchaseCost'') (\<lambda>purchase_cost.
     and_then (optional_decimal R raw ''QtyOnHand'') (\<lambda>qty_on_hand.
     Inr \<lparr>pi_qbo_id = mi_qbo_id entity, pi_name = name, pi_sku = json_text raw ''Sku'',
          pi_description = json_text raw ''Description'', pi_item_type = json_text raw ''Type'', pi_unit_price = unit_price,
          pi_purchase_cost = purchase_cost, pi_qty_on_hand = qty_on_hand,
          pi_income_account_id = reference raw ''IncomeAccountRef'', pi_expense_account_id = reference raw ''ExpenseAccountRef'',
          pi_asset_account_id = reference raw ''AssetAccountRef'', pi_is_active = unwrap_or (json_flag raw ''Active'') True,
          pi_is_deleted = mi_is_deleted entity\<rparr>))))"

definition parse_account :: "dec_ops \<Rightarrow> readers \<Rightarrow> json \<Rightarrow> mirrored \<Rightarrow> project_error + parsed_account" where
  "parse_account D R raw entity =
     and_then (required_string raw ''Name'' entity) (\<lambda>name.
     and_then (optional_money D R raw ''CurrentBalance'') (\<lambda>balance.
     Inr \<lparr>pa_qbo_id = mi_qbo_id entity, pa_name = name, pa_acct_num = json_text raw ''AcctNum'',
          pa_account_type = json_text raw ''AccountType'', pa_account_subtype = json_text raw ''AccountSubType'',
          pa_classification = json_text raw ''Classification'', pa_balance = balance,
          pa_is_active = unwrap_or (json_flag raw ''Active'') True, pa_is_deleted = mi_is_deleted entity\<rparr>))"

definition parse_class :: "json \<Rightarrow> mirrored \<Rightarrow> project_error + parsed_class" where
  "parse_class raw entity =
     and_then (required_string raw ''Name'' entity) (\<lambda>name.
     Inr \<lparr>ps_qbo_id = mi_qbo_id entity, ps_name = name, ps_fully_qualified_name = json_text raw ''FullyQualifiedName'',
          ps_parent_id = reference raw ''ParentRef'', ps_is_active = unwrap_or (json_flag raw ''Active'') True,
          ps_is_deleted = mi_is_deleted entity\<rparr>)"

section \<open>Documents\<close>

definition contact_of :: "json \<Rightarrow> document_type \<Rightarrow> contact_type option \<times> string option" where
  "contact_of raw doc_type =
     (if doc_type \<in> {DocEstimate, DocInvoice, DocSalesReceipt, DocCreditMemo, DocRefundReceipt, DocPayment}
      then (Some CustomerContact, reference raw ''CustomerRef'')
      else if doc_type \<in> {DocPurchaseOrder, DocBill, DocBillPayment, DocVendorCredit, DocCreditCardPayment}
      then (Some VendorContact, reference raw ''VendorRef'')
      else if doc_type = DocPurchase
      then (case reference raw ''EntityRef'' of
              Some i \<Rightarrow> (Option.bind (nested_text raw ''EntityRef'' ''type'') parse_contact_type, Some i)
            | None \<Rightarrow> (None, None))
      else (None, None))"

definition ends_with :: "string \<Rightarrow> string \<Rightarrow> bool" where
  "ends_with suffix s \<longleftrightarrow> starts_with (rev suffix) (rev s)"

definition detail_object :: "json \<Rightarrow> string option \<Rightarrow> json option" where
  "detail_object line detail_type =
     (case Option.bind detail_type (json_get line) of
        Some found \<Rightarrow> Some found
      | None \<Rightarrow>
          (case line of
             JObject members \<Rightarrow> map_option snd (find_map (\<lambda>(key, _). ends_with ''LineDetail'' key) members)
           | _ \<Rightarrow> None))"

text \<open>\<open>index as i64 + 1\<close> stays in range: no payload has \<open>2^63\<close> lines.\<close>

definition line_number :: "dec_ops \<Rightarrow> readers \<Rightarrow> json \<Rightarrow> nat \<Rightarrow> i64" where
  "line_number D R line index =
     unwrap_or
       (Option.bind (Option.bind (json_get line ''LineNum'') (json_decimal_value R)) (\<lambda>d. d_to_i64 D (d_trunc D d)))
       (of_nat index + 1)"

definition is_taxable :: "json \<Rightarrow> bool" where
  "is_taxable detail =
     (case reference detail ''TaxCodeRef'' of
        Some code \<Rightarrow> to_ascii_lowercase code \<noteq> to_ascii_lowercase ''NON''
      | None \<Rightarrow> False)"

text \<open>One line: \<open>None\<close> is a subtotal, skipped.\<close>

definition parse_line :: "dec_ops \<Rightarrow> readers \<Rightarrow> json \<times> nat \<Rightarrow> project_error + parsed_doc_line option" where
  "parse_line D R = (\<lambda>(line, index).
     let detail_type = json_text line ''DetailType'' in
     if detail_type = Some ''SubTotalLineDetail'' then Inr None
     else
       let detail = detail_object line detail_type in
       and_then
         (case detail of
            Some d \<Rightarrow> and_then (optional_decimal R d ''Qty'') (\<lambda>q. and_then (optional_decimal R d ''QtyDiff'') (\<lambda>q'. Inr (or_else q q')))
          | None \<Rightarrow> Inr None) (\<lambda>qty.
       and_then (case detail of Some d \<Rightarrow> optional_decimal R d ''UnitPrice'' | None \<Rightarrow> Inr None) (\<lambda>unit_price.
       and_then (optional_money D R line ''Amount'') (\<lambda>amount.
       Inr (Some \<lparr>pl_line_no = line_number D R line index, pl_item_id = Option.bind detail (\<lambda>d. reference d ''ItemRef''),
              pl_description = json_text line ''Description'', pl_qty = qty, pl_unit_price = unit_price,
              pl_amount = unwrap_or amount ZERO, pl_class_id = Option.bind detail (\<lambda>d. reference d ''ClassRef''),
              pl_is_taxable = (case detail of Some d \<Rightarrow> is_taxable d | None \<Rightarrow> False)\<rparr>)))))"

definition lines_of_payload :: "json \<Rightarrow> json list" where
  "lines_of_payload raw = unwrap_or (Option.bind (json_get raw ''Line'') json_array) []"

definition parse_lines :: "dec_ops \<Rightarrow> readers \<Rightarrow> json \<Rightarrow> project_error + parsed_doc_line list" where
  "parse_lines D R raw =
     and_then (try_map (parse_line D R) (zip (lines_of_payload raw) [0..<length (lines_of_payload raw)])) (\<lambda>ls.
     Inr (List.map_filter id ls))"

definition linked_txn :: "i64 option \<Rightarrow> json \<Rightarrow> parsed_link option" where
  "linked_txn line_no link =
     Option.bind (json_text link ''TxnId'') (\<lambda>i.
     Option.bind (json_text link ''TxnType'') (\<lambda>t.
     Some \<lparr>pk_to_qbo_id = i, pk_to_type = t, pk_line_no = line_no\<rparr>))"

definition linked_of :: "json \<Rightarrow> json list" where
  "linked_of v = unwrap_or (Option.bind (json_get v ''LinkedTxn'') json_array) []"

definition parse_links :: "dec_ops \<Rightarrow> readers \<Rightarrow> json \<Rightarrow> parsed_link list" where
  "parse_links D R raw =
     List.map_filter (linked_txn None) (linked_of raw) @
     concat (map (\<lambda>(line, index). List.map_filter (linked_txn (Some (line_number D R line index))) (linked_of line))
       (zip (lines_of_payload raw) [0..<length (lines_of_payload raw)]))"

definition is_ascii_alphanumeric :: "char \<Rightarrow> bool" where
  "is_ascii_alphanumeric c \<longleftrightarrow> is_ascii_digit c \<or> 65 \<le> (of_char c :: nat) \<and> (of_char c :: nat) \<le> 90 \<or>
     97 \<le> (of_char c :: nat) \<and> (of_char c :: nat) \<le> 122"

definition po_field :: "json \<Rightarrow> string option" where
  "po_field field =
     Option.bind (json_text field ''Name'') (\<lambda>name.
     if to_ascii_lowercase (filter is_ascii_alphanumeric name) \<in> {''ponumber'', ''po'', ''purchaseordernumber''}
     then json_text field ''StringValue'' else None)"

definition po_number :: "json \<Rightarrow> string option" where
  "po_number raw =
     Option.bind (json_get raw ''CustomField'') (\<lambda>v.
     Option.bind (json_array v) (\<lambda>customs.
     Option.bind (find_map (\<lambda>f. po_field f \<noteq> None) customs) po_field))"

definition document_total :: "dec_ops \<Rightarrow> readers \<Rightarrow> json \<Rightarrow> mirrored \<Rightarrow> document_type \<Rightarrow> project_error + money" where
  "document_total D R raw entity doc_type =
     (if doc_type \<in> {DocTransfer, DocCreditCardPayment} then required_money D R raw ''Amount'' entity
      else if doc_type = DocInventoryAdjustment then Inr ZERO
      else required_money D R raw ''TotalAmt'' entity)"

definition parse_document :: "dec_ops \<Rightarrow> readers \<Rightarrow> json \<Rightarrow> mirrored \<Rightarrow> document_type \<Rightarrow> project_error + parsed_document" where
  "parse_document D R raw entity doc_type =
     and_then (document_total D R raw entity doc_type) (\<lambda>total.
     and_then (parse_lines D R raw) (\<lambda>ls.
     and_then (required_string raw ''TxnDate'' entity) (\<lambda>txn_date.
     and_then (optional_money D R raw ''Balance'') (\<lambda>balance.
     Inr \<lparr>pd_qbo_id = mi_qbo_id entity, pd_doc_type = doc_type, pd_doc_number = json_text raw ''DocNumber'',
          pd_txn_date = txn_date, pd_due_date = json_text raw ''DueDate'', pd_contact_id = snd (contact_of raw doc_type),
          pd_contact_type = fst (contact_of raw doc_type), pd_class_id = reference raw ''ClassRef'', pd_total = total,
          pd_balance = balance, pd_doc_status = or_else (json_text raw ''TxnStatus'') (json_text raw ''POStatus''),
          pd_po_number = po_number raw, pd_private_note = json_text raw ''PrivateNote'',
          pd_customer_memo = nested_text raw ''CustomerMemo'' ''value'', pd_currency = reference raw ''CurrencyRef'',
          pd_is_deleted = mi_is_deleted entity, pd_lines = ls, pd_links = parse_links D R raw\<rparr>))))"

definition parse_any :: "dec_ops \<Rightarrow> readers \<Rightarrow> mirrored \<Rightarrow> project_error + parsed_entity option" where
  "parse_any D R entity =
     (let raw = mi_raw_json entity; e = mi_entity_type entity in
      if e = Customer then map_sum id (Some \<circ> PContact) (parse_contact D R raw entity CustomerContact)
      else if e = Vendor then map_sum id (Some \<circ> PContact) (parse_contact D R raw entity VendorContact)
      else if e = Item then map_sum id (Some \<circ> PItem) (parse_item R raw entity)
      else if e = Account then map_sum id (Some \<circ> PAccount) (parse_account D R raw entity)
      else if e = Class then map_sum id (Some \<circ> PClass) (parse_class raw entity)
      else case as_document e of
          Some doc_type \<Rightarrow> map_sum id (Some \<circ> PDocument) (parse_document D R raw entity doc_type)
        | None \<Rightarrow> Inr None)"

definition parse :: "dec_ops \<Rightarrow> readers \<Rightarrow> mirrored \<Rightarrow> projection" where
  "parse D R entity =
     (case parse_any D R entity of
        Inr (Some parsed) \<Rightarrow> Parsed parsed
      | Inr None \<Rightarrow> NotProjected
      | Inl err \<Rightarrow> Quarantine (project_error_str err))"

end
