(* ===== verification/Mirror.thy ===== *)
theory Mirror
  imports Project "HOL-Library.AList" "HOL-Library.List_Lexorder" "HOL-Library.Char_ord" "HOL-Library.Product_Lexorder"
begin

text \<open>
  The replica's tables (\<open>apps/qbo-local/src/store.rs\<close>, \<open>store/index.rs\<close>) as the sync writes them: the
  mirrored payloads, the parsed tables that are a projection of them, cursors, checkpoints and
  quarantine. A table with a primary key that is only written by \<open>INSERT ... ON CONFLICT DO UPDATE\<close> is a
  map; the mirrored payloads, which are also listed, are an association list in \<open>rowid\<close> order. An
  operation that fails is a rolled back transaction and leaves the tables as they were. Times are
  instants, and a payload is stored as the text \<open>serde_json\<close> reads back.
\<close>

section \<open>Tables\<close>

type_synonym entity_id = "realm_id \<times> entity_type \<times> string"

record entity_row =
  er_sync_token :: string
  er_last_updated :: int
  er_is_deleted :: bool
  er_raw_json :: json
  er_mirrored_at :: int

record quarantine_row =
  qr_reason :: string
  qr_raw_json :: json
  qr_quarantined_at :: int

record sync_cursor =
  sc_realm_id :: realm_id
  sc_entity_type :: entity_type
  sc_last_cdc_cursor :: "int option"
  sc_last_full_sweep :: "int option"

record sweep_checkpoint =
  cp_next_start :: nat
  cp_started_at :: int

text \<open>The columns of a document's own row, its lines and links are tables of theirs.\<close>

record document_row =
  dr_document :: parsed_document
  dr_projected_at :: int

record mirror =
  mr_realms :: "realm_id set"
  mr_entities :: "(entity_id \<times> entity_row) list"
  mr_cursors :: "realm_id \<times> entity_type \<Rightarrow> (int option \<times> int option) option"
  mr_checkpoints :: "realm_id \<times> entity_type \<Rightarrow> sweep_checkpoint option"
  mr_quarantine :: "entity_id \<Rightarrow> quarantine_row option"
  mr_contacts :: "realm_id \<times> contact_type \<times> string \<Rightarrow> (parsed_contact \<times> int) option"
  mr_items :: "realm_id \<times> string \<Rightarrow> (parsed_item \<times> int) option"
  mr_accounts :: "realm_id \<times> string \<Rightarrow> (parsed_account \<times> int) option"
  mr_classes :: "realm_id \<times> string \<Rightarrow> (parsed_class \<times> int) option"
  mr_documents :: "realm_id \<times> string \<Rightarrow> document_row option"
  mr_lines :: "realm_id \<times> string \<Rightarrow> parsed_doc_line list"
  mr_links :: "realm_id \<times> string \<Rightarrow> (document_type \<times> parsed_link) list"

text \<open>The row a document's header is: its lines and links are stored apart.\<close>

definition header :: "parsed_document \<Rightarrow> parsed_document" where
  "header d = d\<lparr>pd_lines := [], pd_links := []\<rparr>"

definition entity_key_of :: "realm_id \<Rightarrow> mirrored \<Rightarrow> entity_id" where
  "entity_key_of realm e = (realm, mi_entity_type e, mi_qbo_id e)"

definition entity_at :: "mirror \<Rightarrow> entity_id \<Rightarrow> entity_row option" where
  "entity_at db = map_of (mr_entities db)"

definition row_of :: "mirrored \<Rightarrow> int \<Rightarrow> entity_row" where
  "row_of e now =
     \<lparr>er_sync_token = mi_sync_token e, er_last_updated = mi_last_updated e, er_is_deleted = mi_is_deleted e,
      er_raw_json = mi_raw_json e, er_mirrored_at = now\<rparr>"

definition get_entity :: "mirror \<Rightarrow> realm_id \<Rightarrow> entity_type \<Rightarrow> string \<Rightarrow> mirrored option" where
  "get_entity db realm e i =
     map_option (\<lambda>r. \<lparr>mi_entity_type = e, mi_qbo_id = i, mi_sync_token = er_sync_token r, mi_last_updated = er_last_updated r,
       mi_is_deleted = er_is_deleted r, mi_raw_json = er_raw_json r\<rparr>) (entity_at db (realm, e, i))"

section \<open>Writing\<close>

text \<open>Every table but the lines and links refers to its realm's row.\<close>

definition referencing :: "realm_id \<Rightarrow> mirror \<Rightarrow> 'a \<Rightarrow> string + 'a" where
  "referencing realm db x = (if realm \<in> mr_realms db then Inr x else Inl ''FOREIGN KEY constraint failed'')"

definition upsert_entity :: "realm_id \<Rightarrow> mirrored \<Rightarrow> int \<Rightarrow> mirror \<Rightarrow> string + mirror" where
  "upsert_entity realm e now db =
     referencing realm db (db\<lparr>mr_entities := AList.update (entity_key_of realm e) (row_of e now) (mr_entities db)\<rparr>)"

definition clear_quarantine :: "realm_id \<Rightarrow> mirrored \<Rightarrow> mirror \<Rightarrow> mirror" where
  "clear_quarantine realm e db = db\<lparr>mr_quarantine := (mr_quarantine db)(entity_key_of realm e := None)\<rparr>"

definition quarantine :: "realm_id \<Rightarrow> mirrored \<Rightarrow> string \<Rightarrow> int \<Rightarrow> mirror \<Rightarrow> string + mirror" where
  "quarantine realm e reason now db =
     referencing realm db (db\<lparr>mr_quarantine := (mr_quarantine db)(entity_key_of realm e \<mapsto>
       \<lparr>qr_reason = reason, qr_raw_json = mi_raw_json e, qr_quarantined_at = now\<rparr>)\<rparr>)"

text \<open>The lines are inserted one by one under the key \<open>(realm_id, doc_qbo_id, line_no)\<close>.\<close>

definition insert_doc_line :: "realm_id \<times> string \<Rightarrow> mirror \<Rightarrow> parsed_doc_line \<Rightarrow> string + mirror" where
  "insert_doc_line key db line =
     (if pl_line_no line \<in> pl_line_no ` set (mr_lines db key)
      then Inl ''UNIQUE constraint failed: document_lines.realm_id, document_lines.doc_qbo_id, document_lines.line_no''
      else Inr (db\<lparr>mr_lines := (mr_lines db)(key := mr_lines db key @ [line])\<rparr>))"

definition write_document :: "realm_id \<Rightarrow> parsed_document \<Rightarrow> int \<Rightarrow> mirror \<Rightarrow> string + mirror" where
  "write_document realm d now db =
     (let key = (realm, pd_qbo_id d) in
      and_then (referencing realm db (db\<lparr>mr_documents := (mr_documents db)(key \<mapsto> \<lparr>dr_document = header d, dr_projected_at = now\<rparr>),
          mr_lines := (mr_lines db)(key := []), mr_links := (mr_links db)(key := [])\<rparr>)) (\<lambda>db.
      and_then (try_fold (insert_doc_line key) db (pd_lines d)) (\<lambda>db.
      Inr (db\<lparr>mr_links := (mr_links db)(key := map (Pair (pd_doc_type d)) (pd_links d))\<rparr>))))"

definition write_parsed :: "realm_id \<Rightarrow> parsed_entity \<Rightarrow> int \<Rightarrow> mirror \<Rightarrow> string + mirror" where
  "write_parsed realm parsed now db =
     (case parsed of
        PContact c \<Rightarrow> referencing realm db
          (db\<lparr>mr_contacts := (mr_contacts db)((realm, pc_contact_type c, pc_qbo_id c) \<mapsto> (c, now))\<rparr>)
      | PItem i \<Rightarrow> referencing realm db (db\<lparr>mr_items := (mr_items db)((realm, pi_qbo_id i) \<mapsto> (i, now))\<rparr>)
      | PAccount a \<Rightarrow> referencing realm db (db\<lparr>mr_accounts := (mr_accounts db)((realm, pa_qbo_id a) \<mapsto> (a, now))\<rparr>)
      | PClass c \<Rightarrow> referencing realm db (db\<lparr>mr_classes := (mr_classes db)((realm, ps_qbo_id c) \<mapsto> (c, now))\<rparr>)
      | PDocument d \<Rightarrow> write_document realm d now db)"

section \<open>Applying what was read\<close>

record batch_report =
  ba_mirrored :: nat
  ba_projected :: nat
  ba_not_projected :: nat
  ba_quarantined :: nat
  ba_already_held :: nat

definition empty_batch_report :: batch_report where
  "empty_batch_report = \<lparr>ba_mirrored = 0, ba_projected = 0, ba_not_projected = 0, ba_quarantined = 0, ba_already_held = 0\<rparr>"

definition with_last_known_payload :: "mirror \<Rightarrow> realm_id \<Rightarrow> mirrored \<Rightarrow> mirrored option" where
  "with_last_known_payload db realm e =
     (if \<not> mi_is_deleted e then Some e
      else case entity_at db (entity_key_of realm e) of
          None \<Rightarrow> None
        | Some row \<Rightarrow>
            if Option.bind (json_get (er_raw_json row) ''status'') json_str = Some ''Deleted'' then None
            else Some (e\<lparr>mi_raw_json := er_raw_json row\<rparr>))"

text \<open>What the replica holds is at this version or a later one; a token is compared as a \<open>u64\<close>.\<close>

definition parse_u64 :: "string \<Rightarrow> nat option" where
  "parse_u64 s =
     (let digits = (case s of c # cs \<Rightarrow> if c = CHR ''+'' then cs else s | [] \<Rightarrow> [])
      in if digits \<noteq> [] \<and> list_all is_ascii_digit digits \<and> digits_value 0 digits < 2 ^ 64
         then Some (digits_value 0 digits) else None)"

definition older_token :: "string \<Rightarrow> string \<Rightarrow> bool" where
  "older_token incoming held =
     (case (parse_u64 incoming, parse_u64 held) of (Some a, Some b) \<Rightarrow> a < b | _ \<Rightarrow> False)"

definition holds_this_version_or_newer :: "mirror \<Rightarrow> realm_id \<Rightarrow> mirrored \<Rightarrow> bool" where
  "holds_this_version_or_newer db realm e =
     (case entity_at db (entity_key_of realm e) of
        None \<Rightarrow> False
      | Some row \<Rightarrow>
          er_sync_token row = mi_sync_token e \<and> er_last_updated row = mi_last_updated e \<and> er_is_deleted row = mi_is_deleted e \<or>
          older_token (mi_sync_token e) (er_sync_token row))"

definition project_into :: "dec_ops \<Rightarrow> readers \<Rightarrow> realm_id \<Rightarrow> int \<Rightarrow> mirrored \<Rightarrow> batch_report \<times> mirror \<Rightarrow> string + batch_report \<times> mirror" where
  "project_into D R realm now e = (\<lambda>(report, db).
     case parse D R e of
       Parsed parsed \<Rightarrow>
         and_then (write_parsed realm parsed now db) (\<lambda>db.
         Inr (report\<lparr>ba_projected := ba_projected report + 1\<rparr>, clear_quarantine realm e db))
     | NotProjected \<Rightarrow> Inr (report\<lparr>ba_not_projected := ba_not_projected report + 1\<rparr>, db)
     | Quarantine reason \<Rightarrow>
         and_then (quarantine realm e reason now db) (\<lambda>db.
         Inr (report\<lparr>ba_quarantined := ba_quarantined report + 1\<rparr>, db)))"

definition apply_one :: "dec_ops \<Rightarrow> readers \<Rightarrow> realm_id \<Rightarrow> int \<Rightarrow> batch_report \<times> mirror \<Rightarrow> mirrored \<Rightarrow> string + batch_report \<times> mirror" where
  "apply_one D R realm now = (\<lambda>(report, db) incoming.
     and_then
       (case with_last_known_payload db realm incoming of
          None \<Rightarrow>
            and_then (upsert_entity realm incoming now db) (\<lambda>db.
            Inr (report\<lparr>ba_not_projected := ba_not_projected report + 1\<rparr>, clear_quarantine realm incoming db))
        | Some e \<Rightarrow>
            and_then (upsert_entity realm e now db) (\<lambda>db. project_into D R realm now e (report, db))) (\<lambda>(report, db).
     Inr (report\<lparr>ba_mirrored := ba_mirrored report + 1\<rparr>, db)))"

definition save_cursor :: "sync_cursor \<Rightarrow> mirror \<Rightarrow> string + mirror" where
  "save_cursor c db =
     referencing (sc_realm_id c) db
       (db\<lparr>mr_cursors := (mr_cursors db)((sc_realm_id c, sc_entity_type c) \<mapsto> (sc_last_cdc_cursor c, sc_last_full_sweep c))\<rparr>)"

definition apply_batch ::
  "dec_ops \<Rightarrow> readers \<Rightarrow> realm_id \<Rightarrow> mirrored list \<Rightarrow> sync_cursor option \<Rightarrow> int \<Rightarrow> mirror \<Rightarrow> string + batch_report \<times> mirror" where
  "apply_batch D R realm entities cursor now db =
     and_then (try_fold (apply_one D R realm now) (empty_batch_report, db) entities) (\<lambda>(report, db).
     and_then (case cursor of None \<Rightarrow> Inr db | Some c \<Rightarrow> save_cursor c db) (\<lambda>db.
     Inr (report, db)))"

text \<open>The versions already held are picked out before anything is written.\<close>

definition apply_changes ::
  "dec_ops \<Rightarrow> readers \<Rightarrow> realm_id \<Rightarrow> mirrored list \<Rightarrow> sync_cursor option \<Rightarrow> int \<Rightarrow> mirror \<Rightarrow> string + batch_report \<times> mirror" where
  "apply_changes D R realm entities cursor now db =
     and_then (apply_batch D R realm (filter (\<lambda>e. \<not> holds_this_version_or_newer db realm e) entities) cursor now db) (\<lambda>(report, db').
     Inr (report\<lparr>ba_already_held := length (filter (holds_this_version_or_newer db realm) entities)\<rparr>, db'))"

definition apply_sweep_page ::
  "dec_ops \<Rightarrow> readers \<Rightarrow> realm_id \<Rightarrow> entity_type \<Rightarrow> mirrored list \<Rightarrow> sweep_checkpoint option \<Rightarrow> sync_cursor option \<Rightarrow> int \<Rightarrow>
   mirror \<Rightarrow> string + batch_report \<times> mirror" where
  "apply_sweep_page D R realm entity_type entities checkpoint cursor now db =
     and_then (apply_batch D R realm entities cursor now db) (\<lambda>(report, db).
     and_then
       (case checkpoint of
          Some c \<Rightarrow> referencing realm db (db\<lparr>mr_checkpoints := (mr_checkpoints db)((realm, entity_type) \<mapsto> c)\<rparr>)
        | None \<Rightarrow> Inr (db\<lparr>mr_checkpoints := (mr_checkpoints db)((realm, entity_type) := None)\<rparr>)) (\<lambda>db.
     Inr (report, db)))"

definition load_cursor :: "mirror \<Rightarrow> realm_id \<Rightarrow> entity_type \<Rightarrow> sync_cursor" where
  "load_cursor db realm entity_type =
     (case mr_cursors db (realm, entity_type) of
        None \<Rightarrow> \<lparr>sc_realm_id = realm, sc_entity_type = entity_type, sc_last_cdc_cursor = None, sc_last_full_sweep = None\<rparr>
      | Some (cdc, sweep) \<Rightarrow>
          \<lparr>sc_realm_id = realm, sc_entity_type = entity_type, sc_last_cdc_cursor = cdc, sc_last_full_sweep = sweep\<rparr>)"

definition load_sweep_checkpoint :: "mirror \<Rightarrow> realm_id \<Rightarrow> entity_type \<Rightarrow> sweep_checkpoint option" where
  "load_sweep_checkpoint db realm entity_type = mr_checkpoints db (realm, entity_type)"

section \<open>Rebuilding the projection\<close>

definition entity_of_row :: "entity_id \<times> entity_row \<Rightarrow> mirrored" where
  "entity_of_row = (\<lambda>((realm, e, i), row). \<lparr>mi_entity_type = e, mi_qbo_id = i, mi_sync_token = er_sync_token row,
     mi_last_updated = er_last_updated row, mi_is_deleted = er_is_deleted row, mi_raw_json = er_raw_json row\<rparr>)"

definition all_entities :: "mirror \<Rightarrow> realm_id \<Rightarrow> mirrored list" where
  "all_entities db realm =
     sort_key (\<lambda>e. (entity_as_str (mi_entity_type e), mi_qbo_id e))
       (map entity_of_row (filter (\<lambda>(key, _). fst key = realm) (mr_entities db)))"

definition without_realm :: "realm_id \<Rightarrow> (realm_id \<times> 'k \<Rightarrow> 'v option) \<Rightarrow> realm_id \<times> 'k \<Rightarrow> 'v option" where
  "without_realm realm m = (\<lambda>key. if fst key = realm then None else m key)"

definition clear_projection :: "realm_id \<Rightarrow> mirror \<Rightarrow> mirror" where
  "clear_projection realm db = db\<lparr>
     mr_links := (\<lambda>key. if fst key = realm then [] else mr_links db key),
     mr_lines := (\<lambda>key. if fst key = realm then [] else mr_lines db key),
     mr_documents := without_realm realm (mr_documents db), mr_contacts := without_realm realm (mr_contacts db),
     mr_items := without_realm realm (mr_items db), mr_accounts := without_realm realm (mr_accounts db),
     mr_classes := without_realm realm (mr_classes db), mr_quarantine := without_realm realm (mr_quarantine db)\<rparr>"

record reproject_report =
  re_parsed :: nat
  re_not_projected :: nat
  re_quarantined :: nat

definition empty_reproject_report :: reproject_report where
  "empty_reproject_report = \<lparr>re_parsed = 0, re_not_projected = 0, re_quarantined = 0\<rparr>"

definition reproject_one ::
  "dec_ops \<Rightarrow> readers \<Rightarrow> realm_id \<Rightarrow> int \<Rightarrow> reproject_report \<times> mirror \<Rightarrow> mirrored \<Rightarrow> string + reproject_report \<times> mirror" where
  "reproject_one D R realm now = (\<lambda>(report, db) e.
     case parse D R e of
       Parsed parsed \<Rightarrow> map_sum id (Pair (report\<lparr>re_parsed := re_parsed report + 1\<rparr>)) (write_parsed realm parsed now db)
     | NotProjected \<Rightarrow> Inr (report\<lparr>re_not_projected := re_not_projected report + 1\<rparr>, db)
     | Quarantine reason \<Rightarrow>
         map_sum id (Pair (report\<lparr>re_quarantined := re_quarantined report + 1\<rparr>)) (quarantine realm e reason now db))"

definition reproject_all :: "dec_ops \<Rightarrow> readers \<Rightarrow> realm_id \<Rightarrow> int \<Rightarrow> mirror \<Rightarrow> string + reproject_report \<times> mirror" where
  "reproject_all D R realm now db =
     try_fold (reproject_one D R realm now) (empty_reproject_report, clear_projection realm db) (all_entities db realm)"

definition project_entity :: "dec_ops \<Rightarrow> readers \<Rightarrow> realm_id \<Rightarrow> mirrored \<Rightarrow> int \<Rightarrow> mirror \<Rightarrow> string + projection \<times> mirror" where
  "project_entity D R realm e now db =
     map_sum id (Pair (parse D R e))
       (case parse D R e of
          Parsed parsed \<Rightarrow> map_sum id (clear_quarantine realm e) (write_parsed realm parsed now db)
        | NotProjected \<Rightarrow> Inr db
        | Quarantine reason \<Rightarrow> quarantine realm e reason now db)"

section \<open>The index a sweep compares\<close>

record index_entry =
  ix_qbo_id :: string
  ix_last_updated :: int
  ix_is_deleted :: bool

definition entity_index :: "mirror \<Rightarrow> realm_id \<Rightarrow> entity_type \<Rightarrow> index_entry list" where
  "entity_index db realm entity_type =
     map (\<lambda>((_, _, i), row). \<lparr>ix_qbo_id = i, ix_last_updated = er_last_updated row, ix_is_deleted = er_is_deleted row\<rparr>)
       (filter (\<lambda>((r, e, _), _). r = realm \<and> e = entity_type) (mr_entities db))"

definition quarantine_existing ::
  "realm_id \<Rightarrow> entity_type \<Rightarrow> string \<Rightarrow> string \<Rightarrow> int \<Rightarrow> mirror \<Rightarrow> string + bool \<times> mirror" where
  "quarantine_existing realm entity_type i reason now db =
     (case get_entity db realm entity_type i of
        None \<Rightarrow> Inr (False, db)
      | Some e \<Rightarrow> map_sum id (Pair True) (quarantine realm e reason now db))"

end
