(* ===== verification/Sync.thy ===== *)
theory Sync
  imports Mirror Worker
begin

text \<open>
  Keeping the replica current: the cursor strategy of \<open>sync.rs\<close> and the driver of \<open>driver.rs\<close>, over
  any client and limiter. Both keep a state of their own, so a step takes it along with the tables;
  an error ends the run, and what was committed before it stays. The limiter refills in floating
  point and is the client's as far as the driver goes: it lets a call through or it does not.
\<close>

section \<open>The cursor strategy\<close>

definition CDC_RESPONSE_CAP :: nat where "CDC_RESPONSE_CAP = 1000"

definition CDC_LOOKBACK_DAYS :: int where "CDC_LOOKBACK_DAYS = 30"

definition DEFAULT_CDC_MAX_AGE_DAYS :: int where "DEFAULT_CDC_MAX_AGE_DAYS = 25"

definition DEFAULT_CDC_OVERLAP_MINUTES :: int where "DEFAULT_CDC_OVERLAP_MINUTES = 5"

text \<open>Durations are in seconds, and \<open>num_days\<close> counts whole ones.\<close>

definition whole_days :: "int \<Rightarrow> int" where
  "whole_days d = sgn d * (\<bar>d\<bar> div 86400)"

text \<open>\<open>Iterator::max\<close>.\<close>

definition latest :: "int list \<Rightarrow> int option" where
  "latest ts = (if ts = [] then None else Some (foldr max ts (hd ts)))"

definition cursor_after_read :: "int \<Rightarrow> int option \<Rightarrow> int list \<Rightarrow> int" where
  "cursor_after_read previous server_time seen =
     (case or_else server_time (latest seen) of
        None \<Rightarrow> previous
      | Some anchor \<Rightarrow> max anchor previous)"

datatype sweep_reason = NoCursor | CursorTooOld int | CoverageUnconfirmed | CursorAheadOfServer

datatype sync_strategy = Cdc_from int | Full_sweep_for sweep_reason

definition plan_sync :: "sync_cursor \<Rightarrow> int \<Rightarrow> int \<Rightarrow> bool \<Rightarrow> sync_strategy" where
  "plan_sync cursor now max_age coverage_confirmed =
     (if \<not> coverage_confirmed then Full_sweep_for CoverageUnconfirmed
      else case sc_last_cdc_cursor cursor of
          None \<Rightarrow> Full_sweep_for NoCursor
        | Some changed_since \<Rightarrow>
            if max_age \<le> now - changed_since then Full_sweep_for (CursorTooOld (whole_days (now - changed_since)))
            else Cdc_from changed_since)"

datatype cdc_outcome = Complete | PossiblyTruncated

definition classify_response_with_cap :: "nat \<Rightarrow> nat \<Rightarrow> cdc_outcome" where
  "classify_response_with_cap returned cap = (if cap \<le> returned then PossiblyTruncated else Complete)"

definition CDC_EXCLUDED :: "entity_type list" where
  "CDC_EXCLUDED = [TaxCode, TaxRate]"

definition cdc_coverage_confirmed :: "entity_type \<Rightarrow> bool" where
  "cdc_coverage_confirmed entity_type \<longleftrightarrow> entity_type \<notin> set CDC_EXCLUDED \<and> tier entity_type \<noteq> Peripheral"

definition advance :: "cdc_outcome \<Rightarrow> int \<Rightarrow> sync_cursor \<Rightarrow> sync_cursor" where
  "advance outcome up_to cursor = (if outcome = Complete then cursor\<lparr>sc_last_cdc_cursor := Some up_to\<rparr> else cursor)"

definition record_full_sweep :: "int \<Rightarrow> sync_cursor \<Rightarrow> sync_cursor" where
  "record_full_sweep at_time cursor = cursor\<lparr>sc_last_full_sweep := Some at_time, sc_last_cdc_cursor := Some at_time\<rparr>"

section \<open>The client\<close>

record read_page =
  rg_entities :: "mirrored list"
  rg_server_time :: "int option"

record updated_range =
  ur_from :: int
  ur_to :: int

record 'c client =
  cl_try_acquire :: "int \<Rightarrow> 'c \<Rightarrow> bool \<times> 'c"
  cl_query_page :: "realm_id \<Rightarrow> entity_type \<Rightarrow> updated_range option \<Rightarrow> nat \<Rightarrow> nat \<Rightarrow> 'c \<Rightarrow> (qbo_error + read_page) \<times> 'c"
  cl_cdc_page :: "realm_id \<Rightarrow> entity_type list \<Rightarrow> int \<Rightarrow> 'c \<Rightarrow> (qbo_error + read_page) \<times> 'c"
  cl_fetch :: "realm_id \<Rightarrow> entity_type \<Rightarrow> string \<Rightarrow> 'c \<Rightarrow> (qbo_error + mirrored option) \<times> 'c"

datatype sync_error = SyncQbo qbo_error | SyncStore string | RateBudgetExhausted string

record sync_options =
  so_page_size :: nat
  so_cdc_max_age :: int
  so_cdc_response_cap :: nat
  so_uncovered_sweep_interval :: int
  so_cdc_overlap :: int

definition MAX_PAGE_SIZE :: nat where "MAX_PAGE_SIZE = 1000"

definition DEFAULT_UNCOVERED_SWEEP_HOURS :: int where "DEFAULT_UNCOVERED_SWEEP_HOURS = 1"

definition default_sync_options :: sync_options where
  "default_sync_options =
     \<lparr>so_page_size = MAX_PAGE_SIZE, so_cdc_max_age = DEFAULT_CDC_MAX_AGE_DAYS * 86400, so_cdc_response_cap = CDC_RESPONSE_CAP,
      so_uncovered_sweep_interval = DEFAULT_UNCOVERED_SWEEP_HOURS * 3600, so_cdc_overlap = DEFAULT_CDC_OVERLAP_MINUTES * 60\<rparr>"

datatype sync_path =
    FullSweep sweep_reason nat
  | Cdc int
  | CdcThenBackfill int nat
  | SweepNotDue int

record entity_sync_report =
  es_entity_type :: entity_type
  es_path :: sync_path
  es_mirrored :: nat
  es_projected :: nat
  es_quarantined :: nat
  es_requests :: nat

definition new_report :: "entity_type \<Rightarrow> sync_path \<Rightarrow> entity_sync_report" where
  "new_report entity_type path =
     \<lparr>es_entity_type = entity_type, es_path = path, es_mirrored = 0, es_projected = 0, es_quarantined = 0, es_requests = 0\<rparr>"

definition count_batch :: "batch_report \<Rightarrow> entity_sync_report \<Rightarrow> entity_sync_report" where
  "count_batch applied report =
     report\<lparr>es_mirrored := es_mirrored report + ba_mirrored applied, es_projected := es_projected report + ba_projected applied,
       es_quarantined := es_quarantined report + ba_quarantined applied\<rparr>"

text \<open>What a run needs beside its state: the parser's readers, the client and the options.\<close>

record 'c driver =
  dv_dec :: dec_ops
  dv_readers :: readers
  dv_client :: "'c client"
  dv_options :: sync_options

section \<open>One request\<close>

text \<open>\<open>spend\<close> and the request after it.\<close>

definition spend :: "'c driver \<Rightarrow> realm_id \<Rightarrow> int \<Rightarrow> 'c \<Rightarrow> (sync_error + unit) \<times> 'c" where
  "spend V realm now c =
     (case cl_try_acquire (dv_client V) now c of (granted, c) \<Rightarrow>
       (if granted then Inr () else Inl (RateBudgetExhausted (realm_as_str realm)), c))"

definition fetch_page ::
  "'c driver \<Rightarrow> realm_id \<Rightarrow> entity_type \<Rightarrow> updated_range option \<Rightarrow> nat \<Rightarrow> int \<Rightarrow> 'c \<Rightarrow> (sync_error + read_page) \<times> 'c" where
  "fetch_page V realm entity_type updated start now c =
     (case spend V realm now c of
        (Inl e, c) \<Rightarrow> (Inl e, c)
      | (Inr _, c) \<Rightarrow>
          (case cl_query_page (dv_client V) realm entity_type updated start (so_page_size (dv_options V)) c of
             (answer, c) \<Rightarrow> (map_err SyncQbo answer, c)))"

definition request_counted :: "entity_sync_report \<Rightarrow> entity_sync_report" where
  "request_counted report = report\<lparr>es_requests := es_requests report + 1\<rparr>"

text \<open>A run's outcome, with the client and the tables it leaves.\<close>

type_synonym ('c, 'a) outcome = "(sync_error + 'a) \<times> 'c \<times> mirror"

definition apply_read ::
  "'c driver \<Rightarrow> realm_id \<Rightarrow> mirrored list \<Rightarrow> sync_cursor option \<Rightarrow> int \<Rightarrow> entity_sync_report \<Rightarrow> mirror \<Rightarrow>
   sync_error + entity_sync_report \<times> mirror" where
  "apply_read V realm payloads cursor now report db =
     (case apply_changes (dv_dec V) (dv_readers V) realm payloads cursor now db of
        Inl e \<Rightarrow> Inl (SyncStore e)
      | Inr (applied, db) \<Rightarrow> Inr (count_batch applied report, db))"

section \<open>The full sweep\<close>

text \<open>The loop over pages, from position \<open>start\<close>; a client that never answers with a short page keeps it going.\<close>

partial_function (option) sweep_loop ::
  "'c driver \<Rightarrow> realm_id \<Rightarrow> entity_type \<Rightarrow> sweep_reason \<Rightarrow> int \<Rightarrow> int option \<Rightarrow> nat \<Rightarrow> nat \<Rightarrow> entity_sync_report \<Rightarrow> 'c \<Rightarrow> mirror \<Rightarrow>
   ('c, entity_sync_report) outcome option" where
  "sweep_loop V realm entity_type reason now started_at start pages report c db =
     (case fetch_page V realm entity_type None start now c of
        (Inl e, c) \<Rightarrow> Some (Inl e, c, db)
      | (Inr page, c) \<Rightarrow>
          let report = request_counted report;
              began = unwrap_or started_at (unwrap_or (rg_server_time page) now);
              returned = length (rg_entities page);
              final_page = returned < so_page_size (dv_options V);
              cursor = (if final_page
                then Some \<lparr>sc_realm_id = realm, sc_entity_type = entity_type, sc_last_cdc_cursor = Some began, sc_last_full_sweep = Some now\<rparr>
                else None);
              checkpoint = (if final_page then None else Some \<lparr>cp_next_start = start + returned, cp_started_at = began\<rparr>)
          in case apply_sweep_page (dv_dec V) (dv_readers V) realm entity_type (rg_entities page) checkpoint cursor now db of
               Inl e \<Rightarrow> Some (Inl (SyncStore e), c, db)
             | Inr (applied, db) \<Rightarrow>
                 if final_page
                 then Some (Inr ((count_batch applied report)\<lparr>es_path := FullSweep reason (pages + 1)\<rparr>), c, db)
                 else sweep_loop V realm entity_type reason now (Some began) (start + returned) (pages + 1) (count_batch applied report) c db)"

definition full_sweep ::
  "'c driver \<Rightarrow> realm_id \<Rightarrow> entity_type \<Rightarrow> sweep_reason \<Rightarrow> int \<Rightarrow> 'c \<Rightarrow> mirror \<Rightarrow> ('c, entity_sync_report) outcome option" where
  "full_sweep V realm entity_type reason now c db =
     (let resumed = (case load_sweep_checkpoint db realm entity_type of
            Some checkpoint \<Rightarrow> if now - cp_started_at checkpoint < so_cdc_max_age (dv_options V) then Some checkpoint else None
          | None \<Rightarrow> None);
          start = (case resumed of None \<Rightarrow> 0 | Some checkpoint \<Rightarrow> cp_next_start checkpoint - so_page_size (dv_options V))
      in sweep_loop V realm entity_type reason now (map_option cp_started_at resumed) start 0
           (new_report entity_type (FullSweep reason 0)) c db)"

section \<open>The incremental poll\<close>

text \<open>The window of a truncated poll is read again through the query endpoint, page by page.\<close>

partial_function (option) backfill_loop ::
  "'c driver \<Rightarrow> realm_id \<Rightarrow> entity_type \<Rightarrow> int \<Rightarrow> updated_range \<Rightarrow> int option \<Rightarrow> int option \<Rightarrow> int \<Rightarrow> int option \<Rightarrow> nat \<Rightarrow> nat \<Rightarrow>
   entity_sync_report \<Rightarrow> 'c \<Rightarrow> mirror \<Rightarrow> ('c, entity_sync_report) outcome option" where
  "backfill_loop V realm entity_type changed_since window server_time last_full_sweep now newest_read start pages report c db =
     (case fetch_page V realm entity_type (Some window) start now c of
        (Inl e, c) \<Rightarrow> Some (Inl e, c, db)
      | (Inr page, c) \<Rightarrow>
          let report = request_counted report;
              returned = length (rg_entities page);
              final_page = returned < so_page_size (dv_options V);
              newest_read = latest (map mi_last_updated (rg_entities page) @ (case newest_read of None \<Rightarrow> [] | Some t \<Rightarrow> [t]));
              cursor = (if final_page
                then Some \<lparr>sc_realm_id = realm, sc_entity_type = entity_type,
                       sc_last_cdc_cursor = Some (cursor_after_read changed_since server_time (case newest_read of None \<Rightarrow> [] | Some t \<Rightarrow> [t])),
                       sc_last_full_sweep = last_full_sweep\<rparr>
                else None)
          in case apply_read V realm (rg_entities page) cursor now report db of
               Inl e \<Rightarrow> Some (Inl e, c, db)
             | Inr (report, db) \<Rightarrow>
                 if final_page then Some (Inr (report\<lparr>es_path := CdcThenBackfill changed_since (pages + 1)\<rparr>), c, db)
                 else backfill_loop V realm entity_type changed_since window server_time last_full_sweep now newest_read
                        (start + returned) (pages + 1) report c db)"

definition backfill ::
  "'c driver \<Rightarrow> realm_id \<Rightarrow> entity_type \<Rightarrow> int \<Rightarrow> int \<Rightarrow> int option \<Rightarrow> int \<Rightarrow> entity_sync_report \<Rightarrow> 'c \<Rightarrow> mirror \<Rightarrow>
   ('c, entity_sync_report) outcome option" where
  "backfill V realm entity_type cursor reach_back server_time now report c db =
     backfill_loop V realm entity_type cursor \<lparr>ur_from = reach_back, ur_to = unwrap_or server_time now\<rparr> server_time
       (sc_last_full_sweep (load_cursor db realm entity_type)) now None 0 0 report c db"

declare sweep_loop.simps [code] backfill_loop.simps [code]

definition poll ::
  "'c driver \<Rightarrow> realm_id \<Rightarrow> entity_type \<Rightarrow> sync_cursor \<Rightarrow> int \<Rightarrow> int \<Rightarrow> 'c \<Rightarrow> mirror \<Rightarrow> ('c, entity_sync_report) outcome option" where
  "poll V realm entity_type cursor changed_since now c db =
     (case spend V realm now c of
        (Inl e, c) \<Rightarrow> Some (Inl e, c, db)
      | (Inr _, c) \<Rightarrow>
          let report = request_counted (new_report entity_type (Cdc changed_since));
              reach_back = changed_since - so_cdc_overlap (dv_options V)
          in case cl_cdc_page (dv_client V) realm [entity_type] reach_back c of
               (Inl e, c) \<Rightarrow> Some (Inl (SyncQbo e), c, db)
             | (Inr changed, c) \<Rightarrow>
                 if (case rg_server_time changed of Some t \<Rightarrow> t < changed_since | None \<Rightarrow> False)
                 then map_option (\<lambda>(r, rest). (map_sum id (\<lambda>swept. swept\<lparr>es_requests := es_requests swept + es_requests report\<rparr>) r, rest))
                        (full_sweep V realm entity_type CursorAheadOfServer now c db)
                 else if classify_response_with_cap (length (rg_entities changed)) (so_cdc_response_cap (dv_options V)) = Complete
                 then
                   let up_to = cursor_after_read changed_since (rg_server_time changed) (map mi_last_updated (rg_entities changed));
                       advanced = advance Complete up_to cursor
                   in case apply_read V realm (rg_entities changed) (Some advanced) now report db of
                        Inl e \<Rightarrow> Some (Inl e, c, db)
                      | Inr (report, db) \<Rightarrow> Some (Inr report, c, db)
                 else backfill V realm entity_type changed_since reach_back (rg_server_time changed) now report c db)"

definition sync_entity_type ::
  "'c driver \<Rightarrow> realm_id \<Rightarrow> entity_type \<Rightarrow> int \<Rightarrow> 'c \<Rightarrow> mirror \<Rightarrow> ('c, entity_sync_report) outcome option" where
  "sync_entity_type V realm entity_type now c db =
     (let cursor = load_cursor db realm entity_type;
          coverage_confirmed = cdc_coverage_confirmed entity_type;
          not_due = (case sc_last_full_sweep cursor of
              Some last_full_sweep \<Rightarrow>
                \<not> coverage_confirmed \<and> now - last_full_sweep < so_uncovered_sweep_interval (dv_options V) \<and>
                load_sweep_checkpoint db realm entity_type = None
            | None \<Rightarrow> False)
      in if not_due
         then Some (Inr (new_report entity_type (SweepNotDue (the (sc_last_full_sweep cursor)))), c, db)
         else case plan_sync cursor now (so_cdc_max_age (dv_options V)) coverage_confirmed of
             Full_sweep_for reason \<Rightarrow> full_sweep V realm entity_type reason now c db
           | Cdc_from changed_since \<Rightarrow> poll V realm entity_type cursor changed_since now c db)"

text \<open>\<open>sync_realm\<close>: masters before documents; the first error ends it.\<close>

definition tier_rank :: "sync_tier \<Rightarrow> nat" where
  "tier_rank t = (case t of Masters \<Rightarrow> 0 | Documents \<Rightarrow> 1 | Peripheral \<Rightarrow> 2)"

fun sync_types ::
  "'c driver \<Rightarrow> realm_id \<Rightarrow> entity_type list \<Rightarrow> int \<Rightarrow> 'c \<Rightarrow> mirror \<Rightarrow> ('c, entity_sync_report list) outcome option" where
  "sync_types V realm [] now c db = Some (Inr [], c, db)"
| "sync_types V realm (entity_type # rest) now c db =
     Option.bind (sync_entity_type V realm entity_type now c db) (\<lambda>(r, c, db).
     case r of
       Inl e \<Rightarrow> Some (Inl e, c, db)
     | Inr report \<Rightarrow>
         map_option (\<lambda>(r, c, db). (map_sum id (Cons report) r, c, db)) (sync_types V realm rest now c db))"

definition sync_realm ::
  "'c driver \<Rightarrow> realm_id \<Rightarrow> entity_type list \<Rightarrow> int \<Rightarrow> 'c \<Rightarrow> mirror \<Rightarrow> ('c, entity_sync_report list) outcome option" where
  "sync_realm V realm entity_types now c db = sync_types V realm (sort_key (tier_rank \<circ> tier) entity_types) now c db"

definition report_mirrored :: "entity_sync_report list \<Rightarrow> nat" where
  "report_mirrored reports = sum_list (map es_mirrored reports)"

definition report_quarantined :: "entity_sync_report list \<Rightarrow> nat" where
  "report_quarantined reports = sum_list (map es_quarantined reports)"

definition report_requests :: "entity_sync_report list \<Rightarrow> nat" where
  "report_requests reports = sum_list (map es_requests reports)"

definition report_changed :: "entity_sync_report list \<Rightarrow> nat" where
  "report_changed reports =
     sum_list (map es_mirrored (filter (\<lambda>r. case es_path r of FullSweep _ _ \<Rightarrow> False | _ \<Rightarrow> True) reports))"

end
