(* ===== verification/Reconcile.thy ===== *)
theory Reconcile
  imports Sync
begin

text \<open>
  Checking the replica against the service itself: the driver's reconciliation
  (\<open>driver/reconcile.rs\<close>), which reads the live payloads again, and the sweep over the service's index
  (\<open>reconcile.rs\<close>). Both heal what is missing or stale and quarantine what only the replica has.
  Their maps are association lists, and what is read from them is sorted. \<open>stamp\<close> is \<open>to_rfc3339\<close>,
  which only words a quarantine's reason.
\<close>

section \<open>Lines without a document\<close>

definition orphaned_lines :: "mirror \<Rightarrow> realm_id \<Rightarrow> (string \<times> i64) set" where
  "orphaned_lines db realm =
     {(i, n). mr_documents db (realm, i) = None \<and> n \<in> pl_line_no ` set (mr_lines db (realm, i))}"

definition orphaned_line_count :: "mirror \<Rightarrow> realm_id \<Rightarrow> nat" where
  "orphaned_line_count db realm = card (orphaned_lines db realm)"

section \<open>The driver's reconciliation\<close>

datatype discrepancy =
    Missing string
  | Stale string int int
  | Extra string

record reconcile_report =
  rr_entity_type :: entity_type
  rr_remote :: nat
  rr_local :: nat
  rr_discrepancies :: "discrepancy list"
  rr_healed :: nat
  rr_quarantined_extra :: nat
  rr_skipped_recent :: nat
  rr_requests :: nat

definition reconcile_is_clean :: "reconcile_report \<Rightarrow> bool" where
  "reconcile_is_clean report \<longleftrightarrow> rr_discrepancies report = []"

definition extend_live :: "mirrored list \<Rightarrow> (string \<times> mirrored) list \<Rightarrow> (string \<times> mirrored) list" where
  "extend_live page remote =
     foldl (\<lambda>remote p. AList.update (mi_qbo_id p) p remote) remote (filter (\<lambda>p. \<not> mi_is_deleted p) page)"

text \<open>The loop over pages: the live records by id, and the requests made.\<close>

partial_function (option) read_live ::
  "'c driver \<Rightarrow> realm_id \<Rightarrow> entity_type \<Rightarrow> int \<Rightarrow> nat \<Rightarrow> (string \<times> mirrored) list \<Rightarrow> nat \<Rightarrow> 'c \<Rightarrow>
   ((sync_error + (string \<times> mirrored) list \<times> nat) \<times> 'c) option" where
  "read_live V realm entity_type now start remote requests c =
     (case fetch_page V realm entity_type None start now c of
        (Inl e, c) \<Rightarrow> Some (Inl e, c)
      | (Inr page, c) \<Rightarrow>
          let returned = length (rg_entities page);
              remote = extend_live (rg_entities page) remote
          in if returned < so_page_size (dv_options V) then Some (Inr (remote, requests + 1), c)
             else read_live V realm entity_type now (start + returned) remote (requests + 1) c)"

declare read_live.simps [code]

text \<open>The id is the key of the replica's rows of one company and type.\<close>

definition local_by_id :: "index_entry list \<Rightarrow> string \<Rightarrow> index_entry option" where
  "local_by_id rows = map_of (map (\<lambda>row. (ix_qbo_id row, row)) rows)"

definition compare_row :: "(string \<Rightarrow> index_entry option) \<Rightarrow> mirrored \<Rightarrow> discrepancy option" where
  "compare_row rows payload =
     (let i = mi_qbo_id payload in
      case rows i of
        None \<Rightarrow> Some (Missing i)
      | Some row \<Rightarrow>
          if ix_is_deleted row then Some (Missing i)
          else if ix_last_updated row < mi_last_updated payload then Some (Stale i (ix_last_updated row) (mi_last_updated payload))
          else None)"

text \<open>The payloads in the order of their ids.\<close>

definition by_id :: "(string \<times> mirrored) list \<Rightarrow> mirrored list" where
  "by_id remote = map (\<lambda>i. the (map_of remote i)) (sort (map fst remote))"

definition quarantine_reason :: "(int \<Rightarrow> string) \<Rightarrow> int \<Rightarrow> string" where
  "quarantine_reason stamp now = ''reconcile '' @ stamp now @ '': live locally, absent from QBO''"

text \<open>Each quarantine is a statement of its own: what was set aside before an error stays so.\<close>

fun quarantine_extras ::
  "realm_id \<Rightarrow> entity_type \<Rightarrow> string \<Rightarrow> int \<Rightarrow> index_entry list \<Rightarrow> discrepancy list \<times> nat \<times> nat \<Rightarrow> mirror \<Rightarrow>
   (string + discrepancy list \<times> nat \<times> nat) \<times> mirror" where
  "quarantine_extras realm entity_type reason now [] acc db = (Inr acc, db)"
| "quarantine_extras realm entity_type reason now (row # rows) (found, quarantined, skipped) db =
     (if now \<le> ix_last_updated row
      then quarantine_extras realm entity_type reason now rows (found, quarantined, skipped + 1) db
      else
        case get_entity db realm entity_type (ix_qbo_id row) of
          None \<Rightarrow> quarantine_extras realm entity_type reason now rows (found @ [Extra (ix_qbo_id row)], quarantined, skipped) db
        | Some e \<Rightarrow>
            (case quarantine realm e reason now db of
               Inl err \<Rightarrow> (Inl err, db)
             | Inr db \<Rightarrow>
                 quarantine_extras realm entity_type reason now rows (found @ [Extra (ix_qbo_id row)], quarantined + 1, skipped) db))"

definition reconcile_entity_type ::
  "'c driver \<Rightarrow> (int \<Rightarrow> string) \<Rightarrow> realm_id \<Rightarrow> entity_type \<Rightarrow> int \<Rightarrow> 'c \<Rightarrow> mirror \<Rightarrow> ('c, reconcile_report) outcome option" where
  "reconcile_entity_type V stamp realm entity_type now c db =
     Option.bind (read_live V realm entity_type now 0 [] 0 c) (\<lambda>(read, c).
     case read of
       Inl e \<Rightarrow> Some (Inl e, c, db)
     | Inr (remote, requests) \<Rightarrow>
         let local_rows = entity_index db realm entity_type;
             judged = map (\<lambda>p. (p, compare_row (local_by_id local_rows) p)) (by_id remote);
             discrepancies = List.map_filter snd judged;
             heal = map fst (filter (\<lambda>(_, d). d \<noteq> None) judged);
             scratch = new_report entity_type (FullSweep NoCursor 0);
             extras = sort_key ix_qbo_id (filter (\<lambda>row. \<not> ix_is_deleted row \<and> ix_qbo_id row \<notin> fst ` set remote) local_rows)
         in (case (if heal = [] then Inr (scratch, db) else apply_read V realm heal None now scratch db) of
               Inl e \<Rightarrow> Some (Inl e, c, db)
             | Inr (_, db) \<Rightarrow>
                 (case quarantine_extras realm entity_type (quarantine_reason stamp now) now extras (discrepancies, 0, 0) db of
                    (Inl e, db) \<Rightarrow> Some (Inl (SyncStore e), c, db)
                  | (Inr (found, quarantined, skipped), db) \<Rightarrow>
                      Some (Inr \<lparr>rr_entity_type = entity_type, rr_remote = length remote,
                          rr_local = length (filter (\<lambda>row. \<not> ix_is_deleted row) local_rows), rr_discrepancies = found,
                          rr_healed = length heal, rr_quarantined_extra = quarantined, rr_skipped_recent = skipped,
                          rr_requests = requests\<rparr>, c, db))))"

fun reconcile_types ::
  "'c driver \<Rightarrow> (int \<Rightarrow> string) \<Rightarrow> realm_id \<Rightarrow> entity_type list \<Rightarrow> int \<Rightarrow> 'c \<Rightarrow> mirror \<Rightarrow> ('c, reconcile_report list) outcome option" where
  "reconcile_types V stamp realm [] now c db = Some (Inr [], c, db)"
| "reconcile_types V stamp realm (entity_type # rest) now c db =
     Option.bind (reconcile_entity_type V stamp realm entity_type now c db) (\<lambda>(r, c, db).
     case r of
       Inl e \<Rightarrow> Some (Inl e, c, db)
     | Inr report \<Rightarrow> map_option (\<lambda>(r, c, db). (map_sum id (Cons report) r, c, db)) (reconcile_types V stamp realm rest now c db))"

definition reconcile_realm ::
  "'c driver \<Rightarrow> (int \<Rightarrow> string) \<Rightarrow> realm_id \<Rightarrow> entity_type list \<Rightarrow> int \<Rightarrow> 'c \<Rightarrow> mirror \<Rightarrow>
   ('c, reconcile_report list \<times> nat) outcome option" where
  "reconcile_realm V stamp realm entity_types now c db =
     map_option (\<lambda>(r, c, db). (map_sum id (\<lambda>reports. (reports, orphaned_line_count db realm)) r, c, db))
       (reconcile_types V stamp realm (sort_key (tier_rank \<circ> tier) entity_types) now c db)"


section \<open>The sweep over the index\<close>

text \<open>\<open>QboClient::index\<close> by its default: the query's page, projected.\<close>

definition index_of_payload :: "mirrored \<Rightarrow> index_entry" where
  "index_of_payload p = \<lparr>ix_qbo_id = mi_qbo_id p, ix_last_updated = mi_last_updated p, ix_is_deleted = mi_is_deleted p\<rparr>"

definition client_index :: "'c client \<Rightarrow> realm_id \<Rightarrow> entity_type \<Rightarrow> nat \<Rightarrow> nat \<Rightarrow> 'c \<Rightarrow> (qbo_error + index_entry list) \<times> 'c" where
  "client_index client realm e start max_results c =
     (case cl_query_page client realm e None start max_results c of
        (answer, c) \<Rightarrow> (map_sum id (map index_of_payload \<circ> rg_entities) answer, c))"

definition HEAL_BATCH_SIZE :: nat where "HEAL_BATCH_SIZE = 500"

datatype reconcile_error = ReconcileQbo qbo_error | ReconcileStore string | ReconcileBudgetExhausted string

record sweep_report =
  sw_entity_type :: entity_type
  sw_checked_remote :: nat
  sw_checked_local :: nat
  sw_missing :: "string list"
  sw_stale :: "string list"
  sw_extra :: "string list"
  sw_healed :: nat
  sw_quarantined :: nat
  sw_requests :: nat

definition sweep_is_clean :: "sweep_report \<Rightarrow> bool" where
  "sweep_is_clean report \<longleftrightarrow> sw_missing report = [] \<and> sw_stale report = [] \<and> sw_extra report = []"

definition sweep_spend :: "'c client \<Rightarrow> realm_id \<Rightarrow> int \<Rightarrow> 'c \<Rightarrow> (reconcile_error + unit) \<times> 'c" where
  "sweep_spend client realm now c =
     (case cl_try_acquire client now c of (granted, c) \<Rightarrow>
       (if granted then Inr () else Inl (ReconcileBudgetExhausted (realm_as_str realm)), c))"

type_synonym index = "(string \<times> index_entry) list"

partial_function (option) pull_index ::
  "'c client \<Rightarrow> nat \<Rightarrow> realm_id \<Rightarrow> entity_type \<Rightarrow> int \<Rightarrow> nat \<Rightarrow> index \<Rightarrow> nat \<Rightarrow> 'c \<Rightarrow> ((reconcile_error + index \<times> nat) \<times> 'c) option" where
  "pull_index client page_size realm entity_type now start remote requests c =
     (case sweep_spend client realm now c of
        (Inl e, c) \<Rightarrow> Some (Inl e, c)
      | (Inr _, c) \<Rightarrow>
          (case client_index client realm entity_type start page_size c of
             (Inl e, c) \<Rightarrow> Some (Inl (ReconcileQbo e), c)
           | (Inr page, c) \<Rightarrow>
               let remote = foldl (\<lambda>remote entry. AList.update (ix_qbo_id entry) entry remote) remote page
               in if length page < page_size then Some (Inr (remote, requests + 1), c)
                  else pull_index client page_size realm entity_type now (start + length page) remote (requests + 1) c))"

declare pull_index.simps [code]

definition diff_indexes :: "index \<Rightarrow> index \<Rightarrow> sweep_report \<Rightarrow> sweep_report" where
  "diff_indexes remote local report =
     report\<lparr>
       sw_missing := sort (sw_missing report @ map fst (filter (\<lambda>(i, r). map_of local i = None \<and> \<not> ix_is_deleted r) remote)),
       sw_stale := sort (sw_stale report @ map fst (filter (\<lambda>(i, r). case map_of local i of
           None \<Rightarrow> False
         | Some l \<Rightarrow> ix_last_updated l < ix_last_updated r \<or> ix_is_deleted r \<noteq> ix_is_deleted l) remote)),
       sw_extra := sort (sw_extra report @ map fst (filter (\<lambda>(i, l). \<not> ix_is_deleted l \<and> map_of remote i = None) local))\<rparr>"

definition flush ::
  "dec_ops \<Rightarrow> readers \<Rightarrow> realm_id \<Rightarrow> mirrored list \<Rightarrow> int \<Rightarrow> mirror \<Rightarrow> reconcile_error + nat \<times> mirror" where
  "flush D R realm batch now db =
     (if batch = [] then Inr (0, db)
      else case apply_batch D R realm batch None now db of
          Inl e \<Rightarrow> Inl (ReconcileStore e)
        | Inr (applied, db) \<Rightarrow> Inr (ba_mirrored applied, db))"

text \<open>What is fetched of an id: the record, or a tombstone of what the replica holds.\<close>

definition healed_record :: "mirror \<Rightarrow> realm_id \<Rightarrow> entity_type \<Rightarrow> int \<Rightarrow> string \<Rightarrow> mirrored option \<Rightarrow> mirrored list" where
  "healed_record db realm entity_type now i fetched =
     (case fetched of
        Some payload \<Rightarrow> [payload]
      | None \<Rightarrow>
          (case get_entity db realm entity_type i of
             Some existing \<Rightarrow>
               [\<lparr>mi_entity_type = entity_type, mi_qbo_id = i, mi_sync_token = mi_sync_token existing, mi_last_updated = now,
                 mi_is_deleted = True, mi_raw_json = mi_raw_json existing\<rparr>]
           | None \<Rightarrow> []))"

fun heal ::
  "'c driver \<Rightarrow> realm_id \<Rightarrow> entity_type \<Rightarrow> int \<Rightarrow> string list \<Rightarrow> mirrored list \<Rightarrow> sweep_report \<Rightarrow> 'c \<Rightarrow> mirror \<Rightarrow>
   (reconcile_error + sweep_report) \<times> 'c \<times> mirror" where
  "heal V realm entity_type now [] batch report c db =
     (case flush (dv_dec V) (dv_readers V) realm batch now db of
        Inl e \<Rightarrow> (Inl e, c, db)
      | Inr (n, db) \<Rightarrow> (Inr (report\<lparr>sw_healed := sw_healed report + n\<rparr>), c, db))"
| "heal V realm entity_type now (i # rest) batch report c db =
     (case sweep_spend (dv_client V) realm now c of
        (Inl e, c) \<Rightarrow> (Inl e, c, db)
      | (Inr _, c) \<Rightarrow>
          (case cl_fetch (dv_client V) realm entity_type i c of
             (Inl e, c) \<Rightarrow> (Inl (ReconcileQbo e), c, db)
           | (Inr fetched, c) \<Rightarrow>
               let report = report\<lparr>sw_requests := sw_requests report + 1\<rparr>;
                   batch = batch @ healed_record db realm entity_type now i fetched
               in if HEAL_BATCH_SIZE \<le> length batch
                  then case flush (dv_dec V) (dv_readers V) realm batch now db of
                      Inl e \<Rightarrow> (Inl e, c, db)
                    | Inr (n, db) \<Rightarrow>
                        heal V realm entity_type now rest [] (report\<lparr>sw_healed := sw_healed report + n\<rparr>) c db
                  else heal V realm entity_type now rest batch report c db))"

fun quarantine_extra ::
  "realm_id \<Rightarrow> entity_type \<Rightarrow> string \<Rightarrow> int \<Rightarrow> string list \<Rightarrow> nat \<Rightarrow> mirror \<Rightarrow> (string + nat) \<times> mirror" where
  "quarantine_extra realm entity_type reason now [] quarantined db = (Inr quarantined, db)"
| "quarantine_extra realm entity_type reason now (i # rest) quarantined db =
     (case quarantine_existing realm entity_type i reason now db of
        Inl e \<Rightarrow> (Inl e, db)
      | Inr (set_aside, db) \<Rightarrow>
          quarantine_extra realm entity_type reason now rest (if set_aside then quarantined + 1 else quarantined) db)"

definition new_sweep_report :: "entity_type \<Rightarrow> sweep_report" where
  "new_sweep_report entity_type =
     \<lparr>sw_entity_type = entity_type, sw_checked_remote = 0, sw_checked_local = 0, sw_missing = [], sw_stale = [], sw_extra = [],
      sw_healed = 0, sw_quarantined = 0, sw_requests = 0\<rparr>"

definition sweep_entity_type ::
  "'c driver \<Rightarrow> (int \<Rightarrow> string) \<Rightarrow> realm_id \<Rightarrow> entity_type \<Rightarrow> int \<Rightarrow> 'c \<Rightarrow> mirror \<Rightarrow>
   ((reconcile_error + sweep_report) \<times> 'c \<times> mirror) option" where
  "sweep_entity_type V stamp realm entity_type now c db =
     Option.bind (pull_index (dv_client V) (so_page_size (dv_options V)) realm entity_type now 0 [] 0 c) (\<lambda>(read, c).
     case read of
       Inl e \<Rightarrow> Some (Inl e, c, db)
     | Inr (remote, requests) \<Rightarrow>
         let local = map (\<lambda>entry. (ix_qbo_id entry, entry)) (entity_index db realm entity_type);
             report = diff_indexes remote local ((new_sweep_report entity_type)\<lparr>sw_checked_remote := length remote,
               sw_checked_local := length local, sw_requests := requests\<rparr>);
             to_heal = sort (sw_missing report @ sw_stale report)
         in (case heal V realm entity_type now to_heal [] report c db of
               (Inl e, c, db) \<Rightarrow> Some (Inl e, c, db)
             | (Inr report, c, db) \<Rightarrow>
                 (case quarantine_extra realm entity_type (''not in QBO index at '' @ stamp now) now (sw_extra report) 0 db of
                    (Inl e, db) \<Rightarrow> Some (Inl (ReconcileStore e), c, db)
                  | (Inr n, db) \<Rightarrow> Some (Inr (report\<lparr>sw_quarantined := sw_quarantined report + n\<rparr>), c, db))))"

fun sweep_types ::
  "'c driver \<Rightarrow> (int \<Rightarrow> string) \<Rightarrow> realm_id \<Rightarrow> entity_type list \<Rightarrow> int \<Rightarrow> 'c \<Rightarrow> mirror \<Rightarrow>
   ((reconcile_error + sweep_report list) \<times> 'c \<times> mirror) option" where
  "sweep_types V stamp realm [] now c db = Some (Inr [], c, db)"
| "sweep_types V stamp realm (entity_type # rest) now c db =
     Option.bind (sweep_entity_type V stamp realm entity_type now c db) (\<lambda>(r, c, db).
     case r of
       Inl e \<Rightarrow> Some (Inl e, c, db)
     | Inr report \<Rightarrow> map_option (\<lambda>(r, c, db). (map_sum id (Cons report) r, c, db)) (sweep_types V stamp realm rest now c db))"

definition sweep_realm ::
  "'c driver \<Rightarrow> (int \<Rightarrow> string) \<Rightarrow> realm_id \<Rightarrow> entity_type list \<Rightarrow> int \<Rightarrow> 'c \<Rightarrow> mirror \<Rightarrow>
   ((reconcile_error + sweep_report list \<times> (string \<times> i64) set) \<times> 'c \<times> mirror) option" where
  "sweep_realm V stamp realm entity_types now c db =
     map_option (\<lambda>(r, c, db). (map_sum id (\<lambda>reports. (reports, orphaned_lines db realm)) r, c, db))
       (sweep_types V stamp realm entity_types now c db)"


end
