(* ===== verification/Qbo_Double.thy ===== *)
theory Qbo_Double
  imports Sync
begin

text \<open>
  The in-memory QuickBooks of \<open>client.rs\<close> (\<open>MockQbo\<close>): what the code itself says of the service it talks
  to. Its maps are association lists; what it answers is sorted, so their order does not show.
  Its counters of calls are left out, as nothing reads them but tests.
\<close>

section \<open>State\<close>

type_synonym record_key = "string \<times> entity_type \<times> string"

record mock =
  mk_entities :: "(record_key \<times> mirrored) list"
  mk_request_log :: "((string \<times> uuid) \<times> mirrored) list"
  mk_next_id :: nat
  mk_clock :: int
  mk_scripted_failures :: "qbo_error list"
  mk_cdc_cap :: nat

definition new_mock :: "int \<Rightarrow> mock" where
  "new_mock clock =
     \<lparr>mk_entities = [], mk_request_log = [], mk_next_id = 1, mk_clock = clock, mk_scripted_failures = [], mk_cdc_cap = CDC_RESPONSE_CAP\<rparr>"

definition set_cdc_cap :: "nat \<Rightarrow> mock \<Rightarrow> mock" where
  "set_cdc_cap cap m = m\<lparr>mk_cdc_cap := cap\<rparr>"

definition fail_next :: "qbo_error \<Rightarrow> mock \<Rightarrow> mock" where
  "fail_next e m = m\<lparr>mk_scripted_failures := mk_scripted_failures m @ [e]\<rparr>"

definition advance_to :: "int \<Rightarrow> mock \<Rightarrow> mock" where
  "advance_to t m = m\<lparr>mk_clock := t\<rparr>"

fun take_failure :: "mock \<Rightarrow> qbo_error option \<times> mock" where
  "take_failure m =
     (case mk_scripted_failures m of [] \<Rightarrow> (None, m) | e # rest \<Rightarrow> (Some e, m\<lparr>mk_scripted_failures := rest\<rparr>))"

definition allocate_id :: "mock \<Rightarrow> string \<times> mock" where
  "allocate_id m = (show_nat (mk_next_id m), m\<lparr>mk_next_id := mk_next_id m + 1\<rparr>)"

definition seed_entity :: "realm_id \<Rightarrow> mirrored \<Rightarrow> mock \<Rightarrow> mock" where
  "seed_entity realm e m = m\<lparr>mk_entities := AList.update (realm_as_str realm, mi_entity_type e, mi_qbo_id e) e (mk_entities m)\<rparr>"

definition get_record :: "mock \<Rightarrow> realm_id \<Rightarrow> entity_type \<Rightarrow> string \<Rightarrow> mirrored option" where
  "get_record m realm e i = map_of (mk_entities m) (realm_as_str realm, e, i)"

text \<open>The token moves on but the record's time does not.\<close>

definition next_token :: "string \<Rightarrow> string" where
  "next_token t = show_nat (unwrap_or (parse_u64 t) 0 + 1)"

definition bump_sync_token :: "realm_id \<Rightarrow> entity_type \<Rightarrow> string \<Rightarrow> mock \<Rightarrow> mock" where
  "bump_sync_token realm e i m =
     (case get_record m realm e i of
        None \<Rightarrow> m
      | Some r \<Rightarrow> seed_entity realm (r\<lparr>mi_sync_token := next_token (mi_sync_token r)\<rparr>) m)"

section \<open>Reading\<close>

definition in_window :: "updated_range option \<Rightarrow> mirrored \<Rightarrow> bool" where
  "in_window w r \<longleftrightarrow> (case w of None \<Rightarrow> True | Some window \<Rightarrow> ur_from window \<le> mi_last_updated r \<and> mi_last_updated r < ur_to window)"

text \<open>A company's records of a type in the order they are paged in.\<close>

definition sorted_records :: "mock \<Rightarrow> realm_id \<Rightarrow> entity_type \<Rightarrow> mirrored list" where
  "sorted_records m realm e =
     sort_key (\<lambda>r. (mi_last_updated r, mi_qbo_id r))
       (map snd (filter (\<lambda>((r, t, _), _). r = realm_as_str realm \<and> t = e) (mk_entities m)))"

definition mock_query_page ::
  "realm_id \<Rightarrow> entity_type \<Rightarrow> updated_range option \<Rightarrow> nat \<Rightarrow> nat \<Rightarrow> mock \<Rightarrow> (qbo_error + read_page) \<times> mock" where
  "mock_query_page realm e updated start max_results m =
     (case take_failure m of
        (Some err, m) \<Rightarrow> (Inl err, m)
      | (None, m) \<Rightarrow>
          (Inr \<lparr>rg_entities = take max_results (drop start (filter (in_window updated) (sorted_records m realm e))),
             rg_server_time = Some (mk_clock m)\<rparr>, m))"

definition mock_cdc_page :: "realm_id \<Rightarrow> entity_type list \<Rightarrow> int \<Rightarrow> mock \<Rightarrow> (qbo_error + read_page) \<times> mock" where
  "mock_cdc_page realm entity_types changed_since m =
     (case take_failure m of
        (Some err, m) \<Rightarrow> (Inl err, m)
      | (None, m) \<Rightarrow>
          (Inr \<lparr>rg_entities = take (mk_cdc_cap m)
               (sort_key (\<lambda>r. (mi_last_updated r, mi_qbo_id r))
                 (filter (\<lambda>r. changed_since \<le> mi_last_updated r)
                   (map snd (filter (\<lambda>((r, t, _), _). r = realm_as_str realm \<and> t \<in> set entity_types) (mk_entities m))))),
             rg_server_time = Some (mk_clock m)\<rparr>, m))"

definition mock_fetch :: "realm_id \<Rightarrow> entity_type \<Rightarrow> string \<Rightarrow> mock \<Rightarrow> (qbo_error + mirrored option) \<times> mock" where
  "mock_fetch realm e i m =
     (case take_failure m of
        (Some err, m) \<Rightarrow> (Inl err, m)
      | (None, m) \<Rightarrow>
          (Inr (Option.bind (get_record m realm e i) (\<lambda>r. if mi_is_deleted r then None else Some r)), m))"

definition named :: "realm_id \<Rightarrow> entity_type \<Rightarrow> string \<Rightarrow> record_key \<times> mirrored \<Rightarrow> bool" where
  "named realm e name = (\<lambda>((r, t, _), x). r = realm_as_str realm \<and> t = e \<and> unique_name_of e (mi_raw_json x) = Some name)"

definition mock_find_by_name :: "realm_id \<Rightarrow> entity_type \<Rightarrow> string \<Rightarrow> mock \<Rightarrow> (qbo_error + mirrored option) \<times> mock" where
  "mock_find_by_name realm e name m =
     (case take_failure m of
        (Some err, m) \<Rightarrow> (Inl err, m)
      | (None, m) \<Rightarrow> (Inr (map_option snd (find_map (named realm e name) (mk_entities m))), m))"

section \<open>Writing\<close>

text \<open>\<open>{:?}\<close> of a name without control characters.\<close>

definition quoted :: "string \<Rightarrow> string" where
  "quoted s = [CHR 0x22] @ concat (map (\<lambda>c. if c \<in> {CHR 0x22, CHR 0x5C} then [CHR 0x5C, c] else [c]) s) @ [CHR 0x22]"

definition mock_create :: "realm_id \<Rightarrow> entity_type \<Rightarrow> json \<Rightarrow> uuid \<Rightarrow> mock \<Rightarrow> (qbo_error + mirrored) \<times> mock" where
  "mock_create realm e payload request_id m =
     (let deduplicates = \<not> requires_query_before_create e; log_key = (realm_as_str realm, request_id) in
      case (if deduplicates then map_of (mk_request_log m) log_key else None) of
        Some existing \<Rightarrow> (Inr existing, m)
      | None \<Rightarrow>
          (case take_failure m of
             (Some err, m) \<Rightarrow> (Inl err, m)
           | (None, m) \<Rightarrow>
               if (case unique_name_of e payload of None \<Rightarrow> False | Some name \<Rightarrow> list_ex (named realm e name) (mk_entities m))
               then (Inl (Validation (''duplicate name '' @ quoted (unwrap_or (unique_name_of e payload) []))), m)
               else
                 (case allocate_id m of (i, m) \<Rightarrow>
                  let created = \<lparr>mi_entity_type = e, mi_qbo_id = i, mi_sync_token = ''0'', mi_last_updated = mk_clock m,
                        mi_is_deleted = False, mi_raw_json = payload\<rparr>;
                      m = seed_entity realm created m
                  in (Inr created,
                      if deduplicates then m\<lparr>mk_request_log := AList.update log_key created (mk_request_log m)\<rparr> else m))))"

text \<open>A sparse update changes the fields it names; an object's map is kept in the order of its keys.\<close>

definition sparse_merge :: "json \<Rightarrow> json \<Rightarrow> json" where
  "sparse_merge existing payload =
     (case (existing, payload) of
        (JObject old, JObject changes) \<Rightarrow>
          JObject (foldl (\<lambda>acc (key, v). if key = ''sparse'' then acc else sort_key fst (AList.update key v acc)) old changes)
      | _ \<Rightarrow> existing)"

definition mock_update ::
  "realm_id \<Rightarrow> entity_type \<Rightarrow> string \<Rightarrow> json \<Rightarrow> string \<Rightarrow> uuid \<Rightarrow> mock \<Rightarrow> (qbo_error + mirrored) \<times> mock" where
  "mock_update realm e i payload base_sync_token request_id m =
     (let log_key = (realm_as_str realm, request_id) in
      case map_of (mk_request_log m) log_key of
        Some existing \<Rightarrow> (Inr existing, m)
      | None \<Rightarrow>
          (case take_failure m of
             (Some err, m) \<Rightarrow> (Inl err, m)
           | (None, m) \<Rightarrow>
               (case get_record m realm e i of
                  None \<Rightarrow> (Inl NotFound, m)
                | Some r \<Rightarrow>
                    if mi_sync_token r \<noteq> base_sync_token then (Inl StaleSyncToken, m)
                    else
                      let raw = (if Option.bind (json_get payload ''sparse'') json_bool = Some True
                            then sparse_merge (mi_raw_json r) payload else payload);
                          updated = r\<lparr>mi_sync_token := next_token (mi_sync_token r), mi_raw_json := raw, mi_last_updated := mk_clock m\<rparr>;
                          m = seed_entity realm updated m
                      in (Inr updated, m\<lparr>mk_request_log := AList.update log_key updated (mk_request_log m)\<rparr>))))"

text \<open>The driver's client over the double: the limiter grants a number of calls.\<close>

definition mock_client :: "(nat \<times> mock) client" where
  "mock_client =
     \<lparr>cl_try_acquire = (\<lambda>now (budget, m). (0 < budget, (budget - 1, m))),
      cl_query_page = (\<lambda>realm e w start n (budget, m). map_prod id (Pair budget) (mock_query_page realm e w start n m)),
      cl_cdc_page = (\<lambda>realm es since (budget, m). map_prod id (Pair budget) (mock_cdc_page realm es since m)),
      cl_fetch = (\<lambda>realm e i (budget, m). map_prod id (Pair budget) (mock_fetch realm e i m))\<rparr>"

end
