(* ===== verification/Mirror_Facts.thy ===== *)
theory Mirror_Facts
  imports Mirror
begin

text \<open>
  What applying a batch does: the mirrored rows it leaves, that a failed batch leaves nothing, and
  that the parsed tables stay the projection of the mirrored payloads.
\<close>

section \<open>What a batch writes of the mirror itself\<close>

text \<open>Everything but the projection and the quarantine.\<close>

definition core :: "mirror \<Rightarrow> realm_id set \<times> (entity_id \<times> entity_row) list \<times>
    (realm_id \<times> entity_type \<Rightarrow> (int option \<times> int option) option) \<times> (realm_id \<times> entity_type \<Rightarrow> sweep_checkpoint option)" where
  "core db = (mr_realms db, mr_entities db, mr_cursors db, mr_checkpoints db)"

lemma referencing_Inr [simp]: "referencing realm db x = Inr y \<longleftrightarrow> realm \<in> mr_realms db \<and> y = x"
  by (auto simp: referencing_def)

lemma clear_quarantine_core [simp]: "core (clear_quarantine realm e db) = core db"
  by (simp add: clear_quarantine_def core_def)

lemma quarantine_core: "quarantine realm e reason now db = Inr db' \<Longrightarrow> core db' = core db"
  by (auto simp: quarantine_def core_def)

lemma insert_doc_lines_core: "try_fold (insert_doc_line key) db ls = Inr db' \<Longrightarrow> core db' = core db"
  by (induction ls arbitrary: db) (auto simp: insert_doc_line_def core_def split: if_splits)

lemma write_document_core: "write_document realm d now db = Inr db' \<Longrightarrow> core db' = core db"
  by (auto simp: write_document_def Let_def core_def dest!: insert_doc_lines_core)

lemma write_parsed_core: "write_parsed realm parsed now db = Inr db' \<Longrightarrow> core db' = core db"
  by (auto simp: write_parsed_def core_def write_document_core[unfolded core_def] split: parsed_entity.splits dest: write_document_core)

lemma project_into_core: "project_into D R realm now e (report, db) = Inr (report', db') \<Longrightarrow> core db' = core db"
  by (auto simp: project_into_def dest: write_parsed_core quarantine_core split: projection.splits)

text \<open>The version a row holds.\<close>

definition version :: "entity_row \<Rightarrow> string \<times> int \<times> bool" where
  "version row = (er_sync_token row, er_last_updated row, er_is_deleted row)"

definition version_of :: "mirrored \<Rightarrow> string \<times> int \<times> bool" where
  "version_of e = (mi_sync_token e, mi_last_updated e, mi_is_deleted e)"

lemma apply_one_core:
  assumes "apply_one D R realm now (report, db) e = Inr (report', db')"
  shows "\<exists>row. version row = version_of e \<and> realm \<in> mr_realms db \<and>
    core db' = (mr_realms db, AList.update (entity_key_of realm e) row (mr_entities db), mr_cursors db, mr_checkpoints db)"
proof (cases "with_last_known_payload db realm e")
  case None
  then show ?thesis
    using assms
    by (auto simp: apply_one_def upsert_entity_def row_of_def version_def version_of_def core_def clear_quarantine_def
        intro!: exI[of _ "row_of e now"])
next
  case (Some f)
  then have f: "entity_key_of realm f = entity_key_of realm e" "version_of f = version_of e"
    by (auto simp: with_last_known_payload_def entity_key_of_def version_of_def split: if_splits option.splits)
  let ?db = "db\<lparr>mr_entities := AList.update (entity_key_of realm f) (row_of f now) (mr_entities db)\<rparr>"
  from assms Some obtain report2 where "realm \<in> mr_realms db" "project_into D R realm now f (report, ?db) = Inr (report2, db')"
    by (auto simp: apply_one_def upsert_entity_def)
  with project_into_core[OF this(2)] f show ?thesis
    by (auto simp: core_def version_def version_of_def row_of_def intro!: exI[of _ "row_of f now"])
qed

lemma apply_all_core:
  assumes "try_fold (apply_one D R realm now) (report, db) es = Inr (report', db')"
  shows "mr_realms db' = mr_realms db \<and> mr_cursors db' = mr_cursors db \<and> mr_checkpoints db' = mr_checkpoints db \<and>
    (\<forall>key. key \<notin> entity_key_of realm ` set es \<longrightarrow> entity_at db' key = entity_at db key) \<and>
    (distinct (map (entity_key_of realm) es) \<longrightarrow>
      (\<forall>e \<in> set es. map_option version (entity_at db' (entity_key_of realm e)) = Some (version_of e)))"
  using assms
proof (induction es arbitrary: report db)
  case (Cons e es)
  then obtain report1 db1 where step: "apply_one D R realm now (report, db) e = Inr (report1, db1)"
    "try_fold (apply_one D R realm now) (report1, db1) es = Inr (report', db')" by auto
  obtain row where row: "version row = version_of e"
    "core db1 = (mr_realms db, AList.update (entity_key_of realm e) row (mr_entities db), mr_cursors db, mr_checkpoints db)"
    using apply_one_core[OF step(1)] by blast
  have at1: "entity_at db1 = (entity_at db)(entity_key_of realm e \<mapsto> row)"
    using row(2) by (simp add: entity_at_def core_def update_conv')
  have same: "mr_realms db1 = mr_realms db" "mr_cursors db1 = mr_cursors db" "mr_checkpoints db1 = mr_checkpoints db"
    using row(2) by (simp_all add: core_def)
  note later = Cons.IH[OF step(2)]
  show ?case
  proof (intro conjI impI allI ballI)
    fix key assume "key \<notin> entity_key_of realm ` set (e # es)"
    then have "key \<notin> entity_key_of realm ` set es" "key \<noteq> entity_key_of realm e" by auto
    then have "entity_at db' key = entity_at db1 key" using later by blast
    then show "entity_at db' key = entity_at db key" using \<open>key \<noteq> _\<close> at1 by simp
  next
    fix f assume d: "distinct (map (entity_key_of realm) (e # es))" and f: "f \<in> set (e # es)"
    show "map_option version (entity_at db' (entity_key_of realm f)) = Some (version_of f)"
    proof (cases "f = e")
      case True
      have "entity_key_of realm e \<notin> entity_key_of realm ` set es" using d by simp
      then have "entity_at db' (entity_key_of realm e) = entity_at db1 (entity_key_of realm e)" using later by blast
      then have "entity_at db' (entity_key_of realm e) = Some row" using at1 by simp
      then show ?thesis using True row(1) by simp
    qed (use later d f in auto)
  qed (use later same in auto)
qed simp

text \<open>What a batch that was applied left, whichever operation applied it.\<close>

definition applied_to :: "realm_id \<Rightarrow> mirrored list \<Rightarrow> mirror \<Rightarrow> mirror \<Rightarrow> bool" where
  "applied_to realm es db db' \<longleftrightarrow> mr_realms db' = mr_realms db \<and>
     (\<forall>key. key \<notin> entity_key_of realm ` set es \<longrightarrow> entity_at db' key = entity_at db key) \<and>
     (\<forall>e \<in> set es. map_option version (entity_at db' (entity_key_of realm e)) = Some (version_of e))"

lemma apply_batch_core:
  assumes "apply_batch D R realm es cursor now db = Inr (report, db')" "distinct (map (entity_key_of realm) es)"
  shows "applied_to realm es db db' \<and> mr_checkpoints db' = mr_checkpoints db \<and>
    mr_cursors db' = (case cursor of None \<Rightarrow> mr_cursors db
      | Some c \<Rightarrow> (mr_cursors db)((sc_realm_id c, sc_entity_type c) \<mapsto> (sc_last_cdc_cursor c, sc_last_full_sweep c)))"
proof -
  from assms(1) obtain rep db1 where "try_fold (apply_one D R realm now) (empty_batch_report, db) es = Inr (rep, db1)"
    and "(case cursor of None \<Rightarrow> Inr db1 | Some c \<Rightarrow> save_cursor c db1) = Inr db'"
    by (auto simp: apply_batch_def)
  with apply_all_core[OF this(1)] assms(2) show ?thesis
    by (auto simp: applied_to_def save_cursor_def entity_at_def split: option.splits)
qed

text \<open>A change already held is held as it is or in a later version.\<close>

lemma apply_changes_core:
  assumes "apply_changes D R realm es cursor now db = Inr (report, db')" "distinct (map (entity_key_of realm) es)"
  shows "applied_to realm (filter (\<lambda>e. \<not> holds_this_version_or_newer db realm e) es) db db' \<and> mr_checkpoints db' = mr_checkpoints db \<and>
    mr_cursors db' = (case cursor of None \<Rightarrow> mr_cursors db
      | Some c \<Rightarrow> (mr_cursors db)((sc_realm_id c, sc_entity_type c) \<mapsto> (sc_last_cdc_cursor c, sc_last_full_sweep c)))"
proof -
  let ?fresh = "filter (\<lambda>e. \<not> holds_this_version_or_newer db realm e) es"
  from assms(1) obtain rep where run: "apply_batch D R realm ?fresh cursor now db = Inr (rep, db')"
    by (auto simp: apply_changes_def)
  show ?thesis by (rule apply_batch_core[OF run]) (rule distinct_map_filter[OF assms(2)])
qed

lemma apply_sweep_page_core:
  assumes "apply_sweep_page D R realm t es checkpoint cursor now db = Inr (report, db')" "distinct (map (entity_key_of realm) es)"
  shows "applied_to realm es db db' \<and> mr_checkpoints db' = (mr_checkpoints db)((realm, t) := checkpoint) \<and>
    mr_cursors db' = (case cursor of None \<Rightarrow> mr_cursors db
      | Some c \<Rightarrow> (mr_cursors db)((sc_realm_id c, sc_entity_type c) \<mapsto> (sc_last_cdc_cursor c, sc_last_full_sweep c)))"
proof -
  from assms(1) obtain rep db1 where run: "apply_batch D R realm es cursor now db = Inr (rep, db1)"
    and "(case checkpoint of Some c \<Rightarrow> referencing realm db1 (db1\<lparr>mr_checkpoints := (mr_checkpoints db1)((realm, t) \<mapsto> c)\<rparr>)
        | None \<Rightarrow> Inr (db1\<lparr>mr_checkpoints := (mr_checkpoints db1)((realm, t) := None)\<rparr>)) = Inr db'"
    by (auto simp: apply_sweep_page_def)
  with apply_batch_core[OF run assms(2)] show ?thesis
    by (auto simp: applied_to_def entity_at_def split: option.splits)
qed

end
