(* ===== verification/Sync_Facts.thy ===== *)
theory Sync_Facts
  imports Qbo_Double Mirror_Facts
begin

text \<open>
  What the sync keeps: a cursor never stands past a change that was not read. The service is any that
  pages and polls its book as documented; the double of \<open>client.rs\<close> is one.
\<close>

section \<open>The book of the service\<close>

record book =
  bk_records :: "realm_id \<Rightarrow> entity_type \<Rightarrow> mirrored list"
  bk_clock :: int
  bk_cap :: nat

text \<open>Ids are unique, no record is stamped in the future, tokens are numbers.\<close>

definition book_ok :: "book \<Rightarrow> bool" where
  "book_ok b \<longleftrightarrow> (\<forall>realm e. distinct (map mi_qbo_id (bk_records b realm e)) \<and>
     (\<forall>r \<in> set (bk_records b realm e). mi_entity_type r = e \<and> mi_last_updated r \<le> bk_clock b \<and> parse_u64 (mi_sync_token r) \<noteq> None))"

text \<open>
  The interface: reading changes nothing of the book, a query returns the asked part of the records
  in a fixed order, a poll the first of those changed since, and both the service's clock.
\<close>

locale honest_service =
  fixes client :: "'c client" and book :: "'c \<Rightarrow> book"
  assumes acquire: "cl_try_acquire client now c = (granted, c') \<Longrightarrow> book c' = book c"
    and query: "cl_query_page client realm e w start n c = (answer, c') \<Longrightarrow> book c' = book c \<and>
      (case answer of Inl _ \<Rightarrow> True | Inr page \<Rightarrow>
        rg_entities page = take n (drop start (filter (in_window w) (bk_records (book c) realm e))) \<and>
        rg_server_time page = Some (bk_clock (book c)))"
    and cdc: "cl_cdc_page client realm [e] since c = (answer, c') \<Longrightarrow> book c' = book c \<and>
      (case answer of Inl _ \<Rightarrow> True | Inr page \<Rightarrow>
        rg_entities page = take (bk_cap (book c)) (filter (\<lambda>r. since \<le> mi_last_updated r) (bk_records (book c) realm e)) \<and>
        rg_server_time page = Some (bk_clock (book c)))"

text \<open>The double is such a service.\<close>

definition mock_book :: "nat \<times> mock \<Rightarrow> book" where
  "mock_book = (\<lambda>(_, m). \<lparr>bk_records = sorted_records m, bk_clock = mk_clock m, bk_cap = mk_cdc_cap m\<rparr>)"

lemma filter_sort_key: "filter P (sort_key f xs) = sort_key f (filter P xs)"
  by (rule filter_sort)

interpretation double: honest_service mock_client mock_book
proof
  have kept: "take_failure m = (e, m') \<Longrightarrow> sorted_records m' = sorted_records m \<and> mk_clock m' = mk_clock m \<and> mk_cdc_cap m' = mk_cdc_cap m \<and>
      mk_entities m' = mk_entities m" for m m' e
    by (auto simp: sorted_records_def fun_eq_iff split: list.splits)
  show "cl_try_acquire mock_client now c = (granted, c') \<Longrightarrow> mock_book c' = mock_book c" for now c granted c'
    by (auto simp: mock_client_def mock_book_def split: prod.splits)
  show "cl_query_page mock_client realm e w start n c = (answer, c') \<Longrightarrow> mock_book c' = mock_book c \<and>
      (case answer of Inl _ \<Rightarrow> True | Inr page \<Rightarrow>
        rg_entities page = take n (drop start (filter (in_window w) (bk_records (mock_book c) realm e))) \<and>
        rg_server_time page = Some (bk_clock (mock_book c)))" for realm e w start n c answer c'
    by (auto simp: mock_client_def mock_book_def mock_query_page_def simp del: take_failure.simps dest!: kept
        split: prod.splits option.splits)
  have one: "filter (\<lambda>((r, t, _), _). r = a \<and> t \<in> set [e]) xs = filter (\<lambda>((r, t, _), _). r = a \<and> t = e) xs"
    for a :: string and e :: entity_type and xs :: "(record_key \<times> mirrored) list"
    by (rule filter_cong) auto
  show "cl_cdc_page mock_client realm [e] since c = (answer, c') \<Longrightarrow> mock_book c' = mock_book c \<and>
      (case answer of Inl _ \<Rightarrow> True | Inr page \<Rightarrow>
        rg_entities page = take (bk_cap (mock_book c)) (filter (\<lambda>r. since \<le> mi_last_updated r) (bk_records (mock_book c) realm e)) \<and>
        rg_server_time page = Some (bk_clock (mock_book c)))" for realm e since c answer c'
    unfolding mock_cdc_page_def one mock_client_def
    by (auto simp: mock_book_def mock_cdc_page_def one sorted_records_def filter_sort_key simp del: take_failure.simps
        dest!: kept split: prod.splits option.splits)
qed

section \<open>What the replica has of it\<close>

text \<open>A record is held at the service's version.\<close>

definition held :: "mirror \<Rightarrow> realm_id \<Rightarrow> mirrored \<Rightarrow> bool" where
  "held db realm r \<longleftrightarrow> map_option version (entity_at db (entity_key_of realm r)) = Some (version_of r)"

definition covered :: "mirror \<Rightarrow> realm_id \<Rightarrow> int \<Rightarrow> mirrored list \<Rightarrow> bool" where
  "covered db realm t rs \<longleftrightarrow> (\<forall>r \<in> set rs. mi_last_updated r < t \<longrightarrow> held db realm r)"

definition token_le :: "string \<Rightarrow> string \<Rightarrow> bool" where
  "token_le a b \<longleftrightarrow> (\<exists>m n. parse_u64 a = Some m \<and> parse_u64 b = Some n \<and> m \<le> n)"

text \<open>No row is of a later version than the service's.\<close>

definition not_ahead :: "mirror \<Rightarrow> realm_id \<Rightarrow> entity_type \<Rightarrow> mirrored list \<Rightarrow> bool" where
  "not_ahead db realm e rs \<longleftrightarrow> (\<forall>i row. entity_at db (realm, e, i) = Some row \<longrightarrow>
     (\<exists>r \<in> set rs. mi_qbo_id r = i \<and> token_le (er_sync_token row) (mi_sync_token r)))"

text \<open>
  The invariant of a company's records of one type: what changed before the cursor is held; of an
  interrupted sweep, what lies before the page it backs up to and changed before it began.
\<close>

definition in_step :: "nat \<Rightarrow> book \<Rightarrow> mirror \<Rightarrow> realm_id \<Rightarrow> entity_type \<Rightarrow> bool" where
  "in_step page_size b db realm e \<longleftrightarrow>
     not_ahead db realm e (bk_records b realm e) \<and>
     (case mr_cursors db (realm, e) of
        Some (Some t, _) \<Rightarrow> t \<le> bk_clock b \<and> covered db realm t (bk_records b realm e)
      | _ \<Rightarrow> True) \<and>
     (case mr_checkpoints db (realm, e) of
        Some cp \<Rightarrow> cp_started_at cp \<le> bk_clock b \<and>
          covered db realm (cp_started_at cp) (take (cp_next_start cp - page_size) (bk_records b realm e))
      | None \<Rightarrow> True)"

text \<open>What a run over other records leaves as it was.\<close>

definition elsewhere :: "realm_id \<Rightarrow> entity_type \<Rightarrow> mirror \<Rightarrow> mirror \<Rightarrow> bool" where
  "elsewhere realm e db db' \<longleftrightarrow> mr_realms db' = mr_realms db \<and>
     (\<forall>key. key \<noteq> (realm, e) \<longrightarrow> mr_cursors db' key = mr_cursors db key \<and> mr_checkpoints db' key = mr_checkpoints db key \<and>
        (\<forall>i. entity_at db' (fst key, snd key, i) = entity_at db (fst key, snd key, i)))"

lemma elsewhere_refl [simp]: "elsewhere realm e db db"
  by (simp add: elsewhere_def)

lemma elsewhere_trans: "elsewhere realm e db db1 \<Longrightarrow> elsewhere realm e db1 db2 \<Longrightarrow> elsewhere realm e db db2"
  by (simp add: elsewhere_def)

lemma record_key: "book_ok b \<Longrightarrow> r \<in> set (bk_records b realm e) \<Longrightarrow> entity_key_of realm r = (realm, e, mi_qbo_id r)"
  by (auto simp: book_ok_def entity_key_of_def)

lemma record_keys_distinct: "book_ok b \<Longrightarrow> distinct (map (entity_key_of realm) (bk_records b realm e))"
  by (auto simp: book_ok_def entity_key_of_def distinct_map inj_on_def)

lemma elsewhere_in_step:
  assumes "elsewhere realm e db db'" "(realm', e') \<noteq> (realm, e)" "book_ok b"
  shows "in_step n b db' realm' e' = in_step n b db realm' e'"
proof -
  have same: "mr_cursors db' (realm', e') = mr_cursors db (realm', e')" "mr_checkpoints db' (realm', e') = mr_checkpoints db (realm', e')"
    using assms(1,2) unfolding elsewhere_def by blast+
  have rows: "entity_at db' (realm', e', i) = entity_at db (realm', e', i)" for i
    using assms(1,2) unfolding elsewhere_def by (metis fst_conv snd_conv)
  have "held db' realm' r = held db realm' r" if "r \<in> set (bk_records b realm' e')" for r
    using rows record_key[OF assms(3) that] by (simp add: held_def)
  then have "covered db' realm' t rs = covered db realm' t rs" if "set rs \<subseteq> set (bk_records b realm' e')" for t rs
    using that by (auto simp: covered_def)
  then show ?thesis
    unfolding in_step_def same not_ahead_def rows by (simp add: set_take_subset split: option.splits)
qed

lemma covered_mono: "covered db realm t rs \<Longrightarrow> set rs' \<subseteq> set rs \<Longrightarrow> t' \<le> t \<Longrightarrow> covered db realm t' rs'"
  by (auto simp: covered_def)

lemma token_le_refl: "parse_u64 a \<noteq> None \<Longrightarrow> token_le a a"
  by (auto simp: token_le_def)

lemma token_le_trans: "token_le a b \<Longrightarrow> token_le b c \<Longrightarrow> token_le a c"
  unfolding token_le_def by (metis le_trans option.inject)

section \<open>One page\<close>

text \<open>Some of the service's records applied: those are held, the others as before.\<close>

lemma applied_records:
  assumes "applied_to realm es db db'" "set es \<subseteq> set (bk_records b realm e)" "book_ok b"
  shows "\<forall>r \<in> set es. held db' realm r"
    and "r \<in> set (bk_records b realm e) \<Longrightarrow> held db realm r \<Longrightarrow> held db' realm r"
    and "not_ahead db realm e (bk_records b realm e) \<Longrightarrow> not_ahead db' realm e (bk_records b realm e)"
    and "mr_realms db' = mr_realms db \<and> (\<forall>key i. key \<noteq> (realm, e) \<longrightarrow> entity_at db' (fst key, snd key, i) = entity_at db (fst key, snd key, i))"
proof -
  have key: "entity_key_of realm r = (realm, e, mi_qbo_id r)" if "r \<in> set es" for r
    using record_key[OF assms(3)] assms(2) that by blast
  have others: "entity_at db' k = entity_at db k" if "k \<notin> entity_key_of realm ` set es" for k
    using assms(1) that unfolding applied_to_def by blast
  show now: "\<forall>r \<in> set es. held db' realm r" using assms(1) by (simp add: applied_to_def held_def)
  have unique: "r = s" if "r \<in> set (bk_records b realm e)" "s \<in> set (bk_records b realm e)" "mi_qbo_id r = mi_qbo_id s" for r s
    using assms(3) that by (auto simp: book_ok_def distinct_map dest: inj_onD)
  show "held db' realm r" if r: "r \<in> set (bk_records b realm e)" and h: "held db realm r"
  proof (cases "entity_key_of realm r \<in> entity_key_of realm ` set es")
    case True
    then obtain s where s: "s \<in> set es" "entity_key_of realm r = entity_key_of realm s" by blast
    have "r = s" using unique[OF r, of s] s key[OF s(1)] record_key[OF assms(3) r] assms(2) by auto
    then show ?thesis using now s(1) by blast
  qed (use others h in \<open>simp add: held_def\<close>)
  show "not_ahead db' realm e (bk_records b realm e)" if na: "not_ahead db realm e (bk_records b realm e)"
    unfolding not_ahead_def
  proof (intro allI impI)
    fix i row assume row: "entity_at db' (realm, e, i) = Some row"
    show "\<exists>r \<in> set (bk_records b realm e). mi_qbo_id r = i \<and> token_le (er_sync_token row) (mi_sync_token r)"
    proof (cases "(realm, e, i) \<in> entity_key_of realm ` set es")
      case True
      then obtain r where r: "r \<in> set es" "mi_qbo_id r = i" "entity_key_of realm r = (realm, e, i)" using key by force
      have "held db' realm r" using now r(1) by blast
      then have "version row = version_of r" using row r(3) by (simp add: held_def)
      moreover have "r \<in> set (bk_records b realm e)" using r(1) assms(2) by blast
      moreover have "parse_u64 (mi_sync_token r) \<noteq> None" using r(1) assms(2,3) by (auto simp: book_ok_def)
      ultimately show ?thesis using r(2) by (auto simp: version_def version_of_def intro: token_le_refl)
    next
      case False
      then show ?thesis using na others row unfolding not_ahead_def by metis
    qed
  qed
  show "mr_realms db' = mr_realms db \<and> (\<forall>key i. key \<noteq> (realm, e) \<longrightarrow> entity_at db' (fst key, snd key, i) = entity_at db (fst key, snd key, i))"
    using assms(1) key others by (force simp: applied_to_def)
qed

text \<open>A change the replica skips because it has it is held; none is skipped because a later one is.\<close>

lemma skipped_is_held:
  assumes "not_ahead db realm e (bk_records b realm e)" "book_ok b" "r \<in> set (bk_records b realm e)"
    "holds_this_version_or_newer db realm r"
  shows "held db realm r"
proof -
  have key: "entity_key_of realm r = (realm, e, mi_qbo_id r)" by (rule record_key[OF assms(2,3)])
  from assms(4) obtain row where row: "entity_at db (realm, e, mi_qbo_id r) = Some row"
    and cases: "version row = version_of r \<or> older_token (mi_sync_token r) (er_sync_token row)"
    by (auto simp: holds_this_version_or_newer_def key version_def version_of_def split: option.splits)
  from assms(1) row obtain s where s: "s \<in> set (bk_records b realm e)" "mi_qbo_id s = mi_qbo_id r"
    "token_le (er_sync_token row) (mi_sync_token s)" unfolding not_ahead_def by blast
  have "s = r" using assms(2,3) s(1,2) by (auto simp: book_ok_def distinct_map dest: inj_onD)
  then have "\<not> older_token (mi_sync_token r) (er_sync_token row)"
    using s(3) by (auto simp: token_le_def older_token_def)
  then show ?thesis using cases row key by (simp add: held_def)
qed

section \<open>Runs\<close>

text \<open>
  What a run that ends leaves, whatever its outcome: the service's book as it was, the other records
  as they were, and these in step. A successful one has also moved the cursor.
\<close>

definition run_keeps :: "nat \<Rightarrow> book \<Rightarrow> realm_id \<Rightarrow> entity_type \<Rightarrow> mirror \<Rightarrow> mirror \<Rightarrow> bool" where
  "run_keeps n b realm e db db' \<longleftrightarrow> elsewhere realm e db db' \<and> in_step n b db' realm e \<and>
     (\<forall>r \<in> set (bk_records b realm e). held db realm r \<longrightarrow> held db' realm r)"

lemma unapplied_keeps: "in_step n b db realm e \<Longrightarrow> run_keeps n b realm e db db"
  by (simp add: run_keeps_def)

lemma run_keeps_trans: "run_keeps n b realm e db db1 \<Longrightarrow> run_keeps n b realm e db1 db2 \<Longrightarrow> run_keeps n b realm e db db2"
  by (auto simp: run_keeps_def intro: elsewhere_trans)

lemma covered_kept:
  "covered db realm t rs \<Longrightarrow> set rs \<subseteq> set recs \<Longrightarrow> (\<And>r. r \<in> set recs \<Longrightarrow> held db realm r \<Longrightarrow> held db' realm r) \<Longrightarrow>
    covered db' realm t rs"
  by (auto simp: covered_def)

text \<open>A page of the sweep that was stored.\<close>

lemma page_stored:
  assumes run: "apply_sweep_page D R realm e es checkpoint cursor now db = Inr (applied, db1)"
    and es: "es = take n (drop start (bk_records b realm e))" and ok: "book_ok b" and step: "in_step n b db realm e"
    and began: "began \<le> bk_clock b" and cov: "covered db realm began (take start (bk_records b realm e))"
    and kind: "final = (length es < n)"
      "cursor = (if final then Some \<lparr>sc_realm_id = realm, sc_entity_type = e, sc_last_cdc_cursor = Some began, sc_last_full_sweep = Some now\<rparr> else None)"
      "checkpoint = (if final then None else Some \<lparr>cp_next_start = start + length es, cp_started_at = began\<rparr>)"
  shows "run_keeps n b realm e db db1"
    and "covered db1 realm began (take (start + length es) (bk_records b realm e))"
    and "\<forall>r \<in> set es. held db1 realm r"
    and "final \<Longrightarrow> mr_cursors db1 (realm, e) = Some (Some began, Some now) \<and> mr_checkpoints db1 (realm, e) = None \<and>
      es = drop start (bk_records b realm e)"
proof -
  let ?rs = "bk_records b realm e"
  have part: "set es \<subseteq> set ?rs" unfolding es by (meson order.trans set_drop_subset set_take_subset)
  have "distinct (map (entity_key_of realm) es)"
    using record_keys_distinct[OF ok, of realm e] unfolding es take_map[symmetric] drop_map[symmetric] by (intro distinct_take distinct_drop)
  note core = apply_sweep_page_core[OF run this]
  note app = applied_records[OF conjunct1[OF core] part ok]
  show now: "\<forall>r \<in> set es. held db1 realm r" by (rule app(1))
  note keep = app(2)
  have split: "take (start + length es) ?rs = take start ?rs @ es"
    unfolding es by (simp add: take_add min_def)
  have "covered db1 realm began (take start ?rs)"
    by (rule covered_kept[OF cov set_take_subset keep])
  then show cov1: "covered db1 realm began (take (start + length es) ?rs)"
    unfolding split using now by (auto simp: covered_def)
  have last: "es = drop start ?rs" if final using that kind(1) unfolding es by simp
  then have all: "covered db1 realm began ?rs" if final
    using cov1 that unfolding split by simp
  have cursors: "mr_cursors db1 = (if final then (mr_cursors db)((realm, e) \<mapsto> (Some began, Some now)) else mr_cursors db)"
    using core kind(2) by simp
  have points: "mr_checkpoints db1 = (mr_checkpoints db)((realm, e) := checkpoint)" using core by blast
  show "final \<Longrightarrow> mr_cursors db1 (realm, e) = Some (Some began, Some now) \<and> mr_checkpoints db1 (realm, e) = None \<and> es = drop start ?rs"
    using cursors points kind(3) last by simp
  have "elsewhere realm e db db1"
    using app(4) cursors points by (auto simp: elsewhere_def)
  moreover have "in_step n b db1 realm e"
    unfolding in_step_def
  proof (intro conjI)
    show "not_ahead db1 realm e ?rs" using app(3) step by (simp add: in_step_def)
    show "case mr_cursors db1 (realm, e) of Some (Some t, _) \<Rightarrow> t \<le> bk_clock b \<and> covered db1 realm t ?rs | _ \<Rightarrow> True"
    proof (cases final)
      case True
      then show ?thesis using cursors all began by simp
    next
      case False
      then have "mr_cursors db1 (realm, e) = mr_cursors db (realm, e)" using cursors by simp
      then show ?thesis using step covered_kept[OF _ subset_refl keep]
        by (auto simp: in_step_def split: option.splits)
    qed
    show "case mr_checkpoints db1 (realm, e) of None \<Rightarrow> True
      | Some cp \<Rightarrow> cp_started_at cp \<le> bk_clock b \<and> covered db1 realm (cp_started_at cp) (take (cp_next_start cp - n) ?rs)"
    proof (cases final)
      case True
      then show ?thesis using points kind(3) by simp
    next
      case False
      have "covered db1 realm began (take (start + length es - n) ?rs)"
        by (rule covered_mono[OF cov1]) (simp_all add: set_take_subset_set_take)
      then show ?thesis using False points kind(3) began by simp
    qed
  qed
  ultimately show "run_keeps n b realm e db db1" using keep by (simp add: run_keeps_def)
qed

context honest_service
begin

lemma spends:
  assumes "spend V realm now c = (r, c')" "dv_client V = client"
  shows "book c' = book c"
proof -
  obtain granted c1 where "cl_try_acquire client now c = (granted, c1)" by force
  then show ?thesis using acquire assms by (auto simp: spend_def)
qed

lemma fetches:
  assumes "fetch_page V realm e w start now c = (r, c')" "dv_client V = client"
  shows "book c' = book c \<and> (case r of Inl _ \<Rightarrow> True | Inr page \<Rightarrow>
    rg_entities page = take (so_page_size (dv_options V)) (drop start (filter (in_window w) (bk_records (book c) realm e))) \<and>
    rg_server_time page = Some (bk_clock (book c)))"
proof -
  obtain s c1 where s: "spend V realm now c = (s, c1)" by force
  note one = spends[OF s assms(2)]
  show ?thesis
  proof (cases s)
    case (Inl x)
    then show ?thesis using assms(1) s one by (auto simp: fetch_page_def)
  next
    case (Inr u)
    obtain a c2 where q: "cl_query_page client realm e w start (so_page_size (dv_options V)) c1 = (a, c2)" by force
    show ?thesis using assms s Inr one query[OF q] q by (cases a) (auto simp: fetch_page_def)
  qed
qed


text \<open>The sweep over a service that keeps still: it ends, and in step whatever happens.\<close>

lemma sweep_runs:
  assumes V: "dv_client V = client" and ps: "0 < so_page_size (dv_options V)" and ok: "book_ok b"
    and "book c = b" and "in_step (so_page_size (dv_options V)) b db realm e"
    and "began = unwrap_or started (bk_clock b)" and "began \<le> bk_clock b"
    and "covered db realm began (take start (bk_records b realm e))"
  shows "\<exists>r c' db'. sweep_loop V realm e reason now started start pages report c db = Some (r, c', db') \<and> book c' = b \<and>
    run_keeps (so_page_size (dv_options V)) b realm e db db' \<and>
    (\<forall>rep. r = Inr rep \<longrightarrow> mr_cursors db' (realm, e) = Some (Some began, Some now) \<and> mr_checkpoints db' (realm, e) = None \<and>
       (\<forall>r \<in> set (drop start (bk_records b realm e)). held db' realm r) \<and> (\<exists>k. es_path rep = FullSweep reason k))"
  using assms(4-)
proof (induction "length (bk_records b realm e) - start" arbitrary: start started pages report c db rule: less_induct)
  case less
  let ?n = "so_page_size (dv_options V)" and ?rs = "bk_records b realm e"
  obtain answer c1 where fetch: "fetch_page V realm e None start now c = (answer, c1)" by force
  note read = fetches[OF fetch V, unfolded less.prems(1)]
  have c1: "book c1 = b" using read by blast
  show ?case
  proof (cases answer)
    case (Inl err)
    then have "sweep_loop V realm e reason now started start pages report c db = Some (Inl err, c1, db)"
      by (subst sweep_loop.simps) (simp add: fetch)
    then show ?thesis using unapplied_keeps[OF less.prems(2)] c1 by blast
  next
    case (Inr page)
    have "in_window None = (\<lambda>_. True)" by (simp add: in_window_def fun_eq_iff)
    then have es: "rg_entities page = take ?n (drop start ?rs)" and time: "rg_server_time page = Some (bk_clock b)"
      using read Inr by simp_all
    define final where "final = (length (rg_entities page) < ?n)"
    define cursor where "cursor = (if final then Some \<lparr>sc_realm_id = realm, sc_entity_type = e, sc_last_cdc_cursor = Some began, sc_last_full_sweep = Some now\<rparr> else None)"
    define checkpoint where "checkpoint = (if final then None else Some \<lparr>cp_next_start = start + length (rg_entities page), cp_started_at = began\<rparr>)"
    have unfolded: "sweep_loop V realm e reason now started start pages report c db =
        (case apply_sweep_page (dv_dec V) (dv_readers V) realm e (rg_entities page) checkpoint cursor now db of
           Inl err \<Rightarrow> Some (Inl (SyncStore err), c1, db)
         | Inr (applied, db1) \<Rightarrow>
             if final then Some (Inr ((count_batch applied (request_counted report))\<lparr>es_path := FullSweep reason (pages + 1)\<rparr>), c1, db1)
             else sweep_loop V realm e reason now (Some began) (start + length (rg_entities page)) (pages + 1)
                    (count_batch applied (request_counted report)) c1 db1)"
      unfolding cursor_def checkpoint_def final_def
      by (subst sweep_loop.simps) (simp add: fetch Inr Let_def time less.prems(3)[symmetric] split del: if_split)
    show ?thesis
    proof (cases "apply_sweep_page (dv_dec V) (dv_readers V) realm e (rg_entities page) checkpoint cursor now db")
      case (Inl err)
      then show ?thesis unfolding unfolded using unapplied_keeps[OF less.prems(2)] c1 by auto
    next
      case stored: (Inr out)
      obtain applied db1 where out: "out = (applied, db1)" by force
      note page = page_stored[OF stored[unfolded out] es ok less.prems(2,4,5) final_def cursor_def checkpoint_def]
      show ?thesis
      proof (cases final)
        case True
        have "\<forall>r \<in> set (drop start ?rs). held db1 realm r" using page(3,4) True by metis
        then show ?thesis unfolding unfolded stored out using page(1,4) True c1 by simp
      next
        case False
        then have full: "length (rg_entities page) = ?n" using es by (simp add: final_def)
        then have "start + ?n \<le> length ?rs" using es ps by simp
        then have smaller: "length ?rs - (start + ?n) < length ?rs - start" using ps by linarith
        have step1: "in_step ?n b db1 realm e" using page(1) by (simp add: run_keeps_def)
        obtain r c' db' where rest: "sweep_loop V realm e reason now (Some began) (start + ?n) (pages + 1)
              (count_batch applied (request_counted report)) c1 db1 = Some (r, c', db')" "book c' = b"
            "run_keeps ?n b realm e db1 db'"
            "\<forall>rep. r = Inr rep \<longrightarrow> mr_cursors db' (realm, e) = Some (Some began, Some now) \<and> mr_checkpoints db' (realm, e) = None \<and>
              (\<forall>r \<in> set (drop (start + ?n) ?rs). held db' realm r) \<and> (\<exists>k. es_path rep = FullSweep reason k)"
          using less.hyps[OF smaller c1 step1 _ less.prems(4) page(2)[unfolded full], of "Some began" "pages + 1"
              "count_batch applied (request_counted report)"] by auto
        have split: "drop start ?rs = rg_entities page @ drop (start + ?n) ?rs"
          unfolding es by (metis append_take_drop_id drop_drop add.commute)
        have "held db' realm r" if "r \<in> set (rg_entities page)" for r
        proof -
          have "r \<in> set ?rs" using that unfolding es by (meson in_set_dropD in_set_takeD)
          then show ?thesis using page(3) rest(3) that by (simp add: run_keeps_def)
        qed
        then have "\<forall>rep. r = Inr rep \<longrightarrow> (\<forall>s \<in> set (drop start ?rs). held db' realm s)"
          using rest(4) unfolding split by auto
        then show ?thesis
          unfolding unfolded stored out using False rest run_keeps_trans[OF page(1) rest(3)] by (simp add: full)
      qed
    qed
  qed
qed

lemma full_sweep_runs:
  assumes V: "dv_client V = client" and ps: "0 < so_page_size (dv_options V)" and ok: "book_ok b"
    and c: "book c = b" and step: "in_step (so_page_size (dv_options V)) b db realm e"
  shows "\<exists>r c' db'. full_sweep V realm e reason now c db = Some (r, c', db') \<and> book c' = b \<and>
    run_keeps (so_page_size (dv_options V)) b realm e db db' \<and>
    (\<forall>rep. r = Inr rep \<longrightarrow> mr_checkpoints db' (realm, e) = None \<and> (\<exists>k. es_path rep = FullSweep reason k) \<and>
       (\<exists>t. mr_cursors db' (realm, e) = Some (Some t, Some now)) \<and>
       (mr_checkpoints db (realm, e) = None \<longrightarrow> (\<forall>r \<in> set (bk_records b realm e). held db' realm r)))"
proof -
  let ?n = "so_page_size (dv_options V)" and ?rs = "bk_records b realm e"
  obtain resumed where res: "resumed = (case load_sweep_checkpoint db realm e of
      Some checkpoint \<Rightarrow> if now - cp_started_at checkpoint < so_cdc_max_age (dv_options V) then Some checkpoint else None
    | None \<Rightarrow> None)" by blast
  define start where "start = (case resumed of None \<Rightarrow> 0 | Some cp \<Rightarrow> cp_next_start cp - ?n)"
  define began where "began = unwrap_or (map_option cp_started_at resumed) (bk_clock b)"
  have cp: "resumed = None \<or> mr_checkpoints db (realm, e) = resumed"
    by (auto simp: res load_sweep_checkpoint_def split: option.splits)
  have "began \<le> bk_clock b" "covered db realm began (take start ?rs)"
    using step cp by (auto simp: began_def start_def in_step_def covered_def split: option.splits)
  from sweep_runs[OF V ps ok c step began_def this, of reason now 0 "new_report e (FullSweep reason 0)"]
  obtain r c' db' where run: "sweep_loop V realm e reason now (map_option cp_started_at resumed) start 0 (new_report e (FullSweep reason 0)) c db = Some (r, c', db')"
      "book c' = b" "run_keeps ?n b realm e db db'"
      "\<forall>rep. r = Inr rep \<longrightarrow> mr_cursors db' (realm, e) = Some (Some began, Some now) \<and> mr_checkpoints db' (realm, e) = None \<and>
         (\<forall>r \<in> set (drop start ?rs). held db' realm r) \<and> (\<exists>k. es_path rep = FullSweep reason k)" by blast
  have "full_sweep V realm e reason now c db = Some (r, c', db')"
    using run(1) unfolding full_sweep_def Let_def start_def res .
  moreover have "start = 0" if "mr_checkpoints db (realm, e) = None" using that cp by (auto simp: start_def)
  ultimately show ?thesis using run(2-4) by fastforce
qed

end

section \<open>Changes\<close>

text \<open>Some of the service's records read by a poll, applied.\<close>

lemma changes_stored:
  assumes run: "apply_read V realm es cursor now report db = Inr (report', db1)"
    and es: "set es \<subseteq> set (bk_records b realm e)" "distinct (map (entity_key_of realm) es)"
    and ok: "book_ok b" and step: "in_step n b db realm e"
    and cursor: "cursor = None \<or> (\<exists>t s. cursor = Some \<lparr>sc_realm_id = realm, sc_entity_type = e, sc_last_cdc_cursor = Some t, sc_last_full_sweep = s\<rparr> \<and>
      t \<le> bk_clock b \<and> (\<forall>r \<in> set (bk_records b realm e). mi_last_updated r < t \<longrightarrow> held db realm r \<or> r \<in> set es))"
  shows "run_keeps n b realm e db db1" and "\<forall>r \<in> set es. held db1 realm r"
    and "mr_cursors db1 (realm, e) = (case cursor of None \<Rightarrow> mr_cursors db (realm, e) | Some c \<Rightarrow> Some (sc_last_cdc_cursor c, sc_last_full_sweep c))"
proof -
  let ?rs = "bk_records b realm e" and ?fresh = "filter (\<lambda>x. \<not> holds_this_version_or_newer db realm x) es"
  from run obtain applied where run': "apply_changes (dv_dec V) (dv_readers V) realm es cursor now db = Inr (applied, db1)"
    by (auto simp: apply_read_def split: sum.splits)
  note core = apply_changes_core[OF run' es(2)]
  have part: "set ?fresh \<subseteq> set ?rs" using es(1) by auto
  note app = applied_records[OF conjunct1[OF core] part ok]
  note keep = app(2)
  have na: "not_ahead db realm e ?rs" using step by (simp add: in_step_def)
  show now: "\<forall>r \<in> set es. held db1 realm r"
  proof
    fix r assume r: "r \<in> set es"
    show "held db1 realm r"
    proof (cases "holds_this_version_or_newer db realm r")
      case True
      have "r \<in> set ?rs" using r es(1) by blast
      then show ?thesis using keep skipped_is_held[OF na ok _ True] by blast
    qed (use app(1) r in simp)
  qed
  have cursors: "mr_cursors db1 = (case cursor of None \<Rightarrow> mr_cursors db | Some c \<Rightarrow> (mr_cursors db)((realm, e) \<mapsto> (sc_last_cdc_cursor c, sc_last_full_sweep c)))"
    using core cursor by (auto split: option.splits)
  then show "mr_cursors db1 (realm, e) = (case cursor of None \<Rightarrow> mr_cursors db (realm, e) | Some c \<Rightarrow> Some (sc_last_cdc_cursor c, sc_last_full_sweep c))"
    by (simp split: option.splits)
  have points: "mr_checkpoints db1 = mr_checkpoints db" using core by blast
  have "elsewhere realm e db db1"
    using app(4) cursors points by (auto simp: elsewhere_def split: option.splits)
  moreover have "in_step n b db1 realm e"
    unfolding in_step_def
  proof (intro conjI)
    show "not_ahead db1 realm e ?rs" by (rule app(3)[OF na])
    show "case mr_cursors db1 (realm, e) of Some (Some t, _) \<Rightarrow> t \<le> bk_clock b \<and> covered db1 realm t ?rs | _ \<Rightarrow> True"
    proof (cases cursor)
      case None
      then have "mr_cursors db1 (realm, e) = mr_cursors db (realm, e)" using cursors by simp
      then show ?thesis using step covered_kept[OF _ subset_refl keep] by (auto simp: in_step_def split: option.splits)
    next
      case (Some cu)
      then obtain t s where t: "mr_cursors db1 (realm, e) = Some (Some t, s)" "t \<le> bk_clock b"
        "\<forall>r \<in> set ?rs. mi_last_updated r < t \<longrightarrow> held db realm r \<or> r \<in> set es" using cursor cursors by auto
      then have "covered db1 realm t ?rs" using keep now unfolding covered_def by blast
      then show ?thesis using t by simp
    qed
    show "case mr_checkpoints db1 (realm, e) of None \<Rightarrow> True
      | Some cp \<Rightarrow> cp_started_at cp \<le> bk_clock b \<and> covered db1 realm (cp_started_at cp) (take (cp_next_start cp - n) ?rs)"
      using step points covered_kept[OF _ set_take_subset keep] by (auto simp: in_step_def split: option.splits)
  qed
  ultimately show "run_keeps n b realm e db db1" using keep by (simp add: run_keeps_def)
qed

end
