(* ===== verification/Sync_Outcome.thy ===== *)
theory Sync_Outcome
  imports Sync_Facts
begin

text \<open>
  The promise of the sync: whatever the service's book goes through between runs, and wherever a run
  stops, no cursor stands past a change the replica does not hold.
\<close>

section \<open>The poll\<close>

lemma cursor_after_server_time: "t \<le> clock \<Longrightarrow> cursor_after_read t (Some clock) seen = clock"
  by (simp add: cursor_after_read_def)

context honest_service
begin

text \<open>The backfill reads what changed in the window, a page at a time.\<close>

lemma backfill_runs:
  assumes V: "dv_client V = client" and ps: "0 < so_page_size (dv_options V)" and ok: "book_ok b" and cur: "cursor \<le> bk_clock b"
    and w: "w = \<lparr>ur_from = reach_back, ur_to = bk_clock b\<rparr>" "reach_back \<le> cursor"
    and "book c = b" and "in_step (so_page_size (dv_options V)) b db realm e"
    and "covered db realm cursor (bk_records b realm e)"
    and "\<forall>r \<in> set (take start (filter (in_window (Some w)) (bk_records b realm e))). held db realm r"
  shows "\<exists>r c' db'. backfill_loop V realm e cursor w (Some (bk_clock b)) sweep now newest start pages report c db = Some (r, c', db') \<and>
    book c' = b \<and> run_keeps (so_page_size (dv_options V)) b realm e db db' \<and>
    (\<forall>rep. r = Inr rep \<longrightarrow> mr_cursors db' (realm, e) = Some (Some (bk_clock b), sweep) \<and>
       (\<exists>k. es_path rep = CdcThenBackfill cursor k))"
  using assms(7-)
proof (induction "length (filter (in_window (Some w)) (bk_records b realm e)) - start"
    arbitrary: start newest pages report c db rule: less_induct)
  case less
  let ?n = "so_page_size (dv_options V)" and ?rs = "bk_records b realm e"
  let ?ws = "filter (in_window (Some w)) ?rs"
  obtain answer c1 where fetch: "fetch_page V realm e (Some w) start now c = (answer, c1)" by force
  note read = fetches[OF fetch V, unfolded less.prems(1)]
  have c1: "book c1 = b" using read by blast
  show ?case
  proof (cases answer)
    case (Inl err)
    then have "backfill_loop V realm e cursor w (Some (bk_clock b)) sweep now newest start pages report c db = Some (Inl err, c1, db)"
      by (subst backfill_loop.simps) (simp add: fetch)
    then show ?thesis using unapplied_keeps[OF less.prems(2)] c1 by blast
  next
    case (Inr page)
    then have es: "rg_entities page = take ?n (drop start ?ws)" using read by simp
    define final where "final = (length (rg_entities page) < ?n)"
    define newest' where "newest' = latest (map mi_last_updated (rg_entities page) @ (case newest of None \<Rightarrow> [] | Some t \<Rightarrow> [t]))"
    define cu where "cu = (if final then Some \<lparr>sc_realm_id = realm, sc_entity_type = e, sc_last_cdc_cursor = Some (bk_clock b),
        sc_last_full_sweep = sweep\<rparr> else None)"
    have unfolded: "backfill_loop V realm e cursor w (Some (bk_clock b)) sweep now newest start pages report c db =
        (case apply_read V realm (rg_entities page) cu now (request_counted report) db of
           Inl err \<Rightarrow> Some (Inl err, c1, db)
         | Inr (report, db1) \<Rightarrow>
             if final then Some (Inr (report\<lparr>es_path := CdcThenBackfill cursor (pages + 1)\<rparr>), c1, db1)
             else backfill_loop V realm e cursor w (Some (bk_clock b)) sweep now newest' (start + length (rg_entities page)) (pages + 1)
                    report c1 db1)"
      unfolding cu_def final_def newest'_def
      by (subst backfill_loop.simps) (simp add: fetch Inr Let_def cursor_after_server_time[OF cur] cong: if_cong split del: if_split)
    show ?thesis
    proof (cases "apply_read V realm (rg_entities page) cu now (request_counted report) db")
      case (Inl err)
      then show ?thesis unfolding unfolded using unapplied_keeps[OF less.prems(2)] c1 by auto
    next
      case stored: (Inr out)
      obtain report1 db1 where out: "out = (report1, db1)" by force
      have part: "set (rg_entities page) \<subseteq> set ?rs" unfolding es by (meson filter_is_subset order.trans set_drop_subset set_take_subset)
      have dist: "distinct (map (entity_key_of realm) (rg_entities page))"
        unfolding es take_map[symmetric] drop_map[symmetric]
        by (intro distinct_take distinct_drop distinct_map_filter record_keys_distinct[OF ok])
      have ready: "held db realm r \<or> r \<in> set (rg_entities page)" if "final" "r \<in> set ?rs" "mi_last_updated r < bk_clock b" for r
      proof (cases "reach_back \<le> mi_last_updated r")
        case True
        then have "r \<in> set ?ws" using that by (simp add: in_window_def w)
        then have "r \<in> set (take start ?ws) \<or> r \<in> set (drop start ?ws)"
          by (metis append_take_drop_id set_append Un_iff)
        moreover have "rg_entities page = drop start ?ws" using that(1) es by (simp add: final_def)
        ultimately show ?thesis using less.prems(4) by metis
      next
        case False
        then show ?thesis using less.prems(3) that(2) w(2) by (auto simp: covered_def)
      qed
      have "cu = None \<or> (\<exists>t s. cu = Some \<lparr>sc_realm_id = realm, sc_entity_type = e, sc_last_cdc_cursor = Some t, sc_last_full_sweep = s\<rparr> \<and>
          t \<le> bk_clock b \<and> (\<forall>r \<in> set ?rs. mi_last_updated r < t \<longrightarrow> held db realm r \<or> r \<in> set (rg_entities page)))"
        using ready by (auto simp: cu_def)
      note page = changes_stored[OF stored[unfolded out] part dist ok less.prems(2) this]
      show ?thesis
      proof (cases final)
        case True
        then show ?thesis unfolding unfolded stored out using page(1,3) c1 by (simp add: cu_def)
      next
        case False
        then have full: "length (rg_entities page) = ?n" using es by (simp add: final_def)
        then have "start + ?n \<le> length ?ws" using es ps by simp
        then have smaller: "length ?ws - (start + ?n) < length ?ws - start" using ps by linarith
        have keep: "held db realm r \<Longrightarrow> held db1 realm r" if "r \<in> set ?rs" for r using page(1) that by (simp add: run_keeps_def)
        have step1: "in_step ?n b db1 realm e" using page(1) by (simp add: run_keeps_def)
        have cov1: "covered db1 realm cursor ?rs" by (rule covered_kept[OF less.prems(3) subset_refl keep])
        have "take (start + ?n) ?ws = take start ?ws @ rg_entities page" unfolding es by (simp add: take_add)
        moreover have "set (take start ?ws) \<subseteq> set ?rs" by (meson filter_is_subset order.trans set_take_subset)
        ultimately have "\<forall>r \<in> set (take (start + ?n) ?ws). held db1 realm r" using less.prems(4) page(2) keep by auto
        from less.hyps[OF smaller c1 step1 cov1 this, of newest' "pages + 1" report1]
        obtain r c' db' where rest: "backfill_loop V realm e cursor w (Some (bk_clock b)) sweep now newest' (start + ?n) (pages + 1) report1 c1 db1 = Some (r, c', db')"
          "book c' = b" "run_keeps ?n b realm e db1 db'"
          "\<forall>rep. r = Inr rep \<longrightarrow> mr_cursors db' (realm, e) = Some (Some (bk_clock b), sweep) \<and> (\<exists>k. es_path rep = CdcThenBackfill cursor k)"
          by blast
        then show ?thesis unfolding unfolded stored out using False run_keeps_trans[OF page(1) rest(3)] by (simp add: full)
      qed
    qed
  qed
qed

lemma poll_runs:
  assumes V: "dv_client V = client" and ps: "0 < so_page_size (dv_options V)" and ok: "book_ok b"
    and cap: "so_cdc_response_cap (dv_options V) \<le> bk_cap b" and lap: "0 \<le> so_cdc_overlap (dv_options V)"
    and c: "book c = b" and step: "in_step (so_page_size (dv_options V)) b db realm e"
    and cur: "load_cursor db realm e = cu" "sc_last_cdc_cursor cu = Some since"
  shows "\<exists>r c' db'. poll V realm e cu since now c db = Some (r, c', db') \<and> book c' = b \<and>
    run_keeps (so_page_size (dv_options V)) b realm e db db' \<and>
    (\<forall>rep. r = Inr rep \<longrightarrow> mr_cursors db' (realm, e) = Some (Some (bk_clock b), sc_last_full_sweep cu) \<and>
       (es_path rep = Cdc since \<and> (\<forall>r \<in> set (bk_records b realm e). held db' realm r) \<or> (\<exists>k. es_path rep = CdcThenBackfill since k)))"
proof -
  let ?n = "so_page_size (dv_options V)" and ?rs = "bk_records b realm e"
  let ?reach = "since - so_cdc_overlap (dv_options V)" and ?rep = "request_counted (new_report e (Cdc since))"
  have since: "since \<le> bk_clock b" "covered db realm since ?rs"
    and cu: "cu = \<lparr>sc_realm_id = realm, sc_entity_type = e, sc_last_cdc_cursor = Some since, sc_last_full_sweep = sc_last_full_sweep cu\<rparr>"
    using step cur by (auto simp: in_step_def load_cursor_def split: option.splits prod.splits)
  obtain s c1 where s: "spend V realm now c = (s, c1)" by force
  have c1: "book c1 = b" using spends[OF s V] c by simp
  show ?thesis
  proof (cases s)
    case (Inl err)
    then show ?thesis using unapplied_keeps[OF step] c1 s by (auto simp: poll_def)
  next
    case granted: (Inr u)
    obtain answer c2 where q: "cl_cdc_page client realm [e] ?reach c1 = (answer, c2)" by force
    note read = cdc[OF q, unfolded c1]
    have c2: "book c2 = b" using read by blast
    show ?thesis
    proof (cases answer)
      case (Inl err)
      then show ?thesis using unapplied_keeps[OF step] c2 s q granted V by (auto simp: poll_def Let_def)
    next
      case (Inr page)
      then have es: "rg_entities page = take (bk_cap b) (filter (\<lambda>r. ?reach \<le> mi_last_updated r) ?rs)"
        and time: "rg_server_time page = Some (bk_clock b)" using read by simp_all
      have run: "poll V realm e cu since now c db =
          (if length (rg_entities page) < so_cdc_response_cap (dv_options V)
           then case apply_read V realm (rg_entities page) (Some (advance Complete (bk_clock b) cu)) now ?rep db of
                  Inl e \<Rightarrow> Some (Inl e, c2, db) | Inr (report, db) \<Rightarrow> Some (Inr report, c2, db)
           else backfill V realm e since ?reach (Some (bk_clock b)) now ?rep c2 db)"
        using s q granted Inr V since(1)
        by (simp add: poll_def Let_def time classify_response_with_cap_def cursor_after_server_time)
      show ?thesis
      proof (cases "length (rg_entities page) < so_cdc_response_cap (dv_options V)")
        case True
        then have all: "rg_entities page = filter (\<lambda>r. ?reach \<le> mi_last_updated r) ?rs" using es cap by simp
        have in_or: "held db realm r \<or> r \<in> set (rg_entities page)" if "r \<in> set ?rs" for r
          using that since(2) lap unfolding all by (cases "?reach \<le> mi_last_updated r") (auto simp: covered_def)
        have "advance Complete (bk_clock b) cu = \<lparr>sc_realm_id = realm, sc_entity_type = e, sc_last_cdc_cursor = Some (bk_clock b),
            sc_last_full_sweep = sc_last_full_sweep cu\<rparr>" using cu by (metis advance_def sync_cursor.update_convs(3))
        note adv = this
        show ?thesis
        proof (cases "apply_read V realm (rg_entities page) (Some (advance Complete (bk_clock b) cu)) now ?rep db")
          case (Inl err)
          then show ?thesis unfolding run using True unapplied_keeps[OF step] c2 by auto
        next
          case stored: (Inr out)
          obtain report1 db1 where out: "out = (report1, db1)" by force
          have "set (rg_entities page) \<subseteq> set ?rs" "distinct (map (entity_key_of realm) (rg_entities page))"
            unfolding all by (auto intro: distinct_map_filter record_keys_distinct[OF ok])
          note page' = changes_stored[OF stored[unfolded out] this ok step, unfolded adv]
          have ended: "run_keeps ?n b realm e db db1" "\<forall>r \<in> set (rg_entities page). held db1 realm r"
            "mr_cursors db1 (realm, e) = Some (Some (bk_clock b), sc_last_full_sweep cu)"
            using page' in_or by (auto simp: adv)
          have "\<forall>r \<in> set ?rs. held db1 realm r" using in_or ended(1,2) unfolding run_keeps_def by blast
          moreover have "es_path report1 = Cdc since"
            using stored unfolding out by (auto simp: apply_read_def count_batch_def request_counted_def new_report_def split: sum.splits)
          ultimately show ?thesis unfolding run stored out using True ended c2 by simp
        qed
      next
        case False
        have w: "since - so_cdc_overlap (dv_options V) \<le> since" using lap by simp
        have "sc_last_full_sweep (load_cursor db realm e) = sc_last_full_sweep cu" using cur by simp
        with backfill_runs[OF V ps ok since(1) refl w c2 step since(2), of 0 "sc_last_full_sweep cu" now None 0 ?rep]
        show ?thesis unfolding run backfill_def using False by fastforce
      qed
    qed
  qed
qed

text \<open>Whatever a sync of one type comes to, it ends and leaves the records in step.\<close>

lemma sync_runs:
  assumes V: "dv_client V = client" and ps: "0 < so_page_size (dv_options V)" and ok: "book_ok b"
    and cap: "so_cdc_response_cap (dv_options V) \<le> bk_cap b" and lap: "0 \<le> so_cdc_overlap (dv_options V)"
    and c: "book c = b" and step: "in_step (so_page_size (dv_options V)) b db realm e"
  shows "\<exists>r c' db'. sync_entity_type V realm e now c db = Some (r, c', db') \<and> book c' = b \<and>
    run_keeps (so_page_size (dv_options V)) b realm e db db' \<and>
    (\<forall>rep. r = Inr rep \<longrightarrow>
       (case es_path rep of
          SweepNotDue t \<Rightarrow> db' = db
        | FullSweep _ _ \<Rightarrow> mr_checkpoints db (realm, e) = None \<longrightarrow> (\<forall>r \<in> set (bk_records b realm e). held db' realm r)
        | Cdc _ \<Rightarrow> \<forall>r \<in> set (bk_records b realm e). held db' realm r
        | CdcThenBackfill _ _ \<Rightarrow> covered db' realm (bk_clock b) (bk_records b realm e)))"
proof -
  let ?n = "so_page_size (dv_options V)" and ?cu = "load_cursor db realm e"
  define not_due where "not_due = (case sc_last_full_sweep ?cu of
      Some last_full_sweep \<Rightarrow> \<not> cdc_coverage_confirmed e \<and> now - last_full_sweep < so_uncovered_sweep_interval (dv_options V) \<and>
        load_sweep_checkpoint db realm e = None
    | None \<Rightarrow> False)"
  show ?thesis
  proof (cases not_due)
    case True
    then show ?thesis using unapplied_keeps[OF step] c
      by (auto simp: sync_entity_type_def Let_def not_due_def new_report_def)
  next
    case False
    then have run: "sync_entity_type V realm e now c db =
        (case plan_sync ?cu now (so_cdc_max_age (dv_options V)) (cdc_coverage_confirmed e) of
           Full_sweep_for reason \<Rightarrow> full_sweep V realm e reason now c db
         | Cdc_from since \<Rightarrow> poll V realm e ?cu since now c db)"
      by (simp add: sync_entity_type_def Let_def not_due_def)
    show ?thesis
    proof (cases "plan_sync ?cu now (so_cdc_max_age (dv_options V)) (cdc_coverage_confirmed e)")
      case (Full_sweep_for reason)
      from full_sweep_runs[OF V ps ok c step, of reason now] show ?thesis unfolding run Full_sweep_for by fastforce
    next
      case (Cdc_from since)
      then have "sc_last_cdc_cursor ?cu = Some since" by (auto simp: plan_sync_def split: if_splits option.splits)
      from poll_runs[OF V ps ok cap lap c step refl this, of now]
      obtain r c' db' where p: "poll V realm e ?cu since now c db = Some (r, c', db')" "book c' = b" "run_keeps ?n b realm e db db'"
        "\<forall>rep. r = Inr rep \<longrightarrow> mr_cursors db' (realm, e) = Some (Some (bk_clock b), sc_last_full_sweep ?cu) \<and>
          (es_path rep = Cdc since \<and> (\<forall>r \<in> set (bk_records b realm e). held db' realm r) \<or>
           (\<exists>k. es_path rep = CdcThenBackfill since k))" by blast
      have "covered db' realm (bk_clock b) (bk_records b realm e)" if "r = Inr rep" for rep
        using p(3,4) that by (auto simp: run_keeps_def in_step_def)
      then show ?thesis unfolding run Cdc_from using p by fastforce
    qed
  qed
qed

end

section \<open>Over time\<close>

text \<open>
  What may happen to the service's book between two runs: records change and are added, each under a
  stamp not before the clock of the last time it was seen, with a token that does not go down, and
  none changes its place in the order the book is paged in.
\<close>

definition edits :: "book \<Rightarrow> book \<Rightarrow> bool" where
  "edits b b' \<longleftrightarrow> bk_clock b \<le> bk_clock b' \<and> bk_cap b' = bk_cap b \<and> book_ok b' \<and>
     (\<forall>realm e. length (bk_records b realm e) \<le> length (bk_records b' realm e) \<and>
       (\<forall>k < length (bk_records b' realm e). let r' = bk_records b' realm e ! k in
          if k < length (bk_records b realm e)
          then r' = bk_records b realm e ! k \<or>
            mi_qbo_id r' = mi_qbo_id (bk_records b realm e ! k) \<and> bk_clock b \<le> mi_last_updated r' \<and>
            token_le (mi_sync_token (bk_records b realm e ! k)) (mi_sync_token r')
          else bk_clock b \<le> mi_last_updated r'))"

lemma edits_early:
  assumes "edits b b'" "r \<in> set (take m (bk_records b' realm e))" "mi_last_updated r < bk_clock b"
  shows "r \<in> set (take m (bk_records b realm e))"
proof -
  from assms(2) obtain k where k: "k < m" "k < length (bk_records b' realm e)" "bk_records b' realm e ! k = r"
    by (auto simp: in_set_conv_nth)
  with assms(1,3) have "k < length (bk_records b realm e)" "r = bk_records b realm e ! k"
    by (fastforce simp: edits_def Let_def split: if_splits)+
  then show ?thesis using k(1) by (auto simp: in_set_conv_nth)
qed

lemma edits_at:
  assumes "edits b b'" "k < length (bk_records b realm e)"
  shows "k < length (bk_records b' realm e) \<and>
    (bk_records b' realm e ! k = bk_records b realm e ! k \<or>
     mi_qbo_id (bk_records b' realm e ! k) = mi_qbo_id (bk_records b realm e ! k) \<and> bk_clock b \<le> mi_last_updated (bk_records b' realm e ! k) \<and>
     token_le (mi_sync_token (bk_records b realm e ! k)) (mi_sync_token (bk_records b' realm e ! k)))"
proof -
  have "length (bk_records b realm e) \<le> length (bk_records b' realm e)"
    using assms(1)[unfolded edits_def, THEN conjunct2, THEN conjunct2, THEN conjunct2, THEN spec[of _ realm], THEN spec[of _ e]]
    by (rule conjunct1)
  with assms(2) have k: "k < length (bk_records b' realm e)" by linarith
  note all = assms(1)[unfolded edits_def, THEN conjunct2, THEN conjunct2, THEN conjunct2, THEN spec[of _ realm], THEN spec[of _ e],
      THEN conjunct2, THEN spec[of _ k]]
  show ?thesis using all k assms(2) by (simp add: Let_def)
qed

lemma edits_in_step:
  assumes "edits b b'" "book_ok b" "in_step n b db realm e"
  shows "in_step n b' db realm e"
proof -
  have clock: "bk_clock b \<le> bk_clock b'" using assms(1) by (simp add: edits_def)
  have moved: "\<exists>r' \<in> set (bk_records b' realm e). mi_qbo_id r' = mi_qbo_id r \<and> token_le (mi_sync_token r) (mi_sync_token r')"
    if r: "r \<in> set (bk_records b realm e)" for r
  proof -
    from r obtain k where k: "k < length (bk_records b realm e)" "bk_records b realm e ! k = r" by (auto simp: in_set_conv_nth)
    note now = edits_at[OF assms(1) k(1)]
    have "token_le (mi_sync_token r) (mi_sync_token r)" using assms(2) r by (auto simp: book_ok_def intro: token_le_refl)
    then have "mi_qbo_id (bk_records b' realm e ! k) = mi_qbo_id r \<and> token_le (mi_sync_token r) (mi_sync_token (bk_records b' realm e ! k))"
      using now k(2) by auto
    then show ?thesis using now nth_mem by blast
  qed
  have kept: "covered db realm t (take m (bk_records b' realm e))"
    if "covered db realm t (take m (bk_records b realm e))" "t \<le> bk_clock b" for t m
    using that edits_early[OF assms(1)] by (fastforce simp: covered_def)
  have all: "take (max (length (bk_records b realm e)) (length (bk_records b' realm e))) (bk_records b realm e) = bk_records b realm e"
    "take (max (length (bk_records b realm e)) (length (bk_records b' realm e))) (bk_records b' realm e) = bk_records b' realm e"
    by simp_all
  have kept_all: "covered db realm t (bk_records b' realm e)" if "covered db realm t (bk_records b realm e)" "t \<le> bk_clock b" for t
    using kept[of t "max (length (bk_records b realm e)) (length (bk_records b' realm e))"] that unfolding all by simp
  show ?thesis
    unfolding in_step_def
  proof (intro conjI)
    show "not_ahead db realm e (bk_records b' realm e)"
      unfolding not_ahead_def
    proof (intro allI impI)
      fix i row assume "entity_at db (realm, e, i) = Some row"
      then obtain r where r: "r \<in> set (bk_records b realm e)" "mi_qbo_id r = i" "token_le (er_sync_token row) (mi_sync_token r)"
        using assms(3) unfolding in_step_def not_ahead_def by blast
      obtain r' where r': "r' \<in> set (bk_records b' realm e)" "mi_qbo_id r' = mi_qbo_id r" "token_le (mi_sync_token r) (mi_sync_token r')"
        using moved[OF r(1)] by blast
      from r' r(2) token_le_trans[OF r(3) r'(3)]
      show "\<exists>r \<in> set (bk_records b' realm e). mi_qbo_id r = i \<and> token_le (er_sync_token row) (mi_sync_token r)" by blast
    qed
    show "case mr_cursors db (realm, e) of Some (Some t, _) \<Rightarrow> t \<le> bk_clock b' \<and> covered db realm t (bk_records b' realm e) | _ \<Rightarrow> True"
      using assms(3) clock kept_all by (auto simp: in_step_def split: option.splits)
    show "case mr_checkpoints db (realm, e) of None \<Rightarrow> True
      | Some cp \<Rightarrow> cp_started_at cp \<le> bk_clock b' \<and> covered db realm (cp_started_at cp) (take (cp_next_start cp - n) (bk_records b' realm e))"
      using assms(3) clock kept by (auto simp: in_step_def split: option.splits)
  qed
qed

text \<open>
  A replica over time: runs of any type for any company at any local time, ended by whatever ends them,
  and edits of the service's book in between.
\<close>

inductive mirror_step :: "'c driver \<Rightarrow> ('c \<Rightarrow> book) \<Rightarrow> 'c \<times> mirror \<Rightarrow> 'c \<times> mirror \<Rightarrow> bool" for V book where
  run: "sync_entity_type V realm e now c db = Some (r, c', db') \<Longrightarrow> mirror_step V book (c, db) (c', db')"
| edit: "edits (book c) (book c') \<Longrightarrow> mirror_step V book (c, db) (c', db)"

inductive_cases mirror_stepE: "mirror_step V book (c, db) (c', db')"

definition fresh_replica :: "mirror \<Rightarrow> bool" where
  "fresh_replica db \<longleftrightarrow> mr_entities db = [] \<and> mr_cursors db = Map.empty \<and> mr_checkpoints db = Map.empty"

lemma fresh_in_step: "fresh_replica db \<Longrightarrow> in_step n b db realm e"
  by (simp add: fresh_replica_def in_step_def not_ahead_def entity_at_def)

context honest_service
begin

lemma steps_in_step:
  assumes V: "dv_client V = client" and ps: "0 < so_page_size (dv_options V)" and lap: "0 \<le> so_cdc_overlap (dv_options V)"
    and steps: "(mirror_step V book)\<^sup>*\<^sup>* (c0, db0) (c, db)"
    and ok: "book_ok (book c0)" and cap: "so_cdc_response_cap (dv_options V) \<le> bk_cap (book c0)" and fresh: "fresh_replica db0"
  shows "book_ok (book c) \<and> so_cdc_response_cap (dv_options V) \<le> bk_cap (book c) \<and>
    (\<forall>realm e. in_step (so_page_size (dv_options V)) (book c) db realm e)"
  using steps
proof (induction "(c, db)" arbitrary: c db rule: rtranclp_induct)
  case base
  then show ?case using ok cap fresh_in_step[OF fresh] by blast
next
  case (step y)
  obtain c1 db1 where y: "y = (c1, db1)" by force
  note before = step(3)[OF y]
  from step(2)[unfolded y] show ?case
  proof (rule mirror_stepE)
    fix realm e now r assume run: "sync_entity_type V realm e now c1 db1 = Some (r, c, db)"
    from sync_runs[OF V ps conjunct1[OF before] _ lap refl, of db1 realm e now] before run
    have same: "book c = book c1" and kept: "run_keeps (so_page_size (dv_options V)) (book c1) realm e db1 db" by auto
    have "in_step (so_page_size (dv_options V)) (book c1) db realm' e'" for realm' e'
    proof (cases "(realm', e') = (realm, e)")
      case True
      then show ?thesis using kept by (simp add: run_keeps_def)
    next
      case False
      then show ?thesis using kept before elsewhere_in_step[OF _ False] by (auto simp: run_keeps_def)
    qed
    then show ?thesis using before same by auto
  next
    assume e: "db = db1" "edits (book c1) (book c)"
    then show ?thesis using before edits_in_step[OF e(2)] by (auto simp: edits_def)
  qed
qed

end



end
