(* ===== verification/Reconcile_Facts.thy ===== *)
theory Reconcile_Facts
  imports Reconcile Sync_Outcome
begin

text \<open>
  What a reconciliation leaves: over any service that keeps its promises it ends, and when it ends well
  the replica agrees with the service on every live record and has set the rest aside.
\<close>

section \<open>The live records\<close>

lemma extend_live_append: "extend_live (xs @ ys) remote = extend_live ys (extend_live xs remote)"
  by (simp add: extend_live_def)

lemma extend_live_Nil [simp]: "extend_live [] remote = remote"
  by (simp add: extend_live_def)

lemma extend_live_Cons:
  "extend_live (p # ps) remote = extend_live ps (if mi_is_deleted p then remote else AList.update (mi_qbo_id p) p remote)"
  by (simp add: extend_live_def)

lemma extend_live_keys:
  "distinct (map fst remote) \<Longrightarrow> distinct (map fst (extend_live ps remote)) \<and>
   fst ` set (extend_live ps remote) = fst ` set remote \<union> mi_qbo_id ` {p \<in> set ps. \<not> mi_is_deleted p}"
proof (induction ps arbitrary: remote)
  case (Cons p ps)
  have d: "distinct (map fst (if mi_is_deleted p then remote else AList.update (mi_qbo_id p) p remote))"
    using Cons.prems by (simp add: distinct_update)
  show ?case using Cons.IH[OF d] by (auto simp: extend_live_Cons dom_update image_iff)
qed simp

lemma extend_live_of:
  "distinct (map mi_qbo_id ps) \<Longrightarrow> map_of (extend_live ps remote) i = Some p \<longleftrightarrow>
     p \<in> set ps \<and> \<not> mi_is_deleted p \<and> mi_qbo_id p = i \<or>
     map_of remote i = Some p \<and> i \<notin> mi_qbo_id ` {p \<in> set ps. \<not> mi_is_deleted p}"
proof (induction ps arbitrary: remote)
  case (Cons q ps)
  then have "mi_qbo_id q \<notin> mi_qbo_id ` set ps" "distinct (map mi_qbo_id ps)" by simp_all
  then show ?case
    by (auto simp: extend_live_Cons Cons.IH update_conv' split: if_splits)
qed simp

text \<open>What is read of a book: its live records, each once.\<close>

lemma by_id_live:
  assumes "distinct (map mi_qbo_id rs)"
  shows "set (by_id (extend_live rs [])) = {p \<in> set rs. \<not> mi_is_deleted p}"
    and "distinct (map mi_qbo_id (by_id (extend_live rs [])))"
    and "i \<in> fst ` set (extend_live rs []) \<longleftrightarrow> (\<exists>p \<in> set rs. \<not> mi_is_deleted p \<and> mi_qbo_id p = i)"
proof -
  let ?m = "extend_live rs []"
  have keys: "distinct (map fst ?m)" "fst ` set ?m = mi_qbo_id ` {p \<in> set rs. \<not> mi_is_deleted p}"
    using extend_live_keys[of "[]" rs] by simp_all
  have of: "map_of ?m i = Some p \<longleftrightarrow> p \<in> set rs \<and> \<not> mi_is_deleted p \<and> mi_qbo_id p = i" for i p
    using extend_live_of[OF assms, of "[]"] by simp
  have the: "the (map_of ?m (mi_qbo_id p)) = p" if "p \<in> set rs" "\<not> mi_is_deleted p" for p
    using of[of "mi_qbo_id p" p] that by simp
  have "set (by_id ?m) = (\<lambda>i. the (map_of ?m i)) ` fst ` set ?m" by (simp add: by_id_def)
  also have "\<dots> = (\<lambda>p. the (map_of ?m (mi_qbo_id p))) ` {p \<in> set rs. \<not> mi_is_deleted p}" unfolding keys(2) by (simp add: image_image)
  also have "\<dots> = (\<lambda>p. p) ` {p \<in> set rs. \<not> mi_is_deleted p}" by (rule image_cong) (simp_all add: the)
  finally show "set (by_id ?m) = {p \<in> set rs. \<not> mi_is_deleted p}" by simp
  have "map mi_qbo_id (by_id ?m) = map (\<lambda>i. i) (sort (map fst ?m))"
    unfolding by_id_def map_map
  proof (rule map_cong)
    fix i assume "i \<in> set (sort (map fst ?m))"
    then obtain p where "p \<in> set rs" "\<not> mi_is_deleted p" "i = mi_qbo_id p" using keys(2) by auto
    then show "(mi_qbo_id \<circ> (\<lambda>i. the (map_of ?m i))) i = i" using the by simp
  qed simp
  then show "distinct (map mi_qbo_id (by_id ?m))" using keys(1) by simp
  show "i \<in> fst ` set ?m \<longleftrightarrow> (\<exists>p \<in> set rs. \<not> mi_is_deleted p \<and> mi_qbo_id p = i)" unfolding keys(2) by auto
qed

context honest_service
begin

lemma read_live_ends:
  assumes V: "dv_client V = client" and ps: "0 < so_page_size (dv_options V)" and "book c = b"
  shows "\<exists>r c'. read_live V realm e now start remote k c = Some (r, c') \<and> book c' = b \<and>
    (\<forall>remote' k'. r = Inr (remote', k') \<longrightarrow> remote' = extend_live (drop start (bk_records b realm e)) remote)"
  using assms(3)
proof (induction "length (bk_records b realm e) - start" arbitrary: start remote k c rule: less_induct)
  case less
  let ?n = "so_page_size (dv_options V)" and ?rs = "bk_records b realm e"
  obtain answer c1 where fetch: "fetch_page V realm e None start now c = (answer, c1)" by force
  note read = fetches[OF fetch V, unfolded less.prems(1)]
  have c1: "book c1 = b" using read by blast
  show ?case
  proof (cases answer)
    case (Inl err)
    then have "read_live V realm e now start remote k c = Some (Inl err, c1)" by (subst read_live.simps) (simp add: fetch)
    then show ?thesis using c1 by blast
  next
    case (Inr page)
    have "in_window None = (\<lambda>_. True)" by (simp add: in_window_def fun_eq_iff)
    then have es: "rg_entities page = take ?n (drop start ?rs)" using read Inr by simp
    have unfolded: "read_live V realm e now start remote k c =
        (if length (rg_entities page) < ?n then Some (Inr (extend_live (rg_entities page) remote, k + 1), c1)
         else read_live V realm e now (start + length (rg_entities page)) (extend_live (rg_entities page) remote) (k + 1) c1)"
      by (subst read_live.simps) (simp add: fetch Inr Let_def)
    show ?thesis
    proof (cases "length (rg_entities page) < ?n")
      case True
      then have "rg_entities page = drop start ?rs" unfolding es by simp
      then show ?thesis unfolding unfolded using True c1 by simp
    next
      case False
      then have full: "length (rg_entities page) = ?n" unfolding es by simp
      then have "start + ?n \<le> length ?rs" using es ps by simp
      then have smaller: "length ?rs - (start + ?n) < length ?rs - start" using ps by linarith
      have split: "drop start ?rs = rg_entities page @ drop (start + ?n) ?rs"
        unfolding es by (metis append_take_drop_id drop_drop add.commute)
      show ?thesis
        using less.hyps[OF smaller c1, of "extend_live (rg_entities page) remote" "k + 1"]
        unfolding unfolded split extend_live_append by (simp add: full)
    qed
  qed
qed

end


section \<open>Setting aside\<close>

lemma core_keeps:
  assumes "core db' = core db"
  shows "entity_at db' = entity_at db" "held db' = held db" "mr_cursors db' = mr_cursors db"
    "in_step n b db' realm e = in_step n b db realm e" "elsewhere realm e db db'" "mr_realms db' = mr_realms db"
proof -
  have same: "mr_realms db' = mr_realms db" "mr_entities db' = mr_entities db" "mr_cursors db' = mr_cursors db"
    "mr_checkpoints db' = mr_checkpoints db" using assms by (simp_all add: core_def)
  show "mr_cursors db' = mr_cursors db" "mr_realms db' = mr_realms db" by (fact same)+
  show rows: "entity_at db' = entity_at db" using same by (simp add: fun_eq_iff entity_at_def)
  show held: "held db' = held db" unfolding held_def rows ..
  show "in_step n b db' realm e = in_step n b db realm e"
    unfolding in_step_def not_ahead_def covered_def rows held same ..
  show "elsewhere realm e db db'" unfolding elsewhere_def rows same by simp
qed

lemma quarantine_extras_facts:
  assumes "quarantine_extras realm e reason now rows (found, q, s) db = (r, db')"
  shows "core db' = core db"
    and "r = Inr (found', q', s') \<Longrightarrow> found' = found @ map (Extra \<circ> ix_qbo_id) (filter (\<lambda>row. ix_last_updated row < now) rows) \<and>
      (\<forall>key. mr_quarantine db key \<noteq> None \<longrightarrow> mr_quarantine db' key \<noteq> None) \<and>
      (\<forall>row \<in> set rows. ix_last_updated row < now \<longrightarrow> entity_at db (realm, e, ix_qbo_id row) \<noteq> None \<longrightarrow>
         mr_quarantine db' (realm, e, ix_qbo_id row) \<noteq> None)"
proof -
  have "core db' = core db \<and> (\<forall>found' q' s'. r = Inr (found', q', s') \<longrightarrow>
      found' = found @ map (Extra \<circ> ix_qbo_id) (filter (\<lambda>row. ix_last_updated row < now) rows) \<and>
      (\<forall>key. mr_quarantine db key \<noteq> None \<longrightarrow> mr_quarantine db' key \<noteq> None) \<and>
      (\<forall>row \<in> set rows. ix_last_updated row < now \<longrightarrow> entity_at db (realm, e, ix_qbo_id row) \<noteq> None \<longrightarrow>
         mr_quarantine db' (realm, e, ix_qbo_id row) \<noteq> None))"
    using assms
  proof (induction rows arbitrary: found q s db)
    case (Cons row rows)
    show ?case
    proof (cases "now \<le> ix_last_updated row")
      case True
      then show ?thesis using Cons.IH[of found q "s + 1" db] Cons.prems by auto
    next
      case old: False
      show ?thesis
      proof (cases "get_entity db realm e (ix_qbo_id row)")
        case None
        then show ?thesis using Cons.IH[of "found @ [Extra (ix_qbo_id row)]" q s db] Cons.prems old by (auto simp: get_entity_def)
      next
        case (Some f)
        then have key: "entity_key_of realm f = (realm, e, ix_qbo_id row)" by (auto simp: get_entity_def entity_key_of_def)
        show ?thesis
        proof (cases "quarantine realm f reason now db")
          case (Inl err)
          then show ?thesis using Cons.prems old Some by auto
        next
          case (Inr db1)
          have c1: "core db1 = core db" by (rule quarantine_core[OF Inr])
          have q1: "mr_quarantine db1 = (mr_quarantine db)((realm, e, ix_qbo_id row) \<mapsto>
              \<lparr>qr_reason = reason, qr_raw_json = mi_raw_json f, qr_quarantined_at = now\<rparr>)"
            using Inr by (auto simp: quarantine_def key)
          note rest = Cons.IH[of "found @ [Extra (ix_qbo_id row)]" "q + 1" s db1]
          have "quarantine_extras realm e reason now rows (found @ [Extra (ix_qbo_id row)], q + 1, s) db1 = (r, db')"
            using Cons.prems old Some Inr by simp
          note rest = rest[OF this]
          have "mr_quarantine db1 key \<noteq> None" if "mr_quarantine db key \<noteq> None \<or> key = (realm, e, ix_qbo_id row)" for key
            using that q1 by auto
          then show ?thesis using rest c1 old core_keeps(1)[OF c1] by (simp del: not_None_eq)
        qed
      qed
    qed
  qed auto
  then show "core db' = core db" "r = Inr (found', q', s') \<Longrightarrow>
      found' = found @ map (Extra \<circ> ix_qbo_id) (filter (\<lambda>row. ix_last_updated row < now) rows) \<and>
      (\<forall>key. mr_quarantine db key \<noteq> None \<longrightarrow> mr_quarantine db' key \<noteq> None) \<and>
      (\<forall>row \<in> set rows. ix_last_updated row < now \<longrightarrow> entity_at db (realm, e, ix_qbo_id row) \<noteq> None \<longrightarrow>
         mr_quarantine db' (realm, e, ix_qbo_id row) \<noteq> None)" by blast+
qed

text \<open>The index reads the rows by id.\<close>

lemma local_by_id_row:
  "local_by_id (entity_index db realm e) i =
     map_option (\<lambda>row. \<lparr>ix_qbo_id = i, ix_last_updated = er_last_updated row, ix_is_deleted = er_is_deleted row\<rparr>) (entity_at db (realm, e, i))"
proof -
  have "map_of (map (\<lambda>row. (ix_qbo_id row, row)) (map (\<lambda>((_, _, i), row). \<lparr>ix_qbo_id = i, ix_last_updated = er_last_updated row, ix_is_deleted = er_is_deleted row\<rparr>)
      (filter (\<lambda>((r, t, _), _). r = realm \<and> t = e) rows))) i =
    map_option (\<lambda>row. \<lparr>ix_qbo_id = i, ix_last_updated = er_last_updated row, ix_is_deleted = er_is_deleted row\<rparr>) (map_of rows (realm, e, i))" for rows
    by (induction rows) auto
  then show ?thesis by (simp add: local_by_id_def entity_index_def entity_at_def)
qed

text \<open>The replica has a record as the service does, or later: nothing for a reconciliation to heal.\<close>

definition agrees :: "mirror \<Rightarrow> realm_id \<Rightarrow> mirrored \<Rightarrow> bool" where
  "agrees db realm p \<longleftrightarrow> (case entity_at db (entity_key_of realm p) of
     None \<Rightarrow> False | Some row \<Rightarrow> \<not> er_is_deleted row \<and> mi_last_updated p \<le> er_last_updated row)"

lemma compare_row_None:
  "entity_key_of realm p = (realm, e, mi_qbo_id p) \<Longrightarrow>
   compare_row (local_by_id (entity_index db realm e)) p = None \<longleftrightarrow> agrees db realm p"
  by (auto simp: compare_row_def Let_def local_by_id_row agrees_def split: option.splits)

lemma held_agrees: "held db realm p \<Longrightarrow> \<not> mi_is_deleted p \<Longrightarrow> agrees db realm p"
  by (auto simp: held_def agrees_def version_def version_of_def)


section \<open>A reconciliation\<close>

text \<open>Healing: the records asked for are held, the other rows and the cursors are as they were.\<close>

lemma heal_stored:
  assumes run: "(if es = [] then Inr (report, db) else apply_read V realm es None now report db) = Inr (report', db1)"
    and es: "set es \<subseteq> set (bk_records b realm e)" "distinct (map (entity_key_of realm) es)"
    and ok: "book_ok b" and step: "in_step n b db realm e"
  shows "run_keeps n b realm e db db1 \<and> (\<forall>r \<in> set es. held db1 realm r) \<and> mr_cursors db1 = mr_cursors db \<and>
    (\<forall>key. key \<notin> entity_key_of realm ` set es \<longrightarrow> entity_at db1 key = entity_at db key)"
proof (cases "es = []")
  case True
  then show ?thesis using run unapplied_keeps[OF step] by simp
next
  case False
  then have run': "apply_read V realm es None now report db = Inr (report', db1)" using run by simp
  then obtain applied where "apply_changes (dv_dec V) (dv_readers V) realm es None now db = Inr (applied, db1)"
    by (auto simp: apply_read_def split: sum.splits)
  note core = apply_changes_core[OF this es(2)]
  note stored = changes_stored[OF run' es ok step]
  have "entity_at db1 key = entity_at db key" if "key \<notin> entity_key_of realm ` set es" for key
    using core that unfolding applied_to_def by (metis (no_types, lifting) filter_is_subset image_mono subsetD)
  then show ?thesis using stored core by simp
qed

context honest_service
begin

lemma reconcile_runs:
  assumes V: "dv_client V = client" and ps: "0 < so_page_size (dv_options V)" and ok: "book_ok b"
    and c: "book c = b" and step: "in_step (so_page_size (dv_options V)) b db realm e"
  shows "\<exists>r c' db'. reconcile_entity_type V stamp realm e now c db = Some (r, c', db') \<and> book c' = b \<and>
    run_keeps (so_page_size (dv_options V)) b realm e db db' \<and> mr_cursors db' = mr_cursors db \<and>
    (\<forall>report. r = Inr report \<longrightarrow>
       (\<forall>p \<in> set (bk_records b realm e). \<not> mi_is_deleted p \<longrightarrow> agrees db' realm p) \<and>
       (\<forall>i row. entity_at db (realm, e, i) = Some row \<longrightarrow> \<not> er_is_deleted row \<longrightarrow> er_last_updated row < now \<longrightarrow>
          (\<forall>p \<in> set (bk_records b realm e). mi_qbo_id p = i \<longrightarrow> mi_is_deleted p) \<longrightarrow>
          entity_at db' (realm, e, i) = Some row \<and> mr_quarantine db' (realm, e, i) \<noteq> None) \<and>
       ((\<forall>p \<in> set (bk_records b realm e). \<not> mi_is_deleted p \<longrightarrow> agrees db realm p) \<longrightarrow>
          rr_healed report = 0 \<and> (\<forall>d \<in> set (rr_discrepancies report). \<exists>i. d = Extra i)))"
proof -
  let ?n = "so_page_size (dv_options V)" and ?rs = "bk_records b realm e" and ?rows = "entity_index db realm e"
  obtain read c1 where read: "read_live V realm e now 0 [] 0 c = Some (read, c1)" "book c1 = b"
    "\<forall>remote k. read = Inr (remote, k) \<longrightarrow> remote = extend_live ?rs []"
    using read_live_ends[OF V ps c, of realm e now 0 "[]" 0] by auto
  show ?thesis
  proof (cases read)
    case (Inl err)
    then show ?thesis using read unapplied_keeps[OF step] by (simp add: reconcile_entity_type_def)
  next
    case (Inr out)
    then obtain k where out: "read = Inr (extend_live ?rs [], k)" using read(3) by (cases out) auto
    define remote where "remote = extend_live ?rs []"
    define judge where "judge = compare_row (local_by_id ?rows)"
    define ill where "ill = filter (\<lambda>p. judge p \<noteq> None) (by_id remote)"
    define extras where "extras = sort_key ix_qbo_id (filter (\<lambda>row. \<not> ix_is_deleted row \<and> ix_qbo_id row \<notin> fst ` set remote) ?rows)"
    have ids: "distinct (map mi_qbo_id ?rs)" using ok by (simp add: book_ok_def)
    note live = by_id_live[OF ids, folded remote_def]
    have key: "entity_key_of realm p = (realm, e, mi_qbo_id p)" if "p \<in> set ?rs" for p by (rule record_key[OF ok that])
    have part: "set ill \<subseteq> set ?rs" unfolding ill_def using live(1) by auto
    have dist: "distinct (map (entity_key_of realm) ill)"
    proof -
      have "distinct (map mi_qbo_id ill)" unfolding ill_def by (rule distinct_map_filter[OF live(2)])
      then show ?thesis using key part by (auto simp: distinct_map inj_on_def subset_iff)
    qed
    have unfolded: "reconcile_entity_type V stamp realm e now c db =
        (case (if ill = [] then Inr (new_report e (FullSweep NoCursor 0), db) else apply_read V realm ill None now (new_report e (FullSweep NoCursor 0)) db) of
           Inl err \<Rightarrow> Some (Inl err, c1, db)
         | Inr (_, db) \<Rightarrow>
             (case quarantine_extras realm e (quarantine_reason stamp now) now extras (List.map_filter judge (by_id remote), 0, 0) db of
                (Inl err, db) \<Rightarrow> Some (Inl (SyncStore err), c1, db)
              | (Inr (found, quarantined, skipped), db) \<Rightarrow>
                  Some (Inr \<lparr>rr_entity_type = e, rr_remote = length remote,
                      rr_local = length (filter (\<lambda>row. \<not> ix_is_deleted row) ?rows), rr_discrepancies = found,
                      rr_healed = length ill, rr_quarantined_extra = quarantined, rr_skipped_recent = skipped, rr_requests = k\<rparr>, c1, db)))"
    proof -
      have "map fst (filter (\<lambda>(_, d). d \<noteq> None) (map (\<lambda>p. (p, judge p)) xs)) = filter (\<lambda>p. judge p \<noteq> None) xs"
        "List.map_filter snd (map (\<lambda>p. (p, judge p)) xs) = List.map_filter judge xs" for xs :: "mirrored list"
        by (induction xs) (auto simp: map_filter_simps split: option.split)
      then show ?thesis
        unfolding reconcile_entity_type_def read(1) out bind.bind_lunit
        by (simp only: Let_def prod.case sum.case remote_def[symmetric] judge_def[symmetric] ill_def[symmetric] extras_def[symmetric])
    qed
    show ?thesis
    proof (cases "if ill = [] then Inr (new_report e (FullSweep NoCursor 0), db) else apply_read V realm ill None now (new_report e (FullSweep NoCursor 0)) db")
      case (Inl err)
      then show ?thesis unfolding unfolded using unapplied_keeps[OF step] read(2) by (simp split del: if_split)
    next
      case healed: (Inr out)
      obtain report1 db1 where o: "out = (report1, db1)" by force
      note h = heal_stored[OF healed[unfolded o] part dist ok step]
      obtain q db2 where q: "quarantine_extras realm e (quarantine_reason stamp now) now extras (List.map_filter judge (by_id remote), 0, 0) db1 = (q, db2)"
        by force
      note aside = quarantine_extras_facts[OF q]
      note same = core_keeps[OF aside(1)]
      have keeps: "run_keeps ?n b realm e db db2" "mr_cursors db2 = mr_cursors db"
        using h same elsewhere_trans by (auto simp: run_keeps_def)
      have agree: "agrees db2 realm p" if p: "p \<in> set ?rs" "\<not> mi_is_deleted p" for p
      proof (cases "p \<in> set ill")
        case True
        then show ?thesis using h same(2) held_agrees p(2) by metis
      next
        case False
        then have "agrees db realm p" using p live(1) compare_row_None[OF key[OF p(1)]] by (auto simp: ill_def judge_def)
        moreover have "entity_key_of realm p \<notin> entity_key_of realm ` set ill"
        proof
          assume "entity_key_of realm p \<in> entity_key_of realm ` set ill"
          then obtain s where "s \<in> set ill" "mi_qbo_id s = mi_qbo_id p" using key part p(1) by auto
          then show False using False p(1) part ids by (auto simp: distinct_map dest: inj_onD)
        qed
        ultimately show ?thesis using h same(1) unfolding agrees_def by metis
      qed
      have set_aside: "entity_at db2 (realm, e, i) = Some row \<and> mr_quarantine db2 (realm, e, i) \<noteq> None"
        if i: "entity_at db (realm, e, i) = Some row" "\<not> er_is_deleted row" "er_last_updated row < now"
          "\<forall>p \<in> set ?rs. mi_qbo_id p = i \<longrightarrow> mi_is_deleted p" and fin: "q = Inr (found, x, y)" for i row found x y
      proof -
        let ?row = "\<lparr>ix_qbo_id = i, ix_last_updated = er_last_updated row, ix_is_deleted = er_is_deleted row\<rparr>"
        have "local_by_id ?rows i = Some ?row" using i(1) by (simp add: local_by_id_row)
        then have "?row \<in> set ?rows" unfolding local_by_id_def by (auto dest!: map_of_SomeD)
        moreover have "i \<notin> fst ` set remote" using i(4) live(3) by blast
        ultimately have extra: "?row \<in> set extras" using i(2) by (simp add: extras_def)
        have "(realm, e, i) \<notin> entity_key_of realm ` set ill"
        proof
          assume "(realm, e, i) \<in> entity_key_of realm ` set ill"
          then obtain s where "s \<in> set ill" "mi_qbo_id s = i" using key part by auto
          then show False using i(4) live(1) by (auto simp: ill_def)
        qed
        then have at1: "entity_at db1 (realm, e, i) = Some row" using h i(1) by metis
        then show ?thesis using aside(2)[OF fin] extra i(3) same(1) by force
      qed
      have clean: "ill = [] \<and> List.map_filter judge (by_id remote) = []" if "\<forall>p \<in> set ?rs. \<not> mi_is_deleted p \<longrightarrow> agrees db realm p"
      proof -
        have "judge p = None" if "p \<in> set (by_id remote)" for p
          using that live(1) \<open>\<forall>p \<in> set ?rs. _\<close> compare_row_None[OF key] by (auto simp: judge_def)
        then show ?thesis by (auto simp: ill_def map_filter_def filter_empty_conv)
      qed
      show ?thesis
      proof (cases q)
        case (Inl err)
        then show ?thesis unfolding unfolded healed o using q keeps read(2) by simp
      next
        case (Inr res)
        obtain found x y where res: "res = (found, x, y)" by (cases res)
        have ended: "reconcile_entity_type V stamp realm e now c db =
            Some (Inr \<lparr>rr_entity_type = e, rr_remote = length remote,
                      rr_local = length (filter (\<lambda>row. \<not> ix_is_deleted row) ?rows), rr_discrepancies = found,
                      rr_healed = length ill, rr_quarantined_extra = x, rr_skipped_recent = y, rr_requests = k\<rparr>, c1, db2)"
          unfolding unfolded healed o using q Inr res by simp
        have found: "found = List.map_filter judge (by_id remote) @ map (Extra \<circ> ix_qbo_id) (filter (\<lambda>row. ix_last_updated row < now) extras)"
          using aside(2) Inr res by simp
        show ?thesis
          unfolding ended using keeps read(2) agree set_aside Inr res clean by (auto simp: found)
      qed
    qed
  qed
qed

end


end
