(* ===== verification/Sync_Examples.thy ===== *)
theory Sync_Examples
  imports Sync_Outcome
begin

text \<open>
  The sync at work against the double: a company with two payment terms, swept once, edited and polled;
  and the sweep that is resumed after too much has moved.
\<close>

section \<open>A company with two terms\<close>

definition plain_readers :: readers where
  "plain_readers = \<lparr>rd_exact_f64 = (\<lambda>_. True), rd_decimal = (\<lambda>_. None), rd_to_string = (\<lambda>_. [])\<rparr>"

definition home :: realm_id where
  "home = RealmId ''1''"

definition payment_term :: "string \<Rightarrow> string \<Rightarrow> int \<Rightarrow> mirrored" where
  "payment_term i token t =
     \<lparr>mi_entity_type = Term, mi_qbo_id = i, mi_sync_token = token, mi_last_updated = t, mi_is_deleted = False, mi_raw_json = JObject []\<rparr>"

definition two_terms :: mock where
  "two_terms = seed_entity home (payment_term ''2'' ''0'' 5) (seed_entity home (payment_term ''1'' ''0'' 3) (new_mock 10))"

definition sample_driver :: "nat \<Rightarrow> (nat \<times> mock) driver" where
  "sample_driver page_size =
     \<lparr>dv_dec = reference_ops, dv_readers = plain_readers, dv_client = mock_client,
      dv_options = default_sync_options\<lparr>so_page_size := page_size\<rparr>\<rparr>"

definition empty_mirror :: mirror where
  "empty_mirror =
     \<lparr>mr_realms = {home}, mr_entities = [], mr_cursors = (\<lambda>_. None), mr_checkpoints = (\<lambda>_. None), mr_quarantine = (\<lambda>_. None),
      mr_contacts = (\<lambda>_. None), mr_items = (\<lambda>_. None), mr_accounts = (\<lambda>_. None), mr_classes = (\<lambda>_. None), mr_documents = (\<lambda>_. None),
      mr_lines = (\<lambda>_. []), mr_links = (\<lambda>_. [])\<rparr>"

text \<open>A call to the double that is let through and not scripted to fail.\<close>

lemma double_page:
  "0 < budget \<Longrightarrow> mk_scripted_failures m = [] \<Longrightarrow>
   fetch_page (sample_driver n) realm e w start now (budget, m) =
     (Inr \<lparr>rg_entities = take n (drop start (filter (in_window w) (sorted_records m realm e))), rg_server_time = Some (mk_clock m)\<rparr>,
      (budget - 1, m))"
  by (simp add: fetch_page_def spend_def sample_driver_def mock_client_def mock_query_page_def)

text \<open>Terms are mirrored as they are: nothing is projected from them.\<close>

definition stored :: "int \<Rightarrow> mirrored list \<Rightarrow> (entity_id \<times> entity_row) list \<Rightarrow> (entity_id \<times> entity_row) list" where
  "stored now rs rows = foldl (\<lambda>rows r. AList.update (entity_key_of home r) (row_of r now) rows) rows rs"

definition term_only :: "mirrored \<Rightarrow> bool" where
  "term_only r \<longleftrightarrow> mi_entity_type r = Term \<and> \<not> mi_is_deleted r"

lemma apply_terms:
  "list_all term_only rs \<Longrightarrow> home \<in> mr_realms db \<Longrightarrow>
   try_fold (apply_one D R home now) (rep, db) rs =
     Inr (rep\<lparr>ba_mirrored := ba_mirrored rep + length rs, ba_not_projected := ba_not_projected rep + length rs\<rparr>,
       db\<lparr>mr_entities := stored now rs (mr_entities db)\<rparr>)"
proof (induction rs arbitrary: rep db)
  case Nil
  then show ?case by (simp add: stored_def)
next
  case (Cons r rs)
  have "apply_one D R home now (rep, db) r =
      Inr (rep\<lparr>ba_mirrored := ba_mirrored rep + 1, ba_not_projected := ba_not_projected rep + 1\<rparr>,
        db\<lparr>mr_entities := AList.update (entity_key_of home r) (row_of r now) (mr_entities db)\<rparr>)"
    using Cons.prems
    by (simp add: apply_one_def with_last_known_payload_def term_only_def upsert_entity_def referencing_def project_into_def parse_def parse_any_def)
  then show ?case using Cons by (simp add: stored_def)
qed

lemma apply_page_terms:
  "list_all term_only rs \<Longrightarrow> home \<in> mr_realms db \<Longrightarrow>
   apply_sweep_page D R home Term rs checkpoint None now db =
     Inr (empty_batch_report\<lparr>ba_mirrored := length rs, ba_not_projected := length rs\<rparr>,
       db\<lparr>mr_entities := stored now rs (mr_entities db), mr_checkpoints := (mr_checkpoints db)((home, Term) := checkpoint)\<rparr>)"
  "list_all term_only rs \<Longrightarrow> home \<in> mr_realms db \<Longrightarrow> sc_realm_id c = home \<Longrightarrow> sc_entity_type c = Term \<Longrightarrow>
   apply_sweep_page D R home Term rs checkpoint (Some c) now db =
     Inr (empty_batch_report\<lparr>ba_mirrored := length rs, ba_not_projected := length rs\<rparr>,
       db\<lparr>mr_entities := stored now rs (mr_entities db),
         mr_cursors := (mr_cursors db)((home, Term) \<mapsto> (sc_last_cdc_cursor c, sc_last_full_sweep c)),
         mr_checkpoints := (mr_checkpoints db)((home, Term) := checkpoint)\<rparr>)"
  by (simp_all add: apply_sweep_page_def apply_batch_def apply_terms save_cursor_def referencing_def empty_batch_report_def
      split: option.split)

text \<open>One turn of the sweep's loop over the double: out of calls, a full page, the last page.\<close>

definition next_report :: "nat \<Rightarrow> entity_sync_report \<Rightarrow> entity_sync_report" where
  "next_report k rep = count_batch (empty_batch_report\<lparr>ba_mirrored := k, ba_not_projected := k\<rparr>) (request_counted rep)"

lemma sweep_turn:
  fixes m start n
  defines "page \<equiv> take n (drop start (sorted_records m home Term))"
  assumes "mk_scripted_failures m = []" and "list_all term_only (sorted_records m home Term)" and "home \<in> mr_realms db"
  shows "sweep_loop (sample_driver n) home Term reason now started start pages rep (0, m) db =
      Some (Inl (RateBudgetExhausted ''1''), (0, m), db)"
    and "length page = n \<Longrightarrow> sweep_loop (sample_driver n) home Term reason now started start pages rep (Suc budget, m) db =
      sweep_loop (sample_driver n) home Term reason now (Some (unwrap_or started (mk_clock m))) (start + n) (pages + 1)
        (next_report n rep) (budget, m)
        (db\<lparr>mr_entities := stored now page (mr_entities db),
           mr_checkpoints := (mr_checkpoints db)((home, Term) \<mapsto>
             \<lparr>cp_next_start = start + n, cp_started_at = unwrap_or started (mk_clock m)\<rparr>)\<rparr>)"
    and "length page < n \<Longrightarrow> sweep_loop (sample_driver n) home Term reason now started start pages rep (Suc budget, m) db =
      Some (Inr ((next_report (length page) rep)\<lparr>es_path := FullSweep reason (pages + 1)\<rparr>), (budget, m),
        db\<lparr>mr_entities := stored now page (mr_entities db),
          mr_cursors := (mr_cursors db)((home, Term) \<mapsto> (Some (unwrap_or started (mk_clock m)), Some now)),
          mr_checkpoints := (mr_checkpoints db)((home, Term) := None)\<rparr>)"
proof -
  have plain: "list_all term_only page"
    using assms(3) unfolding page_def list_all_iff by (meson in_set_dropD in_set_takeD)
  have whole: "filter (in_window None) rs = rs" for rs by (simp add: in_window_def)
  have ps: "so_page_size (dv_options (sample_driver n)) = n" by (simp add: sample_driver_def)
  have page: "fetch_page (sample_driver n) home Term None start now (Suc budget, m) =
      (Inr \<lparr>rg_entities = page, rg_server_time = Some (mk_clock m)\<rparr>, (budget, m))"
    using double_page[of "Suc budget" m n home Term None start now] assms(2) by (simp add: page_def whole)
  show "sweep_loop (sample_driver n) home Term reason now started start pages rep (0, m) db =
      Some (Inl (RateBudgetExhausted ''1''), (0, m), db)"
    by (subst sweep_loop.simps) (simp add: fetch_page_def spend_def sample_driver_def mock_client_def home_def)
  show "length page = n \<Longrightarrow> sweep_loop (sample_driver n) home Term reason now started start pages rep (Suc budget, m) db =
      sweep_loop (sample_driver n) home Term reason now (Some (unwrap_or started (mk_clock m))) (start + n) (pages + 1)
        (next_report n rep) (budget, m)
        (db\<lparr>mr_entities := stored now page (mr_entities db),
           mr_checkpoints := (mr_checkpoints db)((home, Term) \<mapsto>
             \<lparr>cp_next_start = start + n, cp_started_at = unwrap_or started (mk_clock m)\<rparr>)\<rparr>)"
    by (subst sweep_loop.simps) (simp add: Let_def page ps apply_page_terms plain assms(4) next_report_def)
  show "length page < n \<Longrightarrow> sweep_loop (sample_driver n) home Term reason now started start pages rep (Suc budget, m) db =
      Some (Inr ((next_report (length page) rep)\<lparr>es_path := FullSweep reason (pages + 1)\<rparr>), (budget, m),
        db\<lparr>mr_entities := stored now page (mr_entities db),
          mr_cursors := (mr_cursors db)((home, Term) \<mapsto> (Some (unwrap_or started (mk_clock m)), Some now)),
          mr_checkpoints := (mr_checkpoints db)((home, Term) := None)\<rparr>)"
    by (subst sweep_loop.simps) (simp add: Let_def page ps apply_page_terms plain assms(4) next_report_def)
qed

text \<open>The sweep of the two terms, the rename of the second and a third one added, and the poll after it.\<close>

lemma realm_as_str_inject [simp]: "realm_as_str a = realm_as_str b \<longleftrightarrow> a = b"
  by (cases a; cases b) simp

lemma two_terms_records:
  "sorted_records two_terms realm e =
     (if realm = home \<and> e = Term then [payment_term ''1'' ''0'' 3, payment_term ''2'' ''0'' 5] else [])"
  by (auto simp: sorted_records_def two_terms_def seed_entity_def new_mock_def payment_term_def)

definition three_terms :: mock where
  "three_terms = advance_to 20 (seed_entity home (payment_term ''3'' ''0'' 20) (seed_entity home (payment_term ''2'' ''1'' 20) two_terms))"

lemma three_terms_records:
  "sorted_records three_terms realm e =
     (if realm = home \<and> e = Term
      then [payment_term ''1'' ''0'' 3, payment_term ''2'' ''1'' 20, payment_term ''3'' ''0'' 20] else [])"
  by (auto simp: sorted_records_def three_terms_def two_terms_def advance_to_def seed_entity_def new_mock_def payment_term_def)

definition swept :: mirror where
  "swept = empty_mirror\<lparr>mr_entities := stored 10 [payment_term ''1'' ''0'' 3, payment_term ''2'' ''0'' 5] [],
     mr_cursors := [(home, Term) \<mapsto> (Some 10, Some 10)]\<rparr>"

definition polled :: mirror where
  "polled = swept\<lparr>mr_entities := stored 30 [payment_term ''2'' ''1'' 20, payment_term ''3'' ''0'' 20] (mr_entities swept),
     mr_cursors := [(home, Term) \<mapsto> (Some 20, Some 10)]\<rparr>"

lemma sample_terms [simp]:
  "term_only (payment_term i token t)" "home \<in> mr_realms empty_mirror" "mk_scripted_failures two_terms = []"
  "mk_scripted_failures three_terms = []" "mk_clock two_terms = 10" "mk_clock three_terms = 20"
  "mr_entities empty_mirror = []" "mr_cursors empty_mirror = Map.empty" "mr_checkpoints empty_mirror = Map.empty"
  by (simp_all add: term_only_def payment_term_def empty_mirror_def two_terms_def three_terms_def new_mock_def seed_entity_def advance_to_def)

lemma sweep_run:
  "\<exists>rep. sync_entity_type (sample_driver 10) home Term 10 (5, two_terms) empty_mirror = Some (Inr rep, (4, two_terms), swept)"
proof -
  have "cdc_coverage_confirmed Term" by code_simp
  then have "sync_entity_type (sample_driver 10) home Term 10 (Suc 4, two_terms) empty_mirror =
      sweep_loop (sample_driver 10) home Term NoCursor 10 None 0 0 (new_report Term (FullSweep NoCursor 0)) (Suc 4, two_terms) empty_mirror"
    by (simp add: sync_entity_type_def Let_def load_cursor_def load_sweep_checkpoint_def plan_sync_def full_sweep_def)
  then show ?thesis
    using sweep_turn(3)[of two_terms empty_mirror 10 0 NoCursor 10 None 0 "new_report Term (FullSweep NoCursor 0)" 4]
    by (simp add: two_terms_records swept_def)
qed

text \<open>The poll reads all three terms and writes the two whose version it does not hold.\<close>

lemma poll_run:
  "\<exists>rep. sync_entity_type (sample_driver 10) home Term 30 (4, three_terms) swept = Some (Inr rep, (3, three_terms), polled)"
proof -
  have confirmed: "cdc_coverage_confirmed Term" by code_simp
  have home: "home \<in> mr_realms swept" by (simp add: swept_def)
  have old: "holds_this_version_or_newer swept home (payment_term ''1'' ''0'' 3)"
    "\<not> holds_this_version_or_newer swept home (payment_term ''2'' ''1'' 20)"
    "\<not> holds_this_version_or_newer swept home (payment_term ''3'' ''0'' 20)"
    by (simp_all add: holds_this_version_or_newer_def entity_at_def swept_def stored_def entity_key_of_def row_of_def payment_term_def
        older_token_def parse_u64_def is_ascii_digit_def)
  have "spend (sample_driver 10) home 30 (4, three_terms) = (Inr (), (3, three_terms))"
    by (simp add: spend_def sample_driver_def mock_client_def)
  moreover have "cl_cdc_page (dv_client (sample_driver 10)) home [Term] (- 290) (3, three_terms) =
      (Inr \<lparr>rg_entities = [payment_term ''1'' ''0'' 3, payment_term ''2'' ''1'' 20, payment_term ''3'' ''0'' 20],
         rg_server_time = Some 20\<rparr>, (3, three_terms))"
    by (simp add: sample_driver_def mock_client_def mock_cdc_page_def)
      (simp add: three_terms_def two_terms_def new_mock_def seed_entity_def advance_to_def payment_term_def CDC_RESPONSE_CAP_def)
  moreover have "so_cdc_overlap (dv_options (sample_driver 10)) = 300" "so_cdc_max_age (dv_options (sample_driver 10)) = 2160000"
     "so_cdc_response_cap (dv_options (sample_driver 10)) = 1000"
    by (simp_all add: sample_driver_def default_sync_options_def DEFAULT_CDC_OVERLAP_MINUTES_def DEFAULT_CDC_MAX_AGE_DAYS_def
        CDC_RESPONSE_CAP_def)
  moreover have "mr_cursors swept (home, Term) = Some (Some 10, Some 10)" by (simp add: swept_def)
  moreover have "apply_changes D R home [payment_term ''1'' ''0'' 3, payment_term ''2'' ''1'' 20, payment_term ''3'' ''0'' 20]
      (Some \<lparr>sc_realm_id = home, sc_entity_type = Term, sc_last_cdc_cursor = Some 20, sc_last_full_sweep = Some 10\<rparr>) 30 swept =
      Inr (empty_batch_report\<lparr>ba_mirrored := 2, ba_not_projected := 2, ba_already_held := 1\<rparr>, polled)" for D R
  proof -
    have "(mr_cursors swept)((home, Term) \<mapsto> x) = [(home, Term) \<mapsto> x]" for x by (simp add: swept_def)
    then show ?thesis
      using old home by (simp add: apply_changes_def apply_batch_def apply_terms save_cursor_def referencing_def polled_def
          empty_batch_report_def del: try_fold.simps)
  qed
  ultimately show ?thesis
    using confirmed
    by (simp add: sync_entity_type_def Let_def load_cursor_def load_sweep_checkpoint_def plan_sync_def poll_def
       cursor_after_read_def advance_def classify_response_with_cap_def apply_read_def)
qed


section \<open>The promises on the example\<close>

lemma double_books:
  "book_ok (mock_book (n, two_terms))" "book_ok (mock_book (n, three_terms))" "edits (mock_book (n, two_terms)) (mock_book (k, three_terms))"
proof -
  have tokens: "parse_u64 ''0'' = Some 0" "parse_u64 ''1'' = Some 1" by (simp_all add: parse_u64_def is_ascii_digit_def)
  show "book_ok (mock_book (n, two_terms))" and ok: "book_ok (mock_book (n, three_terms))" for n
    by (auto simp: book_ok_def mock_book_def two_terms_records three_terms_records payment_term_def tokens)
  have cap: "mk_cdc_cap three_terms = mk_cdc_cap two_terms" by (simp add: three_terms_def two_terms_def seed_entity_def advance_to_def)
  have "token_le ''0'' ''1''" by (simp add: token_le_def tokens)
  then show "edits (mock_book (n, two_terms)) (mock_book (k, three_terms))"
    using ok[of k] unfolding edits_def
    by (simp add: mock_book_def cap two_terms_records three_terms_records All_less_Suc payment_term_def Let_def)
qed




section \<open>A sweep that misses a record\<close>

text \<open>Three terms read a page of one at a time; the calls run out after two.\<close>

definition before_break :: mock where
  "before_break = seed_entity home (payment_term ''3'' ''0'' 3) (seed_entity home (payment_term ''2'' ''0'' 2) (seed_entity home (payment_term ''1'' ''0'' 1) (new_mock 10)))"

text \<open>Meanwhile the two that were read are edited, and so move behind the third.\<close>

definition after_break :: mock where
  "after_break = advance_to 20 (seed_entity home (payment_term ''2'' ''1'' 12) (seed_entity home (payment_term ''1'' ''1'' 11) before_break))"

lemma break_records:
  "sorted_records before_break home Term = [payment_term ''1'' ''0'' 1, payment_term ''2'' ''0'' 2, payment_term ''3'' ''0'' 3]"
  "sorted_records after_break home Term = [payment_term ''3'' ''0'' 3, payment_term ''1'' ''1'' 11, payment_term ''2'' ''1'' 12]"
  "mk_scripted_failures before_break = []" "mk_scripted_failures after_break = []" "mk_clock before_break = 10"
  by (simp_all add: sorted_records_def after_break_def before_break_def advance_to_def seed_entity_def new_mock_def payment_term_def)

definition broken_off :: mirror where
  "broken_off = empty_mirror\<lparr>mr_entities := stored 10 [payment_term ''1'' ''0'' 1, payment_term ''2'' ''0'' 2] [],
     mr_checkpoints := [(home, Term) \<mapsto> \<lparr>cp_next_start = 2, cp_started_at = 10\<rparr>]\<rparr>"

definition resumed :: mirror where
  "resumed = empty_mirror\<lparr>mr_entities := stored 20 [payment_term ''1'' ''1'' 11, payment_term ''2'' ''1'' 12] (mr_entities broken_off),
     mr_cursors := [(home, Term) \<mapsto> (Some 10, Some 20)]\<rparr>"


end
