(* ===== verification/Mirror_Outcome.thy ===== *)
theory Mirror_Outcome
  imports Mirror_Facts
begin

text \<open>
  What a batch leaves in the parsed tables, and the one thing in a payload that keeps a whole batch
  from being stored.
\<close>

section \<open>A document's rows\<close>

lemma insert_doc_lines:
  "distinct (map pl_line_no (mr_lines db key)) \<Longrightarrow>
   try_fold (insert_doc_line key) db ls = Inr db' \<longleftrightarrow>
     distinct (map pl_line_no (mr_lines db key @ ls)) \<and> db' = db\<lparr>mr_lines := (mr_lines db)(key := mr_lines db key @ ls)\<rparr>"
proof (induction ls arbitrary: db)
  case Nil
  then show ?case by (auto simp: fun_upd_idem)
next
  case (Cons l ls)
  let ?db = "db\<lparr>mr_lines := (mr_lines db)(key := mr_lines db key @ [l])\<rparr>"
  show ?case
  proof (cases "pl_line_no l \<in> pl_line_no ` set (mr_lines db key)")
    case True
    then show ?thesis by (auto simp: insert_doc_line_def)
  next
    case False
    then have "distinct (map pl_line_no (mr_lines ?db key))" using Cons.prems by auto
    note rest = Cons.IH[OF this]
    have "insert_doc_line key db l = Inr ?db" using False by (simp add: insert_doc_line_def)
    then have first: "try_fold (insert_doc_line key) db (l # ls) = try_fold (insert_doc_line key) ?db ls" by simp
    show ?thesis unfolding first rest by (auto simp: fun_upd_def cong: if_cong)
  qed
qed

lemma write_document_iff:
  "write_document realm d now db = Inr db' \<longleftrightarrow>
     realm \<in> mr_realms db \<and> distinct (map pl_line_no (pd_lines d)) \<and>
     db' = db\<lparr>mr_documents := (mr_documents db)((realm, pd_qbo_id d) \<mapsto> \<lparr>dr_document = header d, dr_projected_at = now\<rparr>),
        mr_lines := (mr_lines db)((realm, pd_qbo_id d) := pd_lines d),
        mr_links := (mr_links db)((realm, pd_qbo_id d) := map (Pair (pd_doc_type d)) (pd_links d))\<rparr>"
  by (auto simp: write_document_def Let_def insert_doc_lines)

text \<open>A document carries the id of its payload.\<close>

lemma parse_document_id: "parse D R e = Parsed (PDocument d) \<Longrightarrow> pd_qbo_id d = mi_qbo_id e"
  by (auto simp: parse_def parse_any_def parse_document_def Let_def map_sum_Inr_iff split: sum.splits option.splits if_splits)

text \<open>The rows under the id of a document, in the three tables.\<close>

definition document_rows :: "mirror \<Rightarrow> realm_id \<times> string \<Rightarrow> document_row option \<times> parsed_doc_line list \<times> (document_type \<times> parsed_link) list" where
  "document_rows db key = (mr_documents db key, mr_lines db key, mr_links db key)"

lemma document_rows_cong:
  "document_rows (db\<lparr>mr_entities := x\<rparr>) = document_rows db" "document_rows (clear_quarantine realm e db) = document_rows db"
  "document_rows (db\<lparr>mr_cursors := c\<rparr>) = document_rows db"
  by (simp_all add: fun_eq_iff document_rows_def clear_quarantine_def)

lemma project_into_rows:
  assumes "project_into D R realm now e (report, db) = Inr (report', db')"
  shows "document_rows db' key =
    (case parse D R e of
       Parsed (PDocument d) \<Rightarrow> if key = (realm, mi_qbo_id e)
         then (Some \<lparr>dr_document = header d, dr_projected_at = now\<rparr>, pd_lines d, map (Pair (pd_doc_type d)) (pd_links d))
         else document_rows db key
     | _ \<Rightarrow> document_rows db key)"
  using assms parse_document_id[of D R e]
  by (auto simp: project_into_def write_parsed_def quarantine_def write_document_iff document_rows_def clear_quarantine_def
      split: projection.splits parsed_entity.splits)

lemma apply_one_rows:
  assumes "apply_one D R realm now (report, db) e = Inr (report', db')"
  shows "key \<noteq> (realm, mi_qbo_id e) \<Longrightarrow> document_rows db' key = document_rows db key"
    and "\<not> mi_is_deleted e \<Longrightarrow> parse D R e = Parsed (PDocument d) \<Longrightarrow> distinct (map pl_line_no (pd_lines d)) \<and>
      document_rows db' (realm, mi_qbo_id e) =
        (Some \<lparr>dr_document = header d, dr_projected_at = now\<rparr>, pd_lines d, map (Pair (pd_doc_type d)) (pd_links d))"
proof -
  show "document_rows db' key = document_rows db key" if "key \<noteq> (realm, mi_qbo_id e)"
  proof (cases "with_last_known_payload db realm e")
    case None
    then show ?thesis using assms by (auto simp: apply_one_def upsert_entity_def document_rows_cong)
  next
    case (Some f)
    then have "mi_qbo_id f = mi_qbo_id e" by (auto simp: with_last_known_payload_def split: if_splits option.splits)
    then show ?thesis using assms that Some
      by (auto simp: apply_one_def upsert_entity_def document_rows_cong dest!: project_into_rows[where key = key]
          split: projection.splits parsed_entity.splits)
  qed
next
  assume e: "\<not> mi_is_deleted e" "parse D R e = Parsed (PDocument d)"
  then obtain report1 db1 where run: "project_into D R realm now e (report, db1) = Inr (report1, db')"
    using assms by (auto simp: apply_one_def with_last_known_payload_def)
  then have "distinct (map pl_line_no (pd_lines d))"
    using e by (auto simp: project_into_def write_parsed_def write_document_iff)
  with project_into_rows[OF run, of "(realm, mi_qbo_id e)"] e
  show "distinct (map pl_line_no (pd_lines d)) \<and> document_rows db' (realm, mi_qbo_id e) =
        (Some \<lparr>dr_document = header d, dr_projected_at = now\<rparr>, pd_lines d, map (Pair (pd_doc_type d)) (pd_links d))" by simp
qed


section \<open>A batch\<close>

lemma apply_all_rows:
  assumes "try_fold (apply_one D R realm now) (report, db) es = Inr (report', db')"
    and "distinct (map mi_qbo_id es)" and "e \<in> set es" and "\<not> mi_is_deleted e" and "parse D R e = Parsed (PDocument d)"
  shows "distinct (map pl_line_no (pd_lines d)) \<and> document_rows db' (realm, mi_qbo_id e) =
    (Some \<lparr>dr_document = header d, dr_projected_at = now\<rparr>, pd_lines d, map (Pair (pd_doc_type d)) (pd_links d))"
proof -
  have others: "document_rows db' key = document_rows db key"
    if "try_fold (apply_one D R realm now) (report, db) es = Inr (report', db')" "key \<notin> (\<lambda>e. (realm, mi_qbo_id e)) ` set es"
    for key es report db
    using that
  proof (induction es arbitrary: report db)
    case (Cons e es)
    then obtain report1 db1 where step: "apply_one D R realm now (report, db) e = Inr (report1, db1)"
      "try_fold (apply_one D R realm now) (report1, db1) es = Inr (report', db')" by auto
    then show ?case using Cons.IH[OF step(2)] Cons.prems(2) apply_one_rows(1)[OF step(1), of key] by simp
  qed simp
  from split_list[OF assms(3)] obtain before after where es: "es = before @ e # after" by blast
  with assms(1) obtain report1 db1 report2 db2 where
    run: "apply_one D R realm now (report1, db1) e = Inr (report2, db2)"
    "try_fold (apply_one D R realm now) (report2, db2) after = Inr (report', db')"
    by (auto simp: try_fold_append)
  have "(realm, mi_qbo_id e) \<notin> (\<lambda>e. (realm, mi_qbo_id e)) ` set after" using assms(2) es by auto
  from others[OF run(2) this] apply_one_rows(2)[OF run(1) assms(4,5)] show ?thesis by simp
qed

text \<open>
  C22. A stored batch is in the parsed tables. When a batch of payloads with different ids is applied, then for
  each live payload that reads as a document the tables hold, under its id, the document's header, its
  lines in their order and its links, exactly as they were parsed.
\<close>

theorem an_applied_document_is_in_the_tables:
  assumes "apply_batch D R realm es cursor now db = Inr (report, db')"
    and "distinct (map mi_qbo_id es)" and "e \<in> set es" and "\<not> mi_is_deleted e" and "parse D R e = Parsed (PDocument d)"
  shows "mr_documents db' (realm, mi_qbo_id e) = Some \<lparr>dr_document = header d, dr_projected_at = now\<rparr> \<and>
    mr_lines db' (realm, mi_qbo_id e) = pd_lines d \<and>
    mr_links db' (realm, mi_qbo_id e) = map (Pair (pd_doc_type d)) (pd_links d)"
proof -
  from assms(1) obtain rep db1 where run: "try_fold (apply_one D R realm now) (empty_batch_report, db) es = Inr (rep, db1)"
    "(case cursor of None \<Rightarrow> Inr db1 | Some c \<Rightarrow> save_cursor c db1) = Inr db'"
    by (auto simp: apply_batch_def)
  then have "document_rows db' key = document_rows db1 key" for key by (auto simp: save_cursor_def document_rows_cong split: option.splits)
  with apply_all_rows[OF run(1) assms(2-5)] show ?thesis by (simp add: document_rows_def)
qed

text \<open>A service whose numbers are whole, and an adjustment of its stock with the line numbers given.\<close>

definition whole_readers :: readers where
  "whole_readers = \<lparr>rd_exact_f64 = (\<lambda>_. True), rd_decimal = (\<lambda>_. None), rd_to_string = (\<lambda>_. [])\<rparr>"

definition adjustment :: "string list \<Rightarrow> mirrored" where
  "adjustment numbers =
     \<lparr>mi_entity_type = InventoryAdjustment, mi_qbo_id = ''7'', mi_sync_token = ''0'', mi_last_updated = 1, mi_is_deleted = False,
      mi_raw_json = JObject [(''TxnDate'', JString ''2026-01-05''), (''Line'', JArray (map (\<lambda>n. JObject [(''LineNum'', JNumber n)]) numbers))]\<rparr>"

definition adjustment_document :: "i64 list \<Rightarrow> parsed_document" where
  "adjustment_document numbers =
     \<lparr>pd_qbo_id = ''7'', pd_doc_type = DocInventoryAdjustment, pd_doc_number = None, pd_txn_date = ''2026-01-05'', pd_due_date = None,
      pd_contact_id = None, pd_contact_type = None, pd_class_id = None, pd_total = ZERO, pd_balance = None, pd_doc_status = None,
      pd_po_number = None, pd_private_note = None, pd_customer_memo = None, pd_currency = None, pd_is_deleted = False,
      pd_lines = map (\<lambda>n. \<lparr>pl_line_no = n, pl_item_id = None, pl_description = None, pl_qty = None, pl_unit_price = None,
        pl_amount = ZERO, pl_class_id = None, pl_is_taxable = False\<rparr>) numbers,
      pd_links = []\<rparr>"

lemma parse_adjustments:
  "parse reference_ops whole_readers (adjustment [''1'', ''2'']) = Parsed (PDocument (adjustment_document [1, 2]))"
  "parse reference_ops whole_readers (adjustment [''1'', ''1'']) = Parsed (PDocument (adjustment_document [1, 1]))"
proof -
  have as: "as_i64 ''1'' = Some 1" "as_i64 ''2'' = Some 2" by (simp_all add: as_i64_def is_ascii_digit_def in_i64_def)
  have trimmed: "trim ''2026-01-05'' = ''2026-01-05''" by code_simp
  have plain: "\<not> ends_with ''LineDetail'' ''LineNum''" by code_simp
  have line: "parse_line reference_ops whole_readers (JObject [(''LineNum'', JNumber n)], k) =
      Inr (Some \<lparr>pl_line_no = of_int i, pl_item_id = None, pl_description = None, pl_qty = None, pl_unit_price = None,
        pl_amount = ZERO, pl_class_id = None, pl_is_taxable = False\<rparr>)" if "as_i64 n = Some i" "0 < i" "i < 3" for n k i
    using that
    by (simp add: parse_line_def Let_def json_text_def detail_object_def plain optional_money_def optional_decimal_def line_number_def
      json_decimal_value_def reference_ops_def to_i64_def in_i64_def)
  show "parse reference_ops whole_readers (adjustment [''1'', ''2'']) = Parsed (PDocument (adjustment_document [1, 2]))"
    "parse reference_ops whole_readers (adjustment [''1'', ''1'']) = Parsed (PDocument (adjustment_document [1, 1]))"
    by (simp_all add: parse_def parse_any_def adjustment_def parse_document_def document_total_def parse_lines_def lines_of_payload_def
      json_array_def line as adjustment_document_def upt_rec required_string_def json_text_def optional_money_def optional_decimal_def
      contact_of_def parse_links_def linked_of_def po_number_def reference_def nested_text_def map_filter_simps Let_def trimmed)
qed

text \<open>
  Two lines of one document with the same number keep the whole batch out. The lines' table has the line
  number in its key, and nothing sets such a payload aside as it does one that cannot be read:
  the batch that has it is refused, with everything else in it and the cursor that was to
  move on, every time it is read.
\<close>

theorem a_repeated_line_number_keeps_the_batch_out:
  assumes "e \<in> set es" and "\<not> mi_is_deleted e" and "parse D R e = Parsed (PDocument d)"
    and "\<not> distinct (map pl_line_no (pd_lines d))"
  shows "\<exists>err. apply_batch D R realm es cursor now db = Inl err"
proof (cases "apply_batch D R realm es cursor now db")
  case (Inr out)
  then obtain rep db1 where run: "try_fold (apply_one D R realm now) (empty_batch_report, db) es = Inr (rep, db1)"
    by (auto simp: apply_batch_def)
  from split_list[OF assms(1)] obtain before after where "es = before @ e # after" by blast
  with run obtain report1 db2 report2 db3 where "apply_one D R realm now (report1, db2) e = Inr (report2, db3)"
    by (auto simp: try_fold_append)
  from apply_one_rows(2)[OF this assms(2,3)] assms(4) show ?thesis by simp
qed blast



text \<open>Both on the adjustment: with different numbers it is stored, with the same number twice it is not.\<close>

definition bare_mirror :: mirror where
  "bare_mirror =
     \<lparr>mr_realms = {RealmId ''1''}, mr_entities = [], mr_cursors = (\<lambda>_. None), mr_checkpoints = (\<lambda>_. None), mr_quarantine = (\<lambda>_. None),
      mr_contacts = (\<lambda>_. None), mr_items = (\<lambda>_. None), mr_accounts = (\<lambda>_. None), mr_classes = (\<lambda>_. None), mr_documents = (\<lambda>_. None),
      mr_lines = (\<lambda>_. []), mr_links = (\<lambda>_. [])\<rparr>"

theorem an_applied_document_is_in_the_tables_witness:
  "\<exists>report db'. apply_batch reference_ops whole_readers (RealmId ''1'') [adjustment [''1'', ''2'']] None 9 bare_mirror = Inr (report, db') \<and>
     mr_lines db' (RealmId ''1'', ''7'') = pd_lines (adjustment_document [1, 2])"
proof -
  let ?e = "adjustment [''1'', ''2'']" and ?d = "adjustment_document [1, 2]"
  have e: "\<not> mi_is_deleted ?e" "mi_qbo_id ?e = ''7''" by (simp_all add: adjustment_def)
  have d: "distinct (map pl_line_no (pd_lines ?d))" by (simp add: adjustment_document_def)
  have "\<exists>out. apply_batch reference_ops whole_readers (RealmId ''1'') [?e] None 9 bare_mirror = Inr out"
    using e d by (simp add: apply_batch_def apply_one_def with_last_known_payload_def upsert_entity_def project_into_def parse_adjustments
        write_parsed_def write_document_iff bare_mirror_def)
  then obtain report db' where run: "apply_batch reference_ops whole_readers (RealmId ''1'') [?e] None 9 bare_mirror = Inr (report, db')"
    by force
  from an_applied_document_is_in_the_tables[OF run _ _ e(1) parse_adjustments(1)] e(2) run show ?thesis by simp
qed

theorem a_repeated_line_number_keeps_the_batch_out_witness:
  "\<exists>err. apply_batch reference_ops whole_readers (RealmId ''1'') [adjustment [''1'', ''1'']] None 9 bare_mirror = Inl err"
  by (rule a_repeated_line_number_keeps_the_batch_out[OF _ _ parse_adjustments(2)])
    (simp_all add: adjustment_def adjustment_document_def)

section \<open>Amounts\<close>

lemma json_decimal_ok:
  assumes "\<And>n d. rd_decimal R n = Some d \<Longrightarrow> dec_ok d" and "json_decimal_value R v = Some x"
  shows "dec_ok x"
  using assms
  by (auto simp: json_decimal_value_def as_i64_def Let_def in_i64_def dec_ok_def split: json.splits option.splits if_splits prod.splits)

lemma of_int_cents_half: "scale x \<le> 2 \<Longrightarrow> \<exists>k :: int. dec_val x * 100 = of_int k"
proof -
  assume "scale x \<le> 2"
  then obtain n where n: "2 = scale x + n" by (auto simp: le_iff_add)
  have "(10 :: rat) ^ (scale x + n) = 100" unfolding n[symmetric] by simp
  then have "dec_val x * 100 = of_int (mantissa x * 10 ^ n)"
    by (simp add: dec_val_def power_add[symmetric] field_simps)
  then show ?thesis by blast
qed

text \<open>
  An amount of a payload is mirrored to the cent. Where the parse reads money from a field, the field is
  there, it reads as a decimal, and the amount is that decimal exactly: an amount of more than two
  places is refused, never rounded.
\<close>

theorem a_mirrored_amount_is_exact:
  assumes "dec_laws D" and "\<And>n d. rd_decimal R n = Some d \<Longrightarrow> dec_ok d" and "optional_money D R v key = Inr (Some m)"
  shows "\<exists>found x. json_get v key = Some found \<and> json_decimal_value R found = Some x \<and> of_int (cents m) = dec_val x * 100"
proof -
  obtain x where x: "optional_decimal R v key = Inr (Some x)" "scale x \<le> 2" "round_money D x MirroredAmount = Inr m"
  proof -
    obtain d where d: "optional_decimal R v key = Inr d" using assms(3) by (auto simp: optional_money_def)
    then obtain x where "d = Some x" using assms(3) by (cases d) (auto simp: optional_money_def)
    with d show thesis using that[of x] assms(3) by (auto simp: optional_money_def map_sum_Inr_iff split: if_splits)
  qed
  then obtain found where found: "json_get v key = Some found" "json_decimal_value R found = Some x"
    by (auto simp: optional_decimal_def map_sum_Inr_iff split: option.splits if_splits)
  obtain k where k: "dec_val x * 100 = of_int k" using of_int_cents_half[OF x(2)] by blast
  have "m = money_of k" "in_i64 k"
    using x(3) round_money_cents[OF assms(1) json_decimal_ok[OF assms(2) found(2)]] by (auto simp: k split: if_splits)
  then show ?thesis using found k by auto
qed

theorem a_mirrored_amount_is_exact_witness:
  "optional_money reference_ops whole_readers (JObject [(''Balance'', JNumber ''12'')]) ''Balance'' = Inr (Some (money_of 1200)) \<and>
   (\<exists>x. json_decimal_value whole_readers (JNumber ''12'') = Some x \<and> 1200 = dec_val x * 100)"
proof -
  let ?v = "JObject [(''Balance'', JNumber ''12'')]"
  have "as_i64 ''12'' = Some 12" by (simp add: as_i64_def is_ascii_digit_def in_i64_def)
  moreover have "round_money reference_ops (Decimal 12 0) MirroredAmount = Inr (money_of 1200)"
    using round_money_cents[OF reference_laws, of "Decimal 12 0"] round_half_away_of_int[of 1200]
    by (simp add: dec_ok_def dec_val_def in_i64_def)
  ultimately have run: "optional_money reference_ops whole_readers ?v ''Balance'' = Inr (Some (money_of 1200))"
    by (simp add: optional_money_def optional_decimal_def json_decimal_value_def)
  from a_mirrored_amount_is_exact[OF reference_laws _ run] run show ?thesis by (auto simp: whole_readers_def in_i64_def)
qed

end
