(* ===== verification/Reconcile_Outcome.thy ===== *)
theory Reconcile_Outcome
  imports Reconcile_Facts Sync_Examples Mirror_Outcome
begin

text \<open>
  The promises of the reconciliation, and that no line of the replica is without its document.
\<close>

section \<open>Agreement with the service\<close>


text \<open>
  A second reconciliation heals nothing. Right after one that ended well, over the same book, another that ends
  well finds no record missing and none stale, whatever the local clock says: all it still reports is the
  rows only the replica has.
\<close>

theorem a_second_reconcile_heals_nothing:
  assumes "honest_service (dv_client V) book" and "0 < so_page_size (dv_options V)" and "book_ok (book c)"
    and "in_step (so_page_size (dv_options V)) (book c) db realm e"
    and "reconcile_entity_type V stamp realm e now c db = Some (Inr report, c1, db1)"
    and "reconcile_entity_type V stamp realm e later c1 db1 = Some (Inr report2, c2, db2)"
  shows "rr_healed report2 = 0 \<and> (\<forall>d \<in> set (rr_discrepancies report2). \<exists>i. d = Extra i)"
proof -
  from honest_service.reconcile_runs[OF assms(1) refl assms(2,3) refl assms(4), of stamp now] assms(5)
  have once: "book c1 = book c" "in_step (so_page_size (dv_options V)) (book c) db1 realm e"
    "\<forall>p \<in> set (bk_records (book c) realm e). \<not> mi_is_deleted p \<longrightarrow> agrees db1 realm p"
    unfolding run_keeps_def by auto
  from honest_service.reconcile_runs[OF assms(1) refl assms(2,3) once(1,2), of stamp later] assms(6) once(3)
  show ?thesis by auto
qed

section \<open>The example\<close>

lemma two_terms_read:
  "read_live (sample_driver 10) home Term now 0 [] 0 (Suc budget, two_terms) =
     Some (Inr ([(''1'', payment_term ''1'' ''0'' 3), (''2'', payment_term ''2'' ''0'' 5)], 1), (budget, two_terms))"
proof -
  have size: "so_page_size (dv_options (sample_driver 10)) = 10" by (simp add: sample_driver_def)
  show ?thesis
    by (subst read_live.simps)
      (simp add: double_page two_terms_records in_window_def Let_def size extend_live_Cons, simp add: payment_term_def)
qed

lemma two_terms_by_id:
  "by_id [(''1'', payment_term ''1'' ''0'' 3), (''2'', payment_term ''2'' ''0'' 5)] = [payment_term ''1'' ''0'' 3, payment_term ''2'' ''0'' 5]"
  by (simp add: by_id_def)


definition mended :: mirror where
  "mended = empty_mirror\<lparr>mr_entities := stored 30 [payment_term ''1'' ''0'' 3, payment_term ''2'' ''0'' 5] []\<rparr>"

lemma mended_runs:
  "\<exists>report. reconcile_entity_type (sample_driver 10) (\<lambda>_. []) home Term 30 (Suc (Suc 0), two_terms) empty_mirror =
     Some (Inr report, (Suc 0, two_terms), mended)"
  "\<exists>report. reconcile_entity_type (sample_driver 10) (\<lambda>_. []) home Term 40 (Suc 0, two_terms) mended =
     Some (Inr report, (0, two_terms), mended)"
proof -
  let ?ts = "[payment_term ''1'' ''0'' 3, payment_term ''2'' ''0'' 5]"
  have none: "entity_index empty_mirror home Term = []" by (simp add: entity_index_def)
  have some: "entity_index mended home Term = map index_of_payload ?ts"
    by (simp add: entity_index_def mended_def stored_def entity_key_of_def payment_term_def row_of_def index_of_payload_def)
  have ids: "mi_qbo_id (payment_term i k t) = i" "mi_last_updated (payment_term i k t) = t" "mi_is_deleted (payment_term i k t) = False" for i k t
    by (simp_all add: payment_term_def)
  have new: "\<not> holds_this_version_or_newer empty_mirror home r" for r by (simp add: holds_this_version_or_newer_def entity_at_def)
  have "apply_read (sample_driver 10) home ?ts None 30 rep empty_mirror = Inr (count_batch (empty_batch_report\<lparr>ba_mirrored := 2, ba_not_projected := 2\<rparr>) rep, mended)" for rep
    using new by (simp add: apply_read_def apply_changes_def apply_batch_def apply_terms empty_batch_report_def mended_def numeral_2_eq_2 del: try_fold.simps)
  then show "\<exists>report. reconcile_entity_type (sample_driver 10) (\<lambda>_. []) home Term 30 (Suc (Suc 0), two_terms) empty_mirror =
     Some (Inr report, (Suc 0, two_terms), mended)"
    by (simp add: reconcile_entity_type_def two_terms_read two_terms_by_id none local_by_id_def compare_row_def ids Let_def)
  show "\<exists>report. reconcile_entity_type (sample_driver 10) (\<lambda>_. []) home Term 40 (Suc 0, two_terms) mended =
     Some (Inr report, (0, two_terms), mended)"
    by (simp add: reconcile_entity_type_def two_terms_read two_terms_by_id some local_by_id_def compare_row_def ids Let_def index_of_payload_def)
qed

lemma sample_honest:
  "honest_service (dv_client (sample_driver 10)) mock_book" "0 < so_page_size (dv_options (sample_driver 10))"
  "in_step (so_page_size (dv_options (sample_driver 10))) (mock_book (k, two_terms)) empty_mirror home Term"
  using double.honest_service_axioms by (simp_all add: sample_driver_def fresh_in_step fresh_replica_def)


theorem a_second_reconcile_heals_nothing_witness:
  "\<exists>report. reconcile_entity_type (sample_driver 10) (\<lambda>_. []) home Term 40 (Suc 0, two_terms) mended = Some (Inr report, (0, two_terms), mended) \<and>
     rr_healed report = 0"
proof -
  obtain report report2 where
    run: "reconcile_entity_type (sample_driver 10) (\<lambda>_. []) home Term 30 (Suc (Suc 0), two_terms) empty_mirror = Some (Inr report, (Suc 0, two_terms), mended)"
    "reconcile_entity_type (sample_driver 10) (\<lambda>_. []) home Term 40 (Suc 0, two_terms) mended = Some (Inr report2, (0, two_terms), mended)"
    using mended_runs by blast
  from a_second_reconcile_heals_nothing[OF sample_honest(1,2) double_books(1) sample_honest(3) run] run(2) show ?thesis by blast
qed


section \<open>Lines and their documents\<close>

definition well_lined :: "mirror \<Rightarrow> bool" where
  "well_lined db \<longleftrightarrow> (\<forall>key. mr_documents db key = None \<longrightarrow> mr_lines db key = [])"

lemma well_lined_orphans: "well_lined db \<longleftrightarrow> (\<forall>realm. orphaned_lines db realm = {})"
proof -
  have "orphaned_lines db realm = {} \<longleftrightarrow> (\<forall>i. mr_documents db (realm, i) = None \<longrightarrow> pl_line_no ` set (mr_lines db (realm, i)) = {})" for realm
  proof -
    have "orphaned_lines db realm = (SIGMA i : {i. mr_documents db (realm, i) = None}. pl_line_no ` set (mr_lines db (realm, i)))"
      by (auto simp: orphaned_lines_def)
    then have "orphaned_lines db realm = {} \<longleftrightarrow> (\<forall>i \<in> {i. mr_documents db (realm, i) = None}. pl_line_no ` set (mr_lines db (realm, i)) = {})"
      by (simp only: Sigma_empty_iff)
    then show ?thesis by simp
  qed
  then show ?thesis by (simp add: well_lined_def split_paired_All)
qed

lemma well_lined_tables [simp]:
  "well_lined (db\<lparr>mr_entities := rows\<rparr>) = well_lined db" "well_lined (db\<lparr>mr_cursors := cursors\<rparr>) = well_lined db"
  "well_lined (db\<lparr>mr_checkpoints := points\<rparr>) = well_lined db" "well_lined (db\<lparr>mr_quarantine := set_aside\<rparr>) = well_lined db"
  by (simp_all add: well_lined_def)

lemma write_parsed_lined: "write_parsed realm parsed now db = Inr db' \<Longrightarrow> well_lined db \<Longrightarrow> well_lined db'"
  by (auto simp: write_parsed_def write_document_iff well_lined_def split: parsed_entity.splits if_splits)

lemma quarantine_lined: "quarantine realm e reason now db = Inr db' \<Longrightarrow> well_lined db' = well_lined db"
  by (auto simp: quarantine_def well_lined_def)

lemma project_into_lined:
  "project_into D R realm now e (report, db) = Inr (report', db') \<Longrightarrow> well_lined db \<Longrightarrow> well_lined db'"
  by (auto simp: project_into_def clear_quarantine_def quarantine_lined dest: write_parsed_lined split: projection.splits)

lemma apply_one_lined:
  assumes "apply_one D R realm now (report, db) e = Inr (report', db')" and "well_lined db"
  shows "well_lined db'"
proof (cases "with_last_known_payload db realm e")
  case None
  then show ?thesis using assms by (auto simp: apply_one_def upsert_entity_def clear_quarantine_def)
next
  case (Some f)
  let ?db = "db\<lparr>mr_entities := AList.update (entity_key_of realm f) (row_of f now) (mr_entities db)\<rparr>"
  from assms(1) Some obtain report2 where "project_into D R realm now f (report, ?db) = Inr (report2, db')"
    by (auto simp: apply_one_def upsert_entity_def)
  moreover have "well_lined ?db" using assms(2) by simp
  ultimately show ?thesis by (rule project_into_lined)
qed

lemma apply_batch_lined:
  assumes "apply_batch D R realm es cursor now db = Inr (report, db')" and "well_lined db"
  shows "well_lined db'"
proof -
  from assms(1) obtain rep db1 where run: "try_fold (apply_one D R realm now) (empty_batch_report, db) es = Inr (rep, db1)"
    "(case cursor of None \<Rightarrow> Inr db1 | Some c \<Rightarrow> save_cursor c db1) = Inr db'"
    by (auto simp: apply_batch_def)
  have "well_lined (snd (rep, db1))"
    by (rule try_fold_invariant[OF run(1), where P = "well_lined \<circ> snd", unfolded o_def])
      (use assms(2) apply_one_lined in \<open>auto simp del: split_paired_All\<close>)
  then show ?thesis using run(2) by (auto simp: save_cursor_def split: option.splits)
qed

lemma reproject_lined:
  assumes "reproject_all D R realm now db = Inr (counts, db')" and "well_lined db"
  shows "well_lined db'"
proof -
  have "well_lined (clear_projection realm db)"
    using assms(2) by (auto simp: clear_projection_def well_lined_def without_realm_def)
  then have first: "(well_lined \<circ> snd) (empty_reproject_report, clear_projection realm db)" by simp
  have "(well_lined \<circ> snd) b" if "(well_lined \<circ> snd) a" "reproject_one D R realm now a e = Inr b" for a b e
    using that by (cases a) (auto simp: reproject_one_def map_sum_Inr_iff quarantine_lined dest: write_parsed_lined split: projection.splits)
  then have "(well_lined \<circ> snd) (counts, db')"
    using try_fold_invariant[OF assms(1)[unfolded reproject_all_def], of "well_lined \<circ> snd"] first by blast
  then show ?thesis by simp
qed

text \<open>
  C24. No line is left without its document: no batch, page or rebuild of the projection makes an orphan, so
  the count a reconciliation ends with is of a table nothing orphans.
\<close>

theorem no_line_is_orphaned:
  assumes "\<And>r. orphaned_lines db r = {}"
    and "apply_batch D R realm es cursor now db = Inr (report, db') \<or> apply_changes D R realm es cursor now db = Inr (report, db') \<or>
      apply_sweep_page D R realm e es checkpoint cursor now db = Inr (report, db') \<or> reproject_all D R realm now db = Inr (counts, db')"
  shows "orphaned_lines db' r = {}"
proof -
  have start: "well_lined db" using assms(1) by (simp add: well_lined_orphans)
  have "well_lined db'"
    using assms(2)
  proof (elim disjE)
    assume "apply_batch D R realm es cursor now db = Inr (report, db')"
    then show ?thesis using start by (rule apply_batch_lined)
  next
    assume "apply_changes D R realm es cursor now db = Inr (report, db')"
    then show ?thesis using start by (auto simp: apply_changes_def dest: apply_batch_lined)
  next
    assume "apply_sweep_page D R realm e es checkpoint cursor now db = Inr (report, db')"
    then obtain rep db1 where "apply_batch D R realm es cursor now db = Inr (rep, db1)" "well_lined db' = well_lined db1"
      by (auto simp: apply_sweep_page_def split: option.splits)
    then show ?thesis using start apply_batch_lined by blast
  next
    assume "reproject_all D R realm now db = Inr (counts, db')"
    then show ?thesis using start by (rule reproject_lined)
  qed
  then show ?thesis by (simp add: well_lined_orphans)
qed

theorem no_line_is_orphaned_witness:
  "\<exists>report db'. apply_batch reference_ops whole_readers (RealmId ''1'') [adjustment [''1'', ''2'']] None 9 bare_mirror = Inr (report, db') \<and>
     orphaned_lines db' (RealmId ''1'') = {}"
proof -
  let ?e = "adjustment [''1'', ''2'']" and ?d = "adjustment_document [1, 2]"
  have e: "\<not> mi_is_deleted ?e" by (simp add: adjustment_def)
  have d: "distinct (map pl_line_no (pd_lines ?d))" by (simp add: adjustment_document_def)
  have "\<exists>out. apply_batch reference_ops whole_readers (RealmId ''1'') [?e] None 9 bare_mirror = Inr out"
    using e d by (simp add: apply_batch_def apply_one_def with_last_known_payload_def upsert_entity_def project_into_def parse_adjustments
        write_parsed_def write_document_iff bare_mirror_def)
  then obtain report db' where run: "apply_batch reference_ops whole_readers (RealmId ''1'') [?e] None 9 bare_mirror = Inr (report, db')"
    by force
  have "orphaned_lines bare_mirror r = {}" for r by (auto simp: orphaned_lines_def bare_mirror_def)
  from no_line_is_orphaned[OF this disjI1[OF run]] run show ?thesis by blast
qed

section \<open>The index sweep's comparison\<close>

lemma map_fst_filter_keys:
  assumes "distinct (map fst m)"
  shows "fst ` {x \<in> set m. P x} = {i. \<exists>v. map_of m i = Some v \<and> P (i, v)}" and "distinct (map fst (filter P m))"
  using assms by (force simp: map_of_eq_Some_iff, simp add: distinct_map_filter)

text \<open>
  The comparison of the two indexes puts every id where it belongs: missing are the live ones only the
  service has, stale those both have where the service's is newer or one of them is deleted, extra the
  live ones only the replica has. No id is in two of the lists or twice in one, and each is in order.
\<close>

theorem the_comparison_sorts_every_id:
  assumes "distinct (map fst remote)" and "distinct (map fst local)"
  shows "let found = diff_indexes remote local (new_sweep_report e) in
    set (sw_missing found) = {i. \<exists>r. map_of remote i = Some r \<and> \<not> ix_is_deleted r \<and> map_of local i = None} \<and>
    set (sw_stale found) = {i. \<exists>r l. map_of remote i = Some r \<and> map_of local i = Some l \<and>
      (ix_last_updated l < ix_last_updated r \<or> ix_is_deleted r \<noteq> ix_is_deleted l)} \<and>
    set (sw_extra found) = {i. \<exists>l. map_of local i = Some l \<and> \<not> ix_is_deleted l \<and> map_of remote i = None} \<and>
    distinct (sw_missing found @ sw_stale found @ sw_extra found) \<and>
    sorted (sw_missing found) \<and> sorted (sw_stale found) \<and> sorted (sw_extra found)"
proof -
  note remote = map_fst_filter_keys[OF assms(1)] and local = map_fst_filter_keys[OF assms(2)]
  have sets: "set (sw_missing (diff_indexes remote local (new_sweep_report e))) =
      {i. \<exists>r. map_of remote i = Some r \<and> \<not> ix_is_deleted r \<and> map_of local i = None}"
    "set (sw_stale (diff_indexes remote local (new_sweep_report e))) = {i. \<exists>r l. map_of remote i = Some r \<and> map_of local i = Some l \<and>
      (ix_last_updated l < ix_last_updated r \<or> ix_is_deleted r \<noteq> ix_is_deleted l)}"
    "set (sw_extra (diff_indexes remote local (new_sweep_report e))) =
      {i. \<exists>l. map_of local i = Some l \<and> \<not> ix_is_deleted l \<and> map_of remote i = None}"
    unfolding diff_indexes_def new_sweep_report_def by (auto simp: remote local split: option.splits)
  moreover have "distinct (sw_missing (diff_indexes remote local (new_sweep_report e)))"
    "distinct (sw_stale (diff_indexes remote local (new_sweep_report e)))"
    "distinct (sw_extra (diff_indexes remote local (new_sweep_report e)))"
    unfolding diff_indexes_def new_sweep_report_def by (simp_all add: remote local)
  moreover have "sorted (sw_missing (diff_indexes remote local (new_sweep_report e)))"
    "sorted (sw_stale (diff_indexes remote local (new_sweep_report e)))"
    "sorted (sw_extra (diff_indexes remote local (new_sweep_report e)))"
    unfolding diff_indexes_def new_sweep_report_def by simp_all
  ultimately show ?thesis unfolding Let_def distinct_append set_append sets by auto
qed


end
