(* ===== verification/Csv_Text.thy ===== *)
theory Csv_Text
  imports Utf8_Text Rounding
begin

text \<open>
  The splitter of quoted fields \<open>bank/csv.rs\<close>, \<open>payroll.rs\<close> and \<open>authnet/csv.rs\<close> share (each has its own
  copy), the cleaning of an amount's text, and that what is written as quoted fields splits into them.
\<close>

section \<open>Splitting a row\<close>

definition quote_mark :: char where
  "quote_mark = CHR 0x22"

definition comma :: char where
  "comma = CHR 0x2C"

function split_fields :: "bool \<Rightarrow> string \<Rightarrow> string list \<Rightarrow> string \<Rightarrow> string list" where
  "split_fields in_quotes current fs [] = fs @ [current]"
| "split_fields in_quotes current fs (c # chars) =
     (if c = quote_mark \<and> in_quotes \<and> chars \<noteq> [] \<and> hd chars = quote_mark
      then split_fields in_quotes (current @ [quote_mark]) fs (tl chars)
      else if c = quote_mark then split_fields (\<not> in_quotes) current fs chars
      else if c = comma \<and> \<not> in_quotes then split_fields in_quotes [] (fs @ [current]) chars
      else split_fields in_quotes (current @ [c]) fs chars)"
  by pat_completeness auto

termination
  by (relation "measure (\<lambda>(_, _, _, chars). length chars)") auto

definition split_csv_line :: "string \<Rightarrow> string list" where
  "split_csv_line line = split_fields False [] [] line"

section \<open>Amounts\<close>

definition dec_neg :: "decimal \<Rightarrow> decimal" where
  "dec_neg d = Decimal (- mantissa d) (scale d)"

text \<open>
  Dollar signs and thousands separators go; where parentheses mean a negative amount, an amount in
  them loses them.
\<close>

definition cleaned_amount :: "bool \<Rightarrow> string \<Rightarrow> bool \<times> string" where
  "cleaned_amount parens_negative raw =
     (let cleaned = filter (\<lambda>c. c \<noteq> CHR 0x24 \<and> c \<noteq> comma) raw in
      if parens_negative \<and> cleaned \<noteq> [] \<and> hd cleaned = CHR 0x28 \<and> last cleaned = CHR 0x29
      then (True, butlast (tl cleaned)) else (False, cleaned))"

definition read_amount :: "(string \<Rightarrow> decimal option) \<Rightarrow> bool \<Rightarrow> string \<Rightarrow> decimal option" where
  "read_amount from_str parens_negative raw =
     (let (negative, cleaned) = cleaned_amount parens_negative raw in
      map_option (\<lambda>value. if negative then dec_neg value else value) (from_str (trim cleaned)))"

section \<open>Writing a row\<close>

text \<open>A field as it is written: in quotes with its quotes doubled, or as it is when that is safe.\<close>

definition quoted_field :: "string \<Rightarrow> string" where
  "quoted_field f = quote_mark # concat (map (\<lambda>c. if c = quote_mark then [quote_mark, quote_mark] else [c]) f) @ [quote_mark]"

definition writes_field :: "string \<Rightarrow> string \<Rightarrow> bool" where
  "writes_field f t \<longleftrightarrow> t = quoted_field f \<or> t = f \<and> quote_mark \<notin> set f \<and> comma \<notin> set f"

fun csv_row :: "string list \<Rightarrow> string" where
  "csv_row [] = []"
| "csv_row [t] = t"
| "csv_row (t # ts) = t @ comma # csv_row ts"

lemma comma_not_quote [simp]: "comma \<noteq> quote_mark" "quote_mark \<noteq> comma"
  by (simp_all add: comma_def quote_mark_def)

lemma split_plain:
  "quote_mark \<notin> set f \<Longrightarrow> comma \<notin> set f \<Longrightarrow>
    split_fields False current fs (f @ rest) = split_fields False (current @ f) fs rest"
  by (induction f arbitrary: current) auto

definition closes :: "string \<Rightarrow> bool" where
  "closes rest \<longleftrightarrow> rest = [] \<or> hd rest = comma"

lemma split_quoted_body:
  assumes "closes rest"
  shows "split_fields True current fs
      (concat (map (\<lambda>c. if c = quote_mark then [quote_mark, quote_mark] else [c]) f) @ quote_mark # rest) =
    split_fields False (current @ f) fs rest"
proof (induction f arbitrary: current)
  case Nil
  then show ?case using assms by (cases rest) (auto simp: closes_def)
qed auto

lemma split_written:
  assumes "writes_field f t" "closes rest"
  shows "split_fields False [] fs (t @ rest) = split_fields False f fs rest"
  using assms split_quoted_body[OF assms(2), of "[]" fs f] split_plain[of f "[]" fs rest]
  by (auto simp: writes_field_def quoted_field_def)

lemma split_row:
  assumes "list_all2 writes_field fs ts" "fs \<noteq> []"
  shows "split_fields False [] done_fields (csv_row ts) = done_fields @ fs"
  using assms
proof (induction fs ts arbitrary: done_fields rule: list_all2_induct)
  case (Cons f fs t ts)
  show ?case
  proof (cases ts)
    case Nil
    then have "fs = []" using Cons.hyps(2) by simp
    then show ?thesis using split_written[OF Cons.hyps(1), of "[]" done_fields] Nil by (simp add: closes_def)
  next
    case (Cons t' ts')
    then have ne: "fs \<noteq> []" "csv_row (t # ts) = t @ comma # csv_row ts" using \<open>list_all2 writes_field fs ts\<close> by auto
    have "split_fields False [] done_fields (csv_row (t # ts)) = split_fields False f done_fields (comma # csv_row ts)"
      unfolding ne(2) by (rule split_written[OF \<open>writes_field f t\<close>]) (simp add: closes_def)
    then show ?thesis using Cons.IH[OF ne(1), of "done_fields @ [f]"] by simp
  qed
qed simp

lemma split_csv_row: "list_all2 writes_field fs ts \<Longrightarrow> fs \<noteq> [] \<Longrightarrow> split_csv_line (csv_row ts) = fs"
  by (simp add: split_csv_line_def split_row)

section \<open>Amounts as they are printed\<close>

text \<open>Text that no trimming changes and that stays on its line.\<close>

definition text_ok :: "string \<Rightarrow> bool" where
  "text_ok s \<longleftrightarrow> trim s = s \<and> line_feed \<notin> set s"

lemma display_chars: "c \<in> set (display m) \<Longrightarrow> c = CHR ''-'' \<or> c = CHR ''.'' \<or> 48 \<le> (of_char c :: nat) \<and> of_char c < (58 :: nat)"
proof -
  have two: "x \<in> set (show_nat_02 n) \<Longrightarrow> 48 \<le> (of_char x :: nat) \<and> of_char x < (58 :: nat)" for x n
    using show_nat_digits[of x n] by (auto simp: show_nat_02_def split: if_splits)
  assume "c \<in> set (display m)"
  then show ?thesis
    using show_nat_digits[of c "nat \<bar>cents m\<bar> div 100"] two[of c "nat \<bar>cents m\<bar> mod 100"]
    by (auto simp: display_cents split: if_splits)
qed

lemma display_clean:
  "display m \<noteq> []" "text_ok (display m)" "cleaned_amount True (display m) = (False, display m)"
proof -
  show ne: "display m \<noteq> []" by (simp add: display_cents)
  have p: "printed c" if "c \<in> set (display m)" for c
    using display_chars[OF that] by (auto simp: printed_def)
  have "trim (display m) = display m"
    by (rule trim_printed) (use ne p in \<open>auto intro: hd_in_set last_in_set\<close>)
  moreover have "line_feed \<notin> set (display m)"
    using display_chars[of line_feed m] by (auto simp: line_feed_def)
  ultimately show "text_ok (display m)" by (simp add: text_ok_def)
  have "filter (\<lambda>c. c \<noteq> CHR 0x24 \<and> c \<noteq> comma) (display m) = display m"
    by (rule filter_True) (auto simp: comma_def dest!: display_chars)
  moreover have "hd (display m) \<noteq> CHR 0x28"
    using display_chars[OF hd_in_set[OF ne]] by auto
  ultimately show "cleaned_amount True (display m) = (False, display m)"
    by (simp add: cleaned_amount_def)
qed

text \<open>A reader of printed amounts, by their digits.\<close>

definition read_cents :: "string \<Rightarrow> decimal option" where
  "read_cents s = Some (Decimal ((if hd s = CHR ''-'' then - 1 else 1) * int (digits_value 0 (filter is_ascii_digit s))) 2)"

lemma digits_value_from: "digits_value acc xs = acc * 10 ^ length xs + digits_value 0 xs"
proof (induction xs arbitrary: acc)
  case (Cons c xs)
  show ?case
    using Cons[of "10 * acc + (of_char c - 48)"] Cons[of "of_char c - 48"] by (simp add: algebra_simps)
qed simp

lemma cents_read: "read_cents (display m) = Some (Decimal (cents m) 2)"
proof -
  let ?n = "nat \<bar>cents m\<bar>"
  have digits: "filter is_ascii_digit s = s" if "\<And>c. c \<in> set s \<Longrightarrow> 48 \<le> (of_char c :: nat) \<and> of_char c < (58 :: nat)" for s
    using that by (intro filter_True) (auto simp: is_ascii_digit_def less_Suc_eq_le[symmetric])
  have whole: "filter is_ascii_digit (show_nat k) = show_nat k" for k
    by (rule digits) (rule show_nat_digits)
  have "filter is_ascii_digit (show_nat_02 k) = show_nat_02 k" for k
    using whole[of k] by (simp add: show_nat_02_def is_ascii_digit_def)
  then have "filter is_ascii_digit (display m) = show_nat (?n div 100) @ show_nat_02 (?n mod 100)"
    by (simp add: display_cents whole is_ascii_digit_def)
  moreover have "digits_value 0 (show_nat (?n div 100) @ show_nat_02 (?n mod 100)) = ?n"
    using digits_value_from[of "?n div 100" "show_nat_02 (?n mod 100)"]
    by (simp add: digits_value_append digits_value_show show_nat_02_value show_nat_02_length)
  ultimately show ?thesis by (simp add: read_cents_def display_sign)
qed

end
