(* ===== verification/Btree_Map.thy ===== *)
theory Btree_Map
  imports Ledger_Prelude
begin

text \<open>
  \<open>BTreeMap\<close> and \<open>BTreeSet\<close> of the standard library as the code uses them: a map is its entries in
  the order of their keys, a set its elements in order, and \<open>entry(k).or_insert(d)\<close> hands one value
  to an update that may fail.
\<close>

section \<open>Maps\<close>

fun btree_entry :: "('k :: linorder) \<Rightarrow> 'v \<Rightarrow> ('v \<Rightarrow> 'e + 'v) \<Rightarrow> ('k \<times> 'v) list \<Rightarrow> 'e + ('k \<times> 'v) list" where
  "btree_entry k d f [] = and_then (f d) (\<lambda>w. Inr [(k, w)])"
| "btree_entry k d f ((k', v) # rest) =
     (if k < k' then and_then (f d) (\<lambda>w. Inr ((k, w) # (k', v) # rest))
      else if k = k' then and_then (f v) (\<lambda>w. Inr ((k, w) # rest))
      else and_then (btree_entry k d f rest) (\<lambda>rest. Inr ((k', v) # rest)))"

definition btree_ok :: "(('k :: linorder) \<times> 'v) list \<Rightarrow> bool" where
  "btree_ok m \<longleftrightarrow> sorted_wrt (<) (map fst m)"

lemma btree_ok_simps [simp]:
  "btree_ok []"
  "btree_ok (p # m) \<longleftrightarrow> (\<forall>q \<in> set m. fst p < fst q) \<and> btree_ok m"
  by (auto simp: btree_ok_def)

lemma btree_ok_distinct: "btree_ok m \<Longrightarrow> distinct (map fst m)"
  by (simp add: btree_ok_def strict_sorted_iff)

lemma map_of_above: "(\<forall>q \<in> set m. k < fst q) \<Longrightarrow> map_of m (k :: 'k :: linorder) = None"
  by (auto simp: map_of_eq_None_iff)

lemma btree_entry_Cons:
  "btree_entry k d f ((k', v) # m) = Inr m' \<longleftrightarrow>
     k < k' \<and> (\<exists>w. f d = Inr w \<and> m' = (k, w) # (k', v) # m) \<or>
     k = k' \<and> (\<exists>w. f v = Inr w \<and> m' = (k, w) # m) \<or>
     k' < k \<and> (\<exists>r. btree_entry k d f m = Inr r \<and> m' = (k', v) # r)"
  by (cases k k' rule: linorder_cases) auto

declare btree_entry.simps(2) [simp del]

lemma btree_entry_keys: "btree_entry k d f m = Inr m' \<Longrightarrow> fst ` set m' = insert k (fst ` set m)"
proof (induction m arbitrary: m')
  case (Cons p m)
  obtain k' v where p: "p = (k', v)" by (cases p)
  show ?case using Cons.prems[unfolded p btree_entry_Cons]
    by (elim disjE conjE exE) (simp_all add: p Cons.IH insert_commute)
qed auto

lemma btree_entry_ok: "btree_entry k d f m = Inr m' \<Longrightarrow> btree_ok m \<Longrightarrow> btree_ok m'"
proof (induction m arbitrary: m')
  case (Cons p m)
  obtain k' v where p: "p = (k', v)" by (cases p)
  have keys: "fst ` set r = insert k (fst ` set m)" if "btree_entry k d f m = Inr r" for r
    by (rule btree_entry_keys[OF that])
  have above: "k' < fst q" if "btree_entry k d f m = Inr r" "k' < k" "q \<in> set r" for r q
  proof -
    have "fst q = k \<or> fst q \<in> fst ` set m" using that(3) keys[OF that(1)] by blast
    then show ?thesis using that(2) Cons.prems(2) by (auto simp: p)
  qed
  show ?case using Cons.prems above Cons.IH by (fastforce simp: p btree_entry_Cons)
qed auto

text \<open>The entry's value afterwards, every other entry being as it was.\<close>

lemma btree_entry_value:
  assumes "btree_entry k d f m = Inr m'" "btree_ok m"
  obtains v where "f (unwrap_or (map_of m k) d) = Inr v" "map_of m' = (map_of m)(k \<mapsto> v)"
proof -
  have "\<exists>v. f (unwrap_or (map_of m k) d) = Inr v \<and> map_of m' = (map_of m)(k \<mapsto> v)"
    using assms
  proof (induction m arbitrary: m')
    case (Cons p m)
    obtain k' v where p: "p = (k', v)" by (cases p)
    have low: "map_of m k = None" if "k \<le> k'"
      using that Cons.prems(2) by (intro map_of_above) (auto simp: p)
    show ?case using Cons.prems(1)[unfolded p btree_entry_Cons]
    proof (elim disjE conjE exE)
      fix w assume "k < k'" "f d = Inr w" "m' = (k, w) # (k', v) # m"
      then show ?thesis using low by (auto simp: p fun_upd_twist)
    next
      fix r assume r: "k' < k" "btree_entry k d f m = Inr r" "m' = (k', v) # r"
      then obtain w where "f (unwrap_or (map_of m k) d) = Inr w" "map_of r = (map_of m)(k \<mapsto> w)"
        using Cons.IH[OF r(2)] Cons.prems(2) by (auto simp: p simp del: fun_upd_apply)
      then show ?thesis using r by (intro exI[of _ w]) (auto simp: p fun_eq_iff)
    qed (use low in \<open>auto simp: p\<close>)
  qed (auto simp: fun_eq_iff)
  then show thesis using that by blast
qed

text \<open>What is inserted moves a sum over the map by what it moves the entry.\<close>

lemma btree_entry_sum:
  fixes w :: "('k :: linorder) \<times> 'v \<Rightarrow> int"
  assumes "btree_entry k d f m = Inr m'" "w (k, d) = 0"
    and "\<And>v v'. f v = Inr v' \<Longrightarrow> w (k, v') = w (k, v) + change"
  shows "(\<Sum>p\<leftarrow>m'. w p) = (\<Sum>p\<leftarrow>m. w p) + change"
  using assms(1)
proof (induction m arbitrary: m')
  case Nil
  then obtain v where v: "f d = Inr v" "m' = [(k, v)]" by auto
  show ?case using assms(3)[OF v(1)] assms(2) v(2) by simp
next
  case (Cons p m)
  obtain k' v where p: "p = (k', v)" by (cases p)
  show ?case using Cons.prems[unfolded p btree_entry_Cons] assms(2,3) Cons.IH by (auto simp: p)
qed

text \<open>Two maps with the same entries are the same map.\<close>

lemma btree_eqI:
  assumes "btree_ok m" "btree_ok m'" "map_of m = map_of m'"
  shows "m = m'"
proof (rule map_sorted_distinct_set_unique)
  have d: "distinct (map fst m)" "distinct (map fst m')" using assms(1,2) by (auto dest: btree_ok_distinct)
  show s: "set m = set m'" using map_of_eq_Some_iff[OF d(1)] map_of_eq_Some_iff[OF d(2)] assms(3)
    by (metis (no_types, lifting) subrelI subset_antisym)
  show "inj_on fst (set m \<union> set m')" using d(1) s by (simp add: distinct_map)
  show "sorted (map fst m)" "distinct (map fst m)" "sorted (map fst m')" "distinct (map fst m')"
    using assms(1,2) by (simp_all add: btree_ok_def strict_sorted_iff)
qed

section \<open>Sets\<close>

definition btree_set_add :: "('a :: linorder) \<Rightarrow> 'a list \<Rightarrow> 'a list" where
  "btree_set_add x xs = insort_insert x xs"

lemma set_btree_set_add [simp]: "set (btree_set_add x xs) = insert x (set xs)"
  by (simp add: btree_set_add_def set_insort_insert)

lemma btree_set_add_sorted:
  "sorted xs \<Longrightarrow> sorted (btree_set_add x xs)" "distinct xs \<Longrightarrow> distinct (btree_set_add x xs)"
  by (simp_all add: btree_set_add_def sorted_insort_insert distinct_insort_insert)

lemma btree_set_eqI: "sorted xs \<Longrightarrow> distinct xs \<Longrightarrow> sorted ys \<Longrightarrow> distinct ys \<Longrightarrow> set xs = set ys \<Longrightarrow> xs = ys"
  by (rule sorted_distinct_set_unique)

end
