(* ===== verification/Payroll.thy ===== *)
theory Payroll
  imports Store_Desk Posting_Balance Csv_Text Btree_Map
begin

text \<open>
  \<open>payroll.rs\<close>: the pay-run file, the document one run becomes, and the import that posts runs all or
  nothing. The readers of decimals and dates, the printed forms and the JSON of a document are
  arguments; a run is never given a class it is not mapped to.
\<close>

section \<open>Pay runs\<close>

datatype pay_section =
    Earning | NoncashEarning | EmployeeTax | EmployeeDeduction | EmployerTax | EmployerDeduction | NetPay

fun pay_section_as_str :: "pay_section \<Rightarrow> string" where
  "pay_section_as_str Earning = ''earning''"
| "pay_section_as_str NoncashEarning = ''noncash_earning''"
| "pay_section_as_str EmployeeTax = ''employee_tax''"
| "pay_section_as_str EmployeeDeduction = ''employee_deduction''"
| "pay_section_as_str EmployerTax = ''employer_tax''"
| "pay_section_as_str EmployerDeduction = ''employer_deduction''"
| "pay_section_as_str NetPay = ''net_pay''"

definition parse_pay_section :: "string \<Rightarrow> pay_section option" where
  "parse_pay_section raw =
     find_map (\<lambda>s. pay_section_as_str s = to_ascii_lowercase (trim raw))
       [Earning, NoncashEarning, EmployeeTax, EmployeeDeduction, EmployerTax, EmployerDeduction, NetPay]"

record pay_line =
  pl_employee :: string
  pl_department :: "string option"
  pl_section :: pay_section
  pl_item :: string
  pl_amount :: money

record pay_run =
  pr_run_id :: string
  pr_pay_date :: naive_date
  pr_period_start :: "naive_date option"
  pr_period_end :: "naive_date option"
  pr_lines :: "pay_line list"

datatype payroll_error =
    P_Malformed nat string
  | P_MissingColumn string
  | P_Empty
  | P_Invalid string string
  | P_Unmapped string "string list"
  | P_NetPayMismatch string string string
  | P_Changed string string
  | P_Config string string
  | P_Money money_error
  | P_Post post_error
  | P_Ledger ledger_error

type_synonym 'a pay_res = "(payroll_error, 'a) res"

text \<open>
  The decimal library; \<open>Decimal::from_str\<close>; \<open>NaiveDate::parse_from_str\<close> by format; how a date, a
  timestamp and a quoted text (\<open>{:?}\<close>) are printed; \<open>serde_json::to_string\<close> of a document.
\<close>

record payroll_env =
  pe_debug :: bool
  pe_dec :: dec_ops
  pe_decimal :: "string \<Rightarrow> decimal option"
  pe_date :: "string \<Rightarrow> string \<Rightarrow> naive_date option"
  pe_show_date :: "naive_date \<Rightarrow> string"
  pe_rfc3339 :: "timestamp \<Rightarrow> string"
  pe_quote :: "string \<Rightarrow> string"
  pe_to_json :: "ledger_document \<Rightarrow> string + string"

definition pay_document_id :: "payroll_env \<Rightarrow> pay_run \<Rightarrow> string" where
  "pay_document_id E run = ''payroll:'' @ pe_show_date E (pr_pay_date run) @ '':'' @ pr_run_id run"

section \<open>Parsing\<close>

definition COLUMNS :: "string list" where
  "COLUMNS =
     [''run_id'', ''pay_date'', ''period_start'', ''period_end'', ''employee'', ''department'', ''section'',
      ''item'', ''amount'']"

definition REQUIRED :: "string list" where
  "REQUIRED = [''run_id'', ''pay_date'', ''employee'', ''section'', ''item'', ''amount'']"

definition money_error_str :: "money_error \<Rightarrow> string" where
  "money_error_str e =
     (case e of
        Overflow \<Rightarrow> ''money arithmetic overflowed i64 minor units''
      | OutOfRange x \<Rightarrow> ''decimal value '' @ x @ '' is outside the range representable as i64 minor units'')"

definition parse_date :: "payroll_env \<Rightarrow> string \<Rightarrow> string + naive_date" where
  "parse_date E raw =
     ok_or (or_else (pe_date E ''%Y-%m-%d'' raw) (pe_date E ''%m/%d/%Y'' raw))
       (''invalid date '' @ pe_quote E raw @ '' (YYYY-MM-DD or MM/DD/YYYY)'')"

definition optional_date :: "payroll_env \<Rightarrow> string \<Rightarrow> string + naive_date option" where
  "optional_date E raw = (if raw = [] then Inr None else and_then (parse_date E raw) (\<lambda>d. Inr (Some d)))"

definition parse_pay_amount :: "payroll_env \<Rightarrow> string \<Rightarrow> string + money" where
  "parse_pay_amount E raw =
     and_then (ok_or (read_amount (pe_decimal E) True raw) (''invalid amount '' @ pe_quote E raw)) (\<lambda>value.
     if 2 < scale value then Inl (''amount '' @ pe_quote E raw @ '' has more than two decimal places'')
     else map_err money_error_str (round_money (pe_dec E) value MirroredAmount))"

fun position :: "('a \<Rightarrow> bool) \<Rightarrow> 'a list \<Rightarrow> nat option" where
  "position P [] = None"
| "position P (x # xs) = (if P x then Some 0 else map_option Suc (position P xs))"

definition csv_field :: "string list \<Rightarrow> string list \<Rightarrow> string \<Rightarrow> string" where
  "csv_field header fs name =
     (case position (\<lambda>h. h = name) header of
        Some i \<Rightarrow> if i < length fs then trim (fs ! i) else []
      | None \<Rightarrow> [])"

definition required_field :: "string list \<Rightarrow> string list \<Rightarrow> string \<Rightarrow> string + string" where
  "required_field header fs name =
     (let value = csv_field header fs name in if value = [] then Inl (name @ '' is empty'') else Inr value)"

record pay_row =
  rw_run_id :: string
  rw_pay_date :: naive_date
  rw_period_start :: "naive_date option"
  rw_period_end :: "naive_date option"
  rw_line :: pay_line

definition parse_pay_row :: "payroll_env \<Rightarrow> string list \<Rightarrow> string list \<Rightarrow> string + pay_row" where
  "parse_pay_row E header fs =
     and_then (required_field header fs ''run_id'') (\<lambda>run_id.
     and_then (and_then (required_field header fs ''pay_date'') (parse_date E)) (\<lambda>pay_date.
     and_then (optional_date E (csv_field header fs ''period_start'')) (\<lambda>period_start.
     and_then (optional_date E (csv_field header fs ''period_end'')) (\<lambda>period_end.
     and_then (required_field header fs ''section'') (\<lambda>section_raw.
     and_then (ok_or (parse_pay_section section_raw) (''unknown section '' @ pe_quote E section_raw)) (\<lambda>pay_section.
     and_then (and_then (required_field header fs ''amount'') (parse_pay_amount E)) (\<lambda>amount.
     let department = csv_field header fs ''department'' in
     and_then (required_field header fs ''employee'') (\<lambda>employee.
     and_then (required_field header fs ''item'') (\<lambda>item.
     Inr \<lparr>rw_run_id = run_id, rw_pay_date = pay_date, rw_period_start = period_start, rw_period_end = period_end,
          rw_line = \<lparr>pl_employee = employee, pl_department = (if department = [] then None else Some department),
            pl_section = pay_section, pl_item = item, pl_amount = amount\<rparr>\<rparr>)))))))))"

text \<open>
  A row joins the first run of its id and check date, which may still lack its pay period; else it
  opens a run.
\<close>

definition join_run :: "pay_row \<Rightarrow> pay_run \<Rightarrow> string + pay_run" where
  "join_run row run =
     (let start = rw_period_start row; stop = rw_period_end row in
      if start \<noteq> None \<and> pr_period_start run \<noteq> start \<or> stop \<noteq> None \<and> pr_period_end run \<noteq> stop then
        if pr_period_start run = None \<and> pr_period_end run = None
        then Inr (run\<lparr>pr_period_start := start, pr_period_end := stop, pr_lines := pr_lines run @ [rw_line row]\<rparr>)
        else Inl (''run '' @ rw_run_id row @ '' gives two different pay periods'')
      else Inr (run\<lparr>pr_lines := pr_lines run @ [rw_line row]\<rparr>))"

fun place_row :: "pay_row \<Rightarrow> pay_run list \<Rightarrow> string + pay_run list" where
  "place_row row [] =
     Inr [\<lparr>pr_run_id = rw_run_id row, pr_pay_date = rw_pay_date row, pr_period_start = rw_period_start row,
           pr_period_end = rw_period_end row, pr_lines = [rw_line row]\<rparr>]"
| "place_row row (run # runs) =
     (if pr_run_id run = rw_run_id row \<and> pr_pay_date run = rw_pay_date row
      then and_then (join_run row run) (\<lambda>run. Inr (run # runs))
      else and_then (place_row row runs) (\<lambda>runs. Inr (run # runs)))"

definition byte_order_mark :: string where
  "byte_order_mark = [CHR 0xEF, CHR 0xBB, CHR 0xBF]"

definition csv_lines :: "string \<Rightarrow> (nat \<times> string) list" where
  "csv_lines text =
     filter (\<lambda>(_, line). trim line \<noteq> [])
       (map (\<lambda>(row, line). (row, strip_leading [byte_order_mark] line)) (enumerate 1 (text_lines text)))"

definition parse_pay_line ::
  "payroll_env \<Rightarrow> string list \<Rightarrow> pay_run list \<Rightarrow> nat \<times> string \<Rightarrow> payroll_error + pay_run list" where
  "parse_pay_line E header runs = (\<lambda>(row, line).
     map_err (P_Malformed row)
       (and_then (parse_pay_row E header (split_csv_line line)) (\<lambda>r. place_row r runs)))"

definition parse_pay_csv :: "payroll_env \<Rightarrow> string \<Rightarrow> payroll_error + pay_run list" where
  "parse_pay_csv E text =
     (case csv_lines text of
        [] \<Rightarrow> Inl P_Empty
      | (_, first) # rows \<Rightarrow>
          let header = map (\<lambda>h. to_ascii_lowercase (trim h)) (split_csv_line first) in
          case find_map (\<lambda>name. position (\<lambda>h. h = name) header = None) REQUIRED of
            Some name \<Rightarrow> Inl (P_MissingColumn name)
          | None \<Rightarrow>
              and_then (try_fold (parse_pay_line E header) [] rows) (\<lambda>runs.
              if runs = [] then Inl P_Empty else Inr runs))"


section \<open>Where pay lands\<close>

record pay_mapping =
  mp_class :: string
  mp_wages_account :: "string option"
  mp_employer_tax_account :: "string option"

record payroll_config =
  pc_bank_account :: string
  pc_liabilities_account :: string
  pc_wages_account :: string
  pc_employer_tax_account :: "string option"
  pc_employees :: "string \<Rightarrow> pay_mapping option"
  pc_departments :: "string \<Rightarrow> pay_mapping option"

definition default_payroll_config :: payroll_config where
  "default_payroll_config =
     \<lparr>pc_bank_account = CHECKING, pc_liabilities_account = PAYROLL_LIABILITIES, pc_wages_account = DIRECT_LABOUR,
      pc_employer_tax_account = None, pc_employees = Map.empty, pc_departments = Map.empty\<rparr>"

definition mapping_of_line :: "payroll_config \<Rightarrow> pay_line \<Rightarrow> pay_mapping option" where
  "mapping_of_line config line =
     or_else (pc_employees config (trim (pl_employee line)))
       (Option.bind (pl_department line) (\<lambda>d. pc_departments config (trim d)))"

definition wages_account :: "payroll_config \<Rightarrow> pay_mapping \<Rightarrow> string" where
  "wages_account config mapping = unwrap_or (mp_wages_account mapping) (pc_wages_account config)"

definition employer_account :: "payroll_config \<Rightarrow> pay_mapping \<Rightarrow> string" where
  "employer_account config mapping =
     unwrap_or (or_else (mp_employer_tax_account mapping) (pc_employer_tax_account config)) (wages_account config mapping)"

section \<open>The run's document\<close>

record run_totals =
  rt_gross :: money
  rt_employer_costs :: money
  rt_liabilities :: money
  rt_net_pay :: money
  rt_noncash :: money

definition no_totals :: run_totals where
  "no_totals = \<lparr>rt_gross = ZERO, rt_employer_costs = ZERO, rt_liabilities = ZERO, rt_net_pay = ZERO, rt_noncash = ZERO\<rparr>"

type_synonym pay_debits = "((string \<times> string) \<times> (money \<times> string list)) list"

record pay_sums =
  ps_debits :: pay_debits
  ps_liabilities :: "(string \<times> money) list"
  ps_computed_net :: "(string \<times> money) list"
  ps_stated_net :: "(string \<times> money) list"
  ps_totals :: run_totals

definition no_sums :: pay_sums where
  "no_sums =
     \<lparr>ps_debits = [], ps_liabilities = [], ps_computed_net = [], ps_stated_net = [], ps_totals = no_totals\<rparr>"

definition pay_money :: "money_error + 'a \<Rightarrow> 'a pay_res" where
  "pay_money r = map_err (\<lambda>e. Err (P_Money e)) r"

definition unmapped_name :: "payroll_env \<Rightarrow> pay_line \<Rightarrow> string" where
  "unmapped_name E line =
     (case pl_department line of
        Some d \<Rightarrow> ''employee '' @ pe_quote E (pl_employee line) @ '' (department '' @ pe_quote E d @ '')''
      | None \<Rightarrow> ''employee '' @ pe_quote E (pl_employee line))"

definition unmapped_names :: "payroll_env \<Rightarrow> payroll_config \<Rightarrow> pay_line list \<Rightarrow> string list" where
  "unmapped_names E config ls =
     fold (\<lambda>line names. if pl_section line \<noteq> NetPay \<and> mapping_of_line config line = None
        then btree_set_add (unmapped_name E line) names else names) ls []"

definition debit_wages :: "pay_mapping \<Rightarrow> pay_line \<Rightarrow> string \<Rightarrow> pay_debits \<Rightarrow> pay_debits pay_res" where
  "debit_wages mapping line account debits =
     btree_entry (account, mp_class mapping) (ZERO, []) (\<lambda>(amount, items).
       and_then (pay_money (checked_add amount (pl_amount line))) (\<lambda>amount.
       Inr (amount, btree_set_add (trim (pl_item line)) items))) debits"

definition owe :: "pay_line \<Rightarrow> (string \<times> money) list \<Rightarrow> (string \<times> money) list pay_res" where
  "owe line liabilities =
     btree_entry (trim (pl_item line)) ZERO (\<lambda>slot. pay_money (checked_add slot (pl_amount line))) liabilities"

definition net_changed :: "(money \<Rightarrow> money_error + money) \<Rightarrow> pay_line \<Rightarrow> (string \<times> money) list \<Rightarrow> (string \<times> money) list pay_res" where
  "net_changed change line nets = btree_entry (trim (pl_employee line)) ZERO (\<lambda>net. pay_money (change net)) nets"

definition pay_earning :: "payroll_config \<Rightarrow> pay_mapping \<Rightarrow> pay_line \<Rightarrow> pay_sums \<Rightarrow> pay_sums pay_res" where
  "pay_earning config mapping line tally =
     and_then (debit_wages mapping line (wages_account config mapping) (ps_debits tally)) (\<lambda>debits.
     and_then (net_changed (\<lambda>net. checked_add net (pl_amount line)) line (ps_computed_net tally)) (\<lambda>computed.
     and_then (pay_money (checked_add (rt_gross (ps_totals tally)) (pl_amount line))) (\<lambda>gross.
     Inr (tally\<lparr>ps_debits := debits, ps_computed_net := computed,
       ps_totals := (ps_totals tally)\<lparr>rt_gross := gross\<rparr>\<rparr>))))"

definition pay_noncash :: "pay_line \<Rightarrow> pay_sums \<Rightarrow> pay_sums pay_res" where
  "pay_noncash line tally =
     and_then (pay_money (checked_add (rt_noncash (ps_totals tally)) (pl_amount line))) (\<lambda>noncash.
     Inr (tally\<lparr>ps_totals := (ps_totals tally)\<lparr>rt_noncash := noncash\<rparr>\<rparr>))"

definition pay_withholding :: "pay_line \<Rightarrow> pay_sums \<Rightarrow> pay_sums pay_res" where
  "pay_withholding line tally =
     and_then (owe line (ps_liabilities tally)) (\<lambda>liabilities.
     and_then (net_changed (\<lambda>net. checked_sub net (pl_amount line)) line (ps_computed_net tally)) (\<lambda>computed.
     Inr (tally\<lparr>ps_liabilities := liabilities, ps_computed_net := computed\<rparr>)))"

definition pay_employer_cost :: "payroll_config \<Rightarrow> pay_mapping \<Rightarrow> pay_line \<Rightarrow> pay_sums \<Rightarrow> pay_sums pay_res" where
  "pay_employer_cost config mapping line tally =
     and_then (debit_wages mapping line (employer_account config mapping) (ps_debits tally)) (\<lambda>debits.
     and_then (owe line (ps_liabilities tally)) (\<lambda>liabilities.
     and_then (pay_money (checked_add (rt_employer_costs (ps_totals tally)) (pl_amount line))) (\<lambda>employer_costs.
     Inr (tally\<lparr>ps_debits := debits, ps_liabilities := liabilities,
       ps_totals := (ps_totals tally)\<lparr>rt_employer_costs := employer_costs\<rparr>\<rparr>))))"

definition pay_figure :: "payroll_config \<Rightarrow> pay_sums \<Rightarrow> pay_line \<Rightarrow> pay_sums pay_res" where
  "pay_figure config tally line =
     and_then (net_changed Inr line (ps_computed_net tally)) (\<lambda>computed.
     let tally = tally\<lparr>ps_computed_net := computed\<rparr> in
     if pl_section line = NetPay then
       and_then (net_changed (\<lambda>stated. checked_add stated (pl_amount line)) line (ps_stated_net tally)) (\<lambda>stated.
       Inr (tally\<lparr>ps_stated_net := stated\<rparr>))
     else
       and_then (ok_or (mapping_of_line config line) Panic) (\<lambda>mapping.
       case pl_section line of
         Earning \<Rightarrow> pay_earning config mapping line tally
       | NoncashEarning \<Rightarrow> pay_noncash line tally
       | EmployeeTax \<Rightarrow> pay_withholding line tally
       | EmployeeDeduction \<Rightarrow> pay_withholding line tally
       | EmployerTax \<Rightarrow> pay_employer_cost config mapping line tally
       | EmployerDeduction \<Rightarrow> pay_employer_cost config mapping line tally
       | NetPay \<Rightarrow> Inl Panic))"

definition check_net_pay :: "pay_run \<Rightarrow> pay_sums \<Rightarrow> unit pay_res" where
  "check_net_pay run tally =
     try_each (\<lambda>(employee, stated).
       let computed = unwrap_or (map_of (ps_computed_net tally) employee) ZERO in
       if stated \<noteq> computed then Inl (Err (P_NetPayMismatch (pr_run_id run) (display stated) (display computed)))
       else Inr ()) (ps_stated_net tally)"

fun join_text :: "string \<Rightarrow> string list \<Rightarrow> string" where
  "join_text sep [] = []"
| "join_text sep [t] = t"
| "join_text sep (t # ts) = t @ sep @ join_text sep ts"

definition pay_doc_line :: "nat \<Rightarrow> string \<times> string option \<times> side \<times> money \<times> string \<Rightarrow> doc_line" where
  "pay_doc_line line_no = (\<lambda>(account, class, side, amount, what).
     \<lparr>dl_line_no = int line_no, dl_kind = Journal, dl_amount = amount, dl_class = map_option ClassId class,
      dl_item_id = None, dl_account = Some (AccountId account), dl_is_taxable = False, dl_qty = None,
      dl_unit_cost = None, dl_description = Some what, dl_posting = Some side, dl_entity = None\<rparr>)"

definition pay_doc_lines :: "payroll_config \<Rightarrow> pay_sums \<Rightarrow> money \<Rightarrow> doc_line list" where
  "pay_doc_lines config tally net_pay =
     map (\<lambda>(line_no, l). pay_doc_line line_no l) (enumerate 1
       (map (\<lambda>((account, class), amount, items).
          (account, Some class, Debit, amount, ''Payroll '' @ class @ '': '' @ join_text '', '' items)) (ps_debits tally) @
        map (\<lambda>(item, amount).
          (pc_liabilities_account config, None, Credit, amount, ''Payroll liability: '' @ item)) (ps_liabilities tally) @
        [(pc_bank_account config, None, Credit, net_pay, ''Payroll net pay'')]))"

definition pay_document :: "payroll_env \<Rightarrow> payroll_config \<Rightarrow> pay_run \<Rightarrow> doc_line list \<Rightarrow> ledger_document" where
  "pay_document E config run ls =
     (let period = (case (pr_period_start run, pr_period_end run) of
          (Some a, Some b) \<Rightarrow> '', period '' @ pe_show_date E a @ '' to '' @ pe_show_date E b
        | _ \<Rightarrow> []) in
      \<lparr>doc_document_id = pay_document_id E run, doc_kind = JournalEntry, doc_number = Some (pr_run_id run),
       doc_txn_date = pr_pay_date run, doc_due_date = None, doc_contact = None, doc_header_class = None,
       doc_lines = ls, doc_tax = None, doc_deposit_to = None, doc_pay_from = Some (AccountId (pc_bank_account config)),
       doc_applications = [], doc_unapplied = ZERO, doc_is_voided = False,
       doc_source_ref = Some (''surepayroll:'' @ pr_run_id run),
       doc_memo = Some (''SurePayroll pay run '' @ pr_run_id run @ '', check date '' @
         pe_show_date E (pr_pay_date run) @ period)\<rparr>)"

definition journal_document ::
  "payroll_env \<Rightarrow> pay_run \<Rightarrow> payroll_config \<Rightarrow> (ledger_document \<times> run_totals) pay_res" where
  "journal_document E run config =
     (let invalid = (\<lambda>reason. Inl (Err (P_Invalid (pr_run_id run) reason)));
          unmapped = unmapped_names E config (pr_lines run) in
      if trim (pr_run_id run) = [] then invalid ''run id is empty''
      else if pr_lines run = [] then invalid ''no lines''
      else if unmapped \<noteq> [] then Inl (Err (P_Unmapped (pr_run_id run) unmapped))
      else
        and_then (try_fold (pay_figure config) no_sums (pr_lines run)) (\<lambda>tally.
        and_then (check_net_pay run tally) (\<lambda>_.
        and_then (pay_money (checked_sum (map snd (ps_computed_net tally)))) (\<lambda>net_pay.
        and_then (pay_money (checked_sum (map snd (ps_liabilities tally)))) (\<lambda>liabilities.
        let totals = (ps_totals tally)\<lparr>rt_net_pay := net_pay, rt_liabilities := liabilities\<rparr> in
        if is_negative net_pay then invalid ''withholdings exceed earnings: net pay is negative''
        else if is_zero (rt_gross totals) \<and> is_zero (rt_employer_costs totals)
        then invalid ''nothing to post: no cash earnings and no employer costs''
        else Inr (pay_document E config run (pay_doc_lines config tally net_pay), totals))))))"


section \<open>Import\<close>

datatype run_status = RunPosted | AlreadyImported

record run_outcome =
  ro_run_id :: string
  ro_pay_date :: naive_date
  ro_document_id :: string
  ro_status :: run_status
  ro_entry_id :: string
  ro_totals :: run_totals

type_synonym 'a payroll = "(payroll_error failure, 'a) run"

abbreviation on_ledger :: "'a op \<Rightarrow> 'a payroll" where
  "on_ledger \<equiv> lift_run (\<lambda>e. Err (P_Ledger e))"

definition run_outcome_of ::
  "pay_run \<Rightarrow> ledger_document \<Rightarrow> run_totals \<Rightarrow> run_status \<Rightarrow> string \<Rightarrow> run_outcome" where
  "run_outcome_of run doc totals status entry_id =
     \<lparr>ro_run_id = pr_run_id run, ro_pay_date = pr_pay_date run, ro_document_id = doc_document_id doc,
      ro_status = status, ro_entry_id = entry_id, ro_totals = totals\<rparr>"

definition pay_entry :: "payroll_env \<Rightarrow> pay_run \<Rightarrow> ledger_document \<Rightarrow> int \<Rightarrow> journal_entry pay_res" where
  "pay_entry E run doc version =
     (case post (pe_debug E) (pe_dec E) doc version default_context of
        Inl (Err e) \<Rightarrow> Inl (Err (P_Post e))
      | Inl Panic \<Rightarrow> Inl Panic
      | Inr (Entry j) \<Rightarrow> if pe_debug E \<and> \<not> je_is_flagged j then Inl Panic else Inr j
      | Inr NonPosting \<Rightarrow> Inl (Err (P_Invalid (pr_run_id run) ''the run moves no money'')))"

definition same_payload :: "payroll_env \<Rightarrow> db \<Rightarrow> string \<Rightarrow> ledger_document \<Rightarrow> bool" where
  "same_payload E db company doc =
     (case latest_document_payload db company (doc_document_id doc) of
        Some payload \<Rightarrow> payload = (case pe_to_json E doc of Inr json \<Rightarrow> json | Inl _ \<Rightarrow> [])
      | None \<Rightarrow> False)"

text \<open>The ids of the command and the entry a run draws are those of its place among the runs.\<close>

definition import_run ::
  "payroll_env \<Rightarrow> string \<Rightarrow> string \<Rightarrow> (nat \<Rightarrow> string \<times> string) \<Rightarrow> timestamp \<Rightarrow> run_outcome list \<Rightarrow>
   nat \<times> pay_run \<times> ledger_document \<times> run_totals \<Rightarrow> run_outcome list payroll" where
  "import_run E company actor fresh now outcomes = (\<lambda>(i, run, doc, totals).
     and_run (on_ledger (reading (\<lambda>db. live_entries_for_document db company (doc_document_id doc)))) (\<lambda>live.
     case live of
       (entry_id, _) # _ \<Rightarrow>
         and_run (reading (\<lambda>db. Inr (same_payload E db company doc))) (\<lambda>same.
         if \<not> same then fail (Err (P_Changed (doc_document_id doc) entry_id))
         else ret (outcomes @ [run_outcome_of run doc totals AlreadyImported entry_id]))
     | [] \<Rightarrow>
         and_run (on_ledger (save_document (pe_to_json E) company doc
             \<lparr>cm_actor_id = actor, cm_kind = ''payroll_import'', cm_hlc = pe_rfc3339 E now\<rparr> (fst (fresh i)) now)) (\<lambda>version.
         and_run (reading (\<lambda>_. pay_entry E run doc (vi_version version))) (\<lambda>entry.
         and_run (on_ledger (post_entry company entry (snd (fresh i)) now)) (\<lambda>entry_id.
         ret (outcomes @ [run_outcome_of run doc totals RunPosted entry_id]))))))"

definition refuse_closed ::
  "payroll_env \<Rightarrow> string \<Rightarrow> (pay_run \<times> ledger_document \<times> run_totals) list \<Rightarrow> db \<Rightarrow> unit pay_res" where
  "refuse_closed E company built db =
     (case locked_through db company of
        None \<Rightarrow> Inr ()
      | Some locked \<Rightarrow>
          (case find_map (\<lambda>(run, _). pr_pay_date run \<le> locked) built of
             None \<Rightarrow> Inr ()
           | Some (run, _) \<Rightarrow>
               Inl (Err (P_Invalid (pr_run_id run)
                 (''check date '' @ pe_show_date E (pr_pay_date run) @ '' is in a closed period (period locked through '' @
                  pe_show_date E locked @ '')'')))))"

definition import_runs ::
  "payroll_env \<Rightarrow> string \<Rightarrow> pay_run list \<Rightarrow> payroll_config \<Rightarrow> string \<Rightarrow> (nat \<Rightarrow> string \<times> string) \<Rightarrow> timestamp \<Rightarrow>
   run_outcome list payroll" where
  "import_runs E company runs config actor fresh now =
     (if runs = [] then fail (Err P_Empty)
      else
        and_run (reading (\<lambda>_. try_map (\<lambda>run.
            and_then (journal_document E run config) (\<lambda>(doc, totals). Inr (run, doc, totals))) runs)) (\<lambda>built.
        and_run (reading (refuse_closed E company built)) (\<lambda>_.
        atomically (run_fold (import_run E company actor fresh now) [] (enumerate 0 built)))))"

end
