(* ===== verification/Payroll_Facts.thy ===== *)
theory Payroll_Facts
  imports Payroll Posting_Outcome
begin

text \<open>
  What the fold over a run's lines adds up: each of its maps groups the lines by a key, and each
  entry is the sum of its group. The document's legs and the totals follow.
\<close>

section \<open>Groups\<close>

text \<open>
  A map groups \<open>ls\<close> by \<open>key\<close>: it has an entry for exactly the keys that occur, which is in \<open>R\<close> with the
  lines of that key.
\<close>

definition group_of :: "('l \<Rightarrow> 'k option) \<Rightarrow> 'l list \<Rightarrow> 'k \<Rightarrow> 'l list" where
  "group_of key ls k = filter (\<lambda>l. key l = Some k) ls"

definition groups ::
  "('l \<Rightarrow> ('k :: linorder) option) \<Rightarrow> ('l list \<Rightarrow> 'v \<Rightarrow> bool) \<Rightarrow> 'l list \<Rightarrow> ('k \<times> 'v) list \<Rightarrow> bool" where
  "groups key R ls m \<longleftrightarrow> btree_ok m \<and>
     (\<forall>k. case map_of m k of None \<Rightarrow> group_of key ls k = [] | Some v \<Rightarrow> group_of key ls k \<noteq> [] \<and> R (group_of key ls k) v)"

lemma group_of_snoc [simp]: "group_of key (ls @ [l]) k = group_of key ls k @ (if key l = Some k then [l] else [])"
  by (simp add: group_of_def)

lemma groups_Nil: "groups key R [] []"
  by (simp add: groups_def group_of_def)

lemma groups_other: "key l = None \<Longrightarrow> groups key R (ls @ [l]) m = groups key R ls m"
  by (simp add: groups_def cong: option.case_cong)

lemma groups_step:
  assumes "groups key R ls m" "key l = Some k" "btree_entry k d f m = Inr m'" "R [] d"
    and step: "\<And>g v v'. R g v \<Longrightarrow> f v = Inr v' \<Longrightarrow> R (g @ [l]) v'"
  shows "groups key R (ls @ [l]) m'"
proof -
  have ok: "btree_ok m" using assms(1) by (simp add: groups_def)
  obtain v where v: "f (unwrap_or (map_of m k) d) = Inr v" "map_of m' = (map_of m)(k \<mapsto> v)"
    by (rule btree_entry_value[OF assms(3) ok]) (rule that)
  have "R (group_of key ls k) (unwrap_or (map_of m k) d)"
    using assms(1,4) by (cases "map_of m k") (auto simp: groups_def dest!: spec[of _ k])
  then have "R (group_of key ls k @ [l]) v" using step v(1) by blast
  then have "case map_of m' j of None \<Rightarrow> group_of key (ls @ [l]) j = []
      | Some v \<Rightarrow> group_of key (ls @ [l]) j \<noteq> [] \<and> R (group_of key (ls @ [l]) j) v" for j
  proof (cases "j = k")
    case False
    then have same: "group_of key (ls @ [l]) j = group_of key ls j" "map_of m' j = map_of m j"
      using assms(2) by (simp_all add: v(2))
    show ?thesis unfolding same using assms(1) by (simp add: groups_def)
  qed (simp add: v(2) assms(2))
  then show ?thesis using btree_entry_ok[OF assms(3) ok] by (simp add: groups_def del: group_of_snoc)
qed

text \<open>Groupings of lists whose groups have the same values are the same map.\<close>

lemma groups_unique:
  assumes "groups key R ls m" "groups key' R' ls' m'"
    and same: "\<And>k. group_of key ls k = [] \<longleftrightarrow> group_of key' ls' k = []"
    and vals: "\<And>k v v'. R (group_of key ls k) v \<Longrightarrow> R' (group_of key' ls' k) v' \<Longrightarrow> v = v'"
  shows "m = m'"
proof (rule btree_eqI)
  show "btree_ok m" "btree_ok m'" using assms(1,2) by (simp_all add: groups_def)
  show "map_of m = map_of m'"
  proof
    fix k
    show "map_of m k = map_of m' k"
      using assms(1,2) same[of k] vals[of k]
      by (auto simp: groups_def split: option.splits dest!: spec[of _ k])
  qed
qed

lemma groups_value: "groups key R ls m \<Longrightarrow> map_of m k = Some v \<Longrightarrow> R (group_of key ls k) v"
  by (auto simp: groups_def dest!: spec[of _ k])

lemma groups_found: "groups key R ls m \<Longrightarrow> l \<in> set ls \<Longrightarrow> key l = Some k \<Longrightarrow> \<exists>v. map_of m k = Some v"
  by (auto simp: groups_def group_of_def filter_empty_conv split: option.splits dest!: spec[of _ k])

text \<open>Inserting a default and then updating it is one entry.\<close>

lemma btree_entry_twice:
  "btree_entry k d Inr m = Inr m1 \<Longrightarrow> btree_entry k d f m1 = Inr m2 \<Longrightarrow> btree_entry k d f m = Inr m2"
proof (induction m arbitrary: m1 m2)
  case (Cons p m)
  obtain k' v where p: "p = (k', v)" by (cases p)
  show ?case using Cons.prems Cons.IH by (auto simp: p btree_entry_Cons)
qed (auto simp: btree_entry_Cons)

section \<open>What a line contributes\<close>

definition pay_debit :: "payroll_config \<Rightarrow> pay_line \<Rightarrow> (string \<times> string) option" where
  "pay_debit config line =
     Option.bind (mapping_of_line config line) (\<lambda>mapping.
       if pl_section line = Earning then Some (wages_account config mapping, mp_class mapping)
       else if pl_section line \<in> {EmployerTax, EmployerDeduction} then Some (employer_account config mapping, mp_class mapping)
       else None)"

definition pay_owed :: "pay_line \<Rightarrow> string option" where
  "pay_owed line =
     (if pl_section line \<in> {EmployeeTax, EmployeeDeduction, EmployerTax, EmployerDeduction}
      then Some (trim (pl_item line)) else None)"

definition pay_stated :: "pay_line \<Rightarrow> string option" where
  "pay_stated line = (if pl_section line = NetPay then Some (trim (pl_employee line)) else None)"

definition pay_employee :: "pay_line \<Rightarrow> string option" where
  "pay_employee line = Some (trim (pl_employee line))"

definition pay_cents :: "pay_line \<Rightarrow> int" where
  "pay_cents line = cents (pl_amount line)"

text \<open>What a line adds to its employee's net pay.\<close>

definition net_cents :: "pay_line \<Rightarrow> int" where
  "net_cents line =
     (if pl_section line = Earning then pay_cents line
      else if pl_section line \<in> {EmployeeTax, EmployeeDeduction} then - pay_cents line else 0)"

definition section_cents :: "pay_section set \<Rightarrow> pay_line list \<Rightarrow> int" where
  "section_cents S ls = (\<Sum>line\<leftarrow>ls. if pl_section line \<in> S then pay_cents line else 0)"

definition sum_of :: "pay_line list \<Rightarrow> money \<Rightarrow> bool" where
  "sum_of g v \<longleftrightarrow> cents v = (\<Sum>line\<leftarrow>g. pay_cents line)"

definition net_of :: "pay_line list \<Rightarrow> money \<Rightarrow> bool" where
  "net_of g v \<longleftrightarrow> cents v = (\<Sum>line\<leftarrow>g. net_cents line)"

definition sum_with_items :: "pay_line list \<Rightarrow> money \<times> string list \<Rightarrow> bool" where
  "sum_with_items g = (\<lambda>(v, items). cents v = (\<Sum>line\<leftarrow>g. pay_cents line) \<and>
     sorted items \<and> distinct items \<and> set items = (\<lambda>line. trim (pl_item line)) ` set g)"

lemma section_cents_simps [simp]:
  "section_cents S [] = 0"
  "section_cents S (ls @ [line]) = section_cents S ls + (if pl_section line \<in> S then pay_cents line else 0)"
  by (simp_all add: section_cents_def)

lemma pay_money_Inr [simp]: "pay_money r = Inr x \<longleftrightarrow> r = Inr x"
  by (simp add: pay_money_def)

text \<open>What the tally of the lines read so far is.\<close>

definition tally_ok :: "payroll_config \<Rightarrow> pay_line list \<Rightarrow> pay_sums \<Rightarrow> bool" where
  "tally_ok config ls t \<longleftrightarrow>
     groups (pay_debit config) sum_with_items ls (ps_debits t) \<and>
     groups pay_owed sum_of ls (ps_liabilities t) \<and>
     groups pay_employee net_of ls (ps_computed_net t) \<and>
     groups pay_stated sum_of ls (ps_stated_net t) \<and>
     cents (rt_gross (ps_totals t)) = section_cents {Earning} ls \<and>
     cents (rt_employer_costs (ps_totals t)) = section_cents {EmployerTax, EmployerDeduction} ls \<and>
     cents (rt_noncash (ps_totals t)) = section_cents {NoncashEarning} ls"

lemma debit_wages_groups:
  assumes "groups (pay_debit config) sum_with_items ls debits" "pay_debit config line = Some (account, mp_class mapping)"
    and "debit_wages mapping line account debits = Inr debits'"
  shows "groups (pay_debit config) sum_with_items (ls @ [line]) debits'"
  using assms(1,2,3)[unfolded debit_wages_def]
proof (rule groups_step)
  fix g v v'
  assume "sum_with_items g v"
    and "(case v of (amount, items) \<Rightarrow> and_then (pay_money (checked_add amount (pl_amount line)))
        (\<lambda>amount. Inr (amount, btree_set_add (trim (pl_item line)) items))) = Inr v'"
  then show "sum_with_items (g @ [line]) v'"
    by (auto simp: sum_with_items_def pay_cents_def checked_add_Inr btree_set_add_sorted split: prod.splits)
qed (simp add: sum_with_items_def)

lemma owe_groups:
  assumes "groups pay_owed sum_of ls owed" "pay_owed line = Some (trim (pl_item line))" "owe line owed = Inr owed'"
  shows "groups pay_owed sum_of (ls @ [line]) owed'"
  using assms(1,2,3)[unfolded owe_def]
  by (rule groups_step) (auto simp: sum_of_def pay_cents_def checked_add_Inr)

lemma net_changed_groups:
  assumes "groups pay_employee net_of ls nets" "net_changed Inr line nets = Inr nets1" "net_changed change line nets1 = Inr nets2"
    and change: "\<And>v v'. change v = Inr v' \<Longrightarrow> cents v' = cents v + net_cents line"
  shows "groups pay_employee net_of (ls @ [line]) nets2"
proof -
  have first: "btree_entry (trim (pl_employee line)) ZERO (Inr :: money \<Rightarrow> money pay_res) nets = Inr nets1"
    using assms(2) by (simp add: net_changed_def pay_money_def)
  have one: "btree_entry (trim (pl_employee line)) ZERO (\<lambda>net. pay_money (change net)) nets = Inr nets2"
    by (rule btree_entry_twice[OF first assms(3)[unfolded net_changed_def]])
  show ?thesis
    by (rule groups_step[OF assms(1) _ one]) (auto simp: pay_employee_def net_of_def dest!: change)
qed

lemma net_unchanged_groups:
  "groups pay_employee net_of ls nets \<Longrightarrow> net_changed Inr line nets = Inr nets1 \<Longrightarrow> net_cents line = 0 \<Longrightarrow>
    groups pay_employee net_of (ls @ [line]) nets1"
  unfolding net_changed_def by (erule groups_step) (auto simp: pay_employee_def net_of_def)

lemma stated_groups:
  assumes "groups pay_stated sum_of ls stated" "pl_section line = NetPay"
    and "net_changed (\<lambda>stated. checked_add stated (pl_amount line)) line stated = Inr stated'"
  shows "groups pay_stated sum_of (ls @ [line]) stated'"
  using assms(1) _ assms(3)[unfolded net_changed_def]
  by (rule groups_step) (auto simp: pay_stated_def assms(2) sum_of_def pay_cents_def checked_add_Inr)

lemma pay_figure_tally:
  assumes ok: "tally_ok config ls t" and run: "pay_figure config t line = Inr t'"
  shows "tally_ok config (ls @ [line]) t'"
proof -
  obtain nets where nets: "net_changed Inr line (ps_computed_net t) = Inr nets"
    using run by (auto simp: pay_figure_def)
  note G = ok[unfolded tally_ok_def]
  define t1 where "t1 = t\<lparr>ps_computed_net := nets\<rparr>"
  have t1: "ps_debits t1 = ps_debits t" "ps_liabilities t1 = ps_liabilities t" "ps_stated_net t1 = ps_stated_net t"
    "ps_totals t1 = ps_totals t" "ps_computed_net t1 = nets" by (simp_all add: t1_def)
  note still = net_unchanged_groups[OF _ nets]
  note moved = net_changed_groups[OF _ nets]
  show ?thesis
  proof (cases "pl_section line = NetPay")
    case True
    then obtain stated where st: "net_changed (\<lambda>stated. checked_add stated (pl_amount line)) line (ps_stated_net t) = Inr stated"
      "t' = t1\<lparr>ps_stated_net := stated\<rparr>"
      using run nets by (auto simp: pay_figure_def Let_def t1_def)
    have no: "pay_debit config line = None" "pay_owed line = None" "net_cents line = 0"
      using True by (auto simp: pay_debit_def pay_owed_def net_cents_def split: Option.bind_splits)
    show ?thesis
      using G stated_groups[OF _ True st(1)] still[OF _ no(3)]
      by (simp add: tally_ok_def st(2) t1 groups_other no True)
  next
    case False
    then obtain mapping where mapping: "mapping_of_line config line = Some mapping"
      using run by (auto simp: pay_figure_def Let_def)
    have unstated: "pay_stated line = None" using False by (simp add: pay_stated_def)
    have run1: "(case pl_section line of
         Earning \<Rightarrow> pay_earning config mapping line t1
       | NoncashEarning \<Rightarrow> pay_noncash line t1
       | EmployeeTax \<Rightarrow> pay_withholding line t1
       | EmployeeDeduction \<Rightarrow> pay_withholding line t1
       | EmployerTax \<Rightarrow> pay_employer_cost config mapping line t1
       | EmployerDeduction \<Rightarrow> pay_employer_cost config mapping line t1
       | NetPay \<Rightarrow> Inl Panic) = Inr t'"
      using run nets False mapping unfolding t1_def by (simp add: pay_figure_def Let_def)
    consider (earning) "pl_section line = Earning" | (noncash) "pl_section line = NoncashEarning"
      | (withheld) "pl_section line \<in> {EmployeeTax, EmployeeDeduction}"
      | (employer) "pl_section line \<in> {EmployerTax, EmployerDeduction}"
      using False by (cases "pl_section line") auto
    then show ?thesis
    proof cases
      case earning
      then obtain debits nets2 gross where r:
        "debit_wages mapping line (wages_account config mapping) (ps_debits t) = Inr debits"
        "net_changed (\<lambda>net. checked_add net (pl_amount line)) line nets = Inr nets2"
        "checked_add (rt_gross (ps_totals t)) (pl_amount line) = Inr gross"
        "t' = t1\<lparr>ps_debits := debits, ps_computed_net := nets2, ps_totals := (ps_totals t)\<lparr>rt_gross := gross\<rparr>\<rparr>"
        using run1 by (auto simp: pay_earning_def t1)
      have keys: "pay_debit config line = Some (wages_account config mapping, mp_class mapping)" "pay_owed line = None"
        using earning by (simp_all add: pay_debit_def pay_owed_def mapping)
      have "groups pay_employee net_of (ls @ [line]) nets2"
        using G earning by (intro moved[OF _ r(2)]) (simp_all add: checked_add_Inr net_cents_def pay_cents_def)
      then show ?thesis
        using G debit_wages_groups[OF _ keys(1) r(1)] r(3)
        by (simp add: tally_ok_def r(4) t1 groups_other keys(2) unstated earning checked_add_Inr pay_cents_def)
    next
      case noncash
      then obtain nc where r: "checked_add (rt_noncash (ps_totals t)) (pl_amount line) = Inr nc"
        "t' = t1\<lparr>ps_totals := (ps_totals t)\<lparr>rt_noncash := nc\<rparr>\<rparr>"
        using run1 by (auto simp: pay_noncash_def t1)
      have keys: "pay_debit config line = None" "pay_owed line = None" "net_cents line = 0"
        using noncash by (simp_all add: pay_debit_def pay_owed_def mapping net_cents_def)
      show ?thesis
        using G still[OF _ keys(3)] r(1)
        by (simp add: tally_ok_def r(2) t1 groups_other keys(1,2) unstated noncash checked_add_Inr pay_cents_def)
    next
      case withheld
      then obtain owed nets2 where r: "owe line (ps_liabilities t) = Inr owed"
        "net_changed (\<lambda>net. checked_sub net (pl_amount line)) line nets = Inr nets2"
        "t' = t1\<lparr>ps_liabilities := owed, ps_computed_net := nets2\<rparr>"
        using run1 by (auto simp: pay_withholding_def t1)
      have keys: "pay_debit config line = None" "pay_owed line = Some (trim (pl_item line))"
        using withheld by (auto simp: pay_debit_def pay_owed_def mapping)
      have "groups pay_employee net_of (ls @ [line]) nets2"
        using G withheld by (intro moved[OF _ r(2)]) (auto simp: checked_sub_Inr net_cents_def pay_cents_def)
      then show ?thesis
        using G owe_groups[OF _ keys(2) r(1)] withheld
        by (auto simp add: tally_ok_def r(3) t1 groups_other keys(1) unstated)
    next
      case employer
      then obtain debits owed costs where r:
        "debit_wages mapping line (employer_account config mapping) (ps_debits t) = Inr debits"
        "owe line (ps_liabilities t) = Inr owed"
        "checked_add (rt_employer_costs (ps_totals t)) (pl_amount line) = Inr costs"
        "t' = t1\<lparr>ps_debits := debits, ps_liabilities := owed, ps_totals := (ps_totals t)\<lparr>rt_employer_costs := costs\<rparr>\<rparr>"
        using run1 by (auto simp: pay_employer_cost_def t1)
      have keys: "pay_debit config line = Some (employer_account config mapping, mp_class mapping)"
        "pay_owed line = Some (trim (pl_item line))" "net_cents line = 0"
        using employer by (auto simp: pay_debit_def pay_owed_def mapping net_cents_def)
      show ?thesis
        using G debit_wages_groups[OF _ keys(1) r(1)] owe_groups[OF _ keys(2) r(2)] still[OF _ keys(3)] r(3) employer
        by (auto simp add: tally_ok_def r(4) t1 groups_other unstated checked_add_Inr pay_cents_def)
    qed
  qed
qed

lemma tally_fold:
  assumes "try_fold (pay_figure config) no_sums ls = Inr t"
  shows "tally_ok config ls t"
  using assms
proof (induction ls arbitrary: t rule: rev_induct)
  case Nil
  then show ?case by (auto simp: no_sums_def no_totals_def tally_ok_def groups_Nil)
next
  case (snoc line ls)
  then obtain u where "try_fold (pay_figure config) no_sums ls = Inr u" "pay_figure config u line = Inr t"
    by (auto simp: try_fold_append)
  then show ?case using pay_figure_tally snoc.IH by blast
qed

section \<open>Sums over groups\<close>

text \<open>The entries of a grouping add up to the lines that have a key.\<close>

lemma groups_sum:
  fixes w :: "'l \<Rightarrow> int" and c :: "'k :: linorder \<times> 'v \<Rightarrow> int"
  assumes "groups key R ls m" and "\<And>k v. R (group_of key ls k) v \<Longrightarrow> c (k, v) = (\<Sum>l\<leftarrow>group_of key ls k. w l)"
  shows "(\<Sum>p\<leftarrow>m. c p) = (\<Sum>l\<leftarrow>ls. if key l = None then 0 else w l)"
proof -
  have ok: "distinct (map fst m)" using assms(1) btree_ok_distinct by (auto simp: groups_def)
  have entry: "c (k, v) = (\<Sum>l\<leftarrow>group_of key ls k. w l)" if "(k, v) \<in> set m" for k v
  proof (rule assms(2))
    have "map_of m k = Some v" using that ok by simp
    then show "R (group_of key ls k) v" by (rule groups_value[OF assms(1)])
  qed
  have keys: "fst ` set m = {k. \<exists>l \<in> set ls. key l = Some k}"
  proof -
    have "k \<in> fst ` set m \<longleftrightarrow> group_of key ls k \<noteq> []" for k
    proof -
      have "k \<in> fst ` set m \<longleftrightarrow> map_of m k \<noteq> None" by (simp add: map_of_eq_None_iff)
      also have "\<dots> \<longleftrightarrow> group_of key ls k \<noteq> []"
        using assms(1) unfolding groups_def by (auto split: option.splits dest!: spec[of _ k])
      finally show ?thesis .
    qed
    then show ?thesis by (auto simp: group_of_def filter_empty_conv)
  qed
  have "(\<Sum>p\<leftarrow>m. c p) = (\<Sum>p\<leftarrow>m. (\<Sum>l\<leftarrow>ls. if key l = Some (fst p) then w l else 0))"
    using entry by (intro arg_cong[where f = sum_list] map_cong) (auto simp: group_of_def sum_list_map_filter')
  also have "\<dots> = (\<Sum>k\<leftarrow>map fst m. (\<Sum>l\<leftarrow>ls. if key l = Some k then w l else 0))"
    by (simp add: o_def)
  also have "\<dots> = (\<Sum>k \<in> fst ` set m. (\<Sum>l\<leftarrow>ls. if key l = Some k then w l else 0))"
    by (subst sum_list_distinct_conv_sum_set[OF ok]) simp
  also have "\<dots> = (\<Sum>l\<leftarrow>ls. if key l = None then 0 else w l)"
    unfolding keys
  proof -
    have "set xs \<subseteq> set ls \<Longrightarrow> (\<Sum>k | \<exists>l\<in>set ls. key l = Some k. \<Sum>l\<leftarrow>xs. if key l = Some k then w l else 0) =
        (\<Sum>l\<leftarrow>xs. if key l = None then 0 else w l)" for xs
    proof (induction xs)
      case (Cons l xs)
      have fin: "finite {k. \<exists>l\<in>set ls. key l = Some k}"
        by (rule finite_subset[of _ "(the \<circ> key) ` set ls"]) force+
      have "(\<Sum>k | \<exists>l\<in>set ls. key l = Some k. if key l = Some k then w l else 0) = (if key l = None then 0 else w l)"
      proof (cases "key l")
        case (Some k)
        then have "k \<in> {k. \<exists>l\<in>set ls. key l = Some k}" using Cons.prems by auto
        then show ?thesis using fin by (simp add: Some sum.delta')
      qed simp
      then show ?case using Cons by (simp add: sum.distrib)
    qed simp
    then show "(\<Sum>k | \<exists>l\<in>set ls. key l = Some k. \<Sum>l\<leftarrow>ls. if key l = Some k then w l else 0) =
        (\<Sum>l\<leftarrow>ls. if key l = None then 0 else w l)" by simp
  qed
  finally show ?thesis .
qed

section \<open>The document's legs\<close>

definition journal_weight :: "account_id \<Rightarrow> doc_line \<Rightarrow> int" where
  "journal_weight a line =
     (if dl_kind line = Journal \<and> dl_account line = Some a then
        (case dl_posting line of Some Debit \<Rightarrow> cents (dl_amount line) | Some Credit \<Rightarrow> - cents (dl_amount line) | None \<Rightarrow> 0)
      else 0)"

lemma journal_legs_net:
  assumes "try_fold (journal_leg doc) [] ls = Inr legs"
  shows "leg_net a legs = (\<Sum>line\<leftarrow>ls. journal_weight a line)"
proof -
  have "leg_net a legs = leg_net a [] + (\<Sum>line\<leftarrow>ls. journal_weight a line)"
    using assms
    by (rule try_fold_weighted[where v = "leg_net a"])
      (auto simp: journal_leg_def journal_weight_def signed_def is_zero_cents split: if_splits side.splits option.splits)
  then show ?thesis by simp
qed

lemma sum_enumerate: "(\<Sum>x\<leftarrow>map (\<lambda>(n, l). g n l) (enumerate k xs). (w x :: int)) = (\<Sum>l\<leftarrow>xs. h l)"
  if "\<And>n l. l \<in> set xs \<Longrightarrow> w (g n l) = h l"
  using that by (induction xs arbitrary: k) auto

definition pay_weight :: "string \<Rightarrow> string \<times> string option \<times> side \<times> money \<times> string \<Rightarrow> int" where
  "pay_weight a = (\<lambda>(account, _, side, amount, _).
     if account = a then (case side of Debit \<Rightarrow> cents amount | Credit \<Rightarrow> - cents amount) else 0)"

lemma pay_doc_lines_weight:
  "(\<Sum>line\<leftarrow>pay_doc_lines config t net_pay. journal_weight (AccountId a) line) =
     (\<Sum>p\<leftarrow>ps_debits t. if fst (fst p) = a then cents (fst (snd p)) else 0) -
     (if a = pc_liabilities_account config then (\<Sum>p\<leftarrow>ps_liabilities t. cents (snd p)) else 0) -
     (if a = pc_bank_account config then cents net_pay else 0)"
proof -
  have "journal_weight (AccountId a) (pay_doc_line n l) = pay_weight a l" for n l
    by (cases l) (auto simp: journal_weight_def pay_doc_line_def pay_weight_def split: side.split)
  note sum = sum_enumerate[where w = "journal_weight (AccountId a)" and g = pay_doc_line, OF this]
  have neg: "(\<Sum>p\<leftarrow>ps. - (f p :: int)) = - (\<Sum>p\<leftarrow>ps. f p)" for f :: "string \<times> money \<Rightarrow> int" and ps
    by (induction ps) simp_all
  show ?thesis
    unfolding pay_doc_lines_def sum
    by (simp add: pay_weight_def o_def case_prod_beta neg cong: if_cong)
qed

section \<open>The whole document\<close>

text \<open>What the lines of a run move on an account before the liabilities and the bank.\<close>

definition debit_cents_on :: "payroll_config \<Rightarrow> string \<Rightarrow> pay_line list \<Rightarrow> int" where
  "debit_cents_on config a ls =
     (\<Sum>line\<leftarrow>ls. case pay_debit config line of Some (account, _) \<Rightarrow> if account = a then pay_cents line else 0 | None \<Rightarrow> 0)"

definition owed_cents :: "pay_line list \<Rightarrow> int" where
  "owed_cents ls = section_cents {EmployeeTax, EmployeeDeduction, EmployerTax, EmployerDeduction} ls"

definition run_net_cents :: "pay_line list \<Rightarrow> int" where
  "run_net_cents ls = (\<Sum>line\<leftarrow>ls. net_cents line)"

lemma tally_sums:
  assumes "tally_ok config ls t"
  shows "(\<Sum>p\<leftarrow>ps_debits t. if fst (fst p) = a then cents (fst (snd p)) else 0) = debit_cents_on config a ls"
    and "(\<Sum>p\<leftarrow>ps_liabilities t. cents (snd p)) = owed_cents ls"
    and "(\<Sum>p\<leftarrow>ps_computed_net t. cents (snd p)) = run_net_cents ls"
proof -
  note G = assms[unfolded tally_ok_def]
  have in_group: "l \<in> set (group_of key ls k) \<Longrightarrow> key l = Some k" for l k and key :: "pay_line \<Rightarrow> 'k option"
    by (simp add: group_of_def)
  have zero: "(\<Sum>l\<leftarrow>xs. 0 :: int) = 0" for xs :: "pay_line list" by (induction xs) simp_all
  let ?w = "\<lambda>l. case pay_debit config l of Some (account, _) \<Rightarrow> if account = a then pay_cents l else 0 | None \<Rightarrow> 0"
  have "(\<Sum>p\<leftarrow>ps_debits t. if fst (fst p) = a then cents (fst (snd p)) else 0) =
      (\<Sum>l\<leftarrow>ls. if pay_debit config l = None then 0 else ?w l)"
  proof (rule groups_sum[OF conjunct1[OF G]])
    fix k v assume R: "sum_with_items (group_of (pay_debit config) ls k) v"
    have "(\<Sum>l\<leftarrow>group_of (pay_debit config) ls k. ?w l) =
        (\<Sum>l\<leftarrow>group_of (pay_debit config) ls k. if fst k = a then pay_cents l else 0)"
      by (intro arg_cong[where f = sum_list] map_cong) (auto dest!: in_group split: prod.splits)
    also have "\<dots> = (if fst k = a then \<Sum>l\<leftarrow>group_of (pay_debit config) ls k. pay_cents l else 0)"
      by (simp add: zero)
    finally show "(if fst (fst (k, v)) = a then cents (fst (snd (k, v))) else 0) = (\<Sum>l\<leftarrow>group_of (pay_debit config) ls k. ?w l)"
      using R by (simp add: sum_with_items_def case_prod_beta)
  qed
  then show "(\<Sum>p\<leftarrow>ps_debits t. if fst (fst p) = a then cents (fst (snd p)) else 0) = debit_cents_on config a ls"
    unfolding debit_cents_on_def
    by (simp add: if_distrib cong: if_cong) (intro arg_cong[where f = sum_list] map_cong, auto split: option.split)
  have "(\<Sum>p\<leftarrow>ps_liabilities t. cents (snd p)) = (\<Sum>l\<leftarrow>ls. if pay_owed l = None then 0 else pay_cents l)"
    by (rule groups_sum[where R = sum_of]) (use G in \<open>auto simp: sum_of_def\<close>)
  also have "\<dots> = owed_cents ls"
    unfolding owed_cents_def section_cents_def
    by (intro arg_cong[where f = sum_list] map_cong) (auto simp: pay_owed_def)
  finally show "(\<Sum>p\<leftarrow>ps_liabilities t. cents (snd p)) = owed_cents ls" .
  have "(\<Sum>p\<leftarrow>ps_computed_net t. cents (snd p)) = (\<Sum>l\<leftarrow>ls. if pay_employee l = None then 0 else net_cents l)"
    by (rule groups_sum[where R = net_of]) (use G in \<open>auto simp: net_of_def\<close>)
  then show "(\<Sum>p\<leftarrow>ps_computed_net t. cents (snd p)) = run_net_cents ls"
    by (simp add: run_net_cents_def pay_employee_def)
qed

end
