(* ===== verification/Payroll_Outcome.thy ===== *)
theory Payroll_Outcome
  imports Payroll_Facts "HOL-Library.Multiset"
begin

text \<open>
  What a pay run comes to in the books: its figures by account, the check of every stated net pay,
  that the document knows sums and items and nothing of who was paid, and that a file written row by
  row is read back.
\<close>

section \<open>The document of a run\<close>

lemma journal_document_steps:
  assumes "journal_document E run config = Inr (doc, totals)"
  obtains t where "try_fold (pay_figure config) no_sums (pr_lines run) = Inr t" "tally_ok config (pr_lines run) t"
    "check_net_pay run t = Inr ()" "cents (rt_net_pay totals) = run_net_cents (pr_lines run)"
    "cents (rt_liabilities totals) = owed_cents (pr_lines run)"
    "totals = (ps_totals t)\<lparr>rt_net_pay := rt_net_pay totals, rt_liabilities := rt_liabilities totals\<rparr>"
    "doc = pay_document E config run (pay_doc_lines config t (rt_net_pay totals))" "0 \<le> run_net_cents (pr_lines run)"
proof -
  from assms obtain t net_pay liabilities where r:
    "try_fold (pay_figure config) no_sums (pr_lines run) = Inr t" "check_net_pay run t = Inr ()"
    "checked_sum (map snd (ps_computed_net t)) = Inr net_pay" "checked_sum (map snd (ps_liabilities t)) = Inr liabilities"
    "\<not> is_negative net_pay" "totals = (ps_totals t)\<lparr>rt_net_pay := net_pay, rt_liabilities := liabilities\<rparr>"
    "doc = pay_document E config run (pay_doc_lines config t net_pay)"
    by (auto simp: journal_document_def Let_def split: if_splits)
  have t: "tally_ok config (pr_lines run) t" by (rule tally_fold[OF r(1)])
  have tot: "rt_net_pay totals = net_pay" "rt_liabilities totals = liabilities" by (simp_all add: r(6))
  have sums: "cents net_pay = run_net_cents (pr_lines run)" "cents liabilities = owed_cents (pr_lines run)"
    using checked_sum_cents[OF r(3)] checked_sum_cents[OF r(4)] tally_sums(2,3)[OF t] by (simp_all add: o_def)
  show thesis
    by (rule that[of t]) (use r t sums in \<open>auto simp: tot is_negative_cents\<close>)
qed


text \<open>
  C31. No stated net pay goes unchecked. Where a run that becomes a document states the net pay of an
  employee, the figures stated for that employee add up to earnings less withholdings
  and deductions, to the cent; non-cash earnings and employer costs are no part of it.
\<close>

theorem a_stated_net_pay_is_checked:
  assumes "journal_document E run config = Inr (doc, totals)"
    and "line \<in> set (pr_lines run)" and "pl_section line = NetPay"
  shows "(\<Sum>l\<leftarrow>filter (\<lambda>l. pl_section l = NetPay \<and> trim (pl_employee l) = trim (pl_employee line)) (pr_lines run). pay_cents l) =
    (\<Sum>l\<leftarrow>filter (\<lambda>l. trim (pl_employee l) = trim (pl_employee line)) (pr_lines run). net_cents l)"
proof -
  let ?e = "trim (pl_employee line)"
  obtain t where t: "tally_ok config (pr_lines run) t" "check_net_pay run t = Inr ()"
    by (rule journal_document_steps[OF assms(1)]) (rule that)
  note G = t(1)[unfolded tally_ok_def]
  obtain stated where stated: "map_of (ps_stated_net t) ?e = Some stated"
    using groups_found[of pay_stated sum_of "pr_lines run" "ps_stated_net t" line ?e] G assms(2,3) by (auto simp: pay_stated_def)
  obtain computed where computed: "map_of (ps_computed_net t) ?e = Some computed"
    using groups_found[of pay_employee net_of "pr_lines run" "ps_computed_net t" line ?e] G assms(2) by (auto simp: pay_employee_def)
  have "(?e, stated) \<in> set (ps_stated_net t)" using stated by (rule map_of_SomeD)
  then have "stated = computed"
    using t(2) computed by (auto simp: check_net_pay_def Let_def split: if_splits dest!: bspec)
  moreover have "sum_of (group_of pay_stated (pr_lines run) ?e) stated" "net_of (group_of pay_employee (pr_lines run) ?e) computed"
    by (rule groups_value[OF _ stated], simp add: G, rule groups_value[OF _ computed], simp add: G)
  moreover have "group_of pay_stated ls e = filter (\<lambda>l. pl_section l = NetPay \<and> trim (pl_employee l) = e) ls" for ls e
    unfolding group_of_def by (rule filter_cong) (simp_all add: pay_stated_def)
  moreover have "group_of pay_employee ls e = filter (\<lambda>l. trim (pl_employee l) = e) ls" for ls e
    unfolding group_of_def by (rule filter_cong) (simp_all add: pay_employee_def)
  ultimately show ?thesis by (simp add: sum_of_def net_of_def)
qed

section \<open>Who was paid\<close>

text \<open>
  What the books may know of a line: the section, the account and class it is debited to, the item
  and the amount.
\<close>

definition book_figure :: "payroll_config \<Rightarrow> pay_line \<Rightarrow> pay_section \<times> (string \<times> string) option \<times> string \<times> money" where
  "book_figure config line = (pl_section line, pay_debit config line, trim (pl_item line), pl_amount line)"

definition book_figures :: "payroll_config \<Rightarrow> pay_run \<Rightarrow> (pay_section \<times> (string \<times> string) option \<times> string \<times> money) multiset" where
  "book_figures config run = mset (map (book_figure config) (filter (\<lambda>l. pl_section l \<noteq> NetPay) (pr_lines run)))"

text \<open>What only looks at figures is the same for lines with the same figures, in any order.\<close>

lemma figures_group:
  assumes "image_mset f (mset ls) = image_mset f' (mset ls')"
    and "\<And>l. P l \<longleftrightarrow> Q (f l)" "\<And>l. P' l \<longleftrightarrow> Q (f' l)"
  shows "image_mset f (mset (filter P ls)) = image_mset f' (mset (filter P' ls'))"
proof -
  have "image_mset f (mset (filter P ls)) = filter_mset Q (image_mset f (mset ls))"
    by (simp add: assms(2) filter_mset_image_mset mset_filter)
  moreover have "image_mset f' (mset (filter P' ls')) = filter_mset Q (image_mset f' (mset ls'))"
    by (simp add: assms(3) filter_mset_image_mset mset_filter)
  ultimately show ?thesis using assms(1) by simp
qed

lemma figures_sum:
  assumes "image_mset f (mset ls) = image_mset f' (mset ls')" "\<And>l. w l = (v (f l) :: int)" "\<And>l. w' l = v (f' l)"
  shows "(\<Sum>l\<leftarrow>ls. w l) = (\<Sum>l\<leftarrow>ls'. w' l)"
proof -
  have "(\<Sum>l\<leftarrow>ls. w l) = sum_mset (image_mset v (image_mset f (mset ls)))"
    by (simp add: assms(2) sum_mset_sum_list[symmetric] multiset.map_comp o_def)
  also have "\<dots> = (\<Sum>l\<leftarrow>ls'. w' l)"
    by (simp add: assms(1,3) sum_mset_sum_list[symmetric] multiset.map_comp o_def)
  finally show ?thesis .
qed

lemma figures_set:
  assumes "image_mset f (mset ls) = image_mset f' (mset ls')" "\<And>l. w l = v (f l)" "\<And>l. w' l = v (f' l)"
  shows "w ` set ls = w' ` set ls'"
proof -
  have "f ` set ls = f' ` set ls'"
    using arg_cong[OF assms(1), of set_mset] by simp
  then have "v ` (f ` set ls) = v ` (f' ` set ls')" by simp
  then show ?thesis by (simp add: image_image assms(2,3))
qed

lemma paid_groups:
  assumes "\<And>l. pl_section l = NetPay \<Longrightarrow> key l = None"
  shows "group_of key ls k = filter (\<lambda>l. key l = Some k) (filter (\<lambda>l. pl_section l \<noteq> NetPay) ls)"
  unfolding group_of_def filter_filter by (rule filter_cong) (auto dest: assms)

lemma same_group_figures:
  assumes "book_figures config run = book_figures config' run'"
    and "\<And>l. pl_section l = NetPay \<Longrightarrow> key l = None" "\<And>l. pl_section l = NetPay \<Longrightarrow> key' l = None"
    and "\<And>l. key l = v (book_figure config l)" "\<And>l. key' l = v (book_figure config' l)"
  shows "image_mset (book_figure config) (mset (group_of key (pr_lines run) k)) =
    image_mset (book_figure config') (mset (group_of key' (pr_lines run') k))"
proof -
  have "image_mset (book_figure config) (mset (filter (\<lambda>l. pl_section l \<noteq> NetPay) (pr_lines run))) =
      image_mset (book_figure config') (mset (filter (\<lambda>l. pl_section l \<noteq> NetPay) (pr_lines run')))"
    using assms(1) by (simp add: book_figures_def)
  then have "image_mset (book_figure config) (mset (filter (\<lambda>l. key l = Some k) (filter (\<lambda>l. pl_section l \<noteq> NetPay) (pr_lines run)))) =
      image_mset (book_figure config') (mset (filter (\<lambda>l. key' l = Some k) (filter (\<lambda>l. pl_section l \<noteq> NetPay) (pr_lines run'))))"
    by (rule figures_group[where Q = "\<lambda>x. v x = Some k"]) (simp_all only: assms(4,5))
  moreover have "group_of key (pr_lines run) k = filter (\<lambda>l. key l = Some k) (filter (\<lambda>l. pl_section l \<noteq> NetPay) (pr_lines run))"
    by (rule paid_groups) (rule assms(2))
  moreover have "group_of key' (pr_lines run') k = filter (\<lambda>l. key' l = Some k) (filter (\<lambda>l. pl_section l \<noteq> NetPay) (pr_lines run'))"
    by (rule paid_groups) (rule assms(3))
  ultimately show ?thesis by (simp only:)
qed

lemma same_sums:
  assumes "book_figures config run = book_figures config' run'"
    and "\<And>l. pl_section l = NetPay \<Longrightarrow> w l = (0 :: int)"
    and "\<And>l. w l = v (book_figure config l)" "\<And>l. w l = v (book_figure config' l)"
  shows "(\<Sum>l\<leftarrow>pr_lines run. w l) = (\<Sum>l\<leftarrow>pr_lines run'. w l)"
proof -
  have paid: "(\<Sum>l\<leftarrow>ls. w l) = (\<Sum>l\<leftarrow>filter (\<lambda>l. pl_section l \<noteq> NetPay) ls. w l)" for ls
    by (induction ls) (simp_all add: assms(2))
  show ?thesis
    unfolding paid[of "pr_lines run"] paid[of "pr_lines run'"]
    by (rule figures_sum[where v = v, OF _ assms(3,4)]) (use assms(1) in \<open>simp add: book_figures_def\<close>)
qed

lemma same_debits:
  assumes same: "book_figures config run = book_figures config' run'"
    and "groups (pay_debit config) sum_with_items (pr_lines run) m" "groups (pay_debit config') sum_with_items (pr_lines run') m'"
  shows "m = m'"
  using assms(2,3)
proof (rule groups_unique)
  fix k
  have none: "pl_section l = NetPay \<Longrightarrow> pay_debit c l = None" for l c
    by (auto simp: pay_debit_def split: Option.bind_splits)
  let ?g = "group_of (pay_debit config) (pr_lines run) k" and ?g' = "group_of (pay_debit config') (pr_lines run') k"
  have figs: "image_mset (book_figure config) (mset ?g) = image_mset (book_figure config') (mset ?g')"
    by (rule same_group_figures[OF same none none, where v = "\<lambda>(s, d, i, m). d"]) (simp_all add: book_figure_def)
  from arg_cong[OF figs, of size] show "?g = [] \<longleftrightarrow> ?g' = []" by (metis length_0_conv size_image_mset size_mset)
  fix v v' assume vals: "sum_with_items ?g v" "sum_with_items ?g' v'"
  have "(\<Sum>l\<leftarrow>?g. pay_cents l) = (\<Sum>l\<leftarrow>?g'. pay_cents l)"
    by (rule figures_sum[OF figs, where v = "\<lambda>(s, d, i, m). cents m"]) (simp_all add: book_figure_def pay_cents_def)
  moreover have "(\<lambda>line. trim (pl_item line)) ` set ?g = (\<lambda>line. trim (pl_item line)) ` set ?g'"
    by (rule figures_set[OF figs, where v = "\<lambda>(s, d, i, m). i"]) (simp_all add: book_figure_def)
  ultimately show "v = v'"
    using vals by (auto simp: sum_with_items_def cents_inject[symmetric] intro: btree_set_eqI split: prod.splits)
qed

lemma same_liabilities:
  assumes same: "book_figures config run = book_figures config' run'"
    and "groups pay_owed sum_of (pr_lines run) m" "groups pay_owed sum_of (pr_lines run') m'"
  shows "m = m'"
  using assms(2,3)
proof (rule groups_unique)
  fix k
  let ?g = "group_of pay_owed (pr_lines run) k" and ?g' = "group_of pay_owed (pr_lines run') k"
  let ?v = "\<lambda>(s, d, i, m). if s \<in> {EmployeeTax, EmployeeDeduction, EmployerTax, EmployerDeduction} then Some i else None"
  have figs: "image_mset (book_figure config) (mset ?g) = image_mset (book_figure config') (mset ?g')"
    by (rule same_group_figures[OF same, where v = ?v]) (simp_all add: book_figure_def pay_owed_def)
  from arg_cong[OF figs, of size] show "?g = [] \<longleftrightarrow> ?g' = []" by (metis length_0_conv size_image_mset size_mset)
  fix v v' assume vals: "sum_of ?g v" "sum_of ?g' v'"
  have "(\<Sum>l\<leftarrow>?g. pay_cents l) = (\<Sum>l\<leftarrow>?g'. pay_cents l)"
    by (rule figures_sum[OF figs, where v = "\<lambda>(s, d, i, m). cents m"]) (simp_all add: book_figure_def pay_cents_def)
  then show "v = v'" using vals by (simp add: sum_of_def cents_inject[symmetric])
qed

lemma same_section_cents:
  "book_figures config run = book_figures config' run' \<Longrightarrow> NetPay \<notin> S \<Longrightarrow>
    section_cents S (pr_lines run) = section_cents S (pr_lines run')"
  unfolding section_cents_def
  by (erule same_sums[where v = "\<lambda>(s, d, i, m). if s \<in> S then cents m else 0"]) (auto simp: book_figure_def pay_cents_def)

lemma same_net_cents:
  "book_figures config run = book_figures config' run' \<Longrightarrow> run_net_cents (pr_lines run) = run_net_cents (pr_lines run')"
  unfolding run_net_cents_def
  by (erule same_sums[where v = "\<lambda>(s, d, i, m). if s = Earning then cents m
        else if s \<in> {EmployeeTax, EmployeeDeduction} then - cents m else 0"])
    (simp_all add: book_figure_def net_cents_def pay_cents_def)


text \<open>
  C32. The books never learn who was paid. Two runs with the same id and dates whose figures are the
  same, section, account and class, item and amount, whoever they are for and in whatever order,
  become the same document and the same totals: no name, no department and no
  one person's pay is in them.
\<close>

theorem the_books_never_learn_who_was_paid:
  assumes "journal_document E run config = Inr (doc, totals)" and "journal_document E run' config' = Inr (doc', totals')"
    and "book_figures config run = book_figures config' run'"
    and "pr_run_id run' = pr_run_id run" and "pr_pay_date run' = pr_pay_date run"
    and "pr_period_start run' = pr_period_start run" and "pr_period_end run' = pr_period_end run"
    and "pc_bank_account config' = pc_bank_account config"
    and "pc_liabilities_account config' = pc_liabilities_account config"
  shows "doc' = doc \<and> totals' = totals"
proof -
  obtain t where t: "tally_ok config (pr_lines run) t" "cents (rt_net_pay totals) = run_net_cents (pr_lines run)"
    "cents (rt_liabilities totals) = owed_cents (pr_lines run)"
    "totals = (ps_totals t)\<lparr>rt_net_pay := rt_net_pay totals, rt_liabilities := rt_liabilities totals\<rparr>"
    "doc = pay_document E config run (pay_doc_lines config t (rt_net_pay totals))"
    by (rule journal_document_steps[OF assms(1)]) (rule that)
  obtain t' where t': "tally_ok config' (pr_lines run') t'" "cents (rt_net_pay totals') = run_net_cents (pr_lines run')"
    "cents (rt_liabilities totals') = owed_cents (pr_lines run')"
    "totals' = (ps_totals t')\<lparr>rt_net_pay := rt_net_pay totals', rt_liabilities := rt_liabilities totals'\<rparr>"
    "doc' = pay_document E config' run' (pay_doc_lines config' t' (rt_net_pay totals'))"
    by (rule journal_document_steps[OF assms(2)]) (rule that)
  note same = same_section_cents[OF assms(3)]
  have debits: "ps_debits t = ps_debits t'" and liabilities: "ps_liabilities t = ps_liabilities t'"
    using same_debits[OF assms(3)] same_liabilities[OF assms(3)] t(1) t'(1) by (simp_all add: tally_ok_def)
  have net: "rt_net_pay totals' = rt_net_pay totals"
    using same_net_cents[OF assms(3)] by (simp add: cents_inject[symmetric] t(2) t'(2))
  have owed: "rt_liabilities totals' = rt_liabilities totals"
    using same by (simp add: cents_inject[symmetric] t(3) t'(3) owed_cents_def)
  have rest: "rt_gross (ps_totals t') = rt_gross (ps_totals t)" "rt_employer_costs (ps_totals t') = rt_employer_costs (ps_totals t)"
    "rt_noncash (ps_totals t') = rt_noncash (ps_totals t)"
    using t(1) t'(1) same by (simp_all add: cents_inject[symmetric] tally_ok_def)
  have "totals' = totals"
  proof (rule run_totals.equality)
    show "rt_gross totals' = rt_gross totals" by (subst t(4), subst t'(4)) (simp add: rest)
    show "rt_employer_costs totals' = rt_employer_costs totals" by (subst t(4), subst t'(4)) (simp add: rest)
    show "rt_noncash totals' = rt_noncash totals" by (subst t(4), subst t'(4)) (simp add: rest)
  qed (simp_all add: net owed)
  moreover have "doc' = doc"
    unfolding t(5) t'(5)
    by (simp add: pay_document_def pay_doc_lines_def pay_document_id_def Let_def net debits liabilities assms(4-9))
  ultimately show ?thesis by simp
qed

section \<open>A pay run of two\<close>

definition plain_payroll :: payroll_env where
  "plain_payroll =
     \<lparr>pe_debug = True, pe_dec = reference_ops, pe_decimal = (\<lambda>_. None), pe_date = (\<lambda>_ _. None),
      pe_show_date = (\<lambda>_. ''date''), pe_rfc3339 = (\<lambda>_. ''now''), pe_quote = (\<lambda>s. s), pe_to_json = (\<lambda>_. Inr ''{}'')\<rparr>"

definition shop_payroll :: "string \<Rightarrow> string \<Rightarrow> payroll_config" where
  "shop_payroll maker office = default_payroll_config\<lparr>pc_employees :=
     [maker \<mapsto> \<lparr>mp_class = ''foam'', mp_wages_account = None, mp_employer_tax_account = None\<rparr>,
      office \<mapsto> \<lparr>mp_class = ''sign'', mp_wages_account = Some ''6900'', mp_employer_tax_account = None\<rparr>]\<rparr>"

definition figure_line :: "string \<Rightarrow> pay_section \<Rightarrow> string \<Rightarrow> int \<Rightarrow> pay_line" where
  "figure_line employee s item amount =
     \<lparr>pl_employee = employee, pl_department = None, pl_section = s, pl_item = item, pl_amount = money_of amount\<rparr>"

definition run_of_two :: "string \<Rightarrow> string \<Rightarrow> pay_run" where
  "run_of_two maker office =
     \<lparr>pr_run_id = ''77'', pr_pay_date = Ymd 2026 10 2, pr_period_start = None, pr_period_end = None,
      pr_lines =
        [figure_line maker Earning ''REGULAR'' 100000, figure_line maker EmployeeTax ''FED WTH'' 15000,
         figure_line maker EmployerTax ''CO FICA'' 7650, figure_line maker NetPay ''NET'' 85000,
         figure_line office Earning ''SALARY'' 200000, figure_line office EmployeeTax ''FED WTH'' 30000]\<rparr>"

lemma figure_line_sel [simp]:
  "pl_employee (figure_line n s i a) = n" "pl_department (figure_line n s i a) = None"
  "pl_section (figure_line n s i a) = s" "pl_item (figure_line n s i a) = i" "pl_amount (figure_line n s i a) = money_of a"
  by (simp_all add: figure_line_def)

lemma trimmed_names [simp]:
  "trim ''77'' = ''77''" "trim ''ann'' = ''ann''" "trim ''bob'' = ''bob''" "trim ''cy'' = ''cy''" "trim ''deb'' = ''deb''"
  "trim ''REGULAR'' = ''REGULAR''" "trim ''FED WTH'' = ''FED WTH''" "trim ''CO FICA'' = ''CO FICA''" "trim ''SALARY'' = ''SALARY''"
  by (rule trim_printed; simp add: printed_def)+

definition tally_of_two :: "string \<Rightarrow> string \<Rightarrow> pay_sums" where
  "tally_of_two maker office =
     \<lparr>ps_debits = [((''5400'', ''foam''), (money_of 107650, [''CO FICA'', ''REGULAR''])), ((''6900'', ''sign''), (money_of 200000, [''SALARY'']))],
      ps_liabilities = [(''CO FICA'', money_of 7650), (''FED WTH'', money_of 45000)],
      ps_computed_net = [(maker, money_of 85000), (office, money_of 170000)], ps_stated_net = [(maker, money_of 85000)],
      ps_totals = \<lparr>rt_gross = money_of 300000, rt_employer_costs = money_of 7650, rt_liabilities = ZERO,
        rt_net_pay = ZERO, rt_noncash = ZERO\<rparr>\<rparr>"

lemma two_tally:
  "try_fold (pay_figure (shop_payroll ''ann'' ''bob'')) no_sums (pr_lines (run_of_two ''ann'' ''bob'')) = Inr (tally_of_two ''ann'' ''bob'')"
  "try_fold (pay_figure (shop_payroll ''cy'' ''deb'')) no_sums (pr_lines (run_of_two ''cy'' ''deb'')) = Inr (tally_of_two ''cy'' ''deb'')"
  by (simp_all add: run_of_two_def pay_figure_def net_changed_def no_sums_def no_totals_def shop_payroll_def default_payroll_config_def
      mapping_of_line_def pay_earning_def pay_withholding_def pay_employer_cost_def wages_account_def employer_account_def debit_wages_def owe_def
      checked_eqs money_try_def pay_money_def btree_set_add_def chart_numbers tally_of_two_def btree_entry.simps(2) in_i64_def insort_insert_key_def)

definition totals_of_two :: run_totals where
  "totals_of_two =
     \<lparr>rt_gross = money_of 300000, rt_employer_costs = money_of 7650, rt_liabilities = money_of 52650,
      rt_net_pay = money_of 255000, rt_noncash = ZERO\<rparr>"

definition document_of_two :: ledger_document where
  "document_of_two =
     pay_document plain_payroll default_payroll_config (run_of_two [] [])
       (pay_doc_lines default_payroll_config (tally_of_two [] []) (money_of 255000))"

lemma two_unmapped:
  "unmapped_names plain_payroll (shop_payroll ''ann'' ''bob'') (pr_lines (run_of_two ''ann'' ''bob'')) = []"
  "unmapped_names plain_payroll (shop_payroll ''cy'' ''deb'') (pr_lines (run_of_two ''cy'' ''deb'')) = []"
  by (simp_all add: unmapped_names_def run_of_two_def shop_payroll_def mapping_of_line_def)

lemma two_sums:
  "checked_sum [money_of 85000, money_of 170000] = Inr (money_of 255000)"
  "checked_sum [money_of 7650, money_of 45000] = Inr (money_of 52650)"
  by (simp_all add: checked_sum_def checked_eqs in_i64_def)

lemma two_documents:
  "journal_document plain_payroll (run_of_two ''ann'' ''bob'') (shop_payroll ''ann'' ''bob'') = Inr (document_of_two, totals_of_two)"
  "journal_document plain_payroll (run_of_two ''cy'' ''deb'') (shop_payroll ''cy'' ''deb'') = Inr (document_of_two, totals_of_two)"
proof -
  note defs = journal_document_def two_unmapped two_tally check_net_pay_def Let_def two_sums pay_money_def is_negative_cents is_zero_cents
    totals_of_two_def document_of_two_def pay_document_def pay_document_id_def pay_doc_lines_def
  show "journal_document plain_payroll (run_of_two ''ann'' ''bob'') (shop_payroll ''ann'' ''bob'') = Inr (document_of_two, totals_of_two)"
    by (simp add: defs) (simp add: tally_of_two_def two_sums run_of_two_def in_i64_def shop_payroll_def)
  show "journal_document plain_payroll (run_of_two ''cy'' ''deb'') (shop_payroll ''cy'' ''deb'') = Inr (document_of_two, totals_of_two)"
    by (simp add: defs) (simp add: tally_of_two_def two_sums run_of_two_def in_i64_def shop_payroll_def)
qed


definition lines_of_two :: "journal_line list" where
  "lines_of_two =
     [(debit_line 1 (acct ''5400'') (money_of 107650))\<lparr>jl_class := Some (ClassId ''foam'')\<rparr>,
      (debit_line 2 (acct ''6900'') (money_of 200000))\<lparr>jl_class := Some (ClassId ''sign'')\<rparr>,
      credit_line 3 (acct ''2400'') (money_of 52650),
      credit_line 4 (acct ''1100'') (money_of 255000)]"

lemma two_legs:
  "\<exists>legs. post_legs reference_ops document_of_two default_context = Inr legs \<and> merge_legs legs = Inr lines_of_two"
  by (simp add: document_of_two_def pay_document_def pay_doc_lines_def pay_doc_line_def tally_of_two_def lines_of_two_def
      default_payroll_config_def Let_def post_eval rule_evals resolve_class_def or_else_def)

lemma two_posts: "post dbg reference_ops document_of_two v default_context = Inr (Entry (entry_of document_of_two v lines_of_two))"
proof -
  have "is_balanced (entry_of document_of_two v lines_of_two)"
    by (simp add: is_balanced_iff entry_of_def well_balanced_def one_sided_def lines_of_two_def
        debit_cents_def credit_cents_def debit_line_def credit_line_def in_i64_def)
  moreover have "doc_kind document_of_two = JournalEntry" "\<not> doc_is_voided document_of_two"
    by (simp_all add: document_of_two_def pay_document_def Let_def)
  ultimately show ?thesis
    using two_legs by (auto simp: post_Entry_iff apply_void_def posts_def lines_of_two_def)
qed


theorem a_stated_net_pay_is_checked_witness:
  "(\<Sum>l\<leftarrow>filter (\<lambda>l. pl_section l = NetPay \<and> trim (pl_employee l) = ''ann'') (pr_lines (run_of_two ''ann'' ''bob'')). pay_cents l) = 85000 \<and>
   (\<Sum>l\<leftarrow>filter (\<lambda>l. trim (pl_employee l) = ''ann'') (pr_lines (run_of_two ''ann'' ''bob'')). net_cents l) = 85000"
proof -
  have "(\<Sum>l\<leftarrow>filter (\<lambda>l. pl_section l = NetPay \<and> trim (pl_employee l) = ''ann'') (pr_lines (run_of_two ''ann'' ''bob'')). pay_cents l) = 85000"
    by (simp add: run_of_two_def pay_cents_def in_i64_def)
  moreover have "figure_line ''ann'' NetPay ''NET'' 85000 \<in> set (pr_lines (run_of_two ''ann'' ''bob''))"
    by (simp add: run_of_two_def)
  ultimately show ?thesis
    using a_stated_net_pay_is_checked[OF two_documents(1), of "figure_line ''ann'' NetPay ''NET'' 85000"] by simp
qed

theorem the_books_never_learn_who_was_paid_witness:
  "\<exists>doc totals. journal_document plain_payroll (run_of_two ''ann'' ''bob'') (shop_payroll ''ann'' ''bob'') = Inr (doc, totals) \<and>
    journal_document plain_payroll (run_of_two ''cy'' ''deb'') (shop_payroll ''cy'' ''deb'') = Inr (doc, totals)"
proof -
  have figures: "book_figures (shop_payroll ''ann'' ''bob'') (run_of_two ''ann'' ''bob'') =
      book_figures (shop_payroll ''cy'' ''deb'') (run_of_two ''cy'' ''deb'')"
    by (simp add: book_figures_def book_figure_def run_of_two_def pay_debit_def shop_payroll_def mapping_of_line_def
        default_payroll_config_def wages_account_def employer_account_def)
  have "pr_run_id (run_of_two ''cy'' ''deb'') = pr_run_id (run_of_two ''ann'' ''bob'')"
    "pr_pay_date (run_of_two ''cy'' ''deb'') = pr_pay_date (run_of_two ''ann'' ''bob'')"
    "pr_period_start (run_of_two ''cy'' ''deb'') = pr_period_start (run_of_two ''ann'' ''bob'')"
    "pr_period_end (run_of_two ''cy'' ''deb'') = pr_period_end (run_of_two ''ann'' ''bob'')"
    "pc_bank_account (shop_payroll ''cy'' ''deb'') = pc_bank_account (shop_payroll ''ann'' ''bob'')"
    "pc_liabilities_account (shop_payroll ''cy'' ''deb'') = pc_liabilities_account (shop_payroll ''ann'' ''bob'')"
    by (simp_all add: run_of_two_def shop_payroll_def)
  from the_books_never_learn_who_was_paid[OF two_documents figures this] show ?thesis using two_documents by blast
qed

end
