(* ===== verification/Payroll_Import.thy ===== *)
theory Payroll_Import
  imports Payroll_Outcome History
begin

text \<open>
  Importing pay runs again: what a posted run leaves in the book is what the next import looks for,
  other runs do not disturb it, and so a second import of the same file changes nothing.
\<close>

section \<open>Reads after a save and a post\<close>

lemma try_map_cong: "(\<And>x. x \<in> set xs \<Longrightarrow> f x = g x) \<Longrightarrow> try_map f xs = try_map g xs"
  by (induction xs) simp_all

lemma live_reads_journal:
  assumes "db_journal_entries db' = db_journal_entries db" "db_journal_lines db' = db_journal_lines db"
  shows "live_entries_for_document db' c d = live_entries_for_document db c d"
  by (simp add: live_entries_for_document_def entries_for_document_def entry_def lines_of_def assms)

lemma live_of_others:
  assumes "journal_ok db" "(c, i) \<notin> entry_key ` set (db_journal_entries db)" "sorted (map jl_line_no (je_lines e))"
    and "je_source_id e \<noteq> d"
  shows "live_entries_for_document (with_posted c i e now db) c d = live_entries_for_document db c d"
proof -
  have rows: "filter (\<lambda>r. en_company r = c \<and> en_source_id r = d) (db_journal_entries (with_posted c i e now db)) =
      filter (\<lambda>r. en_company r = c \<and> en_source_id r = d) (db_journal_entries db)"
    using assms(4) by simp
  have reads: "entry (with_posted c i e now db) c (en_entry_id r) = entry db c (en_entry_id r)"
    if "r \<in> set (db_journal_entries db)" "en_company r = c" for r
  proof (rule entry_after_posting(2)[OF assms(1-3)])
    show "(c, en_entry_id r) \<noteq> (c, i)" using that assms(2) by (auto simp: entry_key_def image_iff)
  qed
  have "entries_for_document (with_posted c i e now db) c d = entries_for_document db c d"
    unfolding entries_for_document_def Let_def rows
  proof (rule try_map_cong)
    fix x assume "x \<in> set (map en_entry_id (sort_key (\<lambda>e. (en_entry_date e, en_entry_id e))
        (filter (\<lambda>r. en_company r = c \<and> en_source_id r = d) (db_journal_entries db))))"
    then obtain r where r: "r \<in> set (db_journal_entries db)" "en_company r = c" "x = en_entry_id r" by auto
    show "and_then (entry (with_posted c i e now db) c x) (\<lambda>(e, posted). Inr (x, e, posted)) =
        and_then (entry db c x) (\<lambda>(e, posted). Inr (x, e, posted))"
      by (simp add: r(3) reads[OF r(1,2)])
  qed
  then show ?thesis by (simp add: live_entries_for_document_def)
qed

definition unreferenced :: "string \<Rightarrow> db \<Rightarrow> bool" where
  "unreferenced i db \<longleftrightarrow> (\<forall>r \<in> set (db_journal_entries db). en_reversal_of_id r \<noteq> Some i)"

lemma entry_row_reversal:
  "entry db c j = Inr (f, b) \<Longrightarrow> \<exists>r \<in> set (db_journal_entries db). en_reversal_of_id r = je_reversal_of f"
  by (auto simp: entry_def dest!: find_map_Some)

text \<open>A document without live entries that gets one has that one.\<close>

lemma live_after_posting:
  assumes "journal_ok db" "(c, i) \<notin> entry_key ` set (db_journal_entries db)" "sorted (map jl_line_no (je_lines e))"
    and "live_entries_for_document db c (je_source_id e) = Inr []" "je_reversal_of e = None" "unreferenced i db"
  shows "\<exists>live. live_entries_for_document (with_posted c i e now db) c (je_source_id e) = Inr live \<and> live \<noteq> [] \<and> fst (hd live) = i"
proof -
  let ?db' = "with_posted c i e now db" and ?d = "je_source_id e"
  note reads = entry_after_posting[OF assms(1-3)]
  obtain live where live: "live_entries_for_document ?db' c ?d = Inr live" using live_entries_total by blast
  have ids: "document_entry_ids ?db' c ?d = insert i (document_entry_ids db c ?d)"
    by (simp add: document_entry_ids_with_posted)
  have old: "entry ?db' c j = entry db c j" if "j \<noteq> i" for j using reads(2)[of c j] that by simp
  have unref: "je_reversal_of f \<noteq> Some i" if read: "entry ?db' c j = Inr (f, True)" for j f
  proof (cases "j = i")
    case True
    then have "f = e" using read reads(1) by simp
    then show ?thesis using assms(5) by simp
  next
    case False
    then obtain r where "r \<in> set (db_journal_entries db)" "en_reversal_of_id r = je_reversal_of f"
      using read old[OF False] entry_row_reversal[of db c j f True] by auto
    then show ?thesis using assms(6) by (auto simp: unreferenced_def)
  qed
  have none: "j \<notin> fst ` set ([] :: (string \<times> journal_entry) list)" for j by simp
  have "j \<in> fst ` set live \<longleftrightarrow> j = i" for j
  proof (cases "j = i")
    case True
    then show ?thesis using reads(1) ids unref assms(5) by (auto simp: live_entries_ids[OF live])
  next
    case False
    have "j \<notin> fst ` set live"
    proof
      assume "j \<in> fst ` set live"
      then obtain f where f: "entry db c j = Inr (f, True)" "j \<in> document_entry_ids db c ?d" "je_reversal_of f = None"
        and no: "\<not> (\<exists>k g. entry ?db' c k = Inr (g, True) \<and> k \<in> document_entry_ids ?db' c ?d \<and> je_reversal_of g = Some j)"
        using False by (auto simp: live_entries_ids[OF live] ids old)
      have "\<not> (\<exists>k g. entry db c k = Inr (g, True) \<and> k \<in> document_entry_ids db c ?d \<and> je_reversal_of g = Some j)"
      proof clarify
        fix k g assume k: "entry db c k = Inr (g, True)" "k \<in> document_entry_ids db c ?d" "je_reversal_of g = Some j"
        have "k \<noteq> i" using k(2) assms(2) by (auto simp: document_entry_ids_def entry_key_def)
        then have "entry ?db' c k = Inr (g, True) \<and> k \<in> document_entry_ids ?db' c ?d \<and> je_reversal_of g = Some j"
          using k by (simp add: ids old)
        then show False using no by blast
      qed
      then have "j \<in> fst ` set ([] :: (string \<times> journal_entry) list)"
        unfolding live_entries_ids[OF assms(4)] using f by blast
      then show False by simp
    qed
    then show ?thesis using False by simp
  qed
  then have "fst ` set live = {i}" by blast
  then have "live \<noteq> []" by auto
  moreover from this have "fst (hd live) = i" using \<open>fst ` set live = {i}\<close> by (metis imageI list.set_sel(1) singletonD)
  ultimately have "live \<noteq> []" "fst (hd live) = i" by simp_all
  then show ?thesis using live by blast
qed

text \<open>What a save leaves: the new version is the newest of its document, and others are as they were.\<close>

lemma save_document_rows:
  assumes "save_document to_json c doc command command_id now db = (Inr v, db')"
  obtains json row where "to_json doc = Inr json" "dv_payload_json row = json" "dv_document_id row = doc_document_id doc"
    "dv_version row = latest_version_of db c (doc_document_id doc) + 1"
    "db_document_versions db' = db_document_versions db @ [(c, row)]" "db_periods db' = db_periods db"
proof -
  from assms obtain json where json: "to_json doc = Inr json" and db': "db_periods db' = db_periods db"
    "db_document_versions db' = db_document_versions db @ [(c,
       \<lparr>dv_document_id = doc_document_id doc, dv_version = latest_version_of db c (doc_document_id doc) + 1,
        dv_doc_type = doc_kind doc, dv_doc_number = doc_number doc, dv_txn_date = doc_txn_date doc,
        dv_contact_id = map_option cr_id (doc_contact doc), dv_payload_json = json, dv_created_at = now,
        dv_command_id = command_id, dv_source_ref = doc_source_ref doc\<rparr>)]"
    unfolding save_document_def
    by (auto simp: insert_oplog_def insert_document_version_def dest!: insert_unique_Inr)
  show thesis by (rule that[OF json _ _ _ db'(2,1)]) simp_all
qed

lemma newest_after_save:
  assumes "\<And>d. d \<in> set rows \<Longrightarrow> dv_version d < dv_version row"
  shows "newest (rows @ [row]) = Some row"
proof -
  have "sql_max (map dv_version (rows @ [row])) = Some (dv_version row)"
  proof -
    have "Max (insert (dv_version row) (dv_version ` set rows)) = dv_version row"
      by (rule Max_eqI) (use assms in \<open>auto intro: less_imp_le\<close>)
    then show ?thesis by (simp add: sql_max_eq)
  qed
  then show ?thesis
    unfolding newest_def find_map_append using assms
    by (fastforce simp: or_else_def split: option.split dest!: find_map_Some)
qed

lemma latest_payload_after_save:
  assumes "save_document to_json c doc command command_id now db = (Inr v, db')"
  shows "\<exists>json. to_json doc = Inr json \<and> latest_document_payload db' c (doc_document_id doc) = Some json"
    and "d \<noteq> doc_document_id doc \<Longrightarrow> latest_document_payload db' c d = latest_document_payload db c d"
proof -
  obtain json row where r: "to_json doc = Inr json" "dv_payload_json row = json" "dv_document_id row = doc_document_id doc"
    "dv_version row = latest_version_of db c (doc_document_id doc) + 1"
    "db_document_versions db' = db_document_versions db @ [(c, row)]"
    by (rule save_document_rows[OF assms]) (rule that)
  have old: "dv_version d < dv_version row" if "d \<in> set (versions_of db c (doc_document_id doc))" for d
  proof -
    let ?vs = "map dv_version (filter (\<lambda>d. dv_document_id d = doc_document_id doc) (of_company c (db_document_versions db)))"
    have "dv_version d \<in> set ?vs" using that by (simp add: versions_of_def)
    then have "?vs \<noteq> [] \<and> dv_version d \<le> Max (set ?vs)" by (metis List.finite_set Max_ge empty_iff list.set(1))
    then show ?thesis by (simp add: r(4) latest_version_of_def sql_max_eq)
  qed
  have "versions_of db' c (doc_document_id doc) = versions_of db c (doc_document_id doc) @ [row]"
    by (simp add: versions_of_def of_company_def r(3,5))
  then show "\<exists>json. to_json doc = Inr json \<and> latest_document_payload db' c (doc_document_id doc) = Some json"
    using newest_after_save[OF old] by (simp add: latest_document_payload_def r(1,2))
  show "d \<noteq> doc_document_id doc \<Longrightarrow> latest_document_payload db' c d = latest_document_payload db c d"
    by (simp add: latest_document_payload_def versions_of_def of_company_def r(3,5))
qed

section \<open>What an imported run leaves\<close>

text \<open>
  The document's first live entry is this one and its newest version holds these figures: what
  makes the import take the run as already imported.
\<close>

definition imported :: "payroll_env \<Rightarrow> string \<Rightarrow> ledger_document \<Rightarrow> string \<Rightarrow> db \<Rightarrow> bool" where
  "imported E c doc i db \<longleftrightarrow>
     (\<exists>e live. live_entries_for_document db c (doc_document_id doc) = Inr ((i, e) # live)) \<and> same_payload E db c doc"

lemma pay_entry_Inr:
  "pay_entry E run doc version = Inr e \<Longrightarrow> post (pe_debug E) (pe_dec E) doc version default_context = Inr (Entry e)"
  by (auto simp: pay_entry_def split: sum.splits failure.splits posting.splits if_splits)

lemma save_then_post:
  assumes save: "save_document (pe_to_json E) c doc command command_id now db = (Inr version, d1)"
    and entry: "pay_entry E run doc (vi_version version) = Inr e"
    and posted: "post_entry c e i now d1 = (Inr r, db')"
    and sound: "book_sound db" and unref: "unreferenced i db"
    and none: "live_entries_for_document db c (doc_document_id doc) = Inr []"
  shows "r = i" "imported E c doc i db'" "book_sound db'" "db_periods db' = db_periods db"
    "\<And>j. unreferenced j db \<Longrightarrow> unreferenced j db'"
    "\<And>doc' k. imported E c doc' k db \<Longrightarrow> imported E c doc' k db'"
proof -
  note p = pay_entry_Inr[OF entry]
  note source = post_entry_source[OF p]
  note acc = post_entry_accepted[OF posted]
  show "r = i" by (rule acc(1))
  have sound1: "book_sound d1" using obeysD[OF save_document.history save] sound by (simp add: keeps_history_def)
  show "book_sound db'" using obeysD[OF post_entry.history posted] sound1 by (simp add: keeps_history_def)
  have ok: "journal_ok d1" using sound1 by (simp add: book_sound_def)
  have sorted: "sorted (map jl_line_no (je_lines e))"
    using post_entry_facts(2)[OF p] by (auto simp: lines_numbered_def sorted_iff_nth_mono simp del: upt_Suc)
  have rows: "db_journal_entries d1 = db_journal_entries db" "db_journal_lines d1 = db_journal_lines db"
    using save_keeps_journal[OF save] by simp_all
  have unref1: "unreferenced i d1" using unref by (simp add: unreferenced_def rows)
  have live1: "live_entries_for_document d1 c d = live_entries_for_document db c d" for d
    by (rule live_reads_journal[OF rows])
  obtain live where live: "live_entries_for_document db' c (doc_document_id doc) = Inr live" "live \<noteq> []" "fst (hd live) = i"
    using live_after_posting[OF ok acc(7) sorted _ source(4) unref1] none by (auto simp: live1 source(1) acc(2))
  have payload: "latest_document_payload db' c d = latest_document_payload d1 c d" for d
    by (simp add: acc(2) latest_document_payload_def versions_of_def)
  obtain json where json: "pe_to_json E doc = Inr json" "latest_document_payload d1 c (doc_document_id doc) = Some json"
    using latest_payload_after_save(1)[OF save] by blast
  show "imported E c doc i db'"
    using live json by (cases live) (auto simp: imported_def same_payload_def payload)
  obtain json' row where "db_periods d1 = db_periods db" by (rule save_document_rows[OF save]) (rule that)
  then show "db_periods db' = db_periods db" by (simp add: acc(2))
  show "unreferenced j db'" if "unreferenced j db" for j
    using that by (simp add: unreferenced_def acc(2) rows source(4))
  show "imported E c doc' k db'" if imp: "imported E c doc' k db" for doc' k
  proof -
    have other: "doc_document_id doc' \<noteq> doc_document_id doc" using imp none by (auto simp: imported_def)
    then have "live_entries_for_document db' c (doc_document_id doc') = live_entries_for_document db c (doc_document_id doc')"
      using live_of_others[OF ok acc(7) sorted, of "doc_document_id doc'" now] by (simp add: live1 source(1) acc(2))
    moreover have "latest_document_payload db' c (doc_document_id doc') = latest_document_payload db c (doc_document_id doc')"
      using latest_payload_after_save(2)[OF save other] by (simp add: payload)
    ultimately show ?thesis using imp by (simp add: imported_def same_payload_def)
  qed
qed

lemma import_run_step:
  assumes run: "import_run E c actor fresh now outcomes (n, run, doc, totals) db = (Inr outcomes', db')"
    and sound: "book_sound db" and unref: "unreferenced (snd (fresh n)) db"
  shows "\<exists>i status. outcomes' = outcomes @ [run_outcome_of run doc totals status i] \<and> imported E c doc i db'"
    and "book_sound db' \<and> db_periods db' = db_periods db"
    and "unreferenced j db \<Longrightarrow> unreferenced j db'"
    and "imported E c doc' k db \<Longrightarrow> imported E c doc' k db'"
proof -
  obtain live where live: "live_entries_for_document db c (doc_document_id doc) = Inr live" using live_entries_total by blast
  have "(\<exists>i status. outcomes' = outcomes @ [run_outcome_of run doc totals status i] \<and> imported E c doc i db') \<and>
    (book_sound db' \<and> db_periods db' = db_periods db) \<and> (unreferenced j db \<longrightarrow> unreferenced j db') \<and>
    (imported E c doc' k db \<longrightarrow> imported E c doc' k db')"
  proof (cases live)
    case Nil
    with run live obtain version d1 e i where steps:
      "save_document (pe_to_json E) c doc \<lparr>cm_actor_id = actor, cm_kind = ''payroll_import'', cm_hlc = pe_rfc3339 E now\<rparr>
         (fst (fresh n)) now db = (Inr version, d1)"
      "pay_entry E run doc (vi_version version) = Inr e" "post_entry c e (snd (fresh n)) now d1 = (Inr i, db')"
      "outcomes' = outcomes @ [run_outcome_of run doc totals RunPosted i]"
      unfolding import_run_def by auto
    note facts = save_then_post[OF steps(1-3) sound unref live[unfolded Nil]]
    show ?thesis using facts steps(4) by blast
  next
    case (Cons p rest)
    with run live have "same_payload E db c doc" "db' = db"
      "outcomes' = outcomes @ [run_outcome_of run doc totals AlreadyImported (fst p)]"
      unfolding import_run_def by (auto split: if_splits prod.splits)
    moreover have "imported E c doc (fst p) db"
      using live Cons \<open>same_payload E db c doc\<close> by (cases p) (simp add: imported_def)
    ultimately show ?thesis using sound by blast
  qed
  then show "\<exists>i status. outcomes' = outcomes @ [run_outcome_of run doc totals status i] \<and> imported E c doc i db'"
    "book_sound db' \<and> db_periods db' = db_periods db" "unreferenced j db \<Longrightarrow> unreferenced j db'"
    "imported E c doc' k db \<Longrightarrow> imported E c doc' k db'" by blast+
qed

lemma import_run_again:
  "imported E c doc i db \<Longrightarrow>
    import_run E c actor fresh now outcomes (n, run, doc, totals) db =
      (Inr (outcomes @ [run_outcome_of run doc totals AlreadyImported i]), db)"
  by (auto simp: imported_def import_run_def and_run_def lift_run_def reading_def)

text \<open>Every run of the list has its entry at the end, and its outcome names it.\<close>

definition accounts_for :: "payroll_env \<Rightarrow> string \<Rightarrow> db \<Rightarrow> nat \<times> pay_run \<times> ledger_document \<times> run_totals \<Rightarrow> run_outcome \<Rightarrow> bool" where
  "accounts_for E c db = (\<lambda>(_, run, doc, totals) outcome.
     \<exists>i status. outcome = run_outcome_of run doc totals status i \<and> imported E c doc i db)"

lemma accounts_for_kept:
  "accounts_for E c db p o1 \<Longrightarrow> (\<And>doc i. imported E c doc i db \<Longrightarrow> imported E c doc i db') \<Longrightarrow> accounts_for E c db' p o1"
  unfolding accounts_for_def by (auto split: prod.splits)

lemma import_fold:
  assumes "run_fold (import_run E c actor fresh now) outcomes ps db = (Inr outcomes', db')"
    and "book_sound db" "\<And>n. unreferenced (snd (fresh n)) db"
  shows "\<exists>new. outcomes' = outcomes @ new \<and> list_all2 (accounts_for E c db') ps new"
    "db_periods db' = db_periods db" "\<And>doc i. imported E c doc i db \<Longrightarrow> imported E c doc i db'"
proof -
  have "(\<exists>new. outcomes' = outcomes @ new \<and> list_all2 (accounts_for E c db') ps new) \<and>
    db_periods db' = db_periods db \<and> (\<forall>doc i. imported E c doc i db \<longrightarrow> imported E c doc i db')"
    using assms
  proof (induction ps arbitrary: outcomes db)
    case (Cons p ps)
    obtain n run doc totals where p: "p = (n, run, doc, totals)" by (cases p)
    obtain mid d where step: "import_run E c actor fresh now outcomes (n, run, doc, totals) db = (Inr mid, d)"
      and rest: "run_fold (import_run E c actor fresh now) mid ps d = (Inr outcomes', db')"
      using Cons.prems(1) by (auto simp: p)
    note facts = import_run_step[OF step Cons.prems(2,3)]
    obtain i status where mid: "mid = outcomes @ [run_outcome_of run doc totals status i]" "imported E c doc i d"
      using facts(1) by blast
    have IH: "(\<exists>new. outcomes' = mid @ new \<and> list_all2 (accounts_for E c db') ps new) \<and>
        db_periods db' = db_periods d \<and> (\<forall>doc i. imported E c doc i d \<longrightarrow> imported E c doc i db')"
      by (rule Cons.IH[OF rest]) (use facts(2,3) Cons.prems(3) in blast)+
    then obtain new where new: "outcomes' = mid @ new" "list_all2 (accounts_for E c db') ps new" by blast
    have "accounts_for E c db' p (run_outcome_of run doc totals status i)"
      using mid(2) IH by (auto simp: accounts_for_def p)
    then have "outcomes' = outcomes @ (run_outcome_of run doc totals status i # new) \<and>
        list_all2 (accounts_for E c db') (p # ps) (run_outcome_of run doc totals status i # new)"
      using new mid(1) by simp
    then show ?case using IH facts(2,4) by metis
  qed simp
  then show "\<exists>new. outcomes' = outcomes @ new \<and> list_all2 (accounts_for E c db') ps new"
    "db_periods db' = db_periods db" "\<And>doc i. imported E c doc i db \<Longrightarrow> imported E c doc i db'" by blast+
qed

lemma import_fold_again:
  "list_all2 (accounts_for E c db) ps new \<Longrightarrow>
    run_fold (import_run E c actor fresh now) outcomes ps db =
      (Inr (outcomes @ map (\<lambda>x. x\<lparr>ro_status := AlreadyImported\<rparr>) new), db)"
proof (induction ps new arbitrary: outcomes rule: list_all2_induct)
  case (Cons p ps x new)
  obtain n run doc totals where p: "p = (n, run, doc, totals)" by (cases p)
  obtain i status where x: "x = run_outcome_of run doc totals status i" "imported E c doc i db"
    using Cons.hyps(1) by (auto simp: accounts_for_def p)
  show ?case
    using Cons.IH by (simp add: p and_run_def import_run_again[OF x(2)] x(1) run_outcome_of_def)
qed simp

text \<open>
  C33. Importing the same runs again changes nothing. After an import that ended well, another of the same
  runs, by whomever and whenever, reports every run as already imported under the same
  entry and leaves the database as it is. The ids the entries drew are fresh: no entry names one of them as
  the entry it reverses.
\<close>

theorem a_second_import_changes_nothing:
  assumes "book_sound db" and "\<And>n. unreferenced (snd (fresh n)) db"
    and "import_runs E c runs config actor fresh now db = (Inr outcomes, db')"
  shows "import_runs E c runs config actor' fresh' now' db' =
    (Inr (map (\<lambda>x. x\<lparr>ro_status := AlreadyImported\<rparr>) outcomes), db')"
proof -
  obtain built where built: "runs \<noteq> []"
    "try_map (\<lambda>run. and_then (journal_document E run config) (\<lambda>(doc, totals). Inr (run, doc, totals))) runs = Inr built"
    "refuse_closed E c built db = Inr ()"
    "run_fold (import_run E c actor fresh now) [] (enumerate 0 built) db = (Inr outcomes, db')"
    using assms(3) by (auto simp: import_runs_def atomically_def split: if_splits)
  note facts = import_fold[OF built(4) assms(1,2)]
  have "refuse_closed E c built db' = Inr ()"
    using built(3) by (simp add: refuse_closed_def locked_through_periods[OF facts(2)])
  moreover have "run_fold (import_run E c actor' fresh' now') [] (enumerate 0 built) db' =
      (Inr (map (\<lambda>x. x\<lparr>ro_status := AlreadyImported\<rparr>) outcomes), db')"
    using facts(1) import_fold_again[of E c db' "enumerate 0 built" outcomes actor' fresh' now' "[]"] by auto
  ultimately show ?thesis
    using built(1,2) by (simp add: import_runs_def atomically_def write_tx_def and_run_def reading_def)
qed

section \<open>The run of two, imported\<close>

definition payroll_db :: db where
  "payroll_db = empty_db\<lparr>
     db_companies := [(''co'', \<lparr>co_display_name = ''co'', co_realm_id = None, co_created_at = 0\<rparr>)],
     db_accounts := [(''co'', sample_account ''5400'' Expense), (''co'', sample_account ''6900'' Expense),
       (''co'', sample_account ''2400'' Liability), (''co'', sample_account ''1100'' Asset)],
     db_classes := [(''co'', new_class ''foam'' ''foam'' None), (''co'', new_class ''sign'' ''sign'' None)]\<rparr>"

lemma payroll_db_sound: "book_sound payroll_db"
  by (simp add: book_sound_def journal_ok_def posted_balanced_def statement_eval bank_ok_def bank_keys_ok_def
      bank_references_ok_def external_keys_def payroll_db_def sample_db_defs)

definition saved_payroll :: db where
  "saved_payroll = snd (save_document (pe_to_json plain_payroll) ''co'' document_of_two
     \<lparr>cm_actor_id = ''dan'', cm_kind = ''payroll_import'', cm_hlc = ''now''\<rparr> ''c-1'' 9 payroll_db)"

lemmas saving_defs = save_document_def write_tx_def and_run_def reading_def execute_def insert_oplog_def insert_unique_def
  insert_document_version_def latest_version_of_def of_company_def Let_def sql_max_def

lemma document_of_two_sel [simp]:
  "doc_document_id document_of_two = ''payroll:date:77''" "doc_kind document_of_two = JournalEntry"
  "doc_txn_date document_of_two = Ymd 2026 10 2"
  by (simp_all add: document_of_two_def pay_document_def pay_document_id_def plain_payroll_def run_of_two_def Let_def)

lemma saved_payroll_run:
  "save_document (pe_to_json plain_payroll) ''co'' document_of_two
     \<lparr>cm_actor_id = ''dan'', cm_kind = ''payroll_import'', cm_hlc = ''now''\<rparr> ''c-1'' 9 payroll_db =
   (Inr \<lparr>vi_document_id = ''payroll:date:77'', vi_version = 1\<rparr>, saved_payroll)"
  unfolding saved_payroll_def
  by (simp add: prod_eq_iff saving_defs payroll_db_def empty_db_def plain_payroll_def)

lemma payroll_acceptable: "acceptable saved_payroll ''co'' (entry_of document_of_two 1 lines_of_two) ''e-1''"
  unfolding saved_payroll_def
  by (simp add: acceptable_def gate_open_def locked_through_def locked_through_in_def check_class_rule_def
      account_row_in_def company_accounts_def class_exists_in_def document_exists_def is_balanced_iff
      well_balanced_def one_sided_def debit_cents_def credit_cents_def in_i64_def entry_key_def lines_of_two_def
      entry_of_def saving_defs plain_payroll_def payroll_db_def new_class_def sample_db_defs debit_line_def credit_line_def acct_def)

lemma two_imported:
  "\<exists>x db'. import_runs plain_payroll ''co'' [run_of_two ''ann'' ''bob''] (shop_payroll ''ann'' ''bob'') ''dan''
     (\<lambda>_. (''c-1'', ''e-1'')) 9 payroll_db = (Inr [x], db')"
proof -
  have "journal_ok saved_payroll"
    using obeysD[OF save_document.history saved_payroll_run] payroll_db_sound by (simp add: keeps_history_def book_sound_def)
  then have posted: "post_entry ''co'' (entry_of document_of_two 1 lines_of_two) ''e-1'' 9 saved_payroll =
      (Inr ''e-1'', with_posted ''co'' ''e-1'' (entry_of document_of_two 1 lines_of_two) 9 saved_payroll)"
    using post_entry_cases[of saved_payroll "''co''" "entry_of document_of_two 1 lines_of_two" "''e-1''" 9] payroll_acceptable by simp
  have live: "live_entries_for_document payroll_db ''co'' ''payroll:date:77'' = Inr []"
    by (simp add: live_entries_for_document_def entries_for_document_def payroll_db_def empty_db_def map_filter_simps)
  have entry: "pay_entry plain_payroll run document_of_two 1 = Inr (entry_of document_of_two 1 lines_of_two)" for run
  proof -
    have "pe_debug plain_payroll" "pe_dec plain_payroll = reference_ops" "je_is_flagged (entry_of document_of_two 1 lines_of_two)"
      by (simp_all add: plain_payroll_def entry_of_def)
    then show ?thesis using two_posts[of True 1] by (simp add: pay_entry_def)
  qed
  have open_books: "refuse_closed plain_payroll ''co'' built payroll_db = Inr ()" for built
    by (simp add: refuse_closed_def locked_through_def locked_through_in_def of_company_def payroll_db_def empty_db_def sql_max_def)
  have rfc: "pe_rfc3339 plain_payroll 9 = ''now''" by (simp add: plain_payroll_def)
  show ?thesis
    by (simp add: import_runs_def two_documents and_run_def reading_def open_books atomically_def write_tx_def import_run_def
        lift_run_def live saved_payroll_run entry posted rfc)
qed

theorem a_second_import_changes_nothing_witness:
  "\<exists>outcomes db'. outcomes \<noteq> [] \<and> import_runs plain_payroll ''co'' [run_of_two ''ann'' ''bob''] (shop_payroll ''ann'' ''bob'') ''eve''
     (\<lambda>_. (''c-2'', ''e-2'')) 10 db' = (Inr outcomes, db')"
proof -
  obtain x db' where run: "import_runs plain_payroll ''co'' [run_of_two ''ann'' ''bob''] (shop_payroll ''ann'' ''bob'') ''dan''
     (\<lambda>_. (''c-1'', ''e-1'')) 9 payroll_db = (Inr [x], db')" using two_imported by blast
  have "unreferenced i payroll_db" for i by (simp add: unreferenced_def payroll_db_def empty_db_def)
  from a_second_import_changes_nothing[OF payroll_db_sound this run, where actor' = "''eve''" and now' = 10 and fresh' = "\<lambda>_. (''c-2'', ''e-2'')"]
  have again: "import_runs plain_payroll ''co'' [run_of_two ''ann'' ''bob''] (shop_payroll ''ann'' ''bob'') ''eve'' (\<lambda>_. (''c-2'', ''e-2'')) 10 db' =
      (Inr [x\<lparr>ro_status := AlreadyImported\<rparr>], db')" by simp
  then show ?thesis by (intro exI[of _ "[x\<lparr>ro_status := AlreadyImported\<rparr>]"] exI[of _ db']) simp
qed

end
