(* ===== verification/Payroll_File.thy ===== *)
theory Payroll_File
  imports Payroll
begin

text \<open>
  The pay-run file written row by row reads back: every run, in its order, with every line, name and
  amount as it was, commas and quotes in names included.
\<close>

section \<open>Writing a file\<close>

definition pay_fields :: "payroll_env \<Rightarrow> pay_run \<Rightarrow> pay_line \<Rightarrow> string list" where
  "pay_fields E run line =
     [pr_run_id run, pe_show_date E (pr_pay_date run),
      (case pr_period_start run of None \<Rightarrow> [] | Some d \<Rightarrow> pe_show_date E d),
      (case pr_period_end run of None \<Rightarrow> [] | Some d \<Rightarrow> pe_show_date E d),
      pl_employee line, unwrap_or (pl_department line) [], pay_section_as_str (pl_section line), pl_item line,
      display (pl_amount line)]"

definition written_row :: "string list \<Rightarrow> string" where
  "written_row fs = csv_row (map quoted_field fs)"

definition run_rows :: "payroll_env \<Rightarrow> pay_run \<Rightarrow> string list" where
  "run_rows E run = map (\<lambda>line. written_row (pay_fields E run line)) (pr_lines run)"

definition pay_csv :: "payroll_env \<Rightarrow> pay_run list \<Rightarrow> string" where
  "pay_csv E runs = concat (map (\<lambda>row. row @ [line_feed]) (written_row COLUMNS # concat (map (run_rows E) runs)))"

text \<open>
  What is relied on of the readers: a date printed in the ISO form reads back in it, and an
  amount's two decimal places are read exactly.
\<close>

definition readers_ok :: "payroll_env \<Rightarrow> bool" where
  "readers_ok E \<longleftrightarrow> dec_laws (pe_dec E) \<and>
     (\<forall>d. pe_date E ''%Y-%m-%d'' (pe_show_date E d) = Some d \<and> pe_show_date E d \<noteq> [] \<and> text_ok (pe_show_date E d)) \<and>
     (\<forall>m. pe_decimal E (display m) = Some (Decimal (cents m) 2))"

definition line_ok :: "pay_line \<Rightarrow> bool" where
  "line_ok line \<longleftrightarrow> text_ok (pl_employee line) \<and> pl_employee line \<noteq> [] \<and> text_ok (pl_item line) \<and> pl_item line \<noteq> [] \<and>
     (case pl_department line of None \<Rightarrow> True | Some d \<Rightarrow> text_ok d \<and> d \<noteq> [])"

definition run_ok :: "pay_run \<Rightarrow> bool" where
  "run_ok run \<longleftrightarrow> text_ok (pr_run_id run) \<and> pr_run_id run \<noteq> [] \<and> pr_lines run \<noteq> [] \<and> list_all line_ok (pr_lines run)"

section \<open>Fields and rows\<close>

lemma written_row_Cons: "fs \<noteq> [] \<Longrightarrow> \<exists>t. written_row fs = quote_mark # t \<and> last (written_row fs) = quote_mark"
proof (induction fs)
  case (Cons f fs)
  show ?case
  proof (cases fs)
    case Nil
    then show ?thesis by (simp add: written_row_def quoted_field_def)
  next
    case (Cons g gs)
    then have eq: "written_row (f # fs) = quoted_field f @ comma # written_row fs" by (simp add: written_row_def)
    obtain t where "written_row fs = quote_mark # t" "last (written_row fs) = quote_mark" using Cons.IH Cons by auto
    then show ?thesis unfolding eq by (simp add: quoted_field_def)
  qed
qed simp

lemma quoted_no_feed: "line_feed \<notin> set f \<Longrightarrow> line_feed \<notin> set (quoted_field f)"
  by (auto simp: quoted_field_def quote_mark_def line_feed_def)

lemma written_row_no_feed: "(\<And>f. f \<in> set fs \<Longrightarrow> line_feed \<notin> set f) \<Longrightarrow> line_feed \<notin> set (written_row fs)"
proof (induction fs)
  case (Cons f fs)
  then show ?case
    by (cases fs) (auto simp: written_row_def comma_def line_feed_def dest: quoted_no_feed[unfolded line_feed_def])
qed (simp add: written_row_def)

lemma split_written_row: "fs \<noteq> [] \<Longrightarrow> split_csv_line (written_row fs) = fs"
  unfolding written_row_def
  by (rule split_csv_row) (auto simp: list_all2_conv_all_nth writes_field_def)

text \<open>A file of such rows is read as these rows, numbered from one.\<close>

definition plain_row :: "string \<Rightarrow> bool" where
  "plain_row row \<longleftrightarrow> row \<noteq> [] \<and> hd row = quote_mark \<and> last row = quote_mark \<and> line_feed \<notin> set row"

lemma plain_written_row: "fs \<noteq> [] \<Longrightarrow> (\<And>f. f \<in> set fs \<Longrightarrow> line_feed \<notin> set f) \<Longrightarrow> plain_row (written_row fs)"
  using written_row_Cons[of fs] written_row_no_feed[of fs] by (auto simp: plain_row_def)

lemma plain_row_kept:
  assumes "plain_row row"
  shows "strip_leading [byte_order_mark] row = row" "trim row = row"
proof -
  show "strip_leading [byte_order_mark] row = row"
    using assms by (intro strip_none) (auto simp: plain_row_def byte_order_mark_def quote_mark_def dest!: starts_with_hd)
  show "trim row = row"
    by (rule trim_printed) (use assms in \<open>simp add: plain_row_def printed_def quote_mark_def\<close>)
qed

lemma csv_lines_of_rows:
  assumes "\<And>row. row \<in> set rows \<Longrightarrow> plain_row row"
  shows "csv_lines (concat (map (\<lambda>row. row @ [line_feed]) rows)) = enumerate 1 rows"
proof -
  have "text_lines (concat (map (\<lambda>row. row @ [line_feed]) rows)) = rows"
    by (rule text_lines_of_lines) (use assms in \<open>auto simp: plain_row_def quote_mark_def carriage_return_def\<close>)
  moreover have "map (\<lambda>(row, line). (row, strip_leading [byte_order_mark] line)) (enumerate n rs) = enumerate n rs"
    if "\<And>row. row \<in> set rs \<Longrightarrow> plain_row row" for n rs
    using that by (induction rs arbitrary: n) (simp_all add: plain_row_kept(1))
  moreover have "filter (\<lambda>(_, line). trim line \<noteq> []) (enumerate n rs) = enumerate n rs"
    if "\<And>row. row \<in> set rs \<Longrightarrow> plain_row row" for n rs
  proof -
    have "trim line \<noteq> []" if "(i, line) \<in> set (enumerate n rs)" for i line
    proof -
      have "snd (i, line) \<in> set (map snd (enumerate n rs))" using that by (metis image_eqI set_map)
      then have "line \<in> set rs" by simp
      then have "plain_row line" using \<open>\<And>row. row \<in> set rs \<Longrightarrow> plain_row row\<close> by blast
      then show ?thesis by (simp add: plain_row_kept(2)) (simp add: plain_row_def)
    qed
    then show ?thesis by (intro filter_True) auto
  qed
  ultimately show ?thesis using assms by (simp add: csv_lines_def)
qed

section \<open>Reading a row\<close>

lemma parse_section_str: "parse_pay_section (pay_section_as_str s) = Some s"
proof -
  have "trim (pay_section_as_str s) = pay_section_as_str s"
    by (rule trim_printed) (cases s; simp add: printed_def)
  then show ?thesis by (cases s) (simp_all add: parse_pay_section_def to_ascii_lowercase_def)
qed

lemma parse_display:
  assumes "readers_ok E"
  shows "parse_pay_amount E (display m) = Inr m"
proof -
  have ok: "dec_ok (Decimal (cents m) 2)" using cents_bounds[of m] by (simp add: dec_ok_def)
  have "dec_val (Decimal (cents m) 2) * 100 = of_int (cents m)" by (simp add: dec_val_def)
  then have "round_money (pe_dec E) (Decimal (cents m) 2) MirroredAmount = Inr m"
    using round_money_cents[OF _ ok] assms by (simp add: readers_ok_def)
  then show ?thesis
    using assms display_clean[of m] by (simp add: parse_pay_amount_def read_amount_def readers_ok_def text_ok_def)
qed

text \<open>A date column that may be empty.\<close>

lemma read_date:
  assumes "readers_ok E"
  shows "parse_date E (pe_show_date E d) = Inr d"
    and "optional_date E (case o1 of None \<Rightarrow> [] | Some d \<Rightarrow> pe_show_date E d) = Inr o1"
    and "trim (case o1 of None \<Rightarrow> [] | Some d \<Rightarrow> pe_show_date E d) = (case o1 of None \<Rightarrow> [] | Some d \<Rightarrow> pe_show_date E d)"
  using assms
  by (auto simp: readers_ok_def parse_date_def optional_date_def text_ok_def trim_printed split: option.split)

definition pay_row_of :: "pay_run \<Rightarrow> pay_line \<Rightarrow> pay_row" where
  "pay_row_of run line =
     \<lparr>rw_run_id = pr_run_id run, rw_pay_date = pr_pay_date run, rw_period_start = pr_period_start run,
      rw_period_end = pr_period_end run, rw_line = line\<rparr>"

lemma section_str_plain: "trim (pay_section_as_str s) = pay_section_as_str s" "pay_section_as_str s \<noteq> []"
  "line_feed \<notin> set (pay_section_as_str s)"
  by (rule trim_printed, cases s; simp add: printed_def) (cases s; simp add: line_feed_def)+

lemma read_row:
  assumes E: "readers_ok E" and run: "run_ok run" and line: "line_ok line"
  shows "parse_pay_row E COLUMNS (pay_fields E run line) = Inr (pay_row_of run line)"
proof -
  have at: "csv_field COLUMNS (pay_fields E run line) ''run_id'' = trim (pr_run_id run)"
    "csv_field COLUMNS (pay_fields E run line) ''pay_date'' = trim (pe_show_date E (pr_pay_date run))"
    "csv_field COLUMNS (pay_fields E run line) ''period_start'' = trim (case pr_period_start run of None \<Rightarrow> [] | Some d \<Rightarrow> pe_show_date E d)"
    "csv_field COLUMNS (pay_fields E run line) ''period_end'' = trim (case pr_period_end run of None \<Rightarrow> [] | Some d \<Rightarrow> pe_show_date E d)"
    "csv_field COLUMNS (pay_fields E run line) ''employee'' = trim (pl_employee line)"
    "csv_field COLUMNS (pay_fields E run line) ''department'' = trim (unwrap_or (pl_department line) [])"
    "csv_field COLUMNS (pay_fields E run line) ''section'' = trim (pay_section_as_str (pl_section line))"
    "csv_field COLUMNS (pay_fields E run line) ''item'' = trim (pl_item line)"
    "csv_field COLUMNS (pay_fields E run line) ''amount'' = trim (display (pl_amount line))"
    by (simp_all add: csv_field_def COLUMNS_def pay_fields_def)
  have texts: "trim (pr_run_id run) = pr_run_id run" "trim (pe_show_date E (pr_pay_date run)) = pe_show_date E (pr_pay_date run)"
    "trim (pl_employee line) = pl_employee line" "trim (pl_item line) = pl_item line"
    "trim (display (pl_amount line)) = display (pl_amount line)"
    "trim (unwrap_or (pl_department line) []) = unwrap_or (pl_department line) []"
    using assms display_clean(2)[of "pl_amount line"]
    by (auto simp: run_ok_def line_ok_def text_ok_def readers_ok_def trim_printed split: option.splits)
  have full: "pr_run_id run \<noteq> []" "pe_show_date E (pr_pay_date run) \<noteq> []" "pl_employee line \<noteq> []" "pl_item line \<noteq> []"
    using assms by (simp_all add: run_ok_def line_ok_def readers_ok_def)
  have dept: "(if unwrap_or (pl_department line) [] = [] then None else Some (unwrap_or (pl_department line) [])) = pl_department line"
    using line by (auto simp: line_ok_def split: option.splits)
  show ?thesis
    unfolding parse_pay_row_def required_field_def at texts section_str_plain(1) read_date(3)[OF E] Let_def
    by (simp add: full section_str_plain(2) display_clean(1) read_date(1,2)[OF E] parse_section_str parse_display[OF E] dept pay_row_of_def)
qed

lemma fields_no_feed:
  assumes "readers_ok E" "run_ok run" "line_ok line" "f \<in> set (pay_fields E run line)"
  shows "line_feed \<notin> set f"
  using assms section_str_plain(3)[of "pl_section line"] display_clean(2)[of "pl_amount line"]
  by (auto simp: pay_fields_def run_ok_def line_ok_def text_ok_def readers_ok_def split: option.splits)

section \<open>Reading the runs\<close>

lemma place_row_opens:
  assumes "(pr_run_id run, pr_pay_date run) \<notin> (\<lambda>r. (pr_run_id r, pr_pay_date r)) ` set before"
  shows "place_row (pay_row_of run line) before = Inr (before @ [run\<lparr>pr_lines := [line]\<rparr>])"
  using assms by (induction before) (auto simp: pay_row_of_def)

lemma place_row_joins:
  assumes "(pr_run_id run, pr_pay_date run) \<notin> (\<lambda>r. (pr_run_id r, pr_pay_date r)) ` set before"
  shows "place_row (pay_row_of run line) (before @ [run\<lparr>pr_lines := ls\<rparr>]) = Inr (before @ [run\<lparr>pr_lines := ls @ [line]\<rparr>])"
  using assms by (induction before) (auto simp: pay_row_of_def join_run_def)

lemma parse_written:
  assumes "readers_ok E" "run_ok run" "line_ok line" "place_row (pay_row_of run line) runs = Inr runs'"
  shows "parse_pay_line E COLUMNS runs (n, written_row (pay_fields E run line)) = Inr runs'"
proof -
  have "pay_fields E run line \<noteq> []" by (simp add: pay_fields_def)
  then show ?thesis
    using assms(4) by (simp add: parse_pay_line_def split_written_row read_row[OF assms(1-3)])
qed

lemma read_more_lines:
  assumes "readers_ok E" "run_ok run" "list_all line_ok ls"
    and "(pr_run_id run, pr_pay_date run) \<notin> (\<lambda>r. (pr_run_id r, pr_pay_date r)) ` set before"
  shows "try_fold (parse_pay_line E COLUMNS) (before @ [run\<lparr>pr_lines := old\<rparr>])
      (enumerate n (map (\<lambda>line. written_row (pay_fields E run line)) ls)) = Inr (before @ [run\<lparr>pr_lines := old @ ls\<rparr>])"
  using assms(3)
proof (induction ls arbitrary: old n)
  case (Cons line ls)
  have "parse_pay_line E COLUMNS (before @ [run\<lparr>pr_lines := old\<rparr>]) (n, written_row (pay_fields E run line)) =
      Inr (before @ [run\<lparr>pr_lines := old @ [line]\<rparr>])"
    by (rule parse_written[OF assms(1,2) _ place_row_joins[OF assms(4)]]) (use Cons.prems in simp)
  then show ?case using Cons.IH[of "old @ [line]" "Suc n"] Cons.prems by simp
qed simp

lemma read_one_run:
  assumes "readers_ok E" "run_ok run"
    and "(pr_run_id run, pr_pay_date run) \<notin> (\<lambda>r. (pr_run_id r, pr_pay_date r)) ` set before"
  shows "try_fold (parse_pay_line E COLUMNS) before (enumerate n (run_rows E run)) = Inr (before @ [run])"
proof -
  obtain line ls where ls: "pr_lines run = line # ls" using assms(2) by (cases "pr_lines run") (auto simp: run_ok_def)
  have ok: "line_ok line" "list_all line_ok ls" using assms(2) by (simp_all add: run_ok_def ls)
  have first: "parse_pay_line E COLUMNS before (n, written_row (pay_fields E run line)) = Inr (before @ [run\<lparr>pr_lines := [line]\<rparr>])"
    by (rule parse_written[OF assms(1,2) ok(1) place_row_opens[OF assms(3)]])
  have "run\<lparr>pr_lines := [line] @ ls\<rparr> = run" by (simp add: ls)
  then show ?thesis
    using first read_more_lines[OF assms(1,2) ok(2) assms(3), of "[line]" "Suc n"] by (simp add: run_rows_def ls)
qed

lemma read_runs:
  assumes "readers_ok E" "list_all run_ok runs"
    and "distinct (map (\<lambda>r. (pr_run_id r, pr_pay_date r)) (before @ runs))"
  shows "try_fold (parse_pay_line E COLUMNS) before (enumerate n (concat (map (run_rows E) runs))) = Inr (before @ runs)"
  using assms(2,3)
proof (induction runs arbitrary: before n)
  case (Cons run runs)
  have "(pr_run_id run, pr_pay_date run) \<notin> (\<lambda>r. (pr_run_id r, pr_pay_date r)) ` set before"
    using Cons.prems(2) by auto
  then have "try_fold (parse_pay_line E COLUMNS) before (enumerate n (run_rows E run)) = Inr (before @ [run])"
    using Cons.prems(1) by (intro read_one_run[OF assms(1)]) simp_all
  then show ?case
    using Cons.IH[of "before @ [run]"] Cons.prems by (simp add: enumerate_append_eq try_fold_append)
qed simp

text \<open>
  C34. A pay-run file reads back. Runs of distinct ids and check dates, written a row per line with every
  field in quotes, are read as they were: in order, with their periods, departments, names
  with commas or quotes in them, and amounts to the cent.
\<close>

theorem a_written_pay_file_reads_back:
  assumes "readers_ok E" and "runs \<noteq> []" and "list_all run_ok runs"
    and "distinct (map (\<lambda>r. (pr_run_id r, pr_pay_date r)) runs)"
  shows "parse_pay_csv E (pay_csv E runs) = Inr runs"
proof -
  let ?rows = "concat (map (run_rows E) runs)"
  have plain: "plain_row row" if row: "row \<in> set (written_row COLUMNS # ?rows)" for row
  proof -
    consider "row = written_row COLUMNS" | run line where "run \<in> set runs" "line \<in> set (pr_lines run)" "row = written_row (pay_fields E run line)"
      using row by (auto simp: run_rows_def)
    then show ?thesis
    proof cases
      case 1
      show ?thesis unfolding 1
        by (rule plain_written_row) (auto simp: COLUMNS_def line_feed_def)
    next
      case 2
      then have ok: "run_ok run" "line_ok line" using assms(3) by (auto simp: list_all_iff run_ok_def)
      show ?thesis unfolding 2(3)
        by (rule plain_written_row) (simp add: pay_fields_def, rule fields_no_feed[OF assms(1) ok])
    qed
  qed
  have lines: "csv_lines (pay_csv E runs) = (1, written_row COLUMNS) # enumerate 2 ?rows"
    unfolding pay_csv_def by (subst csv_lines_of_rows) (erule plain, simp add: numeral_2_eq_2)
  have "split_csv_line (written_row COLUMNS) = COLUMNS" by (rule split_written_row) (simp add: COLUMNS_def)
  moreover have "map (\<lambda>h. to_ascii_lowercase (trim h)) COLUMNS = COLUMNS"
    by (simp add: COLUMNS_def trim_printed printed_def to_ascii_lowercase_def)
  moreover have "find_map (\<lambda>name. position (\<lambda>h. h = name) COLUMNS = None) REQUIRED = None"
    by (simp add: COLUMNS_def REQUIRED_def)
  moreover have "try_fold (parse_pay_line E COLUMNS) [] (enumerate 2 ?rows) = Inr ([] @ runs)"
    by (rule read_runs[OF assms(1,3)]) (simp add: assms(4))
  ultimately show ?thesis using assms(2) by (simp add: parse_pay_csv_def lines Let_def)
qed

section \<open>Readers that read so\<close>

text \<open>A date as signed strokes, and an amount by its digits.\<close>

definition stroke_date :: "naive_date \<Rightarrow> string" where
  "stroke_date d = (if year d < 0 then CHR ''-'' else CHR ''+'') # replicate (nat \<bar>year d\<bar>) CHR ''y'' @
     replicate (month d) CHR ''m'' @ replicate (day d) CHR ''d''"

definition read_strokes :: "string \<Rightarrow> string \<Rightarrow> naive_date option" where
  "read_strokes fmt s =
     (if fmt = ''%Y-%m-%d'' then
        Some (Ymd ((if hd s = CHR ''-'' then - 1 else 1) * int (count_list s CHR ''y'')) (count_list s CHR ''m'') (count_list s CHR ''d''))
      else None)"

definition stroke_payroll :: payroll_env where
  "stroke_payroll =
     \<lparr>pe_debug = True, pe_dec = reference_ops, pe_decimal = read_cents, pe_date = read_strokes,
      pe_show_date = stroke_date, pe_rfc3339 = (\<lambda>_. ''now''), pe_quote = (\<lambda>s. s), pe_to_json = (\<lambda>_. Inr ''{}'')\<rparr>"

lemma count_replicate: "count_list (replicate n x) y = (if x = y then n else 0)"
  by (induction n) auto

lemma strokes_read: "read_strokes ''%Y-%m-%d'' (stroke_date d) = Some d"
  by (cases d) (simp add: read_strokes_def stroke_date_def count_replicate)

lemma stroke_readers: "readers_ok stroke_payroll"
proof -
  have p: "printed c" if "c \<in> set (stroke_date d)" for c d
    using that by (auto simp: stroke_date_def printed_def split: if_splits)
  have ne: "stroke_date d \<noteq> []" for d by (simp add: stroke_date_def)
  have "trim (stroke_date d) = stroke_date d" for d
    by (rule trim_printed) (use p ne in \<open>auto intro: hd_in_set last_in_set\<close>)
  moreover have "line_feed \<notin> set (stroke_date d)" for d
    using p[of line_feed d] by (auto simp: printed_def line_feed_def)
  ultimately show ?thesis
    using ne by (simp add: readers_ok_def stroke_payroll_def reference_laws strokes_read cents_read text_ok_def)
qed

definition one_run :: pay_run where
  "one_run =
     \<lparr>pr_run_id = ''77'', pr_pay_date = Ymd 2026 10 2, pr_period_start = Some (Ymd 2026 9 14), pr_period_end = None,
      pr_lines =
        [\<lparr>pl_employee = ''Last, \"First\" M'', pl_department = Some ''shop, back'', pl_section = Earning, pl_item = ''O/TIME'',
          pl_amount = money_of (- 1205)\<rparr>]\<rparr>"

theorem a_written_pay_file_reads_back_witness:
  "parse_pay_csv stroke_payroll (pay_csv stroke_payroll [one_run]) = Inr [one_run]"
proof (rule a_written_pay_file_reads_back[OF stroke_readers])
  show "list_all run_ok [one_run]"
    by (simp add: run_ok_def line_ok_def text_ok_def one_run_def trim_printed printed_def line_feed_def)
qed simp_all

end
