(* ===== verification/Bank_Files.thy ===== *)
theory Bank_Files
  imports Bank Csv_Text
begin

text \<open>
  \<open>bank/csv.rs\<close> and \<open>bank/ofx.rs\<close>: the exports of a bank or a card read as the lines \<open>import_statement\<close>
  takes. The readers of decimals and dates, how a date and a quoted text are printed and the
  hasher of the standard library, whose algorithm it does not fix, are arguments.
\<close>

datatype parse_error =
    FileMalformed nat string
  | FilePrecision nat string
  | FileBadDate nat string string
  | FileMoney money_error

type_synonym 'a file_res = "(parse_error, 'a) res"

record file_env =
  fe_dec :: dec_ops
  fe_decimal :: "string \<Rightarrow> decimal option"
  fe_date :: "string \<Rightarrow> string \<Rightarrow> naive_date option"
  fe_show_date :: "naive_date \<Rightarrow> string"
  fe_quote :: "string \<Rightarrow> string"
  fe_hash :: "string \<Rightarrow> 64 word"

section \<open>CSV exports\<close>

datatype amount_cols = Single nat | DebitCredit nat nat

record csv_profile =
  cv_date_col :: nat
  cv_description_col :: nat
  cv_amount_col :: amount_cols
  cv_date_format :: string
  cv_external_id_col :: "nat option"
  cv_skip_header :: bool
  cv_decimal_negative_in_parens :: bool

definition chase :: csv_profile where
  "chase =
     \<lparr>cv_date_col = 1, cv_description_col = 2, cv_amount_col = Single 5, cv_date_format = ''%m/%d/%Y'',
      cv_external_id_col = None, cv_skip_header = True, cv_decimal_negative_in_parens = True\<rparr>"

definition generic :: csv_profile where
  "generic =
     \<lparr>cv_date_col = 0, cv_description_col = 1, cv_amount_col = Single 2, cv_date_format = ''%Y-%m-%d'',
      cv_external_id_col = Some 3, cv_skip_header = True, cv_decimal_negative_in_parens = False\<rparr>"

definition nth_field :: "string list \<Rightarrow> nat \<Rightarrow> nat \<Rightarrow> string file_res" where
  "nth_field fs col row =
     (if col < length fs then Inr (fs ! col)
      else Inl (Err (FileMalformed row
        (''expected at least '' @ show_nat (col + 1) @ '' columns, got '' @ show_nat (length fs)))))"

definition parse_decimal :: "file_env \<Rightarrow> string \<Rightarrow> bool \<Rightarrow> nat \<Rightarrow> decimal file_res" where
  "parse_decimal E raw parens_negative row =
     ok_or (read_amount (fe_decimal E) parens_negative (trim raw))
       (Err (FileMalformed row (''invalid amount '' @ fe_quote E (trim raw))))"

definition parse_optional_decimal :: "file_env \<Rightarrow> string \<Rightarrow> bool \<Rightarrow> nat \<Rightarrow> decimal file_res" where
  "parse_optional_decimal E raw parens_negative row =
     (if trim raw = [] then Inr (Decimal 0 0) else parse_decimal E raw parens_negative row)"

definition parse_amount :: "file_env \<Rightarrow> string list \<Rightarrow> amount_cols \<Rightarrow> bool \<Rightarrow> nat \<Rightarrow> money file_res" where
  "parse_amount E fs amount_col parens_negative row =
     and_then
       (case amount_col of
          Single col \<Rightarrow>
            and_then (nth_field fs col row) (\<lambda>raw.
            and_then (parse_decimal E raw parens_negative row) (\<lambda>d. Inr (d, raw)))
        | DebitCredit debit_col credit_col \<Rightarrow>
            and_then (nth_field fs debit_col row) (\<lambda>debit_raw.
            and_then (nth_field fs credit_col row) (\<lambda>credit_raw.
            and_then (parse_optional_decimal E debit_raw parens_negative row) (\<lambda>debit.
            and_then (parse_optional_decimal E credit_raw parens_negative row) (\<lambda>credit.
            and_then (ok_or (d_sub (fe_dec E) credit debit) Panic) (\<lambda>d.
            Inr (d, ''credit '' @ fe_quote E credit_raw @ '' debit '' @ fe_quote E debit_raw))))))) (\<lambda>(value, raw).
     if 2 < scale value then Inl (Err (FilePrecision row raw))
     else map_err (\<lambda>e. Err (FileMoney e)) (round_money (fe_dec E) value MirroredAmount))"

text \<open>\<open>{:016x}\<close>.\<close>

definition hex_digit :: "nat \<Rightarrow> char" where
  "hex_digit d = (if d < 10 then char_of (48 + d) else char_of (87 + d))"

definition show_hex16 :: "64 word \<Rightarrow> string" where
  "show_hex16 w = map (\<lambda>i. hex_digit (unat w div 16 ^ (15 - i) mod 16)) [0..<16]"

definition show_cents :: "money \<Rightarrow> string" where
  "show_cents m = (if cents m < 0 then CHR ''-'' # show_nat (nat (- cents m)) else show_nat (nat (cents m)))"

definition synthesized_id :: "file_env \<Rightarrow> naive_date \<Rightarrow> money \<Rightarrow> string \<Rightarrow> nat \<Rightarrow> string" where
  "synthesized_id E posted_on amount description seen_before =
     ''csv:'' @ fe_show_date E posted_on @ '':'' @ show_cents amount @ '':'' @
     show_hex16 (fe_hash E description) @ '':'' @ show_nat seen_before"

type_synonym occurrences = "naive_date \<times> money \<times> string \<Rightarrow> nat"

definition parse_csv_line ::
  "file_env \<Rightarrow> csv_profile \<Rightarrow> parsed_line list \<times> occurrences \<Rightarrow> nat \<times> string \<Rightarrow>
   (parsed_line list \<times> occurrences) file_res" where
  "parse_csv_line E profile acc item =
     (let (ls, occurrence) = acc; (row, raw_line) = item in
      if cv_skip_header profile \<and> row = 1 \<or> trim raw_line = [] then Inr acc
      else
        let fs = split_csv_line raw_line in
        and_then (nth_field fs (cv_date_col profile) row) (\<lambda>date_field.
        let date_raw = trim date_field in
        and_then (ok_or (fe_date E (cv_date_format profile) date_raw)
            (Err (FileBadDate row date_raw (cv_date_format profile)))) (\<lambda>posted_on.
        and_then (nth_field fs (cv_description_col profile) row) (\<lambda>description_field.
        let description = trim description_field in
        and_then (parse_amount E fs (cv_amount_col profile) (cv_decimal_negative_in_parens profile) row) (\<lambda>amount.
        and_then
          (case cv_external_id_col profile of
             Some col \<Rightarrow>
               and_then (nth_field fs col row) (\<lambda>raw.
               Inr (if trim raw = [] then None else Some (trim raw), occurrence))
           | None \<Rightarrow>
               let key = (posted_on, amount, description); seen_before = occurrence key in
               Inr (Some (synthesized_id E posted_on amount description seen_before),
                 occurrence(key := seen_before + 1))) (\<lambda>(external_id, occurrence).
        Inr (ls @ [\<lparr>pl_posted_on = posted_on, pl_amount = amount, pl_description = description,
                    pl_external_id = external_id\<rparr>], occurrence)))))))"

definition parse_bank_csv :: "file_env \<Rightarrow> csv_profile \<Rightarrow> string \<Rightarrow> parsed_line list file_res" where
  "parse_bank_csv E profile text =
     and_then (try_fold (parse_csv_line E profile) ([], \<lambda>_. 0) (enumerate 1 (text_lines text))) (\<lambda>(ls, _). Inr ls)"

section \<open>OFX exports\<close>

text \<open>\<open>str::find\<close> of a text: what comes before its first occurrence, and what after.\<close>

fun split_at :: "string \<Rightarrow> string \<Rightarrow> (string \<times> string) option" where
  "split_at pat [] = (if pat = [] then Some ([], []) else None)"
| "split_at pat (c # cs) =
     (if starts_with pat (c # cs) then Some ([], drop (length pat) (c # cs))
      else map_option (\<lambda>(before, after). (c # before, after)) (split_at pat cs))"

lemma split_at_shorter: "split_at pat s = Some (before, after) \<Longrightarrow> length after + length pat \<le> length s"
proof (induction s arbitrary: before after)
  case (Cons c s)
  show ?case
  proof (cases "starts_with pat (c # s)")
    case True
    then have "length pat \<le> length (c # s)" by (metis length_take min.cobounded2 starts_with_iff min.commute)
    then show ?thesis using Cons.prems True by auto
  next
    case False
    then show ?thesis using Cons.prems Cons.IH by (auto split: if_splits)
  qed
qed (auto split: if_splits)

function extract_blocks :: "string \<Rightarrow> string \<Rightarrow> string \<Rightarrow> string list" where
  "extract_blocks open_tag close_tag text =
     (case split_at open_tag text of
        None \<Rightarrow> []
      | Some (_, after_open) \<Rightarrow>
          (case split_at close_tag after_open of
             None \<Rightarrow> []
           | Some (block, rest) \<Rightarrow> if close_tag = [] then [] else block # extract_blocks open_tag close_tag rest))"
  by pat_completeness auto

termination
proof (relation "measure (\<lambda>(_, _, text). length text)")
  fix open_tag close_tag s :: string and p q before after_open block rest
  assume "split_at open_tag s = Some p" "(before, after_open) = p" "split_at close_tag after_open = Some q"
    "(block, rest) = q" "close_tag \<noteq> []"
  then have "length after_open \<le> length s" "length rest + length close_tag \<le> length after_open"
    by (auto dest!: split_at_shorter)
  moreover have "0 < length close_tag" using \<open>close_tag \<noteq> []\<close> by simp
  ultimately have "length rest < length s" by linarith
  then show "((open_tag, close_tag, rest), (open_tag, close_tag, s)) \<in> measure (\<lambda>(_, _, text). length text)"
    by simp
qed simp

declare extract_blocks.simps [simp del]

definition start_tag :: "string \<Rightarrow> string" where
  "start_tag name = ''<'' @ name @ ''>''"

definition tag_value :: "string \<Rightarrow> string \<Rightarrow> string option" where
  "tag_value text name =
     Option.bind (split_at (start_tag name) text) (\<lambda>(_, rest).
       let value = trim (takeWhile (\<lambda>c. c \<noteq> CHR ''<'' \<and> c \<noteq> line_feed \<and> c \<noteq> carriage_return) rest) in
       if value = [] then None else Some value)"

definition parse_trnamt :: "file_env \<Rightarrow> string \<Rightarrow> nat \<Rightarrow> money file_res" where
  "parse_trnamt E raw row =
     and_then (ok_or (fe_decimal E (trim raw)) (Err (FileMalformed row (''invalid TRNAMT '' @ fe_quote E raw)))) (\<lambda>d.
     if 2 < scale d then Inl (Err (FilePrecision row raw))
     else map_err (\<lambda>e. Err (FileMoney e)) (round_money (fe_dec E) d MirroredAmount))"

definition parse_ofx_date :: "file_env \<Rightarrow> string \<Rightarrow> nat \<Rightarrow> naive_date file_res" where
  "parse_ofx_date E raw row =
     (let digits = takeWhile is_ascii_digit raw; bad = Err (FileBadDate row raw ''YYYYMMDD'') in
      if length digits < 8 then Inl bad else ok_or (fe_date E ''%Y%m%d'' (take 8 digits)) bad)"

definition parse_ofx_block :: "file_env \<Rightarrow> nat \<times> string \<Rightarrow> parsed_line file_res" where
  "parse_ofx_block E = (\<lambda>(row, block).
     and_then (ok_or (tag_value block ''DTPOSTED'') (Err (FileMalformed row ''STMTTRN missing DTPOSTED''))) (\<lambda>dtposted.
     and_then (parse_ofx_date E dtposted row) (\<lambda>posted_on.
     and_then (ok_or (tag_value block ''TRNAMT'') (Err (FileMalformed row ''STMTTRN missing TRNAMT''))) (\<lambda>trnamt.
     and_then (parse_trnamt E trnamt row) (\<lambda>amount.
     Inr \<lparr>pl_posted_on = posted_on, pl_amount = amount,
          pl_description = unwrap_or (or_else (tag_value block ''NAME'') (tag_value block ''MEMO'')) [],
          pl_external_id = tag_value block ''FITID''\<rparr>)))))"

definition parse_ofx :: "file_env \<Rightarrow> string \<Rightarrow> parsed_line list file_res" where
  "parse_ofx E text = try_map (parse_ofx_block E) (enumerate 1 (extract_blocks ''<STMTTRN>'' ''</STMTTRN>'' text))"

definition ok_value :: "'e + 'a \<Rightarrow> 'a option" where
  "ok_value r = (case r of Inr x \<Rightarrow> Some x | Inl _ \<Rightarrow> None)"

definition parse_ofx_ledger_balance :: "file_env \<Rightarrow> string \<Rightarrow> money option" where
  "parse_ofx_ledger_balance E text =
     (case extract_blocks ''<LEDGERBAL>'' ''</LEDGERBAL>'' text of
        [] \<Rightarrow> None
      | block # _ \<Rightarrow>
          Option.bind (tag_value block ''BALAMT'') (\<lambda>raw.
          Option.bind (fe_decimal E (trim raw)) (\<lambda>d.
          ok_value (round_money (fe_dec E) d MirroredAmount))))"

definition parse_ofx_statement_period :: "file_env \<Rightarrow> string \<Rightarrow> (naive_date \<times> naive_date) option" where
  "parse_ofx_statement_period E text =
     Option.bind (Option.bind (tag_value text ''DTSTART'') (\<lambda>raw. ok_value (parse_ofx_date E raw 0))) (\<lambda>start.
     Option.bind (Option.bind (tag_value text ''DTEND'') (\<lambda>raw. ok_value (parse_ofx_date E raw 0))) (\<lambda>stop.
     Some (start, stop)))"

end
