(* ===== verification/Bank_Files_Outcome.thy ===== *)
theory Bank_Files_Outcome
  imports Bank_Files
begin

text \<open>
  What the readers of bank exports promise: an OFX file of written transactions reads back, the ids a
  CSV export is given keep its rows apart, and an export imported again inserts nothing.
\<close>

section \<open>Tagged text\<close>

text \<open>A line per element, an opening tag and its value, as OFX files have them.\<close>

definition tagged :: "(string \<times> string) list \<Rightarrow> string" where
  "tagged elements = concat (map (\<lambda>(name, value). start_tag name @ value @ [line_feed]) elements)"

definition name_ok :: "string \<Rightarrow> bool" where
  "name_ok name \<longleftrightarrow> CHR ''<'' \<notin> set name \<and> CHR ''>'' \<notin> set name"

definition value_ok :: "string \<Rightarrow> bool" where
  "value_ok v \<longleftrightarrow> text_ok v \<and> CHR ''<'' \<notin> set v \<and> carriage_return \<notin> set v"

lemma start_tag_Cons: "start_tag name = CHR ''<'' # name @ ''>''"
  by (simp add: start_tag_def)

lemma starts_with_tag:
  assumes "name_ok n" "name_ok name"
  shows "starts_with (start_tag n) (start_tag name @ s) \<longleftrightarrow> n = name"
proof -
  have "starts_with (n @ ''>'') (m @ CHR ''>'' # s) \<Longrightarrow> n = m" if "CHR ''>'' \<notin> set n" "CHR ''>'' \<notin> set m" for n m
    using that
  proof (induction n arbitrary: m)
    case Nil
    then show ?case by (cases m) auto
  next
    case (Cons c n)
    then show ?case by (cases m) auto
  qed
  moreover have "starts_with (n @ ''>'') (n @ CHR ''>'' # s)"
    using starts_with_append[of "n @ ''>''" s] by simp
  ultimately show ?thesis using assms by (auto simp: start_tag_Cons name_ok_def)
qed

lemma split_at_skips:
  "CHR ''<'' \<notin> set s \<Longrightarrow>
    split_at (start_tag n) (s @ rest) = map_option (\<lambda>(before, after). (s @ before, after)) (split_at (start_tag n) rest)"
proof (induction s)
  case Nil
  then show ?case by (cases "split_at (start_tag n) rest") auto
next
  case (Cons c s)
  then show ?case by (cases "split_at (start_tag n) rest") (auto simp: start_tag_Cons)
qed

lemma split_at_here: "split_at (start_tag n) (start_tag n @ rest) = Some ([], rest)"
proof -
  have "starts_with (start_tag n) (start_tag n @ rest)" by simp
  then show ?thesis by (simp add: start_tag_Cons)
qed

lemma split_at_passes_tag:
  assumes "name_ok n" "name_ok name" "n \<noteq> name" "CHR ''<'' \<notin> set v"
  shows "split_at (start_tag n) (start_tag name @ v @ rest) =
    map_option (\<lambda>(before, after). (start_tag name @ v @ before, after)) (split_at (start_tag n) rest)"
proof -
  have "\<not> starts_with (start_tag n) (start_tag name @ v @ rest)"
    using starts_with_tag[OF assms(1,2)] assms(3) by simp
  moreover have "split_at (start_tag n) ((name @ ''>'' @ v) @ rest) =
      map_option (\<lambda>(before, after). ((name @ ''>'' @ v) @ before, after)) (split_at (start_tag n) rest)"
    by (rule split_at_skips) (use assms(2,4) in \<open>auto simp: name_ok_def\<close>)
  ultimately show ?thesis
    by (cases "split_at (start_tag n) rest") (auto simp: start_tag_Cons)
qed

lemma split_at_passes:
  assumes "name_ok n" "n \<notin> fst ` set elements" "\<And>name v. (name, v) \<in> set elements \<Longrightarrow> name_ok name \<and> CHR ''<'' \<notin> set v"
  shows "split_at (start_tag n) (tagged elements @ rest) =
    map_option (\<lambda>(before, after). (tagged elements @ before, after)) (split_at (start_tag n) rest)"
  using assms(2,3)
proof (induction elements)
  case Nil
  then show ?case by (cases "split_at (start_tag n) rest") (auto simp: tagged_def)
next
  case (Cons e elements)
  obtain name v where e: "e = (name, v)" by (cases e)
  have "split_at (start_tag n) (start_tag name @ (v @ [line_feed]) @ (tagged elements @ rest)) =
      map_option (\<lambda>(before, after). (start_tag name @ (v @ [line_feed]) @ before, after)) (split_at (start_tag n) (tagged elements @ rest))"
    using Cons.prems by (intro split_at_passes_tag assms(1)) (auto simp: e line_feed_def)
  moreover have "split_at (start_tag n) (tagged elements @ rest) =
      map_option (\<lambda>(before, after). (tagged elements @ before, after)) (split_at (start_tag n) rest)"
    using Cons.prems by (intro Cons.IH) auto
  ultimately show ?case
    by (cases "split_at (start_tag n) rest") (simp_all add: tagged_def e case_prod_beta)
qed

lemma takeWhile_value:
  assumes "value_ok v"
  shows "takeWhile (\<lambda>c. c \<noteq> CHR ''<'' \<and> c \<noteq> line_feed \<and> c \<noteq> carriage_return) (v @ line_feed # rest) = v"
proof -
  have "takeWhile (\<lambda>c. c \<noteq> CHR ''<'' \<and> c \<noteq> line_feed \<and> c \<noteq> carriage_return) (v @ line_feed # rest) =
      v @ takeWhile (\<lambda>c. c \<noteq> CHR ''<'' \<and> c \<noteq> line_feed \<and> c \<noteq> carriage_return) (line_feed # rest)"
    by (rule takeWhile_append2) (use assms in \<open>auto simp: value_ok_def text_ok_def\<close>)
  then show ?thesis by simp
qed

text \<open>The value of a tag is that of the first element of the name.\<close>

lemma tag_value_tagged:
  assumes "name_ok n" "\<And>name v. (name, v) \<in> set elements \<Longrightarrow> name_ok name \<and> value_ok v"
  shows "tag_value (line_feed # tagged elements) n =
    (case map_of elements n of None \<Rightarrow> None | Some v \<Rightarrow> if v = [] then None else Some v)"
proof -
  have tail: "split_at (start_tag n) (line_feed # tagged elements) =
      map_option (\<lambda>(before, after). (line_feed # before, after)) (split_at (start_tag n) (tagged elements))"
    using split_at_skips[of "[line_feed]" n "tagged elements"] by (simp add: line_feed_def)
  have found: "case map_of elements n of None \<Rightarrow> split_at (start_tag n) (tagged elements) = None
      | Some v \<Rightarrow> \<exists>before after. split_at (start_tag n) (tagged elements) = Some (before, v @ line_feed # after)"
    using assms(2)
  proof (induction elements)
    case Nil
    then show ?case by (simp add: tagged_def start_tag_Cons)
  next
    case (Cons e elements)
    obtain name v where e: "e = (name, v)" by (cases e)
    have ok: "name_ok name" "value_ok v" using Cons.prems by (auto simp: e)
    have all: "tagged (e # elements) = start_tag name @ (v @ [line_feed]) @ tagged elements" by (simp add: tagged_def e)
    show ?case
    proof (cases "n = name")
      case True
      have "split_at (start_tag n) (tagged (e # elements)) = Some ([], v @ line_feed # tagged elements)"
        unfolding all True using split_at_here by simp
      then show ?thesis by (simp add: e True)
    next
      case False
      have IH: "case map_of elements n of None \<Rightarrow> split_at (start_tag n) (tagged elements) = None
          | Some v \<Rightarrow> \<exists>before after. split_at (start_tag n) (tagged elements) = Some (before, v @ line_feed # after)"
        using Cons by auto
      have "split_at (start_tag n) (tagged (e # elements)) =
          map_option (\<lambda>(before, after). (start_tag name @ (v @ [line_feed]) @ before, after)) (split_at (start_tag n) (tagged elements))"
        unfolding all by (rule split_at_passes_tag[OF assms(1) ok(1) False]) (use ok(2) in \<open>simp add: value_ok_def line_feed_def\<close>)
      then show ?thesis using IH False by (auto simp: e split: option.splits)
    qed
  qed
  show ?thesis
  proof (cases "map_of elements n")
    case (Some v)
    then have v: "value_ok v" using assms(2) by (auto dest: map_of_SomeD)
    then have "trim v = v" by (simp add: value_ok_def text_ok_def)
    obtain before after where "split_at (start_tag n) (tagged elements) = Some (before, v @ line_feed # after)"
      using found by (auto simp: Some)
    with \<open>trim v = v\<close> show ?thesis
      unfolding tag_value_def tail by (simp add: Some takeWhile_value[OF v] Let_def)
  next
    case None
    then have "split_at (start_tag n) (tagged elements) = None" using found by simp
    then show ?thesis unfolding tag_value_def tail by (simp add: None)
  qed
qed

section \<open>A written OFX file\<close>

text \<open>The elements of a transaction; dates by their eight digits.\<close>

definition transaction_elements :: "(naive_date \<Rightarrow> string) \<Rightarrow> parsed_line \<Rightarrow> (string \<times> string) list" where
  "transaction_elements eight l =
     [(''DTPOSTED'', eight (pl_posted_on l)), (''TRNAMT'', display (pl_amount l)), (''NAME'', pl_description l)] @
     (case pl_external_id l of None \<Rightarrow> [] | Some i \<Rightarrow> [(''FITID'', i)])"

definition transaction :: "(naive_date \<Rightarrow> string) \<Rightarrow> parsed_line \<Rightarrow> string" where
  "transaction eight l =
     start_tag ''STMTTRN'' @ (line_feed # tagged (transaction_elements eight l)) @ start_tag ''/STMTTRN'' @ [line_feed]"

definition ofx_file :: "(naive_date \<Rightarrow> string) \<Rightarrow> (string \<times> string) list \<Rightarrow> parsed_line list \<Rightarrow> (string \<times> string) list \<Rightarrow> string" where
  "ofx_file eight header ls trailer = tagged header @ concat (map (transaction eight) ls) @ tagged trailer"

definition ofx_line_ok :: "file_env \<Rightarrow> (naive_date \<Rightarrow> string) \<Rightarrow> parsed_line \<Rightarrow> bool" where
  "ofx_line_ok E eight l \<longleftrightarrow>
     length (eight (pl_posted_on l)) = 8 \<and> list_all is_ascii_digit (eight (pl_posted_on l)) \<and>
     fe_date E ''%Y%m%d'' (eight (pl_posted_on l)) = Some (pl_posted_on l) \<and>
     value_ok (pl_description l) \<and> (case pl_external_id l of None \<Rightarrow> True | Some i \<Rightarrow> value_ok i \<and> i \<noteq> [])"

definition elements_ok :: "(string \<times> string) list \<Rightarrow> bool" where
  "elements_ok elements \<longleftrightarrow> list_all (\<lambda>(name, v). name_ok name \<and> value_ok v) elements"

definition exact_amounts_read :: "file_env \<Rightarrow> bool" where
  "exact_amounts_read E \<longleftrightarrow> dec_laws (fe_dec E) \<and> (\<forall>m. fe_decimal E (display m) = Some (Decimal (cents m) 2))"

lemma display_value: "value_ok (display m)"
  using display_clean(2)[of m] display_chars[of _ m] by (fastforce simp: value_ok_def carriage_return_def)

lemma digits_value_ok:
  assumes "list_all is_ascii_digit s"
  shows "value_ok s"
proof -
  have d: "48 \<le> (of_char c :: nat) \<and> (of_char c :: nat) \<le> 57" if "c \<in> set s" for c
    using assms that by (auto simp: list_all_iff is_ascii_digit_def)
  have "trim s = s"
    by (rule trim_printed) (cases "s = []"; use d[of "hd s"] d[of "last s"] in \<open>simp add: printed_def\<close>)
  then show ?thesis
    using d[of line_feed] d[of carriage_return] d[of "CHR ''<''"]
    by (auto simp: value_ok_def text_ok_def line_feed_def carriage_return_def)
qed

lemma transaction_elements_ok:
  assumes "ofx_line_ok E eight l" "(name, v) \<in> set (transaction_elements eight l)"
  shows "name_ok name \<and> value_ok v \<and> name \<noteq> ''/STMTTRN'' \<and> name \<noteq> ''STMTTRN''"
  using assms digits_value_ok[of "eight (pl_posted_on l)"] display_value
  by (auto simp: transaction_elements_def ofx_line_ok_def name_ok_def split: option.splits)

lemma read_transaction:
  assumes "exact_amounts_read E" "ofx_line_ok E eight l"
  shows "parse_ofx_block E (row, line_feed # tagged (transaction_elements eight l)) = Inr l"
proof -
  have val: "tag_value (line_feed # tagged (transaction_elements eight l)) n =
      (case map_of (transaction_elements eight l) n of None \<Rightarrow> None | Some v \<Rightarrow> if v = [] then None else Some v)"
    if "name_ok n" for n
    by (rule tag_value_tagged[OF that]) (use transaction_elements_ok[OF assms(2)] in blast)
  have names: "name_ok ''DTPOSTED''" "name_ok ''TRNAMT''" "name_ok ''NAME''" "name_ok ''MEMO''" "name_ok ''FITID''"
    by (simp_all add: name_ok_def)
  have date: "parse_ofx_date E (eight (pl_posted_on l)) row = Inr (pl_posted_on l)" "eight (pl_posted_on l) \<noteq> []"
  proof -
    have whole: "takeWhile is_ascii_digit (eight (pl_posted_on l)) = eight (pl_posted_on l)"
      using assms(2) by (simp add: ofx_line_ok_def takeWhile_eq_all_conv list_all_iff)
    show "parse_ofx_date E (eight (pl_posted_on l)) row = Inr (pl_posted_on l)"
      unfolding parse_ofx_date_def whole Let_def using assms(2) by (simp add: ofx_line_ok_def)
    show "eight (pl_posted_on l) \<noteq> []" using assms(2) by (auto simp: ofx_line_ok_def)
  qed
  have amount: "parse_trnamt E (display (pl_amount l)) row = Inr (pl_amount l)"
  proof -
    have ok: "dec_ok (Decimal (cents (pl_amount l)) 2)" using cents_bounds[of "pl_amount l"] by (simp add: dec_ok_def)
    have "dec_val (Decimal (cents (pl_amount l)) 2) * 100 = of_int (cents (pl_amount l))" by (simp add: dec_val_def)
    then have "round_money (fe_dec E) (Decimal (cents (pl_amount l)) 2) MirroredAmount = Inr (pl_amount l)"
      using round_money_cents[OF _ ok] assms(1) by (simp add: exact_amounts_read_def)
    then show ?thesis
      using assms(1) display_clean(2)[of "pl_amount l"] by (simp add: parse_trnamt_def exact_amounts_read_def text_ok_def)
  qed
  have ids: "pl_external_id l \<noteq> Some []" using assms(2) by (auto simp: ofx_line_ok_def)
  show ?thesis
    unfolding parse_ofx_block_def prod.case val[OF names(1)] val[OF names(2)] val[OF names(3)] val[OF names(4)] val[OF names(5)]
    using ids by (cases "pl_external_id l") (auto simp: transaction_elements_def date amount display_clean(1) or_else_def)
qed

lemma extract_blocks_skip:
  assumes "split_at open_tag (p @ s) = map_option (\<lambda>(before, after). (p @ before, after)) (split_at open_tag s)"
  shows "extract_blocks open_tag close_tag (p @ s) = extract_blocks open_tag close_tag s"
  by (subst (1 2) extract_blocks.simps) (cases "split_at open_tag s"; auto simp: assms)

lemma statement_names: "name_ok ''STMTTRN''" "name_ok ''/STMTTRN''"
  "''<STMTTRN>'' = start_tag ''STMTTRN''" "''</STMTTRN>'' = start_tag ''/STMTTRN''"
  by (simp_all add: name_ok_def start_tag_def)

lemma extract_transaction:
  assumes "ofx_line_ok E eight l"
  shows "extract_blocks ''<STMTTRN>'' ''</STMTTRN>'' (transaction eight l @ rest) =
    (line_feed # tagged (transaction_elements eight l)) # extract_blocks ''<STMTTRN>'' ''</STMTTRN>'' (line_feed # rest)"
proof -
  let ?body = "tagged (transaction_elements eight l)" and ?tail = "start_tag ''/STMTTRN'' @ line_feed # rest"
  have all: "transaction eight l @ rest = start_tag ''STMTTRN'' @ (line_feed # ?body @ ?tail)"
    by (simp add: transaction_def)
  have "split_at (start_tag ''/STMTTRN'') (?body @ ?tail) =
      map_option (\<lambda>(before, after). (?body @ before, after)) (split_at (start_tag ''/STMTTRN'') ?tail)"
    by (rule split_at_passes[OF statement_names(2)])
      (use transaction_elements_ok[OF assms] in \<open>fastforce simp: value_ok_def\<close>)+
  then have body: "split_at (start_tag ''/STMTTRN'') (?body @ ?tail) = Some (?body, line_feed # rest)"
    by (simp add: split_at_here)
  have "split_at (start_tag ''/STMTTRN'') ([line_feed] @ (?body @ ?tail)) =
      map_option (\<lambda>(before, after). ([line_feed] @ before, after)) (split_at (start_tag ''/STMTTRN'') (?body @ ?tail))"
    by (rule split_at_skips) (simp add: line_feed_def)
  then have "split_at (start_tag ''/STMTTRN'') (line_feed # ?body @ ?tail) = Some (line_feed # ?body, line_feed # rest)"
    unfolding body by (simp del: split_at.simps)
  then show ?thesis
    unfolding statement_names(3,4) all
    by (subst extract_blocks.simps) (simp only: split_at_here, simp add: start_tag_Cons)
qed

lemma extract_transactions:
  assumes "list_all (ofx_line_ok E eight) ls" "elements_ok trailer" "''STMTTRN'' \<notin> fst ` set trailer" "CHR ''<'' \<notin> set p"
  shows "extract_blocks ''<STMTTRN>'' ''</STMTTRN>'' (p @ concat (map (transaction eight) ls) @ tagged trailer) =
    map (\<lambda>l. line_feed # tagged (transaction_elements eight l)) ls"
  using assms(1,4)
proof (induction ls arbitrary: p)
  case Nil
  have ok: "name_ok name \<and> CHR ''<'' \<notin> set v" if "(name, v) \<in> set trailer" for name v
    using that assms(2) by (auto simp: elements_ok_def list_all_iff value_ok_def)
  have "split_at (start_tag ''STMTTRN'') (tagged trailer) = None"
    using split_at_passes[OF statement_names(1) assms(3) ok, of "[]"] by (simp add: start_tag_Cons)
  then have "split_at (start_tag ''STMTTRN'') (p @ tagged trailer) = None"
    using split_at_skips[OF Nil(2), of "''STMTTRN''" "tagged trailer"] by simp
  then show ?case by (subst extract_blocks.simps) (simp add: statement_names(3))
next
  case (Cons l ls)
  have skip: "extract_blocks ''<STMTTRN>'' ''</STMTTRN>'' (p @ s) = extract_blocks ''<STMTTRN>'' ''</STMTTRN>'' s" for s
    unfolding statement_names(3) by (rule extract_blocks_skip) (rule split_at_skips[OF Cons.prems(2)])
  have "extract_blocks ''<STMTTRN>'' ''</STMTTRN>'' (p @ concat (map (transaction eight) (l # ls)) @ tagged trailer) =
      extract_blocks ''<STMTTRN>'' ''</STMTTRN>'' (transaction eight l @ (concat (map (transaction eight) ls) @ tagged trailer))"
    unfolding skip by simp
  also have "\<dots> = (line_feed # tagged (transaction_elements eight l)) #
      extract_blocks ''<STMTTRN>'' ''</STMTTRN>'' ([line_feed] @ concat (map (transaction eight) ls) @ tagged trailer)"
    using extract_transaction[of E eight l] Cons.prems(1) by simp
  also have "\<dots> = map (\<lambda>l. line_feed # tagged (transaction_elements eight l)) (l # ls)"
    using Cons.IH[of "[line_feed]"] Cons.prems(1) by (simp add: line_feed_def)
  finally show ?case .
qed

lemma read_transactions:
  assumes "exact_amounts_read E" "list_all (ofx_line_ok E eight) ls"
  shows "try_map (parse_ofx_block E) (enumerate n (map (\<lambda>l. line_feed # tagged (transaction_elements eight l)) ls)) = Inr ls"
  using assms(2) by (induction ls arbitrary: n) (simp_all add: read_transaction[OF assms(1)])

text \<open>
  C35. An OFX file reads back. Transactions written a tag a line between a header and a trailer of any
  other tags are read as they were: date, amount to the cent, description and id, in their
  order, none skipped, repeated or mixed with a tag of another.
\<close>

theorem a_written_ofx_file_reads_back:
  assumes "exact_amounts_read E" and "list_all (ofx_line_ok E eight) ls"
    and "elements_ok header" and "''STMTTRN'' \<notin> fst ` set header"
    and "elements_ok trailer" and "''STMTTRN'' \<notin> fst ` set trailer"
  shows "parse_ofx E (ofx_file eight header ls trailer) = Inr ls"
proof -
  have ok: "name_ok name \<and> CHR ''<'' \<notin> set v" if "(name, v) \<in> set header" for name v
    using that assms(3) by (auto simp: elements_ok_def list_all_iff value_ok_def)
  have "extract_blocks ''<STMTTRN>'' ''</STMTTRN>'' (tagged header @ s) = extract_blocks ''<STMTTRN>'' ''</STMTTRN>'' s" for s
    unfolding statement_names(3) by (rule extract_blocks_skip) (rule split_at_passes[OF statement_names(1) assms(4) ok])
  then have "extract_blocks ''<STMTTRN>'' ''</STMTTRN>'' (ofx_file eight header ls trailer) =
      map (\<lambda>l. line_feed # tagged (transaction_elements eight l)) ls"
    using extract_transactions[OF assms(2,5,6), of "[]"] by (simp add: ofx_file_def)
  then show ?thesis by (simp add: parse_ofx_def read_transactions[OF assms(1,2)])
qed

definition plain_files :: file_env where
  "plain_files =
     \<lparr>fe_dec = reference_ops, fe_decimal = read_cents,
      fe_date = (\<lambda>fmt s. if s \<in> {''20260805'', ''08/05/2026''} then Some (Ymd 2026 8 5) else None),
      fe_show_date = (\<lambda>_. ''2026-08-05''), fe_quote = (\<lambda>s. s), fe_hash = (\<lambda>s. of_nat (length s))\<rparr>"

definition coffee :: "string option \<Rightarrow> parsed_line" where
  "coffee i = \<lparr>pl_posted_on = Ymd 2026 8 5, pl_amount = money_of (- 450), pl_description = ''COFFEE #12'', pl_external_id = i\<rparr>"

theorem a_written_ofx_file_reads_back_witness:
  "parse_ofx plain_files (ofx_file (\<lambda>_. ''20260805'') [(''OFX'', []), (''DTSTART'', ''20260801'')]
     [coffee (Some ''f-1''), coffee None] [(''LEDGERBAL'', []), (''BALAMT'', ''10.00''), (''/OFX'', [])]) =
   Inr [coffee (Some ''f-1''), coffee None]"
proof (rule a_written_ofx_file_reads_back)
  note ok = value_ok_def text_ok_def name_ok_def trim_printed printed_def line_feed_def carriage_return_def
  show "exact_amounts_read plain_files" by (simp add: exact_amounts_read_def plain_files_def reference_laws cents_read)
  show "list_all (ofx_line_ok plain_files (\<lambda>_. ''20260805'')) [coffee (Some ''f-1''), coffee None]"
    by (simp add: ofx_line_ok_def coffee_def plain_files_def is_ascii_digit_def ok)
  show "elements_ok [(''OFX'', []), (''DTSTART'', ''20260801'')]"
    "elements_ok [(''LEDGERBAL'', []), (''BALAMT'', ''10.00''), (''/OFX'', [])]"
    by (simp_all add: elements_ok_def ok)
qed simp_all

end
