(* ===== verification/Budget.thy ===== *)
theory Budget
  imports Runs
begin

text \<open>
  \<open>apps/qbo-local/src/budget.rs\<close>: the ceiling on calls to Intuit a day. A budget counts in a file other
  processes may share, or in memory; the file is what \<open>serde_json\<close> reads it as. \<open>spend\<close> is a check, which
  reads, and a commit, which writes; nothing keeps another process from coming between the two.
\<close>

section \<open>The ledger of calls\<close>

type_synonym u32 = "32 word"

record call_ledger =
  cl_day :: naive_date
  cl_calls :: u32

datatype ledger_file = NoFile | Unreadable string | Holds call_ledger

record budget_exhausted =
  bx_day :: naive_date
  bx_used :: u32
  bx_limit :: u32

datatype spend_error = Exhausted budget_exhausted | LedgerIo string

datatype budget_message = Stop naive_date budget_exhausted | UsedToday naive_date u32 u32

record call_budget =
  cb_path :: "string option"
  cb_limit :: u32
  cb_in_memory :: "call_ledger option"
  cb_warned :: "naive_date option"
  cb_announced :: "naive_date option"

text \<open>The budget and what it acts on: the files by path, and the daemon's log.\<close>

record budget_world =
  bw_budget :: call_budget
  bw_files :: "string \<Rightarrow> ledger_file"
  bw_log :: "budget_message list"

definition DEFAULT_DAILY_CALLS :: u32 where
  "DEFAULT_DAILY_CALLS = 15000"

definition WARN_AT_PERCENT :: nat where
  "WARN_AT_PERCENT = 80"

definition persistent :: "string \<Rightarrow> u32 \<Rightarrow> call_budget" where
  "persistent path limit =
     \<lparr>cb_path = Some path, cb_limit = limit, cb_in_memory = None, cb_warned = None, cb_announced = None\<rparr>"

definition in_memory :: "u32 \<Rightarrow> call_budget" where
  "in_memory limit =
     \<lparr>cb_path = None, cb_limit = limit, cb_in_memory = None, cb_warned = None, cb_announced = None\<rparr>"

definition unlimited :: call_budget where
  "unlimited = in_memory (- 1)"

definition resets_at :: "(naive_date \<Rightarrow> naive_date) \<Rightarrow> budget_exhausted \<Rightarrow> naive_date \<times> nat" where
  "resets_at next_day self = (next_day (bx_day self), 0)"

section \<open>Spending\<close>

definition load_ledger :: "naive_date \<Rightarrow> budget_world \<Rightarrow> string + call_ledger" where
  "load_ledger today w =
     and_then
       (case cb_path (bw_budget w) of
          None \<Rightarrow> Inr (cb_in_memory (bw_budget w))
        | Some path \<Rightarrow>
            (case bw_files w path of
               Holds ledger \<Rightarrow> Inr (Some ledger)
             | NoFile \<Rightarrow> Inr None
             | Unreadable e \<Rightarrow> Inl e)) (\<lambda>stored.
     Inr (case stored of
         Some ledger \<Rightarrow> if cl_day ledger = today then ledger else \<lparr>cl_day = today, cl_calls = 0\<rparr>
       | None \<Rightarrow> \<lparr>cl_day = today, cl_calls = 0\<rparr>))"

definition used :: "naive_date \<Rightarrow> budget_world \<Rightarrow> string + u32" where
  "used today w = and_then (load_ledger today w) (\<lambda>ledger. Inr (cl_calls ledger))"

text \<open>The write is refused when the disk refuses it.\<close>

definition store_ledger :: "string option \<Rightarrow> call_ledger \<Rightarrow> (budget_world, string, unit) stateful" where
  "store_ledger disk_error ledger w =
     (case cb_path (bw_budget w) of
        None \<Rightarrow> (Inr (), w\<lparr>bw_budget := (bw_budget w)\<lparr>cb_in_memory := Some ledger\<rparr>\<rparr>)
      | Some path \<Rightarrow>
          (case disk_error of
             Some e \<Rightarrow> (Inl e, w)
           | None \<Rightarrow> (Inr (), w\<lparr>bw_files := (bw_files w)(path := Holds ledger)\<rparr>)))"

definition spend_check :: "naive_date \<Rightarrow> (budget_world, spend_error, call_ledger) stateful" where
  "spend_check today =
     and_run (lift_run LedgerIo (reading (load_ledger today))) (\<lambda>ledger w.
       let self = bw_budget w in
       if cb_limit self \<le> cl_calls ledger then
         let exhausted = \<lparr>bx_day = today, bx_used = cl_calls ledger, bx_limit = cb_limit self\<rparr> in
         (Inl (Exhausted exhausted),
          if cb_announced self \<noteq> Some today
          then w\<lparr>bw_budget := self\<lparr>cb_announced := Some today\<rparr>, bw_log := bw_log w @ [Stop today exhausted]\<rparr>
          else w)
       else (Inr (ledger\<lparr>cl_calls := cl_calls ledger + 1\<rparr>), w))"

definition spend_commit :: "string option \<Rightarrow> naive_date \<Rightarrow> call_ledger \<Rightarrow> (budget_world, spend_error, u32) stateful" where
  "spend_commit disk_error today ledger =
     and_run (lift_run LedgerIo (store_ledger disk_error ledger)) (\<lambda>_ w.
       let self = bw_budget w; warn_at = unat (cb_limit self) * WARN_AT_PERCENT div 100 in
       (Inr (cl_calls ledger),
        if warn_at \<le> unat (cl_calls ledger) \<and> cb_warned self \<noteq> Some today
        then w\<lparr>bw_budget := self\<lparr>cb_warned := Some today\<rparr>,
               bw_log := bw_log w @ [UsedToday today (cl_calls ledger) (cb_limit self)]\<rparr>
        else w))"

definition spend_call :: "string option \<Rightarrow> naive_date \<Rightarrow> (budget_world, spend_error, u32) stateful" where
  "spend_call disk_error today = and_run (spend_check today) (spend_commit disk_error today)"

section \<open>What one spend does\<close>

lemma loaded_day:
  assumes "load_ledger today w = Inr ledger"
  shows "cl_day ledger = today"
proof -
  obtain stored where "ledger = (case stored of
      Some ledger \<Rightarrow> if cl_day ledger = today then ledger else \<lparr>cl_day = today, cl_calls = 0\<rparr>
    | None \<Rightarrow> \<lparr>cl_day = today, cl_calls = 0\<rparr>)"
    using assms unfolding load_ledger_def and_then_Inr_iff by blast
  then show ?thesis by (simp split: option.split)
qed

text \<open>How many calls the ledger of \<open>today\<close> counts, where it can be read.\<close>

lemma spend_Inr:
  assumes "spend_call disk_error today w = (Inr n, w')"
  obtains ledger where "load_ledger today w = Inr ledger" "cl_calls ledger < cb_limit (bw_budget w)"
    "unat n = unat (cl_calls ledger) + 1" "load_ledger today w' = Inr \<lparr>cl_day = today, cl_calls = n\<rparr>"
    "cb_limit (bw_budget w') = cb_limit (bw_budget w)" "cb_path (bw_budget w') = cb_path (bw_budget w)"
proof -
  from assms obtain ledger w1 where c: "load_ledger today w = Inr ledger" "cl_calls ledger < cb_limit (bw_budget w)"
    and s: "spend_commit disk_error today (ledger\<lparr>cl_calls := cl_calls ledger + 1\<rparr>) w = (Inr n, w')"
    by (auto simp: spend_call_def spend_check_def Let_def not_le split: if_splits)
  have day: "cl_day ledger = today"
    by (rule loaded_day[OF c(1)])
  have n: "n = cl_calls ledger + 1" using s by (auto simp: spend_commit_def Let_def)
  have "unat n = unat (cl_calls ledger) + 1"
  proof -
    have "unat (cl_calls ledger) + 1 < 2 ^ 32"
    proof -
      have "unat (cb_limit (bw_budget w)) < 2 ^ 32" using unsigned_less[of "cb_limit (bw_budget w)"] by simp
      then show ?thesis using c(2) by (simp add: word_less_nat_alt)
    qed
    then show ?thesis by (simp add: n unat_word_ariths(1))
  qed
  moreover have "load_ledger today w' = Inr \<lparr>cl_day = today, cl_calls = n\<rparr>"
    "cb_limit (bw_budget w') = cb_limit (bw_budget w)" "cb_path (bw_budget w') = cb_path (bw_budget w)"
    using s day by (auto simp: spend_commit_def store_ledger_def load_ledger_def Let_def n split: option.splits if_splits)
  ultimately show thesis using that c by blast
qed

section \<open>A day of calls\<close>

text \<open>
  Spends one after another on one file, each by whatever budget: other processes, restarts. The days
  of the calls that were let through.
\<close>

fun spend_all ::
  "(call_budget \<times> string option \<times> naive_date) list \<Rightarrow> (string \<Rightarrow> ledger_file) \<Rightarrow> naive_date list" where
  "spend_all [] files = []"
| "spend_all ((budget, disk_error, today) # spends) files =
     (case spend_call disk_error today \<lparr>bw_budget = budget, bw_files = files, bw_log = []\<rparr> of
        (Inr _, w) \<Rightarrow> today # spend_all spends (bw_files w)
      | (Inl _, w) \<Rightarrow> spend_all spends (bw_files w))"

definition counted :: "string \<Rightarrow> naive_date \<Rightarrow> (string \<Rightarrow> ledger_file) \<Rightarrow> nat" where
  "counted path d files =
     (case files path of Holds ledger \<Rightarrow> if cl_day ledger = d then unat (cl_calls ledger) else 0 | _ \<Rightarrow> 0)"

lemma failed_spend_files:
  assumes "spend_call disk_error today w = (Inl e, w')"
  shows "bw_files w' = bw_files w"
  using assms
  by (auto simp: spend_call_def spend_check_def spend_commit_def store_ledger_def and_run_Inl lift_run_Inl Let_def
      split: if_splits option.splits)

lemma spend_counts:
  assumes "spend_call disk_error today \<lparr>bw_budget = budget, bw_files = files, bw_log = []\<rparr> = (Inr n, w)" "cb_path budget = Some path"
  shows "counted path today files < unat (cb_limit budget)" "counted path today (bw_files w) = counted path today files + 1"
proof -
  obtain ledger where l: "load_ledger today \<lparr>bw_budget = budget, bw_files = files, bw_log = []\<rparr> = Inr ledger"
    "cl_calls ledger < cb_limit budget" "unat n = unat (cl_calls ledger) + 1"
    "load_ledger today w = Inr \<lparr>cl_day = today, cl_calls = n\<rparr>" "cb_path (bw_budget w) = Some path"
    by (rule spend_Inr[OF assms(1)]) (use assms(2) that in simp)
  have read: "unat (cl_calls x) = counted path today (bw_files v)"
    if "load_ledger today v = Inr x" "cb_path (bw_budget v) = Some path" for v x
    using that(1) unfolding load_ledger_def that(2) counted_def by (cases "bw_files v path") auto
  show "counted path today files < unat (cb_limit budget)"
    using read[OF l(1)] l(2) assms(2) by (simp add: word_less_nat_alt)
  show "counted path today (bw_files w) = counted path today files + 1"
    using read[OF l(1)] read[OF l(4,5)] l(3) assms(2) by simp
qed

lemma calls_from:
  assumes "list_all (\<lambda>(b, _, today). cb_path b = Some path \<and> unat (cb_limit b) \<le> L \<and> d \<le> today) spends"
    and "sorted (map (\<lambda>(_, _, today). today) spends)"
  shows "count_list (spend_all spends files) d \<le> L - counted path d files"
  using assms
proof (induction spends arbitrary: files)
  case (Cons s spends)
  obtain b disk_error today where s: "s = (b, disk_error, today)" by (cases s)
  let ?w = "\<lparr>bw_budget = b, bw_files = files, bw_log = []\<rparr>"
  have IH: "count_list (spend_all spends f) d \<le> L - counted path d f" for f
    using Cons.IH Cons.prems by (simp add: s)
  obtain r w where run: "spend_call disk_error today ?w = (r, w)" by (cases "spend_call disk_error today ?w")
  show ?case
  proof (cases r)
    case (Inl e)
    then show ?thesis using run IH[of files] failed_spend_files[of disk_error today ?w e w] by (simp add: s)
  next
    case (Inr n)
    have spent: "counted path today files < unat (cb_limit b)" "counted path today (bw_files w) = counted path today files + 1"
      using spend_counts[of disk_error today b files n w path] run Inr Cons.prems(1) by (simp_all add: s)
    show ?thesis
    proof (cases "today = d")
      case True
      then show ?thesis using run Inr IH[of "bw_files w"] spent Cons.prems(1) by (auto simp add: s)
    next
      case False
      have "d < today" "\<forall>x \<in> set spends. today \<le> snd (snd x)"
        using False Cons.prems by (auto simp: s split: prod.splits)
      then have later: "d \<notin> set (spend_all spends f)" for f
      proof (induction spends arbitrary: f)
        case (Cons x xs)
        then show ?case by (cases x) (auto split: prod.splits sum.splits)
      qed simp
      then have "count_list (spend_all spends (bw_files w)) d = 0" by (simp add: count_list_0_iff)
      then show ?thesis using run Inr False by (simp add: s)
    qed
  qed
qed simp

text \<open>
  C36. The ceiling holds where calls are spent one at a time. Whatever processes and restarts share the file
  of calls, each with a limit of at most \<open>L\<close>, as long as the clock does not go back a day and no two
  of them spend at the same moment, at most \<open>L\<close> calls are let through on any day.
\<close>

theorem daily_ceiling_holds:
  assumes "list_all (\<lambda>(b, _, _). cb_path b = Some path \<and> unat (cb_limit b) \<le> L) spends"
    and "sorted (map (\<lambda>(_, _, today). today) spends)"
  shows "count_list (spend_all spends files) d \<le> L"
  using assms
proof (induction spends arbitrary: files)
  case (Cons s spends)
  obtain b disk_error today where s: "s = (b, disk_error, today)" by (cases s)
  show ?case
  proof (cases "d \<le> today")
    case True
    have "list_all (\<lambda>(b, _, today). cb_path b = Some path \<and> unat (cb_limit b) \<le> L \<and> d \<le> today) (s # spends)"
      using Cons.prems True by (fastforce simp: s list_all_iff)
    then show ?thesis using calls_from[OF _ Cons.prems(2), of path L d files] by simp
  next
    case False
    have "count_list (spend_all spends f) d \<le> L" for f using Cons.IH Cons.prems by (simp add: s)
    then show ?thesis using False by (auto simp: s split: prod.split sum.split)
  qed
qed simp

theorem daily_ceiling_holds_witness:
  "count_list (spend_all (replicate 4 (persistent ''calls'' 3, None, Ymd 2026 10 23)) (\<lambda>_. NoFile)) (Ymd 2026 10 23) \<le> 3"
  by (rule daily_ceiling_holds[where path = "''calls''"]) (simp_all add: persistent_def numeral_eq_Suc)

section \<open>Two at the same moment\<close>

text \<open>
  Processes that share the file: a step of a process checks, or commits what its check let
  through, which is when the call goes out.
\<close>

datatype race_move = Check nat | Commit nat

record race =
  rc_files :: "string \<Rightarrow> ledger_file"
  rc_budgets :: "nat \<Rightarrow> call_budget"
  rc_pending :: "nat \<Rightarrow> call_ledger option"
  rc_sent :: "nat list"

definition race_world :: "race \<Rightarrow> nat \<Rightarrow> budget_world" where
  "race_world s i = \<lparr>bw_budget = rc_budgets s i, bw_files = rc_files s, bw_log = []\<rparr>"

fun race_step :: "naive_date \<Rightarrow> race \<Rightarrow> race_move \<Rightarrow> race" where
  "race_step today s (Check i) =
     (case spend_check today (race_world s i) of
        (Inr ledger, w) \<Rightarrow> s\<lparr>rc_budgets := (rc_budgets s)(i := bw_budget w), rc_pending := (rc_pending s)(i := Some ledger)\<rparr>
      | (Inl _, w) \<Rightarrow> s\<lparr>rc_budgets := (rc_budgets s)(i := bw_budget w)\<rparr>)"
| "race_step today s (Commit i) =
     (case rc_pending s i of
        None \<Rightarrow> s
      | Some ledger \<Rightarrow>
          (case spend_commit None today ledger (race_world s i) of
             (Inr _, w) \<Rightarrow> \<lparr>rc_files = bw_files w, rc_budgets = (rc_budgets s)(i := bw_budget w),
                 rc_pending = (rc_pending s)(i := None), rc_sent = rc_sent s @ [i]\<rparr>
           | (Inl _, w) \<Rightarrow> s\<lparr>rc_pending := (rc_pending s)(i := None)\<rparr>))"

definition race_start :: "string \<Rightarrow> u32 \<Rightarrow> race" where
  "race_start path limit =
     \<lparr>rc_files = (\<lambda>_. NoFile), rc_budgets = (\<lambda>_. persistent path limit), rc_pending = (\<lambda>_. None), rc_sent = []\<rparr>"

lemma race_checks:
  assumes "0 < limit"
  shows "foldl (race_step today) (race_start path limit) (map Check [0..<n]) =
    (race_start path limit)\<lparr>rc_pending := (\<lambda>i. if i < n then Some \<lparr>cl_day = today, cl_calls = 1\<rparr> else None)\<rparr>"
proof (induction n)
  case (Suc n)
  have "(\<lambda>i. if i < n then Some \<lparr>cl_day = today, cl_calls = 1\<rparr> else None)(n := Some \<lparr>cl_day = today, cl_calls = 1\<rparr>) =
      (\<lambda>i. if i < Suc n then Some \<lparr>cl_day = today, cl_calls = (1 :: u32)\<rparr> else None)"
    by (auto simp: less_Suc_eq)
  then show ?case
    using assms Suc
    by (simp add: spend_check_def and_run_def lift_run_def reading_def load_ledger_def race_world_def race_start_def persistent_def
        Let_def not_le[symmetric] fun_upd_idem)
qed (simp add: race_start_def)

lemma race_commits:
  assumes "\<And>i. i < m \<Longrightarrow> rc_pending s i = Some \<lparr>cl_day = today, cl_calls = 1\<rparr>" "\<And>i. cb_path (rc_budgets s i) = Some path"
  shows "rc_sent (foldl (race_step today) s (map Commit [0..<m])) = rc_sent s @ [0..<m] \<and>
    (\<forall>i \<ge> m. rc_pending (foldl (race_step today) s (map Commit [0..<m])) i = rc_pending s i) \<and>
    (\<forall>i. cb_path (rc_budgets (foldl (race_step today) s (map Commit [0..<m])) i) = Some path) \<and>
    (0 < m \<longrightarrow> rc_files (foldl (race_step today) s (map Commit [0..<m])) path = Holds \<lparr>cl_day = today, cl_calls = 1\<rparr>)"
  using assms(1)
proof (induction m)
  case (Suc m)
  let ?s = "foldl (race_step today) s (map Commit [0..<m])"
  have IH: "rc_sent ?s = rc_sent s @ [0..<m]" "\<forall>i \<ge> m. rc_pending ?s i = rc_pending s i"
    "\<forall>i. cb_path (rc_budgets ?s i) = Some path"
    using Suc by simp_all
  then have "rc_pending ?s m = Some \<lparr>cl_day = today, cl_calls = 1\<rparr>" using Suc.prems by simp
  then show ?case
    using IH by (simp add: spend_commit_def and_run_def lift_run_def store_ledger_def race_world_def Let_def)
qed (use assms(2) in simp)

text \<open>
  At the same moment the ceiling does not hold. With a limit of one call, any number of processes whose
  checks come before the others' writes all send: as many calls go out as there are processes, and
  the file counts one.
\<close>

theorem a_race_breaks_the_ceiling:
  "let s = foldl (race_step today) (race_start path 1) (map Check [0..<n] @ map Commit [0..<n])
   in length (rc_sent s) = n \<and> counted path today (rc_files s) = min n 1"
proof -
  let ?p = "(race_start path 1)\<lparr>rc_pending := (\<lambda>i. if i < n then Some \<lparr>cl_day = today, cl_calls = 1\<rparr> else None)\<rparr>"
  have first: "foldl (race_step today) (race_start path 1) (map Check [0..<n]) = ?p"
    by (rule race_checks) simp
  have "rc_sent (foldl (race_step today) ?p (map Commit [0..<n])) = [0..<n] \<and>
      (0 < n \<longrightarrow> rc_files (foldl (race_step today) ?p (map Commit [0..<n])) path = Holds \<lparr>cl_day = today, cl_calls = 1\<rparr>)"
    using race_commits[of n ?p today path] by (simp add: race_start_def persistent_def)
  then show ?thesis
    using first by (cases n) (simp_all add: Let_def counted_def race_start_def)
qed

end
